(* ===== verification/Prelude.thy ===== *)
theory Prelude
  imports Complex_Main "HOL-Library.Word" "HOL-Library.Multiset" "HOL-Library.Monad_Syntax"
begin

text \<open>
  The prelude of the development: the named collections the component theories fill and the
  generic facts on lists, maps, options and rationals that they share.  Nothing here models
  code of the repository.

  Conventions used everywhere.  A Go function that returns \<open>(T, error)\<close> is a HOL function
  into \<open>error + T\<close> (\<open>Inl\<close> is the error).  A Go function that can panic returns
  \<open>T option\<close>, where \<open>None\<close> is the panic.  A method that changes its receiver takes the
  receiver and returns it updated.
\<close>

named_theorems go_arith \<comment> \<open>wrap-around, saturation, truncating division\<close>
named_theorems step_simps \<comment> \<open>unfolding of one operation of a component\<close>

section \<open>Lists\<close>

lemma sum_list_nonneg_rat:
  "(\<And>x. x \<in> set xs \<Longrightarrow> (0::rat) \<le> f x) \<Longrightarrow> 0 \<le> (\<Sum>x\<leftarrow>xs. f x)"
  by (induction xs) auto

lemma sum_list_filter_split:
  fixes f :: "'a \<Rightarrow> rat"
  shows "(\<Sum>x\<leftarrow>xs. f x) = (\<Sum>x\<leftarrow>filter P xs. f x) + (\<Sum>x\<leftarrow>filter (\<lambda>x. \<not> P x) xs. f x)"
  by (induction xs) auto

lemma sum_list_filter_zero:
  fixes f :: "'a \<Rightarrow> rat"
  assumes "\<And>x. x \<in> set xs \<Longrightarrow> \<not> P x \<Longrightarrow> f x = 0"
  shows "(\<Sum>x\<leftarrow>filter P xs. f x) = (\<Sum>x\<leftarrow>xs. f x)"
  using assms by (induction xs) auto

lemma foldl_add_sum_list:
  fixes f :: "'a \<Rightarrow> rat"
  shows "foldl (\<lambda>s x. s + f x) a xs = a + (\<Sum>x\<leftarrow>xs. f x)"
  by (induction xs arbitrary: a) auto

section \<open>Association lists read as maps\<close>

lemma map_of_perm:
  assumes "mset xs = mset ys" and "distinct (map fst xs)"
  shows "map_of xs = map_of ys"
proof -
  have d: "distinct (map fst ys)"
    using assms by (metis mset_map mset_eq_imp_distinct_iff)
  show ?thesis
    using assms d by (metis map_of_inject_set set_mset_mset)
qed

section \<open>Rationals\<close>

lemma rat_mult_right_mono:
  "(a::rat) \<le> b \<Longrightarrow> 0 \<le> c \<Longrightarrow> a * c \<le> b * c"
  by (rule mult_right_mono)

lemma abs_le_iff_rat: "\<bar>x::rat\<bar> \<le> e \<longleftrightarrow> - e \<le> x \<and> x \<le> e"
  by auto

section \<open>Runs of consecutive elements\<close>

text \<open>The elements satisfying \<open>P\<close> at the end of a list, and a run of \<open>n\<close> of them anywhere in it.\<close>

definition trailing_run :: "('a \<Rightarrow> bool) \<Rightarrow> 'a list \<Rightarrow> nat" where
  "trailing_run P xs = length (takeWhile P (rev xs))"

definition has_run :: "('a \<Rightarrow> bool) \<Rightarrow> nat \<Rightarrow> 'a list \<Rightarrow> bool" where
  "has_run P n ys \<longleftrightarrow> (\<exists>us xs vs. ys = us @ xs @ vs \<and> length xs = n \<and> (\<forall>x\<in>set xs. P x))"

lemma trailing_run_simps [simp]:
  "trailing_run P [] = 0"
  "trailing_run P (xs @ [x]) = (if P x then Suc (trailing_run P xs) else 0)"
  by (simp_all add: trailing_run_def)

lemma has_run_Nil [simp]: "has_run P n [] \<longleftrightarrow> n = 0"
  by (auto simp: has_run_def)

lemma trailing_run_suffix:
  "\<exists>us xs. ys = us @ xs \<and> length xs = trailing_run P ys \<and> (\<forall>x\<in>set xs. P x)"
proof -
  have "ys = rev (dropWhile P (rev ys)) @ rev (takeWhile P (rev ys))"
    by (metis rev_append rev_rev_ident takeWhile_dropWhile_id)
  moreover have "\<forall>x\<in>set (rev (takeWhile P (rev ys))). P x"
    by (auto dest: set_takeWhileD)
  ultimately show ?thesis by (metis length_rev trailing_run_def)
qed

lemma suffix_trailing_run: "\<forall>x\<in>set xs. P x \<Longrightarrow> length xs \<le> trailing_run P (us @ xs)"
  by (induction xs rule: rev_induct) (simp_all flip: append_assoc)

lemma has_run_append: "has_run P n xs \<Longrightarrow> has_run P n (xs @ ys)"
  unfolding has_run_def by (metis append_assoc)

lemma has_run_trailing:
  assumes "n \<le> trailing_run P ys"
  shows "has_run P n ys"
proof -
  obtain us xs where "ys = us @ xs" "length xs = trailing_run P ys" "\<forall>x\<in>set xs. P x"
    using trailing_run_suffix [of ys P] by (elim exE conjE)
  then show ?thesis
    unfolding has_run_def using assms set_take_subset [of n xs]
    by (intro exI [of _ us] exI [of _ "take n xs"] exI [of _ "drop n xs"]) auto
qed

lemma has_run_snoc: "has_run P n (ys @ [y]) \<longleftrightarrow> has_run P n ys \<or> n \<le> trailing_run P (ys @ [y])"
proof
  assume "has_run P n (ys @ [y])"
  then obtain us xs vs where e: "ys @ [y] = us @ xs @ vs" "length xs = n" "\<forall>x\<in>set xs. P x"
    unfolding has_run_def by blast
  show "has_run P n ys \<or> n \<le> trailing_run P (ys @ [y])"
  proof (cases vs rule: rev_cases)
    case Nil
    then show ?thesis using e suffix_trailing_run [of xs P us] by simp
  next
    case (snoc vs' v)
    then have "ys = us @ xs @ vs'" using e(1) by (metis append_assoc butlast_snoc)
    then show ?thesis using e unfolding has_run_def by blast
  qed
qed (auto intro: has_run_append has_run_trailing)

text \<open>The first run is met when the trailing one reaches its length.\<close>

lemma no_run_trailing: "\<not> has_run P n ys \<Longrightarrow> trailing_run P ys < n"
  by (metis has_run_trailing not_le)

end
