(* ===== verification/GoLib.thy ===== *)
theory GoLib
  imports Prelude "HOL-Library.Char_ord" "HOL-Library.List_Lexorder"
begin

text \<open>
  The parts of the Go language and its standard library the repository uses: 64-bit integer
  wrap-around, truncating division, \<open>time.Time\<close> and \<open>time.Duration\<close>, decimal formatting of
  integers (\<open>strconv\<close>, \<open>fmt\<close>), a few functions of \<open>strings\<close>, and \<open>sort.SliceStable\<close>.
  Go strings are byte strings; the model's \<open>string\<close> is a list of bytes, and case conversion
  and space trimming are those of ASCII text.
\<close>

section \<open>Integers\<close>

definition int64_max :: int where "int64_max = 2 ^ 63 - 1"
definition int64_min :: int where "int64_min = - (2 ^ 63)"

definition in_i64 :: "int \<Rightarrow> bool" where
  "in_i64 x \<longleftrightarrow> int64_min \<le> x \<and> x \<le> int64_max"

text \<open>Two's complement wrap-around of a result to 64 bits.\<close>

definition i64 :: "int \<Rightarrow> int" where
  "i64 x = (x + 2 ^ 63) mod 2 ^ 64 - 2 ^ 63"

lemma i64_range [go_arith]: "in_i64 (i64 x)"
proof -
  have "0 \<le> (x + 2 ^ 63) mod 2 ^ 64" and "(x + 2 ^ 63) mod 2 ^ 64 < 2 ^ 64"
    by simp_all
  then show ?thesis
    unfolding in_i64_def i64_def int64_min_def int64_max_def by simp
qed

lemma i64_id [go_arith]: "in_i64 x \<Longrightarrow> i64 x = x"
  by (simp add: in_i64_def i64_def int64_min_def int64_max_def)

lemma i64_id_iff: "i64 x = x \<longleftrightarrow> in_i64 x"
  using i64_id i64_range by metis

text \<open>The quotient of Go's \<open>/\<close> on integers, rounded towards zero.\<close>

definition go_quot :: "int \<Rightarrow> int \<Rightarrow> int" where
  "go_quot num den = sgn num * sgn den * (\<bar>num\<bar> div \<bar>den\<bar>)"

lemma go_quot_nonneg [go_arith]: "0 \<le> a \<Longrightarrow> 0 < b \<Longrightarrow> go_quot a b = a div b"
  by (cases "a = 0") (auto simp: go_quot_def)

lemma go_quot_mono_pos:
  assumes "0 < b" and "a \<le> a'"
  shows "go_quot a b \<le> go_quot a' b"
proof (cases "0 \<le> a")
  case True
  then show ?thesis using assms by (simp add: go_quot_nonneg zdiv_mono1)
next
  case neg: False
  show ?thesis
  proof (cases "0 \<le> a'")
    case True
    have "go_quot a b \<le> 0"
      using neg assms by (simp add: go_quot_def pos_imp_zdiv_nonneg_iff)
    also have "0 \<le> go_quot a' b"
      using True assms by (simp add: go_quot_nonneg pos_imp_zdiv_nonneg_iff)
    finally show ?thesis .
  next
    case False
    then have "(- a') div b \<le> (- a) div b" using assms by (simp add: zdiv_mono1)
    then show ?thesis using neg False assms by (simp add: go_quot_def)
  qed
qed

section \<open>Time\<close>

text \<open>
  An instant is its number of nanoseconds since the Unix epoch.  A \<open>Duration\<close> is a 64-bit
  number of nanoseconds: \<open>Sub\<close> saturates, arithmetic on durations wraps.
\<close>

type_synonym time = int
type_synonym duration = int

definition zero_time :: time where "zero_time = - 62135596800 * 10 ^ 9"
definition Nanos_per_second :: duration where "Nanos_per_second = 10 ^ 9"

abbreviation Second :: duration where "Second \<equiv> 1000000000"
abbreviation Millisecond :: duration where "Millisecond \<equiv> 1000000"
abbreviation Minute :: duration where "Minute \<equiv> 60000000000"

definition sat64 :: "int \<Rightarrow> int" where
  "sat64 x = max int64_min (min int64_max x)"

definition time_Sub :: "time \<Rightarrow> time \<Rightarrow> duration" where
  "time_Sub t u = sat64 (t - u)"

definition time_Add :: "time \<Rightarrow> duration \<Rightarrow> time" where
  "time_Add t d = t + d"

definition time_After :: "time \<Rightarrow> time \<Rightarrow> bool" where
  "time_After t u \<longleftrightarrow> t > u"

definition time_IsZero :: "time \<Rightarrow> bool" where
  "time_IsZero t \<longleftrightarrow> t = zero_time"

lemma sat64_mono [go_arith]: "x \<le> y \<Longrightarrow> sat64 x \<le> sat64 y"
  by (auto simp: sat64_def)

lemma sat64_id [go_arith]: "in_i64 x \<Longrightarrow> sat64 x = x"
  by (auto simp: sat64_def in_i64_def)

lemma sat64_le_iff:
  "int64_min \<le> d \<Longrightarrow> d < int64_max \<Longrightarrow> sat64 x \<le> d \<longleftrightarrow> x \<le> d"
  by (auto simp: sat64_def int64_min_def int64_max_def)

lemma time_Sub_le_iff:
  "0 \<le> d \<Longrightarrow> d < int64_max \<Longrightarrow> time_Sub t u \<le> d \<longleftrightarrow> t - u \<le> d"
  unfolding time_Sub_def by (rule sat64_le_iff) (auto simp: int64_min_def)

section \<open>Maps\<close>

text \<open>Reading a missing key of a Go map yields the zero value of its element type.\<close>

definition get_or :: "('k \<rightharpoonup> 'v) \<Rightarrow> 'k \<Rightarrow> 'v \<Rightarrow> 'v" where
  "get_or m k d = (case m k of None \<Rightarrow> d | Some v \<Rightarrow> v)"

lemma get_or_upd [simp]: "get_or (m(k \<mapsto> v)) k' d = (if k' = k then v else get_or m k' d)"
  by (simp add: get_or_def)

section \<open>Decimal numerals\<close>

definition digit_char :: "nat \<Rightarrow> char" where
  "digit_char d = char_of (48 + d)"

definition is_digit :: "char \<Rightarrow> bool" where
  "is_digit c \<longleftrightarrow> of_char c \<ge> (48::nat) \<and> of_char c \<le> (57::nat)"

definition digit_val :: "char \<Rightarrow> nat" where
  "digit_val c = of_char c - 48"

text \<open>\<open>strconv.FormatUint(n, 10)\<close>.\<close>

fun format_uint :: "nat \<Rightarrow> string" where
  "format_uint n =
     (if n < 10 then [digit_char n] else format_uint (n div 10) @ [digit_char (n mod 10)])"

declare format_uint.simps [simp del]

text \<open>\<open>strconv.FormatInt(i, 10)\<close> and the verb \<open>%d\<close>.\<close>

definition format_int :: "int \<Rightarrow> string" where
  "format_int i = (if i < 0 then CHR ''-'' # format_uint (nat (- i)) else format_uint (nat i))"

text \<open>The number a string of digits denotes.\<close>

definition read_uint :: "string \<Rightarrow> nat" where
  "read_uint s = foldl (\<lambda>a c. 10 * a + digit_val c) 0 s"

lemma of_char_digit_char: "d < 10 \<Longrightarrow> of_char (digit_char d) = (48 + d :: nat)"
  by (simp add: digit_char_def)

lemma digit_val_digit_char [simp]: "d < 10 \<Longrightarrow> digit_val (digit_char d) = d"
  by (simp add: digit_val_def of_char_digit_char)

lemma is_digit_digit_char [simp]: "d < 10 \<Longrightarrow> is_digit (digit_char d)"
  by (simp add: is_digit_def of_char_digit_char)

lemma format_uint_nonempty [simp]: "format_uint n \<noteq> []"
  by (subst format_uint.simps) simp

lemma format_uint_digits: "c \<in> set (format_uint n) \<Longrightarrow> is_digit c"
proof (induction n rule: format_uint.induct)
  case (1 n)
  then show ?case
    by (subst (asm) (2) format_uint.simps) (auto split: if_splits)
qed

lemma read_uint_snoc: "read_uint (s @ [c]) = 10 * read_uint s + digit_val c"
  by (simp add: read_uint_def)

lemma read_format_uint [simp]: "read_uint (format_uint n) = n"
proof (induction n rule: format_uint.induct)
  case (1 n)
  show ?case
  proof (cases "n < 10")
    case True
    then show ?thesis by (subst format_uint.simps) (simp add: read_uint_def)
  next
    case False
    then have "format_uint n = format_uint (n div 10) @ [digit_char (n mod 10)]"
      by (subst format_uint.simps) simp
    then show ?thesis using "1.IH" False by (simp add: read_uint_snoc)
  qed
qed

lemma format_uint_inj: "format_uint m = format_uint n \<Longrightarrow> m = n"
  by (metis read_format_uint)

lemma format_uint_length: "n < 10 ^ k \<Longrightarrow> 0 < k \<Longrightarrow> length (format_uint n) \<le> k"
proof (induction n arbitrary: k rule: format_uint.induct)
  case (1 n)
  show ?case
  proof (cases "n < 10")
    case True
    then show ?thesis using 1 by (subst format_uint.simps) simp
  next
    case False
    have k: "1 < k"
    proof (rule ccontr)
      assume "\<not> 1 < k"
      then have "k = 1" using 1 by simp
      then show False using 1 False by simp
    qed
    then obtain k' where k': "k = Suc k'" "0 < k'" by (cases k) auto
    have "n div 10 < 10 ^ k'"
      using 1 k' by (simp add: less_mult_imp_div_less mult.commute)
    then have "length (format_uint (n div 10)) \<le> k'"
      using "1.IH" False k' by simp
    then show ?thesis using False k' by (subst format_uint.simps) simp
  qed
qed

lemma is_digit_not_minus [simp]: "\<not> is_digit (CHR ''-'')" "\<not> is_digit (CHR ''_'')"
  "\<not> is_digit (CHR ''.'')"
  by (simp_all add: is_digit_def)

section \<open>Strings\<close>

text \<open>\<open>strings.Split(s, sep)\<close> for a one-byte separator: always at least one field.\<close>

fun split_on :: "char \<Rightarrow> string \<Rightarrow> string list" where
  "split_on c [] = [[]]"
| "split_on c (x # xs) =
     (if x = c then [] # split_on c xs
      else (case split_on c xs of [] \<Rightarrow> [[x]] | f # fs \<Rightarrow> (x # f) # fs))"

lemma split_on_nonempty [simp]: "split_on c s \<noteq> []"
  by (induction c s rule: split_on.induct) (auto split: list.splits)

lemma split_on_none [simp]: "c \<notin> set s \<Longrightarrow> split_on c s = [s]"
  by (induction s) auto

lemma split_on_append [simp]: "c \<notin> set a \<Longrightarrow> split_on c (a @ c # b) = a # split_on c b"
  by (induction a) auto

text \<open>\<open>strings.ToUpper\<close> and \<open>strings.TrimSpace\<close> on ASCII text.\<close>

definition to_upper_char :: "char \<Rightarrow> char" where
  "to_upper_char c =
     (let n = of_char c :: nat in if 97 \<le> n \<and> n \<le> 122 then char_of (n - 32) else c)"

definition to_upper :: "string \<Rightarrow> string" where
  "to_upper = map to_upper_char"

definition is_space :: "char \<Rightarrow> bool" where
  "is_space c \<longleftrightarrow> of_char c \<in> {9, 10, 11, 12, 13, 32 :: nat}"

definition trim_space :: "string \<Rightarrow> string" where
  "trim_space s = rev (dropWhile is_space (rev (dropWhile is_space s)))"

section \<open>Stable sorting\<close>

text \<open>
  \<open>sort.SliceStable(xs, lt)\<close> as an insertion from the right: an element goes before the
  first element of the sorted rest that is not strictly smaller, so equal elements keep their
  order.  The comparators of the code are strict weak orders; the locale states the contract
  and what the sort then promises.
\<close>

fun stable_ins :: "('a \<Rightarrow> 'a \<Rightarrow> bool) \<Rightarrow> 'a \<Rightarrow> 'a list \<Rightarrow> 'a list" where
  "stable_ins lt x [] = [x]"
| "stable_ins lt x (y # ys) = (if lt y x then y # stable_ins lt x ys else x # y # ys)"

fun stable_sort :: "('a \<Rightarrow> 'a \<Rightarrow> bool) \<Rightarrow> 'a list \<Rightarrow> 'a list" where
  "stable_sort lt [] = []"
| "stable_sort lt (x # xs) = stable_ins lt x (stable_sort lt xs)"

lemma mset_stable_ins [simp]: "mset (stable_ins lt x ys) = add_mset x (mset ys)"
  by (induction ys) auto

lemma mset_stable_sort [simp]: "mset (stable_sort lt xs) = mset xs"
  by (induction xs) auto

lemma set_stable_sort [simp]: "set (stable_sort lt xs) = set xs"
  by (metis mset_stable_sort set_mset_mset)

lemma length_stable_sort [simp]: "length (stable_sort lt xs) = length xs"
  by (metis mset_stable_sort size_mset)

locale comparator =
  fixes lt :: "'a \<Rightarrow> 'a \<Rightarrow> bool"
  assumes irrefl: "\<not> lt x x"
    and trans_lt: "lt x y \<Longrightarrow> lt y z \<Longrightarrow> lt x z"
    and trans_incomp: "\<not> lt y x \<Longrightarrow> \<not> lt z y \<Longrightarrow> \<not> lt z x"
begin

lemma asym: "lt x y \<Longrightarrow> \<not> lt y x"
  using irrefl trans_lt by blast

lemma sorted_stable_ins:
  "sorted_wrt (\<lambda>a b. \<not> lt b a) ys \<Longrightarrow> sorted_wrt (\<lambda>a b. \<not> lt b a) (stable_ins lt x ys)"
proof (induction ys)
  case Nil
  then show ?case by simp
next
  case (Cons y ys)
  have s: "set (stable_ins lt x ys) = insert x (set ys)"
    by (metis mset_stable_ins set_mset_add_mset_insert set_mset_mset)
  show ?case
  proof (cases "lt y x")
    case True
    then show ?thesis using Cons s by (auto dest: asym)
  next
    case False
    then have "\<forall>z \<in> set ys. \<not> lt z x" using Cons.prems trans_incomp by fastforce
    then show ?thesis using Cons False by simp
  qed
qed

lemma sorted_stable_sort: "sorted_wrt (\<lambda>a b. \<not> lt b a) (stable_sort lt xs)"
  by (induction xs) (auto intro: sorted_stable_ins)

text \<open>Stability: the elements equivalent to a given one keep their order.\<close>

lemma stable_ins_stable:
  assumes "\<And>y. y \<in> set ys \<Longrightarrow> P y \<Longrightarrow> P x \<Longrightarrow> \<not> lt y x"
  shows "filter P (stable_ins lt x ys) = (if P x then x # filter P ys else filter P ys)"
  using assms by (induction ys) auto

lemma stable_sort_stable:
  assumes "\<And>x y. P x \<Longrightarrow> P y \<Longrightarrow> \<not> lt x y"
  shows "filter P (stable_sort lt xs) = filter P xs"
proof (induction xs)
  case (Cons x xs)
  have "filter P (stable_ins lt x (stable_sort lt xs))
      = (if P x then x # filter P (stable_sort lt xs) else filter P (stable_sort lt xs))"
    by (rule stable_ins_stable) (use assms in auto)
  then show ?case using Cons by simp
qed simp

lemma hd_stable_sort_least:
  assumes "x \<in> set xs"
  shows "\<not> lt x (hd (stable_sort lt xs))"
proof -
  obtain h t where ht: "stable_sort lt xs = h # t"
    using assms by (cases "stable_sort lt xs") (metis list.set(1) empty_iff set_stable_sort, blast)
  have "x = h \<or> x \<in> set t" using assms ht by (metis set_ConsD set_stable_sort)
  then show ?thesis
    using sorted_stable_sort [of xs] irrefl ht by auto
qed

end

end
