(* ===== verification/Decimal.thy ===== *)
theory Decimal
  imports GoLib "HOL-Library.Signed_Division"
begin

text \<open>
  Package \<open>internal/decimal\<close>: the exact \<open>Decimal\<close> of the risk path, a thin wrapper of the
  third-party \<open>shopspring/decimal\<close>, and the overflow-checked \<open>Fixed64\<close> of the hot path.

  A \<open>Decimal\<close> is the rational number it denotes.  \<open>Add\<close>, \<open>Sub\<close>, \<open>Mul\<close>, \<open>Neg\<close>, \<open>Abs\<close>
  and the comparisons of the third-party package are exact on that number and are the operations
  of \<open>rat\<close>.  What the package computes beyond field arithmetic (division at a precision,
  rounding, integer parts, parsing, printing) is a parameter: the record \<open>sp_ops\<close>.  The locale
  \<open>shopspring\<close> states the documented behaviour the code relies on.
\<close>

type_synonym decimal = rat

section \<open>The third-party operations\<close>

record sp_ops =
  sp_Div :: "int \<Rightarrow> rat \<Rightarrow> rat \<Rightarrow> rat" \<comment> \<open>quotient at \<open>DivisionPrecision\<close> digits, divisor not zero\<close>
  sp_RoundBank :: "rat \<Rightarrow> int \<Rightarrow> rat"
  sp_Truncate :: "rat \<Rightarrow> int \<Rightarrow> rat"
  sp_Floor :: "rat \<Rightarrow> rat"
  sp_IntPart :: "rat \<Rightarrow> int"
  sp_NewFromString :: "string \<Rightarrow> rat option"
  sp_String :: "rat \<Rightarrow> string"
  sp_StringFixed :: "rat \<Rightarrow> int \<Rightarrow> string"

text \<open>The package variable \<open>sp.DivisionPrecision\<close>, set by \<open>init\<close>.\<close>

definition DivisionPrecision :: int where
  "DivisionPrecision = 28"

text \<open>Digits cut after place \<open>p\<close>, towards zero.\<close>

definition trunc_rat :: "rat \<Rightarrow> int" where
  "trunc_rat x = (if 0 \<le> x then \<lfloor>x\<rfloor> else - \<lfloor>- x\<rfloor>)"

definition ulp :: rat where
  "ulp = 1 / 10 ^ 28"

section \<open>Decimal\<close>

definition Dec_New :: "int \<Rightarrow> int \<Rightarrow> decimal" where
  "Dec_New value ex = (if 0 \<le> ex then of_int value * 10 ^ nat ex
                        else of_int value / 10 ^ nat (- ex))"

datatype dec_error = DecEmptyString | DecParse string

definition Dec_FromString :: "sp_ops \<Rightarrow> string \<Rightarrow> dec_error + decimal" where
  "Dec_FromString D s0 =
     (let s = trim_space s0 in
      if s = [] then Inl DecEmptyString
      else (case sp_NewFromString D s of
              None \<Rightarrow> Inl (DecParse s)
            | Some v \<Rightarrow> Inr v))"

definition Dec_MustFromString :: "sp_ops \<Rightarrow> string \<Rightarrow> decimal option" where
  "Dec_MustFromString D s =
     (case Dec_FromString D s of Inl e \<Rightarrow> None | Inr d \<Rightarrow> Some d)"

definition Dec_FromInt :: "int \<Rightarrow> decimal" where
  "Dec_FromInt i = Dec_New i 0"

definition Dec_Zero :: decimal where "Dec_Zero = Dec_New 0 0"
definition Dec_One :: decimal where "Dec_One = Dec_New 1 0"

definition Dec_Sign :: "decimal \<Rightarrow> int" where
  "Dec_Sign d = (if d < 0 then - 1 else if d = 0 then 0 else 1)"

definition Dec_Cmp :: "decimal \<Rightarrow> decimal \<Rightarrow> int" where
  "Dec_Cmp d e = Dec_Sign (d - e)"

text \<open>\<open>Div\<close> panics on a zero divisor.\<close>

definition Dec_Div :: "sp_ops \<Rightarrow> decimal \<Rightarrow> decimal \<Rightarrow> decimal option" where
  "Dec_Div D d e = (if e = 0 then None else Some (sp_Div D DivisionPrecision d e))"

definition Dec_MulInt :: "decimal \<Rightarrow> int \<Rightarrow> decimal" where
  "Dec_MulInt d i = d * Dec_New i 0"

definition Dec_Round :: "sp_ops \<Rightarrow> decimal \<Rightarrow> int \<Rightarrow> decimal" where
  "Dec_Round D d precision = sp_RoundBank D d precision"

definition Dec_Truncate :: "sp_ops \<Rightarrow> decimal \<Rightarrow> int \<Rightarrow> decimal" where
  "Dec_Truncate D d precision = sp_Truncate D d precision"

definition Dec_Quantize :: "sp_ops \<Rightarrow> decimal \<Rightarrow> decimal \<Rightarrow> (decimal \<times> decimal) option" where
  "Dec_Quantize D d step =
     (if step = 0 then None
      else let q = sp_Floor D (sp_Div D DivisionPrecision d step);
               quant = q * step
           in Some (quant, d - quant))"

definition Dec_Sum :: "decimal list \<Rightarrow> decimal" where
  "Dec_Sum items = foldl (\<lambda>out it. out + it) (Dec_New 0 0) items"

definition Dec_Min :: "decimal \<Rightarrow> decimal \<Rightarrow> decimal" where
  "Dec_Min a b = (if a < b then a else b)"

definition Dec_Max :: "decimal \<Rightarrow> decimal \<Rightarrow> decimal" where
  "Dec_Max a b = (if a > b then a else b)"

lemma Dec_New_0 [simp]: "Dec_New i 0 = of_int i"
  by (simp add: Dec_New_def)

lemma Dec_consts [simp]: "Dec_Zero = 0" "Dec_One = 1" "Dec_FromInt i = of_int i"
  "Dec_MulInt d i = d * of_int i"
  by (simp_all add: Dec_Zero_def Dec_One_def Dec_FromInt_def Dec_MulInt_def)

lemma Dec_Min_min [simp]: "Dec_Min a b = min a b"
  by (simp add: Dec_Min_def min_def)

lemma Dec_Max_max [simp]: "Dec_Max a b = max a b"
  by (auto simp: Dec_Max_def max_def)

lemma Dec_Sum_sum_list [simp]: "Dec_Sum xs = sum_list xs"
  using foldl_add_sum_list [where f = "\<lambda>x. x" and a = 0] by (simp add: Dec_Sum_def)

section \<open>The contract of the third-party package\<close>

text \<open>
  Division returns a multiple of one unit in the last of the 28 places, at most half a unit from
  the quotient.  \<open>Floor\<close>, \<open>Truncate\<close> and \<open>IntPart\<close> are the integer-part functions of
  their documentation; \<open>IntPart\<close> promises a value only where it fits in 64 bits.
\<close>

locale shopspring =
  fixes D :: sp_ops
  assumes div_grid: "e \<noteq> 0 \<Longrightarrow> \<exists>k::int. sp_Div D DivisionPrecision d e = of_int k * ulp"
    and div_near: "e \<noteq> 0 \<Longrightarrow> \<bar>sp_Div D DivisionPrecision d e - d / e\<bar> \<le> ulp / 2"
    and floor_law: "sp_Floor D d = of_int \<lfloor>d\<rfloor>"
    and truncate_law: "0 \<le> p \<Longrightarrow> sp_Truncate D d p = of_int (trunc_rat (d * 10 ^ nat p)) / 10 ^ nat p"
    and intpart_range: "in_i64 (sp_IntPart D d)"
    and intpart_law: "in_i64 (trunc_rat d) \<Longrightarrow> sp_IntPart D d = trunc_rat d"
begin

lemma div_le: "0 < e \<Longrightarrow> sp_Div D DivisionPrecision d e \<le> d / e + ulp / 2"
  using div_near [of e d] unfolding abs_le_iff_rat by linarith

lemma div_ge: "0 < e \<Longrightarrow> d / e - ulp / 2 \<le> sp_Div D DivisionPrecision d e"
  using div_near [of e d] unfolding abs_le_iff_rat by linarith

text \<open>A bound on the grid survives rounding, in both directions.\<close>

lemma grid_strict:
  assumes "(of_int k :: rat) * ulp < of_int m * ulp"
  shows "of_int k * ulp \<le> of_int m * ulp - ulp"
proof -
  have u: "0 < ulp" by (simp add: ulp_def)
  have "k < m" using assms u by (simp add: mult_less_cancel_right)
  then have "(of_int k :: rat) \<le> of_int m - 1" by linarith
  then have "of_int k * ulp \<le> (of_int m - 1) * ulp" using u by (intro rat_mult_right_mono) auto
  then show ?thesis by (simp add: algebra_simps)
qed

lemma div_le_grid:
  assumes "e \<noteq> 0" and "d / e \<le> of_int m * ulp"
  shows "sp_Div D DivisionPrecision d e \<le> of_int m * ulp"
proof (rule ccontr)
  assume c: "\<not> ?thesis"
  obtain k where k: "sp_Div D DivisionPrecision d e = of_int k * ulp"
    using div_grid assms by blast
  have "of_int m * ulp < (of_int k :: rat) * ulp" using c k by simp
  then have "of_int m * ulp \<le> of_int k * ulp - ulp" by (rule grid_strict)
  moreover have "of_int k * ulp \<le> d / e + ulp / 2"
    using div_near [OF assms(1), of d] k unfolding abs_le_iff_rat by linarith
  moreover have "0 < ulp" by (simp add: ulp_def)
  ultimately show False using assms(2) by linarith
qed

lemma div_ge_grid:
  assumes "e \<noteq> 0" and "of_int m * ulp \<le> d / e"
  shows "of_int m * ulp \<le> sp_Div D DivisionPrecision d e"
proof (rule ccontr)
  assume c: "\<not> ?thesis"
  obtain k where k: "sp_Div D DivisionPrecision d e = of_int k * ulp"
    using div_grid assms by blast
  have "of_int k * ulp < (of_int m :: rat) * ulp" using c k by simp
  then have "of_int k * ulp \<le> of_int m * ulp - ulp" by (rule grid_strict)
  moreover have "d / e - ulp / 2 \<le> of_int k * ulp"
    using div_near [OF assms(1), of d] k unfolding abs_le_iff_rat by linarith
  moreover have "0 < ulp" by (simp add: ulp_def)
  ultimately show False using assms(2) by linarith
qed

lemma div_exact:
  assumes "e \<noteq> 0" and "d / e = of_int m * ulp"
  shows "sp_Div D DivisionPrecision d e = d / e"
  using div_le_grid [OF assms(1), of d m] div_ge_grid [OF assms(1), of m d] assms(2) by simp

lemma div_nonneg:
  "0 < e \<Longrightarrow> 0 \<le> d \<Longrightarrow> 0 \<le> sp_Div D DivisionPrecision d e"
  using div_ge_grid [of e 0 d] by simp

lemma div_self: "e \<noteq> 0 \<Longrightarrow> sp_Div D DivisionPrecision e e = 1"
  using div_exact [of e e "10 ^ 28"] by (simp add: ulp_def)

end

text \<open>
  A reference instance of the package: half away from zero at the last place, the exact
  integer-part functions.
\<close>

definition round_half_away :: "rat \<Rightarrow> int" where
  "round_half_away x = (if 0 \<le> x then \<lfloor>x + 1 / 2\<rfloor> else - \<lfloor>- x + 1 / 2\<rfloor>)"

definition round_half_even :: "rat \<Rightarrow> int" where
  "round_half_even x =
     (let f = \<lfloor>x\<rfloor>; r = x - of_int f
      in if r < 1 / 2 then f else if r > 1 / 2 then f + 1 else if even f then f else f + 1)"

definition pow10 :: "int \<Rightarrow> rat" where
  "pow10 p = (if 0 \<le> p then 10 ^ nat p else 1 / 10 ^ nat (- p))"

definition sp_ref :: sp_ops where
  "sp_ref = \<lparr>
     sp_Div = (\<lambda>p d e. of_int (round_half_away (d / e * pow10 p)) / pow10 p),
     sp_RoundBank = (\<lambda>d p. of_int (round_half_even (d * pow10 p)) / pow10 p),
     sp_Truncate = (\<lambda>d p. of_int (trunc_rat (d * pow10 p)) / pow10 p),
     sp_Floor = (\<lambda>d. of_int \<lfloor>d\<rfloor>),
     sp_IntPart = (\<lambda>d. i64 (trunc_rat d)),
     sp_NewFromString = (\<lambda>s. if s \<noteq> [] \<and> list_all is_digit s then Some (of_nat (read_uint s)) else None),
     sp_String = (\<lambda>d. format_int \<lfloor>d\<rfloor>),
     sp_StringFixed = (\<lambda>d p. format_int \<lfloor>d\<rfloor>)\<rparr>"

lemma round_half_away_near: "\<bar>of_int (round_half_away x) - x\<bar> \<le> 1 / 2"
proof (cases "0 \<le> x")
  case True
  then show ?thesis
    using floor_correct [of "x + 1 / 2"] unfolding round_half_away_def abs_le_iff_rat by simp linarith
next
  case False
  then show ?thesis
    using floor_correct [of "- x + 1 / 2"] unfolding round_half_away_def abs_le_iff_rat by simp linarith
qed

lemma pow10_28: "pow10 28 = 1 / ulp" "0 < ulp"
  by (simp_all add: pow10_def ulp_def)

lemma sp_ref_div_near:
  "\<bar>sp_Div sp_ref DivisionPrecision d e - d / e\<bar> \<le> ulp / 2"
proof -
  let ?x = "d / e * (1 / ulp)"
  have "sp_Div sp_ref DivisionPrecision d e - d / e = (of_int (round_half_away ?x) - ?x) * ulp"
    using pow10_28 by (simp add: sp_ref_def DivisionPrecision_def algebra_simps)
  also have "\<bar>\<dots>\<bar> = \<bar>of_int (round_half_away ?x) - ?x\<bar> * ulp"
    using pow10_28 by (simp add: abs_mult)
  also have "\<dots> \<le> 1 / 2 * ulp"
    using pow10_28 by (intro rat_mult_right_mono round_half_away_near) auto
  finally show ?thesis by simp
qed

interpretation spref: shopspring sp_ref
proof unfold_locales
  show "\<exists>k::int. sp_Div sp_ref DivisionPrecision d e = of_int k * ulp" for e d
    using pow10_28 by (auto simp: sp_ref_def DivisionPrecision_def)
  show "\<bar>sp_Div sp_ref DivisionPrecision d e - d / e\<bar> \<le> ulp / 2" for e d
    by (rule sp_ref_div_near)
  show "sp_Floor sp_ref d = of_int \<lfloor>d\<rfloor>" for d
    by (simp add: sp_ref_def)
  show "0 \<le> p \<Longrightarrow> sp_Truncate sp_ref d p = of_int (trunc_rat (d * 10 ^ nat p)) / 10 ^ nat p" for p d
    by (simp add: sp_ref_def pow10_def)
  show "in_i64 (sp_IntPart sp_ref d)" for d
    by (simp add: sp_ref_def i64_range)
  show "in_i64 (trunc_rat d) \<Longrightarrow> sp_IntPart sp_ref d = trunc_rat d" for d
    by (simp add: sp_ref_def i64_id)
qed

end
