(* ===== verification/Fixed64.thy ===== *)
theory Fixed64
  imports Decimal
begin

text \<open>
  The second half of \<open>internal/decimal/decimal.go\<close>: \<open>Fixed64\<close>, a 64-bit integer with a
  decimal scale, its overflow-checked operations on machine words, the two conversions to and
  from \<open>Decimal\<close>, and its printer.
\<close>

type_synonym i64w = "64 word"

record Fixed64 =
  unscaled :: i64w
  fscale :: "8 word" \<comment> \<open>\<open>int8\<close>\<close>

datatype fixed_error =
    FixedOverflow
  | FixedScaleRange int
  | FixedScaleMismatch int int
  | FixedLossy
  | FixedNotInteger

definition MaxInt64w :: i64w where "MaxInt64w = word_of_int int64_max"
definition MinInt64w :: i64w where "MinInt64w = word_of_int int64_min"

definition NewFixed :: "i64w \<Rightarrow> 8 word \<Rightarrow> fixed_error + Fixed64" where
  "NewFixed u sc =
     (if sint sc < 0 \<or> sint sc > 18 then Inl (FixedScaleRange (sint sc))
      else Inr \<lparr>unscaled = u, fscale = sc\<rparr>)"

definition Fixed_IsZero :: "Fixed64 \<Rightarrow> bool" where
  "Fixed_IsZero f \<longleftrightarrow> unscaled f = 0"

definition addUnscaled :: "i64w \<Rightarrow> i64w \<Rightarrow> fixed_error + i64w" where
  "addUnscaled a b =
     (if sint b > 0 \<and> sint a > sint (MaxInt64w - b) then Inl FixedOverflow
      else if sint b < 0 \<and> sint a < sint (MinInt64w - b) then Inl FixedOverflow
      else Inr (a + b))"

definition mulUnscaled :: "i64w \<Rightarrow> i64w \<Rightarrow> fixed_error + i64w" where
  "mulUnscaled a b =
     (if a = 0 \<or> b = 0 then Inr 0
      else if a = MinInt64w \<and> b = - 1 \<or> b = MinInt64w \<and> a = - 1 then Inl FixedOverflow
      else let r = a * b in
           if go_quot (sint r) (sint b) \<noteq> sint a then Inl FixedOverflow else Inr r)"

definition Fixed_AddWith :: "Fixed64 \<Rightarrow> Fixed64 \<Rightarrow> fixed_error + Fixed64" where
  "Fixed_AddWith f g =
     (if fscale f \<noteq> fscale g then Inl (FixedScaleMismatch (sint (fscale f)) (sint (fscale g)))
      else (case addUnscaled (unscaled f) (unscaled g) of
              Inl e \<Rightarrow> Inl e
            | Inr s \<Rightarrow> Inr \<lparr>unscaled = s, fscale = fscale f\<rparr>))"

definition Fixed_SubWith :: "Fixed64 \<Rightarrow> Fixed64 \<Rightarrow> fixed_error + Fixed64" where
  "Fixed_SubWith f g =
     (if fscale f \<noteq> fscale g then Inl (FixedScaleMismatch (sint (fscale f)) (sint (fscale g)))
      else (case addUnscaled (unscaled f) (- unscaled g) of
              Inl e \<Rightarrow> Inl e
            | Inr d \<Rightarrow> Inr \<lparr>unscaled = d, fscale = fscale f\<rparr>))"

definition Fixed_Neg :: "Fixed64 \<Rightarrow> fixed_error + Fixed64" where
  "Fixed_Neg f =
     (if unscaled f = MinInt64w then Inl FixedOverflow
      else Inr \<lparr>unscaled = - unscaled f, fscale = fscale f\<rparr>)"

definition Fixed_MulInt :: "Fixed64 \<Rightarrow> i64w \<Rightarrow> fixed_error + Fixed64" where
  "Fixed_MulInt f m =
     (case mulUnscaled (unscaled f) m of
        Inl e \<Rightarrow> Inl e
      | Inr p \<Rightarrow> Inr \<lparr>unscaled = p, fscale = fscale f\<rparr>)"

definition ToDecimal :: "Fixed64 \<Rightarrow> decimal" where
  "ToDecimal f = Dec_New (sint (unscaled f)) (- sint (fscale f))"

definition FromDecimal :: "sp_ops \<Rightarrow> decimal \<Rightarrow> 8 word \<Rightarrow> fixed_error + Fixed64" where
  "FromDecimal D d sc =
     (if sint sc < 0 \<or> sint sc > 18 then Inl (FixedScaleRange (sint sc))
      else let tr = sp_Truncate D d (sint sc) in
        if tr \<noteq> d then Inl FixedLossy
        else let u = tr * Dec_New 1 (sint sc) in
          if u \<notin> \<int> then Inl FixedNotInteger
          else let ui = sp_IntPart D u in
            if Dec_New ui 0 \<noteq> u then Inl FixedOverflow
            else Inr \<lparr>unscaled = word_of_int ui, fscale = sc\<rparr>)"

text \<open>The padding loop of \<open>String\<close>: a leading zero while the digits are not longer than the scale.\<close>

function pad_zeros :: "int \<Rightarrow> string \<Rightarrow> string" where
  "pad_zeros sc s = (if int (length s) \<le> sc then pad_zeros sc (CHR ''0'' # s) else s)"
  by pat_completeness auto
termination
  by (relation "measure (\<lambda>(sc, s). nat (sc + 1 - int (length s)))") auto

declare pad_zeros.simps [simp del]

definition Fixed_String :: "Fixed64 \<Rightarrow> string" where
  "Fixed_String f =
     (if fscale f = 0 then format_int (sint (unscaled f))
      else let neg = sint (unscaled f) < 0;
               u = (if neg then uint (- (unscaled f + 1)) + 1 else sint (unscaled f));
               str = pad_zeros (sint (fscale f)) (format_uint (nat u));
               p = nat (int (length str) - sint (fscale f));
               out = take p str @ ''.'' @ drop p str
           in if neg then ''-'' @ out else out)"

section \<open>Words and integers\<close>

lemma sint64_range: "in_i64 (sint (w :: i64w))"
  using sint_range_size [of w] by (simp add: in_i64_def int64_min_def int64_max_def word_size)

lemma sint_word_of_int_i64: "sint (word_of_int x :: i64w) = i64 x"
  by (simp add: sint_sbintrunc' signed_take_bit_eq_take_bit_shift take_bit_eq_mod i64_def)

lemma sint_add_i64: "sint (a + b :: i64w) = i64 (sint a + sint b)"
  using sint_word_of_int_i64 [of "sint a + sint b"] by simp

lemma sint_sub_i64: "sint (a - b :: i64w) = i64 (sint a - sint b)"
  using sint_word_of_int_i64 [of "sint a - sint b"] by simp

lemma sint_mul_i64: "sint (a * b :: i64w) = i64 (sint a * sint b)"
  using sint_word_of_int_i64 [of "sint a * sint b"] by simp

lemma sint_neg_i64: "sint (- a :: i64w) = i64 (- sint a)"
  using sint_word_of_int_i64 [of "- sint a"] by simp

lemma sint_MaxMin [simp]: "sint MaxInt64w = int64_max" "sint MinInt64w = int64_min"
  by (simp_all add: MaxInt64w_def MinInt64w_def sint_word_of_int_i64 i64_id in_i64_def
        int64_min_def int64_max_def)

lemmas sint_i64_simps = sint_add_i64 sint_sub_i64 sint_mul_i64 sint_neg_i64

lemma sint_inj64: "sint (a::i64w) = sint b \<Longrightarrow> a = b"
  by (simp add: signed_word_eqI)

section \<open>Overflow checks are exact\<close>

lemma addUnscaled_correct:
  "addUnscaled a b =
     (if in_i64 (sint a + sint b) then Inr (a + b) else Inl FixedOverflow)"
proof -
  have ra: "in_i64 (sint a)" and rb: "in_i64 (sint b)" by (rule sint64_range)+
  consider "sint b > 0" | "sint b < 0" | "sint b = 0" by linarith
  then show ?thesis
  proof cases
    case 1
    then have "sint (MaxInt64w - b) = int64_max - sint b"
      using rb by (simp add: sint_sub_i64 i64_id in_i64_def int64_min_def int64_max_def)
    then show ?thesis using 1 ra by (simp add: addUnscaled_def in_i64_def)
  next
    case 2
    then have "sint (MinInt64w - b) = int64_min - sint b"
      using rb by (simp add: sint_sub_i64 i64_id in_i64_def int64_min_def int64_max_def)
    then show ?thesis using 2 ra by (simp add: addUnscaled_def in_i64_def)
  next
    case 3
    then have "b = 0" using sint_inj64 [of b 0] by simp
    then show ?thesis using ra by (simp add: addUnscaled_def)
  qed
qed

text \<open>The division test of \<open>mulUnscaled\<close>: a wrapped product never divides back.\<close>

lemma abs_sgn_mult_le: "0 \<le> m \<Longrightarrow> \<bar>sgn (r :: int) * m\<bar> \<le> m"
  by (simp add: abs_mult sgn_if)

lemma wrapped_product_div:
  assumes rb: "in_i64 b" and b0: "b \<noteq> 0" and eq: "go_quot (i64 (a * b)) b = a"
  shows "i64 (a * b) = a * b"
proof -
  let ?r = "i64 (a * b)"
  have bound: "\<bar>?r - a * b\<bar> < 2 ^ 64"
  proof -
    have "\<bar>?r\<bar> = \<bar>?r\<bar> div \<bar>b\<bar> * \<bar>b\<bar> + \<bar>?r\<bar> mod \<bar>b\<bar>" by simp
    moreover have "0 \<le> \<bar>?r\<bar> mod \<bar>b\<bar>" "\<bar>?r\<bar> mod \<bar>b\<bar> < \<bar>b\<bar>" using b0 by simp_all
    moreover have "?r = sgn ?r * \<bar>?r\<bar>" "b = sgn b * \<bar>b\<bar>" by (simp_all add: sgn_mult_abs)
    moreover have "a * b = sgn ?r * (\<bar>?r\<bar> div \<bar>b\<bar> * \<bar>b\<bar>)"
    proof -
      have "a * b = sgn ?r * sgn b * (\<bar>?r\<bar> div \<bar>b\<bar>) * (sgn b * \<bar>b\<bar>)"
        using eq unfolding go_quot_def by (simp add: sgn_mult_abs)
      also have "\<dots> = sgn ?r * (sgn b * sgn b) * (\<bar>?r\<bar> div \<bar>b\<bar> * \<bar>b\<bar>)" by (simp add: mult_ac)
      finally show ?thesis using b0 by (simp add: sgn_if split: if_splits)
    qed
    ultimately have "?r - a * b = sgn ?r * (\<bar>?r\<bar> mod \<bar>b\<bar>)"
      by (metis add_diff_cancel_left' right_diff_distrib')
    then have "\<bar>?r - a * b\<bar> \<le> \<bar>?r\<bar> mod \<bar>b\<bar>"
      by (simp only: abs_sgn_mult_le [OF \<open>0 \<le> \<bar>?r\<bar> mod \<bar>b\<bar>\<close>])
    also have "\<dots> < 2 ^ 64"
    proof -
      have "\<bar>b\<bar> < 2 ^ 64" using rb by (auto simp: in_i64_def int64_min_def int64_max_def)
      then show ?thesis using \<open>\<bar>?r\<bar> mod \<bar>b\<bar> < \<bar>b\<bar>\<close> by linarith
    qed
    finally show ?thesis .
  qed
  have "2 ^ 64 dvd a * b - ?r"
    unfolding i64_def by (simp add: mod_eq_dvd_iff [symmetric] minus_mod_eq_div_mult [symmetric] algebra_simps)
  then have "2 ^ 64 dvd ?r - a * b" by (metis dvd_minus_iff minus_diff_eq)
  then show ?thesis using bound zdvd_imp_le [of "2 ^ 64" "\<bar>?r - a * b\<bar>"] by fastforce
qed

lemma go_quot_mult: "b \<noteq> 0 \<Longrightarrow> go_quot (a * b) b = a"
proof -
  assume b: "b \<noteq> 0"
  have "\<bar>a * b\<bar> div \<bar>b\<bar> = \<bar>a\<bar>" using b by (simp add: abs_mult)
  then have "go_quot (a * b) b = sgn a * \<bar>a\<bar> * (sgn b * sgn b)"
    by (simp add: go_quot_def sgn_mult mult_ac)
  also have "sgn b * sgn b = 1" using b by (simp add: sgn_if)
  finally show ?thesis by (simp add: sgn_mult_abs)
qed

lemma mulUnscaled_correct:
  "mulUnscaled a b =
     (if in_i64 (sint a * sint b) then Inr (a * b) else Inl FixedOverflow)"
proof (cases "a = 0 \<or> b = 0")
  case True
  then show ?thesis by (auto simp: mulUnscaled_def in_i64_def int64_min_def int64_max_def)
next
  case False
  then have nz: "sint a \<noteq> 0" "sint b \<noteq> 0" using sint_inj64 [of a 0] sint_inj64 [of b 0] by auto
  show ?thesis
  proof (cases "a = MinInt64w \<and> b = - 1 \<or> b = MinInt64w \<and> a = - 1")
    case True
    then show ?thesis
      using False by (auto simp: mulUnscaled_def in_i64_def int64_min_def int64_max_def)
  next
    case spec: False
    have "go_quot (i64 (sint a * sint b)) (sint b) = sint a \<longleftrightarrow> in_i64 (sint a * sint b)"
      using wrapped_product_div [OF sint64_range nz(2), of "sint a"] go_quot_mult [OF nz(2)]
      by (metis i64_id_iff)
    then show ?thesis
      using False spec by (auto simp: mulUnscaled_def sint_mul_i64)
  qed
qed

section \<open>The value of a Fixed64\<close>

declare of_int_sint [simp del]

text \<open>The invariant \<open>NewFixed\<close> establishes and every operation keeps: the scale is in [0, 18].\<close>

definition fixed_ok :: "Fixed64 \<Rightarrow> bool" where
  "fixed_ok f \<longleftrightarrow> 0 \<le> sint (fscale f) \<and> sint (fscale f) \<le> 18"

lemma fixed_ok_NewFixed: "NewFixed u sc = Inr f \<Longrightarrow> fixed_ok f"
  by (auto simp: NewFixed_def fixed_ok_def split: if_splits)

lemma ToDecimal_value:
  "fixed_ok f \<Longrightarrow> ToDecimal f = of_int (sint (unscaled f)) / 10 ^ nat (sint (fscale f))"
  by (auto simp: ToDecimal_def Dec_New_def fixed_ok_def)

lemma ToDecimal_mk:
  "0 \<le> sint sc \<Longrightarrow> sint sc \<le> 18 \<Longrightarrow> in_i64 x \<Longrightarrow>
   ToDecimal \<lparr>unscaled = word_of_int x, fscale = sc\<rparr> = of_int x / 10 ^ nat (sint sc)"
  by (subst ToDecimal_value) (simp_all add: fixed_ok_def sint_word_of_int_i64 i64_id)

lemma fixed_eqI:
  "fixed_ok f \<Longrightarrow> fixed_ok g \<Longrightarrow> fscale f = fscale g \<Longrightarrow> ToDecimal f = ToDecimal g \<Longrightarrow> f = g"
  by (cases f; cases g) (auto simp: ToDecimal_value dest: sint_inj64)

text \<open>
  C10: for operands of one scale, \<open>AddWith\<close> and \<open>MulInt\<close> return the exact decimal
  result whenever the unscaled result fits in 64 bits and an overflow error otherwise; a wrapped
  value is never returned.
\<close>

theorem fixed_arith_exact:
  assumes "fixed_ok f" and "fixed_ok g" and "fscale f = fscale g"
  shows "(if in_i64 (sint (unscaled f) + sint (unscaled g))
          then \<exists>r. Fixed_AddWith f g = Inr r \<and> fixed_ok r \<and> ToDecimal r = ToDecimal f + ToDecimal g
          else Fixed_AddWith f g = Inl FixedOverflow)
       \<and> (if in_i64 (sint (unscaled f) * sint m)
          then \<exists>r. Fixed_MulInt f m = Inr r \<and> fixed_ok r \<and> ToDecimal r = ToDecimal f * of_int (sint m)
          else Fixed_MulInt f m = Inl FixedOverflow)"
  using assms
  by (auto simp: Fixed_AddWith_def Fixed_MulInt_def addUnscaled_correct mulUnscaled_correct
        ToDecimal_value fixed_ok_def sint_i64_simps i64_id add_divide_distrib)

theorem fixed_arith_exact_witness:
  "Fixed_AddWith \<lparr>unscaled = 125, fscale = 2\<rparr> \<lparr>unscaled = 75, fscale = 2\<rparr> \<noteq> Inl FixedOverflow
   \<and> Fixed_MulInt \<lparr>unscaled = 2 ^ 62, fscale = 2\<rparr> 4 = Inl FixedOverflow"
proof
  have ok: "fixed_ok \<lparr>unscaled = 125, fscale = 2\<rparr>" "fixed_ok \<lparr>unscaled = 75, fscale = 2\<rparr>"
    "fixed_ok \<lparr>unscaled = 2 ^ 62, fscale = 2\<rparr>"
    by (simp_all add: fixed_ok_def)
  show "Fixed_AddWith \<lparr>unscaled = 125, fscale = 2\<rparr> \<lparr>unscaled = 75, fscale = 2\<rparr> \<noteq> Inl FixedOverflow"
    using fixed_arith_exact [OF ok(1,2), of 0] by (auto simp: in_i64_def int64_min_def int64_max_def)
  show "Fixed_MulInt \<lparr>unscaled = 2 ^ 62, fscale = 2\<rparr> 4 = Inl FixedOverflow"
    using fixed_arith_exact [OF ok(3) ok(2), of 4]
    by (simp add: in_i64_def int64_min_def int64_max_def split: if_splits)
qed

text \<open>
  \<open>SubWith\<close> adds the negated operand, and the negation of the least 64-bit value
  wraps to itself.  For every other subtrahend the result is exact or an overflow error; for the
  least value the two answers are exchanged: a difference that fits is reported as overflow, and
  one that does not fit is returned, wrong by \<open>2 ^ 64\<close> units.
\<close>

theorem fixed_sub_at_min:
  assumes "fscale f = fscale g"
  shows "(unscaled g \<noteq> MinInt64w \<longrightarrow>
           Fixed_SubWith f g =
             (if in_i64 (sint (unscaled f) - sint (unscaled g))
              then Inr \<lparr>unscaled = unscaled f - unscaled g, fscale = fscale f\<rparr>
              else Inl FixedOverflow))
       \<and> (unscaled g = MinInt64w \<longrightarrow>
           (if in_i64 (sint (unscaled f) - sint (unscaled g))
            then Fixed_SubWith f g = Inl FixedOverflow
            else \<exists>r. Fixed_SubWith f g = Inr r
                 \<and> sint (unscaled r) = sint (unscaled f) - sint (unscaled g) - 2 ^ 64))"
proof (cases "unscaled g = MinInt64w")
  case False
  have r: "in_i64 (sint (unscaled g))" by (rule sint64_range)
  have "sint (unscaled g) \<noteq> int64_min" using False sint_inj64 [of "unscaled g" MinInt64w] by auto
  then have "sint (- unscaled g) = - sint (unscaled g)"
    using r by (simp add: sint_neg_i64 i64_id in_i64_def int64_min_def int64_max_def)
  then show ?thesis using assms False by (simp add: Fixed_SubWith_def addUnscaled_correct)
next
  case True
  have r: "in_i64 (sint (unscaled f))" by (rule sint64_range)
  have mg: "sint (- MinInt64w) = int64_min"
    by (simp add: sint_neg_i64 i64_def int64_min_def)
  have "i64 (sint (unscaled f) + int64_min) = sint (unscaled f) + int64_min"
    if "0 \<le> sint (unscaled f)"
    using that r by (intro i64_id) (simp add: in_i64_def int64_min_def int64_max_def)
  then show ?thesis
    using assms True r mg
    by (auto simp: Fixed_SubWith_def addUnscaled_correct sint_add_i64 [of "unscaled f" "- MinInt64w"]
          in_i64_def int64_min_def int64_max_def simp del: add_uminus_conv_diff)
qed

theorem fixed_sub_at_min_witness:
  "\<exists>r. Fixed_SubWith \<lparr>unscaled = 0, fscale = 8\<rparr> \<lparr>unscaled = MinInt64w, fscale = 8\<rparr> = Inr r
     \<and> sint (unscaled r) = - (2 ^ 63)"
  using fixed_sub_at_min [of "\<lparr>unscaled = 0, fscale = 8\<rparr>" "\<lparr>unscaled = MinInt64w, fscale = 8\<rparr>"]
  by (simp add: in_i64_def int64_min_def int64_max_def)

section \<open>Conversions\<close>

lemma trunc_rat_of_int [simp]: "trunc_rat (of_int k) = k"
  by (auto simp: trunc_rat_def floor_of_int simp flip: of_int_minus)

text \<open>
  \<open>FromDecimal\<close> succeeds exactly on the decimals a \<open>Fixed64\<close> of the
  requested scale denotes, and returns that \<open>Fixed64\<close>: the conversion is lossless, never wraps,
  rejects nothing representable, and is inverse to \<open>ToDecimal\<close>.
\<close>

theorem fixed_from_decimal_iff:
  assumes "shopspring D"
  shows "FromDecimal D d sc = Inr f \<longleftrightarrow> fixed_ok f \<and> fscale f = sc \<and> ToDecimal f = d"
proof
  assume a: "FromDecimal D d sc = Inr f"
  let ?n = "nat (sint sc)"
  let ?ui = "sp_IntPart D (d * 10 ^ ?n)"
  from a have sc: "0 \<le> sint sc" "sint sc \<le> 18" and f: "f = \<lparr>unscaled = word_of_int ?ui, fscale = sc\<rparr>"
    and eq: "of_int ?ui = d * 10 ^ ?n"
    by (auto simp: FromDecimal_def Let_def Dec_New_def split: if_splits)
  have "in_i64 ?ui" by (rule shopspring.intpart_range [OF assms])
  then show "fixed_ok f \<and> fscale f = sc \<and> ToDecimal f = d"
    using sc f eq by (simp add: fixed_ok_def ToDecimal_mk)
next
  assume a: "fixed_ok f \<and> fscale f = sc \<and> ToDecimal f = d"
  let ?n = "nat (sint sc)"
  let ?k = "sint (unscaled f)"
  from a have sc: "0 \<le> sint sc" "sint sc \<le> 18" by (auto simp: fixed_ok_def)
  have d: "d * 10 ^ ?n = of_int ?k" using a by (auto simp: ToDecimal_value)
  have tr: "sp_Truncate D d (sint sc) = d"
    using shopspring.truncate_law [OF assms sc(1), of d] d
    by (metis nonzero_mult_div_cancel_right power_not_zero trunc_rat_of_int zero_neq_numeral)
  have ip: "sp_IntPart D (of_int ?k) = ?k"
    using shopspring.intpart_law [OF assms, of "of_int ?k"] sint64_range by simp
  have fe: "\<lparr>unscaled = word_of_int ?k, fscale = sc\<rparr> = f"
    using a by (cases f) (simp add: of_int_sint)
  show "FromDecimal D d sc = Inr f"
    using sc by (simp add: FromDecimal_def Let_def Dec_New_def tr d ip fe)
qed

theorem fixed_from_decimal_iff_witness:
  "FromDecimal sp_ref (123 / 100) 2 = Inr \<lparr>unscaled = 123, fscale = 2\<rparr>"
  using fixed_from_decimal_iff [OF spref.shopspring_axioms, of "123 / 100" 2 "\<lparr>unscaled = 123, fscale = 2\<rparr>"]
  by (simp add: fixed_ok_def ToDecimal_value)

section \<open>Printing\<close>

text \<open>The rational a decimal string denotes: an optional sign, digits, an optional fraction.\<close>

definition read_unsigned :: "string \<Rightarrow> rat option" where
  "read_unsigned t =
     (case split_on (CHR ''.'') t of
        [ip] \<Rightarrow> if ip \<noteq> [] \<and> list_all is_digit ip then Some (of_nat (read_uint ip)) else None
      | [ip, fp] \<Rightarrow>
          if ip \<noteq> [] \<and> fp \<noteq> [] \<and> list_all is_digit ip \<and> list_all is_digit fp
          then Some (of_nat (read_uint ip) + of_nat (read_uint fp) / 10 ^ length fp) else None
      | _ \<Rightarrow> None)"

definition read_decimal :: "string \<Rightarrow> rat option" where
  "read_decimal s =
     (case s of
        [] \<Rightarrow> None
      | c # cs \<Rightarrow> if c = CHR ''-'' then map_option uminus (read_unsigned cs) else read_unsigned s)"

lemma read_uint_append: "read_uint (a @ b) = read_uint a * 10 ^ length b + read_uint b"
proof (induction b rule: rev_induct)
  case (snoc c b)
  then show ?case
    using read_uint_snoc [of "a @ b" c] by (simp add: read_uint_snoc algebra_simps)
qed (simp add: read_uint_def)

lemma pad_zeros_props:
  "read_uint (pad_zeros sc s) = read_uint s
   \<and> (list_all is_digit s \<longrightarrow> list_all is_digit (pad_zeros sc s))
   \<and> sc < int (length (pad_zeros sc s))"
proof (induction sc s rule: pad_zeros.induct)
  case (1 sc s)
  show ?case
  proof (cases "int (length s) \<le> sc")
    case True
    have "read_uint (CHR ''0'' # s) = read_uint s"
      using read_uint_append [of "''0''" s] by (simp add: read_uint_def digit_val_def)
    moreover have "is_digit (CHR ''0'')" by (simp add: is_digit_def)
    ultimately show ?thesis using 1 True by (simp add: pad_zeros.simps [of sc s])
  next
    case False
    then show ?thesis by (simp add: pad_zeros.simps [of sc s])
  qed
qed

lemma read_unsigned_digits:
  "list_all is_digit s \<Longrightarrow> s \<noteq> [] \<Longrightarrow> read_unsigned s = Some (of_nat (read_uint s))"
proof -
  assume s: "list_all is_digit s" "s \<noteq> []"
  then have "CHR ''.'' \<notin> set s" by (auto simp: list_all_iff)
  then show ?thesis using s by (simp add: read_unsigned_def)
qed

lemma read_unsigned_point:
  assumes "list_all is_digit str" and "0 < n" and "n < length str"
  shows "read_unsigned (take (length str - n) str @ ''.'' @ drop (length str - n) str)
       = Some (of_nat (read_uint str) / 10 ^ n)"
proof -
  let ?p = "length str - n"
  have dig: "list_all is_digit (take ?p str)" "list_all is_digit (drop ?p str)"
    using assms(1) by (auto simp: list_all_iff dest: in_set_takeD in_set_dropD)
  then have np: "CHR ''.'' \<notin> set (take ?p str)" "CHR ''.'' \<notin> set (drop ?p str)"
    by (auto simp: list_all_iff)
  have "split_on (CHR ''.'') (take ?p str @ CHR ''.'' # drop ?p str) = [take ?p str, drop ?p str]"
    using np by simp
  moreover have "read_uint str = read_uint (take ?p str) * 10 ^ n + read_uint (drop ?p str)"
    using read_uint_append [of "take ?p str" "drop ?p str"] assms by simp
  then have "of_nat (read_uint str) / 10 ^ n
      = (of_nat (read_uint (take ?p str)) + of_nat (read_uint (drop ?p str)) / 10 ^ n :: rat)"
    by (simp add: field_simps)
  moreover have "take ?p str \<noteq> []" "drop ?p str \<noteq> []" using assms by auto
  ultimately show ?thesis
    using dig assms by (simp add: read_unsigned_def del: take_eq_Nil drop_eq_Nil)
qed

lemma digit_head_not_minus:
  "list_all is_digit s \<Longrightarrow> s \<noteq> [] \<Longrightarrow> read_decimal (s @ t) = read_unsigned (s @ t)"
  by (cases s) (auto simp: read_decimal_def)

lemma read_decimal_minus: "read_decimal (CHR ''-'' # s) = map_option uminus (read_unsigned s)"
  by (simp add: read_decimal_def)

lemma format_uint_all_digits: "list_all is_digit (format_uint n)"
  using format_uint_digits by (auto simp: list_all_iff)

lemma read_decimal_format_int: "read_decimal (format_int i) = Some (of_int i)"
proof (cases "i < 0")
  case True
  then show ?thesis
    by (simp add: format_int_def read_decimal_minus read_unsigned_digits format_uint_all_digits)
next
  case False
  then show ?thesis
    using digit_head_not_minus [of "format_uint (nat i)" "[]"]
    by (simp add: format_int_def read_unsigned_digits format_uint_all_digits)
qed

lemma Fixed_String_abs:
  "(if sint u < 0 then uint (- (u + 1) :: i64w) + 1 else sint u) = \<bar>sint u\<bar>"
proof (cases "sint u < 0")
  case True
  have r: "in_i64 (sint u)" by (rule sint64_range)
  have "sint (- (u + 1)) = i64 (- sint u - 1)"
    using sint_word_of_int_i64 [of "- sint u - 1"] by (simp add: of_int_sint)
  also have "\<dots> = - sint u - 1"
    using True r by (intro i64_id) (auto simp: in_i64_def int64_min_def int64_max_def)
  finally have s: "sint (- (u + 1)) = - sint u - 1" .
  moreover have "uint (- (u + 1)) = sint (- (u + 1))"
    using True r s by (simp only: uint_sint take_bit_int_eq_self_iff)
      (simp add: in_i64_def int64_min_def int64_max_def)
  ultimately show ?thesis using True by simp
qed simp

text \<open>
  \<open>String\<close> prints the exact value: reading the printed text as a decimal
  numeral gives back \<open>ToDecimal\<close>, for every unscaled value including the least 64-bit integer.
\<close>

theorem fixed_string_reads_back:
  assumes "fixed_ok f"
  shows "read_decimal (Fixed_String f) = Some (ToDecimal f)"
proof (cases "fscale f = 0")
  case True
  then show ?thesis
    using assms by (simp add: Fixed_String_def read_decimal_format_int ToDecimal_value)
next
  case False
  then have "sint (fscale f) \<noteq> 0" using signed_word_eqI [of "fscale f" 0] by auto
  then obtain n where n: "sint (fscale f) = int n" "0 < n"
    using assms by (auto simp: fixed_ok_def intro: that [of "nat (sint (fscale f))"])
  let ?u = "sint (unscaled f)"
  define str where "str = pad_zeros (int n) (format_uint (nat \<bar>?u\<bar>))"
  define out where "out = take (length str - n) str @ ''.'' @ drop (length str - n) str"
  have pz: "read_uint str = nat \<bar>?u\<bar>" "list_all is_digit str" "n < length str"
    using pad_zeros_props [of "int n" "format_uint (nat \<bar>?u\<bar>)"] format_uint_all_digits
    by (auto simp: str_def)
  have p: "nat (int (length str) - int n) = length str - n" by simp
  have fs: "Fixed_String f = (if ?u < 0 then ''-'' @ out else out)"
    using False unfolding Fixed_String_def Let_def n(1) Fixed_String_abs str_def [symmetric]
    by (simp only: if_False p out_def)
  have ro: "read_unsigned out = Some (of_nat (nat \<bar>?u\<bar>) / 10 ^ n)"
    using read_unsigned_point [OF pz(2) n(2) pz(3)] pz(1) by (simp add: out_def)
  have "list_all is_digit (take (length str - n) str)" "take (length str - n) str \<noteq> []"
    using pz by (auto simp: list_all_iff dest: in_set_takeD)
  then have hd: "read_decimal out = read_unsigned out"
    unfolding out_def by (rule digit_head_not_minus)
  show ?thesis
    using assms ro hd n by (simp add: fs read_decimal_minus ToDecimal_value)
qed

theorem fixed_string_reads_back_witness:
  "read_decimal (Fixed_String \<lparr>unscaled = - 5, fscale = 2\<rparr>) = Some (- 5 / 100)"
  using fixed_string_reads_back [of "\<lparr>unscaled = - 5, fscale = 2\<rparr>"]
  by (simp add: fixed_ok_def ToDecimal_value)

end
