(* ===== verification/Domain.thy ===== *)
theory Domain
  imports Decimal
begin

text \<open>
  Package \<open>internal/domain\<close>: identifiers, enumerations and the normalised records of market
  data and trading.  A Go string type with named constants becomes a datatype with one
  constructor per constant and one for any other text; exchange and asset names stay strings,
  because the code sorts them and uses them as keys.
\<close>

section \<open>Identifiers and enumerations (\<open>domain.go\<close>)\<close>

type_synonym ExchangeID = string
type_synonym AssetSymbol = string
type_synonym ExchangeSymbol = string
type_synonym ClientOrderID = string
type_synonym PositionID = string

definition ExchangeBinance :: ExchangeID where "ExchangeBinance = ''binance''"
definition ExchangeBybit :: ExchangeID where "ExchangeBybit = ''bybit''"
definition ExchangeMEXC :: ExchangeID where "ExchangeMEXC = ''mexc''"
definition ExchangeOKX :: ExchangeID where "ExchangeOKX = ''okx''"
definition ExchangeBitget :: ExchangeID where "ExchangeBitget = ''bitget''"
definition ExchangeKuCoin :: ExchangeID where "ExchangeKuCoin = ''kucoin''"
definition ExchangeGate :: ExchangeID where "ExchangeGate = ''gate''"

lemmas exchange_defs = ExchangeBinance_def ExchangeBybit_def ExchangeMEXC_def ExchangeOKX_def
  ExchangeBitget_def ExchangeKuCoin_def ExchangeGate_def

definition supportedExchanges :: "ExchangeID list" where
  "supportedExchanges =
     [ExchangeBinance, ExchangeBybit, ExchangeMEXC, ExchangeOKX,
      ExchangeBitget, ExchangeKuCoin, ExchangeGate]"

definition SupportedExchanges :: "ExchangeID list" where
  "SupportedExchanges = supportedExchanges"

fun id_in :: "ExchangeID \<Rightarrow> ExchangeID list \<Rightarrow> bool" where
  "id_in e [] = False"
| "id_in e (x # xs) = (if e = x then True else id_in e xs)"

definition ExchangeID_IsValid :: "ExchangeID \<Rightarrow> bool" where
  "ExchangeID_IsValid e = id_in e supportedExchanges"

lemma id_in_set [simp]: "id_in e xs \<longleftrightarrow> e \<in> set xs"
  by (induction xs) auto

datatype Side = SideLong | SideShort | SideOther string

definition Side_IsValid :: "Side \<Rightarrow> bool" where
  "Side_IsValid s \<longleftrightarrow> s = SideLong \<or> s = SideShort"

text \<open>\<open>Sign\<close> panics on an invalid side.\<close>

fun Side_Sign :: "Side \<Rightarrow> int option" where
  "Side_Sign SideLong = Some 1"
| "Side_Sign SideShort = Some (- 1)"
| "Side_Sign (SideOther s) = None"

datatype InstrumentType = LinearUSDTPerpetual | InstrumentTypeOther string

datatype InstrumentStatus =
  InstrActive | InstrDelisted | InstrHalted | InstrReduceOnly | InstrOther string

definition IsTradable :: "InstrumentStatus \<Rightarrow> bool" where
  "IsTradable s \<longleftrightarrow> s = InstrActive"

datatype FundingPriceType = FundingPriceMark | FundingPriceIndex | FundingPriceOther string
datatype FundingRateType = FundingRateRealized | FundingRatePredicted | FundingRateOther string

type_synonym ConfidenceLevel = int

definition ConfidenceNone :: ConfidenceLevel where "ConfidenceNone = 0"
definition ConfidenceLow :: ConfidenceLevel where "ConfidenceLow = 1"
definition ConfidenceMedium :: ConfidenceLevel where "ConfidenceMedium = 2"
definition ConfidenceHigh :: ConfidenceLevel where "ConfidenceHigh = 3"

lemmas confidence_defs = ConfidenceNone_def ConfidenceLow_def ConfidenceMedium_def ConfidenceHigh_def

definition ConfidenceLevel_String :: "ConfidenceLevel \<Rightarrow> string" where
  "ConfidenceLevel_String c =
     (if c = ConfidenceNone then ''none''
      else if c = ConfidenceLow then ''low''
      else if c = ConfidenceMedium then ''medium''
      else if c = ConfidenceHigh then ''high''
      else ''unknown('' @ format_int c @ '')'')"

definition AtLeast :: "ConfidenceLevel \<Rightarrow> ConfidenceLevel \<Rightarrow> bool" where
  "AtLeast c mn \<longleftrightarrow> c \<ge> mn"

datatype CounterpartyRiskTier = TierA | TierB | TierC | TierOther string

definition Tier_IsValid :: "CounterpartyRiskTier \<Rightarrow> bool" where
  "Tier_IsValid c \<longleftrightarrow> c = TierA \<or> c = TierB \<or> c = TierC"

datatype MarginMode = MarginIsolated | MarginCross | MarginOther string
datatype PositionMode = PositionOneWay | PositionHedge | PositionModeOther string
datatype OrderMode = OrderMarketableLimitIOC | OrderMarket | OrderModeOther string

datatype SystemState =
    SysStarting | SysReady | SysPausedByUser | SysSafeHalt | SysTradingLocked
  | SysRebalanceLocked | SysRecoveryRequired | SysOther string

definition AllowsNewEntry :: "SystemState \<Rightarrow> bool" where
  "AllowsNewEntry s \<longleftrightarrow> s = SysReady"

definition RequiresRecovery :: "SystemState \<Rightarrow> bool" where
  "RequiresRecovery s \<longleftrightarrow> s = SysRecoveryRequired \<or> s = SysSafeHalt \<or> s = SysTradingLocked"

datatype RunMode = RunModeDryRun | RunModePaper | RunModeTestnet | RunModeLive | RunModeOther string

definition SendsRealOrders :: "RunMode \<Rightarrow> bool" where
  "SendsRealOrders r \<longleftrightarrow> r = RunModeTestnet \<or> r = RunModeLive"

definition IsLive :: "RunMode \<Rightarrow> bool" where
  "IsLive r \<longleftrightarrow> r = RunModeLive"

section \<open>Market data (\<open>market.go\<close>)\<close>

record CanonicalInstrument =
  ins_Exchange :: ExchangeID
  ins_BaseAsset :: AssetSymbol
  ins_Symbol :: ExchangeSymbol
  ins_Type :: InstrumentType
  ins_Settlement :: string
  ins_Multiplier :: decimal
  ins_QtyStep :: decimal
  ins_MinQty :: decimal
  ins_MinNotional :: decimal
  ins_TickSize :: decimal
  ins_MaxLeverage :: decimal
  ins_MaxMarketOrderQty :: decimal
  ins_PositionLimit :: decimal
  ins_FundingIntervalSec :: int
  ins_FundingPriceType :: FundingPriceType
  ins_SupportsADL :: bool
  ins_Status :: InstrumentStatus

record ADLQueuePosition =
  adl_LongQueue :: decimal
  adl_ShortQueue :: decimal

record MarketSnapshot =
  snap_Exchange :: ExchangeID
  snap_BaseAsset :: AssetSymbol
  snap_Symbol :: ExchangeSymbol
  snap_BestBid :: decimal
  snap_BestAsk :: decimal
  snap_MarkPrice :: decimal
  snap_IndexPrice :: decimal
  snap_LastPrice :: decimal
  snap_QuoteVolume24h :: decimal
  snap_OpenInterest :: decimal
  snap_BidDepth :: decimal
  snap_AskDepth :: decimal
  snap_RealizedRate :: decimal
  snap_PredictedRate :: decimal
  snap_RateCap :: "decimal option"
  snap_RateFloor :: "decimal option"
  snap_FundingIntervalSec :: int
  snap_NextFundingTime :: time
  snap_Confidence :: ConfidenceLevel
  snap_ADL :: "ADLQueuePosition option"
  snap_ExchangeTimestamp :: time
  snap_LocalReceiveTime :: time
  snap_SequenceValid :: bool
  snap_IsFresh :: bool

definition IsStale :: "MarketSnapshot \<Rightarrow> time \<Rightarrow> duration \<Rightarrow> bool" where
  "IsStale s now maxAge \<longleftrightarrow>
     (if \<not> snap_IsFresh s then True else time_Sub now (snap_LocalReceiveTime s) > maxAge)"

record FundingInfo =
  fi_Symbol :: ExchangeSymbol
  fi_RealizedRate :: decimal
  fi_PredictedRate :: decimal
  fi_RateType :: FundingRateType
  fi_RateCap :: "decimal option"
  fi_RateFloor :: "decimal option"
  fi_IntervalSec :: int
  fi_NextFundingTime :: time
  fi_Confidence :: ConfidenceLevel
  fi_PriceType :: FundingPriceType

record PriceLevel =
  lvl_Price :: decimal
  lvl_Qty :: decimal

record OrderBookSnapshot =
  ob_Exchange :: ExchangeID
  ob_Symbol :: ExchangeSymbol
  ob_Bids :: "PriceLevel list"
  ob_Asks :: "PriceLevel list"
  ob_Timestamp :: time
  ob_Sequence :: int
  ob_IsSnapshot :: bool

definition OrderBook_BestBid :: "OrderBookSnapshot \<Rightarrow> decimal \<times> bool" where
  "OrderBook_BestBid b = (case ob_Bids b of [] \<Rightarrow> (Dec_Zero, False) | l # _ \<Rightarrow> (lvl_Price l, True))"

definition OrderBook_BestAsk :: "OrderBookSnapshot \<Rightarrow> decimal \<times> bool" where
  "OrderBook_BestAsk b = (case ob_Asks b of [] \<Rightarrow> (Dec_Zero, False) | l # _ \<Rightarrow> (lvl_Price l, True))"

section \<open>Orders\<close>

datatype OrderStatus =
    OrdNew | OrdAcknowledged | OrdPartiallyFilled | OrdFilled | OrdCancelled
  | OrdRejected | OrdExpired | OrdNotFound | OrdOther string

definition OrderStatus_IsTerminal :: "OrderStatus \<Rightarrow> bool" where
  "OrderStatus_IsTerminal s =
     (case s of OrdFilled \<Rightarrow> True | OrdCancelled \<Rightarrow> True | OrdRejected \<Rightarrow> True
      | OrdExpired \<Rightarrow> True | _ \<Rightarrow> False)"

datatype AckState = AckNone | AckAcked | AckQueried | AckTimedOut

datatype TimeInForce = TIFNone | TIFGTC | TIFIOC | TIFFOK

record Order =
  ord_ExchangeOrderID :: string
  ord_ClientOrderID :: ClientOrderID
  ord_Symbol :: ExchangeSymbol
  ord_Side :: Side
  ord_Mode :: OrderMode
  ord_ReduceOnly :: bool
  ord_RequestedQty :: decimal
  ord_FilledQty :: decimal
  ord_AvgFillPrice :: decimal
  ord_Fees :: decimal
  ord_Status :: OrderStatus
  ord_ExchangeTimestamp :: time
  ord_AckState :: AckState

text \<open>The zero value of \<open>Order\<close>, returned beside an error.\<close>

definition zero_Order :: Order where
  "zero_Order = \<lparr>ord_ExchangeOrderID = [], ord_ClientOrderID = [], ord_Symbol = [],
     ord_Side = SideOther [], ord_Mode = OrderModeOther [], ord_ReduceOnly = False,
     ord_RequestedQty = 0, ord_FilledQty = 0, ord_AvgFillPrice = 0, ord_Fees = 0,
     ord_Status = OrdOther [], ord_ExchangeTimestamp = zero_time, ord_AckState = AckNone\<rparr>"

record OrderAck =
  ack_ExchangeOrderID :: string
  ack_ClientOrderID :: ClientOrderID
  ack_Status :: OrderStatus
  ack_Timestamp :: time

record PlaceOrderRequest =
  req_ClientOrderID :: ClientOrderID
  req_Symbol :: ExchangeSymbol
  req_Side :: Side
  req_Mode :: OrderMode
  req_BaseQty :: decimal
  req_Price :: decimal
  req_ReduceOnly :: bool
  req_PostOnly :: bool
  req_TimeInForce :: TimeInForce

record OrderQuery =
  qry_ClientOrderID :: ClientOrderID
  qry_ExchangeOrderID :: string
  qry_Symbol :: ExchangeSymbol

record SetLeverageRequest =
  lev_Symbol :: ExchangeSymbol
  lev_Leverage :: decimal

record InternalTransferRequest =
  it_Asset :: string
  it_Amount :: decimal
  it_From :: string
  it_To :: string

record WithdrawalRequest =
  wd_Asset :: string
  wd_Amount :: decimal
  wd_Network :: string
  wd_Address :: string
  wd_Memo :: string

end
