(* ===== verification/Orderbook.thy ===== *)
theory Orderbook
  imports Domain
begin

text \<open>
  Package \<open>internal/orderbook\<close> (\<open>vwap.go\<close>): the walk of a requested quantity through the
  levels of a book, its volume-weighted price, and the executable entry and exit basis.
\<close>

record VWAPResult =
  vw_VWAP :: decimal
  vw_FilledQty :: decimal
  vw_FilledValue :: decimal
  vw_FullyFilled :: bool

definition zero_VWAPResult :: VWAPResult where
  "zero_VWAPResult = \<lparr>vw_VWAP = 0, vw_FilledQty = 0, vw_FilledValue = 0, vw_FullyFilled = False\<rparr>"

definition SlippageBps :: "sp_ops \<Rightarrow> VWAPResult \<Rightarrow> decimal \<Rightarrow> decimal option" where
  "SlippageBps D r bestPrice =
     (if vw_VWAP r = 0 \<or> bestPrice = 0 then Some Dec_Zero
      else map_option (\<lambda>q. Dec_MulInt q 10000) (Dec_Div D \<bar>vw_VWAP r - bestPrice\<bar> bestPrice))"

text \<open>The loop of \<open>walk\<close>: filled value, filled quantity, remaining quantity.\<close>

fun walk_loop :: "PriceLevel list \<Rightarrow> decimal \<Rightarrow> decimal \<Rightarrow> decimal \<Rightarrow> decimal \<times> decimal \<times> decimal" where
  "walk_loop [] fv fq remaining = (fv, fq, remaining)"
| "walk_loop (lvl # ls) fv fq remaining =
     (if remaining = 0 then (fv, fq, remaining)
      else if \<not> lvl_Qty lvl > 0 then walk_loop ls fv fq remaining
      else let take = (if lvl_Qty lvl > remaining then remaining else lvl_Qty lvl)
           in walk_loop ls (fv + lvl_Price lvl * take) (fq + take) (remaining - take))"

definition walk :: "sp_ops \<Rightarrow> PriceLevel list \<Rightarrow> decimal \<Rightarrow> VWAPResult option" where
  "walk D levels requestedQty =
     (case walk_loop levels Dec_Zero Dec_Zero requestedQty of (filledValue, filledQty, remaining) \<Rightarrow>
        if filledQty = 0 then Some zero_VWAPResult
        else map_option (\<lambda>v. \<lparr>vw_VWAP = v, vw_FilledQty = filledQty, vw_FilledValue = filledValue,
                              vw_FullyFilled = (remaining = 0)\<rparr>)
               (Dec_Div D filledValue filledQty))"

definition VWAPBuy :: "sp_ops \<Rightarrow> PriceLevel list \<Rightarrow> decimal \<Rightarrow> VWAPResult option" where
  "VWAPBuy D asks requestedQty =
     (if \<not> requestedQty > 0 \<or> asks = [] then Some zero_VWAPResult else walk D asks requestedQty)"

definition VWAPSell :: "sp_ops \<Rightarrow> PriceLevel list \<Rightarrow> decimal \<Rightarrow> VWAPResult option" where
  "VWAPSell D bids requestedQty =
     (if \<not> requestedQty > 0 \<or> bids = [] then Some zero_VWAPResult else walk D bids requestedQty)"

text \<open>Basis results: basis, long price, short price, ok.\<close>

type_synonym basis_result = "decimal \<times> decimal \<times> decimal \<times> bool"

definition EntryBasis ::
  "sp_ops \<Rightarrow> PriceLevel list \<Rightarrow> PriceLevel list \<Rightarrow> decimal \<Rightarrow> basis_result option" where
  "EntryBasis D longAsks shortBids qty =
     do { lr \<leftarrow> VWAPBuy D longAsks qty;
          sr \<leftarrow> VWAPSell D shortBids qty;
          if \<not> vw_FullyFilled lr \<or> \<not> vw_FullyFilled sr then Some (Dec_Zero, Dec_Zero, Dec_Zero, False)
          else if vw_VWAP lr = 0 then Some (Dec_Zero, Dec_Zero, Dec_Zero, False)
          else do { q \<leftarrow> Dec_Div D (vw_VWAP sr) (vw_VWAP lr);
                    Some (q - Dec_One, vw_VWAP lr, vw_VWAP sr, True) } }"

definition ExitBasis ::
  "sp_ops \<Rightarrow> PriceLevel list \<Rightarrow> PriceLevel list \<Rightarrow> decimal \<Rightarrow> basis_result option" where
  "ExitBasis D longBids shortAsks qty =
     do { lr \<leftarrow> VWAPSell D longBids qty;
          sr \<leftarrow> VWAPBuy D shortAsks qty;
          if \<not> vw_FullyFilled lr \<or> \<not> vw_FullyFilled sr then Some (Dec_Zero, Dec_Zero, Dec_Zero, False)
          else if vw_VWAP sr = 0 then Some (Dec_Zero, Dec_Zero, Dec_Zero, False)
          else do { q \<leftarrow> Dec_Div D (vw_VWAP lr) (vw_VWAP sr);
                    Some (q - Dec_One, vw_VWAP lr, vw_VWAP sr, True) } }"

fun depth_loop :: "PriceLevel list \<Rightarrow> decimal \<Rightarrow> decimal \<Rightarrow> bool" where
  "depth_loop [] sm qty = False"
| "depth_loop (lvl # ls) sm qty =
     (let s = sm + lvl_Qty lvl in if s \<ge> qty then True else depth_loop ls s qty)"

definition CheckDepthSufficient :: "PriceLevel list \<Rightarrow> decimal \<Rightarrow> bool" where
  "CheckDepthSufficient levels qty = depth_loop levels Dec_Zero qty"

section \<open>What the walk fills\<close>

text \<open>The quantity the positive levels offer.\<close>

definition depth :: "PriceLevel list \<Rightarrow> decimal" where
  "depth ls = (\<Sum>l\<leftarrow>ls. max 0 (lvl_Qty l))"

lemma depth_nonneg: "0 \<le> depth ls"
  unfolding depth_def by (rule sum_list_nonneg_rat) simp

lemma walk_loop_zero [simp]: "walk_loop ls fv fq 0 = (fv, fq, 0)"
  by (cases ls) auto

lemma walk_loop_step:
  assumes "0 \<le> r" and "t = min r (max 0 (lvl_Qty l))"
  shows "walk_loop (l # ls) fv fq r = walk_loop ls (fv + lvl_Price l * t) (fq + t) (r - t)"
  using assms by (auto simp: Let_def min_def max_def)

lemma walk_loop_fill:
  "0 \<le> r \<Longrightarrow> walk_loop ls fv fq r = (fv', fq', r') \<Longrightarrow>
     fq' = fq + min r (depth ls) \<and> r' = r - min r (depth ls)"
proof (induction ls arbitrary: fv fq r)
  case Nil
  then show ?case by (simp add: depth_def)
next
  case (Cons l ls)
  define t where "t = min r (max 0 (lvl_Qty l))"
  have "walk_loop ls (fv + lvl_Price l * t) (fq + t) (r - t) = (fv', fq', r')"
    using Cons.prems walk_loop_step [OF Cons.prems(1) t_def] by simp
  moreover have "0 \<le> r - t" by (simp add: t_def)
  moreover have "min r (depth (l # ls)) = t + min (r - t) (depth ls)"
    using depth_nonneg [of ls] by (auto simp: depth_def t_def min_def max_def)
  ultimately show ?case using Cons.IH [of "r - t" "fv + lvl_Price l * t" "fq + t"] by auto
qed

text \<open>
  Any way of buying from the levels: \<open>xs\<close> takes at most the offered quantity of each.
\<close>

definition feasible :: "PriceLevel list \<Rightarrow> decimal list \<Rightarrow> bool" where
  "feasible ls xs \<longleftrightarrow> list_all2 (\<lambda>l x. 0 \<le> x \<and> x \<le> max 0 (lvl_Qty l)) ls xs"

definition cost :: "PriceLevel list \<Rightarrow> decimal list \<Rightarrow> decimal" where
  "cost ls xs = sum_list (map2 (\<lambda>l x. lvl_Price l * x) ls xs)"

lemma feasible_Cons:
  "feasible (l # ls) xs \<longleftrightarrow> (\<exists>x ys. xs = x # ys \<and> 0 \<le> x \<and> x \<le> max 0 (lvl_Qty l) \<and> feasible ls ys)"
  by (auto simp: feasible_def list_all2_Cons1)

lemma cost_Cons [simp]: "cost (l # ls) (x # xs) = lvl_Price l * x + cost ls xs"
  by (simp add: cost_def)

lemma feasible_sum: "feasible ls xs \<Longrightarrow> 0 \<le> sum_list xs \<and> sum_list xs \<le> depth ls"
  unfolding feasible_def depth_def by (induction rule: list_all2_induct) auto

text \<open>
  Buying \<open>\<delta>\<close> less saves at least \<open>\<delta>\<close> times any lower bound of the prices.
\<close>

lemma feasible_reduce:
  assumes "feasible ls xs" and "0 \<le> \<delta>" and "\<delta> \<le> sum_list xs"
    and "\<forall>l \<in> set ls. p \<le> lvl_Price l"
  shows "\<exists>ys. feasible ls ys \<and> sum_list ys = sum_list xs - \<delta> \<and> cost ls ys \<le> cost ls xs - p * \<delta>"
  using assms
proof (induction ls arbitrary: xs \<delta>)
  case Nil
  then show ?case by (auto simp: feasible_def cost_def)
next
  case (Cons l ls)
  obtain x xs' where xs: "xs = x # xs'" "0 \<le> x" "x \<le> max 0 (lvl_Qty l)" "feasible ls xs'"
    using Cons.prems(1) unfolding feasible_Cons by blast
  define t where "t = min x \<delta>"
  have t: "0 \<le> t" "t \<le> x" "0 \<le> \<delta> - t" "\<delta> - t \<le> sum_list xs'"
    using xs Cons.prems feasible_sum [OF xs(4)] by (auto simp: t_def min_def)
  obtain ys where ys: "feasible ls ys" "sum_list ys = sum_list xs' - (\<delta> - t)"
      "cost ls ys \<le> cost ls xs' - p * (\<delta> - t)"
    using Cons.IH [OF xs(4) t(3,4)] Cons.prems(4) by auto
  have "p * t \<le> lvl_Price l * t" using Cons.prems(4) t by (intro mult_right_mono) auto
  then have "cost (l # ls) ((x - t) # ys) \<le> cost (l # ls) xs - p * \<delta>"
    using ys(3) xs(1) by (simp add: algebra_simps)
  moreover have "feasible (l # ls) ((x - t) # ys)"
    using ys(1) xs t unfolding feasible_Cons by auto
  moreover have "sum_list ((x - t) # ys) = sum_list xs - \<delta>" using ys(2) xs(1) by simp
  ultimately show ?case by blast
qed

lemma cost_no_depth: "feasible ls xs \<Longrightarrow> depth ls = 0 \<Longrightarrow> cost ls xs = 0"
proof (induction ls arbitrary: xs)
  case Nil
  then show ?case by (simp add: feasible_def cost_def)
next
  case (Cons l ls)
  have "max 0 (lvl_Qty l) + depth ls = 0" using Cons.prems(2) by (simp add: depth_def)
  then have "max 0 (lvl_Qty l) = 0" "depth ls = 0"
    using depth_nonneg [of ls] max.cobounded1 [of 0 "lvl_Qty l"] by linarith+
  then show ?case using Cons by (auto simp: feasible_Cons)
qed

text \<open>On ascending prices the walk pays no more than any other way to buy as much.\<close>

lemma walk_loop_cheapest:
  assumes "sorted_wrt (\<lambda>a b. lvl_Price a \<le> lvl_Price b) ls"
    and "0 \<le> r" and "feasible ls xs" and "sum_list xs = min r (depth ls)"
    and "walk_loop ls fv fq r = (fv', fq', r')"
  shows "fv' \<le> fv + cost ls xs"
  using assms
proof (induction ls arbitrary: xs r fv fq)
  case Nil
  then show ?case by (simp add: feasible_def cost_def)
next
  case (Cons l ls)
  obtain x ys where xs: "xs = x # ys" "0 \<le> x" "x \<le> max 0 (lvl_Qty l)" "feasible ls ys"
    using Cons.prems(3) unfolding feasible_Cons by blast
  define t where "t = min r (max 0 (lvl_Qty l))"
  have d: "min r (depth (l # ls)) = t + min (r - t) (depth ls)"
    using depth_nonneg [of ls] by (auto simp: depth_def t_def min_def max_def)
  have ge: "\<forall>m \<in> set ls. lvl_Price l \<le> lvl_Price m" using Cons.prems(1) by auto
  have ys: "0 \<le> sum_list ys" using feasible_sum [OF xs(4)] by simp
  have "x \<le> r" using Cons.prems(4) xs(1) ys by simp
  then have x: "x \<le> t" using xs(3) by (simp add: t_def)
  have sy: "sum_list ys = (t - x) + min (r - t) (depth ls)"
    using Cons.prems(4) xs(1) d by simp
  have "0 \<le> min (r - t) (depth ls)" using depth_nonneg [of ls] by (simp add: t_def)
  then obtain zs where zs: "feasible ls zs" "sum_list zs = min (r - t) (depth ls)"
      "cost ls zs \<le> cost ls ys - lvl_Price l * (t - x)"
    using feasible_reduce [OF xs(4) _ _ ge, of "t - x"] x sy by auto
  have "walk_loop ls (fv + lvl_Price l * t) (fq + t) (r - t) = (fv', fq', r')"
    using Cons.prems(5) walk_loop_step [OF Cons.prems(2) t_def] by simp
  then have "fv' \<le> fv + lvl_Price l * t + cost ls zs"
    using Cons.IH [OF _ _ zs(1,2)] Cons.prems(1) by (simp add: t_def)
  then show ?case using zs(3) xs(1) by (simp add: algebra_simps)
qed

section \<open>The result of VWAPBuy\<close>

text \<open>
  for a positive request, \<open>VWAPBuy\<close> does not panic, fills exactly
  the smaller of the request and the offered depth, reports a full fill exactly when the depth
  suffices, pays on an ascending book no more than any other way of taking the same quantity from
  the same levels, and its average price is the paid value over the filled quantity to within half
  a unit of the 28th decimal place.
\<close>

theorem vwap_buy_optimal:
  assumes "shopspring D" and "0 < q"
  shows "\<exists>r. VWAPBuy D asks q = Some r
     \<and> vw_FilledQty r = min q (depth asks)
     \<and> (vw_FullyFilled r \<longleftrightarrow> q \<le> depth asks)
     \<and> (0 < depth asks \<longrightarrow> \<bar>vw_VWAP r - vw_FilledValue r / vw_FilledQty r\<bar> \<le> ulp / 2)
     \<and> (\<forall>xs. sorted_wrt (\<lambda>a b. lvl_Price a \<le> lvl_Price b) asks \<and> feasible asks xs
            \<and> sum_list xs = vw_FilledQty r \<longrightarrow> vw_FilledValue r \<le> cost asks xs)"
proof (cases "0 < depth asks")
  case True
  then have ne: "asks \<noteq> []" by (auto simp: depth_def)
  obtain fv fq rm where w: "walk_loop asks 0 0 q = (fv, fq, rm)" by (metis prod_cases3)
  have fq: "fq = min q (depth asks)" "rm = q - min q (depth asks)"
    using walk_loop_fill [OF _ w] assms(2) by auto
  then have pos: "0 < fq" using True assms(2) by simp
  let ?r = "\<lparr>vw_VWAP = sp_Div D DivisionPrecision fv fq, vw_FilledQty = fq, vw_FilledValue = fv,
             vw_FullyFilled = (rm = 0)\<rparr>"
  have "VWAPBuy D asks q = Some ?r"
    using ne assms(2) w pos by (simp add: VWAPBuy_def walk_def Dec_Div_def)
  moreover have "rm = 0 \<longleftrightarrow> q \<le> depth asks" using fq by auto
  moreover have "\<bar>sp_Div D DivisionPrecision fv fq - fv / fq\<bar> \<le> ulp / 2"
    using shopspring.div_near [OF assms(1)] pos by simp
  moreover have "fv \<le> cost asks xs"
    if "sorted_wrt (\<lambda>a b. lvl_Price a \<le> lvl_Price b) asks" "feasible asks xs" "sum_list xs = fq" for xs
    using walk_loop_cheapest [OF that(1) _ that(2) _ w] assms(2) that(3) fq by simp
  ultimately show ?thesis using fq by auto
next
  case False
  then have d: "depth asks = 0" using depth_nonneg [of asks] by simp
  have z: "VWAPBuy D asks q = Some zero_VWAPResult"
  proof (cases "asks = []")
    case False
    obtain fv fq rm where w: "walk_loop asks 0 0 q = (fv, fq, rm)" by (metis prod_cases3)
    then have "fq = 0" using walk_loop_fill [OF _ w] assms(2) d by simp
    then show ?thesis using False assms(2) w by (simp add: VWAPBuy_def walk_def)
  qed (simp add: VWAPBuy_def)
  have "0 \<le> cost asks xs" if "feasible asks xs" for xs
    using cost_no_depth [OF that d] by simp
  then show ?thesis using z d assms(2) by (simp add: zero_VWAPResult_def)
qed

theorem vwap_buy_optimal_witness:
  "\<exists>r. VWAPBuy sp_ref [\<lparr>lvl_Price = 100, lvl_Qty = 2\<rparr>, \<lparr>lvl_Price = 101, lvl_Qty = 3\<rparr>] 4 = Some r
     \<and> vw_FilledQty r = 4 \<and> vw_FullyFilled r"
  using vwap_buy_optimal [OF spref.shopspring_axioms, of 4
      "[\<lparr>lvl_Price = 100, lvl_Qty = 2\<rparr>, \<lparr>lvl_Price = 101, lvl_Qty = 3\<rparr>]"]
  by (auto simp: depth_def)

end
