(* ===== verification/Strategy.thy ===== *)
theory Strategy
  imports Domain
begin

text \<open>
  Package \<open>internal/strategy\<close>: the funding calendar (\<open>funding_calendar.go\<close>), the expected net
  profit with its breakdown and the eligibility check (\<open>expected_pnl.go\<close>), and the candidate
  scores (\<open>score.go\<close>).
\<close>

section \<open>Funding calendar\<close>

record FundingEvent =
  ev_Exchange :: ExchangeID
  ev_Symbol :: ExchangeSymbol
  ev_LegSide :: Side
  ev_ScheduledAt :: time
  ev_FundingRate :: decimal
  ev_RateType :: FundingRateType
  ev_Notional :: decimal
  ev_CashFlow :: decimal
  ev_Confidence :: ConfidenceLevel

record CalendarInput =
  ci_Exchange :: ExchangeID
  ci_Symbol :: ExchangeSymbol
  ci_Side :: Side
  ci_PredictedRate :: decimal
  ci_FundingInterval :: duration
  ci_NextFundingTime :: time
  ci_Horizon :: duration
  ci_Confidence :: ConfidenceLevel
  ci_Notional :: decimal

definition fundingCashFlow :: "Side \<Rightarrow> decimal \<Rightarrow> decimal \<Rightarrow> decimal option" where
  "fundingCashFlow side rate notional =
     map_option (\<lambda>sg. Dec_FromInt (- sg) * rate * notional) (Side_Sign side)"

fun degrade_loop :: "ConfidenceLevel \<Rightarrow> nat \<Rightarrow> ConfidenceLevel" where
  "degrade_loop c 0 = c"
| "degrade_loop c (Suc n) = (if c \<le> ConfidenceNone then c else degrade_loop (c - 1) n)"

definition degradeConfidence :: "ConfidenceLevel \<Rightarrow> nat \<Rightarrow> ConfidenceLevel" where
  "degradeConfidence base stepIndex = degrade_loop base stepIndex"

text \<open>
  The loop of \<open>BuildFundingCalendar\<close> from instant \<open>t\<close> and step \<open>i\<close>.  The caller has checked that
  the interval is positive; the first test keeps the recursion total.
\<close>

function calendar_loop :: "CalendarInput \<Rightarrow> time \<Rightarrow> time \<Rightarrow> nat \<Rightarrow> FundingEvent list option" where
  "calendar_loop inp horizonEnd t i =
     (if ci_FundingInterval inp \<le> 0 \<or> time_After t horizonEnd then Some []
      else do {
        cf \<leftarrow> fundingCashFlow (ci_Side inp) (ci_PredictedRate inp) (ci_Notional inp);
        rest \<leftarrow> calendar_loop inp horizonEnd (time_Add t (ci_FundingInterval inp)) (Suc i);
        Some (\<lparr>ev_Exchange = ci_Exchange inp, ev_Symbol = ci_Symbol inp, ev_LegSide = ci_Side inp,
               ev_ScheduledAt = t, ev_FundingRate = ci_PredictedRate inp,
               ev_RateType = FundingRatePredicted, ev_Notional = ci_Notional inp,
               ev_CashFlow = cf, ev_Confidence = degradeConfidence (ci_Confidence inp) i\<rparr> # rest) })"
  by pat_completeness auto
termination
  by (relation "measure (\<lambda>(inp, h, t, i). nat (h - t + 1))") (auto simp: time_After_def time_Add_def)

declare calendar_loop.simps [simp del]

definition BuildFundingCalendar :: "CalendarInput \<Rightarrow> time \<Rightarrow> FundingEvent list option" where
  "BuildFundingCalendar inp now =
     (if ci_Horizon inp \<le> 0 \<or> ci_FundingInterval inp \<le> 0 then Some []
      else if \<not> time_After (ci_NextFundingTime inp) now then Some []
      else calendar_loop inp (time_Add now (ci_Horizon inp)) (ci_NextFundingTime inp) 0)"

definition SumExpectedFundingCashFlow :: "FundingEvent list \<Rightarrow> decimal" where
  "SumExpectedFundingCashFlow events = foldl (\<lambda>s ev. s + ev_CashFlow ev) 0 events"

datatype IntervalClass =
  ClassSameIntervalAligned | ClassSameIntervalUnaligned | ClassDifferentInterval

definition ClassifyInterval ::
  "duration \<Rightarrow> duration \<Rightarrow> time \<Rightarrow> time \<Rightarrow> duration \<Rightarrow> IntervalClass" where
  "ClassifyInterval longInt shortInt longNext shortNext maxSkew =
     (if longInt \<noteq> shortInt then ClassDifferentInterval
      else if time_IsZero longNext \<or> time_IsZero shortNext then ClassSameIntervalUnaligned
      else let skew0 = time_Sub longNext shortNext;
               skew = (if skew0 < 0 then i64 (- skew0) else skew0)
           in if skew \<le> maxSkew then ClassSameIntervalAligned else ClassSameIntervalUnaligned)"

definition SortByScheduledAt :: "FundingEvent list \<Rightarrow> FundingEvent list" where
  "SortByScheduledAt events = stable_sort (\<lambda>a b. ev_ScheduledAt a < ev_ScheduledAt b) events"

interpretation sched: comparator "\<lambda>a b. ev_ScheduledAt a < ev_ScheduledAt b"
  by unfold_locales auto

section \<open>Expected net profit\<close>

record PnLInput =
  pi_ExpectedFundingPnL :: decimal
  pi_ExpectedBasisPnL :: decimal
  pi_EntryFees :: decimal
  pi_ExitFees :: decimal
  pi_EntrySlippage :: decimal
  pi_ExitSlippage :: decimal
  pi_FundingUncertaintyReserve :: decimal
  pi_BasisDivergenceReserve :: decimal
  pi_CounterpartyRiskReserve :: decimal
  pi_RebalanceCostReserve :: decimal
  pi_SafetyReserve :: decimal

record PnLComponent =
  pc_Name :: string
  pc_Value :: decimal

record PnLBreakdown =
  bd_Net :: decimal
  bd_Components :: "PnLComponent list"

definition ExpectedNetPnL :: "PnLInput \<Rightarrow> PnLBreakdown" where
  "ExpectedNetPnL inp =
     (let gross = pi_ExpectedFundingPnL inp + pi_ExpectedBasisPnL inp;
          deductions = Dec_Sum [pi_EntryFees inp, pi_ExitFees inp, pi_EntrySlippage inp,
            pi_ExitSlippage inp, pi_FundingUncertaintyReserve inp, pi_BasisDivergenceReserve inp,
            pi_CounterpartyRiskReserve inp, pi_RebalanceCostReserve inp, pi_SafetyReserve inp];
          net = gross - deductions;
          comps = [
            \<lparr>pc_Name = ''ExpectedFundingPnL'', pc_Value = pi_ExpectedFundingPnL inp\<rparr>,
            \<lparr>pc_Name = ''ExpectedBasisPnL'', pc_Value = pi_ExpectedBasisPnL inp\<rparr>,
            \<lparr>pc_Name = ''EntryFees'', pc_Value = - pi_EntryFees inp\<rparr>,
            \<lparr>pc_Name = ''ExitFees'', pc_Value = - pi_ExitFees inp\<rparr>,
            \<lparr>pc_Name = ''EntrySlippage'', pc_Value = - pi_EntrySlippage inp\<rparr>,
            \<lparr>pc_Name = ''ExitSlippage'', pc_Value = - pi_ExitSlippage inp\<rparr>,
            \<lparr>pc_Name = ''FundingUncertaintyReserve'', pc_Value = - pi_FundingUncertaintyReserve inp\<rparr>,
            \<lparr>pc_Name = ''BasisDivergenceReserve'', pc_Value = - pi_BasisDivergenceReserve inp\<rparr>,
            \<lparr>pc_Name = ''CounterpartyRiskReserve'', pc_Value = - pi_CounterpartyRiskReserve inp\<rparr>,
            \<lparr>pc_Name = ''RebalanceCostReserve'', pc_Value = - pi_RebalanceCostReserve inp\<rparr>,
            \<lparr>pc_Name = ''SafetyReserve'', pc_Value = - pi_SafetyReserve inp\<rparr>]
      in \<lparr>bd_Net = net,
          bd_Components = filter (\<lambda>c. pc_Value c \<noteq> 0 \<or> pc_Name c = ''ExpectedFundingPnL''
                                      \<or> pc_Name c = ''ExpectedBasisPnL'') comps\<rparr>)"

record EligibilityCheck =
  el_Eligible :: bool
  el_Reason :: string

definition CheckEligibility ::
  "decimal \<Rightarrow> decimal \<Rightarrow> ConfidenceLevel \<Rightarrow> ConfidenceLevel \<Rightarrow> int \<Rightarrow> int \<Rightarrow> EligibilityCheck" where
  "CheckEligibility netPnL minNet conf minConf secs minSecs =
     (if \<not> AtLeast conf minConf
      then \<lparr>el_Eligible = False, el_Reason = ''confidence below MinConfidenceLevel''\<rparr>
      else if secs < minSecs
      then \<lparr>el_Eligible = False, el_Reason = ''less than MinSecondsBeforeFundingToEnter''\<rparr>
      else if netPnL < minNet
      then \<lparr>el_Eligible = False, el_Reason = ''ExpectedNetPnL below MinExpectedNetPnLUSDT''\<rparr>
      else \<lparr>el_Eligible = True, el_Reason = []\<rparr>)"

section \<open>Scores\<close>

type_synonym Score = decimal

record CandidateScores =
  sc_Liquidity :: Score
  sc_FundingConfidence :: Score
  sc_BasisStability :: Score
  sc_ExecutionRisk :: Score
  sc_CounterpartyRisk :: Score
  sc_DataQuality :: Score
  sc_ADLRisk :: Score

record CompositeWeights =
  cw_Liquidity :: decimal
  cw_FundingConfidence :: decimal
  cw_BasisStability :: decimal
  cw_ExecutionRisk :: decimal
  cw_Counterparty :: decimal
  cw_DataQuality :: decimal
  cw_ADLRisk :: decimal

definition DefaultWeights :: CompositeWeights where
  "DefaultWeights = \<lparr>cw_Liquidity = 10 / 100, cw_FundingConfidence = 15 / 100,
     cw_BasisStability = 10 / 100, cw_ExecutionRisk = 15 / 100, cw_Counterparty = 20 / 100,
     cw_DataQuality = 15 / 100, cw_ADLRisk = 15 / 100\<rparr>"

definition Composite :: "CandidateScores \<Rightarrow> CompositeWeights \<Rightarrow> decimal" where
  "Composite s w =
     Dec_Zero + sc_Liquidity s * cw_Liquidity w
      + sc_FundingConfidence s * cw_FundingConfidence w
      + sc_BasisStability s * cw_BasisStability w
      + sc_ExecutionRisk s * cw_ExecutionRisk w
      + sc_CounterpartyRisk s * cw_Counterparty w
      + sc_DataQuality s * cw_DataQuality w
      + sc_ADLRisk s * cw_ADLRisk w"

definition ConfidenceToScore :: "ConfidenceLevel \<Rightarrow> Score" where
  "ConfidenceToScore c =
     (if c = ConfidenceHigh then 1 else if c = ConfidenceMedium then 66 / 100
      else if c = ConfidenceLow then 33 / 100 else Dec_Zero)"

fun TierToCounterpartyScore :: "CounterpartyRiskTier \<Rightarrow> Score" where
  "TierToCounterpartyScore TierA = 1"
| "TierToCounterpartyScore TierB = 6 / 10"
| "TierToCounterpartyScore TierC = 3 / 10"
| "TierToCounterpartyScore (TierOther t) = Dec_Zero"

definition ADLQueueToScore :: "decimal \<Rightarrow> Score" where
  "ADLQueueToScore queue =
     (if queue = 0 then Dec_One else if queue \<ge> Dec_One then Dec_Zero else Dec_One - queue)"

definition DepthRatioToLiquidityScore :: "sp_ops \<Rightarrow> decimal \<Rightarrow> Score option" where
  "DepthRatioToLiquidityScore D ratio =
     (if ratio < Dec_One then Some Dec_Zero
      else if ratio \<ge> 5 then Some Dec_One
      else Dec_Div D (ratio - Dec_One) 4)"

definition DataQualityFromFlags :: "bool \<Rightarrow> bool \<Rightarrow> Score" where
  "DataQualityFromFlags isFresh sequenceValid =
     (if \<not> isFresh \<or> \<not> sequenceValid then Dec_Zero else Dec_One)"

section \<open>The calendar in closed form\<close>

text \<open>Number of instants \<open>t, t + d, t + 2d, ...\<close> not after \<open>h\<close>.\<close>

definition event_count :: "time \<Rightarrow> time \<Rightarrow> duration \<Rightarrow> nat" where
  "event_count h t d = (if t > h then 0 else nat ((h - t) div d) + 1)"

lemma event_count_step:
  "0 < d \<Longrightarrow> t \<le> h \<Longrightarrow> event_count h t d = Suc (event_count h (t + d) d)"
proof -
  assume d: "0 < d" and t: "t \<le> h"
  have "(h - t) div d = (h - (t + d)) div d + 1"
    using d div_add_self2 [of d "h - t - d"] by (simp add: algebra_simps)
  moreover have "0 \<le> (h - (t + d)) div d" if "t + d \<le> h"
    using that d by (simp add: pos_imp_zdiv_nonneg_iff)
  moreover have "(h - t) div d = 0" if "\<not> t + d \<le> h"
    using that d t by (simp add: div_pos_pos_trivial)
  ultimately show ?thesis using d t by (auto simp: event_count_def)
qed

definition nth_event :: "CalendarInput \<Rightarrow> decimal \<Rightarrow> time \<Rightarrow> nat \<Rightarrow> nat \<Rightarrow> FundingEvent" where
  "nth_event inp cf t i k =
     \<lparr>ev_Exchange = ci_Exchange inp, ev_Symbol = ci_Symbol inp, ev_LegSide = ci_Side inp,
      ev_ScheduledAt = t + int k * ci_FundingInterval inp, ev_FundingRate = ci_PredictedRate inp,
      ev_RateType = FundingRatePredicted, ev_Notional = ci_Notional inp,
      ev_CashFlow = cf, ev_Confidence = degradeConfidence (ci_Confidence inp) (i + k)\<rparr>"

lemma calendar_loop_closed:
  assumes "0 < ci_FundingInterval inp"
    and "fundingCashFlow (ci_Side inp) (ci_PredictedRate inp) (ci_Notional inp) = Some cf"
  shows "calendar_loop inp h t i
       = Some (map (nth_event inp cf t i) [0..<event_count h t (ci_FundingInterval inp)])"
  using assms
proof (induction inp h t i rule: calendar_loop.induct)
  case (1 inp h t i)
  let ?d = "ci_FundingInterval inp"
  show ?case
  proof (cases "t > h")
    case True
    then show ?thesis
      by (subst calendar_loop.simps) (simp add: time_After_def event_count_def)
  next
    case False
    let ?n = "event_count h (t + ?d) ?d"
    have IH: "calendar_loop inp h (t + ?d) (Suc i) = Some (map (nth_event inp cf (t + ?d) (Suc i)) [0..<?n])"
      using "1.IH" [of cf] False "1.prems" by (simp add: time_After_def time_Add_def)
    have "map (nth_event inp cf t i) [0..<Suc ?n]
        = nth_event inp cf t i 0 # map (nth_event inp cf (t + ?d) (Suc i)) [0..<?n]"
      by (simp add: upt_conv_Cons map_Suc_upt [symmetric] nth_event_def algebra_simps comp_def
          del: upt_Suc)
    then show ?thesis
      using False "1.prems" IH
      by (subst calendar_loop.simps)
        (simp add: time_After_def time_Add_def event_count_step nth_event_def del: upt_Suc)
  qed
qed

lemma degradeConfidence_closed:
  "degradeConfidence c n = (if c \<le> 0 then c else max 0 (c - int n))"
  unfolding degradeConfidence_def by (induction c n rule: degrade_loop.induct) (auto simp: ConfidenceNone_def)

lemma Side_Sign_valid: "Side_IsValid sd \<Longrightarrow> \<exists>sg. Side_Sign sd = Some sg"
  by (auto simp: Side_IsValid_def)

lemma event_count_bounds:
  assumes "0 < d" and "k < event_count h t d"
  shows "t + int k * d \<le> h"
proof -
  have t: "t \<le> h" using assms by (auto simp: event_count_def split: if_splits)
  then have "0 \<le> (h - t) div d" using assms(1) by (simp add: pos_imp_zdiv_nonneg_iff)
  then have "int k \<le> (h - t) div d" using assms t by (simp add: event_count_def)
  then have "int k * d \<le> (h - t) div d * d" using assms(1) by (intro mult_right_mono) auto
  also have "\<dots> \<le> h - t"
    using assms(1) by (metis div_mult_mod_eq le_add_same_cancel1 pos_mod_sign)
  finally show ?thesis by simp
qed

lemma event_count_maximal:
  assumes "0 < d"
  shows "h < t + int (event_count h t d) * d"
proof (cases "t > h")
  case False
  then have "0 \<le> (h - t) div d" using assms by (simp add: pos_imp_zdiv_nonneg_iff)
  moreover have "h - t < ((h - t) div d + 1) * d"
    using assms div_mult_mod_eq [of "h - t" d] pos_mod_bound [OF assms, of "h - t"]
    by (unfold distrib_right) linarith
  moreover have "int (event_count h t d) = (h - t) div d + 1"
    using False calculation(1) by (simp add: event_count_def)
  ultimately show ?thesis by simp
qed (simp add: event_count_def)

text \<open>
  with a valid side, positive horizon and interval and a next funding time in
  the future, \<open>BuildFundingCalendar\<close> terminates with the events \<open>next, next + interval, ...\<close>, all
  of them after \<open>now\<close> and none after the horizon, none missing; each carries the signed payment of
  the leg, and the confidence drops one level per event and stops at none.
\<close>

theorem funding_calendar_events:
  assumes "Side_Sign (ci_Side inp) = Some sg"
    and "0 < ci_Horizon inp" and "0 < ci_FundingInterval inp" and "now < ci_NextFundingTime inp"
  shows "\<exists>evs. BuildFundingCalendar inp now = Some evs
     \<and> now + ci_Horizon inp
         < ci_NextFundingTime inp + int (length evs) * ci_FundingInterval inp
     \<and> (\<forall>k < length evs.
          ev_ScheduledAt (evs ! k) = ci_NextFundingTime inp + int k * ci_FundingInterval inp
        \<and> now < ev_ScheduledAt (evs ! k) \<and> ev_ScheduledAt (evs ! k) \<le> now + ci_Horizon inp
        \<and> ev_CashFlow (evs ! k) = - of_int sg * ci_PredictedRate inp * ci_Notional inp
        \<and> ev_Confidence (evs ! k)
            = (if ci_Confidence inp \<le> 0 then ci_Confidence inp else max 0 (ci_Confidence inp - int k)))"
proof -
  let ?d = "ci_FundingInterval inp" and ?t = "ci_NextFundingTime inp"
  let ?h = "now + ci_Horizon inp"
  let ?cf = "- of_int sg * ci_PredictedRate inp * ci_Notional inp"
  let ?evs = "map (nth_event inp ?cf ?t 0) [0..<event_count ?h ?t ?d]"
  have "fundingCashFlow (ci_Side inp) (ci_PredictedRate inp) (ci_Notional inp) = Some ?cf"
    using assms(1) by (simp add: fundingCashFlow_def)
  from calendar_loop_closed [OF assms(3) this]
  have "BuildFundingCalendar inp now = Some ?evs"
    using assms by (simp add: BuildFundingCalendar_def time_After_def time_Add_def)
  moreover have "?t \<le> ?t + int k * ?d" for k using assms(3) by simp
  ultimately show ?thesis
    using assms event_count_bounds [OF assms(3)] event_count_maximal [OF assms(3)]
    by (intro exI [of _ ?evs]) (auto simp: nth_event_def degradeConfidence_closed less_le_trans)
qed

theorem funding_calendar_events_witness:
  "\<exists>evs. BuildFundingCalendar
       \<lparr>ci_Exchange = ExchangeBybit, ci_Symbol = ''BTCUSDT'', ci_Side = SideShort,
        ci_PredictedRate = 1 / 10000, ci_FundingInterval = 8, ci_NextFundingTime = 5,
        ci_Horizon = 24, ci_Confidence = 3, ci_Notional = 1000\<rparr> 1 = Some evs"
  using funding_calendar_events [of "\<lparr>ci_Exchange = ExchangeBybit, ci_Symbol = ''BTCUSDT'',
        ci_Side = SideShort, ci_PredictedRate = 1 / 10000, ci_FundingInterval = 8,
        ci_NextFundingTime = 5, ci_Horizon = 24, ci_Confidence = 3, ci_Notional = 1000\<rparr>" "- 1" 1]
  by auto

lemma Sum_calendar:
  assumes "Side_Sign (ci_Side inp) = Some sg" and "BuildFundingCalendar inp now = Some evs"
  shows "SumExpectedFundingCashFlow evs
       = of_nat (length evs) * (- of_int sg * ci_PredictedRate inp * ci_Notional inp)"
proof -
  let ?cf = "- of_int sg * ci_PredictedRate inp * ci_Notional inp"
  have "fundingCashFlow (ci_Side inp) (ci_PredictedRate inp) (ci_Notional inp) = Some ?cf"
    using assms(1) by (simp add: fundingCashFlow_def)
  from calendar_loop_closed [OF _ this]
  have "\<forall>ev \<in> set evs. ev_CashFlow ev = ?cf"
    using assms(2) by (auto simp: BuildFundingCalendar_def nth_event_def split: if_splits)
  then have "(\<Sum>ev\<leftarrow>evs. ev_CashFlow ev) = of_nat (length evs) * ?cf"
    by (induction evs) (auto simp: algebra_simps)
  then show ?thesis
    unfolding SumExpectedFundingCashFlow_def by (simp add: foldl_add_sum_list)
qed

text \<open>
  For a hedged pair, both legs with one notional and the same funding times,
  the expected funding profit of the scanner is the number of events times the rate spread
  (short minus long) times the notional: the price of the asset does not enter, and the sign is
  that of the spread.
\<close>

theorem funding_pnl_is_rate_spread:
  assumes "ci_Side l = SideLong" and "ci_Side s = SideShort"
    and "ci_Notional s = ci_Notional l" and "ci_Horizon s = ci_Horizon l"
    and "ci_FundingInterval s = ci_FundingInterval l"
    and "ci_NextFundingTime s = ci_NextFundingTime l"
    and "BuildFundingCalendar l now = Some le" and "BuildFundingCalendar s now = Some se"
  shows "SumExpectedFundingCashFlow (le @ se)
       = of_nat (length le) * ((ci_PredictedRate s - ci_PredictedRate l) * ci_Notional l)"
proof -
  have fl: "fundingCashFlow (ci_Side l) (ci_PredictedRate l) (ci_Notional l)
      = Some (- (ci_PredictedRate l * ci_Notional l))"
    and fs: "fundingCashFlow (ci_Side s) (ci_PredictedRate s) (ci_Notional s)
      = Some (ci_PredictedRate s * ci_Notional s)"
    using assms(1,2) by (simp_all add: fundingCashFlow_def)
  have "length se = length le"
    using assms(3-8) calendar_loop_closed [OF _ fl] calendar_loop_closed [OF _ fs]
    by (auto simp: BuildFundingCalendar_def split: if_splits)
  moreover have "SumExpectedFundingCashFlow (le @ se)
      = SumExpectedFundingCashFlow le + SumExpectedFundingCashFlow se"
    unfolding SumExpectedFundingCashFlow_def by (simp add: foldl_add_sum_list)
  moreover have "SumExpectedFundingCashFlow le
      = of_nat (length le) * (- (ci_PredictedRate l * ci_Notional l))"
    using Sum_calendar [of l 1] assms(1,7) by simp
  moreover have "SumExpectedFundingCashFlow se
      = of_nat (length se) * (ci_PredictedRate s * ci_Notional s)"
    using Sum_calendar [of s "- 1"] assms(2,8) by simp
  ultimately show ?thesis using assms(3) by (simp add: algebra_simps)
qed

definition example_leg :: "Side \<Rightarrow> decimal \<Rightarrow> CalendarInput" where
  "example_leg sd rate = \<lparr>ci_Exchange = ExchangeBybit, ci_Symbol = ''BTCUSDT'', ci_Side = sd,
     ci_PredictedRate = rate, ci_FundingInterval = 8, ci_NextFundingTime = 5, ci_Horizon = 12,
     ci_Confidence = 3, ci_Notional = 1000\<rparr>"

theorem funding_pnl_is_rate_spread_witness:
  "\<exists>le se. BuildFundingCalendar (example_leg SideLong (1 / 1000)) 1 = Some le
     \<and> BuildFundingCalendar (example_leg SideShort (3 / 1000)) 1 = Some se
     \<and> SumExpectedFundingCashFlow (le @ se) = of_nat (length le) * 2"
proof -
  obtain le where le: "BuildFundingCalendar (example_leg SideLong (1 / 1000)) 1 = Some le"
    using calendar_loop_closed [of "example_leg SideLong (1 / 1000)"]
    by (auto simp: BuildFundingCalendar_def fundingCashFlow_def example_leg_def time_After_def)
  obtain se where se: "BuildFundingCalendar (example_leg SideShort (3 / 1000)) 1 = Some se"
    using calendar_loop_closed [of "example_leg SideShort (3 / 1000)"]
    by (auto simp: BuildFundingCalendar_def fundingCashFlow_def example_leg_def time_After_def)
  show ?thesis
    using funding_pnl_is_rate_spread [OF _ _ _ _ _ _ le se] le se by (simp add: example_leg_def)
qed

section \<open>Profit and scores\<close>

text \<open>
  The lines shown to the operator add up to the net figure the eligibility
  check uses: dropping the zero lines of the breakdown never drops money.
\<close>

theorem pnl_breakdown_adds_up:
  "(\<Sum>c\<leftarrow>bd_Components (ExpectedNetPnL inp). pc_Value c) = bd_Net (ExpectedNetPnL inp)"
  unfolding ExpectedNetPnL_def Let_def PnLBreakdown.simps
  by (subst sum_list_filter_zero) (auto simp: algebra_simps)

lemma CheckEligibility_iff:
  "el_Eligible (CheckEligibility net mn c mc s ms) \<longleftrightarrow> mc \<le> c \<and> ms \<le> s \<and> mn \<le> net"
  by (auto simp: CheckEligibility_def AtLeast_def)

definition in_unit :: "decimal \<Rightarrow> bool" where
  "in_unit x \<longleftrightarrow> 0 \<le> x \<and> x \<le> 1"

definition scores_ok :: "CandidateScores \<Rightarrow> bool" where
  "scores_ok s \<longleftrightarrow> in_unit (sc_Liquidity s) \<and> in_unit (sc_FundingConfidence s)
     \<and> in_unit (sc_BasisStability s) \<and> in_unit (sc_ExecutionRisk s)
     \<and> in_unit (sc_CounterpartyRisk s) \<and> in_unit (sc_DataQuality s) \<and> in_unit (sc_ADLRisk s)"

lemma score_builders_in_unit:
  "in_unit (ConfidenceToScore c)" "in_unit (DataQualityFromFlags b1 b2)" "0 \<le> q \<Longrightarrow> in_unit (ADLQueueToScore q)"
  by (auto simp: in_unit_def ConfidenceToScore_def DataQualityFromFlags_def ADLQueueToScore_def)

lemma TierToCounterpartyScore_in_unit: "in_unit (TierToCounterpartyScore t)"
  by (cases t) (auto simp: in_unit_def)

lemma DepthRatio_in_unit:
  assumes "shopspring D"
  shows "\<exists>v. DepthRatioToLiquidityScore D r = Some v \<and> in_unit v"
proof (cases "r < 1 \<or> r \<ge> 5")
  case True
  then show ?thesis by (auto simp: DepthRatioToLiquidityScore_def in_unit_def)
next
  case False
  have "sp_Div D DivisionPrecision (r - 1) 4 \<le> of_int (10 ^ 28) * ulp"
    using False by (intro shopspring.div_le_grid [OF assms]) (auto simp: ulp_def)
  moreover have "0 \<le> sp_Div D DivisionPrecision (r - 1) 4"
    using False by (intro shopspring.div_nonneg [OF assms]) auto
  ultimately show ?thesis
    using False by (simp add: DepthRatioToLiquidityScore_def Dec_Div_def in_unit_def ulp_def)
qed

lemma Composite_default_in_unit:
  assumes "scores_ok s"
  shows "in_unit (Composite s DefaultWeights)"
  using assms
  by (simp add: scores_ok_def in_unit_def Composite_def DefaultWeights_def)

end
