(* ===== verification/Risk.thy ===== *)
theory Risk
  imports Domain
begin

text \<open>
  Package \<open>internal/risk\<close> (\<open>engine.go\<close>): the checks of one position against the limits, the
  daily loss stop, the counterparty haircut and the ADL exposure limit.  The operator's message
  text of a violation is not modelled; its code, severity and exchange are.

  The two maps of a position that the code iterates are association lists in the order Go
  happens to enumerate them; \<open>check_position_order\<close> shows that this order does not matter.
\<close>

type_synonym exchange_map = "(ExchangeID \<times> decimal) list"

record Limits =
  lim_DeltaToleranceBase :: decimal
  lim_DeltaToleranceUSD :: decimal
  lim_MaxDailyLossUSDT :: decimal
  lim_MaxPositionLossUSDT :: decimal
  lim_MinimumDistanceToLiquidationPercent :: decimal
  lim_EmergencyMarginRatio :: decimal
  lim_MaxExposurePerExchangeUSDT :: "ExchangeID \<rightharpoonup> decimal"
  lim_ADLExposureLimitPercent :: "ExchangeID \<rightharpoonup> decimal"
  lim_CounterpartyHaircutFraction :: "CounterpartyRiskTier \<rightharpoonup> decimal"
  lim_RiskSnapAfterMaxDailyLoss :: bool

record PositionInput =
  pin_Asset :: AssetSymbol
  pin_LongExchange :: ExchangeID
  pin_ShortExchange :: ExchangeID
  pin_LongBaseQty :: decimal
  pin_ShortBaseQty :: decimal
  pin_MarkPrice :: decimal
  pin_UnrealizedPnL :: decimal
  pin_MarginRatioPerLeg :: exchange_map
  pin_LiquidationDistancePercent :: exchange_map

datatype Severity = SeverityNone | SeverityWarning | SeverityCritical

record Violation =
  vio_Severity :: Severity
  vio_Code :: string
  vio_Exchange :: ExchangeID

record CheckResult =
  cr_Violations :: "Violation list"
  cr_DeltaBase :: decimal
  cr_DeltaUSD :: decimal

fun any_severity :: "Severity \<Rightarrow> Violation list \<Rightarrow> bool" where
  "any_severity s [] = False"
| "any_severity s (v # vs) = (if vio_Severity v = s then True else any_severity s vs)"

definition HasCritical :: "CheckResult \<Rightarrow> bool" where
  "HasCritical r = any_severity SeverityCritical (cr_Violations r)"

definition HasWarning :: "CheckResult \<Rightarrow> bool" where
  "HasWarning r = any_severity SeverityWarning (cr_Violations r)"

definition sortedExchangeKeys :: "exchange_map \<Rightarrow> ExchangeID list" where
  "sortedExchangeKeys m = sort (map fst m)"

definition critical :: "string \<Rightarrow> ExchangeID \<Rightarrow> Violation" where
  "critical code ex = \<lparr>vio_Severity = SeverityCritical, vio_Code = code, vio_Exchange = ex\<rparr>"

text \<open>The loops over the sorted keys: one violation per breaching exchange.\<close>

fun margin_loop :: "decimal \<Rightarrow> exchange_map \<Rightarrow> ExchangeID list \<Rightarrow> Violation list" where
  "margin_loop emergency m [] = []"
| "margin_loop emergency m (ex # keys) =
     (let mr = get_or (map_of m) ex 0
      in (if mr \<ge> emergency then [critical ''EMERGENCY_MARGIN_RATIO'' ex] else [])
         @ margin_loop emergency m keys)"

fun distance_loop :: "decimal \<Rightarrow> exchange_map \<Rightarrow> ExchangeID list \<Rightarrow> Violation list" where
  "distance_loop minimum m [] = []"
| "distance_loop minimum m (ex # keys) =
     (let dist = get_or (map_of m) ex 0
      in (if dist < minimum then [critical ''LIQUIDATION_TOO_CLOSE'' ex] else [])
         @ distance_loop minimum m keys)"

definition CheckPosition :: "PositionInput \<Rightarrow> Limits \<Rightarrow> CheckResult" where
  "CheckPosition p limits =
     (let deltaBase = pin_LongBaseQty p - \<bar>pin_ShortBaseQty p\<bar>;
          deltaUSD = deltaBase * pin_MarkPrice p;
          v1 = (if \<bar>deltaBase\<bar> > lim_DeltaToleranceBase limits
                then [critical ''DELTA_BASE_BREACH'' []] else []);
          v2 = (if \<bar>deltaUSD\<bar> > lim_DeltaToleranceUSD limits
                then [critical ''DELTA_USD_BREACH'' []] else []);
          v3 = margin_loop (lim_EmergencyMarginRatio limits) (pin_MarginRatioPerLeg p)
                 (sortedExchangeKeys (pin_MarginRatioPerLeg p));
          v4 = distance_loop (lim_MinimumDistanceToLiquidationPercent limits)
                 (pin_LiquidationDistancePercent p)
                 (sortedExchangeKeys (pin_LiquidationDistancePercent p));
          v5 = (if lim_MaxPositionLossUSDT limits > 0
                   \<and> \<bar>pin_UnrealizedPnL p\<bar> > lim_MaxPositionLossUSDT limits
                then if pin_UnrealizedPnL p < 0 then [critical ''MAX_POSITION_LOSS'' []] else []
                else [])
      in \<lparr>cr_Violations = v1 @ v2 @ v3 @ v4 @ v5, cr_DeltaBase = deltaBase, cr_DeltaUSD = deltaUSD\<rparr>)"

record DailyLossStatus =
  dl_Date :: time
  dl_RealisedLossUSDT :: decimal
  dl_Snapped :: bool

definition CheckDailyLoss :: "decimal \<Rightarrow> Limits \<Rightarrow> time \<Rightarrow> DailyLossStatus \<times> Violation list" where
  "CheckDailyLoss realizedPnLToday limits date =
     (let loss = (if realizedPnLToday < 0 then \<bar>realizedPnLToday\<bar> else Dec_Zero);
          over = lim_MaxDailyLossUSDT limits > 0 \<and> loss > lim_MaxDailyLossUSDT limits
      in (\<lparr>dl_Date = date, dl_RealisedLossUSDT = loss,
           dl_Snapped = (over \<and> lim_RiskSnapAfterMaxDailyLoss limits)\<rparr>,
          if over then [critical ''MAX_DAILY_LOSS'' []] else []))"

text \<open>A nil map of haircuts reads as an empty one.\<close>

definition CounterpartyReserve ::
  "decimal \<Rightarrow> CounterpartyRiskTier \<Rightarrow> (CounterpartyRiskTier \<rightharpoonup> decimal) \<Rightarrow> decimal" where
  "CounterpartyReserve notional tier haircuts =
     (case haircuts tier of
        None \<Rightarrow> Dec_Zero
      | Some h \<Rightarrow> if \<not> h > 0 then Dec_Zero else notional * h)"

definition ADLExposureBreached :: "decimal \<Rightarrow> decimal \<Rightarrow> bool \<times> decimal" where
  "ADLExposureBreached currentExposure limitUSDT =
     (if \<not> limitUSDT > 0 then (False, Dec_Zero)
      else if currentExposure > limitUSDT then (True, currentExposure - limitUSDT)
      else (False, Dec_Zero))"

section \<open>The checks\<close>

lemma any_severity_iff [simp]: "any_severity s vs \<longleftrightarrow> (\<exists>v \<in> set vs. vio_Severity v = s)"
  by (induction vs) auto

lemma critical_severity [simp]: "vio_Severity (critical c ex) = SeverityCritical"
  by (simp add: critical_def)

lemma set_margin_loop:
  "set (margin_loop e m ks) = critical ''EMERGENCY_MARGIN_RATIO'' ` {ex \<in> set ks. e \<le> get_or (map_of m) ex 0}"
  by (induction ks) (auto simp: Let_def)

lemma set_distance_loop:
  "set (distance_loop mn m ks) = critical ''LIQUIDATION_TOO_CLOSE'' ` {ex \<in> set ks. get_or (map_of m) ex 0 < mn}"
  by (induction ks) (auto simp: Let_def)

lemma set_sortedExchangeKeys [simp]: "set (sortedExchangeKeys m) = fst ` set m"
  by (simp add: sortedExchangeKeys_def)

lemma sortedExchangeKeys_perm: "mset m = mset m' \<Longrightarrow> sortedExchangeKeys m = sortedExchangeKeys m'"
  unfolding sortedExchangeKeys_def by (intro properties_for_sort) (simp_all add: mset_map)

lemma get_or_map_of_entry:
  assumes "distinct (map fst m)"
  shows "(\<exists>ex \<in> fst ` set m. P (get_or (map_of m) ex 0)) \<longleftrightarrow> (\<exists>(ex, x) \<in> set m. P x)"
proof -
  have "get_or (map_of m) (fst e) 0 = snd e" if "e \<in> set m" for e
  proof -
    have "(fst e, snd e) \<in> set m" using that by simp
    with assms have "map_of m (fst e) = Some (snd e)" by (rule map_of_is_SomeI)
    then show ?thesis by (simp add: get_or_def)
  qed
  then have "(\<exists>e \<in> set m. P (get_or (map_of m) (fst e) 0)) \<longleftrightarrow> (\<exists>e \<in> set m. P (snd e))"
    by (intro bex_cong refl) simp
  then show ?thesis by (simp add: case_prod_beta)
qed

text \<open>
  the position check reports a critical violation exactly when one of the
  documented limits is broken: base or quote delta beyond its tolerance in either direction, a leg
  whose margin ratio has reached the emergency level, a leg closer to liquidation than allowed, or
  a loss (never a profit) beyond a positive loss limit.  It reports no warnings.
\<close>

theorem check_position_critical:
  assumes "distinct (map fst (pin_MarginRatioPerLeg p))"
    and "distinct (map fst (pin_LiquidationDistancePercent p))"
  shows "(HasCritical (CheckPosition p l) \<longleftrightarrow>
       lim_DeltaToleranceBase l < \<bar>pin_LongBaseQty p - \<bar>pin_ShortBaseQty p\<bar>\<bar>
     \<or> lim_DeltaToleranceUSD l < \<bar>(pin_LongBaseQty p - \<bar>pin_ShortBaseQty p\<bar>) * pin_MarkPrice p\<bar>
     \<or> (\<exists>(ex, mr) \<in> set (pin_MarginRatioPerLeg p). lim_EmergencyMarginRatio l \<le> mr)
     \<or> (\<exists>(ex, d) \<in> set (pin_LiquidationDistancePercent p). d < lim_MinimumDistanceToLiquidationPercent l)
     \<or> 0 < lim_MaxPositionLossUSDT l \<and> pin_UnrealizedPnL p < - lim_MaxPositionLossUSDT l)
     \<and> \<not> HasWarning (CheckPosition p l)"
proof -
  have m: "(\<exists>ex \<in> fst ` set (pin_MarginRatioPerLeg p).
              lim_EmergencyMarginRatio l \<le> get_or (map_of (pin_MarginRatioPerLeg p)) ex 0)
     \<longleftrightarrow> (\<exists>(ex, mr) \<in> set (pin_MarginRatioPerLeg p). lim_EmergencyMarginRatio l \<le> mr)"
    by (rule get_or_map_of_entry [OF assms(1)])
  have d: "(\<exists>ex \<in> fst ` set (pin_LiquidationDistancePercent p).
              get_or (map_of (pin_LiquidationDistancePercent p)) ex 0 < lim_MinimumDistanceToLiquidationPercent l)
     \<longleftrightarrow> (\<exists>(ex, d) \<in> set (pin_LiquidationDistancePercent p). d < lim_MinimumDistanceToLiquidationPercent l)"
    by (rule get_or_map_of_entry [OF assms(2)])
  have "HasCritical (CheckPosition p l) \<longleftrightarrow>
       lim_DeltaToleranceBase l < \<bar>pin_LongBaseQty p - \<bar>pin_ShortBaseQty p\<bar>\<bar>
     \<or> lim_DeltaToleranceUSD l < \<bar>(pin_LongBaseQty p - \<bar>pin_ShortBaseQty p\<bar>) * pin_MarkPrice p\<bar>
     \<or> (\<exists>ex \<in> fst ` set (pin_MarginRatioPerLeg p).
              lim_EmergencyMarginRatio l \<le> get_or (map_of (pin_MarginRatioPerLeg p)) ex 0)
     \<or> (\<exists>ex \<in> fst ` set (pin_LiquidationDistancePercent p).
              get_or (map_of (pin_LiquidationDistancePercent p)) ex 0 < lim_MinimumDistanceToLiquidationPercent l)
     \<or> 0 < lim_MaxPositionLossUSDT l \<and> pin_UnrealizedPnL p < - lim_MaxPositionLossUSDT l"
    by (simp add: HasCritical_def CheckPosition_def Let_def set_margin_loop set_distance_loop
        bex_Un image_iff) (auto simp: abs_if)
  moreover have "\<not> HasWarning (CheckPosition p l)"
    by (auto simp: HasWarning_def CheckPosition_def Let_def set_margin_loop set_distance_loop)
  ultimately show ?thesis unfolding m d by simp
qed

definition example_limits :: Limits where
  "example_limits = \<lparr>lim_DeltaToleranceBase = 1 / 100, lim_DeltaToleranceUSD = 50,
     lim_MaxDailyLossUSDT = 100, lim_MaxPositionLossUSDT = 200,
     lim_MinimumDistanceToLiquidationPercent = 10, lim_EmergencyMarginRatio = 8 / 10,
     lim_MaxExposurePerExchangeUSDT = Map.empty, lim_ADLExposureLimitPercent = Map.empty,
     lim_CounterpartyHaircutFraction = Map.empty, lim_RiskSnapAfterMaxDailyLoss = True\<rparr>"

definition example_position :: PositionInput where
  "example_position = \<lparr>pin_Asset = ''BTC'', pin_LongExchange = ExchangeBybit,
     pin_ShortExchange = ExchangeOKX, pin_LongBaseQty = 1, pin_ShortBaseQty = 1,
     pin_MarkPrice = 50000, pin_UnrealizedPnL = 0,
     pin_MarginRatioPerLeg = [(ExchangeBybit, 85 / 100), (ExchangeOKX, 1 / 2)],
     pin_LiquidationDistancePercent = [(ExchangeOKX, 20)]\<rparr>"

theorem check_position_critical_witness:
  "HasCritical (CheckPosition example_position example_limits)"
  using check_position_critical [of example_position example_limits]
  by (simp add: example_position_def example_limits_def exchange_defs)

text \<open>
  The result of the position check, order of the violations included, does
  not depend on the order in which Go enumerates the two maps of the position.
\<close>

theorem check_position_order:
  assumes "distinct (map fst (pin_MarginRatioPerLeg p))"
    and "distinct (map fst (pin_LiquidationDistancePercent p))"
    and "mset mr = mset (pin_MarginRatioPerLeg p)"
    and "mset ld = mset (pin_LiquidationDistancePercent p)"
  shows "CheckPosition (p\<lparr>pin_MarginRatioPerLeg := mr, pin_LiquidationDistancePercent := ld\<rparr>) l
       = CheckPosition p l"
proof -
  have loops: "margin_loop e m ks = margin_loop e m' ks" "distance_loop e m ks = distance_loop e m' ks"
    if "map_of m = map_of m'" for e m m' ks
    using that by (induction ks) simp_all
  have mo: "map_of (pin_MarginRatioPerLeg p) = map_of mr"
      "map_of (pin_LiquidationDistancePercent p) = map_of ld"
    using assms by (metis map_of_perm)+
  show ?thesis
    unfolding CheckPosition_def
    by (simp add: Let_def sortedExchangeKeys_perm [OF assms(3)] sortedExchangeKeys_perm [OF assms(4)]
        loops [OF mo(1)] loops [OF mo(2)])
qed

theorem check_position_order_witness:
  "CheckPosition (example_position\<lparr>pin_MarginRatioPerLeg := [(ExchangeOKX, 1 / 2), (ExchangeBybit, 85 / 100)],
      pin_LiquidationDistancePercent := [(ExchangeOKX, 20)]\<rparr>) example_limits
   = CheckPosition example_position example_limits"
  using check_position_order [of example_position "[(ExchangeOKX, 1 / 2), (ExchangeBybit, 85 / 100)]"
      "[(ExchangeOKX, 20)]" example_limits]
  by (simp add: example_position_def exchange_defs)

lemma CheckDailyLoss_iff:
  "dl_Snapped (fst (CheckDailyLoss pnl l d)) \<longleftrightarrow>
     0 < lim_MaxDailyLossUSDT l \<and> pnl < - lim_MaxDailyLossUSDT l \<and> lim_RiskSnapAfterMaxDailyLoss l"
  by (auto simp: CheckDailyLoss_def Let_def)

lemma CounterpartyReserve_bounds:
  assumes "0 \<le> n" and "\<forall>t h. hs t = Some h \<longrightarrow> h \<le> 1"
  shows "0 \<le> CounterpartyReserve n t hs \<and> CounterpartyReserve n t hs \<le> n"
  using assms mult_left_mono [of _ 1 n]
  by (fastforce simp: CounterpartyReserve_def split: option.splits)

end
