(* ===== verification/Registry.thy ===== *)
theory Registry
  imports Domain "HOL-Library.AList"
begin

text \<open>
  Package \<open>internal/instrument\<close> (\<open>registry.go\<close>): the in-memory registry of instruments.  Every
  operation runs under the registry's mutex, so each is one atomic function on the state.
  \<open>byKey\<close>, whose size is reported, is an association list with one entry per key; the other
  maps are functions.  The text of \<open>Stats.String\<close> is not modelled.
\<close>

type_synonym registryKey = "ExchangeID \<times> AssetSymbol"
type_synonym symbolKey = "ExchangeID \<times> ExchangeSymbol"

record Registry =
  rg_byKey :: "(registryKey \<times> CanonicalInstrument) list"
  rg_byExchangeSymbol :: "symbolKey \<rightharpoonup> CanonicalInstrument"
  rg_byExchange :: "ExchangeID \<rightharpoonup> CanonicalInstrument list"
  rg_byAsset :: "AssetSymbol \<rightharpoonup> CanonicalInstrument list"
  rg_canonicalAssets :: "AssetSymbol list"
  rg_lastRefresh :: time
  rg_duplicates :: nat

definition Registry_New :: Registry where
  "Registry_New = \<lparr>rg_byKey = [], rg_byExchangeSymbol = Map.empty, rg_byExchange = Map.empty,
     rg_byAsset = Map.empty, rg_canonicalAssets = [], rg_lastRefresh = zero_time, rg_duplicates = 0\<rparr>"

definition instr_key :: "CanonicalInstrument \<Rightarrow> registryKey" where
  "instr_key ins = (ins_Exchange ins, ins_BaseAsset ins)"

text \<open>The two early \<open>continue\<close>s of the loop of \<open>Replace\<close>.\<close>

definition accepted :: "CanonicalInstrument \<Rightarrow> bool" where
  "accepted ins \<longleftrightarrow> ins_Type ins = LinearUSDTPerpetual \<and> ExchangeID_IsValid (ins_Exchange ins)"

text \<open>One iteration of the loop: the registry and the local \<open>assetSet\<close>.\<close>

definition replace_step ::
  "CanonicalInstrument \<Rightarrow> Registry \<times> AssetSymbol list \<Rightarrow> Registry \<times> AssetSymbol list" where
  "replace_step ins st =
     (case st of (r, assetSet) \<Rightarrow>
        if ins_Type ins \<noteq> LinearUSDTPerpetual then (r, assetSet)
        else if \<not> ExchangeID_IsValid (ins_Exchange ins) then (r, assetSet)
        else let key = instr_key ins;
                 dups = (if map_of (rg_byKey r) key \<noteq> None then rg_duplicates r + 1 else rg_duplicates r)
             in (r\<lparr>rg_byKey := AList.update key ins (rg_byKey r),
                   rg_byExchangeSymbol := (rg_byExchangeSymbol r)((ins_Exchange ins, ins_Symbol ins) \<mapsto> ins),
                   rg_byExchange := (rg_byExchange r)(ins_Exchange ins \<mapsto>
                      get_or (rg_byExchange r) (ins_Exchange ins) [] @ [ins]),
                   rg_byAsset := (rg_byAsset r)(ins_BaseAsset ins \<mapsto>
                      get_or (rg_byAsset r) (ins_BaseAsset ins) [] @ [ins]),
                   rg_duplicates := dups\<rparr>,
                 List.insert (ins_BaseAsset ins) assetSet))"

definition Replace :: "Registry \<Rightarrow> CanonicalInstrument list \<Rightarrow> time \<Rightarrow> Registry" where
  "Replace r all now =
     (let r0 = r\<lparr>rg_byKey := [], rg_byExchangeSymbol := Map.empty, rg_byExchange := Map.empty,
                 rg_byAsset := Map.empty, rg_duplicates := 0\<rparr>
      in case fold replace_step all (r0, []) of (r1, assetSet) \<Rightarrow>
           r1\<lparr>rg_canonicalAssets := sort assetSet, rg_lastRefresh := now\<rparr>)"

definition Registry_Get :: "Registry \<Rightarrow> ExchangeID \<Rightarrow> AssetSymbol \<Rightarrow> CanonicalInstrument option" where
  "Registry_Get r ex a = map_of (rg_byKey r) (ex, a)"

definition LookupSymbol :: "Registry \<Rightarrow> ExchangeID \<Rightarrow> ExchangeSymbol \<Rightarrow> CanonicalInstrument option" where
  "LookupSymbol r ex symb = rg_byExchangeSymbol r (ex, symb)"

definition SymbolFor :: "Registry \<Rightarrow> ExchangeID \<Rightarrow> AssetSymbol \<Rightarrow> ExchangeSymbol option" where
  "SymbolFor r ex a = (case Registry_Get r ex a of None \<Rightarrow> None | Some ins \<Rightarrow> Some (ins_Symbol ins))"

definition AssetsByExchange :: "Registry \<Rightarrow> ExchangeID \<Rightarrow> CanonicalInstrument list" where
  "AssetsByExchange r ex = get_or (rg_byExchange r) ex []"

definition InstrumentsForAsset :: "Registry \<Rightarrow> AssetSymbol \<Rightarrow> CanonicalInstrument list" where
  "InstrumentsForAsset r a = get_or (rg_byAsset r) a []"

definition AllCanonicalAssets :: "Registry \<Rightarrow> AssetSymbol list" where
  "AllCanonicalAssets r = rg_canonicalAssets r"

definition LastRefresh :: "Registry \<Rightarrow> time" where
  "LastRefresh r = rg_lastRefresh r"

record RegStats =
  rs_TotalInstruments :: nat
  rs_ByExchange :: "ExchangeID \<rightharpoonup> nat"
  rs_ByAsset :: "AssetSymbol \<rightharpoonup> nat"
  rs_LastRefresh :: time
  rs_Duplicates :: nat

definition Registry_Stats :: "Registry \<Rightarrow> RegStats" where
  "Registry_Stats r =
     \<lparr>rs_TotalInstruments = length (rg_byKey r),
      rs_ByExchange = (\<lambda>ex. map_option length (rg_byExchange r ex)),
      rs_ByAsset = (\<lambda>a. map_option length (rg_byAsset r a)),
      rs_LastRefresh = rg_lastRefresh r,
      rs_Duplicates = rg_duplicates r\<rparr>"

section \<open>What a refresh leaves in the registry\<close>

text \<open>Last element of a list satisfying a predicate.\<close>

definition last_with :: "('a \<Rightarrow> bool) \<Rightarrow> 'a list \<Rightarrow> 'a option" where
  "last_with P xs = find P (rev xs)"

lemma last_with_snoc [simp]:
  "last_with P (xs @ [x]) = (if P x then Some x else last_with P xs)"
  by (simp add: last_with_def)

lemma last_with_Nil [simp]: "last_with P [] = None"
  by (simp add: last_with_def)

text \<open>The loop's invariant, over the instruments already processed.\<close>

definition replaced :: "CanonicalInstrument list \<Rightarrow> Registry \<times> AssetSymbol list \<Rightarrow> bool" where
  "replaced done st \<longleftrightarrow> (case st of (r, assets) \<Rightarrow>
     (\<forall>k. map_of (rg_byKey r) k = last_with (\<lambda>i. accepted i \<and> instr_key i = k) done)
     \<and> (\<forall>ex s. rg_byExchangeSymbol r (ex, s)
               = last_with (\<lambda>i. accepted i \<and> ins_Exchange i = ex \<and> ins_Symbol i = s) done)
     \<and> (\<forall>ex. get_or (rg_byExchange r) ex [] = filter (\<lambda>i. accepted i \<and> ins_Exchange i = ex) done)
     \<and> (\<forall>a. get_or (rg_byAsset r) a [] = filter (\<lambda>i. accepted i \<and> ins_BaseAsset i = a) done)
     \<and> length (rg_byKey r) + rg_duplicates r = length (filter accepted done)
     \<and> distinct assets \<and> set assets = ins_BaseAsset ` set (filter accepted done))"

lemma length_AList_update:
  "length (AList.update k v al) = (if map_of al k = None then Suc (length al) else length al)"
  by (induction al) auto

lemma replaced_step:
  assumes "replaced done st"
  shows "replaced (done @ [ins]) (replace_step ins st)"
proof (cases "accepted ins")
  case False
  then have "replace_step ins st = st"
    by (auto simp: replace_step_def accepted_def split: prod.splits)
  then show ?thesis using assms False by (simp add: replaced_def)
next
  case True
  then show ?thesis
    using assms
    by (auto simp: replaced_def replace_step_def accepted_def Let_def update_conv'
        length_AList_update instr_key_def split: prod.splits)
qed

lemma replaced_fold: "replaced done st \<Longrightarrow> replaced (done @ all) (fold replace_step all st)"
proof (induction all arbitrary: "done" st)
  case (Cons ins all)
  then show ?case using Cons.IH [OF replaced_step [OF Cons.prems]] by simp
qed simp

text \<open>A refresh is the loop from empty maps, with the asset list sorted at the end.\<close>

lemma Replace_loop:
  obtains r1 assets where "replaced all (r1, assets)"
    and "Replace r all now = r1\<lparr>rg_canonicalAssets := sort assets, rg_lastRefresh := now\<rparr>"
proof -
  let ?r0 = "r\<lparr>rg_byKey := [], rg_byExchangeSymbol := Map.empty, rg_byExchange := Map.empty,
               rg_byAsset := Map.empty, rg_duplicates := 0\<rparr>"
  have "replaced [] (?r0, [])"
    by (simp add: replaced_def get_or_def)
  from replaced_fold [OF this, of all]
  have "replaced all (fold replace_step all (?r0, []))" by simp
  moreover obtain r1 assets where f: "fold replace_step all (?r0, []) = (r1, assets)"
    by (metis surj_pair)
  ultimately show thesis
    using that [of r1 assets] by (simp add: Replace_def)
qed

text \<open>
  After a refresh the registry answers from the new snapshot alone, whatever
  it held before.  A lookup by exchange and asset, or by exchange and symbol, returns the last
  accepted instrument with that key; the per-exchange and per-asset lists hold every accepted
  instrument in snapshot order; the asset list is strictly ascending and holds exactly the assets of
  the accepted instruments; and the number of registered keys plus the reported duplicates is the
  number of accepted instruments.
\<close>

theorem registry_replace:
  "(\<forall>ex a. Registry_Get (Replace r all now) ex a
           = last_with (\<lambda>i. accepted i \<and> instr_key i = (ex, a)) all)
   \<and> (\<forall>ex s. LookupSymbol (Replace r all now) ex s
           = last_with (\<lambda>i. accepted i \<and> ins_Exchange i = ex \<and> ins_Symbol i = s) all)
   \<and> (\<forall>ex. AssetsByExchange (Replace r all now) ex = filter (\<lambda>i. accepted i \<and> ins_Exchange i = ex) all)
   \<and> (\<forall>a. InstrumentsForAsset (Replace r all now) a = filter (\<lambda>i. accepted i \<and> ins_BaseAsset i = a) all)
   \<and> sorted_wrt (<) (AllCanonicalAssets (Replace r all now))
   \<and> set (AllCanonicalAssets (Replace r all now)) = ins_BaseAsset ` set (filter accepted all)
   \<and> rs_TotalInstruments (Registry_Stats (Replace r all now))
      + rs_Duplicates (Registry_Stats (Replace r all now)) = length (filter accepted all)"
proof -
  obtain r1 assets where inv: "replaced all (r1, assets)"
    and rep: "Replace r all now = r1\<lparr>rg_canonicalAssets := sort assets, rg_lastRefresh := now\<rparr>"
    by (rule Replace_loop)
  have "sorted_wrt (<) (sort assets)"
    using inv by (simp add: replaced_def strict_sorted_iff)
  then show ?thesis
    using inv unfolding rep
    by (simp add: replaced_def Registry_Get_def LookupSymbol_def AssetsByExchange_def
        InstrumentsForAsset_def AllCanonicalAssets_def Registry_Stats_def)
qed

text \<open>Two instruments under one key: the lookup keeps the last, the per-asset list keeps both.\<close>

lemma registry_duplicates_kept:
  assumes "accepted i" and "accepted j" and "instr_key i = instr_key j"
  shows "InstrumentsForAsset (Replace r [i, j] now) (ins_BaseAsset j) = [i, j]"
    and "Registry_Get (Replace r [i, j] now) (ins_Exchange j) (ins_BaseAsset j) = Some j"
proof -
  obtain r1 assets where "replaced [i, j] (r1, assets)"
    and "Replace r [i, j] now = r1\<lparr>rg_canonicalAssets := sort assets, rg_lastRefresh := now\<rparr>"
    by (rule Replace_loop)
  then show "InstrumentsForAsset (Replace r [i, j] now) (ins_BaseAsset j) = [i, j]"
    and "Registry_Get (Replace r [i, j] now) (ins_Exchange j) (ins_BaseAsset j) = Some j"
    using assms
    by (auto simp: replaced_def Registry_Get_def InstrumentsForAsset_def instr_key_def last_with_def)
qed

end
