(* ===== verification/Cache.thy ===== *)
theory Cache
  imports Domain
begin

text \<open>
  Package \<open>internal/marketdata\<close> (\<open>cache.go\<close>): the coalescing cache of market snapshots.  The
  counters are atomic 64-bit integers (they wrap); the entry table is guarded by a mutex and an
  entry, once created, is never removed, so a key stands for the pointer to its entry.

  The sequential operations come first, then \<open>Update\<close> as the atomic steps concurrent goroutines
  interleave.
\<close>

type_synonym cacheKey = "ExchangeID \<times> AssetSymbol"

record snapshotEntry =
  ent_p :: "MarketSnapshot option"
  ent_replaced :: int

record Cache =
  ca_entries :: "cacheKey \<rightharpoonup> snapshotEntry"
  ca_tracked :: nat \<comment> \<open>\<open>len(entries)\<close>\<close>
  ca_totalUpdates :: int
  ca_totalReplaced :: int

definition Cache_New :: Cache where
  "Cache_New = \<lparr>ca_entries = Map.empty, ca_tracked = 0, ca_totalUpdates = 0, ca_totalReplaced = 0\<rparr>"

definition getOrCreateEntry :: "Cache \<Rightarrow> cacheKey \<Rightarrow> Cache" where
  "getOrCreateEntry c k =
     (case ca_entries c k of
        Some e \<Rightarrow> c
      | None \<Rightarrow> c\<lparr>ca_entries := (ca_entries c)(k \<mapsto> \<lparr>ent_p = None, ent_replaced = 0\<rparr>),
                  ca_tracked := ca_tracked c + 1\<rparr>)"

definition snap_key :: "MarketSnapshot \<Rightarrow> cacheKey" where
  "snap_key s = (snap_Exchange s, snap_BaseAsset s)"

text \<open>\<open>e.p.Swap(snap)\<close>: the new state and whether the old pointer was not nil.\<close>

definition swap_entry :: "Cache \<Rightarrow> MarketSnapshot \<Rightarrow> Cache \<times> bool" where
  "swap_entry c s =
     (case ca_entries c (snap_key s) of
        None \<Rightarrow> (c, False)
      | Some e \<Rightarrow> (c\<lparr>ca_entries := (ca_entries c)(snap_key s \<mapsto> e\<lparr>ent_p := Some s\<rparr>)\<rparr>,
                   ent_p e \<noteq> None))"

definition inc_replaced :: "Cache \<Rightarrow> cacheKey \<Rightarrow> Cache" where
  "inc_replaced c k =
     (case ca_entries c k of
        None \<Rightarrow> c
      | Some e \<Rightarrow> c\<lparr>ca_entries := (ca_entries c)(k \<mapsto> e\<lparr>ent_replaced := i64 (ent_replaced e + 1)\<rparr>)\<rparr>)"

definition inc_totalReplaced :: "Cache \<Rightarrow> Cache" where
  "inc_totalReplaced c = c\<lparr>ca_totalReplaced := i64 (ca_totalReplaced c + 1)\<rparr>"

definition inc_totalUpdates :: "Cache \<Rightarrow> Cache" where
  "inc_totalUpdates c = c\<lparr>ca_totalUpdates := i64 (ca_totalUpdates c + 1)\<rparr>"

definition Cache_Update :: "Cache \<Rightarrow> MarketSnapshot option \<Rightarrow> Cache" where
  "Cache_Update c snap =
     (case snap of
        None \<Rightarrow> c
      | Some s \<Rightarrow>
          (let c1 = getOrCreateEntry c (snap_key s);
               (c2, old) = swap_entry c1 s;
               c3 = (if old then inc_totalReplaced (inc_replaced c2 (snap_key s)) else c2)
           in inc_totalUpdates c3))"

definition Cache_Get :: "Cache \<Rightarrow> ExchangeID \<Rightarrow> AssetSymbol \<Rightarrow> MarketSnapshot option" where
  "Cache_Get c ex a = (case ca_entries c (ex, a) of None \<Rightarrow> None | Some e \<Rightarrow> ent_p e)"

definition Cache_IsFresh :: "Cache \<Rightarrow> ExchangeID \<Rightarrow> AssetSymbol \<Rightarrow> time \<Rightarrow> duration \<Rightarrow> bool" where
  "Cache_IsFresh c ex a now maxAge =
     (case Cache_Get c ex a of
        None \<Rightarrow> False
      | Some s \<Rightarrow> if \<not> snap_IsFresh s then False else time_Sub now (snap_LocalReceiveTime s) \<le> maxAge)"

definition StatsOf :: "Cache \<Rightarrow> ExchangeID \<Rightarrow> AssetSymbol \<Rightarrow> int option" where
  "StatsOf c ex a = (case ca_entries c (ex, a) of None \<Rightarrow> None | Some e \<Rightarrow> Some (ent_replaced e))"

record GlobalStats =
  gs_TotalUpdates :: int
  gs_TotalReplaced :: int
  gs_TotalDrops :: int
  gs_TrackedSymbols :: nat

definition Cache_Global :: "Cache \<Rightarrow> GlobalStats" where
  "Cache_Global c = \<lparr>gs_TotalUpdates = ca_totalUpdates c, gs_TotalReplaced = ca_totalReplaced c,
     gs_TotalDrops = ca_totalReplaced c, gs_TrackedSymbols = ca_tracked c\<rparr>"

section \<open>Concurrent updates\<close>

text \<open>
  A goroutine inside \<open>Update\<close>: about to look the entry up under the read lock, to create it under
  the write lock, to swap the pointer, to bump one of the three counters, or done.
\<close>

datatype upd_pc =
    PcLookup MarketSnapshot | PcCreate MarketSnapshot | PcSwap MarketSnapshot
  | PcReplaced cacheKey | PcTotalReplaced | PcTotalUpdates | PcDone

fun upd_step :: "Cache \<Rightarrow> upd_pc \<Rightarrow> Cache \<times> upd_pc" where
  "upd_step c (PcLookup s) = (c, if ca_entries c (snap_key s) \<noteq> None then PcSwap s else PcCreate s)"
| "upd_step c (PcCreate s) = (getOrCreateEntry c (snap_key s), PcSwap s)"
| "upd_step c (PcSwap s) =
     (case swap_entry c s of (c', old) \<Rightarrow> (c', if old then PcReplaced (snap_key s) else PcTotalUpdates))"
| "upd_step c (PcReplaced k) = (inc_replaced c k, PcTotalReplaced)"
| "upd_step c PcTotalReplaced = (inc_totalReplaced c, PcTotalUpdates)"
| "upd_step c PcTotalUpdates = (inc_totalUpdates c, PcDone)"
| "upd_step c PcDone = (c, PcDone)"

text \<open>Any goroutine may take the next step.\<close>

inductive cache_step :: "Cache \<times> upd_pc list \<Rightarrow> Cache \<times> upd_pc list \<Rightarrow> bool" where
  run: "i < length ts \<Longrightarrow> upd_step c (ts ! i) = (c', t') \<Longrightarrow> cache_step (c, ts) (c', ts[i := t'])"

inductive_cases cache_stepE: "cache_step (c, ts) st"

text \<open>A goroutine run alone performs the sequential \<open>Update\<close>.\<close>

fun run_alone :: "nat \<Rightarrow> Cache \<times> upd_pc \<Rightarrow> Cache \<times> upd_pc" where
  "run_alone 0 st = st"
| "run_alone (Suc n) st = run_alone n (upd_step (fst st) (snd st))"

lemma run_alone_Update: "run_alone 6 (c, PcLookup s) = (Cache_Update c (Some s), PcDone)"
  by (auto simp: numeral_eq_Suc Cache_Update_def Let_def getOrCreateEntry_def swap_entry_def
      inc_replaced_def split: option.splits prod.splits)

section \<open>The counters under every interleaving\<close>

fun swapped :: "upd_pc \<Rightarrow> bool" where
  "swapped (PcLookup s) = False" | "swapped (PcCreate s) = False" | "swapped (PcSwap s) = False"
| "swapped _ = True"

fun overwriting :: "upd_pc \<Rightarrow> bool" where
  "overwriting (PcReplaced k) = True" | "overwriting PcTotalReplaced = True" | "overwriting _ = False"

text \<open>Number of goroutines satisfying a predicate of index and program counter.\<close>

fun count_from :: "nat \<Rightarrow> (nat \<Rightarrow> upd_pc \<Rightarrow> bool) \<Rightarrow> upd_pc list \<Rightarrow> int" where
  "count_from n f [] = 0"
| "count_from n f (t # ts) = (if f n t then 1 else 0) + count_from (Suc n) f ts"

abbreviation "count_pcs \<equiv> count_from 0"

lemma count_from_update:
  "i < length ts \<Longrightarrow> count_from n f (ts[i := t])
     = count_from n f ts - (if f (n + i) (ts ! i) then 1 else 0) + (if f (n + i) t then 1 else 0)"
proof (induction ts arbitrary: n i)
  case (Cons u ts)
  then show ?case by (cases i) auto
qed simp

lemma count_pcs_update:
  "i < length ts \<Longrightarrow> count_pcs f (ts[i := t])
     = count_pcs f ts - (if f i (ts ! i) then 1 else 0) + (if f i t then 1 else 0)"
  using count_from_update [of i ts 0] by simp

lemma count_from_range: "0 \<le> count_from n f ts \<and> count_from n f ts \<le> int (length ts)"
proof (induction ts arbitrary: n)
  case (Cons t ts)
  show ?case using Cons.IH [of "Suc n"] by auto
qed simp

lemma count_from_pos: "i < length ts \<Longrightarrow> f (n + i) (ts ! i) \<Longrightarrow> 1 \<le> count_from n f ts"
proof (induction ts arbitrary: n i)
  case (Cons t ts)
  show ?case
  proof (cases i)
    case 0
    then show ?thesis using Cons.prems count_from_range [of "Suc n" f ts] by simp
  next
    case (Suc k)
    then show ?thesis using Cons.prems Cons.IH [of k "Suc n"] by simp
  qed
qed simp

lemma count_from_all:
  "(\<And>j. j < length ts \<Longrightarrow> f (n + j) (ts ! j)) \<Longrightarrow> count_from n f ts = int (length ts)"
proof (induction ts arbitrary: n)
  case (Cons t ts)
  have "f n t" using Cons.prems [of 0] by simp
  moreover have "count_from (Suc n) f ts = int (length ts)"
    using Cons.prems [of "Suc j" for j] by (intro Cons.IH) fastforce
  ultimately show ?case by simp
qed simp

lemma count_from_none:
  "(\<And>j. j < length ts \<Longrightarrow> \<not> f (n + j) (ts ! j)) \<Longrightarrow> count_from n f ts = 0"
proof (induction ts arbitrary: n)
  case (Cons t ts)
  have "\<not> f n t" using Cons.prems [of 0] by simp
  moreover have "count_from (Suc n) f ts = 0"
    using Cons.prems [of "Suc j" for j] by (intro Cons.IH) fastforce
  ultimately show ?case by simp
qed simp

lemma count_from_filter:
  "length ts = length ss \<Longrightarrow> (\<And>j. j < length ts \<Longrightarrow> ts ! j = PcDone) \<Longrightarrow>
     (\<And>j. j < length ts \<Longrightarrow> snaps ! (n + j) = ss ! j) \<Longrightarrow>
     count_from n (\<lambda>j t. swapped t \<and> P (snaps ! j)) ts = int (length (filter P ss))"
proof (induction ts ss arbitrary: n rule: list_induct2')
  case (4 t ts s ss)
  have "t = PcDone" "snaps ! n = s" using 4(3) [of 0] 4(4) [of 0] by simp_all
  moreover have "count_from (Suc n) (\<lambda>j t. swapped t \<and> P (snaps ! j)) ts = int (length (filter P ss))"
    using 4(2) 4(3) [of "Suc j" for j] 4(4) [of "Suc j" for j] by (intro "4.IH") fastforce+
  ultimately show ?case by simp
qed simp_all

definition filled :: "Cache \<Rightarrow> cacheKey set" where
  "filled c = {k. \<exists>e. ca_entries c k = Some e \<and> ent_p e \<noteq> None}"

text \<open>The program counter fits the snapshot the goroutine was started with.\<close>

fun pc_ok :: "Cache \<Rightarrow> MarketSnapshot \<Rightarrow> upd_pc \<Rightarrow> bool" where
  "pc_ok c s (PcLookup s') = (s' = s)"
| "pc_ok c s (PcCreate s') = (s' = s)"
| "pc_ok c s (PcSwap s') = (s' = s \<and> snap_key s \<in> dom (ca_entries c))"
| "pc_ok c s (PcReplaced k) = (k = snap_key s \<and> k \<in> filled c)"
| "pc_ok c s _ = (snap_key s \<in> filled c)"

definition inv_pcs :: "MarketSnapshot list \<Rightarrow> Cache \<Rightarrow> upd_pc list \<Rightarrow> bool" where
  "inv_pcs snaps c ts \<longleftrightarrow>
     length ts = length snaps \<and> (\<forall>i < length ts. pc_ok c (snaps ! i) (ts ! i))"

definition inv_table :: "MarketSnapshot list \<Rightarrow> Cache \<Rightarrow> bool" where
  "inv_table snaps c \<longleftrightarrow>
     finite (dom (ca_entries c)) \<and> ca_tracked c = card (dom (ca_entries c))
     \<and> (\<forall>k e s. ca_entries c k = Some e \<longrightarrow> ent_p e = Some s \<longrightarrow> s \<in> set snaps \<and> snap_key s = k)"

text \<open>An entry that is still empty has a goroutine about to fill it.\<close>

definition inv_empty :: "Cache \<Rightarrow> upd_pc list \<Rightarrow> bool" where
  "inv_empty c ts \<longleftrightarrow>
     (\<forall>k \<in> dom (ca_entries c) - filled c. \<exists>i < length ts. \<exists>s. ts ! i = PcSwap s \<and> snap_key s = k)"

definition repl :: "Cache \<Rightarrow> cacheKey \<Rightarrow> int" where
  "repl c k = (case ca_entries c k of None \<Rightarrow> 0 | Some e \<Rightarrow> ent_replaced e)"

definition inv_count :: "MarketSnapshot list \<Rightarrow> Cache \<Rightarrow> upd_pc list \<Rightarrow> bool" where
  "inv_count snaps c ts \<longleftrightarrow>
     ca_totalUpdates c = count_pcs (\<lambda>_ t. t = PcDone) ts
     \<and> 0 \<le> ca_totalReplaced c
     \<and> ca_totalReplaced c + count_pcs (\<lambda>_. overwriting) ts + int (card (filled c)) = count_pcs (\<lambda>_. swapped) ts
     \<and> (\<forall>k. 0 \<le> repl c k \<and>
          repl c k + count_pcs (\<lambda>_ t. t = PcReplaced k) ts + (if k \<in> filled c then 1 else 0)
          = count_pcs (\<lambda>j t. swapped t \<and> snap_key (snaps ! j) = k) ts)"

lemma inv_count_key:
  "inv_count snaps c ts \<Longrightarrow> 0 \<le> repl c k \<and>
     repl c k + count_pcs (\<lambda>_ t. t = PcReplaced k) ts + (if k \<in> filled c then 1 else 0)
     = count_pcs (\<lambda>j t. swapped t \<and> snap_key (snaps ! j) = k) ts"
  unfolding inv_count_def by blast

lemma filled_dom: "filled c \<subseteq> dom (ca_entries c)"
  by (auto simp: filled_def)

text \<open>What a step adds to the table only makes the other goroutines' conditions easier.\<close>

lemma pc_ok_mono:
  "pc_ok c s t \<Longrightarrow> dom (ca_entries c) \<subseteq> dom (ca_entries c') \<Longrightarrow> filled c \<subseteq> filled c' \<Longrightarrow> pc_ok c' s t"
  by (cases t) auto

lemma inv_pcs_step:
  assumes "inv_pcs snaps c ts" and "i < length ts" and "pc_ok c' (snaps ! i) t"
    and "dom (ca_entries c) \<subseteq> dom (ca_entries c')" and "filled c \<subseteq> filled c'"
  shows "inv_pcs snaps c' (ts[i := t])"
  using assms pc_ok_mono by (auto simp: inv_pcs_def nth_list_update)

lemma upd_step_dom:
  "upd_step c pc = (c', t) \<Longrightarrow> dom (ca_entries c) \<subseteq> dom (ca_entries c') \<and> filled c \<subseteq> filled c'"
  by (cases pc) (auto simp: getOrCreateEntry_def swap_entry_def inc_replaced_def inc_totalReplaced_def
      inc_totalUpdates_def filled_def split: option.splits if_splits)

lemma upd_step_pc_ok:
  "upd_step c pc = (c', t) \<Longrightarrow> pc_ok c s pc \<Longrightarrow> pc_ok c' s t"
  by (cases pc) (auto simp: getOrCreateEntry_def swap_entry_def inc_replaced_def inc_totalReplaced_def
      inc_totalUpdates_def filled_def split: option.splits if_splits)

lemma inv_pcs_upd:
  assumes "inv_pcs snaps c ts" and "i < length ts" and "upd_step c (ts ! i) = (c', t)"
  shows "inv_pcs snaps c' (ts[i := t])"
proof (rule inv_pcs_step [OF assms(1,2)])
  show "pc_ok c' (snaps ! i) t"
    using upd_step_pc_ok [OF assms(3)] assms(1,2) by (simp add: inv_pcs_def)
qed (use upd_step_dom [OF assms(3)] in auto)

lemma inv_table_upd:
  assumes "inv_table snaps c" and "pc_ok c s pc" and "s \<in> set snaps" and "upd_step c pc = (c', t)"
  shows "inv_table snaps c'"
  using assms
  by (cases pc) (auto simp: inv_table_def getOrCreateEntry_def swap_entry_def inc_replaced_def
      inc_totalReplaced_def inc_totalUpdates_def insert_absorb domIff
      simp del: split_paired_All split: option.splits if_splits)

lemma inv_empty_upd:
  assumes "inv_empty c ts" and "i < length ts" and "upd_step c (ts ! i) = (c', t)"
    and "pc_ok c s (ts ! i)"
  shows "inv_empty c' (ts[i := t])"
  unfolding inv_empty_def
proof
  fix k assume k: "k \<in> dom (ca_entries c') - filled c'"
  show "\<exists>j < length (ts[i := t]). \<exists>s. ts[i := t] ! j = PcSwap s \<and> snap_key s = k"
  proof (cases "k \<in> dom (ca_entries c)")
    case True
    then have "k \<in> dom (ca_entries c) - filled c" using k upd_step_dom [OF assms(3)] by auto
    then obtain j s' where j: "j < length ts" "ts ! j = PcSwap s'" "snap_key s' = k"
      using assms(1) unfolding inv_empty_def by blast
    have "j \<noteq> i"
      using j k assms(3,4) by (auto simp: swap_entry_def filled_def split: option.splits)
    then show ?thesis using j by (intro exI [of _ j]) simp
  next
    case False
    then obtain s' where "ts ! i = PcCreate s'" "snap_key s' = k"
      using k assms(3)
      by (cases "ts ! i") (auto simp: getOrCreateEntry_def swap_entry_def inc_replaced_def
          inc_totalReplaced_def inc_totalUpdates_def domIff split: option.splits if_splits)
    then show ?thesis using assms(2,3) by (intro exI [of _ i]) auto
  qed
qed

text \<open>The counters, step by step.\<close>

lemma in_i64_count: "0 \<le> x \<Longrightarrow> x < int n \<Longrightarrow> int n \<le> int64_max \<Longrightarrow> i64 (x + 1) = x + 1"
  by (rule i64_id) (simp add: in_i64_def int64_min_def)

text \<open>How one step changes what the counters are compared with.\<close>

lemma upd_step_filled:
  "upd_step c pc = (c', t) \<Longrightarrow> pc_ok c s pc \<Longrightarrow>
     filled c' = (case pc of PcSwap s' \<Rightarrow> insert (snap_key s') (filled c) | _ \<Rightarrow> filled c)"
  by (cases pc) (auto simp: getOrCreateEntry_def swap_entry_def inc_replaced_def inc_totalReplaced_def
      inc_totalUpdates_def filled_def simp del: split_paired_All split_paired_Ex
      split: option.splits if_splits)

lemma upd_step_repl:
  "upd_step c pc = (c', t) \<Longrightarrow> pc_ok c s pc \<Longrightarrow>
     repl c' = (case pc of PcReplaced k \<Rightarrow> (repl c)(k := i64 (repl c k + 1)) | _ \<Rightarrow> repl c)"
  by (cases pc) (auto simp: getOrCreateEntry_def swap_entry_def inc_replaced_def inc_totalReplaced_def
      inc_totalUpdates_def repl_def filled_def fun_eq_iff simp del: split_paired_All split_paired_Ex
      split: option.splits if_splits)

lemma upd_step_totals:
  "upd_step c pc = (c', t) \<Longrightarrow>
     ca_totalUpdates c' = (if pc = PcTotalUpdates then i64 (ca_totalUpdates c + 1) else ca_totalUpdates c)
   \<and> ca_totalReplaced c' = (if pc = PcTotalReplaced then i64 (ca_totalReplaced c + 1) else ca_totalReplaced c)"
  by (cases pc) (auto simp: getOrCreateEntry_def swap_entry_def inc_replaced_def inc_totalReplaced_def
      inc_totalUpdates_def split: option.splits if_splits)

lemma upd_step_pc:
  "upd_step c pc = (c', t) \<Longrightarrow> pc_ok c s pc \<Longrightarrow>
     swapped t = (case pc of PcLookup _ \<Rightarrow> False | PcCreate _ \<Rightarrow> False | _ \<Rightarrow> True)
   \<and> overwriting t = (case pc of PcSwap s' \<Rightarrow> snap_key s' \<in> filled c | PcReplaced _ \<Rightarrow> True | _ \<Rightarrow> False)
   \<and> (t = PcDone) = (pc = PcTotalUpdates \<or> pc = PcDone)
   \<and> (t = PcReplaced k) = (\<exists>s'. pc = PcSwap s' \<and> snap_key s' = k \<and> k \<in> filled c)"
  by (cases pc) (auto simp: swap_entry_def filled_def simp del: split_paired_All split_paired_Ex
      split: option.splits if_splits)

lemma inv_count_upd:
  assumes "inv_count snaps c ts" and "inv_pcs snaps c ts" and "finite (filled c)"
    and "i < length ts" and "upd_step c (ts ! i) = (c', t)" and "int (length ts) \<le> int64_max"
  shows "inv_count snaps c' (ts[i := t])"
proof -
  have ok: "pc_ok c (snaps ! i) (ts ! i)" using assms(2,4) by (simp add: inv_pcs_def)
  note ch = upd_step_filled [OF assms(5) ok] upd_step_repl [OF assms(5) ok]
    upd_step_totals [OF assms(5)] upd_step_pc [OF assms(5) ok]
  show ?thesis
  proof (cases "ts ! i")
    case (PcSwap s)
    have "0 \<le> repl c' k \<and>
        repl c' k + count_pcs (\<lambda>_ t. t = PcReplaced k) (ts[i := t]) + (if k \<in> filled c' then 1 else 0)
        = count_pcs (\<lambda>j t. swapped t \<and> snap_key (snaps ! j) = k) (ts[i := t])" for k
    proof -
      show ?thesis
        using inv_count_key [OF assms(1), of k] assms(4) ch(1,2,3) ch(4) [of k] ok PcSwap by (auto simp: count_pcs_update)
    qed
    then show ?thesis
      using assms(1,3,4) ch ok PcSwap
      by (auto simp: inv_count_def count_pcs_update card_insert_if simp del: split_paired_All)
  next
    case (PcReplaced k)
    have "0 \<le> repl c k"
      "repl c k + count_pcs (\<lambda>_ t. t = PcReplaced k) ts + 1
         = count_pcs (\<lambda>j t. swapped t \<and> snap_key (snaps ! j) = k) ts"
      using inv_count_key [OF assms(1), of k] ok PcReplaced by auto
    then have "i64 (repl c k + 1) = repl c k + 1"
      using assms(6) count_from_range [of 0 "\<lambda>j t. swapped t \<and> snap_key (snaps ! j) = k" ts]
        count_from_range [of 0 "\<lambda>_ t. t = PcReplaced k" ts]
      by (intro in_i64_count [of _ "length ts"]) auto
    then show ?thesis
      using assms(1,4) ch ok PcReplaced
      by (simp add: inv_count_def count_pcs_update del: split_paired_All)
  next
    case PcTotalReplaced
    have "1 \<le> count_pcs (\<lambda>_. overwriting) ts"
      using PcTotalReplaced assms(4) by (intro count_from_pos [of i]) simp_all
    then have "ca_totalReplaced c < int (length ts)"
      using assms(1) count_from_range [of 0 "\<lambda>_. swapped" ts] by (simp add: inv_count_def)
    then have "i64 (ca_totalReplaced c + 1) = ca_totalReplaced c + 1"
      using assms(1,6) by (intro in_i64_count [of _ "length ts"]) (auto simp: inv_count_def)
    then show ?thesis
      using assms(1,4) ch PcTotalReplaced
      by (simp add: inv_count_def count_pcs_update del: split_paired_All)
  next
    case PcTotalUpdates
    have "count_pcs (\<lambda>_ t. t = PcDone) (ts[i := PcDone]) \<le> int (length ts)"
      using count_from_range [of 0 "\<lambda>_ t. t = PcDone" "ts[i := PcDone]"] by simp
    then have "count_pcs (\<lambda>_ t. t = PcDone) ts < int (length ts)"
      using assms(4) PcTotalUpdates by (simp add: count_pcs_update)
    then have "i64 (ca_totalUpdates c + 1) = ca_totalUpdates c + 1"
      using assms(1,6) count_from_range [of 0 "\<lambda>_ t. t = PcDone" ts]
      by (intro in_i64_count [of _ "length ts"]) (auto simp: inv_count_def)
    then show ?thesis
      using assms(1,4) ch PcTotalUpdates
      by (simp add: inv_count_def count_pcs_update del: split_paired_All)
  qed (use assms(1,4) ch in \<open>simp_all add: inv_count_def count_pcs_update del: split_paired_All\<close>)
qed

text \<open>All invariants along an execution.\<close>

definition cache_inv :: "MarketSnapshot list \<Rightarrow> Cache \<times> upd_pc list \<Rightarrow> bool" where
  "cache_inv snaps st \<longleftrightarrow> (case st of (c, ts) \<Rightarrow>
     inv_pcs snaps c ts \<and> inv_table snaps c \<and> inv_empty c ts \<and> inv_count snaps c ts)"

lemma cache_inv_start: "cache_inv snaps (Cache_New, map PcLookup snaps)"
proof -
  have "filled Cache_New = {}" "repl Cache_New k = 0" "ca_totalUpdates Cache_New = 0"
    "ca_totalReplaced Cache_New = 0" for k
    by (simp_all add: filled_def repl_def Cache_New_def)
  moreover have "count_pcs f (map PcLookup snaps) = 0" if "\<And>j s. \<not> f j (PcLookup s)" for f
    using that by (intro count_from_none) auto
  ultimately have "inv_count snaps Cache_New (map PcLookup snaps)"
    unfolding inv_count_def by (simp del: split_paired_All)
  then show ?thesis
    by (simp add: cache_inv_def inv_pcs_def inv_table_def inv_empty_def Cache_New_def)
qed

lemma cache_inv_step:
  assumes "cache_step st st'" and "cache_inv snaps st" and "int (length snaps) \<le> int64_max"
  shows "cache_inv snaps st'"
  using assms(1)
proof cases
  case (run i ts c c' t')
  have inv: "inv_pcs snaps c ts" "inv_table snaps c" "inv_empty c ts" "inv_count snaps c ts"
    using assms(2) run by (simp_all add: cache_inv_def)
  have ok: "pc_ok c (snaps ! i) (ts ! i)" "snaps ! i \<in> set snaps" "length ts = length snaps"
    using inv(1) run by (simp_all add: inv_pcs_def)
  have fin: "finite (filled c)"
    using inv(2) filled_dom [of c] by (simp add: inv_table_def finite_subset)
  show ?thesis
    using inv_pcs_upd [OF inv(1) run(3,4)] inv_table_upd [OF inv(2) ok(1,2) run(4)]
      inv_empty_upd [OF inv(3) run(3,4) ok(1)] inv_count_upd [OF inv(4,1) fin run(3,4)]
      assms(3) ok(3) run(2)
    by (simp add: cache_inv_def)
qed

lemma cache_inv_reach:
  assumes "cache_step\<^sup>*\<^sup>* (Cache_New, map PcLookup snaps) st" and "int (length snaps) \<le> int64_max"
  shows "cache_inv snaps st"
  using assms by (induction rule: rtranclp_induct) (auto intro: cache_inv_start cache_inv_step)

text \<open>
  C7: any number of goroutines call \<open>Update\<close> at once on a new cache and
  their steps interleave in any order.  When all have returned, every key holds one of the
  snapshots written for it, the total of updates is the number of calls, the number of tracked
  symbols is the number of distinct keys, the total of overwrites is the difference of the two, and
  the overwrites of one key are the calls for it less one: no update is lost or counted twice.
\<close>

theorem cache_updates_interleaved:
  assumes "int (length snaps) \<le> int64_max"
    and "cache_step\<^sup>*\<^sup>* (Cache_New, map PcLookup snaps) (c, ts)" and "\<forall>t \<in> set ts. t = PcDone"
  shows "(\<forall>ex a. (ex, a) \<in> snap_key ` set snaps \<longrightarrow>
             (\<exists>s \<in> set snaps. snap_key s = (ex, a) \<and> Cache_Get c ex a = Some s)
           \<and> StatsOf c ex a = Some (int (length (filter (\<lambda>s. snap_key s = (ex, a)) snaps)) - 1))
     \<and> gs_TotalUpdates (Cache_Global c) = int (length snaps)
     \<and> gs_TrackedSymbols (Cache_Global c) = card (snap_key ` set snaps)
     \<and> gs_TotalReplaced (Cache_Global c) = int (length snaps) - int (card (snap_key ` set snaps))"
proof -
  have inv: "inv_pcs snaps c ts" "inv_table snaps c" "inv_empty c ts" "inv_count snaps c ts"
    using cache_inv_reach [OF assms(2,1)] by (simp_all add: cache_inv_def)
  have len: "length ts = length snaps" using inv(1) by (simp add: inv_pcs_def)
  have fin: "ts ! i = PcDone" if "i < length ts" for i using assms(3) that by simp
  have none: "count_pcs f ts = 0" if "\<And>j. \<not> f j PcDone" for f
    using fin that by (intro count_from_none) simp
  have dom: "dom (ca_entries c) = filled c"
    using inv(3) filled_dom [of c] fin unfolding inv_empty_def by fastforce
  have "snap_key s \<in> filled c" if "s \<in> set snaps" for s
    using inv(1) that fin by (force simp: inv_pcs_def in_set_conv_nth)
  moreover have "k \<in> snap_key ` set snaps" if "k \<in> filled c" for k
    using inv(2) that unfolding inv_table_def filled_def by fastforce
  ultimately have fk: "filled c = snap_key ` set snaps" by blast
  have tot: "ca_totalUpdates c = int (length snaps)"
      "ca_totalReplaced c + int (card (filled c)) = int (length snaps)"
  proof -
    have "ca_totalUpdates c = count_pcs (\<lambda>_ t. t = PcDone) ts"
      "ca_totalReplaced c + count_pcs (\<lambda>_. overwriting) ts + int (card (filled c)) = count_pcs (\<lambda>_. swapped) ts"
      using inv(4) unfolding inv_count_def by blast+
    then show "ca_totalUpdates c = int (length snaps)"
      "ca_totalReplaced c + int (card (filled c)) = int (length snaps)"
      using fin len count_from_all [of ts "\<lambda>_ t. t = PcDone" 0]
        count_from_all [of ts "\<lambda>_. swapped" 0] none [of "\<lambda>_. overwriting"] by simp_all
  qed
  have key: "repl c k = int (length (filter (\<lambda>s. snap_key s = k) snaps)) - 1" if "k \<in> filled c" for k
  proof -
    have "repl c k + 1 = count_pcs (\<lambda>j t. swapped t \<and> snap_key (snaps ! j) = k) ts"
      using inv_count_key [OF inv(4), of k] that none [of "\<lambda>_ t. t = PcReplaced k"] by simp
    also have "\<dots> = int (length (filter (\<lambda>s. snap_key s = k) snaps))"
      using count_from_filter [of ts snaps snaps 0 "\<lambda>s. snap_key s = k"] len fin by simp
    finally show ?thesis by simp
  qed
  have "(\<exists>s \<in> set snaps. snap_key s = (ex, a) \<and> Cache_Get c ex a = Some s)
      \<and> StatsOf c ex a = Some (repl c (ex, a))" if "(ex, a) \<in> filled c" for ex a
  proof -
    have "\<exists>e. ca_entries c (ex, a) = Some e \<and> ent_p e \<noteq> None"
      using that unfolding filled_def by blast
    then obtain e s where e: "ca_entries c (ex, a) = Some e" "ent_p e = Some s" by auto
    then have "s \<in> set snaps" "snap_key s = (ex, a)" using inv(2) unfolding inv_table_def by blast+
    then show ?thesis using e by (auto simp: Cache_Get_def StatsOf_def repl_def)
  qed
  then show ?thesis
    using tot key inv(2) dom unfolding fk [symmetric]
    by (simp add: Cache_Global_def inv_table_def)
qed

definition example_snap :: "ExchangeID \<Rightarrow> decimal \<Rightarrow> MarketSnapshot" where
  "example_snap ex px = \<lparr>snap_Exchange = ex, snap_BaseAsset = ''BTC'', snap_Symbol = ''BTCUSDT'',
     snap_BestBid = px, snap_BestAsk = px, snap_MarkPrice = px, snap_IndexPrice = px,
     snap_LastPrice = px, snap_QuoteVolume24h = 10 ^ 9, snap_OpenInterest = 0,
     snap_BidDepth = 10 ^ 6, snap_AskDepth = 10 ^ 6, snap_RealizedRate = 0,
     snap_PredictedRate = 1 / 1000, snap_RateCap = None, snap_RateFloor = None,
     snap_FundingIntervalSec = 28800, snap_NextFundingTime = 3600 * Second,
     snap_Confidence = 3, snap_ADL = None, snap_ExchangeTimestamp = 0, snap_LocalReceiveTime = 0,
     snap_SequenceValid = True, snap_IsFresh = True\<rparr>"

text \<open>Two goroutines, each looking the missing entry up before either creates it.\<close>

lemma cache_step_at:
  "i < length ts \<Longrightarrow> ts' = ts[i := snd (upd_step c (ts ! i))] \<Longrightarrow> c' = fst (upd_step c (ts ! i)) \<Longrightarrow>
     cache_step (c, ts) (c', ts')"
  using cache_step.run [of i ts c] by (metis prod.collapse)

fun run_schedule :: "nat list \<Rightarrow> Cache \<times> upd_pc list \<Rightarrow> Cache \<times> upd_pc list" where
  "run_schedule [] st = st"
| "run_schedule (i # is) (c, ts) =
     (if i < length ts then run_schedule is (fst (upd_step c (ts ! i)), ts[i := snd (upd_step c (ts ! i))])
      else run_schedule is (c, ts))"

lemma run_schedule_reach: "cache_step\<^sup>*\<^sup>* st (run_schedule is st)"
proof (induction "is" st rule: run_schedule.induct)
  case (2 i "is" c ts)
  then show ?case
    using cache_step_at [of i ts _ c] by (auto intro: converse_rtranclp_into_rtranclp)
qed simp

theorem cache_updates_interleaved_witness:
  "\<exists>c ts. cache_step\<^sup>*\<^sup>* (Cache_New, map PcLookup [example_snap ExchangeOKX 1, example_snap ExchangeOKX 2]) (c, ts)
     \<and> gs_TotalUpdates (Cache_Global c) = 2 \<and> gs_TotalReplaced (Cache_Global c) = 1"
proof -
  let ?snaps = "[example_snap ExchangeOKX 1, example_snap ExchangeOKX 2]"
  obtain c ts where r: "run_schedule [0, 1, 0, 1, 0, 1, 0, 1, 1, 1] (Cache_New, map PcLookup ?snaps) = (c, ts)"
    by (metis surj_pair)
  have reach: "cache_step\<^sup>*\<^sup>* (Cache_New, map PcLookup ?snaps) (c, ts)"
    using run_schedule_reach [of "(Cache_New, map PcLookup ?snaps)"] r by metis
  have "\<forall>t \<in> set ts. t = PcDone"
    using r by (auto simp: Cache_New_def swap_entry_def getOrCreateEntry_def inc_replaced_def
        inc_totalReplaced_def inc_totalUpdates_def snap_key_def example_snap_def)
  with cache_updates_interleaved [OF _ reach] show ?thesis
    using reach by (intro exI [of _ c] exI [of _ ts])
      (simp add: int64_max_def snap_key_def example_snap_def)
qed

end
