(* ===== verification/Scanner.thy ===== *)
theory Scanner
  imports Strategy Registry Cache
begin

text \<open>
  Package \<open>internal/scanner\<close> (\<open>scanner.go\<close>): the evaluation of every pair of venues of every
  asset and the ranking of the candidates.  The scanner reads the registry and the cache through
  their operations and changes neither.

  \<open>int64(d.Seconds())\<close> goes through \<open>float64\<close>, which is exact on whole seconds and keeps the
  fraction below one for durations under \<open>2^24\<close> seconds (194 days); the model is the truncated
  quotient.  A panic (division by a zero depth threshold, a slice bound out of range) is \<open>None\<close>.
\<close>

record Candidate =
  cd_Asset :: AssetSymbol
  cd_LongExchange :: ExchangeID
  cd_ShortExchange :: ExchangeID
  cd_LongSymbol :: ExchangeSymbol
  cd_ShortSymbol :: ExchangeSymbol
  cd_LongSnapshot :: MarketSnapshot
  cd_ShortSnapshot :: MarketSnapshot
  cd_LongFundingInterval :: duration
  cd_ShortFundingInterval :: duration
  cd_IntervalClass :: "IntervalClass option" \<comment> \<open>None: the empty string\<close>
  cd_EntryBasisVWAP :: decimal
  cd_LongEntryVWAP :: decimal
  cd_ShortEntryVWAP :: decimal
  cd_PnLBreakdown :: PnLBreakdown
  cd_Scores :: CandidateScores
  cd_CompositeScore :: decimal
  cd_Eligible :: bool
  cd_Reason :: string
  cd_EvaluatedAt :: time
  cd_SecondsToFunding :: int

record Config =
  cfg_AllowedExchanges :: "ExchangeID list"
  cfg_MinQuoteVolume24h :: decimal
  cfg_MinOrderBookDepthUSDT :: decimal
  cfg_MaxDataAgeMs :: int
  cfg_MinConfidenceLevel :: ConfidenceLevel
  cfg_MinSecondsBeforeFunding :: int
  cfg_MinExpectedNetPnL :: decimal
  cfg_TargetQty :: decimal
  cfg_FeeRateBps :: decimal
  cfg_Horizon :: duration

record Scanner =
  scn_registry :: Registry
  scn_cache :: Cache

definition zero_scores :: CandidateScores where
  "zero_scores = \<lparr>sc_Liquidity = 0, sc_FundingConfidence = 0, sc_BasisStability = 0,
     sc_ExecutionRisk = 0, sc_CounterpartyRisk = 0, sc_DataQuality = 0, sc_ADLRisk = 0\<rparr>"

definition minConfidence :: "ConfidenceLevel \<Rightarrow> ConfidenceLevel \<Rightarrow> ConfidenceLevel" where
  "minConfidence a b = (if a < b then a else b)"

definition minInt64 :: "int \<Rightarrow> int \<Rightarrow> int" where
  "minInt64 a b = (if a < b then a else b)"

definition maxDec :: "decimal \<Rightarrow> decimal \<Rightarrow> decimal" where
  "maxDec a b = (if a > b then a else b)"

text \<open>An empty list of exchanges allows all the supported ones.\<close>

definition allowedSet :: "ExchangeID list \<Rightarrow> ExchangeID \<Rightarrow> bool" where
  "allowedSet exchanges =
     (if exchanges = [] then (\<lambda>ex. ex \<in> set SupportedExchanges) else (\<lambda>ex. ex \<in> set exchanges))"

definition primaryFilters ::
  "Config \<Rightarrow> CanonicalInstrument \<Rightarrow> CanonicalInstrument \<Rightarrow> MarketSnapshot \<Rightarrow> MarketSnapshot \<Rightarrow> time \<Rightarrow> string" where
  "primaryFilters cfg longIns shortIns longSnap shortSnap now =
     (let maxAge = i64 (cfg_MaxDataAgeMs cfg * Millisecond) in
      if \<not> IsTradable (ins_Status longIns) then ''long instrument not tradable''
      else if \<not> IsTradable (ins_Status shortIns) then ''short instrument not tradable''
      else if time_Sub now (snap_LocalReceiveTime longSnap) > maxAge then ''long data stale''
      else if time_Sub now (snap_LocalReceiveTime shortSnap) > maxAge then ''short data stale''
      else if snap_QuoteVolume24h longSnap < cfg_MinQuoteVolume24h cfg then ''long 24h volume below threshold''
      else if snap_QuoteVolume24h shortSnap < cfg_MinQuoteVolume24h cfg then ''short 24h volume below threshold''
      else if snap_AskDepth longSnap < cfg_MinOrderBookDepthUSDT cfg then ''long depth below threshold''
      else if snap_BidDepth shortSnap < cfg_MinOrderBookDepthUSDT cfg then ''short depth below threshold''
      else [])"

definition adl_of :: "MarketSnapshot \<Rightarrow> decimal" where
  "adl_of s = (case snap_ADL s of None \<Rightarrow> Dec_Zero | Some q \<Rightarrow> maxDec (adl_LongQueue q) (adl_ShortQueue q))"

definition calculateScores ::
  "sp_ops \<Rightarrow> Config \<Rightarrow> MarketSnapshot \<Rightarrow> MarketSnapshot \<Rightarrow> CandidateScores option" where
  "calculateScores D cfg longSnap shortSnap =
     do { longRatio \<leftarrow> Dec_Div D (snap_AskDepth longSnap) (cfg_MinOrderBookDepthUSDT cfg);
          longDepth \<leftarrow> DepthRatioToLiquidityScore D longRatio;
          shortRatio \<leftarrow> Dec_Div D (snap_BidDepth shortSnap) (cfg_MinOrderBookDepthUSDT cfg);
          shortDepth \<leftarrow> DepthRatioToLiquidityScore D shortRatio;
          liq \<leftarrow> Dec_Div D (longDepth + shortDepth) (Dec_FromInt 2);
          let confScore = ConfidenceToScore (minConfidence (snap_Confidence longSnap) (snap_Confidence shortSnap));
          dq \<leftarrow> Dec_Div D (DataQualityFromFlags (snap_IsFresh longSnap) (snap_SequenceValid longSnap)
                            + DataQualityFromFlags (snap_IsFresh shortSnap) (snap_SequenceValid shortSnap))
                 (Dec_FromInt 2);
          let adlScore = ADLQueueToScore (maxDec (adl_of longSnap) (adl_of shortSnap));
          Some (zero_scores\<lparr>sc_Liquidity := liq, sc_FundingConfidence := confScore,
                             sc_DataQuality := dq, sc_ADLRisk := adlScore\<rparr>) }"

definition calendar_input ::
  "Config \<Rightarrow> CanonicalInstrument \<Rightarrow> MarketSnapshot \<Rightarrow> Side \<Rightarrow> duration \<Rightarrow> decimal \<Rightarrow> CalendarInput" where
  "calendar_input cfg ins snap side fint notional =
     \<lparr>ci_Exchange = ins_Exchange ins, ci_Symbol = ins_Symbol ins, ci_Side = side,
      ci_PredictedRate = snap_PredictedRate snap, ci_FundingInterval = fint,
      ci_NextFundingTime = snap_NextFundingTime snap, ci_Horizon = cfg_Horizon cfg,
      ci_Confidence = snap_Confidence snap, ci_Notional = notional\<rparr>"

definition new_candidate ::
  "CanonicalInstrument \<Rightarrow> CanonicalInstrument \<Rightarrow> MarketSnapshot \<Rightarrow> MarketSnapshot \<Rightarrow> time \<Rightarrow> Candidate" where
  "new_candidate longIns shortIns longSnap shortSnap now =
     \<lparr>cd_Asset = ins_BaseAsset longIns, cd_LongExchange = ins_Exchange longIns,
      cd_ShortExchange = ins_Exchange shortIns, cd_LongSymbol = ins_Symbol longIns,
      cd_ShortSymbol = ins_Symbol shortIns, cd_LongSnapshot = longSnap, cd_ShortSnapshot = shortSnap,
      cd_LongFundingInterval = 0, cd_ShortFundingInterval = 0, cd_IntervalClass = None,
      cd_EntryBasisVWAP = 0, cd_LongEntryVWAP = 0, cd_ShortEntryVWAP = 0,
      cd_PnLBreakdown = \<lparr>bd_Net = 0, bd_Components = []\<rparr>, cd_Scores = zero_scores,
      cd_CompositeScore = 0, cd_Eligible = False, cd_Reason = [], cd_EvaluatedAt = now,
      cd_SecondsToFunding = 0\<rparr>"

text \<open>
  Steps 3 to 11 of \<open>evaluatePair\<close>, after the filters: basis, calendar, expected profit, scores and
  eligibility.
\<close>

definition evaluate_filtered ::
  "sp_ops \<Rightarrow> Config \<Rightarrow> CanonicalInstrument \<Rightarrow> CanonicalInstrument \<Rightarrow> MarketSnapshot \<Rightarrow> MarketSnapshot
   \<Rightarrow> time \<Rightarrow> Candidate \<Rightarrow> Candidate option" where
  "evaluate_filtered D cfg longIns shortIns longSnap shortSnap now cand =
     do { q \<leftarrow> Dec_Div D (snap_BestBid shortSnap) (snap_BestAsk longSnap);
          let basis = q - Dec_One;
          let longInt = i64 (ins_FundingIntervalSec longIns * Second);
          let shortInt = i64 (ins_FundingIntervalSec shortIns * Second);
          let longSecs = go_quot (time_Sub (snap_NextFundingTime longSnap) now) Second;
          let shortSecs = go_quot (time_Sub (snap_NextFundingTime shortSnap) now) Second;
          let secs = minInt64 longSecs shortSecs;
          let notional = cfg_TargetQty cfg * snap_MarkPrice longSnap;
          longEvents \<leftarrow> BuildFundingCalendar (calendar_input cfg longIns longSnap SideLong longInt notional) now;
          shortEvents \<leftarrow> BuildFundingCalendar (calendar_input cfg shortIns shortSnap SideShort shortInt notional) now;
          let fundingPnL = SumExpectedFundingCashFlow (longEvents @ shortEvents);
          let basisPnL = basis * notional;
          fee \<leftarrow> Dec_Div D (notional * cfg_FeeRateBps cfg) (Dec_FromInt 10000);
          let feeCost = Dec_MulInt fee 2;
          entryFee \<leftarrow> Dec_Div D feeCost (Dec_FromInt 2);
          exitFee \<leftarrow> Dec_Div D feeCost (Dec_FromInt 2);
          let bd = ExpectedNetPnL \<lparr>pi_ExpectedFundingPnL = fundingPnL, pi_ExpectedBasisPnL = basisPnL,
                     pi_EntryFees = entryFee, pi_ExitFees = exitFee, pi_EntrySlippage = 0,
                     pi_ExitSlippage = 0, pi_FundingUncertaintyReserve = 0,
                     pi_BasisDivergenceReserve = 0, pi_CounterpartyRiskReserve = 0,
                     pi_RebalanceCostReserve = 0, pi_SafetyReserve = 0\<rparr>;
          scores \<leftarrow> calculateScores D cfg longSnap shortSnap;
          let check = CheckEligibility (bd_Net bd) (cfg_MinExpectedNetPnL cfg)
                        (minConfidence (snap_Confidence longSnap) (snap_Confidence shortSnap))
                        (cfg_MinConfidenceLevel cfg) secs (cfg_MinSecondsBeforeFunding cfg);
          Some (cand\<lparr>cd_LongEntryVWAP := snap_BestAsk longSnap, cd_ShortEntryVWAP := snap_BestBid shortSnap,
                 cd_EntryBasisVWAP := basis, cd_LongFundingInterval := longInt,
                 cd_ShortFundingInterval := shortInt,
                 cd_IntervalClass := Some (ClassifyInterval longInt shortInt
                   (snap_NextFundingTime longSnap) (snap_NextFundingTime shortSnap) (5 * Minute)),
                 cd_SecondsToFunding := secs, cd_PnLBreakdown := bd, cd_Scores := scores,
                 cd_CompositeScore := Composite scores DefaultWeights,
                 cd_Eligible := el_Eligible check, cd_Reason := el_Reason check\<rparr>) }"

text \<open>The inner option is the nil pointer of the code.\<close>

definition evaluatePair ::
  "sp_ops \<Rightarrow> Scanner \<Rightarrow> Config \<Rightarrow> CanonicalInstrument \<Rightarrow> CanonicalInstrument \<Rightarrow> time \<Rightarrow> Candidate option option" where
  "evaluatePair D s cfg longIns shortIns now =
     (case Cache_Get (scn_cache s) (ins_Exchange longIns) (ins_BaseAsset longIns) of
        None \<Rightarrow> Some None
      | Some longSnap \<Rightarrow>
          (case Cache_Get (scn_cache s) (ins_Exchange shortIns) (ins_BaseAsset shortIns) of
             None \<Rightarrow> Some None
           | Some shortSnap \<Rightarrow>
               (let cand = new_candidate longIns shortIns longSnap shortSnap now;
                    reason = primaryFilters cfg longIns shortIns longSnap shortSnap now
                in if reason \<noteq> [] then Some (Some (cand\<lparr>cd_Reason := reason\<rparr>))
                   else if snap_BestAsk longSnap = 0 \<or> snap_BestBid shortSnap = 0
                   then Some (Some (cand\<lparr>cd_Reason := ''missing BBO for basis''\<rparr>))
                   else if \<not> snap_MarkPrice longSnap > 0
                   then Some (Some (cand\<lparr>cd_Reason := ''missing mark price for notional''\<rparr>))
                   else map_option Some
                     (evaluate_filtered D cfg longIns shortIns longSnap shortSnap now cand))))"

text \<open>\<open>if cand != nil { candidates = append(candidates, *cand) }\<close>\<close>

fun append_cand :: "Candidate option \<Rightarrow> Candidate list \<Rightarrow> Candidate list" where
  "append_cand None cands = cands"
| "append_cand (Some c) cands = c # cands"

text \<open>The two inner loops of \<open>Scan\<close>, over the instruments of one asset with their indices.\<close>

fun scan_short ::
  "sp_ops \<Rightarrow> Scanner \<Rightarrow> Config \<Rightarrow> (ExchangeID \<Rightarrow> bool) \<Rightarrow> time \<Rightarrow> nat \<Rightarrow> CanonicalInstrument
   \<Rightarrow> (nat \<times> CanonicalInstrument) list \<Rightarrow> Candidate list option" where
  "scan_short D s cfg allowed now i longIns [] = Some []"
| "scan_short D s cfg allowed now i longIns ((j, shortIns) # rest) =
     (if i = j then scan_short D s cfg allowed now i longIns rest
      else if \<not> allowed (ins_Exchange shortIns) then scan_short D s cfg allowed now i longIns rest
      else if ins_Exchange longIns = ins_Exchange shortIns then scan_short D s cfg allowed now i longIns rest
      else do { cand \<leftarrow> evaluatePair D s cfg longIns shortIns now;
                cands \<leftarrow> scan_short D s cfg allowed now i longIns rest;
                Some (append_cand cand cands) })"

fun scan_long ::
  "sp_ops \<Rightarrow> Scanner \<Rightarrow> Config \<Rightarrow> (ExchangeID \<Rightarrow> bool) \<Rightarrow> time \<Rightarrow> (nat \<times> CanonicalInstrument) list
   \<Rightarrow> (nat \<times> CanonicalInstrument) list \<Rightarrow> Candidate list option" where
  "scan_long D s cfg allowed now all [] = Some []"
| "scan_long D s cfg allowed now all ((i, longIns) # rest) =
     (if \<not> allowed (ins_Exchange longIns) then scan_long D s cfg allowed now all rest
      else do { cs \<leftarrow> scan_short D s cfg allowed now i longIns all;
                cs' \<leftarrow> scan_long D s cfg allowed now all rest;
                Some (cs @ cs') })"

fun scan_assets ::
  "sp_ops \<Rightarrow> Scanner \<Rightarrow> Config \<Rightarrow> (ExchangeID \<Rightarrow> bool) \<Rightarrow> time \<Rightarrow> AssetSymbol list \<Rightarrow> Candidate list option" where
  "scan_assets D s cfg allowed now [] = Some []"
| "scan_assets D s cfg allowed now (asset # assets) =
     do { let instruments = List.enumerate 0 (InstrumentsForAsset (scn_registry s) asset);
          cs \<leftarrow> scan_long D s cfg allowed now instruments instruments;
          cs' \<leftarrow> scan_assets D s cfg allowed now assets;
          Some (cs @ cs') }"

definition ranks_before :: "Candidate \<Rightarrow> Candidate \<Rightarrow> bool" where
  "ranks_before a b =
     (if cd_Eligible a \<noteq> cd_Eligible b then cd_Eligible a
      else bd_Net (cd_PnLBreakdown a) > bd_Net (cd_PnLBreakdown b))"

definition Scan :: "sp_ops \<Rightarrow> Scanner \<Rightarrow> Config \<Rightarrow> time \<Rightarrow> Candidate list option" where
  "Scan D s cfg now =
     map_option (stable_sort ranks_before)
       (scan_assets D s cfg (allowedSet (cfg_AllowedExchanges cfg)) now (AllCanonicalAssets (scn_registry s)))"

definition EligibleCount :: "Candidate list \<Rightarrow> nat" where
  "EligibleCount candidates = length (filter cd_Eligible candidates)"

text \<open>Slicing to a negative bound panics.\<close>

definition Top :: "Candidate list \<Rightarrow> int \<Rightarrow> Candidate list option" where
  "Top candidates n =
     (let eligible = stable_sort (\<lambda>a b. cd_CompositeScore a > cd_CompositeScore b)
                       (filter cd_Eligible candidates)
      in if int (length eligible) > n
         then if n < 0 then None else Some (take (nat n) eligible)
         else Some eligible)"


interpretation by_score: comparator "\<lambda>a b. cd_CompositeScore a > cd_CompositeScore b"
  by unfold_locales auto

section \<open>Which pairs a scan evaluates\<close>

text \<open>The ordered pairs of instruments of one asset on two different allowed exchanges.\<close>

definition pairs_of ::
  "(ExchangeID \<Rightarrow> bool) \<Rightarrow> CanonicalInstrument list \<Rightarrow> (CanonicalInstrument \<times> CanonicalInstrument) list" where
  "pairs_of allowed ins =
     filter (\<lambda>(l, sh). allowed (ins_Exchange l) \<and> allowed (ins_Exchange sh) \<and> ins_Exchange l \<noteq> ins_Exchange sh)
       (List.product ins ins)"

definition all_pairs :: "Scanner \<Rightarrow> Config \<Rightarrow> (CanonicalInstrument \<times> CanonicalInstrument) list" where
  "all_pairs s cfg =
     concat (map (\<lambda>a. pairs_of (allowedSet (cfg_AllowedExchanges cfg)) (InstrumentsForAsset (scn_registry s) a))
       (AllCanonicalAssets (scn_registry s)))"

text \<open>Evaluation in sequence, a panic stopping it.\<close>

fun evaluate_all ::
  "sp_ops \<Rightarrow> Scanner \<Rightarrow> Config \<Rightarrow> time \<Rightarrow> (CanonicalInstrument \<times> CanonicalInstrument) list \<Rightarrow> Candidate list option" where
  "evaluate_all D s cfg now [] = Some []"
| "evaluate_all D s cfg now ((l, sh) # ps) =
     do { cand \<leftarrow> evaluatePair D s cfg l sh now;
          cands \<leftarrow> evaluate_all D s cfg now ps;
          Some (append_cand cand cands) }"

lemma append_cand_append [simp]: "append_cand r xs @ ys = append_cand r (xs @ ys)"
  by (cases r) auto

lemma evaluate_all_append:
  "evaluate_all D s cfg now (ps @ qs)
   = do { cs \<leftarrow> evaluate_all D s cfg now ps; cs' \<leftarrow> evaluate_all D s cfg now qs; Some (cs @ cs') }"
proof (induction ps)
  case Nil
  then show ?case by (cases "evaluate_all D s cfg now qs") auto
next
  case (Cons p ps)
  obtain l sh where p: "p = (l, sh)" by (cases p)
  show ?case
    unfolding p append_Cons evaluate_all.simps Cons.IH by simp
qed

lemma scan_short_pairs:
  "\<forall>x \<in> set xs. fst x = i \<longrightarrow> ins_Exchange (snd x) = ins_Exchange l \<Longrightarrow>
     scan_short D s cfg allowed now i l xs
     = evaluate_all D s cfg now (map (Pair l) (filter (\<lambda>sh. allowed (ins_Exchange sh)
           \<and> ins_Exchange l \<noteq> ins_Exchange sh) (map snd xs)))"
proof (induction xs)
  case (Cons x xs)
  obtain j sh where x: "x = (j, sh)" by (cases x)
  have IH: "scan_short D s cfg allowed now i l xs
     = evaluate_all D s cfg now (map (Pair l) (filter (\<lambda>sh. allowed (ins_Exchange sh)
           \<and> ins_Exchange l \<noteq> ins_Exchange sh) (map snd xs)))" by (rule Cons.IH) (use Cons.prems in simp)
  have 1: "j = i \<longrightarrow> ins_Exchange sh = ins_Exchange l" using Cons.prems unfolding x by simp
  show ?case 
  proof (cases "allowed (ins_Exchange sh) \<and> ins_Exchange l \<noteq> ins_Exchange sh")
    case True
    then have "i \<noteq> j" using 1 by metis
    then show ?thesis using True by (simp add: x IH)
  next
    case False
    then have "scan_short D s cfg allowed now i l (x # xs) = scan_short D s cfg allowed now i l xs"
      by (auto simp only: x scan_short.simps split: if_split)
    then show ?thesis using False IH by (simp only: x list.map snd_conv filter.simps if_False)
  qed
qed simp
definition same_index :: "(nat \<times> 'a) list \<Rightarrow> (nat \<times> 'a) list \<Rightarrow> bool" where
  "same_index xs ys \<longleftrightarrow> (\<forall>x \<in> set xs. \<forall>y \<in> set ys. fst y = fst x \<longrightarrow> snd y = snd x)"

lemma scan_long_pairs:
  "same_index xs all \<Longrightarrow> scan_long D s cfg allowed now all xs
     = evaluate_all D s cfg now (filter (\<lambda>(l, sh). allowed (ins_Exchange l) \<and> allowed (ins_Exchange sh)
           \<and> ins_Exchange l \<noteq> ins_Exchange sh) (List.product (map snd xs) (map snd all)))"
proof (induction xs)
  case (Cons x xs)
  obtain i l where x: "x = (i, l)" by (cases x)
  have sh: "scan_short D s cfg allowed now i l all
       = evaluate_all D s cfg now (map (Pair l) (filter (\<lambda>sh. allowed (ins_Exchange sh)
           \<and> ins_Exchange l \<noteq> ins_Exchange sh) (map snd all)))"
    using Cons.prems by (intro scan_short_pairs) (simp add: x same_index_def)
  have "same_index xs all" using Cons.prems by (simp add: same_index_def)
  from Cons.IH [OF this] show ?case
    by (simp add: x sh evaluate_all_append filter_map comp_def)
qed simp

lemma scan_assets_pairs:
  "scan_assets D s cfg allowed now assets
   = evaluate_all D s cfg now
       (concat (map (\<lambda>a. pairs_of allowed (InstrumentsForAsset (scn_registry s) a)) assets))"
proof (induction assets)
  case (Cons a assets)
  let ?ins = "List.enumerate 0 (InstrumentsForAsset (scn_registry s) a)"
  have "scan_long D s cfg allowed now ?ins ?ins
      = evaluate_all D s cfg now (pairs_of allowed (InstrumentsForAsset (scn_registry s) a))"
    unfolding pairs_of_def
    by (subst scan_long_pairs) (auto simp: in_set_enumerate_eq same_index_def)
  then show ?case using Cons by (simp add: evaluate_all_append)
qed simp





definition example_instrument :: "ExchangeID \<Rightarrow> CanonicalInstrument" where
  "example_instrument ex = \<lparr>ins_Exchange = ex, ins_BaseAsset = ''BTC'', ins_Symbol = ''BTCUSDT'',
     ins_Type = LinearUSDTPerpetual, ins_Settlement = ''USDT'', ins_Multiplier = 1,
     ins_QtyStep = 1 / 1000, ins_MinQty = 1 / 1000, ins_MinNotional = 5, ins_TickSize = 1 / 10,
     ins_MaxLeverage = 20, ins_MaxMarketOrderQty = 100, ins_PositionLimit = 1000,
     ins_FundingIntervalSec = 28800, ins_FundingPriceType = FundingPriceMark, ins_SupportsADL = True,
     ins_Status = InstrActive\<rparr>"

definition example_config :: Config where
  "example_config = \<lparr>cfg_AllowedExchanges = [], cfg_MinQuoteVolume24h = 10 ^ 6,
     cfg_MinOrderBookDepthUSDT = 50000, cfg_MaxDataAgeMs = 5000, cfg_MinConfidenceLevel = 2,
     cfg_MinSecondsBeforeFunding = 60, cfg_MinExpectedNetPnL = - 10, cfg_TargetQty = 1,
     cfg_FeeRateBps = 5, cfg_Horizon = 86400 * Second\<rparr>"

definition example_scanner :: Scanner where
  "example_scanner = \<lparr>
     scn_registry = Replace Registry_New [example_instrument ExchangeOKX, example_instrument ExchangeBybit] 0,
     scn_cache = Cache_Update (Cache_Update Cache_New (Some (example_snap ExchangeOKX 100)))
                   (Some (example_snap ExchangeBybit 100))\<rparr>"


section \<open>What an eligible candidate has passed\<close>

lemma evaluate_all_sound:
  "evaluate_all D s cfg now ps = Some cs \<Longrightarrow> c \<in> set cs \<Longrightarrow>
     \<exists>(l, sh) \<in> set ps. evaluatePair D s cfg l sh now = Some (Some c)"
proof (induction ps arbitrary: cs)
  case (Cons p ps)
  obtain l sh where p: "p = (l, sh)" by (cases p)
  obtain r cs' where r: "evaluatePair D s cfg l sh now = Some r" "evaluate_all D s cfg now ps = Some cs'"
      "cs = append_cand r cs'"
    using Cons.prems(1) by (auto simp: p bind_eq_Some_conv)
  then show ?case
    using Cons.IH [OF r(2)] Cons.prems(2) by (cases r) (auto simp: p)
qed simp

lemma evaluate_filtered_eligible:
  assumes "evaluate_filtered D cfg l sh ls ss now cand = Some c"
  shows "(cd_Eligible c \<longrightarrow> cfg_MinExpectedNetPnL cfg \<le> bd_Net (cd_PnLBreakdown c)
       \<and> cfg_MinConfidenceLevel cfg \<le> snap_Confidence ls
       \<and> cfg_MinConfidenceLevel cfg \<le> snap_Confidence ss
       \<and> cfg_MinSecondsBeforeFunding cfg \<le> go_quot (time_Sub (snap_NextFundingTime ls) now) Second
       \<and> cfg_MinSecondsBeforeFunding cfg \<le> go_quot (time_Sub (snap_NextFundingTime ss) now) Second)
     \<and> cd_LongExchange c = cd_LongExchange cand \<and> cd_ShortExchange c = cd_ShortExchange cand
     \<and> cd_Asset c = cd_Asset cand
     \<and> cd_LongSnapshot c = cd_LongSnapshot cand \<and> cd_ShortSnapshot c = cd_ShortSnapshot cand"
  using assms
  by (auto simp: evaluate_filtered_def bind_eq_Some_conv Let_def CheckEligibility_iff minConfidence_def
      minInt64_def split: if_splits)

lemma primaryFilters_passed:
  assumes "primaryFilters cfg l sh ls ss now = []"
  shows "ins_Status l = InstrActive \<and> ins_Status sh = InstrActive
     \<and> time_Sub now (snap_LocalReceiveTime ls) \<le> i64 (cfg_MaxDataAgeMs cfg * Millisecond)
     \<and> time_Sub now (snap_LocalReceiveTime ss) \<le> i64 (cfg_MaxDataAgeMs cfg * Millisecond)
     \<and> cfg_MinQuoteVolume24h cfg \<le> snap_QuoteVolume24h ls
     \<and> cfg_MinQuoteVolume24h cfg \<le> snap_QuoteVolume24h ss
     \<and> cfg_MinOrderBookDepthUSDT cfg \<le> snap_AskDepth ls
     \<and> cfg_MinOrderBookDepthUSDT cfg \<le> snap_BidDepth ss"
  using assms by (auto simp: primaryFilters_def Let_def IsTradable_def split: if_splits)

lemma Scan_eligible:
  assumes "Scan D s cfg now = Some cands" and "c \<in> set cands" and "cd_Eligible c"
  shows "\<exists>l sh a. {l, sh} \<subseteq> set (InstrumentsForAsset (scn_registry s) a)
     \<and> cd_Asset c = ins_BaseAsset l \<and> cd_LongExchange c = ins_Exchange l \<and> cd_ShortExchange c = ins_Exchange sh
     \<and> ins_Exchange l \<noteq> ins_Exchange sh
     \<and> allowedSet (cfg_AllowedExchanges cfg) (ins_Exchange l) \<and> allowedSet (cfg_AllowedExchanges cfg) (ins_Exchange sh)
     \<and> ins_Status l = InstrActive \<and> ins_Status sh = InstrActive
     \<and> Cache_Get (scn_cache s) (ins_Exchange l) (ins_BaseAsset l) = Some (cd_LongSnapshot c)
     \<and> Cache_Get (scn_cache s) (ins_Exchange sh) (ins_BaseAsset sh) = Some (cd_ShortSnapshot c)
     \<and> time_Sub now (snap_LocalReceiveTime (cd_LongSnapshot c)) \<le> i64 (cfg_MaxDataAgeMs cfg * Millisecond)
     \<and> time_Sub now (snap_LocalReceiveTime (cd_ShortSnapshot c)) \<le> i64 (cfg_MaxDataAgeMs cfg * Millisecond)
     \<and> cfg_MinQuoteVolume24h cfg \<le> snap_QuoteVolume24h (cd_LongSnapshot c)
     \<and> cfg_MinQuoteVolume24h cfg \<le> snap_QuoteVolume24h (cd_ShortSnapshot c)
     \<and> cfg_MinOrderBookDepthUSDT cfg \<le> snap_AskDepth (cd_LongSnapshot c)
     \<and> cfg_MinOrderBookDepthUSDT cfg \<le> snap_BidDepth (cd_ShortSnapshot c)
     \<and> snap_BestAsk (cd_LongSnapshot c) \<noteq> 0 \<and> snap_BestBid (cd_ShortSnapshot c) \<noteq> 0
     \<and> 0 < snap_MarkPrice (cd_LongSnapshot c)
     \<and> cfg_MinConfidenceLevel cfg \<le> snap_Confidence (cd_LongSnapshot c)
     \<and> cfg_MinConfidenceLevel cfg \<le> snap_Confidence (cd_ShortSnapshot c)
     \<and> cfg_MinSecondsBeforeFunding cfg \<le> go_quot (time_Sub (snap_NextFundingTime (cd_LongSnapshot c)) now) Second
     \<and> cfg_MinSecondsBeforeFunding cfg \<le> go_quot (time_Sub (snap_NextFundingTime (cd_ShortSnapshot c)) now) Second
     \<and> cfg_MinExpectedNetPnL cfg \<le> bd_Net (cd_PnLBreakdown c)"
proof -
  obtain cs where cs: "evaluate_all D s cfg now (all_pairs s cfg) = Some cs" "c \<in> set cs"
    using assms(1,2) by (auto simp: Scan_def scan_assets_pairs all_pairs_def)
  obtain l sh where p: "(l, sh) \<in> set (all_pairs s cfg)" "evaluatePair D s cfg l sh now = Some (Some c)"
    using evaluate_all_sound [OF cs] by auto
  obtain a where a: "(l, sh) \<in> set (pairs_of (allowedSet (cfg_AllowedExchanges cfg))
      (InstrumentsForAsset (scn_registry s) a))"
    using p(1) by (auto simp: all_pairs_def)
  obtain ls ss where snaps: "Cache_Get (scn_cache s) (ins_Exchange l) (ins_BaseAsset l) = Some ls"
      "Cache_Get (scn_cache s) (ins_Exchange sh) (ins_BaseAsset sh) = Some ss"
    using p(2) by (auto simp: evaluatePair_def split: option.splits)
  let ?cand = "new_candidate l sh ls ss now"
  have g: "primaryFilters cfg l sh ls ss now = [] \<and> snap_BestAsk ls \<noteq> 0 \<and> snap_BestBid ss \<noteq> 0
      \<and> 0 < snap_MarkPrice ls \<and> evaluate_filtered D cfg l sh ls ss now ?cand = Some c"
    using p(2) assms(3)
    by (auto simp: evaluatePair_def snaps Let_def new_candidate_def split: if_splits)
  then have "evaluate_filtered D cfg l sh ls ss now ?cand = Some c" by simp
  note e = evaluate_filtered_eligible [OF this]
  have "cd_LongSnapshot c = ls" "cd_ShortSnapshot c = ss" "cd_Asset c = ins_BaseAsset l"
      "cd_LongExchange c = ins_Exchange l" "cd_ShortExchange c = ins_Exchange sh"
    using e by (simp_all add: new_candidate_def)
  then show ?thesis
    using g e primaryFilters_passed [of cfg l sh ls ss now] snaps a assms(3)
    by (intro exI [of _ l] exI [of _ sh] exI [of _ a]) (simp add: pairs_of_def)
qed

text \<open>
  C4: every candidate a scan marks eligible comes from two registered
  instruments of one asset on two different allowed exchanges, both trading; both snapshots it
  carries are those of the cache, no older than the configured age, with the configured volume, depth
  and confidence; the books and the mark price are there; funding of both legs is far enough ahead;
  and its expected net profit reaches the configured minimum.
\<close>

theorem scan_eligible_sound:
  assumes "Scan D s cfg now = Some cands" and "c \<in> set cands" and "cd_Eligible c"
  shows "\<exists>l sh a. {l, sh} \<subseteq> set (InstrumentsForAsset (scn_registry s) a)
     \<and> cd_Asset c = ins_BaseAsset l \<and> cd_LongExchange c = ins_Exchange l \<and> cd_ShortExchange c = ins_Exchange sh
     \<and> ins_Exchange l \<noteq> ins_Exchange sh
     \<and> allowedSet (cfg_AllowedExchanges cfg) (ins_Exchange l) \<and> allowedSet (cfg_AllowedExchanges cfg) (ins_Exchange sh)
     \<and> ins_Status l = InstrActive \<and> ins_Status sh = InstrActive
     \<and> Cache_Get (scn_cache s) (ins_Exchange l) (ins_BaseAsset l) = Some (cd_LongSnapshot c)
     \<and> Cache_Get (scn_cache s) (ins_Exchange sh) (ins_BaseAsset sh) = Some (cd_ShortSnapshot c)
     \<and> time_Sub now (snap_LocalReceiveTime (cd_LongSnapshot c)) \<le> i64 (cfg_MaxDataAgeMs cfg * Millisecond)
     \<and> time_Sub now (snap_LocalReceiveTime (cd_ShortSnapshot c)) \<le> i64 (cfg_MaxDataAgeMs cfg * Millisecond)
     \<and> cfg_MinQuoteVolume24h cfg \<le> snap_QuoteVolume24h (cd_LongSnapshot c)
     \<and> cfg_MinQuoteVolume24h cfg \<le> snap_QuoteVolume24h (cd_ShortSnapshot c)
     \<and> cfg_MinOrderBookDepthUSDT cfg \<le> snap_AskDepth (cd_LongSnapshot c)
     \<and> cfg_MinOrderBookDepthUSDT cfg \<le> snap_BidDepth (cd_ShortSnapshot c)
     \<and> snap_BestAsk (cd_LongSnapshot c) \<noteq> 0 \<and> snap_BestBid (cd_ShortSnapshot c) \<noteq> 0
     \<and> 0 < snap_MarkPrice (cd_LongSnapshot c)
     \<and> cfg_MinConfidenceLevel cfg \<le> snap_Confidence (cd_LongSnapshot c)
     \<and> cfg_MinConfidenceLevel cfg \<le> snap_Confidence (cd_ShortSnapshot c)
     \<and> cfg_MinSecondsBeforeFunding cfg \<le> go_quot (time_Sub (snap_NextFundingTime (cd_LongSnapshot c)) now) Second
     \<and> cfg_MinSecondsBeforeFunding cfg \<le> go_quot (time_Sub (snap_NextFundingTime (cd_ShortSnapshot c)) now) Second
     \<and> cfg_MinExpectedNetPnL cfg \<le> bd_Net (cd_PnLBreakdown c)"
  by (rule Scan_eligible [OF assms])

lemma example_scan: "map_option EligibleCount (Scan sp_ref example_scanner example_config 0) = Some 2"
  by code_simp

theorem scan_eligible_sound_witness:
  "\<exists>cands c. Scan sp_ref example_scanner example_config 0 = Some cands \<and> c \<in> set cands
     \<and> cfg_MinExpectedNetPnL example_config \<le> bd_Net (cd_PnLBreakdown c)"
proof -
  obtain cands where s: "Scan sp_ref example_scanner example_config 0 = Some cands" "EligibleCount cands = 2"
    using example_scan by auto
  then have "filter cd_Eligible cands \<noteq> []" by (auto simp: EligibleCount_def)
  then obtain c where c: "c \<in> set cands" "cd_Eligible c" by (auto simp: filter_empty_conv)
  show ?thesis using scan_eligible_sound [OF s(1) c] s(1) c(1) by blast
qed

end
