(* ===== verification/Allocation.thy ===== *)
theory Allocation
  imports Domain
begin

text \<open>
  Package \<open>internal/allocation\<close> (\<open>allocator.go\<close>): the greedy division of the risk budget among
  candidates.  The mutable copies of the limit maps are threaded as state.
\<close>

record CandidateRequest =
  cr_ID :: string
  cr_Asset :: AssetSymbol
  cr_LongExchange :: ExchangeID
  cr_ShortExchange :: ExchangeID
  cr_CompositeScore :: decimal
  cr_DesiredQty :: decimal
  cr_NotionalPerUnit :: decimal

record AllocLimits =
  al_MaxExposurePerExchangeUSDT :: "ExchangeID \<rightharpoonup> decimal"
  al_CurrentExposureUSDT :: "ExchangeID \<rightharpoonup> decimal"
  al_MaxCorrelatedNotionalUSDT :: "AssetSymbol \<rightharpoonup> decimal"
  al_CurrentCorrelatedUSDT :: "AssetSymbol \<rightharpoonup> decimal"
  al_TotalBudgetUSDT :: decimal
  al_CurrentTotalUSDT :: decimal

record Allocation =
  an_Request :: CandidateRequest
  an_AllocatedQty :: decimal
  an_AllocatedNotional :: decimal
  an_Rejected :: bool
  an_Reason :: string

record AllocPlan =
  pl_Allocations :: "Allocation list"
  pl_TotalAllocatedUSDT :: decimal
  pl_RemainingBudgetUSDT :: decimal

text \<open>The locals of the loop: what is used so far, and the plan.\<close>

record alloc_state =
  us_exch :: "ExchangeID \<rightharpoonup> decimal"
  us_asset :: "AssetSymbol \<rightharpoonup> decimal"
  us_total :: decimal

definition reject :: "CandidateRequest \<Rightarrow> string \<Rightarrow> Allocation" where
  "reject req reason = \<lparr>an_Request = req, an_AllocatedQty = 0, an_AllocatedNotional = 0,
     an_Rejected = True, an_Reason = reason\<rparr>"

text \<open>One leg's exchange limit: \<open>None\<close> when it is exhausted, else the notional still allowed.\<close>

definition cap_exchange ::
  "AllocLimits \<Rightarrow> alloc_state \<Rightarrow> ExchangeID \<Rightarrow> decimal \<Rightarrow> decimal option" where
  "cap_exchange limits st ex allowedNotional =
     (case al_MaxExposurePerExchangeUSDT limits ex of
        None \<Rightarrow> Some allowedNotional
      | Some cap \<Rightarrow>
          (let avail = cap - get_or (us_exch st) ex 0
           in if \<not> avail > 0 then None
              else Some (if avail < allowedNotional then avail else allowedNotional)))"

text \<open>Limits per asset and of the whole portfolio.\<close>

definition cap_asset_total :: "AllocLimits \<Rightarrow> alloc_state \<Rightarrow> AssetSymbol \<Rightarrow> decimal \<Rightarrow> decimal" where
  "cap_asset_total limits st asset allowedNotional =
     (let a1 = (case al_MaxCorrelatedNotionalUSDT limits asset of
                  None \<Rightarrow> allowedNotional
                | Some cap \<Rightarrow> (let avail = cap - get_or (us_asset st) asset 0
                               in if avail < allowedNotional then avail else allowedNotional));
          totalRemain = al_TotalBudgetUSDT limits - us_total st
      in if totalRemain < a1 then totalRemain else a1)"

definition spend :: "alloc_state \<Rightarrow> CandidateRequest \<Rightarrow> decimal \<Rightarrow> alloc_state" where
  "spend st req n =
     (let e1 = (us_exch st)(cr_LongExchange req \<mapsto> get_or (us_exch st) (cr_LongExchange req) 0 + n);
          e2 = (if cr_LongExchange req \<noteq> cr_ShortExchange req
                then e1(cr_ShortExchange req \<mapsto> get_or e1 (cr_ShortExchange req) 0 + n) else e1)
      in st\<lparr>us_exch := e2,
            us_asset := (us_asset st)(cr_Asset req \<mapsto> get_or (us_asset st) (cr_Asset req) 0 + n),
            us_total := us_total st + n\<rparr>)"

text \<open>One iteration of the loop of \<open>Allocate\<close>.\<close>

definition alloc_one ::
  "sp_ops \<Rightarrow> AllocLimits \<Rightarrow> alloc_state \<Rightarrow> CandidateRequest \<Rightarrow> (alloc_state \<times> Allocation) option" where
  "alloc_one D limits st req =
     (if \<not> cr_DesiredQty req > 0 then Some (st, reject req ''non-positive desired qty'')
      else if \<not> cr_CompositeScore req > 0 then Some (st, reject req ''non-positive composite score'')
      else if cr_NotionalPerUnit req = 0 then Some (st, reject req ''zero notional per unit'')
      else
        (let desiredNotional = cr_DesiredQty req * cr_NotionalPerUnit req;
             sameExchange = (cr_LongExchange req = cr_ShortExchange req)
         in case cap_exchange limits st (cr_LongExchange req) desiredNotional of
              None \<Rightarrow> Some (st, reject req (''over exchange limit: '' @ cr_LongExchange req))
            | Some a1 \<Rightarrow>
                (case (if sameExchange then Some a1 else cap_exchange limits st (cr_ShortExchange req) a1) of
                   None \<Rightarrow> Some (st, reject req (''over exchange limit: '' @ cr_ShortExchange req))
                 | Some a2 \<Rightarrow>
                     (let allowed = cap_asset_total limits st (cr_Asset req) a2
                      in if \<not> allowed > 0 then Some (st, reject req ''no budget under limits'')
                         else do { q0 \<leftarrow> Dec_Div D allowed (cr_NotionalPerUnit req);
                                   let q = (if q0 > cr_DesiredQty req then cr_DesiredQty req else q0);
                                   let n = q * cr_NotionalPerUnit req;
                                   Some (spend st req n,
                                         \<lparr>an_Request = req, an_AllocatedQty = q, an_AllocatedNotional = n,
                                          an_Rejected = False, an_Reason = []\<rparr>) }))))"

fun alloc_loop ::
  "sp_ops \<Rightarrow> AllocLimits \<Rightarrow> alloc_state \<Rightarrow> CandidateRequest list \<Rightarrow> (alloc_state \<times> Allocation list) option" where
  "alloc_loop D limits st [] = Some (st, [])"
| "alloc_loop D limits st (req # reqs) =
     do { (st1, a) \<leftarrow> alloc_one D limits st req;
          (st2, as) \<leftarrow> alloc_loop D limits st1 reqs;
          Some (st2, a # as) }"

definition alloc_start :: "AllocLimits \<Rightarrow> alloc_state" where
  "alloc_start limits = \<lparr>us_exch = al_CurrentExposureUSDT limits,
     us_asset = al_CurrentCorrelatedUSDT limits, us_total = al_CurrentTotalUSDT limits\<rparr>"

definition Allocate :: "sp_ops \<Rightarrow> CandidateRequest list \<Rightarrow> AllocLimits \<Rightarrow> AllocPlan option" where
  "Allocate D requests limits =
     do { let sorted = stable_sort (\<lambda>a b. cr_CompositeScore a > cr_CompositeScore b) requests;
          (st, as) \<leftarrow> alloc_loop D limits (alloc_start limits) sorted;
          Some \<lparr>pl_Allocations = as,
                pl_TotalAllocatedUSDT = foldl (\<lambda>t a. if an_Rejected a then t else t + an_AllocatedNotional a) 0 as,
                pl_RemainingBudgetUSDT = al_TotalBudgetUSDT limits - us_total st\<rparr> }"

definition EligibleAllocations :: "AllocPlan \<Rightarrow> Allocation list" where
  "EligibleAllocations p = filter (\<lambda>a. \<not> an_Rejected a) (pl_Allocations p)"

definition FirstRejectReason :: "AllocPlan \<Rightarrow> string option" where
  "FirstRejectReason p = map_option an_Reason (find an_Rejected (pl_Allocations p))"

interpretation by_composite: comparator "\<lambda>a b. cr_CompositeScore a > cr_CompositeScore b"
  by unfold_locales auto

section \<open>Accounting\<close>

text \<open>Notional a list of allocations puts on an exchange, on an asset, in total.\<close>

definition on_exchange :: "ExchangeID \<Rightarrow> Allocation \<Rightarrow> bool" where
  "on_exchange ex a \<longleftrightarrow> cr_LongExchange (an_Request a) = ex \<or> cr_ShortExchange (an_Request a) = ex"

definition exposure :: "(Allocation \<Rightarrow> bool) \<Rightarrow> Allocation list \<Rightarrow> decimal" where
  "exposure P as = (\<Sum>a\<leftarrow>filter P as. an_AllocatedNotional a)"

lemma exposure_Cons [simp]:
  "exposure P (a # as) = (if P a then an_AllocatedNotional a else 0) + exposure P as"
  by (simp add: exposure_def)

lemma exposure_Nil [simp]: "exposure P [] = 0"
  by (simp add: exposure_def)

text \<open>What one iteration can return.\<close>

definition accepted_alloc ::
  "sp_ops \<Rightarrow> AllocLimits \<Rightarrow> alloc_state \<Rightarrow> CandidateRequest \<Rightarrow> Allocation \<Rightarrow> decimal \<Rightarrow> bool" where
  "accepted_alloc D limits st req a allowed \<longleftrightarrow>
     0 < allowed \<and> allowed \<le> cr_DesiredQty req * cr_NotionalPerUnit req \<and> 0 < cr_DesiredQty req
     \<and> cr_NotionalPerUnit req \<noteq> 0
     \<and> (\<forall>ex \<in> {cr_LongExchange req, cr_ShortExchange req}. \<forall>cap.
          al_MaxExposurePerExchangeUSDT limits ex = Some cap \<longrightarrow> allowed \<le> cap - get_or (us_exch st) ex 0)
     \<and> (\<forall>cap. al_MaxCorrelatedNotionalUSDT limits (cr_Asset req) = Some cap
          \<longrightarrow> allowed \<le> cap - get_or (us_asset st) (cr_Asset req) 0)
     \<and> allowed \<le> al_TotalBudgetUSDT limits - us_total st
     \<and> an_AllocatedQty a = min (sp_Div D DivisionPrecision allowed (cr_NotionalPerUnit req)) (cr_DesiredQty req)"

lemma cap_exchange_Some:
  "cap_exchange limits st ex a = Some b \<Longrightarrow>
     b \<le> a \<and> (\<forall>cap. al_MaxExposurePerExchangeUSDT limits ex = Some cap \<longrightarrow> b \<le> cap - get_or (us_exch st) ex 0)"
  by (auto simp: cap_exchange_def Let_def split: option.splits if_splits)

lemma cap_asset_total_le:
  "cap_asset_total limits st asset a \<le> a
   \<and> (\<forall>cap. al_MaxCorrelatedNotionalUSDT limits asset = Some cap
        \<longrightarrow> cap_asset_total limits st asset a \<le> cap - get_or (us_asset st) asset 0)
   \<and> cap_asset_total limits st asset a \<le> al_TotalBudgetUSDT limits - us_total st"
  by (auto simp: cap_asset_total_def Let_def split: option.splits)

lemma accepted_allocI:
  assumes "cap_exchange limits st (cr_LongExchange req) (cr_DesiredQty req * cr_NotionalPerUnit req) = Some a1"
    and "(if cr_LongExchange req = cr_ShortExchange req then Some a1
          else cap_exchange limits st (cr_ShortExchange req) a1) = Some a2"
    and "0 < cap_asset_total limits st (cr_Asset req) a2" and "0 < cr_DesiredQty req"
    and "cr_NotionalPerUnit req \<noteq> 0"
    and "an_AllocatedQty a = min (sp_Div D DivisionPrecision (cap_asset_total limits st (cr_Asset req) a2)
           (cr_NotionalPerUnit req)) (cr_DesiredQty req)"
  shows "accepted_alloc D limits st req a (cap_asset_total limits st (cr_Asset req) a2)"
proof -
  let ?al = "cap_asset_total limits st (cr_Asset req) a2"
  note c = cap_asset_total_le [of limits st "cr_Asset req" a2]
  note l = cap_exchange_Some [OF assms(1)]
  have a2: "a2 \<le> a1" using assms(2) cap_exchange_Some by (auto split: if_splits)
  have "?al \<le> cap - get_or (us_exch st) (cr_LongExchange req) 0"
    if "al_MaxExposurePerExchangeUSDT limits (cr_LongExchange req) = Some cap" for cap
    using l c a2 that by fastforce
  moreover have "?al \<le> cap - get_or (us_exch st) (cr_ShortExchange req) 0"
    if "al_MaxExposurePerExchangeUSDT limits (cr_ShortExchange req) = Some cap" for cap
  proof (cases "cr_LongExchange req = cr_ShortExchange req")
    case True
    then show ?thesis using l c a2 that by fastforce
  next
    case False
    then have "cap_exchange limits st (cr_ShortExchange req) a1 = Some a2" using assms(2) by simp
    from cap_exchange_Some [OF this] show ?thesis using c that by fastforce
  qed
  ultimately show ?thesis
    using assms(3-6) c l a2 unfolding accepted_alloc_def by auto
qed

lemma alloc_one_cases:
  assumes "alloc_one D limits st req = Some (st', a)"
  shows "an_Request a = req \<and> st' = (if an_Rejected a then st else spend st req (an_AllocatedNotional a))
     \<and> an_AllocatedNotional a = an_AllocatedQty a * cr_NotionalPerUnit req
     \<and> (if an_Rejected a then an_AllocatedQty a = 0 else (\<exists>allowed. accepted_alloc D limits st req a allowed))"
proof (cases "an_Rejected a")
  case True
  then have "an_Request a = req \<and> an_AllocatedQty a = 0 \<and> an_AllocatedNotional a = 0 \<and> st' = st"
    using assms by (auto simp: alloc_one_def Let_def Dec_Div_def reject_def split: if_splits option.splits)
  then show ?thesis using True by simp
next
  case False
  define desired where "desired = cr_DesiredQty req * cr_NotionalPerUnit req"
  have pre: "0 < cr_DesiredQty req" "cr_NotionalPerUnit req \<noteq> 0"
    using assms False by (auto simp: alloc_one_def reject_def split: if_splits)
  obtain a1 a2 where a12: "cap_exchange limits st (cr_LongExchange req) desired = Some a1"
      "(if cr_LongExchange req = cr_ShortExchange req then Some a1
        else cap_exchange limits st (cr_ShortExchange req) a1) = Some a2"
      "0 < cap_asset_total limits st (cr_Asset req) a2"
    using assms False
    by (auto simp: alloc_one_def Let_def reject_def desired_def split: if_splits option.splits)
  have "alloc_one D limits st req
      = Some (spend st req (min (sp_Div D DivisionPrecision (cap_asset_total limits st (cr_Asset req) a2)
              (cr_NotionalPerUnit req)) (cr_DesiredQty req) * cr_NotionalPerUnit req),
          \<lparr>an_Request = req, an_AllocatedQty = min (sp_Div D DivisionPrecision
              (cap_asset_total limits st (cr_Asset req) a2) (cr_NotionalPerUnit req)) (cr_DesiredQty req),
           an_AllocatedNotional = min (sp_Div D DivisionPrecision (cap_asset_total limits st (cr_Asset req) a2)
              (cr_NotionalPerUnit req)) (cr_DesiredQty req) * cr_NotionalPerUnit req,
           an_Rejected = False, an_Reason = []\<rparr>)"
    using assms False pre a12
    by (auto simp: alloc_one_def reject_def Dec_Div_def min_def desired_def [symmetric] Let_def
        split: if_splits)
  then show ?thesis
    using assms pre a12 accepted_allocI [of limits st req a1 a2 a D]
    unfolding desired_def by auto
qed

lemma alloc_one_total: "\<exists>r. alloc_one D limits st req = Some r"
  by (auto simp: alloc_one_def Dec_Div_def Let_def split: option.splits)

lemma alloc_loop_total: "\<exists>r. alloc_loop D limits st reqs = Some r"
proof (induction reqs arbitrary: st)
  case (Cons req reqs)
  obtain st1 a where "alloc_one D limits st req = Some (st1, a)" using alloc_one_total by (metis surj_pair)
  moreover obtain st2 as where "alloc_loop D limits st1 reqs = Some (st2, as)" using Cons by (metis surj_pair)
  ultimately show ?case by simp
qed simp

text \<open>The quantity and the notional of an accepted request, up to the rounding of the division.\<close>

lemma accepted_bounds:
  assumes "shopspring D" and "accepted_alloc D limits st req a allowed"
    and "an_AllocatedNotional a = an_AllocatedQty a * cr_NotionalPerUnit req"
  shows "0 \<le> an_AllocatedQty a \<and> an_AllocatedQty a \<le> cr_DesiredQty req
     \<and> 0 \<le> an_AllocatedNotional a
     \<and> an_AllocatedNotional a \<le> allowed + cr_NotionalPerUnit req * (ulp / 2)"
proof -
  let ?p = "cr_NotionalPerUnit req" and ?q0 = "sp_Div D DivisionPrecision allowed (cr_NotionalPerUnit req)"
  have al: "0 < allowed" "0 < cr_DesiredQty req" "allowed \<le> cr_DesiredQty req * ?p"
    and q: "an_AllocatedQty a = min ?q0 (cr_DesiredQty req)"
    using assms(2) by (auto simp: accepted_alloc_def)
  have p: "0 < ?p" using al by (metis less_le_trans zero_less_mult_pos)
  have "0 \<le> ?q0" using shopspring.div_nonneg [OF assms(1) p] al by simp
  moreover have "?q0 * ?p \<le> (allowed / ?p + ulp / 2) * ?p"
    using shopspring.div_le [OF assms(1) p] p by (intro rat_mult_right_mono) auto
  moreover have "(allowed / ?p + ulp / 2) * ?p = allowed + ?p * (ulp / 2)"
    using p by (simp add: distrib_right)
  moreover have "an_AllocatedQty a * ?p \<le> ?q0 * ?p" using q p by (intro rat_mult_right_mono) auto
  ultimately have "an_AllocatedQty a * ?p \<le> allowed + ?p * (ulp / 2)" and "0 \<le> ?q0" by linarith+
  moreover have "0 \<le> an_AllocatedQty a * ?p" using q al(2) p \<open>0 \<le> ?q0\<close> by simp
  ultimately show ?thesis using q al(2) assms(3) by simp
qed

lemma spend_used:
  "get_or (us_exch (spend st req n)) ex 0
     = get_or (us_exch st) ex 0 + (if cr_LongExchange req = ex \<or> cr_ShortExchange req = ex then n else 0)"
  "get_or (us_asset (spend st req n)) as 0
     = get_or (us_asset st) as 0 + (if cr_Asset req = as then n else 0)"
  "us_total (spend st req n) = us_total st + n"
  by (auto simp: spend_def Let_def)

lemma alloc_one_used:
  assumes "alloc_one D limits st req = Some (st', a)"
  shows "get_or (us_exch st') ex 0
       = get_or (us_exch st) ex 0 + (if on_exchange ex a then an_AllocatedNotional a else 0)
     \<and> get_or (us_asset st') as 0
       = get_or (us_asset st) as 0 + (if cr_Asset (an_Request a) = as then an_AllocatedNotional a else 0)
     \<and> us_total st' = us_total st + an_AllocatedNotional a"
  using alloc_one_cases [OF assms]
  by (cases "an_Rejected a") (auto simp: spend_used on_exchange_def)

lemma alloc_loop_used:
  "alloc_loop D limits st reqs = Some (st', as) \<Longrightarrow>
     get_or (us_exch st') ex 0 = get_or (us_exch st) ex 0 + exposure (on_exchange ex) as
   \<and> get_or (us_asset st') as0 0 = get_or (us_asset st) as0 0 + exposure (\<lambda>a. cr_Asset (an_Request a) = as0) as
   \<and> us_total st' = us_total st + exposure (\<lambda>_. True) as
   \<and> map an_Request as = reqs"
proof (induction reqs arbitrary: st as)
  case (Cons req reqs)
  obtain st1 a as1 where one: "alloc_one D limits st req = Some (st1, a)"
    and rest: "alloc_loop D limits st1 reqs = Some (st', as1)" and as: "as = a # as1"
    using Cons.prems by (auto simp: bind_eq_Some_conv)
  show ?case
    using alloc_one_used [OF one, of ex as0] Cons.IH [OF rest] alloc_one_cases [OF one] by (simp add: as)
qed simp

text \<open>A limit is kept, up to half a unit of the division per unit of price; it is never passed twice.\<close>

definition capped :: "AllocLimits \<Rightarrow> decimal \<Rightarrow> alloc_state \<Rightarrow> alloc_state \<Rightarrow> bool" where
  "capped limits \<epsilon> st st' \<longleftrightarrow>
     (\<forall>ex cap. al_MaxExposurePerExchangeUSDT limits ex = Some cap
        \<longrightarrow> get_or (us_exch st') ex 0 \<le> max (get_or (us_exch st) ex 0) (cap + \<epsilon>))
   \<and> (\<forall>as cap. al_MaxCorrelatedNotionalUSDT limits as = Some cap
        \<longrightarrow> get_or (us_asset st') as 0 \<le> max (get_or (us_asset st) as 0) (cap + \<epsilon>))
   \<and> us_total st' \<le> max (us_total st) (al_TotalBudgetUSDT limits + \<epsilon>)"

lemma capped_refl: "capped limits \<epsilon> st st"
  by (simp add: capped_def)

lemma capped_trans: "capped limits \<epsilon> st st1 \<Longrightarrow> capped limits \<epsilon> st1 st2 \<Longrightarrow> capped limits \<epsilon> st st2"
  unfolding capped_def by (smt (verit) le_max_iff_disj order.trans)

lemma alloc_one_capped:
  assumes "shopspring D" and "alloc_one D limits st req = Some (st', a)"
    and "cr_NotionalPerUnit req \<le> P"
  shows "capped limits (P * (ulp / 2)) st st'
     \<and> 0 \<le> an_AllocatedQty a \<and> 0 \<le> an_AllocatedNotional a
     \<and> (\<not> an_Rejected a \<longrightarrow> an_AllocatedQty a \<le> cr_DesiredQty req)"
proof (cases "an_Rejected a")
  case True
  then show ?thesis using alloc_one_cases [OF assms(2)] by (simp add: capped_refl)
next
  case False
  obtain allowed where acc: "accepted_alloc D limits st req a allowed"
    and st': "st' = spend st req (an_AllocatedNotional a)"
    and n: "an_AllocatedNotional a = an_AllocatedQty a * cr_NotionalPerUnit req"
    using alloc_one_cases [OF assms(2)] False by auto
  note b = accepted_bounds [OF assms(1) acc n]
  have "cr_NotionalPerUnit req * (ulp / 2) \<le> P * (ulp / 2)"
    using assms(3) by (intro rat_mult_right_mono) (simp_all add: ulp_def)
  then have N: "an_AllocatedNotional a \<le> allowed + P * (ulp / 2)" using b by linarith
  have "capped limits (P * (ulp / 2)) st st'"
    unfolding capped_def
  proof (intro conjI allI impI)
    fix ex cap assume c: "al_MaxExposurePerExchangeUSDT limits ex = Some cap"
    show "get_or (us_exch st') ex 0 \<le> max (get_or (us_exch st) ex 0) (cap + P * (ulp / 2))"
    proof (cases "cr_LongExchange req = ex \<or> cr_ShortExchange req = ex")
      case True
      then have "allowed \<le> cap - get_or (us_exch st) ex 0"
        using acc c by (auto simp: accepted_alloc_def)
      then show ?thesis using True N by (simp add: st' spend_used)
    qed (simp add: st' spend_used)
  next
    fix as cap assume c: "al_MaxCorrelatedNotionalUSDT limits as = Some cap"
    then have "cr_Asset req = as \<Longrightarrow> allowed \<le> cap - get_or (us_asset st) as 0"
      using acc by (auto simp: accepted_alloc_def)
    then show "get_or (us_asset st') as 0 \<le> max (get_or (us_asset st) as 0) (cap + P * (ulp / 2))"
      using N by (auto simp: st' spend_used)
  next
    have "allowed \<le> al_TotalBudgetUSDT limits - us_total st"
      using acc by (simp add: accepted_alloc_def)
    then show "us_total st' \<le> max (us_total st) (al_TotalBudgetUSDT limits + P * (ulp / 2))"
      using N by (simp add: st' spend_used)
  qed
  then show ?thesis using b by simp
qed

definition alloc_within :: "Allocation \<Rightarrow> bool" where
  "alloc_within a \<longleftrightarrow>
     (if an_Rejected a then an_AllocatedQty a = 0 \<and> an_AllocatedNotional a = 0
      else 0 \<le> an_AllocatedQty a \<and> an_AllocatedQty a \<le> cr_DesiredQty (an_Request a)
        \<and> an_AllocatedNotional a = an_AllocatedQty a * cr_NotionalPerUnit (an_Request a))"

lemma alloc_loop_capped:
  assumes "shopspring D"
  shows "alloc_loop D limits st reqs = Some (st', as) \<Longrightarrow> \<forall>req \<in> set reqs. cr_NotionalPerUnit req \<le> P \<Longrightarrow>
     capped limits (P * (ulp / 2)) st st'
   \<and> (\<forall>a \<in> set as. alloc_within a)"
proof (induction reqs arbitrary: st as)
  case Nil
  then show ?case by (simp add: capped_refl)
next
  case (Cons req reqs)
  obtain st1 a as1 where one: "alloc_one D limits st req = Some (st1, a)"
    and rest: "alloc_loop D limits st1 reqs = Some (st', as1)" and as: "as = a # as1"
    using Cons.prems(1) by (auto simp: bind_eq_Some_conv)
  note c = alloc_one_capped [OF assms one, of P] and IH = Cons.IH [OF rest] and cs = alloc_one_cases [OF one]
  have "capped limits (P * (ulp / 2)) st st'"
    using c IH Cons.prems(2) capped_trans [of limits _ st st1 st'] by simp
  moreover have "\<forall>a \<in> set as1. alloc_within a" using IH Cons.prems(2) by simp
  moreover have "alloc_within a" using c cs Cons.prems(2) by (simp add: alloc_within_def)
  ultimately show ?case by (simp add: as)
qed

lemma foldl_notional:
  "\<forall>a \<in> set as. alloc_within a \<Longrightarrow>
     foldl (\<lambda>t a. if an_Rejected a then t else t + an_AllocatedNotional a) t0 as
     = t0 + exposure (\<lambda>_. True) as"
  by (induction as arbitrary: t0) (auto simp: alloc_within_def)

lemma Allocate_total: "\<exists>plan. Allocate D requests limits = Some plan"
proof -
  obtain st as where "alloc_loop D limits (alloc_start limits)
      (stable_sort (\<lambda>a b. cr_CompositeScore a > cr_CompositeScore b) requests) = Some (st, as)"
    using alloc_loop_total by (metis surj_pair)
  then show ?thesis by (simp add: Allocate_def)
qed

lemma Allocate_obtain:
  assumes "Allocate D requests limits = Some plan"
  obtains st as where
    "alloc_loop D limits (alloc_start limits)
       (stable_sort (\<lambda>a b. cr_CompositeScore a > cr_CompositeScore b) requests) = Some (st, as)"
    "pl_Allocations plan = as" "pl_RemainingBudgetUSDT plan = al_TotalBudgetUSDT limits - us_total st"
    "pl_TotalAllocatedUSDT plan = foldl (\<lambda>t a. if an_Rejected a then t else t + an_AllocatedNotional a) 0 as"
  using assms that by (auto simp: Allocate_def bind_eq_Some_conv)

text \<open>
  C3: whatever the candidates, the plan keeps every limit up to the rounding
  of one division: on each exchange, on each asset and in total, what was used before plus what the
  plan allocates exceeds the limit by at most half a unit of the 28th digit times the largest price,
  or nothing was allocated there because the limit was already passed.
\<close>

theorem allocate_respects_limits:
  assumes "shopspring D" and "\<forall>r \<in> set requests. cr_NotionalPerUnit r \<le> P"
    and "Allocate D requests limits = Some plan"
  shows "(\<forall>ex cap. al_MaxExposurePerExchangeUSDT limits ex = Some cap \<longrightarrow>
            get_or (al_CurrentExposureUSDT limits) ex 0 + exposure (on_exchange ex) (pl_Allocations plan)
            \<le> max (get_or (al_CurrentExposureUSDT limits) ex 0) (cap + P * (ulp / 2)))
     \<and> (\<forall>as cap. al_MaxCorrelatedNotionalUSDT limits as = Some cap \<longrightarrow>
            get_or (al_CurrentCorrelatedUSDT limits) as 0
              + exposure (\<lambda>a. cr_Asset (an_Request a) = as) (pl_Allocations plan)
            \<le> max (get_or (al_CurrentCorrelatedUSDT limits) as 0) (cap + P * (ulp / 2)))
     \<and> al_CurrentTotalUSDT limits + exposure (\<lambda>_. True) (pl_Allocations plan)
            \<le> max (al_CurrentTotalUSDT limits) (al_TotalBudgetUSDT limits + P * (ulp / 2))"
proof -
  obtain st as where l: "alloc_loop D limits (alloc_start limits)
       (stable_sort (\<lambda>a b. cr_CompositeScore a > cr_CompositeScore b) requests) = Some (st, as)"
    and p: "pl_Allocations plan = as" by (rule Allocate_obtain [OF assms(3)])
  have "capped limits (P * (ulp / 2)) (alloc_start limits) st"
    using alloc_loop_capped [OF assms(1) l, of P] assms(2) by simp
  then show ?thesis
    using alloc_loop_used [OF l] unfolding capped_def p by (simp add: alloc_start_def)
qed

definition example_request :: "string \<Rightarrow> decimal \<Rightarrow> decimal \<Rightarrow> CandidateRequest" where
  "example_request i score price = \<lparr>cr_ID = i, cr_Asset = ''BTC'', cr_LongExchange = ExchangeOKX,
     cr_ShortExchange = ExchangeBybit, cr_CompositeScore = score, cr_DesiredQty = 5,
     cr_NotionalPerUnit = price\<rparr>"

definition example_alloc_limits :: AllocLimits where
  "example_alloc_limits = \<lparr>al_MaxExposurePerExchangeUSDT = [ExchangeOKX \<mapsto> 2],
     al_CurrentExposureUSDT = Map.empty, al_MaxCorrelatedNotionalUSDT = Map.empty,
     al_CurrentCorrelatedUSDT = Map.empty, al_TotalBudgetUSDT = 1000, al_CurrentTotalUSDT = 0\<rparr>"

theorem allocate_respects_limits_witness:
  "\<exists>plan. Allocate sp_ref [example_request ''a'' (1 / 2) 3] example_alloc_limits = Some plan
     \<and> exposure (on_exchange ExchangeOKX) (pl_Allocations plan) \<le> 2 + 3 * (ulp / 2)"
proof -
  obtain plan where p: "Allocate sp_ref [example_request ''a'' (1 / 2) 3] example_alloc_limits = Some plan"
    using Allocate_total by blast
  show ?thesis
    using allocate_respects_limits [OF spref.shopspring_axioms _ p, of 3, THEN conjunct1,
        THEN spec [of _ ExchangeOKX], THEN spec [of _ 2]] p
    by (simp add: example_request_def example_alloc_limits_def get_or_def ulp_def)
qed

text \<open>
  the allocator always returns a plan; it answers every request exactly once, in
  descending order of score with ties in their given order; a rejected request gets nothing, an
  accepted one between nothing and the quantity it asked for; the total is the sum of the allocated
  notionals and the remaining budget is the budget less what was and what is now used.
\<close>

theorem allocate_accounts:
  assumes "shopspring D"
  shows "\<exists>plan. Allocate D requests limits = Some plan
     \<and> mset (map an_Request (pl_Allocations plan)) = mset requests
     \<and> sorted_wrt (\<lambda>a b. cr_CompositeScore (an_Request b) \<le> cr_CompositeScore (an_Request a)) (pl_Allocations plan)
     \<and> (\<forall>a \<in> set (pl_Allocations plan).
          if an_Rejected a then an_AllocatedQty a = 0 \<and> an_AllocatedNotional a = 0
          else 0 \<le> an_AllocatedQty a \<and> an_AllocatedQty a \<le> cr_DesiredQty (an_Request a)
            \<and> an_AllocatedNotional a = an_AllocatedQty a * cr_NotionalPerUnit (an_Request a))
     \<and> pl_TotalAllocatedUSDT plan = (\<Sum>a\<leftarrow>pl_Allocations plan. an_AllocatedNotional a)
     \<and> pl_RemainingBudgetUSDT plan
         = al_TotalBudgetUSDT limits - al_CurrentTotalUSDT limits - pl_TotalAllocatedUSDT plan"
proof -
  obtain plan where plan: "Allocate D requests limits = Some plan" using Allocate_total by blast
  let ?reqs = "stable_sort (\<lambda>a b. cr_CompositeScore a > cr_CompositeScore b) requests"
  obtain st as where l: "alloc_loop D limits (alloc_start limits) ?reqs = Some (st, as)"
    and p: "pl_Allocations plan = as" "pl_RemainingBudgetUSDT plan = al_TotalBudgetUSDT limits - us_total st"
      "pl_TotalAllocatedUSDT plan = foldl (\<lambda>t a. if an_Rejected a then t else t + an_AllocatedNotional a) 0 as"
    by (rule Allocate_obtain [OF plan])
  obtain P where P: "\<forall>r \<in> set ?reqs. cr_NotionalPerUnit r \<le> P"
    using Max_ge [of "cr_NotionalPerUnit ` set ?reqs"] by fastforce
  have w: "\<forall>a \<in> set as. alloc_within a" using alloc_loop_capped [OF assms l P] by simp
  have reqs: "map an_Request as = ?reqs"
    and tot: "us_total st = al_CurrentTotalUSDT limits + exposure (\<lambda>_. True) as"
    using alloc_loop_used [OF l] by (simp_all add: alloc_start_def)
  have "sorted_wrt (\<lambda>a b. \<not> cr_CompositeScore b > cr_CompositeScore a) (map an_Request as)"
    unfolding reqs by (rule by_composite.sorted_stable_sort)
  then have sorted: "sorted_wrt (\<lambda>a b. cr_CompositeScore (an_Request b) \<le> cr_CompositeScore (an_Request a)) as"
    by (simp add: sorted_wrt_map not_less)
  have "mset (map an_Request as) = mset requests" unfolding reqs by simp
  moreover have "pl_TotalAllocatedUSDT plan = (\<Sum>a\<leftarrow>as. an_AllocatedNotional a)"
    using foldl_notional [OF w, of 0] p by (simp add: exposure_def)
  ultimately show ?thesis
    using plan p tot sorted w unfolding alloc_within_def by (simp add: exposure_def)
qed

theorem allocate_accounts_witness:
  "\<exists>plan. Allocate sp_ref [example_request ''a'' (1 / 2) 3, example_request ''b'' 1 3] example_alloc_limits = Some plan
     \<and> length (pl_Allocations plan) = 2 \<and> pl_RemainingBudgetUSDT plan = 1000 - pl_TotalAllocatedUSDT plan"
proof -
  obtain plan where p: "Allocate sp_ref [example_request ''a'' (1 / 2) 3, example_request ''b'' 1 3]
      example_alloc_limits = Some plan"
    "mset (map an_Request (pl_Allocations plan)) = {#example_request ''a'' (1 / 2) 3, example_request ''b'' 1 3#}"
    "pl_RemainingBudgetUSDT plan = al_TotalBudgetUSDT example_alloc_limits
       - al_CurrentTotalUSDT example_alloc_limits - pl_TotalAllocatedUSDT plan"
    using allocate_accounts [OF spref.shopspring_axioms,
        of "[example_request ''a'' (1 / 2) 3, example_request ''b'' 1 3]" example_alloc_limits] by auto
  have "length (pl_Allocations plan) = 2" using arg_cong [OF p(2), of size] by simp
  then show ?thesis using p by (simp add: example_alloc_limits_def)
qed

text \<open>
  The quantity is rounded to the nearest, not down: two thirds of a unit at price 3 pass a limit of 2.
\<close>

lemma allocate_may_exceed:
  "map_option pl_TotalAllocatedUSDT (Allocate sp_ref [example_request ''a'' (1 / 2) 3] example_alloc_limits)
   = Some (2 + ulp)"
  by code_simp

end
