(* ===== verification/Fsm.thy ===== *)
theory Fsm
  imports Prelude
begin

text \<open>
  The contract of a transition table with final states, shared by the position machine and the
  rebalance plan machine.  A history is the list of its (from, to) entries; \<open>path\<close> says that it leads
  from one state to another along the table.
\<close>

fun path :: "('s \<Rightarrow> 's \<Rightarrow> bool) \<Rightarrow> 's \<Rightarrow> ('s \<times> 's) list \<Rightarrow> 's \<Rightarrow> bool" where
  "path allowed s [] s' \<longleftrightarrow> s = s'"
| "path allowed s ((a, b) # hs) s' \<longleftrightarrow> a = s \<and> allowed a b \<and> path allowed b hs s'"

lemma path_append: "path allowed s (hs @ hs') s'' \<longleftrightarrow> (\<exists>s'. path allowed s hs s' \<and> path allowed s' hs' s'')"
  by (induction allowed s hs s'' rule: path.induct) auto

lemma path_snoc [simp]:
  "path allowed s (hs @ [(a, b)]) s' \<longleftrightarrow> path allowed s hs a \<and> allowed a b \<and> b = s'"
  by (auto simp: path_append)

locale fsm =
  fixes allowed :: "'s \<Rightarrow> 's \<Rightarrow> bool" and final :: "'s \<Rightarrow> bool"
  assumes final_stuck: "final s \<Longrightarrow> \<not> allowed s t"
begin

lemma path_final: "final s \<Longrightarrow> path allowed s hs s' \<Longrightarrow> hs = [] \<and> s' = s"
  using final_stuck by (cases hs) auto

text \<open>A final state is entered at most once, by the last transition.\<close>

lemma final_last:
  assumes "path allowed s (hs @ (a, b) # hs') s'" and "final b"
  shows "hs' = [] \<and> s' = b"
proof -
  have "path allowed b hs' s'" using assms(1) by (auto simp: path_append)
  then show ?thesis using path_final [OF assms(2)] by simp
qed

text \<open>
  To get out of a region that can only be left through a gate, a history has to enter the gate.
\<close>

lemma must_pass:
  assumes "path allowed s hs s'" and "s \<in> R" and "s' \<notin> R" and "s' \<notin> G"
    and "\<And>a b. a \<in> R \<Longrightarrow> allowed a b \<Longrightarrow> b \<in> R \<or> b \<in> G"
  shows "\<exists>(a, b) \<in> set hs. b \<in> G"
  using assms(1-4)
proof (induction hs arbitrary: s)
  case (Cons h hs)
  obtain a b where h: "h = (a, b)" by (cases h)
  then have b: "b \<in> R \<or> b \<in> G" "path allowed b hs s'" using Cons.prems assms(5) by auto
  show ?case
  proof (cases "b \<in> G")
    case True
    then show ?thesis by (auto simp: h)
  next
    case False
    then show ?thesis using Cons.IH [OF b(2)] b(1) Cons.prems by (auto simp: h)
  qed
qed auto

text \<open>A machine whose table only goes up some rank stops: a history is no longer than the rank.\<close>

lemma rank_bound:
  assumes "\<And>a b. allowed a b \<Longrightarrow> rank a < (rank b :: nat)" and "path allowed s hs s'"
  shows "rank s + length hs \<le> rank s'"
  using assms(2)
proof (induction hs arbitrary: s)
  case (Cons h hs)
  obtain a b where "h = (a, b)" by (cases h)
  then show ?case using Cons assms(1) by fastforce
qed simp

end

end
