(* ===== verification/Portfolio.thy ===== *)
theory Portfolio
  imports Domain Fsm
begin

text \<open>
  Package \<open>internal/portfolio\<close> (\<open>state_machine.go\<close>, \<open>restore.go\<close>): the persistent state machine
  of a position.  \<open>TransitionTo\<close> releases the position's mutex while the persister runs, so it is
  modelled as two atomic parts, \<open>transition_begin\<close> and a commit or a rollback, composed sequentially in
  \<open>TransitionTo\<close> and interleaved with the other operations in \<open>pos_step\<close>.
\<close>

datatype PState =
    StateDiscovered | StateQualified | StateAwaitingApproval | StatePreparing | StateOpening
  | StatePartiallyHedged | StateHedged | StateMonitoring | StateExitRequested | StateExiting
  | StateReconciling | StateClosed | StateDegraded | StateFailed | PStateOther string

definition PState_IsTerminal :: "PState \<Rightarrow> bool" where
  "PState_IsTerminal s \<longleftrightarrow> s = StateClosed \<or> s = StateFailed"

definition IsOpenLike :: "PState \<Rightarrow> bool" where
  "IsOpenLike s = (case s of
       StatePartiallyHedged \<Rightarrow> True | StateHedged \<Rightarrow> True | StateMonitoring \<Rightarrow> True
     | StateExitRequested \<Rightarrow> True | StateExiting \<Rightarrow> True | StateDegraded \<Rightarrow> True | _ \<Rightarrow> False)"

fun allowedTransitions :: "PState \<Rightarrow> PState list option" where
  "allowedTransitions StateDiscovered = Some [StateQualified, StateFailed]"
| "allowedTransitions StateQualified = Some [StateAwaitingApproval, StatePreparing, StateFailed]"
| "allowedTransitions StateAwaitingApproval = Some [StatePreparing, StateDiscovered, StateFailed]"
| "allowedTransitions StatePreparing = Some [StateOpening, StateFailed, StateDiscovered]"
| "allowedTransitions StateOpening = Some [StatePartiallyHedged, StateHedged, StateDegraded, StateFailed]"
| "allowedTransitions StatePartiallyHedged = Some [StateHedged, StateDegraded, StateExitRequested, StateFailed]"
| "allowedTransitions StateHedged = Some [StateMonitoring, StateExitRequested]"
| "allowedTransitions StateMonitoring = Some [StateExitRequested, StateDegraded, StateReconciling]"
| "allowedTransitions StateExitRequested = Some [StateExiting, StateDegraded]"
| "allowedTransitions StateExiting = Some [StateReconciling, StateDegraded, StateFailed]"
| "allowedTransitions StateReconciling = Some [StateClosed, StateDegraded, StateFailed]"
| "allowedTransitions StateDegraded = Some [StateExitRequested, StateReconciling, StateFailed, StateClosed]"
| "allowedTransitions StateClosed = Some []"
| "allowedTransitions StateFailed = Some []"
| "allowedTransitions (PStateOther s) = None"

definition CanTransition :: "PState \<Rightarrow> PState \<Rightarrow> bool" where
  "CanTransition from to =
     (case allowedTransitions from of None \<Rightarrow> False | Some targets \<Rightarrow> to \<in> set targets)"

datatype pos_error =
    ErrInvalidTransition PState PState | ErrPositionTerminal | ErrPersistInProgress
  | ErrPositionTerminalMutation | ErrPersistFailed string

record Transition =
  tr_From :: PState
  tr_To :: PState
  tr_At :: time
  tr_Reason :: string
  tr_Actor :: string

record Position =
  pos_ID :: PositionID
  pos_Asset :: AssetSymbol
  pos_LongExchange :: ExchangeID
  pos_ShortExchange :: ExchangeID
  pos_State :: PState
  pos_EntryReason :: string
  pos_TargetBaseQty :: decimal
  pos_LongBaseQty :: decimal
  pos_ShortBaseQty :: decimal
  pos_RealisedPnL :: decimal
  pos_FundingPnL :: decimal
  pos_FeesPaid :: decimal
  pos_CreatedAt :: time
  pos_UpdatedAt :: time
  pos_ExitReason :: string
  pos_ExitedAt :: "time option"
  pos_History :: "Transition list"
  pos_persisting :: bool

definition NewPosition ::
  "PositionID \<Rightarrow> AssetSymbol \<Rightarrow> ExchangeID \<Rightarrow> ExchangeID \<Rightarrow> time \<Rightarrow> Position" where
  "NewPosition i asset longEx shortEx now =
     \<lparr>pos_ID = i, pos_Asset = asset, pos_LongExchange = longEx, pos_ShortExchange = shortEx,
      pos_State = StateDiscovered, pos_EntryReason = [], pos_TargetBaseQty = 0,
      pos_LongBaseQty = 0, pos_ShortBaseQty = 0, pos_RealisedPnL = 0, pos_FundingPnL = 0,
      pos_FeesPaid = 0, pos_CreatedAt = now, pos_UpdatedAt = now, pos_ExitReason = [],
      pos_ExitedAt = None, pos_History = [], pos_persisting = False\<rparr>"

definition CurrentState :: "Position \<Rightarrow> PState" where
  "CurrentState p = pos_State p"

definition Position_IsTerminal :: "Position \<Rightarrow> bool" where
  "Position_IsTerminal p = PState_IsTerminal (CurrentState p)"

text \<open>\<open>TransitionTo\<close> up to the first unlock.\<close>

definition transition_begin ::
  "Position \<Rightarrow> PState \<Rightarrow> time \<Rightarrow> string \<Rightarrow> string \<Rightarrow> pos_error + Position \<times> Transition" where
  "transition_begin p to now reason actor =
     (let from = pos_State p in
      if PState_IsTerminal from then Inl ErrPositionTerminal
      else if pos_persisting p then Inl ErrPersistInProgress
      else if \<not> CanTransition from to then Inl (ErrInvalidTransition from to)
      else let t = \<lparr>tr_From = from, tr_To = to, tr_At = now, tr_Reason = reason, tr_Actor = actor\<rparr>
           in Inr (p\<lparr>pos_persisting := True, pos_State := to, pos_UpdatedAt := now,
                     pos_History := pos_History p @ [t]\<rparr>, t))"

definition transition_commit :: "Position \<Rightarrow> Position" where
  "transition_commit p = p\<lparr>pos_persisting := False\<rparr>"

definition transition_rollback :: "PState \<Rightarrow> time \<Rightarrow> Position \<Rightarrow> Position" where
  "transition_rollback from now p =
     p\<lparr>pos_State := from, pos_UpdatedAt := now,
       pos_History := (if pos_History p \<noteq> [] then butlast (pos_History p) else pos_History p),
       pos_persisting := False\<rparr>"

text \<open>
  The persister is the repository behind its interface: a function on its own state that may fail.
\<close>

type_synonym 'w persister = "Position \<Rightarrow> Transition \<Rightarrow> 'w \<Rightarrow> string option \<times> 'w"

definition TransitionTo ::
  "Position \<Rightarrow> PState \<Rightarrow> time \<Rightarrow> string \<Rightarrow> string \<Rightarrow> 'w persister option \<Rightarrow> 'w
   \<Rightarrow> (pos_error + unit) \<times> Position \<times> 'w" where
  "TransitionTo p to now reason actor persister w =
     (case transition_begin p to now reason actor of
        Inl e \<Rightarrow> (Inl e, p, w)
      | Inr (p1, t) \<Rightarrow>
          (case persister of
             None \<Rightarrow> (Inr (), transition_commit p1, w)
           | Some onTransition \<Rightarrow>
               (case onTransition p1 t w of
                  (Some e, w') \<Rightarrow> (Inl (ErrPersistFailed e), transition_rollback (tr_From t) now p1, w')
                | (None, w') \<Rightarrow> (Inr (), transition_commit p1, w'))))"

definition SetQuantities :: "Position \<Rightarrow> decimal \<Rightarrow> decimal \<Rightarrow> time \<Rightarrow> pos_error + Position" where
  "SetQuantities p long short now =
     (if PState_IsTerminal (pos_State p) then Inl ErrPositionTerminalMutation
      else Inr (p\<lparr>pos_LongBaseQty := long, pos_ShortBaseQty := short, pos_UpdatedAt := now\<rparr>))"

definition DeltaBase :: "Position \<Rightarrow> decimal" where
  "DeltaBase p = pos_LongBaseQty p - \<bar>pos_ShortBaseQty p\<bar>"

definition AddRealisedPnL :: "Position \<Rightarrow> decimal \<Rightarrow> time \<Rightarrow> pos_error + Position" where
  "AddRealisedPnL p amount now =
     (if PState_IsTerminal (pos_State p) then Inl ErrPositionTerminalMutation
      else Inr (p\<lparr>pos_RealisedPnL := pos_RealisedPnL p + amount, pos_UpdatedAt := now\<rparr>))"

definition AddFundingPnL :: "Position \<Rightarrow> decimal \<Rightarrow> time \<Rightarrow> pos_error + Position" where
  "AddFundingPnL p amount now =
     (if PState_IsTerminal (pos_State p) then Inl ErrPositionTerminalMutation
      else Inr (p\<lparr>pos_FundingPnL := pos_FundingPnL p + amount, pos_UpdatedAt := now\<rparr>))"

record PosSnapshot =
  ps_ID :: PositionID
  ps_Asset :: AssetSymbol
  ps_LongExchange :: ExchangeID
  ps_ShortExchange :: ExchangeID
  ps_State :: PState
  ps_TargetBaseQty :: decimal
  ps_LongBaseQty :: decimal
  ps_ShortBaseQty :: decimal
  ps_RealisedPnL :: decimal
  ps_FundingPnL :: decimal
  ps_FeesPaid :: decimal
  ps_DeltaBase :: decimal
  ps_CreatedAt :: time
  ps_UpdatedAt :: time

definition Position_Snapshot :: "Position \<Rightarrow> PosSnapshot" where
  "Position_Snapshot p =
     \<lparr>ps_ID = pos_ID p, ps_Asset = pos_Asset p, ps_LongExchange = pos_LongExchange p,
      ps_ShortExchange = pos_ShortExchange p, ps_State = pos_State p,
      ps_TargetBaseQty = pos_TargetBaseQty p, ps_LongBaseQty = pos_LongBaseQty p,
      ps_ShortBaseQty = pos_ShortBaseQty p, ps_RealisedPnL = pos_RealisedPnL p,
      ps_FundingPnL = pos_FundingPnL p, ps_FeesPaid = pos_FeesPaid p,
      ps_DeltaBase = pos_LongBaseQty p - \<bar>pos_ShortBaseQty p\<bar>,
      ps_CreatedAt = pos_CreatedAt p, ps_UpdatedAt = pos_UpdatedAt p\<rparr>"

definition HistoryCopy :: "Position \<Rightarrow> Transition list" where
  "HistoryCopy p = pos_History p"

section \<open>Restoring from storage\<close>

record RestoreArgs =
  ra_ID :: PositionID
  ra_Asset :: AssetSymbol
  ra_LongExchange :: ExchangeID
  ra_ShortExchange :: ExchangeID
  ra_State :: PState
  ra_TargetBaseQty :: decimal
  ra_ActualDelta :: decimal
  ra_RealisedPnL :: decimal
  ra_FundingPnL :: decimal
  ra_FeesPaid :: decimal
  ra_EntryReason :: string
  ra_ExitReason :: string
  ra_ExitedAt :: "time option"
  ra_CreatedAt :: time
  ra_UpdatedAt :: time

definition RestorePosition :: "RestoreArgs \<Rightarrow> Position" where
  "RestorePosition a =
     \<lparr>pos_ID = ra_ID a, pos_Asset = ra_Asset a, pos_LongExchange = ra_LongExchange a,
      pos_ShortExchange = ra_ShortExchange a, pos_State = ra_State a,
      pos_EntryReason = ra_EntryReason a, pos_TargetBaseQty = ra_TargetBaseQty a,
      pos_LongBaseQty = ra_ActualDelta a, pos_ShortBaseQty = Dec_Zero,
      pos_RealisedPnL = ra_RealisedPnL a, pos_FundingPnL = ra_FundingPnL a,
      pos_FeesPaid = ra_FeesPaid a, pos_CreatedAt = ra_CreatedAt a, pos_UpdatedAt = ra_UpdatedAt a,
      pos_ExitReason = ra_ExitReason a, pos_ExitedAt = ra_ExitedAt a, pos_History = [],
      pos_persisting = False\<rparr>"

section \<open>The table\<close>

lemma CanTransition_final: "PState_IsTerminal s \<Longrightarrow> \<not> CanTransition s t"
  by (auto simp: PState_IsTerminal_def CanTransition_def)

interpretation pfsm: fsm CanTransition PState_IsTerminal
  by unfold_locales (rule CanTransition_final)

definition trail :: "Position \<Rightarrow> (PState \<times> PState) list" where
  "trail p = map (\<lambda>t. (tr_From t, tr_To t)) (pos_History p)"

lemma CanTransition_simps [simp]:
  "CanTransition StateDiscovered t \<longleftrightarrow> t \<in> {StateQualified, StateFailed}"
  "CanTransition StateQualified t \<longleftrightarrow> t \<in> {StateAwaitingApproval, StatePreparing, StateFailed}"
  "CanTransition StateAwaitingApproval t \<longleftrightarrow> t \<in> {StatePreparing, StateDiscovered, StateFailed}"
  "CanTransition StatePreparing t \<longleftrightarrow> t \<in> {StateOpening, StateFailed, StateDiscovered}"
  "CanTransition StateOpening t \<longleftrightarrow> t \<in> {StatePartiallyHedged, StateHedged, StateDegraded, StateFailed}"
  "CanTransition StatePartiallyHedged t \<longleftrightarrow> t \<in> {StateHedged, StateDegraded, StateExitRequested, StateFailed}"
  "CanTransition StateHedged t \<longleftrightarrow> t \<in> {StateMonitoring, StateExitRequested}"
  "CanTransition StateMonitoring t \<longleftrightarrow> t \<in> {StateExitRequested, StateDegraded, StateReconciling}"
  "CanTransition StateExitRequested t \<longleftrightarrow> t \<in> {StateExiting, StateDegraded}"
  "CanTransition StateExiting t \<longleftrightarrow> t \<in> {StateReconciling, StateDegraded, StateFailed}"
  "CanTransition StateReconciling t \<longleftrightarrow> t \<in> {StateClosed, StateDegraded, StateFailed}"
  "CanTransition StateDegraded t \<longleftrightarrow> t \<in> {StateExitRequested, StateReconciling, StateFailed, StateClosed}"
  "\<not> CanTransition StateClosed t" "\<not> CanTransition StateFailed t" "\<not> CanTransition (PStateOther s) t"
  by (auto simp: CanTransition_def)

section \<open>One transition\<close>

text \<open>
  C6: a transition succeeds exactly when the position is not final, no other
  transition is being persisted, the table allows it and the persister accepts it; it then moves to
  the target and appends one history entry.  Otherwise, persister failures included, the position
  keeps its state, history, quantities and money, and is open for the next transition unless
  another one was under way.
\<close>

theorem transition_all_or_nothing:
  "case TransitionTo p to now reason actor (Some f) w of (r, p', w') \<Rightarrow>
     (r = Inr () \<longleftrightarrow> \<not> PState_IsTerminal (pos_State p) \<and> \<not> pos_persisting p \<and> CanTransition (pos_State p) to
        \<and> (\<exists>t. transition_begin p to now reason actor = Inr t \<and> fst (f (fst t) (snd t) w) = None))
   \<and> (r = Inr () \<longrightarrow> pos_State p' = to \<and> pos_UpdatedAt p' = now
        \<and> trail p' = trail p @ [(pos_State p, to)] \<and> \<not> pos_persisting p')
   \<and> (r \<noteq> Inr () \<longrightarrow> p' = p\<lparr>pos_UpdatedAt := pos_UpdatedAt p'\<rparr>)"
  by (auto simp: TransitionTo_def transition_begin_def transition_commit_def transition_rollback_def
      trail_def Let_def split: sum.splits prod.splits option.splits if_splits)

theorem transition_all_or_nothing_witness:
  "case TransitionTo (NewPosition ''p1'' ''BTC'' ExchangeBinance ExchangeBybit 7) StateQualified 9
      ''signal'' ''engine'' (Some (\<lambda>p t n. (None, n + 1))) (0::nat) of (r, p', w') \<Rightarrow>
     r = Inr () \<and> pos_State p' = StateQualified \<and> w' = 1
     \<and> trail p' = [(StateDiscovered, StateQualified)]"
  using transition_all_or_nothing [of "NewPosition ''p1'' ''BTC'' ExchangeBinance ExchangeBybit 7"
      StateQualified 9 "''signal''" "''engine''" "\<lambda>p t n. (None, n + 1)" "0::nat"]
  by (auto simp: TransitionTo_def NewPosition_def transition_begin_def PState_IsTerminal_def
      transition_commit_def trail_def Let_def)

text \<open>Without a persister only the guards decide.\<close>

lemma TransitionTo_None:
  "fst (TransitionTo p to now reason actor None w) = Inr () \<longleftrightarrow>
     \<not> PState_IsTerminal (pos_State p) \<and> \<not> pos_persisting p \<and> CanTransition (pos_State p) to"
  by (auto simp: TransitionTo_def transition_begin_def Let_def)

section \<open>Interleaved operations\<close>

text \<open>
  The goroutines whose persister is running, each with the state it came from and its \<open>now\<close>, beside
  the position they share.
\<close>

type_synonym pos_conf = "Position \<times> (PState \<times> time) list"

inductive pos_step :: "pos_conf \<Rightarrow> pos_conf \<Rightarrow> bool" where
  begin_tr: "transition_begin p to now reason actor = Inr (p', t) \<Longrightarrow>
      pos_step (p, pend) (p', (tr_From t, now) # pend)"
| commit_tr: "pend = xs @ (fr, now) # ys \<Longrightarrow> pos_step (p, pend) (transition_commit p, xs @ ys)"
| rollback_tr: "pend = xs @ (fr, now) # ys \<Longrightarrow> pos_step (p, pend) (transition_rollback fr now p, xs @ ys)"
| set_quantities: "SetQuantities p long short now = Inr p' \<Longrightarrow> pos_step (p, pend) (p', pend)"
| add_realised: "AddRealisedPnL p amount now = Inr p' \<Longrightarrow> pos_step (p, pend) (p', pend)"
| add_funding: "AddFundingPnL p amount now = Inr p' \<Longrightarrow> pos_step (p, pend) (p', pend)"

inductive_cases pos_stepE: "pos_step (p, pend) st"

definition pos_inv :: "PState \<Rightarrow> pos_conf \<Rightarrow> bool" where
  "pos_inv s0 st \<longleftrightarrow> (case st of (p, pend) \<Rightarrow>
     path CanTransition s0 (trail p) (pos_State p)
     \<and> (if pos_persisting p
        then (\<exists>fr now. pend = [(fr, now)] \<and> pos_History p \<noteq> []
               \<and> last (trail p) = (fr, pos_State p) \<and> path CanTransition s0 (butlast (trail p)) fr)
        else pend = []))"

lemma trail_rollback: "trail (transition_rollback fr now p) = butlast (trail p)"
  by (simp add: trail_def transition_rollback_def map_butlast)

lemma pos_inv_begin:
  assumes "pos_inv s0 (p, pend)" and "transition_begin p to now reason actor = Inr (p', t)"
  shows "pos_inv s0 (p', (tr_From t, now) # pend)"
  using assms
  by (auto simp: pos_inv_def transition_begin_def Let_def trail_def split: if_splits)

lemma pos_inv_finish:
  assumes "pos_inv s0 (p, xs @ (fr, now) # ys)"
  shows "pos_inv s0 (transition_commit p, xs @ ys)"
    and "pos_inv s0 (transition_rollback fr now p, xs @ ys)"
proof -
  have *: "pos_persisting p" "xs = []" "ys = []" "path CanTransition s0 (trail p) (pos_State p)"
      "path CanTransition s0 (butlast (trail p)) fr"
    using assms by (auto simp: pos_inv_def append_eq_Cons_conv split: if_splits)
  show "pos_inv s0 (transition_commit p, xs @ ys)"
    using * by (simp add: pos_inv_def transition_commit_def trail_def)
  show "pos_inv s0 (transition_rollback fr now p, xs @ ys)"
    using * trail_rollback [of fr now p]
    by (simp add: pos_inv_def) (simp add: transition_rollback_def)
qed

lemma pos_inv_mutate:
  assumes "pos_inv s0 (p, pend)" and "pos_State p' = pos_State p" "pos_History p' = pos_History p"
    "pos_persisting p' = pos_persisting p"
  shows "pos_inv s0 (p', pend)"
proof -
  have "trail p' = trail p" using assms(3) by (simp add: trail_def)
  then show ?thesis using assms by (auto simp: pos_inv_def split: if_splits)
qed

lemma pos_inv_step:
  assumes "pos_step st st'" and "pos_inv s0 st"
  shows "pos_inv s0 st'"
  using assms
proof (induction rule: pos_step.induct)
  case (begin_tr p to now reason actor p' t pend)
  then show ?case using pos_inv_begin by blast
next
  case (commit_tr pend xs fr now ys p)
  then show ?case using pos_inv_finish(1) by blast
next
  case (rollback_tr pend xs fr now ys p)
  then show ?case using pos_inv_finish(2) by blast
qed (auto intro: pos_inv_mutate simp: SetQuantities_def AddRealisedPnL_def AddFundingPnL_def split: if_splits)

lemma pos_inv_new: "pos_inv StateDiscovered (NewPosition i a l s now, [])"
  by (simp add: pos_inv_def NewPosition_def trail_def)

lemma pos_inv_reach:
  assumes "pos_step\<^sup>*\<^sup>* (NewPosition i a l s now, []) st"
  shows "pos_inv StateDiscovered st"
  using assms by (induction rule: rtranclp_induct) (auto intro: pos_inv_new pos_inv_step)

text \<open>
  C5: however transitions, persister answers, quantity and profit updates
  of several goroutines interleave, at most one transition is being persisted, the history always is a path of the
  transition table from DISCOVERED to the current state, and while a transition is being persisted the
  history without its last entry is a path to the state it would be rolled back to.
\<close>

theorem position_history_interleaved:
  assumes "pos_step\<^sup>*\<^sup>* (NewPosition i a l s now0, []) (p, pend)"
  shows "path CanTransition StateDiscovered (trail p) (pos_State p)
     \<and> (pos_persisting p \<longleftrightarrow> pend \<noteq> []) \<and> length pend \<le> 1
     \<and> (\<forall>(fr, now) \<in> set pend. path CanTransition StateDiscovered (butlast (trail p)) fr
          \<and> trail p = butlast (trail p) @ [(fr, pos_State p)])"
proof -
  have inv: "pos_inv StateDiscovered (p, pend)" by (rule pos_inv_reach [OF assms])
  have "trail p = butlast (trail p) @ [(fr, pos_State p)]"
    if "last (trail p) = (fr, pos_State p)" "pos_History p \<noteq> []" for fr
    using that append_butlast_last_id [of "trail p"] by (simp add: trail_def)
  then show ?thesis using inv by (auto simp: pos_inv_def split: if_splits)
qed

theorem position_history_interleaved_witness:
  "\<exists>p. pos_step\<^sup>*\<^sup>* (NewPosition ''p1'' ''BTC'' ExchangeOKX ExchangeBybit 0, []) (p, [])
     \<and> path CanTransition StateDiscovered (trail p) StateQualified"
proof -
  let ?p0 = "NewPosition ''p1'' ''BTC'' ExchangeOKX ExchangeBybit 0"
  let ?t = "\<lparr>tr_From = StateDiscovered, tr_To = StateQualified, tr_At = 1, tr_Reason = ''ok'', tr_Actor = ''user''\<rparr>"
  define p1 where "p1 = ?p0\<lparr>pos_persisting := True, pos_State := StateQualified, pos_UpdatedAt := 1,
      pos_History := [?t]\<rparr>"
  have q: "pos_State p1 = StateQualified" by (simp add: p1_def)
  have b: "transition_begin ?p0 StateQualified 1 ''ok'' ''user'' = Inr (p1, ?t)"
    by (simp add: transition_begin_def NewPosition_def PState_IsTerminal_def p1_def Let_def)
  have "pos_step\<^sup>*\<^sup>* (?p0, []) (p1, [(StateDiscovered, 1)])" using pos_step.begin_tr [OF b, of "[]"] by auto
  moreover have "pos_step (p1, [(StateDiscovered, 1)]) (transition_commit p1, [])"
    using pos_step.commit_tr [of "[(StateDiscovered, 1)]" "[]" StateDiscovered 1 "[]"] by simp
  ultimately have r: "pos_step\<^sup>*\<^sup>* (?p0, []) (transition_commit p1, [])" by simp
  show ?thesis
    using position_history_interleaved [OF r] r q by (auto simp: transition_commit_def)
qed

text \<open>
  a position that is CLOSED has been through OPENING, and has been
  reconciled or degraded before it was closed; and once it is final with no transition pending, no
  operation of any goroutine changes it again.
\<close>

theorem closed_only_after_opening:
  assumes "pos_step\<^sup>*\<^sup>* (NewPosition i a l s now0, []) (p, pend)"
  shows "(pos_State p = StateClosed \<longrightarrow>
       (\<exists>t \<in> set (pos_History p). tr_To t = StateOpening)
     \<and> (\<exists>t \<in> set (pos_History p). tr_To t \<in> {StateReconciling, StateDegraded}))
     \<and> (PState_IsTerminal (pos_State p) \<and> pend = [] \<longrightarrow> (\<forall>st. \<not> pos_step (p, pend) st))"
proof -
  have path: "path CanTransition StateDiscovered (trail p) (pos_State p)"
    using pos_inv_reach [OF assms] by (simp add: pos_inv_def)
  have "\<exists>t \<in> set (pos_History p). tr_To t = StateOpening" if c: "pos_State p = StateClosed"
  proof -
    have "\<exists>(a, b) \<in> set (trail p). b \<in> {StateOpening}"
      by (rule pfsm.must_pass [OF path, of "{StateDiscovered, StateQualified, StateAwaitingApproval,
        StatePreparing, StateFailed}"]) (use c in auto)
    then show ?thesis by (auto simp: trail_def)
  qed
  moreover have "\<exists>t \<in> set (pos_History p). tr_To t \<in> {StateReconciling, StateDegraded}"
    if c: "pos_State p = StateClosed"
  proof -
    have "\<exists>(a, b) \<in> set (trail p). b \<in> {StateReconciling, StateDegraded}"
    proof (rule pfsm.must_pass [OF path, of "- {StateClosed, StateReconciling, StateDegraded}"])
      fix a b assume "a \<in> - {StateClosed, StateReconciling, StateDegraded}" "CanTransition a b"
      then show "b \<in> - {StateClosed, StateReconciling, StateDegraded} \<or> b \<in> {StateReconciling, StateDegraded}"
        by (cases a) auto
    qed (use c in auto)
    then show ?thesis by (auto simp: trail_def)
  qed
  moreover have "\<not> pos_step (p, []) st" if "PState_IsTerminal (pos_State p)" for st
    using that by (auto elim!: pos_stepE simp: transition_begin_def SetQuantities_def
        AddRealisedPnL_def AddFundingPnL_def)
  ultimately show ?thesis by blast
qed

text \<open>A run of operations to CLOSED, each transition committed at once.\<close>

fun run_transitions :: "PState list \<Rightarrow> Position \<Rightarrow> Position" where
  "run_transitions [] p = p"
| "run_transitions (s # ss) p =
     (case transition_begin p s 1 [] [] of
        Inl e \<Rightarrow> run_transitions ss p
      | Inr (p1, t) \<Rightarrow> run_transitions ss (transition_commit p1))"

lemma run_transitions_reach:
  "pos_step\<^sup>*\<^sup>* (p, []) (run_transitions ss p, [])"
proof (induction ss arbitrary: p)
  case (Cons s ss)
  show ?case
  proof (cases "transition_begin p s 1 [] []")
    case (Inl e)
    then show ?thesis using Cons by simp
  next
    case (Inr r)
    obtain p1 t where r: "transition_begin p s 1 [] [] = Inr (p1, t)" using Inr by (cases r) auto
    have "pos_step (p, []) (p1, [(tr_From t, 1)])" using pos_step.begin_tr [OF r, of "[]"] by simp
    moreover have "pos_step (p1, [(tr_From t, 1)]) (transition_commit p1, [])"
      using pos_step.commit_tr [of "[(tr_From t, 1)]" "[]" "tr_From t" 1 "[]"] by simp
    ultimately have "pos_step\<^sup>*\<^sup>* (p, []) (transition_commit p1, [])" by auto
    then show ?thesis using Cons [of "transition_commit p1"] r by (auto intro: rtranclp_trans)
  qed
qed simp

theorem closed_only_after_opening_witness:
  "\<exists>p. pos_step\<^sup>*\<^sup>* (NewPosition ''p1'' ''BTC'' ExchangeOKX ExchangeBybit 0, []) (p, [])
     \<and> pos_State p = StateClosed \<and> (\<exists>t \<in> set (pos_History p). tr_To t = StateOpening)
     \<and> (\<forall>st. \<not> pos_step (p, []) st)"
proof -
  let ?p0 = "NewPosition ''p1'' ''BTC'' ExchangeOKX ExchangeBybit 0"
  define p where "p = run_transitions [StateQualified, StatePreparing, StateOpening, StateHedged,
      StateMonitoring, StateExitRequested, StateExiting, StateReconciling, StateClosed] ?p0"
  have r: "pos_step\<^sup>*\<^sup>* (?p0, []) (p, [])" unfolding p_def by (rule run_transitions_reach)
  have c: "pos_State p = StateClosed"
    by (simp add: p_def NewPosition_def transition_begin_def transition_commit_def Let_def
        PState_IsTerminal_def)
  show ?thesis
    using closed_only_after_opening [OF r] r c by (auto simp: PState_IsTerminal_def)
qed

section \<open>Restore\<close>

lemma restore_keeps_delta: "DeltaBase (RestorePosition a) = ra_ActualDelta a"
  by (simp add: DeltaBase_def RestorePosition_def)

end
