(* ===== verification/ClientOrderId.thy ===== *)
theory ClientOrderId
  imports Domain
begin

text \<open>
  Package \<open>internal/execution\<close>, \<open>client_order_id.go\<close>: the deterministic identifiers of orders.
  Strings are ASCII: a byte outside A-Z, a-z, 0-9 and the hyphen is dropped by the sanitiser.
  \<open>fmt.Sscanf(s, "%d", &n)\<close> skips blanks, reads an optional sign and at least one digit, ignores
  what follows, and fails beyond 64 bits.
\<close>

definition MaxLength :: nat where "MaxLength = 32"

type_synonym Purpose = string

definition PurposeEntry :: Purpose where "PurposeEntry = ''ENTRY''"
definition PurposeExit :: Purpose where "PurposeExit = ''EXIT''"
definition PurposeRepair :: Purpose where "PurposeRepair = ''REPAIR''"
definition PurposeEmergency :: Purpose where "PurposeEmergency = ''EMERGENCY''"

lemmas purpose_defs = PurposeEntry_def PurposeExit_def PurposeRepair_def PurposeEmergency_def

record ClientOrderIDParts =
  cp_PositionID :: PositionID
  cp_LegSide :: Side
  cp_SliceIndex :: int
  cp_Nonce :: int
  cp_Purpose :: Purpose

definition is_upper :: "char \<Rightarrow> bool" where
  "is_upper c \<longleftrightarrow> of_char c \<ge> (65::nat) \<and> of_char c \<le> (90::nat)"

definition is_lower :: "char \<Rightarrow> bool" where
  "is_lower c \<longleftrightarrow> of_char c \<ge> (97::nat) \<and> of_char c \<le> (122::nat)"

definition component_char :: "char \<Rightarrow> bool" where
  "component_char c \<longleftrightarrow> is_upper c \<or> is_digit c \<or> c = CHR ''-''"

definition sanitizeComponent :: "string \<Rightarrow> string" where
  "sanitizeComponent s = filter component_char (to_upper s)"

definition leg_name :: "Side \<Rightarrow> string" where
  "leg_name side = (if side = SideShort then ''SHORT'' else ''LONG'')"

definition format_suffix :: "ClientOrderIDParts \<Rightarrow> string" where
  "format_suffix parts = ''_'' @ leg_name (cp_LegSide parts) @ ''_'' @ format_int (cp_SliceIndex parts)
     @ ''_'' @ format_int (cp_Nonce parts)"

definition Format :: "ClientOrderIDParts \<Rightarrow> ClientOrderID" where
  "Format parts =
     (let p0 = sanitizeComponent (cp_Purpose parts);
          purpose = (if p0 = [] then PurposeEntry else p0);
          pos0 = sanitizeComponent (cp_PositionID parts);
          suffix = format_suffix parts;
          m0 = int MaxLength - int (length purpose) - 1 - int (length suffix);
          maxPosLen = (if m0 < 0 then 0 else m0);
          posID = (if int (length pos0) > maxPosLen then drop (length pos0 - nat maxPosLen) pos0 else pos0)
      in purpose @ ''_'' @ posID @ suffix)"

text \<open>\<open>fmt.Sscanf(s, "%d", &n)\<close>.\<close>

definition scan_blank :: "char \<Rightarrow> bool" where
  "scan_blank c \<longleftrightarrow> of_char c \<in> {9, 11, 12, 13, 32 :: nat}"

definition scan_digits :: "string \<Rightarrow> int option" where
  "scan_digits s = (let ds = takeWhile is_digit s in if ds = [] then None else Some (int (read_uint ds)))"

definition Sscanf_d :: "string \<Rightarrow> int option" where
  "Sscanf_d s0 =
     (let s = dropWhile scan_blank s0;
          v = (case s of
                 [] \<Rightarrow> None
               | c # cs \<Rightarrow>
                   if c = CHR ''-'' then map_option uminus (scan_digits cs)
                   else if c = CHR ''+'' then scan_digits cs
                   else scan_digits s)
      in case v of None \<Rightarrow> None | Some n \<Rightarrow> if in_i64 n then Some n else None)"

definition Parse :: "ClientOrderID \<Rightarrow> ClientOrderIDParts option" where
  "Parse s =
     (case split_on (CHR ''_'') s of
        [purpose, posID, leg, sliceStr, nonceStr] \<Rightarrow>
          do { side \<leftarrow> (if leg = ''LONG'' then Some SideLong else if leg = ''SHORT'' then Some SideShort else None);
               slice \<leftarrow> Sscanf_d sliceStr;
               nonce \<leftarrow> Sscanf_d nonceStr;
               Some \<lparr>cp_PositionID = posID, cp_LegSide = side, cp_SliceIndex = slice, cp_Nonce = nonce,
                     cp_Purpose = purpose\<rparr> }
      | _ \<Rightarrow> None)"

definition Validate :: "ClientOrderID \<Rightarrow> bool" where
  "Validate s \<longleftrightarrow> s \<noteq> [] \<and> length s \<le> MaxLength
     \<and> list_all (\<lambda>c. is_upper c \<or> is_digit c \<or> c = CHR ''-'' \<or> c = CHR ''_'') s"

definition ValidateForExchange :: "ExchangeID \<Rightarrow> ClientOrderID \<Rightarrow> bool" where
  "ValidateForExchange ex s =
     (if s = [] then False
      else if ex = ExchangeBinance then
        length s \<le> 36
        \<and> list_all (\<lambda>c. is_upper c \<or> is_lower c \<or> is_digit c \<or> c \<in> set ''._:/-'') s
      else if ex = ExchangeBybit then
        length s \<le> 36
        \<and> list_all (\<lambda>c. is_upper c \<or> is_lower c \<or> is_digit c \<or> c = CHR ''_'' \<or> c = CHR ''-'') s
      else
        length s \<le> MaxLength
        \<and> list_all (\<lambda>c. is_upper c \<or> is_digit c \<or> c = CHR ''_'' \<or> c = CHR ''-'') s)"

text \<open>\<open>EnsureValid\<close> panics on an invalid identifier.\<close>

definition EnsureValid :: "ClientOrderID \<Rightarrow> unit option" where
  "EnsureValid s = (if \<not> Validate s then None else Some ())"

section \<open>Components\<close>

lemma component_char_not_sep: "component_char c \<Longrightarrow> c \<noteq> CHR ''_''"
  by (auto simp: component_char_def is_upper_def is_digit_def)

lemma sanitize_chars: "c \<in> set (sanitizeComponent s) \<Longrightarrow> component_char c"
  by (simp add: sanitizeComponent_def)

lemma format_int_chars: "c \<in> set (format_int i) \<Longrightarrow> is_digit c \<or> c = CHR ''-''"
  using format_uint_digits by (auto simp: format_int_def split: if_splits)

lemma format_int_no_sep: "CHR ''_'' \<notin> set (format_int i)"
  using format_int_chars [of "CHR ''_''" i] by auto

lemma digit_not_blank: "is_digit c \<Longrightarrow> \<not> scan_blank c"
  by (auto simp: is_digit_def scan_blank_def)

lemma scan_digits_format [simp]: "scan_digits (format_uint n) = Some (int n)"
proof -
  have "takeWhile is_digit (format_uint n) = format_uint n"
    using format_uint_digits by (simp add: takeWhile_eq_all_conv)
  then show ?thesis unfolding scan_digits_def by (simp add: Let_def del: takeWhile_eq_all_conv)
qed

lemma Sscanf_format [simp]:
  assumes "in_i64 i"
  shows "Sscanf_d (format_int i) = Some i"
proof (cases "i < 0")
  case True
  have "\<not> scan_blank (CHR ''-'')" by (simp add: scan_blank_def)
  then show ?thesis using True assms by (simp add: Sscanf_d_def format_int_def)
next
  case False
  obtain c cs where f: "format_uint (nat i) = c # cs" by (cases "format_uint (nat i)") auto
  then have "is_digit c" using format_uint_digits [of c "nat i"] by simp
  then have "\<not> scan_blank c" "c \<noteq> CHR ''-''" "c \<noteq> CHR ''+''"
    using digit_not_blank by (auto simp: is_digit_def)
  moreover have "scan_digits (c # cs) = Some i" using f False scan_digits_format [of "nat i"] by simp
  ultimately show ?thesis using False assms f by (simp add: Sscanf_d_def format_int_def)
qed

text \<open>The position part that fits, the tail of the sanitised identifier.\<close>

definition fitted_position :: "ClientOrderIDParts \<Rightarrow> string" where
  "fitted_position parts =
     (let pos = sanitizeComponent (cp_PositionID parts);
          room = nat (int MaxLength - int (length (if sanitizeComponent (cp_Purpose parts) = [] then PurposeEntry
                    else sanitizeComponent (cp_Purpose parts))) - 1 - int (length (format_suffix parts)))
      in drop (length pos - room) pos)"

definition fitted_purpose :: "ClientOrderIDParts \<Rightarrow> string" where
  "fitted_purpose parts =
     (if sanitizeComponent (cp_Purpose parts) = [] then PurposeEntry else sanitizeComponent (cp_Purpose parts))"

lemma Format_shape:
  "Format parts = fitted_purpose parts @ ''_'' @ fitted_position parts @ format_suffix parts"
  by (auto simp: Format_def Let_def fitted_position_def fitted_purpose_def)

lemma fitted_chars:
  "c \<in> set (fitted_purpose parts) \<Longrightarrow> component_char c"
  "c \<in> set (fitted_position parts) \<Longrightarrow> component_char c"
  using sanitize_chars
  by (auto simp: fitted_purpose_def fitted_position_def Let_def PurposeEntry_def component_char_def is_upper_def
      dest!: in_set_dropD split: if_splits)

lemma fitted_no_sep: "CHR ''_'' \<notin> set (fitted_purpose parts)" "CHR ''_'' \<notin> set (fitted_position parts)"
  using fitted_chars component_char_not_sep by blast+

text \<open>
  C9: parsing a formatted identifier returns the leg, the slice and the nonce
  exactly, the sanitised purpose (ENTRY when that is empty) and the tail of the sanitised position
  identifier that fits, for every 64-bit slice and nonce.
\<close>

theorem client_order_id_roundtrip:
  assumes "in_i64 (cp_SliceIndex parts)" and "in_i64 (cp_Nonce parts)"
  shows "Parse (Format parts) = Some \<lparr>
     cp_PositionID = fitted_position parts,
     cp_LegSide = (if cp_LegSide parts = SideShort then SideShort else SideLong),
     cp_SliceIndex = cp_SliceIndex parts, cp_Nonce = cp_Nonce parts, cp_Purpose = fitted_purpose parts\<rparr>"
proof -
  have leg: "CHR ''_'' \<notin> set (leg_name (cp_LegSide parts))" by (simp add: leg_name_def)
  have "split_on (CHR ''_'') (Format parts)
      = [fitted_purpose parts, fitted_position parts, leg_name (cp_LegSide parts),
         format_int (cp_SliceIndex parts), format_int (cp_Nonce parts)]"
    using fitted_no_sep [of parts] leg format_int_no_sep
    by (simp add: Format_shape format_suffix_def)
  then show ?thesis using assms by (simp add: Parse_def leg_name_def)
qed

definition example_parts :: ClientOrderIDParts where
  "example_parts = \<lparr>cp_PositionID = ''pos-abc'', cp_LegSide = SideShort, cp_SliceIndex = 2,
     cp_Nonce = 0, cp_Purpose = PurposeExit\<rparr>"

theorem client_order_id_roundtrip_witness:
  "Format example_parts = ''EXIT_POS-ABC_SHORT_2_0'' \<and> Parse (Format example_parts)
     = Some (example_parts\<lparr>cp_PositionID := ''POS-ABC''\<rparr>)"
proof -
  have "Format example_parts = ''EXIT_POS-ABC_SHORT_2_0''" by code_simp
  moreover have "fitted_position example_parts = ''POS-ABC''" "fitted_purpose example_parts = ''EXIT''"
    by code_simp+
  ultimately show ?thesis
    using client_order_id_roundtrip [of example_parts]
    by (simp add: example_parts_def in_i64_def int64_min_def int64_max_def purpose_defs)
qed

lemma format_int_length: "0 \<le> i \<Longrightarrow> i < 10 ^ k \<Longrightarrow> 0 < k \<Longrightarrow> length (format_int i) \<le> k"
  using format_uint_length [of "nat i" k] by (simp add: format_int_def nat_less_iff)

lemma Format_length:
  assumes "length (fitted_purpose parts) + 1 + length (format_suffix parts) \<le> MaxLength"
  shows "length (Format parts) \<le> MaxLength"
  using assms by (simp add: Format_shape fitted_position_def fitted_purpose_def Let_def)

text \<open>
  for the four purposes of the code and slice and nonce indices below ten
  million the identifier is accepted by the internal check and by every exchange's length and
  alphabet, whatever the position identifier; so \<open>EnsureValid\<close> does not panic.
\<close>

theorem client_order_id_valid:
  assumes "cp_Purpose parts \<in> {PurposeEntry, PurposeExit, PurposeRepair, PurposeEmergency}"
    and "0 \<le> cp_SliceIndex parts" "cp_SliceIndex parts < 10 ^ 7"
    and "0 \<le> cp_Nonce parts" "cp_Nonce parts < 10 ^ 7"
  shows "Validate (Format parts) \<and> ValidateForExchange ex (Format parts)
     \<and> EnsureValid (Format parts) = Some ()"
proof -
  have pl: "length (fitted_purpose parts) \<le> 9"
    using assms(1) by (auto simp: fitted_purpose_def purpose_defs sanitizeComponent_def to_upper_def
        intro: order.trans [OF length_filter_le])
  have "length (leg_name (cp_LegSide parts)) \<le> 5" by (simp add: leg_name_def)
  then have "length (format_suffix parts) \<le> 22"
    using format_int_length [OF assms(2,3)] format_int_length [OF assms(4,5)]
    by (simp add: format_suffix_def)
  then have len: "length (Format parts) \<le> 32"
    using pl Format_length [of parts] by (simp add: MaxLength_def)
  have "set (Format parts) \<subseteq> {c. is_upper c \<or> is_digit c \<or> c = CHR ''-'' \<or> c = CHR ''_''}"
    using fitted_chars [of _ parts] format_int_chars
    by (auto simp: Format_shape format_suffix_def leg_name_def component_char_def is_upper_def)
  then have chars: "\<forall>c \<in> set (Format parts). is_upper c \<or> is_digit c \<or> c = CHR ''-'' \<or> c = CHR ''_''" by blast
  have ne: "Format parts \<noteq> []" by (simp add: Format_shape)
  have "Validate (Format parts)"
    using len chars ne by (simp add: Validate_def MaxLength_def list_all_iff)
  moreover have "ValidateForExchange ex (Format parts)"
    using len chars ne by (fastforce simp: ValidateForExchange_def MaxLength_def list_all_iff)
  ultimately show ?thesis by (simp add: EnsureValid_def)
qed

theorem client_order_id_valid_witness:
  "ValidateForExchange ExchangeBybit (Format example_parts)"
  using client_order_id_valid [of example_parts ExchangeBybit] by (simp add: example_parts_def)

text \<open>Different orders of one plan get different identifiers.\<close>

lemma Format_inj:
  assumes "Format p = Format q" and "in_i64 (cp_SliceIndex p)" "in_i64 (cp_Nonce p)"
    "in_i64 (cp_SliceIndex q)" "in_i64 (cp_Nonce q)"
  shows "cp_SliceIndex p = cp_SliceIndex q \<and> cp_Nonce p = cp_Nonce q
     \<and> (cp_LegSide p = SideShort \<longleftrightarrow> cp_LegSide q = SideShort)
     \<and> fitted_purpose p = fitted_purpose q \<and> fitted_position p = fitted_position q"
proof -
  have r: "split_on (CHR ''_'') (Format x) = [fitted_purpose x, fitted_position x, leg_name (cp_LegSide x),
         format_int (cp_SliceIndex x), format_int (cp_Nonce x)]" for x
    using fitted_no_sep [of x] format_int_no_sep by (simp add: Format_shape format_suffix_def leg_name_def)
  have "format_int (cp_SliceIndex p) = format_int (cp_SliceIndex q)"
    "format_int (cp_Nonce p) = format_int (cp_Nonce q)"
    using r [of p] r [of q] assms(1) by simp_all
  then have "Some (cp_SliceIndex p) = Some (cp_SliceIndex q)" "Some (cp_Nonce p) = Some (cp_Nonce q)"
    using Sscanf_format assms(2-5) by metis+
  then show ?thesis using r [of p] r [of q] assms(1) by (simp add: leg_name_def split: if_splits)
qed

end
