(* ===== verification/Adapter.thy ===== *)
theory Adapter
  imports Domain
begin

text \<open>
  The part of the interface \<open>exchange.ExchangeAdapter\<close> (\<open>internal/exchange/adapter.go\<close>) the order
  path uses, with its sentinel errors.  The implementation behind it is a parameter of every
  definition that trades: a record of functions on a state \<open>'w\<close> of the venue, which includes the
  network.  A context deadline is the venue's choice to answer \<open>ErrTimeout\<close>.

  The locale \<open>venue\<close> is what the order path relies on: an observer \<open>book\<close> of the orders the exchange
  really has, and what an answer tells about it.
\<close>

datatype exch_error =
    ErrInvalidSymbol | ErrInsufficientMargin | ErrRateLimited | ErrUnauthorized | ErrTimeout
  | ErrOrderNotFound | ErrNetwork | ErrWithdrawalSuspended | ErrNoExecutor ExchangeID | ErrExchOther string

record 'w adapter =
  ad_PlaceOrder :: "PlaceOrderRequest \<Rightarrow> 'w \<Rightarrow> (exch_error + OrderAck) \<times> 'w"
  ad_GetOrder :: "OrderQuery \<Rightarrow> 'w \<Rightarrow> (exch_error + Order) \<times> 'w"
  ad_SetLeverage :: "SetLeverageRequest \<Rightarrow> 'w \<Rightarrow> exch_error option \<times> 'w"

text \<open>\<open>IsAmbiguousTimeout\<close> and \<open>IsSafeRetry\<close> of \<open>order_executor.go\<close>.\<close>

definition IsAmbiguousTimeout :: "exch_error \<Rightarrow> bool" where
  "IsAmbiguousTimeout e = (if e = ErrTimeout then True else if e = ErrNetwork then True else False)"

definition IsSafeRetry :: "exch_error \<Rightarrow> bool" where
  "IsSafeRetry e \<longleftrightarrow> e = ErrOrderNotFound"

lemma IsAmbiguousTimeout_iff [simp]: "IsAmbiguousTimeout e \<longleftrightarrow> e = ErrTimeout \<or> e = ErrNetwork"
  by (simp add: IsAmbiguousTimeout_def)

locale venue =
  fixes A :: "'w adapter" and book :: "'w \<Rightarrow> ClientOrderID \<Rightarrow> Order option"
  assumes place_ack:
      "ad_PlaceOrder A req w = (Inr ack, w') \<Longrightarrow> \<exists>ord. book w' = (book w)(req_ClientOrderID req \<mapsto> ord)"
    and place_ambiguous:
      "ad_PlaceOrder A req w = (Inl e, w') \<Longrightarrow> IsAmbiguousTimeout e \<Longrightarrow>
         book w' = book w \<or> (\<exists>ord. book w' = (book w)(req_ClientOrderID req \<mapsto> ord))"
    and place_refused:
      "ad_PlaceOrder A req w = (Inl e, w') \<Longrightarrow> \<not> IsAmbiguousTimeout e \<Longrightarrow> book w' = book w"
    and get_pure: "ad_GetOrder A q w = (r, w') \<Longrightarrow> book w' = book w"
    and get_found: "ad_GetOrder A q w = (Inr o', w') \<Longrightarrow> book w' (qry_ClientOrderID q) = Some o'"
    and get_missing: "ad_GetOrder A q w = (Inl ErrOrderNotFound, w') \<Longrightarrow> book w' (qry_ClientOrderID q) = None"
begin

lemma place_other:
  assumes "ad_PlaceOrder A req w = (r, w')" and "i \<noteq> req_ClientOrderID req"
  shows "book w' i = book w i"
proof (cases r)
  case (Inl e)
  then show ?thesis
    using assms place_ambiguous [of req w e w'] place_refused [of req w e w']
    by (cases "IsAmbiguousTimeout e") auto
next
  case (Inr ack)
  then show ?thesis using assms place_ack [of req w ack w'] by auto
qed

end

section \<open>A venue with a log of the requests it received\<close>

text \<open>Recording the order requests beside any adapter's state changes none of its answers.\<close>

definition logged :: "'w adapter \<Rightarrow> ('w \<times> PlaceOrderRequest list) adapter" where
  "logged A = \<lparr>
     ad_PlaceOrder = (\<lambda>req (w, lg). case ad_PlaceOrder A req w of (r, w') \<Rightarrow> (r, (w', lg @ [req]))),
     ad_GetOrder = (\<lambda>q (w, lg). case ad_GetOrder A q w of (r, w') \<Rightarrow> (r, (w', lg))),
     ad_SetLeverage = (\<lambda>q (w, lg). case ad_SetLeverage A q w of (r, w') \<Rightarrow> (r, (w', lg)))\<rparr>"

lemma logged_simps [simp]:
  "ad_PlaceOrder (logged A) req (w, lg)
     = (fst (ad_PlaceOrder A req w), (snd (ad_PlaceOrder A req w), lg @ [req]))"
  "ad_GetOrder (logged A) q (w, lg) = (fst (ad_GetOrder A q w), (snd (ad_GetOrder A q w), lg))"
  "ad_SetLeverage (logged A) s (w, lg) = (fst (ad_SetLeverage A s w), (snd (ad_SetLeverage A s w), lg))"
  by (simp_all add: logged_def split: prod.split)

end
