(* ===== verification/MockExchange.thy ===== *)
theory MockExchange
  imports Adapter
begin

text \<open>
  Package \<open>internal/exchange/mock\<close> (\<open>mock.go\<close>): the programmable exchange of the integration
  tests, the repository's own provider of the adapter interface.  Its channels, its artificial
  latency and the maps that only feed the market-data reads are not modelled.  \<open>mock_adapter\<close> packs the
  operations, and the interpretation shows that they keep the contract \<open>venue\<close>.
\<close>

record FillRule =
  fr_FillFraction :: decimal
  fr_Reject :: bool

record Mock =
  mk_id :: ExchangeID
  mk_instruments :: "CanonicalInstrument list"
  mk_books :: "ExchangeSymbol \<rightharpoonup> PriceLevel list \<times> PriceLevel list" \<comment> \<open>bids, asks; \<open>seq\<close> is always 1\<close>
  mk_orders :: "ClientOrderID \<rightharpoonup> Order"
  mk_fillRules :: "ExchangeSymbol \<rightharpoonup> FillRule"
  mk_fundings :: "ExchangeSymbol \<rightharpoonup> FundingInfo"
  mk_serverTime :: time
  mk_ackTimeoutSymbols :: "ExchangeSymbol \<rightharpoonup> bool"
  mk_rejectNext :: int
  mk_networkErrors :: int
  mk_withdrawSuspended :: bool
  mk_rateLimited :: bool

definition Mock_New :: "ExchangeID \<Rightarrow> Mock" where
  "Mock_New i = \<lparr>mk_id = i, mk_instruments = [], mk_books = Map.empty, mk_orders = Map.empty,
     mk_fillRules = Map.empty, mk_fundings = Map.empty, mk_serverTime = 1700000000 * Second,
     mk_ackTimeoutSymbols = Map.empty, mk_rejectNext = 0, mk_networkErrors = 0,
     mk_withdrawSuspended = False, mk_rateLimited = False\<rparr>"

definition SetInstruments :: "CanonicalInstrument list \<Rightarrow> Mock \<Rightarrow> Mock" where
  "SetInstruments ins m = m\<lparr>mk_instruments := ins\<rparr>"

definition SetOrderBook :: "ExchangeSymbol \<Rightarrow> PriceLevel list \<Rightarrow> PriceLevel list \<Rightarrow> Mock \<Rightarrow> Mock" where
  "SetOrderBook s bids asks m = m\<lparr>mk_books := (mk_books m)(s \<mapsto> (bids, asks))\<rparr>"

definition SetFillRule :: "ExchangeSymbol \<Rightarrow> FillRule \<Rightarrow> Mock \<Rightarrow> Mock" where
  "SetFillRule s rule m = m\<lparr>mk_fillRules := (mk_fillRules m)(s \<mapsto> rule)\<rparr>"

definition AckTimeoutFor :: "ExchangeSymbol \<Rightarrow> Mock \<Rightarrow> Mock" where
  "AckTimeoutFor s m = m\<lparr>mk_ackTimeoutSymbols := (mk_ackTimeoutSymbols m)(s \<mapsto> True)\<rparr>"

definition WithdrawalSuspended :: "bool \<Rightarrow> Mock \<Rightarrow> Mock" where
  "WithdrawalSuspended v m = m\<lparr>mk_withdrawSuspended := v\<rparr>"

definition SetRateLimited :: "bool \<Rightarrow> Mock \<Rightarrow> Mock" where
  "SetRateLimited v m = m\<lparr>mk_rateLimited := v\<rparr>"

definition SetRejectNext :: "int \<Rightarrow> Mock \<Rightarrow> Mock" where
  "SetRejectNext n m = m\<lparr>mk_rejectNext := n\<rparr>"

definition SetNetworkErrors :: "int \<Rightarrow> Mock \<Rightarrow> Mock" where
  "SetNetworkErrors n m = m\<lparr>mk_networkErrors := n\<rparr>"

definition SetFunding :: "ExchangeSymbol \<Rightarrow> FundingInfo \<Rightarrow> Mock \<Rightarrow> Mock" where
  "SetFunding s f m = m\<lparr>mk_fundings := (mk_fundings m)(s \<mapsto> f\<lparr>fi_Symbol := s\<rparr>)\<rparr>"

definition SetServerTime :: "time \<Rightarrow> Mock \<Rightarrow> Mock" where
  "SetServerTime t m = m\<lparr>mk_serverTime := t\<rparr>"

definition guard :: "Mock \<Rightarrow> exch_error option" where
  "guard m = (if mk_rateLimited m then Some ErrRateLimited else None)"

definition GetServerTime :: "Mock \<Rightarrow> exch_error + time" where
  "GetServerTime m = (case guard m of Some e \<Rightarrow> Inl e | None \<Rightarrow> Inr (mk_serverTime m))"

definition GetInstruments :: "Mock \<Rightarrow> exch_error + CanonicalInstrument list" where
  "GetInstruments m = (case guard m of Some e \<Rightarrow> Inl e | None \<Rightarrow> Inr (mk_instruments m))"

definition GetFunding :: "ExchangeSymbol \<Rightarrow> Mock \<Rightarrow> exch_error + FundingInfo" where
  "GetFunding s m =
     (case guard m of
        Some e \<Rightarrow> Inl e
      | None \<Rightarrow>
          (case mk_fundings m s of
             Some f \<Rightarrow> Inr f
           | None \<Rightarrow> Inr \<lparr>fi_Symbol = s, fi_RealizedRate = Dec_Zero, fi_PredictedRate = Dec_Zero,
                fi_RateType = FundingRateOther [], fi_RateCap = None, fi_RateFloor = None,
                fi_IntervalSec = 28800, fi_NextFundingTime = zero_time, fi_Confidence = ConfidenceHigh,
                fi_PriceType = FundingPriceMark\<rparr>))"

definition cloneLevels :: "PriceLevel list \<Rightarrow> int \<Rightarrow> PriceLevel list" where
  "cloneLevels src d = (if d > 0 \<and> d < int (length src) then take (nat d) src else src)"

definition GetOrderBookSnapshot :: "ExchangeSymbol \<Rightarrow> int \<Rightarrow> Mock \<Rightarrow> exch_error + OrderBookSnapshot" where
  "GetOrderBookSnapshot s d m =
     (case guard m of
        Some e \<Rightarrow> Inl e
      | None \<Rightarrow>
          (case mk_books m s of
             None \<Rightarrow> Inl ErrInvalidSymbol
           | Some (bids, asks) \<Rightarrow> Inr \<lparr>ob_Exchange = mk_id m, ob_Symbol = s, ob_Bids = cloneLevels bids d,
                ob_Asks = cloneLevels asks d, ob_Timestamp = mk_serverTime m, ob_Sequence = 1,
                ob_IsSnapshot = True\<rparr>))"

text \<open>The price of a market order: the best level of the opposite side, 0 when there is none.\<close>

definition market_price :: "Mock \<Rightarrow> PlaceOrderRequest \<Rightarrow> decimal" where
  "market_price m req =
     (case mk_books m (req_Symbol req) of
        None \<Rightarrow> 0
      | Some (bids, asks) \<Rightarrow>
          if req_Side req = SideLong \<and> asks \<noteq> [] then lvl_Price (hd asks)
          else if req_Side req = SideShort \<and> bids \<noteq> [] then lvl_Price (hd bids)
          else 0)"

definition new_order :: "Mock \<Rightarrow> PlaceOrderRequest \<Rightarrow> Order" where
  "new_order m req = \<lparr>
     ord_ExchangeOrderID = req_ClientOrderID req @ ''-'' @ format_int (mk_serverTime m),
     ord_ClientOrderID = req_ClientOrderID req, ord_Symbol = req_Symbol req, ord_Side = req_Side req,
     ord_Mode = req_Mode req, ord_ReduceOnly = req_ReduceOnly req, ord_RequestedQty = req_BaseQty req,
     ord_FilledQty = 0, ord_AvgFillPrice = 0, ord_Fees = 0, ord_Status = OrdNew,
     ord_ExchangeTimestamp = mk_serverTime m, ord_AckState = AckNone\<rparr>"

definition mock_ack :: "Mock \<Rightarrow> PlaceOrderRequest \<Rightarrow> Order \<Rightarrow> OrderAck" where
  "mock_ack m req o' = \<lparr>ack_ExchangeOrderID = ord_ExchangeOrderID o', ack_ClientOrderID = req_ClientOrderID req,
     ack_Status = ord_Status o', ack_Timestamp = mk_serverTime m\<rparr>"

text \<open>The order as the fill rule of its symbol executes it.\<close>

definition executed :: "Mock \<Rightarrow> PlaceOrderRequest \<Rightarrow> Order" where
  "executed m req =
     (let rule = mk_fillRules m (req_Symbol req);
          frac = (case rule of None \<Rightarrow> Dec_One | Some r \<Rightarrow> fr_FillFraction r);
          filled = req_BaseQty req * frac;
          px = (if req_Price req > Dec_Zero then req_Price req else market_price m req);
          status = (if (case rule of None \<Rightarrow> False | Some r \<Rightarrow> fr_Reject r) then OrdRejected
                    else if filled = 0 then OrdNew
                    else if filled \<ge> req_BaseQty req then OrdFilled
                    else OrdPartiallyFilled)
      in (new_order m req)\<lparr>ord_FilledQty := filled, ord_AvgFillPrice := px, ord_Status := status\<rparr>)"

definition store_order :: "Mock \<Rightarrow> Order \<Rightarrow> Mock" where
  "store_order m o' = m\<lparr>mk_orders := (mk_orders m)(ord_ClientOrderID o' \<mapsto> o')\<rparr>"

definition Mock_PlaceOrder :: "PlaceOrderRequest \<Rightarrow> Mock \<Rightarrow> (exch_error + OrderAck) \<times> Mock" where
  "Mock_PlaceOrder req m =
     (case guard m of
        Some e \<Rightarrow> (Inl e, m)
      | None \<Rightarrow>
          if mk_networkErrors m > 0
          then (Inl ErrNetwork, m\<lparr>mk_networkErrors := mk_networkErrors m - 1\<rparr>)
          else if mk_rejectNext m > 0
          then (let o' = (new_order m req)\<lparr>ord_Status := OrdRejected\<rparr>
                in (Inr (mock_ack m req o'), store_order (m\<lparr>mk_rejectNext := mk_rejectNext m - 1\<rparr>) o'))
          else (let o' = executed m req;
                    m' = store_order m o'
                in if get_or (mk_ackTimeoutSymbols m) (req_Symbol req) False
                   then (Inl ErrTimeout, m')
                   else (Inr (mock_ack m req o'), m')))"

definition Mock_CancelOrder :: "ClientOrderID \<Rightarrow> Mock \<Rightarrow> exch_error option \<times> Mock" where
  "Mock_CancelOrder i m =
     (case guard m of
        Some e \<Rightarrow> (Some e, m)
      | None \<Rightarrow>
          (None, case mk_orders m i of
             None \<Rightarrow> m
           | Some o' \<Rightarrow> if \<not> OrderStatus_IsTerminal (ord_Status o')
                        then m\<lparr>mk_orders := (mk_orders m)(i \<mapsto> o'\<lparr>ord_Status := OrdCancelled\<rparr>)\<rparr> else m))"

definition Mock_GetOrder :: "OrderQuery \<Rightarrow> Mock \<Rightarrow> (exch_error + Order) \<times> Mock" where
  "Mock_GetOrder q m =
     (case guard m of
        Some e \<Rightarrow> (Inl e, m)
      | None \<Rightarrow>
          (case mk_orders m (qry_ClientOrderID q) of
             None \<Rightarrow> (Inl ErrOrderNotFound, m)
           | Some o' \<Rightarrow> (Inr o', m)))"

definition Mock_SetLeverage :: "SetLeverageRequest \<Rightarrow> Mock \<Rightarrow> exch_error option \<times> Mock" where
  "Mock_SetLeverage req m = (guard m, m)"

definition Mock_InternalTransfer :: "InternalTransferRequest \<Rightarrow> Mock \<Rightarrow> exch_error + string" where
  "Mock_InternalTransfer req m = (case guard m of Some e \<Rightarrow> Inl e | None \<Rightarrow> Inr ''mock-tx'')"

definition Mock_Withdraw :: "WithdrawalRequest \<Rightarrow> Mock \<Rightarrow> exch_error + string" where
  "Mock_Withdraw req m =
     (case guard m of
        Some e \<Rightarrow> Inl e
      | None \<Rightarrow> if mk_withdrawSuspended m then Inl ErrWithdrawalSuspended else Inr ''mock-wd'')"

definition OrderByClient :: "ClientOrderID \<Rightarrow> Mock \<Rightarrow> Order option" where
  "OrderByClient i m = mk_orders m i"

definition mock_adapter :: "Mock adapter" where
  "mock_adapter = \<lparr>ad_PlaceOrder = Mock_PlaceOrder, ad_GetOrder = Mock_GetOrder,
     ad_SetLeverage = Mock_SetLeverage\<rparr>"

section \<open>The mock keeps the contract\<close>

lemma new_order_id [simp]: "ord_ClientOrderID (new_order m req) = req_ClientOrderID req"
  by (simp add: new_order_def)

lemma executed_id [simp]: "ord_ClientOrderID (executed m req) = req_ClientOrderID req"
  by (simp add: executed_def Let_def)

interpretation mock: venue mock_adapter mk_orders
proof unfold_locales
  fix req :: PlaceOrderRequest and w w' :: Mock and ack e
  show "ad_PlaceOrder mock_adapter req w = (Inr ack, w') \<Longrightarrow>
      \<exists>ord. mk_orders w' = (mk_orders w)(req_ClientOrderID req \<mapsto> ord)"
    by (auto simp: mock_adapter_def Mock_PlaceOrder_def store_order_def Let_def split: option.splits if_splits)
  show "ad_PlaceOrder mock_adapter req w = (Inl e, w') \<Longrightarrow> IsAmbiguousTimeout e \<Longrightarrow>
      mk_orders w' = mk_orders w \<or> (\<exists>ord. mk_orders w' = (mk_orders w)(req_ClientOrderID req \<mapsto> ord))"
    by (auto simp: mock_adapter_def Mock_PlaceOrder_def store_order_def Let_def split: option.splits if_splits)
  show "ad_PlaceOrder mock_adapter req w = (Inl e, w') \<Longrightarrow> \<not> IsAmbiguousTimeout e \<Longrightarrow>
      mk_orders w' = mk_orders w"
    by (auto simp: mock_adapter_def Mock_PlaceOrder_def Let_def split: option.splits if_splits)
next
  fix q :: OrderQuery and w w' :: Mock and r o'
  show "ad_GetOrder mock_adapter q w = (r, w') \<Longrightarrow> mk_orders w' = mk_orders w"
    by (auto simp: mock_adapter_def Mock_GetOrder_def split: option.splits)
  show "ad_GetOrder mock_adapter q w = (Inr o', w') \<Longrightarrow> mk_orders w' (qry_ClientOrderID q) = Some o'"
    by (auto simp: mock_adapter_def Mock_GetOrder_def split: option.splits)
  show "ad_GetOrder mock_adapter q w = (Inl ErrOrderNotFound, w') \<Longrightarrow> mk_orders w' (qry_ClientOrderID q) = None"
    by (auto simp: mock_adapter_def Mock_GetOrder_def guard_def split: option.splits if_splits)
qed

end
