(* ===== verification/OrderExecutor.thy ===== *)
theory OrderExecutor
  imports MockExchange
begin

text \<open>
  Package \<open>internal/execution\<close>, \<open>order_executor.go\<close>: one order with QUERY_THEN_DECIDE.  An executor
  is its adapter; the acknowledgement timeout is a deadline the adapter answers with \<open>ErrTimeout\<close>.
  A \<open>PlaceOrderResult\<close> carries its error twice in the code; here an error is \<open>Inl\<close>.
\<close>

datatype ResultSource = SourceAck | SourceQuery

definition isTerminalNegative :: "OrderStatus \<Rightarrow> bool" where
  "isTerminalNegative s \<longleftrightarrow> s = OrdCancelled \<or> s = OrdRejected \<or> s = OrdExpired"

definition query_of :: "PlaceOrderRequest \<Rightarrow> OrderQuery" where
  "query_of req = \<lparr>qry_ClientOrderID = req_ClientOrderID req, qry_ExchangeOrderID = [],
     qry_Symbol = req_Symbol req\<rparr>"

definition order_of_ack :: "PlaceOrderRequest \<Rightarrow> OrderAck \<Rightarrow> Order" where
  "order_of_ack req ack = \<lparr>ord_ExchangeOrderID = ack_ExchangeOrderID ack,
     ord_ClientOrderID = ack_ClientOrderID ack, ord_Symbol = req_Symbol req, ord_Side = req_Side req,
     ord_Mode = req_Mode req, ord_ReduceOnly = req_ReduceOnly req, ord_RequestedQty = req_BaseQty req,
     ord_FilledQty = 0, ord_AvgFillPrice = 0, ord_Fees = 0, ord_Status = ack_Status ack,
     ord_ExchangeTimestamp = ack_Timestamp ack, ord_AckState = AckAcked\<rparr>"

definition Place ::
  "'w adapter \<Rightarrow> PlaceOrderRequest \<Rightarrow> 'w \<Rightarrow> (exch_error + Order \<times> ResultSource) \<times> 'w" where
  "Place A req w =
     (case ad_PlaceOrder A req w of
        (Inr ack, w1) \<Rightarrow>
          (let order = order_of_ack req ack in
           case ad_GetOrder A (query_of req) w1 of
             (Inr q, w2) \<Rightarrow>
               (let order' = order\<lparr>ord_FilledQty := ord_FilledQty q, ord_AvgFillPrice := ord_AvgFillPrice q,
                                   ord_Fees := ord_Fees q, ord_Status := ord_Status q\<rparr>
                in if isTerminalNegative (ord_Status q) then (Inr (order', SourceQuery), w2)
                   else (Inr (order', SourceAck), w2))
           | (Inl qerr, w2) \<Rightarrow> (Inr (order, SourceAck), w2))
      | (Inl err, w1) \<Rightarrow>
          if err \<noteq> ErrTimeout \<and> err \<noteq> ErrNetwork then (Inl err, w1)
          else (case ad_GetOrder A (query_of req) w1 of
                  (Inr queried, w2) \<Rightarrow> (Inr (queried\<lparr>ord_AckState := AckQueried\<rparr>, SourceQuery), w2)
                | (Inl qerr, w2) \<Rightarrow>
                    if qerr = ErrOrderNotFound then (Inl ErrOrderNotFound, w2) else (Inl qerr, w2)))"

section \<open>What the executor tells about the exchange\<close>

text \<open>The answer the exchange gave to the placement itself, before any query.\<close>

definition placement :: "'w adapter \<Rightarrow> PlaceOrderRequest \<Rightarrow> 'w \<Rightarrow> exch_error + OrderAck" where
  "placement A req w = fst (ad_PlaceOrder A req w)"

lemma Place_cases:
  assumes "Place A req w = (r, w')"
  obtains
    (acked) ack w1 q where "ad_PlaceOrder A req w = (Inr ack, w1)" "ad_GetOrder A (query_of req) w1 = (Inr q, w')"
      "r = Inr ((order_of_ack req ack)\<lparr>ord_FilledQty := ord_FilledQty q, ord_AvgFillPrice := ord_AvgFillPrice q,
             ord_Fees := ord_Fees q, ord_Status := ord_Status q\<rparr>,
             if isTerminalNegative (ord_Status q) then SourceQuery else SourceAck)"
  | (ack_only) ack w1 e where "ad_PlaceOrder A req w = (Inr ack, w1)"
      "ad_GetOrder A (query_of req) w1 = (Inl e, w')" "r = Inr (order_of_ack req ack, SourceAck)"
  | (refused) e where "ad_PlaceOrder A req w = (Inl e, w')" "\<not> IsAmbiguousTimeout e" "r = Inl e"
  | (recovered) e w1 q where "ad_PlaceOrder A req w = (Inl e, w1)" "IsAmbiguousTimeout e"
      "ad_GetOrder A (query_of req) w1 = (Inr q, w')" "r = Inr (q\<lparr>ord_AckState := AckQueried\<rparr>, SourceQuery)"
  | (unresolved) e w1 e' where "ad_PlaceOrder A req w = (Inl e, w1)" "IsAmbiguousTimeout e"
      "ad_GetOrder A (query_of req) w1 = (Inl e', w')" "r = Inl e'"
  using assms that
  by (auto simp: Place_def Let_def split: prod.splits sum.splits if_splits)

lemma query_of_id [simp]: "qry_ClientOrderID (query_of req) = req_ClientOrderID req"
  by (simp add: query_of_def)

text \<open>The placement was acknowledged and the query for the details failed: the result is made of the acknowledgement.\<close>

definition blind_ack :: "'w adapter \<Rightarrow> PlaceOrderRequest \<Rightarrow> 'w \<Rightarrow> bool" where
  "blind_ack A req w = (case ad_PlaceOrder A req w of
     (Inr ack, w1) \<Rightarrow> (case ad_GetOrder A (query_of req) w1 of (Inl e, w2) \<Rightarrow> True | (Inr q, w2) \<Rightarrow> False)
   | (Inl e, w1) \<Rightarrow> False)"

text \<open>Exactly one order request leaves the executor, whatever happens: there is no blind retry.\<close>

lemma Place_logged:
  "Place (logged A) req (w, lg) = (fst (Place A req w), (snd (Place A req w), lg @ [req]))"
  by (auto simp: Place_def Let_def split: prod.splits sum.splits)

context venue
begin

lemma Place_other_ids:
  assumes "Place A req w = (r, w')" and "i \<noteq> req_ClientOrderID req"
  shows "book w' i = book w i"
  using assms(1)
  by (cases rule: Place_cases) (use assms(2) get_pure place_other in metis)+

lemma Place_found:
  assumes "Place A req w = (Inr (o', src), w')"
  shows "\<exists>t. book w' (req_ClientOrderID req) = Some t
     \<and> (ord_FilledQty o' = ord_FilledQty t \<and> ord_AvgFillPrice o' = ord_AvgFillPrice t
          \<and> ord_Status o' = ord_Status t \<and> ord_Fees o' = ord_Fees t
        \<or> src = SourceAck \<and> ord_FilledQty o' = 0 \<and> ord_AckState o' = AckAcked
          \<and> (\<exists>e. fst (ad_GetOrder A (query_of req) (snd (ad_PlaceOrder A req w))) = Inl e))"
  using assms
proof (cases rule: Place_cases)
  case (acked ack w1 q)
  have "book w' (req_ClientOrderID req) = Some q" using get_found [OF acked(2)] by simp
  then show ?thesis using acked(3) by simp
next
  case (ack_only ack w1 e)
  have "book w' = book w1" by (rule get_pure [OF ack_only(2)])
  moreover obtain t where "book w1 = (book w)(req_ClientOrderID req \<mapsto> t)"
    using place_ack [OF ack_only(1)] by blast
  ultimately show ?thesis using ack_only by (simp add: order_of_ack_def)
next
  case (recovered e w1 q)
  have "book w' (req_ClientOrderID req) = Some q" using get_found [OF recovered(3)] by simp
  then show ?thesis using recovered(4) by simp
qed auto

lemma Place_reported:
  assumes "Place A req w = (Inr (o', src), w')"
  shows "\<exists>t. book w' (req_ClientOrderID req) = Some t
     \<and> (if blind_ack A req w
        then src = SourceAck \<and> (\<exists>ack. placement A req w = Inr ack \<and> o' = order_of_ack req ack)
        else ord_FilledQty o' = ord_FilledQty t \<and> ord_AvgFillPrice o' = ord_AvgFillPrice t
          \<and> ord_Status o' = ord_Status t \<and> ord_Fees o' = ord_Fees t)"
  using assms
proof (cases rule: Place_cases)
  case (acked ack w1 q)
  then show ?thesis using get_found [OF acked(2)] by (simp add: blind_ack_def)
next
  case (ack_only ack w1 e)
  then show ?thesis using Place_found [OF assms] by (auto simp: blind_ack_def placement_def)
next
  case (recovered e w1 q)
  then show ?thesis using get_found [OF recovered(3)] by (simp add: blind_ack_def)
qed auto

lemma Place_refused:
  assumes "Place A req w = (Inl e, w')"
  shows "\<exists>e'. placement A req w = Inl e'
     \<and> (if IsAmbiguousTimeout e' then e = ErrOrderNotFound \<longrightarrow> book w' (req_ClientOrderID req) = None
        else e = e' \<and> book w' = book w)"
  using assms
proof (cases rule: Place_cases)
  case (refused e')
  then show ?thesis using place_refused [OF refused(1,2)] by (simp add: placement_def)
next
  case (unresolved e0 w1 e')
  then show ?thesis using get_missing [of "query_of req" w1 w'] by (auto simp: placement_def)
qed auto

end

text \<open>
  C1: at every venue that keeps the adapter contract, one call of \<open>Place\<close> sends
  exactly one order request and touches no other order.  If it returns an order, the venue has the
  order; the returned fill, price, fees and status are the venue's, except when the venue
  acknowledged the order and the detail query failed: then the result is the acknowledgement with a fill of zero.  It fails
  only if the placement failed: after a definite refusal with that error, and then no order was changed; after an ambiguous one
  \<open>ErrOrderNotFound\<close> means that the venue has no order of the identifier, and any other error leaves it open.
\<close>

theorem place_tells_the_truth:
  assumes "venue A book" and "Place A req w = (r, w')"
  shows "snd (snd (Place (logged A) req (w, lg))) = lg @ [req]
     \<and> (\<forall>i. i \<noteq> req_ClientOrderID req \<longrightarrow> book w' i = book w i)
     \<and> (case r of
          Inr (o', src) \<Rightarrow> \<exists>t. book w' (req_ClientOrderID req) = Some t
             \<and> (if blind_ack A req w
                then src = SourceAck \<and> (\<exists>ack. placement A req w = Inr ack \<and> o' = order_of_ack req ack)
                else ord_FilledQty o' = ord_FilledQty t \<and> ord_AvgFillPrice o' = ord_AvgFillPrice t
                  \<and> ord_Status o' = ord_Status t \<and> ord_Fees o' = ord_Fees t)
        | Inl e \<Rightarrow> \<exists>e'. placement A req w = Inl e'
             \<and> (if IsAmbiguousTimeout e' then IsSafeRetry e \<longrightarrow> book w' (req_ClientOrderID req) = None
                else e = e' \<and> book w' = book w))"
proof (cases r)
  case (Inl e)
  then show ?thesis
    using venue.Place_refused [OF assms(1), of req w e w'] venue.Place_other_ids [OF assms]
      assms(2) Place_logged [of A req w lg] by (auto simp: IsSafeRetry_def)
next
  case (Inr x)
  obtain o' src where x: "x = (o', src)" by (cases x)
  then show ?thesis
    using venue.Place_reported [OF assms(1), of req w o' src w'] venue.Place_other_ids [OF assms]
      assms(2) Inr Place_logged [of A req w lg] by simp
qed

definition example_req :: PlaceOrderRequest where
  "example_req = \<lparr>req_ClientOrderID = ''ENTRY_P1_LONG_0_0'', req_Symbol = ''BTCUSDT'', req_Side = SideLong,
     req_Mode = OrderMarketableLimitIOC, req_BaseQty = 2, req_Price = 100, req_ReduceOnly = False,
     req_PostOnly = False, req_TimeInForce = TIFIOC\<rparr>"

theorem place_tells_the_truth_witness:
  "\<exists>o' src m'. Place mock_adapter example_req (AckTimeoutFor ''BTCUSDT'' (Mock_New ExchangeBybit)) = (Inr (o', src), m')
     \<and> ord_FilledQty o' = 2 \<and> (\<exists>t. mk_orders m' ''ENTRY_P1_LONG_0_0'' = Some t)"
proof -
  let ?m = "AckTimeoutFor ''BTCUSDT'' (Mock_New ExchangeBybit)"
  obtain r m' where p: "Place mock_adapter example_req ?m = (r, m')" by (metis surj_pair)
  have "\<exists>o' src. r = Inr (o', src) \<and> ord_FilledQty o' = 2"
    using p by (auto simp: Place_def mock_adapter_def Mock_PlaceOrder_def Mock_GetOrder_def guard_def
        AckTimeoutFor_def Mock_New_def executed_def new_order_def store_order_def Let_def example_req_def
        query_of_def get_or_def)
  then obtain o' src where r: "r = Inr (o', src)" "ord_FilledQty o' = 2" by blast
  show ?thesis
    using place_tells_the_truth [OF mock.venue_axioms p] p r by (auto simp: example_req_def)
qed

section \<open>A timeout followed by a refused query\<close>

text \<open>
  The mock with its rate limit switched on between the two requests of one \<open>Place\<close>: the query is
  refused, the contract still holds.
\<close>

definition limited_adapter :: "Mock adapter" where
  "limited_adapter = mock_adapter\<lparr>ad_GetOrder := (\<lambda>q m. Mock_GetOrder q (SetRateLimited True m))\<rparr>"

lemma limited_simps:
  "ad_PlaceOrder limited_adapter = ad_PlaceOrder mock_adapter"
  "ad_GetOrder limited_adapter q m = (Inl ErrRateLimited, m\<lparr>mk_rateLimited := True\<rparr>)"
  by (simp_all add: limited_adapter_def mock_adapter_def Mock_GetOrder_def guard_def SetRateLimited_def)

interpretation limited: venue limited_adapter mk_orders
  using mock.place_ack mock.place_ambiguous mock.place_refused
  by unfold_locales (auto simp: limited_simps)

text \<open>
  an error that is neither ambiguous nor a safe retry does not mean that
  there is no order.  At a venue that keeps the contract, an acknowledgement timeout followed by a
  rate-limited query makes \<open>Place\<close> return the rate-limit error, which its callers count as an order
  that does not exist, while the venue has the order completely filled.
\<close>

theorem place_can_hide_a_fill:
  "\<exists>m m'. mk_orders m (req_ClientOrderID example_req) = None
     \<and> Place limited_adapter example_req m = (Inl ErrRateLimited, m')
     \<and> \<not> IsAmbiguousTimeout ErrRateLimited \<and> \<not> IsSafeRetry ErrRateLimited
     \<and> (\<exists>t. mk_orders m' (req_ClientOrderID example_req) = Some t
          \<and> ord_FilledQty t = req_BaseQty example_req \<and> ord_Status t = OrdFilled)"
proof -
  let ?m = "AckTimeoutFor ''BTCUSDT'' (Mock_New ExchangeBybit)"
  have "mk_orders ?m (req_ClientOrderID example_req) = None"
    by (simp add: AckTimeoutFor_def Mock_New_def)
  moreover have "\<exists>m' t. Place limited_adapter example_req ?m = (Inl ErrRateLimited, m')
      \<and> mk_orders m' (req_ClientOrderID example_req) = Some t
      \<and> ord_FilledQty t = req_BaseQty example_req \<and> ord_Status t = OrdFilled"
    by (simp add: Place_def limited_simps mock_adapter_def Mock_PlaceOrder_def guard_def
        AckTimeoutFor_def Mock_New_def executed_def new_order_def store_order_def Let_def example_req_def get_or_def)
  ultimately show ?thesis by (auto simp: IsSafeRetry_def)
qed

end
