(* ===== verification/Repair.thy ===== *)
theory Repair
  imports OrderExecutor
begin

text \<open>
  Package \<open>internal/execution\<close>, \<open>repair.go\<close>: what to do when the two legs of an entry filled
  differently, one top-up of the lagging leg and then a reduce-only order on the heavier one.
\<close>

datatype RepairAction = RepairNone | RepairTopUpShortLeg | RepairReduceExcess | RepairHaltAndDegraded

record RepairDecision =
  rd_Action :: RepairAction
  rd_ShortfallQty :: decimal
  rd_ExcessQty :: decimal
  rd_CommonQty :: decimal
  rd_Reason :: string

definition AnalyzeMismatch :: "decimal \<Rightarrow> decimal \<Rightarrow> decimal \<Rightarrow> RepairDecision" where
  "AnalyzeMismatch longFilled shortFilled toleranceBase =
     (let diff = \<bar>longFilled - shortFilled\<bar> in
      if diff \<le> toleranceBase
      then \<lparr>rd_Action = RepairNone, rd_ShortfallQty = 0, rd_ExcessQty = 0,
            rd_CommonQty = Dec_Min longFilled shortFilled, rd_Reason = ''delta within tolerance''\<rparr>
      else if longFilled > shortFilled
      then \<lparr>rd_Action = RepairTopUpShortLeg, rd_ShortfallQty = longFilled - shortFilled, rd_ExcessQty = 0,
            rd_CommonQty = shortFilled, rd_Reason = ''short leg underfilled, attempt top-up''\<rparr>
      else \<lparr>rd_Action = RepairTopUpShortLeg, rd_ShortfallQty = shortFilled - longFilled, rd_ExcessQty = 0,
            rd_CommonQty = longFilled, rd_Reason = ''long leg underfilled, attempt top-up''\<rparr>)"

record TopUpResult =
  tu_Success :: bool
  tu_FilledQty :: decimal
  tu_NewLongQty :: decimal
  tu_NewShortQty :: decimal

definition ApplyTopUp :: "RepairDecision \<Rightarrow> TopUpResult \<Rightarrow> decimal \<Rightarrow> RepairDecision" where
  "ApplyTopUp decision topUp toleranceBase =
     (if \<not> tu_Success topUp \<or> tu_FilledQty topUp = 0
      then (let e0 = rd_ShortfallQty decision - tu_FilledQty topUp;
                excess = (if e0 < 0 then Dec_Zero else e0)
            in \<lparr>rd_Action = RepairReduceExcess, rd_ShortfallQty = 0, rd_ExcessQty = excess,
                rd_CommonQty = Dec_Min (tu_NewLongQty topUp) (tu_NewShortQty topUp),
                rd_Reason = ''top-up failed, reduce excess on heavier leg''\<rparr>)
      else (let diff = \<bar>tu_NewLongQty topUp - tu_NewShortQty topUp\<bar> in
            if diff \<le> toleranceBase
            then \<lparr>rd_Action = RepairNone, rd_ShortfallQty = 0, rd_ExcessQty = 0,
                  rd_CommonQty = Dec_Min (tu_NewLongQty topUp) (tu_NewShortQty topUp),
                  rd_Reason = ''top-up succeeded, delta within tolerance''\<rparr>
            else \<lparr>rd_Action = RepairReduceExcess, rd_ShortfallQty = 0, rd_ExcessQty = diff,
                  rd_CommonQty = Dec_Min (tu_NewLongQty topUp) (tu_NewShortQty topUp),
                  rd_Reason = ''top-up partial, reduce remaining excess''\<rparr>))"

record ReduceExcessRequest =
  re_Symbol :: ExchangeSymbol
  re_ExcessQty :: decimal
  re_Side :: Side

definition ReduceExcessAction :: "Side \<Rightarrow> Side" where
  "ReduceExcessAction legSide = (if legSide = SideLong then SideShort else SideLong)"

definition reduce_order :: "ReduceExcessRequest \<Rightarrow> ClientOrderID \<Rightarrow> PlaceOrderRequest" where
  "reduce_order req clientID = \<lparr>req_ClientOrderID = clientID, req_Symbol = re_Symbol req,
     req_Side = re_Side req, req_Mode = OrderMarket, req_BaseQty = re_ExcessQty req, req_Price = Dec_Zero,
     req_ReduceOnly = True, req_PostOnly = False, req_TimeInForce = TIFIOC\<rparr>"

definition PlaceReduceOrder ::
  "'w adapter \<Rightarrow> ReduceExcessRequest \<Rightarrow> ClientOrderID \<Rightarrow> 'w \<Rightarrow> exch_error option \<times> 'w" where
  "PlaceReduceOrder A req clientID w =
     (if \<not> re_ExcessQty req > 0 then (None, w)
      else case Place A (reduce_order req clientID) w of
             (Inl err, w') \<Rightarrow> (Some err, w')
           | (Inr _, w') \<Rightarrow> (None, w'))"

text \<open>
  the analysis asks for nothing exactly when the legs are within the tolerance,
  and otherwise for their exact difference on the lagging leg.  After a top-up of that leg by any part
  \<open>t\<close> of it, the second decision is to stop only if the legs are within the tolerance, or to
  reduce the heavier leg by exactly what makes both equal to the reported common quantity.
\<close>

theorem repair_closes_the_gap:
  assumes "0 \<le> tol" and "d = AnalyzeMismatch l s tol" and "0 \<le> t" and "t \<le> \<bar>l - s\<bar>"
    and "l' = (if l < s then l + t else l)" and "s' = (if l < s then s else s + t)"
    and "d' = ApplyTopUp d \<lparr>tu_Success = (0 < t), tu_FilledQty = t, tu_NewLongQty = l', tu_NewShortQty = s'\<rparr> tol"
  shows "(rd_Action d = RepairNone \<longleftrightarrow> \<bar>l - s\<bar> \<le> tol)
     \<and> (rd_Action d \<noteq> RepairNone \<longrightarrow> rd_Action d = RepairTopUpShortLeg \<and> rd_ShortfallQty d = \<bar>l - s\<bar>
          \<and> rd_CommonQty d = min l s
          \<and> rd_CommonQty d' = min l' s'
          \<and> (rd_Action d' = RepairNone \<longrightarrow> \<bar>l' - s'\<bar> \<le> tol)
          \<and> (rd_Action d' \<noteq> RepairNone \<longrightarrow> rd_Action d' = RepairReduceExcess
               \<and> rd_ExcessQty d' = \<bar>l' - s'\<bar> \<and> max l' s' - rd_ExcessQty d' = rd_CommonQty d'))"
  using assms
  by (auto simp: AnalyzeMismatch_def ApplyTopUp_def Let_def abs_if min_def max_def split: if_splits)

theorem repair_closes_the_gap_witness:
  "rd_ShortfallQty (AnalyzeMismatch 60 50 (1 / 100)) = 10"
  using repair_closes_the_gap [of "1 / 100" "AnalyzeMismatch 60 50 (1 / 100)" 60 50 4 60 54, OF _ refl]
  by (simp add: AnalyzeMismatch_def)

end
