(* ===== verification/CloseLegs.thy ===== *)
theory CloseLegs
  imports ClientOrderId OrderExecutor
begin

text \<open>
  Package \<open>internal/execution\<close>, \<open>close.go\<close>: the coordinated close of both legs with a bounded number
  of requotes, and the emergency close of one leg.  The two goroutines of an attempt trade on
  different venues, so each leg threads the state of its own venue and their order does not matter.
  A book provider is the sequence of its answers, one for each attempt.
\<close>

record CloseConfig =
  cc_CloseProtectionTicks :: int
  cc_MaxRequotes :: int
  cc_TickSize :: decimal

type_synonym book_answers = "nat \<Rightarrow> ExchangeSymbol \<Rightarrow> decimal option"

record CloseRequest =
  cq_PositionID :: PositionID
  cq_LongSymbol :: ExchangeSymbol
  cq_LongRemaining :: decimal
  cq_ShortSymbol :: ExchangeSymbol
  cq_ShortRemaining :: decimal
  cq_LongBestBid :: book_answers
  cq_ShortBestAsk :: book_answers

record CloseResult =
  cl_LongClosedQty :: decimal
  cl_ShortClosedQty :: decimal
  cl_ResidualLongQty :: decimal
  cl_ResidualShortQty :: decimal
  cl_Degraded :: bool
  cl_Reason :: string

datatype close_error = ErrCloseIncomplete | ErrCloseAmbiguous

definition zero_CloseResult :: CloseResult where
  "zero_CloseResult = \<lparr>cl_LongClosedQty = 0, cl_ShortClosedQty = 0, cl_ResidualLongQty = 0,
     cl_ResidualShortQty = 0, cl_Degraded = False, cl_Reason = []\<rparr>"

record legAttemptResult =
  la_filled :: decimal
  la_ambiguous :: bool
  la_err :: "exch_error option"

definition zero_leg :: legAttemptResult where
  "zero_leg = \<lparr>la_filled = 0, la_ambiguous = False, la_err = None\<rparr>"

definition degraded :: "CloseResult \<Rightarrow> decimal \<Rightarrow> decimal \<Rightarrow> string \<Rightarrow> CloseResult" where
  "degraded r longLeft shortLeft reason =
     r\<lparr>cl_ResidualLongQty := Dec_Max longLeft Dec_Zero, cl_ResidualShortQty := Dec_Max shortLeft Dec_Zero,
       cl_Degraded := True, cl_Reason := reason\<rparr>"

definition placeCloseLeg ::
  "'w adapter \<Rightarrow> PlaceOrderRequest \<Rightarrow> decimal \<Rightarrow> 'w \<Rightarrow> legAttemptResult \<times> 'w" where
  "placeCloseLeg A req capQty w =
     (case Place A req w of
        (Inr (order, src), w') \<Rightarrow>
          (let filled = (if ord_FilledQty order > capQty then capQty else ord_FilledQty order)
           in (zero_leg\<lparr>la_filled := filled\<rparr>, w'))
      | (Inl err, w') \<Rightarrow>
          (if err = ErrOrderNotFound then (zero_leg\<lparr>la_err := Some err\<rparr>, w')
           else if IsAmbiguousTimeout err then (zero_leg\<lparr>la_ambiguous := True, la_err := Some err\<rparr>, w')
           else (zero_leg\<lparr>la_err := Some err\<rparr>, w')))"

definition exit_id :: "PositionID \<Rightarrow> Side \<Rightarrow> nat \<Rightarrow> ClientOrderID" where
  "exit_id pid legSide att = Format \<lparr>cp_PositionID = pid, cp_LegSide = legSide, cp_SliceIndex = int att,
     cp_Nonce = 0, cp_Purpose = PurposeExit\<rparr>"

definition exit_order ::
  "PositionID \<Rightarrow> Side \<Rightarrow> nat \<Rightarrow> ExchangeSymbol \<Rightarrow> Side \<Rightarrow> decimal \<Rightarrow> decimal \<Rightarrow> PlaceOrderRequest" where
  "exit_order pid legSide att symb side qty limit = \<lparr>req_ClientOrderID = exit_id pid legSide att,
     req_Symbol = symb, req_Side = side, req_Mode = OrderMarketableLimitIOC, req_BaseQty = qty,
     req_Price = limit, req_ReduceOnly = True, req_PostOnly = False, req_TimeInForce = TIFIOC\<rparr>"

lemma exit_order_simps [simp]:
  "req_ClientOrderID (exit_order pid legSide att symb side qty limit) = exit_id pid legSide att"
  "req_Symbol (exit_order pid legSide att symb side qty limit) = symb"
  "req_Side (exit_order pid legSide att symb side qty limit) = side"
  "req_Mode (exit_order pid legSide att symb side qty limit) = OrderMarketableLimitIOC"
  "req_BaseQty (exit_order pid legSide att symb side qty limit) = qty"
  "req_ReduceOnly (exit_order pid legSide att symb side qty limit)"
  "req_TimeInForce (exit_order pid legSide att symb side qty limit) = TIFIOC"
  by (simp_all add: exit_order_def)

text \<open>One leg of an attempt: nothing when it has no remainder.\<close>

definition close_leg ::
  "'w adapter \<Rightarrow> PositionID \<Rightarrow> Side \<Rightarrow> nat \<Rightarrow> ExchangeSymbol \<Rightarrow> Side \<Rightarrow> decimal \<Rightarrow> decimal \<Rightarrow> 'w
   \<Rightarrow> legAttemptResult \<times> 'w" where
  "close_leg A pid legSide att symb side qty limit w =
     (if qty > 0 then placeCloseLeg A (exit_order pid legSide att symb side qty limit) qty w
      else (zero_leg, w))"

definition ambiguous_leg :: "legAttemptResult \<Rightarrow> legAttemptResult \<Rightarrow> string" where
  "ambiguous_leg l s = (if la_ambiguous l \<and> la_ambiguous s then ''both''
     else if la_ambiguous s then ''short'' else ''long'')"

text \<open>
  The requote loop: \<open>n\<close> attempts are left, \<open>att\<close> is the index of the next one.
\<close>

fun close_loop ::
  "'l adapter \<Rightarrow> 's adapter \<Rightarrow> CloseRequest \<Rightarrow> decimal \<Rightarrow> nat \<Rightarrow> nat \<Rightarrow> decimal \<Rightarrow> decimal \<Rightarrow> CloseResult
   \<Rightarrow> 'l \<Rightarrow> 's \<Rightarrow> (CloseResult \<times> close_error option) \<times> 'l \<times> 's" where
  "close_loop L S req protection 0 att longLeft shortLeft result wl ws =
     (if longLeft > 0 \<or> shortLeft > 0
      then ((degraded result longLeft shortLeft ''max requotes exhausted with residual'',
             Some ErrCloseIncomplete), wl, ws)
      else ((result, None), wl, ws))"
| "close_loop L S req protection (Suc n) att longLeft shortLeft result wl ws =
     (if \<not> longLeft > 0 \<and> \<not> shortLeft > 0 then ((result, None), wl, ws)
      else if longLeft > 0 \<and> cq_LongBestBid req att (cq_LongSymbol req) = None
      then ((degraded result longLeft shortLeft ''no long bid for close price'', Some ErrCloseIncomplete), wl, ws)
      else if shortLeft > 0 \<and> cq_ShortBestAsk req att (cq_ShortSymbol req) = None
      then ((degraded result longLeft shortLeft ''no short ask for close price'', Some ErrCloseIncomplete), wl, ws)
      else
        (let longLimit = (case cq_LongBestBid req att (cq_LongSymbol req) of None \<Rightarrow> 0 | Some b \<Rightarrow> b - protection);
             shortLimit = (case cq_ShortBestAsk req att (cq_ShortSymbol req) of None \<Rightarrow> 0 | Some a \<Rightarrow> a + protection);
             (lr, wl') = close_leg L (cq_PositionID req) SideLong att (cq_LongSymbol req) SideShort longLeft longLimit wl;
             (sr, ws') = close_leg S (cq_PositionID req) SideShort att (cq_ShortSymbol req) SideLong shortLeft shortLimit ws;
             result' = result\<lparr>cl_LongClosedQty := cl_LongClosedQty result + la_filled lr,
                              cl_ShortClosedQty := cl_ShortClosedQty result + la_filled sr\<rparr>;
             longLeft' = longLeft - la_filled lr;
             shortLeft' = shortLeft - la_filled sr
         in if la_ambiguous lr \<or> la_ambiguous sr
            then ((degraded result' longLeft' shortLeft'
                     (ambiguous_leg lr sr @ '' leg state unknown (ack+query timeout)''), Some ErrCloseAmbiguous), wl', ws')
            else if la_err lr \<noteq> None \<and> la_err sr \<noteq> None \<and> la_filled lr = 0 \<and> la_filled sr = 0
            then ((degraded result' longLeft' shortLeft' ''both legs failed during close'',
                   Some ErrCloseIncomplete), wl', ws')
            else close_loop L S req protection n (Suc att) longLeft' shortLeft' result' wl' ws'))"

definition CoordinatedClose ::
  "'l adapter \<Rightarrow> 's adapter \<Rightarrow> CloseRequest \<Rightarrow> CloseConfig \<Rightarrow> 'l \<Rightarrow> 's
   \<Rightarrow> (CloseResult \<times> close_error option) \<times> 'l \<times> 's" where
  "CoordinatedClose L S req cfg wl ws =
     (let target = Dec_Min (cq_LongRemaining req) (cq_ShortRemaining req) in
      if \<not> target > 0 then ((zero_CloseResult, None), wl, ws)
      else close_loop L S req (Dec_MulInt (cc_TickSize cfg) (cc_CloseProtectionTicks cfg))
             (nat (cc_MaxRequotes cfg + 1)) 0 target target zero_CloseResult wl ws)"

definition CloseOneLegEmergency ::
  "'w adapter \<Rightarrow> ExchangeSymbol \<Rightarrow> decimal \<Rightarrow> Side \<Rightarrow> PositionID \<Rightarrow> 'w \<Rightarrow> exch_error option \<times> 'w" where
  "CloseOneLegEmergency A symb qty side positionID w =
     (if \<not> qty > 0 then (None, w)
      else let req = \<lparr>req_ClientOrderID = Format \<lparr>cp_PositionID = positionID, cp_LegSide = side,
                          cp_SliceIndex = 0, cp_Nonce = 0, cp_Purpose = PurposeEmergency\<rparr>,
                      req_Symbol = symb, req_Side = side, req_Mode = OrderMarket, req_BaseQty = qty,
                      req_Price = Dec_Zero, req_ReduceOnly = True, req_PostOnly = False,
                      req_TimeInForce = TIFIOC\<rparr>
           in case Place A req w of (Inl err, w') \<Rightarrow> (Some err, w') | (Inr _, w') \<Rightarrow> (None, w'))"

section \<open>A venue that reports no negative fills\<close>

locale honest_venue = venue +
  fixes sane :: "'a \<Rightarrow> bool"
  assumes place_sane:
      "sane w \<Longrightarrow> 0 < req_BaseQty req \<Longrightarrow> ad_PlaceOrder A req w = (r, w') \<Longrightarrow> sane w'"
    and get_sane: "sane w \<Longrightarrow> ad_GetOrder A q w = (rq, w') \<Longrightarrow> sane w'"
    and book_sane: "sane w \<Longrightarrow> book w i = Some ord \<Longrightarrow> 0 \<le> ord_FilledQty ord"
begin

lemma Place_sane:
  assumes "Place A req w = (r, w')" and "sane w" and "0 < req_BaseQty req"
  shows "sane w'"
  using assms(1) by (cases rule: Place_cases) (use assms(2,3) place_sane get_sane in metis)+

text \<open>One leg of one attempt: the counted fill is within the order and backed by the venue's book.\<close>

lemma close_leg_backed:
  assumes "close_leg A pid lside att symb sd qty limit w = (lr, w')" and "sane w"
  shows "sane w' \<and> 0 \<le> la_filled lr \<and> la_filled lr \<le> max 0 qty
     \<and> (\<forall>i. i \<noteq> exit_id pid lside att \<longrightarrow> book w' i = book w i)
     \<and> (la_filled lr = 0 \<or> (\<exists>t. book w' (exit_id pid lside att) = Some t \<and> la_filled lr \<le> ord_FilledQty t))
     \<and> (\<not> 0 < qty \<longrightarrow> w' = w)"
proof (cases "0 < qty")
  case False
  then show ?thesis using assms by (auto simp: close_leg_def zero_leg_def)
next
  case True
  let ?req = "exit_order pid lside att symb sd qty limit"
  obtain r where p: "Place A ?req w = (r, w')"
    using assms(1) True by (auto simp: close_leg_def placeCloseLeg_def split: prod.splits sum.splits if_splits)
  have id: "req_ClientOrderID ?req = exit_id pid lside att" "req_BaseQty ?req = qty"
    by (simp_all add: exit_order_def)
  have s: "sane w'" using Place_sane [OF p assms(2)] True id by simp
  have oth: "\<forall>i. i \<noteq> exit_id pid lside att \<longrightarrow> book w' i = book w i"
    using Place_other_ids [OF p] id by simp
  show ?thesis
  proof (cases r)
    case (Inl e)
    then have "la_filled lr = 0"
      using assms(1) True p by (auto simp: close_leg_def placeCloseLeg_def zero_leg_def split: if_splits)
    then show ?thesis using s oth True by simp
  next
    case (Inr x)
    obtain o' src where x: "x = (o', src)" by (cases x)
    have f: "la_filled lr = min qty (ord_FilledQty o')"
      using assms(1) True p Inr x by (auto simp: close_leg_def placeCloseLeg_def zero_leg_def Let_def)
    obtain t where t: "book w' (exit_id pid lside att) = Some t"
        "ord_FilledQty o' = ord_FilledQty t \<or> ord_FilledQty o' = 0"
      using Place_found [of ?req w o' src w'] p Inr x id by auto
    have "0 \<le> ord_FilledQty t" using book_sane [OF s t(1)] .
    then show ?thesis using f t s oth True by auto
  qed
qed

text \<open>The counted fill is the fill of the venue's book, cut at the order, or nothing.\<close>

lemma close_leg_counted:
  assumes "close_leg A pid lside att symb sd qty limit w = (lr, w')" and "sane w" and "0 < qty"
  shows "la_filled lr = 0 \<or> (\<exists>t. book w' (exit_id pid lside att) = Some t \<and> la_filled lr = min qty (ord_FilledQty t))"
proof -
  let ?req = "exit_order pid lside att symb sd qty limit"
  obtain r where p: "Place A ?req w = (r, w')"
    using assms(1,3) by (auto simp: close_leg_def placeCloseLeg_def split: prod.splits sum.splits if_splits)
  show ?thesis
  proof (cases r)
    case (Inl e)
    then show ?thesis
      using assms(1,3) p by (auto simp: close_leg_def placeCloseLeg_def zero_leg_def split: if_splits)
  next
    case (Inr x)
    obtain o' src where x: "x = (o', src)" by (cases x)
    have "la_filled lr = min qty (ord_FilledQty o')"
      using assms(1,3) p Inr x by (auto simp: close_leg_def placeCloseLeg_def zero_leg_def Let_def)
    moreover obtain t where "book w' (exit_id pid lside att) = Some t" "ord_FilledQty o' = ord_FilledQty t \<or> ord_FilledQty o' = 0"
      using Place_found [of ?req w o' src w'] p Inr x by (auto simp: exit_order_def)
    ultimately show ?thesis using assms(3) by auto
  qed
qed

end

text \<open>The mock is honest while its fill fractions and its orders are not negative.\<close>

definition mock_sane :: "Mock \<Rightarrow> bool" where
  "mock_sane m \<longleftrightarrow> (\<forall>s r. mk_fillRules m s = Some r \<longrightarrow> 0 \<le> fr_FillFraction r)
     \<and> (\<forall>i ord. mk_orders m i = Some ord \<longrightarrow> 0 \<le> ord_FilledQty ord)"

lemma executed_nonneg:
  "mock_sane m \<Longrightarrow> 0 < req_BaseQty req \<Longrightarrow> 0 \<le> ord_FilledQty (executed m req)"
  by (auto simp: executed_def Let_def mock_sane_def split: option.split)

lemma mock_sane_store:
  "mock_sane m \<Longrightarrow> 0 \<le> ord_FilledQty ord \<Longrightarrow> mock_sane (store_order m ord)"
  by (auto simp: mock_sane_def store_order_def)

interpretation mock_honest: honest_venue mock_adapter mk_orders mock_sane
proof unfold_locales
  fix w w' :: Mock and req r q rq i ord
  show "mock_sane w \<Longrightarrow> 0 < req_BaseQty req \<Longrightarrow> ad_PlaceOrder mock_adapter req w = (r, w') \<Longrightarrow> mock_sane w'"
    by (auto simp: mock_adapter_def Mock_PlaceOrder_def Let_def executed_nonneg new_order_def
        split: option.splits if_splits intro!: mock_sane_store) (simp add: mock_sane_def)+
  show "mock_sane w \<Longrightarrow> ad_GetOrder mock_adapter q w = (rq, w') \<Longrightarrow> mock_sane w'"
    by (auto simp: mock_adapter_def Mock_GetOrder_def split: option.splits)
  show "mock_sane w \<Longrightarrow> mk_orders w i = Some ord \<Longrightarrow> 0 \<le> ord_FilledQty ord"
    by (auto simp: mock_sane_def)
qed

section \<open>Accounting of a coordinated close\<close>

text \<open>The state of the loop after one attempt.\<close>

definition after_attempt :: "CloseResult \<Rightarrow> legAttemptResult \<Rightarrow> legAttemptResult \<Rightarrow> CloseResult" where
  "after_attempt result lr sr = result\<lparr>cl_LongClosedQty := cl_LongClosedQty result + la_filled lr,
     cl_ShortClosedQty := cl_ShortClosedQty result + la_filled sr\<rparr>"

lemma close_loop_Suc_cases:
  assumes "close_loop L S req p (Suc n) att ll sl res wl ws = ((res', err), wl', ws')"
  obtains
    (closed) "\<not> 0 < ll" "\<not> 0 < sl" "res' = res" "err = None" "wl' = wl" "ws' = ws"
  | (no_price) reason where "res' = degraded res ll sl reason" "err = Some ErrCloseIncomplete"
      "wl' = wl" "ws' = ws"
  | (attempt) ll_limit sl_limit lr wl1 sr ws1 where
      "close_leg L (cq_PositionID req) SideLong att (cq_LongSymbol req) SideShort ll ll_limit wl = (lr, wl1)"
      "close_leg S (cq_PositionID req) SideShort att (cq_ShortSymbol req) SideLong sl sl_limit ws = (sr, ws1)"
      "(\<exists>reason. res' = degraded (after_attempt res lr sr) (ll - la_filled lr) (sl - la_filled sr) reason
          \<and> err \<noteq> None \<and> wl' = wl1 \<and> ws' = ws1)
       \<or> close_loop L S req p n (Suc att) (ll - la_filled lr) (sl - la_filled sr) (after_attempt res lr sr) wl1 ws1
           = ((res', err), wl', ws')"
      "la_ambiguous lr \<or> la_ambiguous sr \<Longrightarrow> err = Some ErrCloseAmbiguous"
proof (cases "\<not> 0 < ll \<and> \<not> 0 < sl")
  case True
  then show thesis using assms closed by simp
next
  case f1: False
  show thesis
  proof (cases "0 < ll \<and> cq_LongBestBid req att (cq_LongSymbol req) = None
      \<or> 0 < sl \<and> cq_ShortBestAsk req att (cq_ShortSymbol req) = None")
    case True
    then show thesis using assms f1 no_price by (auto split: if_splits)
  next
    case f2: False
    let ?lp = "case cq_LongBestBid req att (cq_LongSymbol req) of None \<Rightarrow> 0 | Some b \<Rightarrow> b - p"
    let ?sp = "case cq_ShortBestAsk req att (cq_ShortSymbol req) of None \<Rightarrow> 0 | Some a \<Rightarrow> a + p"
    obtain lr wl1 where l: "close_leg L (cq_PositionID req) SideLong att (cq_LongSymbol req) SideShort ll ?lp wl = (lr, wl1)"
      by (metis surj_pair)
    obtain sr ws1 where s: "close_leg S (cq_PositionID req) SideShort att (cq_ShortSymbol req) SideLong sl ?sp ws = (sr, ws1)"
      by (metis surj_pair)
    show thesis
      using assms f1 f2 l s
      by (intro attempt [OF l s]) (auto simp: Let_def after_attempt_def split: if_splits)
  qed
qed

definition real_fill :: "('w \<Rightarrow> ClientOrderID \<Rightarrow> Order option) \<Rightarrow> 'w \<Rightarrow> ClientOrderID \<Rightarrow> decimal" where
  "real_fill book w i = (case book w i of None \<Rightarrow> 0 | Some ord \<Rightarrow> ord_FilledQty ord)"

text \<open>What the venue's book shows as filled for the exit orders of some attempts of one leg.\<close>

definition exit_fills ::
  "('w \<Rightarrow> ClientOrderID \<Rightarrow> Order option) \<Rightarrow> 'w \<Rightarrow> PositionID \<Rightarrow> Side \<Rightarrow> nat list \<Rightarrow> decimal" where
  "exit_fills book w pid sd atts = (\<Sum>k\<leftarrow>atts. real_fill book w (exit_id pid sd k))"

lemma exit_id_inj:
  assumes "exit_id pid sd j = exit_id pid sd k" and "int j \<le> int64_max" and "int k \<le> int64_max"
  shows "j = k"
proof -
  have "in_i64 (int j)" "in_i64 (int k)" "in_i64 0"
    using assms(2,3) by (simp_all add: in_i64_def int64_min_def int64_max_def)
  then show ?thesis using Format_inj [OF assms(1) [unfolded exit_id_def]] by simp
qed

lemma close_loop_frame:
  assumes "honest_venue L lb lok" and "honest_venue S sb sok"
  shows "close_loop L S req p n att ll sl res wl ws = ((res', err), wl', ws') \<Longrightarrow> lok wl \<Longrightarrow> sok ws \<Longrightarrow>
     lok wl' \<and> sok ws'
   \<and> (\<forall>i. (\<forall>k \<in> {att..<att + n}. i \<noteq> exit_id (cq_PositionID req) SideLong k) \<longrightarrow> lb wl' i = lb wl i)
   \<and> (\<forall>i. (\<forall>k \<in> {att..<att + n}. i \<noteq> exit_id (cq_PositionID req) SideShort k) \<longrightarrow> sb ws' i = sb ws i)"
proof (induction n arbitrary: att ll sl res wl ws)
  case 0
  then show ?case by (auto split: if_splits)
next
  case (Suc n)
  from Suc.prems(1) show ?case
  proof (cases rule: close_loop_Suc_cases)
    case (attempt l1 l2 lr wl1 sr ws1)
    note bl = honest_venue.close_leg_backed [OF assms(1) attempt(1) Suc.prems(2)]
      and bs = honest_venue.close_leg_backed [OF assms(2) attempt(2) Suc.prems(3)]
    from attempt(3) show ?thesis
    proof
      assume "\<exists>reason. res' = degraded (after_attempt res lr sr) (ll - la_filled lr) (sl - la_filled sr) reason
          \<and> err \<noteq> None \<and> wl' = wl1 \<and> ws' = ws1"
      then show ?thesis using bl bs by auto
    next
      assume "close_loop L S req p n (Suc att) (ll - la_filled lr) (sl - la_filled sr) (after_attempt res lr sr) wl1 ws1
           = ((res', err), wl', ws')"
      from Suc.IH [OF this] show ?thesis using bl bs by auto
    qed
  qed (use Suc.prems in auto)
qed

definition no_negative_fill :: "('w \<Rightarrow> ClientOrderID \<Rightarrow> Order option) \<Rightarrow> 'w \<Rightarrow> bool" where
  "no_negative_fill book w \<longleftrightarrow> (\<forall>i ord. book w i = Some ord \<longrightarrow> 0 \<le> ord_FilledQty ord)"

lemma no_negative_fillI: "honest_venue A book ok \<Longrightarrow> ok w \<Longrightarrow> no_negative_fill book w"
  unfolding no_negative_fill_def by (intro allI impI) (rule honest_venue.book_sane)

lemma real_fill_nonneg: "no_negative_fill book w \<Longrightarrow> 0 \<le> real_fill book w i"
  by (auto simp: no_negative_fill_def real_fill_def split: option.split)

lemma exit_fills_nonneg: "no_negative_fill book w \<Longrightarrow> 0 \<le> exit_fills book w pid sd atts"
  unfolding exit_fills_def by (rule sum_list_nonneg_rat) (rule real_fill_nonneg)

text \<open>The fill of one attempt and those of the later ones, in the final book.\<close>

lemma exit_fills_step:
  assumes "f = 0 \<or> (\<exists>t. book w1 (exit_id pid sd att) = Some t \<and> f \<le> ord_FilledQty t)"
    and "book w' (exit_id pid sd att) = book w1 (exit_id pid sd att)"
    and "no_negative_fill book w'" and "d \<le> exit_fills book w' pid sd [Suc att..<Suc att + n]"
  shows "f + d \<le> exit_fills book w' pid sd [att..<att + Suc n]"
proof -
  have "f \<le> real_fill book w' (exit_id pid sd att)"
    using assms(1,2) real_fill_nonneg [OF assms(3), of "exit_id pid sd att"] by (auto simp: real_fill_def)
  moreover have "[att..<att + Suc n] = att # [Suc att..<Suc att + n]"
    by (simp add: upt_conv_Cons del: upt_Suc)
  ultimately show ?thesis using assms(4) by (simp add: exit_fills_def)
qed

lemma exit_id_later:
  assumes "int (att + Suc n) \<le> int64_max" and "k \<in> {Suc att..<Suc att + n}"
  shows "exit_id pid sd att \<noteq> exit_id pid sd k"
  using exit_id_inj [of pid sd att k] assms by auto

text \<open>
  What the loop adds to the closed quantities: within the remainders, backed by the venues' books,
  all of the remainders on success, and otherwise the residuals are what is missing.
\<close>

definition loop_result ::
  "('l \<Rightarrow> ClientOrderID \<Rightarrow> Order option) \<Rightarrow> ('s \<Rightarrow> ClientOrderID \<Rightarrow> Order option) \<Rightarrow> PositionID
   \<Rightarrow> nat list \<Rightarrow> decimal \<Rightarrow> decimal \<Rightarrow> CloseResult \<Rightarrow> CloseResult \<Rightarrow> close_error option \<Rightarrow> 'l \<Rightarrow> 's
   \<Rightarrow> decimal \<Rightarrow> decimal \<Rightarrow> bool" where
  "loop_result lb sb pid atts ll sl res res' err wl' ws' dl ds \<longleftrightarrow>
     cl_LongClosedQty res' = cl_LongClosedQty res + dl \<and> cl_ShortClosedQty res' = cl_ShortClosedQty res + ds
     \<and> 0 \<le> dl \<and> dl \<le> ll \<and> 0 \<le> ds \<and> ds \<le> sl
     \<and> dl \<le> exit_fills lb wl' pid SideLong atts \<and> ds \<le> exit_fills sb ws' pid SideShort atts
     \<and> (if err = None then dl = ll \<and> ds = sl \<and> \<not> cl_Degraded res'
        else cl_Degraded res' \<and> cl_ResidualLongQty res' = ll - dl \<and> cl_ResidualShortQty res' = sl - ds)"

lemma loop_result_none:
  assumes "no_negative_fill lb wl" and "no_negative_fill sb ws" and "0 \<le> ll" and "0 \<le> sl"
  shows "err \<noteq> None \<Longrightarrow> loop_result lb sb pid atts ll sl res (degraded res ll sl reason) err wl ws 0 0"
    and "\<not> 0 < ll \<Longrightarrow> \<not> 0 < sl \<Longrightarrow> \<not> cl_Degraded res \<Longrightarrow> loop_result lb sb pid atts ll sl res res None wl ws 0 0"
  using assms exit_fills_nonneg [OF assms(1)] exit_fills_nonneg [OF assms(2)]
  by (auto simp: loop_result_def degraded_def)

lemma close_loop_sound:
  assumes "honest_venue L lb lok" and "honest_venue S sb sok"
  shows "close_loop L S req p n att ll sl res wl ws = ((res', err), wl', ws') \<Longrightarrow> lok wl \<Longrightarrow> sok ws \<Longrightarrow>
     0 \<le> ll \<Longrightarrow> 0 \<le> sl \<Longrightarrow> \<not> cl_Degraded res \<Longrightarrow> int (att + n) \<le> int64_max \<Longrightarrow>
     \<exists>dl ds. loop_result lb sb (cq_PositionID req) [att..<att + n] ll sl res res' err wl' ws' dl ds"
proof (induction n arbitrary: att ll sl res wl ws)
  case 0
  note nn = no_negative_fillI [OF assms(1) 0(2)] no_negative_fillI [OF assms(2) 0(3)]
  show ?case
  proof (cases "0 < ll \<or> 0 < sl")
    case True
    then have "loop_result lb sb (cq_PositionID req) [att..<att + 0] ll sl res res' err wl' ws' 0 0"
      using loop_result_none(1) [OF nn 0(4,5)] 0(1) by auto
    then show ?thesis by blast
  next
    case False
    then have "loop_result lb sb (cq_PositionID req) [att..<att + 0] ll sl res res' err wl' ws' 0 0"
      using loop_result_none(2) [OF nn 0(4,5)] 0(1,6) by auto
    then show ?thesis by blast
  qed
next
  case (Suc n)
  note nn = no_negative_fillI [OF assms(1) Suc.prems(2)] no_negative_fillI [OF assms(2) Suc.prems(3)]
  from Suc.prems(1) show ?case
  proof (cases rule: close_loop_Suc_cases)
    case closed
    then show ?thesis using loop_result_none(2) [OF nn Suc.prems(4,5)] Suc.prems(6) by blast
  next
    case (no_price reason)
    then show ?thesis using loop_result_none(1) [OF nn Suc.prems(4,5)] by blast
  next
    case (attempt l1 l2 lr wl1 sr ws1)
    let ?pid = "cq_PositionID req" and ?fl = "la_filled lr" and ?fs = "la_filled sr"
    note bl = honest_venue.close_leg_backed [OF assms(1) attempt(1) Suc.prems(2)]
      and bs = honest_venue.close_leg_backed [OF assms(2) attempt(2) Suc.prems(3)]
    have fl: "0 \<le> ?fl" "?fl \<le> ll" and fs: "0 \<le> ?fs" "?fs \<le> sl"
      using bl bs Suc.prems(4,5) by auto
    have nd: "\<not> cl_Degraded (after_attempt res lr sr)" using Suc.prems(6) by (simp add: after_attempt_def)
    have "\<exists>dl ds. loop_result lb sb ?pid [Suc att..<Suc att + n] (ll - ?fl) (sl - ?fs) (after_attempt res lr sr)
            res' err wl' ws' dl ds
        \<and> no_negative_fill lb wl' \<and> no_negative_fill sb ws'
        \<and> lb wl' (exit_id ?pid SideLong att) = lb wl1 (exit_id ?pid SideLong att)
        \<and> sb ws' (exit_id ?pid SideShort att) = sb ws1 (exit_id ?pid SideShort att)"
      using attempt(3)
    proof
      assume "\<exists>reason. res' = degraded (after_attempt res lr sr) (ll - ?fl) (sl - ?fs) reason
          \<and> err \<noteq> None \<and> wl' = wl1 \<and> ws' = ws1"
      then show ?thesis
        using loop_result_none(1) [of lb wl1 sb ws1 "ll - ?fl" "sl - ?fs"] fl fs bl bs
          no_negative_fillI [OF assms(1)] no_negative_fillI [OF assms(2)] by fastforce
    next
      assume loop: "close_loop L S req p n (Suc att) (ll - ?fl) (sl - ?fs) (after_attempt res lr sr) wl1 ws1
           = ((res', err), wl', ws')"
      have fr: "lok wl'" "sok ws'"
        "lb wl' (exit_id ?pid SideLong att) = lb wl1 (exit_id ?pid SideLong att)"
        "sb ws' (exit_id ?pid SideShort att) = sb ws1 (exit_id ?pid SideShort att)"
        using close_loop_frame [OF assms loop] bl bs exit_id_later [of att n] Suc.prems(7) by auto
      have "\<exists>dl ds. loop_result lb sb ?pid [Suc att..<Suc att + n] (ll - ?fl) (sl - ?fs)
          (after_attempt res lr sr) res' err wl' ws' dl ds"
        using Suc.IH [OF loop] bl bs fl fs nd Suc.prems(7) by simp
      then show ?thesis
        using fr no_negative_fillI [OF assms(1) fr(1)] no_negative_fillI [OF assms(2) fr(2)] by blast
    qed
    then obtain dl ds where r: "loop_result lb sb ?pid [Suc att..<Suc att + n] (ll - ?fl) (sl - ?fs)
          (after_attempt res lr sr) res' err wl' ws' dl ds"
        "no_negative_fill lb wl'" "no_negative_fill sb ws'"
        "lb wl' (exit_id ?pid SideLong att) = lb wl1 (exit_id ?pid SideLong att)"
        "sb ws' (exit_id ?pid SideShort att) = sb ws1 (exit_id ?pid SideShort att)"
      by blast
    have "?fl + dl \<le> exit_fills lb wl' ?pid SideLong [att..<att + Suc n]"
      using bl r by (intro exit_fills_step [of _ lb wl1]) (auto simp: loop_result_def)
    moreover have "?fs + ds \<le> exit_fills sb ws' ?pid SideShort [att..<att + Suc n]"
      using bs r by (intro exit_fills_step [of _ sb ws1]) (auto simp: loop_result_def)
    ultimately have "loop_result lb sb ?pid [att..<att + Suc n] ll sl res res' err wl' ws' (?fl + dl) (?fs + ds)"
      using r(1) fl fs by (auto simp: loop_result_def after_attempt_def split: if_splits)
    then show ?thesis by blast
  qed
qed

lemma CoordinatedClose_sound:
  assumes "honest_venue L lb lok" and "honest_venue S sb sok" and "lok wl" and "sok ws"
    and "cc_MaxRequotes cfg < int64_max"
    and "CoordinatedClose L S req cfg wl ws = ((res, err), wl', ws')"
    and "target = min (cq_LongRemaining req) (cq_ShortRemaining req)" and "0 < target"
    and "atts = [0..<nat (cc_MaxRequotes cfg + 1)]"
  shows "0 \<le> cl_LongClosedQty res \<and> cl_LongClosedQty res \<le> target
     \<and> 0 \<le> cl_ShortClosedQty res \<and> cl_ShortClosedQty res \<le> target
     \<and> cl_LongClosedQty res \<le> exit_fills lb wl' (cq_PositionID req) SideLong atts
     \<and> cl_ShortClosedQty res \<le> exit_fills sb ws' (cq_PositionID req) SideShort atts
     \<and> (if err = None
        then cl_LongClosedQty res = target \<and> cl_ShortClosedQty res = target \<and> \<not> cl_Degraded res
        else cl_Degraded res \<and> cl_ResidualLongQty res = target - cl_LongClosedQty res
          \<and> cl_ResidualShortQty res = target - cl_ShortClosedQty res)"
proof -
  have loop: "close_loop L S req (Dec_MulInt (cc_TickSize cfg) (cc_CloseProtectionTicks cfg))
      (nat (cc_MaxRequotes cfg + 1)) 0 target target zero_CloseResult wl ws = ((res, err), wl', ws')"
    using assms(6-8) by (simp add: CoordinatedClose_def Let_def)
  have b: "int (0 + nat (cc_MaxRequotes cfg + 1)) \<le> int64_max"
    using assms(5) by (simp add: int64_max_def)
  obtain dl ds where "loop_result lb sb (cq_PositionID req) [0..<0 + nat (cc_MaxRequotes cfg + 1)]
      target target zero_CloseResult res err wl' ws' dl ds"
    using close_loop_sound [OF assms(1,2) loop assms(3,4) _ _ _ b] assms(8)
    by (auto simp: zero_CloseResult_def)
  then show ?thesis
    using assms(9) by (auto simp: loop_result_def zero_CloseResult_def split: if_splits)
qed

text \<open>
  at two venues that keep the adapter contract and report no negative fills, the
  coordinated close counts for each leg a quantity between nothing and the common target, and no
  more than the venue's book shows as filled for the exit orders it sent.  It reports success only
  when both legs have closed the whole target, so the hedge stays balanced; otherwise it is degraded
  and the residual of each leg is exactly what is missing.
\<close>

theorem coordinated_close_accounts:
  assumes "honest_venue L lb lok" and "honest_venue S sb sok" and "lok wl" and "sok ws"
    and "cc_MaxRequotes cfg < int64_max"
    and "CoordinatedClose L S req cfg wl ws = ((res, err), wl', ws')"
    and "target = min (cq_LongRemaining req) (cq_ShortRemaining req)" and "0 < target"
    and "atts = [0..<nat (cc_MaxRequotes cfg + 1)]"
  shows "0 \<le> cl_LongClosedQty res \<and> cl_LongClosedQty res \<le> target
     \<and> 0 \<le> cl_ShortClosedQty res \<and> cl_ShortClosedQty res \<le> target
     \<and> cl_LongClosedQty res \<le> exit_fills lb wl' (cq_PositionID req) SideLong atts
     \<and> cl_ShortClosedQty res \<le> exit_fills sb ws' (cq_PositionID req) SideShort atts
     \<and> (if err = None
        then cl_LongClosedQty res = target \<and> cl_ShortClosedQty res = target \<and> \<not> cl_Degraded res
        else cl_Degraded res \<and> cl_ResidualLongQty res = target - cl_LongClosedQty res
          \<and> cl_ResidualShortQty res = target - cl_ShortClosedQty res)"
  by (rule CoordinatedClose_sound [OF assms])

definition example_close_request :: CloseRequest where
  "example_close_request = \<lparr>cq_PositionID = ''P1'', cq_LongSymbol = ''BTCUSDT'', cq_LongRemaining = 10,
     cq_ShortSymbol = ''BTC-USDT-SWAP'', cq_ShortRemaining = 12, cq_LongBestBid = (\<lambda>_ _. Some 100),
     cq_ShortBestAsk = (\<lambda>_ _. Some 101)\<rparr>"

definition example_close_config :: CloseConfig where
  "example_close_config = \<lparr>cc_CloseProtectionTicks = 2, cc_MaxRequotes = 3, cc_TickSize = 1 / 10\<rparr>"

lemma mock_sane_new: "mock_sane (Mock_New ex)"
  by (simp add: mock_sane_def Mock_New_def)

theorem coordinated_close_accounts_witness:
  "\<exists>res err wl ws. CoordinatedClose mock_adapter mock_adapter example_close_request example_close_config
       (Mock_New ExchangeBybit) (Mock_New ExchangeOKX) = ((res, err), wl, ws)
     \<and> cl_LongClosedQty res \<le> 10 \<and> (err = None \<longrightarrow> cl_ShortClosedQty res = 10)"
proof -
  obtain res err wl ws where c: "CoordinatedClose mock_adapter mock_adapter example_close_request
       example_close_config (Mock_New ExchangeBybit) (Mock_New ExchangeOKX) = ((res, err), wl, ws)"
    by (metis surj_pair)
  show ?thesis
    using coordinated_close_accounts [OF mock_honest.honest_venue_axioms mock_honest.honest_venue_axioms
        mock_sane_new mock_sane_new _ c refl _ refl] c
    by (auto simp: example_close_request_def example_close_config_def int64_max_def)
qed

section \<open>The orders a coordinated close sends\<close>

lemma logged_place:
  "ad_PlaceOrder (logged A) req w = (r, w') \<longleftrightarrow>
     ad_PlaceOrder A req (fst w) = (r, fst w') \<and> snd w' = snd w @ [req]"
  by (cases w; cases w'; cases "ad_PlaceOrder A req (fst w)") auto

lemma logged_get:
  "ad_GetOrder (logged A) q w = (r, w') \<longleftrightarrow> ad_GetOrder A q (fst w) = (r, fst w') \<and> snd w' = snd w"
  by (cases w; cases w'; cases "ad_GetOrder A q (fst w)") auto

lemma venue_logged:
  assumes "venue A book"
  shows "venue (logged A) (\<lambda>w. book (fst w))"
proof
  fix req q and w w' :: "'a \<times> PlaceOrderRequest list" and ack e r o'
  show "ad_PlaceOrder (logged A) req w = (Inr ack, w') \<Longrightarrow>
      \<exists>ord. book (fst w') = (book (fst w))(req_ClientOrderID req \<mapsto> ord)"
    using venue.place_ack [OF assms, of req "fst w" ack "fst w'"] by (simp add: logged_place)
  show "ad_PlaceOrder (logged A) req w = (Inl e, w') \<Longrightarrow> IsAmbiguousTimeout e \<Longrightarrow>
      book (fst w') = book (fst w) \<or> (\<exists>ord. book (fst w') = (book (fst w))(req_ClientOrderID req \<mapsto> ord))"
    using venue.place_ambiguous [OF assms, of req "fst w" e "fst w'"] by (simp add: logged_place)
  show "ad_PlaceOrder (logged A) req w = (Inl e, w') \<Longrightarrow> \<not> IsAmbiguousTimeout e \<Longrightarrow>
      book (fst w') = book (fst w)"
    using venue.place_refused [OF assms, of req "fst w" e "fst w'"] by (simp add: logged_place)
  show "ad_GetOrder (logged A) q w = (r, w') \<Longrightarrow> book (fst w') = book (fst w)"
    using venue.get_pure [OF assms, of q "fst w" r "fst w'"] by (simp add: logged_get)
  show "ad_GetOrder (logged A) q w = (Inr o', w') \<Longrightarrow> book (fst w') (qry_ClientOrderID q) = Some o'"
    using venue.get_found [OF assms, of q "fst w" o' "fst w'"] by (simp add: logged_get)
  show "ad_GetOrder (logged A) q w = (Inl ErrOrderNotFound, w') \<Longrightarrow> book (fst w') (qry_ClientOrderID q) = None"
    using venue.get_missing [OF assms, of q "fst w" "fst w'"] by (simp add: logged_get)
qed

lemma honest_logged:
  assumes "honest_venue A book ok"
  shows "honest_venue (logged A) (\<lambda>w. book (fst w)) (\<lambda>w. ok (fst w))"
proof (intro honest_venue.intro honest_venue_axioms.intro)
  show "venue (logged A) (\<lambda>w. book (fst w))" using venue_logged [of A book] assms by (simp add: honest_venue_def)
next
  fix w w' :: "'a \<times> PlaceOrderRequest list" and req r q rq i ord
  show "ok (fst w) \<Longrightarrow> 0 < req_BaseQty req \<Longrightarrow> ad_PlaceOrder (logged A) req w = (r, w') \<Longrightarrow> ok (fst w')"
    using honest_venue.place_sane [OF assms, of "fst w" req r "fst w'"] by (simp add: logged_place)
  show "ok (fst w) \<Longrightarrow> ad_GetOrder (logged A) q w = (rq, w') \<Longrightarrow> ok (fst w')"
    using honest_venue.get_sane [OF assms, of "fst w" q rq "fst w'"] by (simp add: logged_get)
  show "ok (fst w) \<Longrightarrow> book (fst w) i = Some ord \<Longrightarrow> 0 \<le> ord_FilledQty ord"
    by (rule honest_venue.book_sane [OF assms])
qed

text \<open>
  The exit orders of one leg and the fills counted for them: reduce-only IOC orders of the closing side, at most one per attempt
  with that attempt's identifier, each for all of what is left of the bound after the fills before it.
\<close>

inductive exit_orders :: "PositionID \<Rightarrow> Side \<Rightarrow> ExchangeSymbol \<Rightarrow> Side \<Rightarrow> decimal \<Rightarrow> nat \<Rightarrow> nat
    \<Rightarrow> PlaceOrderRequest list \<Rightarrow> decimal list \<Rightarrow> bool" for pid lside symb sd where
  none: "exit_orders pid lside symb sd bound att n [] []"
| skip: "exit_orders pid lside symb sd bound (Suc att) n rs fs \<Longrightarrow> exit_orders pid lside symb sd bound att (Suc n) rs fs"
| send: "exit_orders pid lside symb sd (bound - f) (Suc att) n rs fs \<Longrightarrow> 0 < bound \<Longrightarrow> 0 \<le> f \<Longrightarrow> f \<le> bound \<Longrightarrow>
     exit_orders pid lside symb sd bound att (Suc n) (exit_order pid lside att symb sd bound limit # rs) (f # fs)"

lemma exit_orders_shape:
  "exit_orders pid lside symb sd bound att n rs fs \<Longrightarrow>
     length rs \<le> n \<and> length fs = length rs
   \<and> (\<forall>r \<in> set rs. req_ReduceOnly r \<and> req_Side r = sd \<and> req_Symbol r = symb
        \<and> req_Mode r = OrderMarketableLimitIOC \<and> req_TimeInForce r = TIFIOC \<and> 0 < req_BaseQty r)
   \<and> (\<forall>k < length rs. 0 \<le> fs ! k \<and> fs ! k \<le> req_BaseQty (rs ! k) \<and> req_BaseQty (rs ! k) = bound - sum_list (take k fs))
   \<and> (\<exists>ks. map req_ClientOrderID rs = map (exit_id pid lside) ks \<and> sorted_wrt (<) ks
        \<and> set ks \<subseteq> {att..<att + n})"
proof (induction rule: exit_orders.induct)
  case (skip bound att n rs fs)
  then obtain ks where "map req_ClientOrderID rs = map (exit_id pid lside) ks" "sorted_wrt (<) ks"
      "set ks \<subseteq> {Suc att..<Suc att + n}" by blast
  then show ?case using skip by (intro conjI exI [of _ ks]) auto
next
  case (send bound f att n rs fs limit)
  then obtain ks where ks: "map req_ClientOrderID rs = map (exit_id pid lside) ks" "sorted_wrt (<) ks"
      "set ks \<subseteq> {Suc att..<Suc att + n}" by blast
  let ?rs = "exit_order pid lside att symb sd bound limit # rs"
  have q: "\<forall>k < length ?rs. 0 \<le> (f # fs) ! k \<and> (f # fs) ! k \<le> req_BaseQty (?rs ! k)
      \<and> req_BaseQty (?rs ! k) = bound - sum_list (take k (f # fs))"
  proof (intro allI impI)
    fix k assume "k < length ?rs"
    then show "0 \<le> (f # fs) ! k \<and> (f # fs) ! k \<le> req_BaseQty (?rs ! k)
        \<and> req_BaseQty (?rs ! k) = bound - sum_list (take k (f # fs))"
      using send by (cases k) auto
  qed
  have "\<exists>ks. map req_ClientOrderID ?rs = map (exit_id pid lside) ks \<and> sorted_wrt (<) ks \<and> set ks \<subseteq> {att..<att + Suc n}"
    using ks by (intro exI [of _ "att # ks"]) auto
  moreover have "\<forall>r \<in> set ?rs. req_ReduceOnly r \<and> req_Side r = sd \<and> req_Symbol r = symb
        \<and> req_Mode r = OrderMarketableLimitIOC \<and> req_TimeInForce r = TIFIOC \<and> 0 < req_BaseQty r"
    using send by simp
  moreover have "length ?rs \<le> Suc n" "length (f # fs) = length ?rs" using send by simp_all
  ultimately show ?case using q by (intro conjI) assumption+
qed auto

text \<open>A counted fill of an order is nothing, or what the final book shows for it, cut at the order's quantity.\<close>

definition backed :: "('w \<Rightarrow> ClientOrderID \<Rightarrow> Order option) \<Rightarrow> 'w \<Rightarrow> PlaceOrderRequest list \<Rightarrow> decimal list \<Rightarrow> bool" where
  "backed book w rs fs = list_all2 (\<lambda>r f. f = 0 \<or> f = min (req_BaseQty r) (real_fill book w (req_ClientOrderID r))) rs fs"

text \<open>What one leg of an attempt adds to the log.\<close>

lemma close_leg_logged:
  assumes "close_leg (logged A) pid lside att symb sd qty limit w = (lr, w')"
  shows "snd w' = snd w @ (if 0 < qty then [exit_order pid lside att symb sd qty limit] else [])"
proof (cases "0 < qty")
  case True
  obtain w0 lg where w: "w = (w0, lg)" by (cases w)
  obtain r where "Place (logged A) (exit_order pid lside att symb sd qty limit) w = (r, w')"
    using assms True by (auto simp: close_leg_def placeCloseLeg_def split: prod.splits sum.splits if_splits)
  then have "snd w' = lg @ [exit_order pid lside att symb sd qty limit]"
    unfolding w Place_logged by auto
  then show ?thesis using True w by simp
qed (use assms in \<open>simp add: close_leg_def\<close>)

text \<open>What one leg contributes: the orders it sends, the fills counted for them, and how the final book backs them.\<close>

definition leg_trace ::
  "('w \<Rightarrow> ClientOrderID \<Rightarrow> Order option) \<Rightarrow> PositionID \<Rightarrow> Side \<Rightarrow> ExchangeSymbol \<Rightarrow> Side \<Rightarrow> decimal \<Rightarrow> nat \<Rightarrow> nat
   \<Rightarrow> PlaceOrderRequest list \<Rightarrow> 'w \<Rightarrow> decimal \<Rightarrow> decimal \<Rightarrow> PlaceOrderRequest list \<Rightarrow> bool" where
  "leg_trace book pid lside symb sd bound att n before w c0 c1 after \<longleftrightarrow>
     (\<exists>rs fs. after = before @ rs \<and> exit_orders pid lside symb sd bound att n rs fs \<and> backed book w rs fs
        \<and> c1 = c0 + sum_list fs)"

lemma backed_fills:
  assumes "exit_orders pid lside symb sd bound att n rs fs" and "backed (\<lambda>w. bk (fst w)) (w, lg) rs fs"
  shows "length fs = length rs
     \<and> (\<forall>k < length rs. 0 \<le> fs ! k \<and> fs ! k \<le> req_BaseQty (rs ! k)
          \<and> (fs ! k = 0 \<or> fs ! k = min (req_BaseQty (rs ! k)) (real_fill bk w (req_ClientOrderID (rs ! k))))
          \<and> req_BaseQty (rs ! k) = bound - sum_list (take k fs))"
proof (intro conjI allI impI)
  note s = exit_orders_shape [OF assms(1)]
  show "length fs = length rs" using s by blast
  fix k assume k: "k < length rs"
  show "0 \<le> fs ! k" "fs ! k \<le> req_BaseQty (rs ! k)" "req_BaseQty (rs ! k) = bound - sum_list (take k fs)"
    using s k by blast+
  show "fs ! k = 0 \<or> fs ! k = min (req_BaseQty (rs ! k)) (real_fill bk w (req_ClientOrderID (rs ! k)))"
    using list_all2_nthD [OF assms(2) [unfolded backed_def] k] by (simp add: real_fill_def)
qed

lemma leg_trace_none: "leg_trace book pid lside symb sd bound att n lg w c c lg"
  by (auto simp: leg_trace_def backed_def intro!: exI [of _ "[]"] exit_orders.none)

lemma leg_trace_step:
  assumes "honest_venue (logged A) book ok" and "close_leg (logged A) pid lside att symb sd bound limit w = (lr, w1)" and "ok w"
    and "leg_trace book pid lside symb sd (bound - la_filled lr) (Suc att) n (snd w1) w' (c + la_filled lr) c' lg"
    and "book w' (exit_id pid lside att) = book w1 (exit_id pid lside att)" and "0 \<le> bound"
  shows "leg_trace book pid lside symb sd bound att (Suc n) (snd w) w' c c' lg"
proof -
  note b = honest_venue.close_leg_backed [OF assms(1-3)]
  obtain rs fs where t: "lg = snd w1 @ rs" "exit_orders pid lside symb sd (bound - la_filled lr) (Suc att) n rs fs"
      "backed book w' rs fs" "c' = c + la_filled lr + sum_list fs"
    using assms(4) by (auto simp: leg_trace_def)
  show ?thesis
  proof (cases "0 < bound")
    case True
    let ?r = "exit_order pid lside att symb sd bound limit"
    have "exit_orders pid lside symb sd bound att (Suc n) (?r # rs) (la_filled lr # fs)"
      using b True by (intro exit_orders.send [OF t(2)]) auto
    moreover have "backed book w' (?r # rs) (la_filled lr # fs)"
      using honest_venue.close_leg_counted [OF assms(1-3) True] t(3) assms(5)
      by (auto simp: backed_def real_fill_def exit_order_def)
    moreover have "lg = snd w @ ?r # rs" using close_leg_logged [OF assms(2)] t(1) True by simp
    ultimately show ?thesis using t(4) unfolding leg_trace_def by (intro exI [of _ "?r # rs"] exI [of _ "la_filled lr # fs"]) simp
  next
    case False
    then have "la_filled lr = 0" using b by auto
    moreover have "lg = snd w @ rs" using close_leg_logged [OF assms(2)] t(1) False by simp
    ultimately show ?thesis using t False exit_orders.skip [of pid lside symb sd bound att n rs fs]
      unfolding leg_trace_def by (intro exI [of _ rs] exI [of _ fs]) auto
  qed
qed

lemma close_loop_logged:
  assumes "honest_venue (logged L) lb lok" and "honest_venue (logged S) sb sok"
  shows "close_loop (logged L) (logged S) req p n att ll sl res wl ws = ((res', err), wl', ws') \<Longrightarrow>
     lok wl \<Longrightarrow> sok ws \<Longrightarrow> 0 \<le> ll \<Longrightarrow> 0 \<le> sl \<Longrightarrow> int (att + n) \<le> int64_max \<Longrightarrow>
     leg_trace lb (cq_PositionID req) SideLong (cq_LongSymbol req) SideShort ll att n (snd wl) wl'
       (cl_LongClosedQty res) (cl_LongClosedQty res') (snd wl')
   \<and> leg_trace sb (cq_PositionID req) SideShort (cq_ShortSymbol req) SideLong sl att n (snd ws) ws'
       (cl_ShortClosedQty res) (cl_ShortClosedQty res') (snd ws')"
proof (induction n arbitrary: att ll sl res wl ws)
  case 0
  then show ?case by (auto simp: degraded_def leg_trace_none split: if_splits)
next
  case (Suc n)
  let ?pid = "cq_PositionID req"
  from Suc.prems(1) show ?case
  proof (cases rule: close_loop_Suc_cases)
    case (attempt l1 l2 lr wl1 sr ws1)
    let ?fl = "la_filled lr" and ?fs = "la_filled sr"
    note bl = honest_venue.close_leg_backed [OF assms(1) attempt(1) Suc.prems(2)]
      and bs = honest_venue.close_leg_backed [OF assms(2) attempt(2) Suc.prems(3)]
    have left: "0 \<le> ll - ?fl" "0 \<le> sl - ?fs" using bl bs Suc.prems(4,5) by auto
    have rest: "leg_trace lb ?pid SideLong (cq_LongSymbol req) SideShort (ll - ?fl) (Suc att) n (snd wl1) wl'
          (cl_LongClosedQty res + ?fl) (cl_LongClosedQty res') (snd wl')
      \<and> leg_trace sb ?pid SideShort (cq_ShortSymbol req) SideLong (sl - ?fs) (Suc att) n (snd ws1) ws'
          (cl_ShortClosedQty res + ?fs) (cl_ShortClosedQty res') (snd ws')
      \<and> lb wl' (exit_id ?pid SideLong att) = lb wl1 (exit_id ?pid SideLong att)
      \<and> sb ws' (exit_id ?pid SideShort att) = sb ws1 (exit_id ?pid SideShort att)"
      using attempt(3)
    proof
      assume "\<exists>reason. res' = degraded (after_attempt res lr sr) (ll - ?fl) (sl - ?fs) reason
          \<and> err \<noteq> None \<and> wl' = wl1 \<and> ws' = ws1"
      then show ?thesis by (auto simp: degraded_def after_attempt_def leg_trace_none)
    next
      assume loop: "close_loop (logged L) (logged S) req p n (Suc att) (ll - ?fl) (sl - ?fs) (after_attempt res lr sr) wl1 ws1
           = ((res', err), wl', ws')"
      have "lb wl' (exit_id ?pid SideLong att) = lb wl1 (exit_id ?pid SideLong att)"
        "sb ws' (exit_id ?pid SideShort att) = sb ws1 (exit_id ?pid SideShort att)"
        using close_loop_frame [OF assms loop] bl bs exit_id_later [of att n] Suc.prems(6) by auto
      then show ?thesis using Suc.IH [OF loop] bl bs left Suc.prems(6) by (simp add: after_attempt_def)
    qed
    then show ?thesis
      using leg_trace_step [OF assms(1) attempt(1) Suc.prems(2)] leg_trace_step [OF assms(2) attempt(2) Suc.prems(3)]
        Suc.prems(4,5) by blast
  qed (simp_all add: degraded_def leg_trace_none)
qed

text \<open>
  C2: whatever honest venues answer, a coordinated close sends each leg at most
  one order per attempt, at most one more than the configured requotes, all of them reduce-only IOC
  orders that close the leg, with different client order identifiers.  For each leg there are counted fills,
  one for every order and none of them more than the order, such that every order is for exactly the common target less the fills
  counted before it; a counted fill is nothing or what the book of the venue shows for the order, and their sum is the quantity the
  result reports as closed.  It cannot open or enlarge exposure.
\<close>

theorem coordinated_close_orders:
  assumes "honest_venue L lb lok" and "honest_venue S sb sok" and "lok wl" and "sok ws"
    and "cc_MaxRequotes cfg < int64_max"
    and "CoordinatedClose (logged L) (logged S) req cfg (wl, []) (ws, []) = ((res, err), (wl', llog), (ws', slog))"
  shows "length llog \<le> nat (cc_MaxRequotes cfg + 1) \<and> length slog \<le> nat (cc_MaxRequotes cfg + 1)
     \<and> distinct (map req_ClientOrderID llog) \<and> distinct (map req_ClientOrderID slog)
     \<and> (\<forall>(o', symb, sd) \<in> (\<lambda>o'. (o', cq_LongSymbol req, SideShort)) ` set llog
            \<union> (\<lambda>o'. (o', cq_ShortSymbol req, SideLong)) ` set slog.
          req_ReduceOnly o' \<and> req_Side o' = sd \<and> req_Symbol o' = symb
          \<and> req_Mode o' = OrderMarketableLimitIOC \<and> req_TimeInForce o' = TIFIOC \<and> 0 < req_BaseQty o')
     \<and> (\<exists>fl fs. length fl = length llog \<and> length fs = length slog
          \<and> (\<forall>k < length llog. 0 \<le> fl ! k \<and> fl ! k \<le> req_BaseQty (llog ! k)
               \<and> (fl ! k = 0 \<or> fl ! k = min (req_BaseQty (llog ! k)) (real_fill lb wl' (req_ClientOrderID (llog ! k))))
               \<and> req_BaseQty (llog ! k) = min (cq_LongRemaining req) (cq_ShortRemaining req) - sum_list (take k fl))
          \<and> (\<forall>k < length slog. 0 \<le> fs ! k \<and> fs ! k \<le> req_BaseQty (slog ! k)
               \<and> (fs ! k = 0 \<or> fs ! k = min (req_BaseQty (slog ! k)) (real_fill sb ws' (req_ClientOrderID (slog ! k))))
               \<and> req_BaseQty (slog ! k) = min (cq_LongRemaining req) (cq_ShortRemaining req) - sum_list (take k fs))
          \<and> cl_LongClosedQty res = sum_list fl \<and> cl_ShortClosedQty res = sum_list fs)"
proof (cases "0 < min (cq_LongRemaining req) (cq_ShortRemaining req)")
  case False
  then have "llog = [] \<and> slog = [] \<and> res = zero_CloseResult" using assms(6) by (simp add: CoordinatedClose_def)
  then show ?thesis by (simp add: zero_CloseResult_def)
next
  case True
  let ?t = "min (cq_LongRemaining req) (cq_ShortRemaining req)" and ?n = "nat (cc_MaxRequotes cfg + 1)"
  have loop: "close_loop (logged L) (logged S) req (Dec_MulInt (cc_TickSize cfg) (cc_CloseProtectionTicks cfg))
      ?n 0 ?t ?t zero_CloseResult (wl, []) (ws, []) = ((res, err), (wl', llog), (ws', slog))"
    using assms(6) True by (simp add: CoordinatedClose_def Let_def)
  have bound: "int (0 + ?n) \<le> int64_max" using assms(5) by (simp add: int64_max_def)
  obtain fl fs where ll: "exit_orders (cq_PositionID req) SideLong (cq_LongSymbol req) SideShort ?t 0 ?n llog fl"
      "backed (\<lambda>w. lb (fst w)) (wl', llog) llog fl" "cl_LongClosedQty res = sum_list fl"
    and sl: "exit_orders (cq_PositionID req) SideShort (cq_ShortSymbol req) SideLong ?t 0 ?n slog fs"
      "backed (\<lambda>w. sb (fst w)) (ws', slog) slog fs" "cl_ShortClosedQty res = sum_list fs"
    using close_loop_logged [OF honest_logged [OF assms(1)] honest_logged [OF assms(2)] loop] assms(3,4) True bound
    by (auto simp: leg_trace_def zero_CloseResult_def)
  have inj: "inj_on (exit_id pid sd) {0..<0 + ?n}" for pid sd
    using exit_id_inj [of pid sd] assms(5) by (auto simp: inj_on_def)
  have "distinct (map (exit_id pid sd) ks)" if "sorted_wrt (<) ks" "set ks \<subseteq> {0..<0 + ?n}" for pid sd ks
    using that inj_on_subset [OF inj that(2)] by (simp add: distinct_map strict_sorted_iff)
  then have "distinct (map req_ClientOrderID llog)" "distinct (map req_ClientOrderID slog)"
    using exit_orders_shape [OF ll(1)] exit_orders_shape [OF sl(1)] by auto
  moreover have "length llog \<le> ?n" "length slog \<le> ?n"
    using exit_orders_shape [OF ll(1)] exit_orders_shape [OF sl(1)] by blast+
  moreover have "\<forall>(o', symb, sd) \<in> (\<lambda>o'. (o', cq_LongSymbol req, SideShort)) ` set llog
            \<union> (\<lambda>o'. (o', cq_ShortSymbol req, SideLong)) ` set slog.
          req_ReduceOnly o' \<and> req_Side o' = sd \<and> req_Symbol o' = symb
          \<and> req_Mode o' = OrderMarketableLimitIOC \<and> req_TimeInForce o' = TIFIOC \<and> 0 < req_BaseQty o'"
    using exit_orders_shape [OF ll(1)] exit_orders_shape [OF sl(1)] by auto
  ultimately show ?thesis
    using backed_fills [OF ll(1,2)] backed_fills [OF sl(1,2)] ll(3) sl(3) by blast
qed

theorem coordinated_close_orders_witness:
  "\<exists>res err wl ws llog slog. CoordinatedClose (logged mock_adapter) (logged mock_adapter) example_close_request
       example_close_config (Mock_New ExchangeBybit, []) (Mock_New ExchangeOKX, []) = ((res, err), (wl, llog), (ws, slog))
     \<and> length llog \<le> 4 \<and> list_all req_ReduceOnly llog
     \<and> (\<exists>fl. length fl = length llog \<and> cl_LongClosedQty res = sum_list fl)"
proof -
  obtain res err wl ws llog slog where c: "CoordinatedClose (logged mock_adapter) (logged mock_adapter)
       example_close_request example_close_config (Mock_New ExchangeBybit, []) (Mock_New ExchangeOKX, [])
       = ((res, err), (wl, llog), (ws, slog))" by (metis surj_pair)
  have n: "nat (cc_MaxRequotes example_close_config + 1) = 4" "cc_MaxRequotes example_close_config < int64_max"
    by (simp_all add: example_close_config_def int64_max_def)
  note w = coordinated_close_orders [OF mock_honest.honest_venue_axioms mock_honest.honest_venue_axioms
        mock_sane_new mock_sane_new n(2) c, unfolded n(1)]
  then have "length llog \<le> 4" "list_all req_ReduceOnly llog" by (auto simp: list_all_iff)
  moreover have "\<exists>fl. length fl = length llog \<and> cl_LongClosedQty res = sum_list fl" using w by blast
  ultimately show ?thesis using c by blast
qed

end
