(* ===== verification/CandidVenue.thy ===== *)
theory CandidVenue
  imports CloseLegs
begin

text \<open>
  When the numbers of the execution layer are exact.  A venue is candid when a query fails only with an
  ambiguous error or because there is no such order, an acknowledged order can be queried at once, and
  no order fills beyond its quantity.  At candid venues the fills \<open>Place\<close> and the coordinated close count
  are the fills of the venue's book, unless the outcome is reported as ambiguous.  The property
  \<open>place_can_hide_a_fill\<close> shows what happens at a venue that is not candid.
\<close>

locale candid_venue = honest_venue +
  assumes get_answers:
      "sane w \<Longrightarrow> ad_GetOrder A q w = (Inl e, w') \<Longrightarrow> IsAmbiguousTimeout e \<or> e = ErrOrderNotFound"
    and get_after_ack:
      "sane w \<Longrightarrow> 0 < req_BaseQty req \<Longrightarrow> ad_PlaceOrder A req w = (Inr ack, w1)
         \<Longrightarrow> \<exists>q w2. ad_GetOrder A (query_of req) w1 = (Inr q, w2)"
    and no_overfill:
      "sane w \<Longrightarrow> 0 < req_BaseQty req \<Longrightarrow> ad_PlaceOrder A req w = (r, w1) \<Longrightarrow>
         book w1 (req_ClientOrderID req) = Some ord \<Longrightarrow>
         book w (req_ClientOrderID req) = Some ord \<or> ord_FilledQty ord \<le> req_BaseQty req"
begin

text \<open>A new order: what \<open>Place\<close> returns is what the book shows.\<close>

lemma Place_exact:
  assumes "Place A req w = (r, w')" and "sane w" and "0 < req_BaseQty req"
    and "book w (req_ClientOrderID req) = None"
  shows "case r of
      Inr (o', src) \<Rightarrow> ord_FilledQty o' = real_fill book w' (req_ClientOrderID req)
        \<and> 0 \<le> ord_FilledQty o' \<and> ord_FilledQty o' \<le> req_BaseQty req
    | Inl e \<Rightarrow> \<not> IsAmbiguousTimeout e \<longrightarrow> real_fill book w' (req_ClientOrderID req) = 0"
  using assms(1)
proof (cases rule: Place_cases)
  case (acked ack w1 q)
  have b: "book w' (req_ClientOrderID req) = Some q" using get_found [OF acked(2)] by simp
  moreover have "book w1 (req_ClientOrderID req) = Some q" using b get_pure [OF acked(2)] by simp
  ultimately show ?thesis
    using acked(3) no_overfill [OF assms(2,3) acked(1)] assms(4)
      book_sane [OF Place_sane [OF assms(1,2,3)] b] by (auto simp: real_fill_def)
next
  case (ack_only ack w1 e)
  then show ?thesis using get_after_ack [OF assms(2,3) ack_only(1)] by auto
next
  case (refused e)
  then show ?thesis using place_refused [OF refused(1,2)] assms(4) by (simp add: real_fill_def)
next
  case (recovered e w1 q)
  have b: "book w' (req_ClientOrderID req) = Some q" using get_found [OF recovered(3)] by simp
  moreover have "book w1 (req_ClientOrderID req) = Some q" using b get_pure [OF recovered(3)] by simp
  ultimately show ?thesis
    using recovered(4) no_overfill [OF assms(2,3) recovered(1)] assms(4)
      book_sane [OF Place_sane [OF assms(1,2,3)] b] by (auto simp: real_fill_def)
next
  case (unresolved e w1 e')
  have "sane w1" by (rule place_sane [OF assms(2,3) unresolved(1)])
  then show ?thesis
    using unresolved get_answers [OF _ unresolved(3)] get_missing [of "query_of req" w1 w']
    by (auto simp: real_fill_def)
qed

lemma close_leg_exact:
  assumes "close_leg A pid lside att symb sd qty limit w = (lr, w')" and "sane w"
    and "book w (exit_id pid lside att) = None" and "\<not> la_ambiguous lr"
  shows "la_filled lr = real_fill book w' (exit_id pid lside att)"
proof (cases "0 < qty")
  case True
  let ?req = "exit_order pid lside att symb sd qty limit"
  have id: "req_ClientOrderID ?req = exit_id pid lside att" "req_BaseQty ?req = qty"
    by (simp_all add: exit_order_def)
  obtain r where p: "Place A ?req w = (r, w')"
    using assms(1) True by (auto simp: close_leg_def placeCloseLeg_def split: prod.splits sum.splits if_splits)
  show ?thesis
    using Place_exact [OF p assms(2)] id assms(1,3,4) True p
    by (auto simp: close_leg_def placeCloseLeg_def zero_leg_def Let_def split: sum.splits if_splits)
qed (use assms in \<open>auto simp: close_leg_def zero_leg_def real_fill_def\<close>)

end

text \<open>The mock is candid while it is not rate limited and its fill fractions are between 0 and 1.\<close>

definition mock_candid :: "Mock \<Rightarrow> bool" where
  "mock_candid m \<longleftrightarrow> mock_sane m \<and> \<not> mk_rateLimited m
     \<and> (\<forall>s r. mk_fillRules m s = Some r \<longrightarrow> fr_FillFraction r \<le> 1)"

lemma mock_sane_executed:
  "mock_sane m \<Longrightarrow> 0 < req_BaseQty req \<Longrightarrow> mock_sane (store_order m (executed m req))"
  by (simp add: mock_sane_store executed_nonneg)

lemma executed_le:
  assumes "mock_candid m" and "0 < req_BaseQty req"
  shows "ord_FilledQty (executed m req) \<le> req_BaseQty req"
proof -
  have "req_BaseQty req * fr_FillFraction r \<le> req_BaseQty req * 1" if "mk_fillRules m (req_Symbol req) = Some r" for r
    using assms that by (intro mult_left_mono) (auto simp: mock_candid_def)
  then show ?thesis by (auto simp: executed_def Let_def Dec_One_def Dec_New_def split: option.split)
qed

interpretation mock_candid: candid_venue mock_adapter mk_orders mock_candid
proof unfold_locales
  fix w w' w1 :: Mock and req r q rq i ord e ack
  show "mock_candid w \<Longrightarrow> 0 < req_BaseQty req \<Longrightarrow> ad_PlaceOrder mock_adapter req w = (r, w') \<Longrightarrow> mock_candid w'"
    using mock_honest.place_sane [of w req r w']
    by (auto simp: mock_candid_def mock_adapter_def Mock_PlaceOrder_def Let_def store_order_def
        split: option.splits if_splits)
  show "mock_candid w \<Longrightarrow> ad_GetOrder mock_adapter q w = (rq, w') \<Longrightarrow> mock_candid w'"
    by (auto simp: mock_adapter_def Mock_GetOrder_def split: option.splits)
  show "mock_candid w \<Longrightarrow> mk_orders w i = Some ord \<Longrightarrow> 0 \<le> ord_FilledQty ord"
    by (auto simp: mock_candid_def mock_sane_def)
  show "mock_candid w \<Longrightarrow> ad_GetOrder mock_adapter q w = (Inl e, w') \<Longrightarrow> IsAmbiguousTimeout e \<or> e = ErrOrderNotFound"
    by (auto simp: mock_candid_def mock_adapter_def Mock_GetOrder_def guard_def split: option.splits if_splits)
  show "mock_candid w \<Longrightarrow> 0 < req_BaseQty req \<Longrightarrow> ad_PlaceOrder mock_adapter req w = (Inr ack, w1)
      \<Longrightarrow> \<exists>q w2. ad_GetOrder mock_adapter (query_of req) w1 = (Inr q, w2)"
    by (auto simp: mock_candid_def mock_adapter_def Mock_PlaceOrder_def Mock_GetOrder_def guard_def Let_def
        store_order_def split: option.splits if_splits)
  show "mock_candid w \<Longrightarrow> 0 < req_BaseQty req \<Longrightarrow> ad_PlaceOrder mock_adapter req w = (r, w1) \<Longrightarrow>
      mk_orders w1 (req_ClientOrderID req) = Some ord \<Longrightarrow>
      mk_orders w (req_ClientOrderID req) = Some ord \<or> ord_FilledQty ord \<le> req_BaseQty req"
    using executed_le [of w req]
    by (auto simp: mock_adapter_def Mock_PlaceOrder_def Let_def store_order_def new_order_def
        split: option.splits if_splits)
qed

section \<open>The coordinated close at candid venues\<close>

text \<open>Nothing is filled under the identifiers of attempts that were not made.\<close>

definition fresh_exits :: "('w \<Rightarrow> ClientOrderID \<Rightarrow> Order option) \<Rightarrow> 'w \<Rightarrow> PositionID \<Rightarrow> Side \<Rightarrow> nat \<Rightarrow> nat \<Rightarrow> bool" where
  "fresh_exits book w pid sd att n \<longleftrightarrow> (\<forall>k \<in> {att..<att + n}. book w (exit_id pid sd k) = None)"

lemma fresh_exits_none: "fresh_exits book w pid sd att n \<Longrightarrow> exit_fills book w pid sd [att..<att + n] = 0"
proof -
  assume "fresh_exits book w pid sd att n"
  then have m: "map (\<lambda>k. real_fill book w (exit_id pid sd k)) [att..<att + n] = map (\<lambda>_. 0) [att..<att + n]"
    by (intro map_cong) (auto simp: fresh_exits_def real_fill_def)
  show ?thesis by (simp only: exit_fills_def m sum_list_0)
qed

lemma fresh_exits_step:
  assumes "fresh_exits book w pid sd att (Suc n)" and "int (att + Suc n) \<le> int64_max"
    and "\<forall>i. i \<noteq> exit_id pid sd att \<longrightarrow> book w' i = book w i"
  shows "fresh_exits book w' pid sd (Suc att) n"
  unfolding fresh_exits_def
proof
  fix k assume k: "k \<in> {Suc att..<Suc att + n}"
  then have "book w (exit_id pid sd k) = None" using assms(1) by (simp add: fresh_exits_def)
  moreover have "exit_id pid sd k \<noteq> exit_id pid sd att" using exit_id_later [OF assms(2) k] by metis
  ultimately show "book w' (exit_id pid sd k) = None" using assms(3) by simp
qed

lemma exit_fills_first:
  "exit_fills book w pid sd [att..<Suc (att + n)]
     = real_fill book w (exit_id pid sd att) + exit_fills book w pid sd [Suc att..<Suc (att + n)]"
proof -
  have "[att..<Suc (att + n)] = att # [Suc att..<Suc (att + n)]" by (simp add: upt_conv_Cons del: upt_Suc)
  then show ?thesis by (simp add: exit_fills_def)
qed

lemma close_loop_exact:
  assumes "candid_venue L lb lok" and "candid_venue S sb sok"
  shows "close_loop L S req p n att ll sl res wl ws = ((res', err), wl', ws') \<Longrightarrow> lok wl \<Longrightarrow> sok ws \<Longrightarrow>
     int (att + n) \<le> int64_max \<Longrightarrow> err \<noteq> Some ErrCloseAmbiguous \<Longrightarrow>
     fresh_exits lb wl (cq_PositionID req) SideLong att n \<Longrightarrow> fresh_exits sb ws (cq_PositionID req) SideShort att n \<Longrightarrow>
     cl_LongClosedQty res' = cl_LongClosedQty res + exit_fills lb wl' (cq_PositionID req) SideLong [att..<att + n]
   \<and> cl_ShortClosedQty res' = cl_ShortClosedQty res + exit_fills sb ws' (cq_PositionID req) SideShort [att..<att + n]"
proof (induction n arbitrary: att ll sl res wl ws)
  case 0
  then show ?case by (auto simp: exit_fills_def degraded_def split: if_splits)
next
  case (Suc n)
  let ?pid = "cq_PositionID req"
  from Suc.prems(1) show ?case
  proof (cases rule: close_loop_Suc_cases)
    case closed
    then show ?thesis using fresh_exits_none [OF Suc.prems(6)] fresh_exits_none [OF Suc.prems(7)] by simp
  next
    case (no_price reason)
    then show ?thesis
      using fresh_exits_none [OF Suc.prems(6)] fresh_exits_none [OF Suc.prems(7)] by (simp add: degraded_def)
  next
    case (attempt l1 l2 lr wl1 sr ws1)
    have hon: "honest_venue L lb lok" "honest_venue S sb sok" using assms by (simp_all add: candid_venue_def)
    have amb: "\<not> la_ambiguous lr" "\<not> la_ambiguous sr" using attempt(4) Suc.prems(5) by blast+
    have "lb wl (exit_id ?pid SideLong att) = None" "sb ws (exit_id ?pid SideShort att) = None"
      using Suc.prems(6,7) by (simp_all add: fresh_exits_def)
    then have fl: "la_filled lr = real_fill lb wl1 (exit_id ?pid SideLong att)"
      and fs: "la_filled sr = real_fill sb ws1 (exit_id ?pid SideShort att)"
      using candid_venue.close_leg_exact [OF assms(1) attempt(1) Suc.prems(2)]
        candid_venue.close_leg_exact [OF assms(2) attempt(2) Suc.prems(3)] amb by auto
    note bl = honest_venue.close_leg_backed [OF hon(1) attempt(1) Suc.prems(2)]
      and bs = honest_venue.close_leg_backed [OF hon(2) attempt(2) Suc.prems(3)]
    have fr: "fresh_exits lb wl1 ?pid SideLong (Suc att) n" "fresh_exits sb ws1 ?pid SideShort (Suc att) n"
      using fresh_exits_step [OF Suc.prems(6) Suc.prems(4)] fresh_exits_step [OF Suc.prems(7) Suc.prems(4)]
        bl bs by blast+
    from attempt(3) show ?thesis
    proof
      assume "\<exists>reason. res' = degraded (after_attempt res lr sr) (ll - la_filled lr) (sl - la_filled sr) reason
          \<and> err \<noteq> None \<and> wl' = wl1 \<and> ws' = ws1"
      then show ?thesis
        using fl fs fresh_exits_none [OF fr(1)] fresh_exits_none [OF fr(2)]
        by (auto simp: exit_fills_first degraded_def after_attempt_def simp del: upt_Suc)
    next
      assume loop: "close_loop L S req p n (Suc att) (ll - la_filled lr) (sl - la_filled sr)
          (after_attempt res lr sr) wl1 ws1 = ((res', err), wl', ws')"
      have "lb wl' (exit_id ?pid SideLong att) = lb wl1 (exit_id ?pid SideLong att)"
        "sb ws' (exit_id ?pid SideShort att) = sb ws1 (exit_id ?pid SideShort att)"
        using close_loop_frame [OF hon loop] bl bs exit_id_later [of att n] Suc.prems(4) by auto
      then show ?thesis
        using Suc.IH [OF loop] bl bs fl fs fr Suc.prems(4,5)
        by (simp add: exit_fills_first real_fill_def after_attempt_def del: upt_Suc)
    qed
  qed
qed

lemma CoordinatedClose_exact:
  assumes "candid_venue L lb lok" and "candid_venue S sb sok" and "lok wl" and "sok ws"
    and "cc_MaxRequotes cfg < int64_max"
    and "CoordinatedClose L S req cfg wl ws = ((res, err), wl', ws')"
    and "err \<noteq> Some ErrCloseAmbiguous"
    and "\<forall>k. lb wl (exit_id (cq_PositionID req) SideLong k) = None"
    and "\<forall>k. sb ws (exit_id (cq_PositionID req) SideShort k) = None"
  shows "cl_LongClosedQty res
       = exit_fills lb wl' (cq_PositionID req) SideLong [0..<nat (cc_MaxRequotes cfg + 1)]
   \<and> cl_ShortClosedQty res
       = exit_fills sb ws' (cq_PositionID req) SideShort [0..<nat (cc_MaxRequotes cfg + 1)]"
proof -
  let ?n = "nat (cc_MaxRequotes cfg + 1)"
  have fr: "fresh_exits lb wl (cq_PositionID req) SideLong 0 ?n" "fresh_exits sb ws (cq_PositionID req) SideShort 0 ?n"
    using assms(8,9) by (simp_all add: fresh_exits_def)
  have b: "int (0 + ?n) \<le> int64_max" using assms(5) by (simp add: int64_max_def)
  show ?thesis
    using close_loop_exact [OF assms(1,2) _ assms(3,4) b assms(7) fr] assms(6)
      fresh_exits_none [OF fr(1)] fresh_exits_none [OF fr(2)]
    by (auto simp: CoordinatedClose_def zero_CloseResult_def Let_def split: if_splits simp del: upt_Suc)
qed

text \<open>
  C24: at candid venues with no earlier exit orders of the position, every outcome
  of the coordinated close but the one reported as ambiguous counts for each leg exactly what the
  venue's book shows as filled for the exit orders it sent.
\<close>

theorem coordinated_close_exact:
  assumes "candid_venue L lb lok" and "candid_venue S sb sok" and "lok wl" and "sok ws"
    and "cc_MaxRequotes cfg < int64_max"
    and "CoordinatedClose L S req cfg wl ws = ((res, err), wl', ws')"
    and "err \<noteq> Some ErrCloseAmbiguous"
    and "\<forall>k. lb wl (exit_id (cq_PositionID req) SideLong k) = None"
    and "\<forall>k. sb ws (exit_id (cq_PositionID req) SideShort k) = None"
  shows "cl_LongClosedQty res
       = exit_fills lb wl' (cq_PositionID req) SideLong [0..<nat (cc_MaxRequotes cfg + 1)]
   \<and> cl_ShortClosedQty res
       = exit_fills sb ws' (cq_PositionID req) SideShort [0..<nat (cc_MaxRequotes cfg + 1)]"
  by (rule CoordinatedClose_exact [OF assms])

lemma mock_candid_new: "mock_candid (Mock_New ex)"
  by (simp add: mock_candid_def mock_sane_new) (simp add: Mock_New_def)

theorem coordinated_close_exact_witness:
  "\<exists>res wl ws. CoordinatedClose mock_adapter mock_adapter example_close_request example_close_config
       (Mock_New ExchangeBybit) (Mock_New ExchangeOKX) = ((res, None), wl, ws)
     \<and> cl_LongClosedQty res = exit_fills mk_orders wl ''P1'' SideLong [0..<4]"
proof -
  obtain res err wl ws where c: "CoordinatedClose mock_adapter mock_adapter example_close_request
       example_close_config (Mock_New ExchangeBybit) (Mock_New ExchangeOKX) = ((res, err), wl, ws)"
    by (metis surj_pair)
  have e: "err = None"
    using c by (auto simp: CoordinatedClose_def example_close_request_def example_close_config_def
        numeral_eq_Suc close_leg_def placeCloseLeg_def Place_def mock_adapter_def Mock_PlaceOrder_def
        Mock_GetOrder_def guard_def Mock_New_def executed_def new_order_def store_order_def Let_def
        query_of_def exit_order_def get_or_def zero_leg_def Dec_One_def Dec_New_def isTerminalNegative_def order_of_ack_def)
  show ?thesis
    using coordinated_close_exact [OF mock_candid.candid_venue_axioms mock_candid.candid_venue_axioms
        mock_candid_new mock_candid_new _ c] c e
    by (auto simp: example_close_request_def example_close_config_def int64_max_def Mock_New_def simp del: upt_Suc)
qed

end
