(* ===== verification/Lifecycle.thy ===== *)
theory Lifecycle
  imports GoLib
begin

text \<open>
  Packages \<open>internal/lifecycle\<close> and \<open>internal/repository\<close> (\<open>locks.go\<close>): start preconditions, the SAFE_HALT
  guard with its memory flag and its persistent lock, the database watchdog and the supervisor.

  The connection pool of the database driver is a parameter, the record \<open>pool\<close> of the statements
  \<open>locks.go\<close> sends; the locale \<open>lock_table\<close> states what PostgreSQL does with them.  \<open>LocksRepo\<close> turns a
  pool into a \<open>lock_control\<close>, the interface the \<open>Halter\<close> uses; the locale \<open>lock_service\<close> is the contract
  of that interface.  Error values keep their cause; their texts are not modelled.
\<close>

section \<open>The lock repository\<close>

record LockRow =
  lk_engaged :: bool
  lk_reason :: "string option"
  lk_engaged_at :: "time option"
  lk_released_at :: "time option"

text \<open>The two statements that change \<open>system_locks\<close>.\<close>

datatype lock_stmt = UpsertLock string string time | ReleaseLock string time

datatype db_error = DbNoRows | DbFailed string

record 'w pool =
  pl_Now :: "'w \<Rightarrow> time"
  pl_Exec :: "lock_stmt \<Rightarrow> 'w \<Rightarrow> db_error option \<times> 'w"
  pl_QueryEngaged :: "string \<Rightarrow> 'w \<Rightarrow> (db_error + bool) \<times> 'w"
  pl_QueryOwner :: "'w \<Rightarrow> (db_error + bool) \<times> 'w"

datatype lock_error = EngageFailed string db_error | ReleaseFailed string db_error | OwnerFailed db_error

record 'w lock_control =
  lc_Engage :: "string \<Rightarrow> string \<Rightarrow> 'w \<Rightarrow> lock_error option \<times> 'w"
  lc_Release :: "string \<Rightarrow> 'w \<Rightarrow> lock_error option \<times> 'w"
  lc_IsEngaged :: "string \<Rightarrow> 'w \<Rightarrow> (lock_error + bool) \<times> 'w"

definition Locks_Engage :: "'w pool \<Rightarrow> string \<Rightarrow> string \<Rightarrow> 'w \<Rightarrow> lock_error option \<times> 'w" where
  "Locks_Engage P name reason w =
     (case pl_Exec P (UpsertLock name reason (pl_Now P w)) w of (e, w') \<Rightarrow> (map_option (EngageFailed name) e, w'))"

definition Locks_Release :: "'w pool \<Rightarrow> string \<Rightarrow> 'w \<Rightarrow> lock_error option \<times> 'w" where
  "Locks_Release P name w =
     (case pl_Exec P (ReleaseLock name (pl_Now P w)) w of (e, w') \<Rightarrow> (map_option (ReleaseFailed name) e, w'))"

text \<open>Any error of the query, not only a missing row, is answered by \<open>false, nil\<close>.\<close>

definition Locks_IsEngaged :: "'w pool \<Rightarrow> string \<Rightarrow> 'w \<Rightarrow> (lock_error + bool) \<times> 'w" where
  "Locks_IsEngaged P name w =
     (case pl_QueryEngaged P name w of
        (Inl e, w') \<Rightarrow> (Inr False, w')
      | (Inr engaged, w') \<Rightarrow> (Inr engaged, w'))"

definition OwnerReady :: "'w pool \<Rightarrow> 'w \<Rightarrow> (lock_error + bool) \<times> 'w" where
  "OwnerReady P w =
     (case pl_QueryOwner P w of
        (Inl e, w') \<Rightarrow> (Inl (OwnerFailed e), w')
      | (Inr ready, w') \<Rightarrow> (Inr ready, w'))"

definition locks_repo :: "'w pool \<Rightarrow> 'w lock_control" where
  "locks_repo P = \<lparr>lc_Engage = Locks_Engage P, lc_Release = Locks_Release P, lc_IsEngaged = Locks_IsEngaged P\<rparr>"

text \<open>What a statement does to the table.\<close>

fun apply_stmt :: "lock_stmt \<Rightarrow> (string \<rightharpoonup> LockRow) \<Rightarrow> (string \<rightharpoonup> LockRow)" where
  "apply_stmt (UpsertLock name reason now) rows =
     rows(name \<mapsto> \<lparr>lk_engaged = True, lk_reason = Some reason, lk_engaged_at = Some now, lk_released_at = None\<rparr>)"
| "apply_stmt (ReleaseLock name now) rows =
     (case rows name of
        None \<Rightarrow> rows
      | Some row \<Rightarrow> rows(name \<mapsto> row\<lparr>lk_engaged := False, lk_reason := None, lk_released_at := Some now\<rparr>))"

declare apply_stmt.simps [simp del]

definition row_engaged :: "(string \<rightharpoonup> LockRow) \<Rightarrow> string \<Rightarrow> bool" where
  "row_engaged rows name = (case rows name of None \<Rightarrow> False | Some row \<Rightarrow> lk_engaged row)"

lemma row_engaged_apply [simp]:
  "row_engaged (apply_stmt (UpsertLock n r t) rows) m \<longleftrightarrow> m = n \<or> row_engaged rows m"
  "row_engaged (apply_stmt (ReleaseLock n t) rows) m \<longleftrightarrow> m \<noteq> n \<and> row_engaged rows m"
  by (auto simp: row_engaged_def apply_stmt.simps split: option.splits)

text \<open>
  What the repository relies on: a statement that succeeds is applied, one that fails may have been
  applied or not (the error may be the network's), and a query reads the table.
\<close>

locale lock_table =
  fixes P :: "'w pool" and rows :: "'w \<Rightarrow> string \<rightharpoonup> LockRow"
  assumes exec_ok: "pl_Exec P s w = (None, w') \<Longrightarrow> rows w' = apply_stmt s (rows w)"
    and exec_failed: "pl_Exec P s w = (Some e, w') \<Longrightarrow> rows w' = rows w \<or> rows w' = apply_stmt s (rows w)"
    and query_pure: "pl_QueryEngaged P n w = (r, w') \<Longrightarrow> rows w' = rows w"
    and query_ok: "pl_QueryEngaged P n w = (Inr b, w') \<Longrightarrow> \<exists>row. rows w n = Some row \<and> lk_engaged row = b"
    and query_missing: "pl_QueryEngaged P n w = (Inl DbNoRows, w') \<Longrightarrow> rows w n = None"

text \<open>
  The contract of \<open>LockControl\<close>: a lock that was engaged without an error is engaged, one released
  without an error is not, a failed call has at most the effect it asked for, and \<open>true\<close> is the
  truth.  The answer \<open>false\<close> promises nothing.
\<close>

locale lock_service =
  fixes C :: "'w lock_control" and engaged :: "'w \<Rightarrow> string \<Rightarrow> bool"
  assumes engage_ok: "lc_Engage C n reason w = (None, w') \<Longrightarrow> engaged w' n"
    and engage_keeps: "lc_Engage C n reason w = (r, w') \<Longrightarrow> engaged w m \<Longrightarrow> engaged w' m"
    and release_ok: "lc_Release C n w = (None, w') \<Longrightarrow> \<not> engaged w' n"
    and read_pure: "lc_IsEngaged C n w = (r', w') \<Longrightarrow> engaged w' m = engaged w m"
    and read_true: "lc_IsEngaged C n w = (Inr True, w') \<Longrightarrow> engaged w n"

context lock_table
begin

lemma exec_rows:
  assumes "pl_Exec P s w = (r, w')"
  shows "rows w' = rows w \<or> rows w' = apply_stmt s (rows w)"
  using assms exec_ok exec_failed by (cases r) blast+

end

sublocale lock_table \<subseteq> repo: lock_service "locks_repo P" "\<lambda>w. row_engaged (rows w)"
proof
  fix n reason w w'
  assume "lc_Engage (locks_repo P) n reason w = (None, w')"
  then show "row_engaged (rows w') n"
    using exec_ok [of "UpsertLock n reason (pl_Now P w)" w w']
    by (auto simp: locks_repo_def Locks_Engage_def split: prod.splits)
next
  fix n reason w r w' m
  assume "lc_Engage (locks_repo P) n reason w = (r, w')" and eng: "row_engaged (rows w) m"
  then obtain e where "pl_Exec P (UpsertLock n reason (pl_Now P w)) w = (e, w')"
    by (auto simp: locks_repo_def Locks_Engage_def split: prod.splits)
  from exec_rows [OF this] show "row_engaged (rows w') m"
    using eng by auto
next
  fix n w w'
  assume "lc_Release (locks_repo P) n w = (None, w')"
  then show "\<not> row_engaged (rows w') n"
    using exec_ok [of "ReleaseLock n (pl_Now P w)" w w']
    by (auto simp: locks_repo_def Locks_Release_def split: prod.splits)
next
  fix n w r' w' m
  assume "lc_IsEngaged (locks_repo P) n w = (r', w')"
  then show "row_engaged (rows w') m = row_engaged (rows w) m"
    using query_pure [of n w] by (auto simp: locks_repo_def Locks_IsEngaged_def split: prod.splits sum.splits)
next
  fix n w w'
  assume "lc_IsEngaged (locks_repo P) n w = (Inr True, w')"
  then show "row_engaged (rows w) n"
    using query_ok [of n w True] by (auto simp: locks_repo_def Locks_IsEngaged_def row_engaged_def split: prod.splits sum.splits)
qed

section \<open>A database\<close>

text \<open>
  PostgreSQL running the statements, with a schedule of failures: the next statement fails, unexecuted,
  when the head of \<open>pg_faults\<close> says so.
\<close>

record Pg =
  pg_rows :: "string \<rightharpoonup> LockRow"
  pg_faults :: "bool list"
  pg_owner :: bool

definition pg_fault :: "Pg \<Rightarrow> bool \<times> Pg" where
  "pg_fault d = (case pg_faults d of [] \<Rightarrow> (False, d) | f # fs \<Rightarrow> (f, d\<lparr>pg_faults := fs\<rparr>))"

definition pg_pool :: "Pg pool" where
  "pg_pool = \<lparr>pl_Now = (\<lambda>d. 0),
     pl_Exec = (\<lambda>s d. case pg_fault d of (f, d') \<Rightarrow>
        if f then (Some (DbFailed ''down''), d') else (None, d'\<lparr>pg_rows := apply_stmt s (pg_rows d')\<rparr>)),
     pl_QueryEngaged = (\<lambda>n d. case pg_fault d of (f, d') \<Rightarrow>
        (if f then Inl (DbFailed ''down'')
         else case pg_rows d' n of None \<Rightarrow> Inl DbNoRows | Some row \<Rightarrow> Inr (lk_engaged row), d')),
     pl_QueryOwner = (\<lambda>d. case pg_fault d of (f, d') \<Rightarrow>
        (if f then Inl (DbFailed ''down'') else Inr (pg_owner d'), d'))\<rparr>"

lemma pg_fault_rows: "pg_fault d = (f, d') \<Longrightarrow> pg_rows d' = pg_rows d"
  by (auto simp: pg_fault_def split: list.splits)

lemma pg_lock_table: "lock_table pg_pool pg_rows"
  by unfold_locales (auto simp: pg_pool_def pg_fault_rows split: prod.splits if_splits option.splits)

interpretation pg: lock_table pg_pool pg_rows
  by (rule pg_lock_table)

section \<open>SAFE_HALT\<close>

definition SafeHaltName :: string where "SafeHaltName = ''SAFE_HALT''"

text \<open>The two flags say whether \<open>notifier\<close> and \<open>sideLog\<close> are not nil.\<close>

record Halter =
  hl_notifier :: bool
  hl_sideLog :: bool
  hl_halted :: bool
  hl_reason :: string

text \<open>Lines of the side channel and messages to the operator, in the order they are written.\<close>

datatype halt_output = SideEngaged string | SidePersistFailed lock_error | SideReleased | NotifyCritical string

datatype life_error = RestoreError lock_error | PersistError lock_error | ReleaseError lock_error

definition NewHalter :: "bool \<Rightarrow> bool \<Rightarrow> Halter" where
  "NewHalter notifier sideLog = \<lparr>hl_notifier = notifier, hl_sideLog = sideLog, hl_halted = False, hl_reason = []\<rparr>"

definition RestoreFromDB :: "'w lock_control \<Rightarrow> Halter \<Rightarrow> 'w \<Rightarrow> life_error option \<times> Halter \<times> 'w" where
  "RestoreFromDB C h w =
     (case lc_IsEngaged C SafeHaltName w of
        (Inl e, w') \<Rightarrow> (Some (RestoreError e), h, w')
      | (Inr engaged, w') \<Rightarrow> (None, h\<lparr>hl_halted := engaged\<rparr>, w'))"

definition Halt :: "'w lock_control \<Rightarrow> string \<Rightarrow> Halter \<Rightarrow> 'w \<Rightarrow> (life_error option \<times> halt_output list) \<times> Halter \<times> 'w" where
  "Halt C reason h w =
     (let h' = h\<lparr>hl_halted := True, hl_reason := reason\<rparr>;
          out1 = (if hl_sideLog h' then [SideEngaged reason] else []);
          out2 = (if hl_notifier h' then [NotifyCritical reason] else [])
      in case lc_Engage C SafeHaltName reason w of
           (Some e, w') \<Rightarrow>
             ((Some (PersistError e), out1 @ out2 @ (if hl_sideLog h' then [SidePersistFailed e] else [])), h', w')
         | (None, w') \<Rightarrow> ((None, out1 @ out2), h', w'))"

definition Resume :: "'w lock_control \<Rightarrow> Halter \<Rightarrow> 'w \<Rightarrow> (life_error option \<times> halt_output list) \<times> Halter \<times> 'w" where
  "Resume C h w =
     (case lc_Release C SafeHaltName w of
        (Some e, w') \<Rightarrow> ((Some (ReleaseError e), []), h, w')
      | (None, w') \<Rightarrow> ((None, if hl_sideLog h then [SideReleased] else []),
                       h\<lparr>hl_halted := False, hl_reason := []\<rparr>, w'))"

definition IsHalted :: "Halter \<Rightarrow> bool \<times> string" where
  "IsHalted h = (hl_halted h, hl_reason h)"

lemma Halt_stops:
  assumes "Halt C reason h w = (r, h', w')"
  shows "hl_halted h'" and "hl_reason h' = reason"
  using assms by (auto simp: Halt_def Let_def split: prod.splits option.splits)

lemma Resume_release:
  assumes "Resume C h w = ((e, out), h', w')"
  shows "e \<noteq> None \<Longrightarrow> h' = h" and "e = None \<Longrightarrow> fst (lc_Release C SafeHaltName w) = None"
  using assms by (auto simp: Resume_def split: prod.splits option.splits)

section \<open>The database watchdog\<close>

definition watch_threshold :: "int \<Rightarrow> int" where
  "watch_threshold t = (if t \<le> 0 then 3 else t)"

definition watch_interval :: "duration \<Rightarrow> duration" where
  "watch_interval i = (if i \<le> 0 then 5 * Second else i)"

text \<open>The reason is given as the count of failures in a row and the ping's error.\<close>

definition watch_reason :: "int \<Rightarrow> string \<Rightarrow> string" where
  "watch_reason failures err =
     ''database unavailable ('' @ format_int failures @ '' consecutive ping failures): '' @ err"

text \<open>One tick of the watchdog's loop; \<open>ping\<close> is the error of the ping, if any.\<close>

definition watch_tick ::
  "'w lock_control \<Rightarrow> int \<Rightarrow> string option \<Rightarrow> int \<times> Halter \<times> 'w \<Rightarrow> int \<times> Halter \<times> 'w" where
  "watch_tick C threshold ping = (\<lambda>(failures, h, w).
     (case ping of
        None \<Rightarrow> (0, h, w)
      | Some err \<Rightarrow>
          (let failures' = failures + 1
           in if failures' \<ge> threshold \<and> \<not> fst (IsHalted h)
              then (case Halt C (watch_reason failures' err) h w of (_, h', w') \<Rightarrow> (failures', h', w'))
              else (failures', h, w))))"

definition Watchdog_Run :: "'w lock_control \<Rightarrow> int \<Rightarrow> string option list \<Rightarrow> Halter \<Rightarrow> 'w \<Rightarrow> Halter \<times> 'w" where
  "Watchdog_Run C threshold pings h w =
     snd (fold (watch_tick C (watch_threshold threshold)) pings (0, h, w))"

section \<open>The supervisor\<close>

text \<open>
  \<open>Run\<close> sees the world through its channels: the cancellation of the parent context, the exits of the
  components in the order they arrive and the shutdown timer.  A run is a function of the sequence
  of these events; \<open>None\<close> means that it still waits when the events are used up.
\<close>

datatype comp_exit = ExitNil | ExitCanceled | ExitErr string

datatype sup_event = ParentDone | CompExit string comp_exit | Deadline

text \<open>\<open>SupReturned\<close> holds the first error, named by its component; \<open>SupTimeout\<close> also the number of components left.\<close>

datatype sup_result = SupReturned "(string \<times> string) option" | SupTimeout nat "(string \<times> string) option"

fun exit_error :: "string \<Rightarrow> comp_exit \<Rightarrow> (string \<times> string) option" where
  "exit_error name (ExitErr err) = Some (name, err)"
| "exit_error name ExitNil = None"
| "exit_error name ExitCanceled = None"

fun sup_drain :: "nat \<Rightarrow> (string \<times> string) option \<Rightarrow> sup_event list \<Rightarrow> sup_result option" where
  "sup_drain 0 firstErr evs = Some (SupReturned firstErr)"
| "sup_drain (Suc n) firstErr [] = None"
| "sup_drain (Suc n) firstErr (CompExit name e # evs) =
     sup_drain n (if firstErr = None then exit_error name e else firstErr) evs"
| "sup_drain (Suc n) firstErr (Deadline # evs) = Some (SupTimeout (Suc n) firstErr)"
| "sup_drain (Suc n) firstErr (ParentDone # evs) = sup_drain (Suc n) firstErr evs"

text \<open>The timer is created after the first outcome, so a \<open>Deadline\<close> before it does not exist.\<close>

fun Supervisor_Run :: "nat \<Rightarrow> sup_event list \<Rightarrow> sup_result option" where
  "Supervisor_Run n [] = None"
| "Supervisor_Run n (ParentDone # evs) = sup_drain n None evs"
| "Supervisor_Run n (CompExit name e # evs) = sup_drain (n - 1) (exit_error name e) evs"
| "Supervisor_Run n (Deadline # evs) = Supervisor_Run n evs"

definition shutdown_timeout :: "duration \<Rightarrow> duration" where
  "shutdown_timeout t = (if t \<le> 0 then 30 * Second else t)"

text \<open>The exits among some events, and the first genuine failure among some exits.\<close>

fun exits_of :: "sup_event list \<Rightarrow> (string \<times> comp_exit) list" where
  "exits_of [] = []"
| "exits_of (CompExit name e # evs) = (name, e) # exits_of evs"
| "exits_of (_ # evs) = exits_of evs"

fun first_failure :: "(string \<times> comp_exit) list \<Rightarrow> (string \<times> string) option" where
  "first_failure [] = None"
| "first_failure ((name, e) # es) = (case exit_error name e of None \<Rightarrow> first_failure es | Some x \<Rightarrow> Some x)"

definition sup_spec :: "nat \<Rightarrow> (string \<times> string) option \<Rightarrow> sup_event list \<Rightarrow> sup_result option" where
  "sup_spec n firstErr evs =
     (let es = exits_of (takeWhile (\<lambda>e. e \<noteq> Deadline) evs);
          err = (\<lambda>xs. if firstErr = None then first_failure xs else firstErr)
      in if n \<le> length es then Some (SupReturned (err (take n es)))
         else if Deadline \<in> set evs then Some (SupTimeout (n - length es) (err es)) else None)"

lemma sup_drain_spec: "sup_drain n firstErr evs = sup_spec n firstErr evs"
proof (induction n firstErr evs rule: sup_drain.induct)
  case (3 n firstErr name e evs)
  then show ?case
    by (cases "exit_error name e") (auto simp: sup_spec_def Let_def)
qed (auto simp: sup_spec_def Let_def)

text \<open>
  once the first component has exited or the process was cancelled, the supervisor
  returns as soon as every component has exited, with the first genuine failure in order of arrival and
  with no error when there was none; if the shutdown timer fires before that it returns a timeout error
  that counts the components still running.  It waits only while components run and the timer has not fired.
\<close>

theorem supervisor_outcome:
  assumes "0 < n" and "evs \<noteq> []" and "hd evs \<noteq> Deadline"
  shows "Supervisor_Run n evs =
     (let es = exits_of (takeWhile (\<lambda>e. e \<noteq> Deadline) evs)
      in if n \<le> length es then Some (SupReturned (first_failure (take n es)))
         else if Deadline \<in> set evs then Some (SupTimeout (n - length es) (first_failure es))
         else None)"
proof -
  obtain ev rest where evs: "evs = ev # rest" using assms(2) by (cases evs) auto
  show ?thesis
  proof (cases ev)
    case (CompExit name e)
    obtain m where "n = Suc m" using assms(1) by (cases n) auto
    then show ?thesis
      using CompExit evs by (cases "exit_error name e") (auto simp: sup_drain_spec sup_spec_def Let_def)
  qed (use assms evs in \<open>auto simp: sup_drain_spec sup_spec_def Let_def\<close>)
qed

theorem supervisor_outcome_witness:
  "Supervisor_Run 3 [CompExit ''bot'' ExitNil, CompExit ''engine'' (ExitErr ''panic''), ParentDone, Deadline]
     = Some (SupTimeout 1 (Some (''engine'', ''panic'')))"
  by (subst supervisor_outcome) simp_all

section \<open>When the watchdog halts\<close>

abbreviation "failing_run \<equiv> has_run (\<lambda>p :: string option. p \<noteq> None)"
abbreviation "trailing \<equiv> trailing_run (\<lambda>p :: string option. p \<noteq> None)"

lemma watch_fold:
  assumes "0 < T" and "\<not> hl_halted h"
    and "fold (watch_tick C T) pings (0, h, w) = (k, h', w')"
  shows "k = int (trailing pings)
     \<and> (if failing_run (nat T) pings
        then (\<exists>err. h' = h\<lparr>hl_halted := True, hl_reason := watch_reason T err\<rparr>
                   \<and> w' = snd (lc_Engage C SafeHaltName (watch_reason T err) w))
        else h' = h \<and> w' = w)"
  using assms(3)
proof (induction pings arbitrary: k h' w' rule: rev_induct)
  case Nil
  then show ?case using assms(1) by (auto simp: has_run_def)
next
  case (snoc p ps)
  obtain k0 h0 w0 where f: "fold (watch_tick C T) ps (0, h, w) = (k0, h0, w0)"
    by (metis surj_pair)
  note IH = snoc.IH [OF f]
  have step: "watch_tick C T p (k0, h0, w0) = (k, h', w')"
    using snoc.prems f by simp
  show ?case
  proof (cases p)
    case None
    then show ?thesis
      using IH step assms(1) by (auto simp: has_run_snoc watch_tick_def split: if_splits)
  next
    case (Some err)
    show ?thesis
    proof (cases "failing_run (nat T) ps")
      case True
      then show ?thesis
        using IH step Some by (auto simp: has_run_snoc watch_tick_def IsHalted_def Let_def)
    next
      case False
      from no_run_trailing [OF this]
      have T: "T \<le> int (trailing ps) + 1 \<longleftrightarrow> T = int (trailing ps) + 1" by auto
      show ?thesis
        using IH step Some False assms(1,2) T
        by (cases "T = int (trailing ps) + 1")
          (auto simp: has_run_snoc watch_tick_def IsHalted_def Let_def Halt_def
            split: prod.splits option.splits intro!: exI [of _ err])
    qed
  qed
qed

text \<open>
  C39: a watchdog over a running system halts it exactly when, somewhere among the
  pings, as many in a row failed as its threshold says (three when it is not positive); it engages
  the persistent lock once, with the count of failures at that moment as the reason, and until then
  touches neither the guard nor the lock.
\<close>

theorem watchdog_halts_iff:
  assumes "\<not> fst (IsHalted h)" and "Watchdog_Run C threshold pings h w = (h', w')"
  shows "(fst (IsHalted h') \<longleftrightarrow> (\<exists>us xs vs. pings = us @ xs @ vs
            \<and> int (length xs) = (if threshold \<le> 0 then 3 else threshold) \<and> None \<notin> set xs))
     \<and> (\<not> fst (IsHalted h') \<longrightarrow> h' = h \<and> w' = w)
     \<and> (fst (IsHalted h') \<longrightarrow> (\<exists>err. snd (IsHalted h') = watch_reason (if threshold \<le> 0 then 3 else threshold) err
            \<and> w' = snd (lc_Engage C SafeHaltName (snd (IsHalted h')) w)))"
proof -
  define T where "T = (if threshold \<le> 0 then 3 else threshold)"
  have T: "0 < T" "watch_threshold threshold = T" by (auto simp: T_def watch_threshold_def)
  have run: "failing_run (nat T) pings
      \<longleftrightarrow> (\<exists>us xs vs. pings = us @ xs @ vs \<and> int (length xs) = T \<and> None \<notin> set xs)"
  proof -
    have "(\<forall>x\<in>set xs. x \<noteq> None) = (None \<notin> set xs)" for xs :: "string option list" by metis
    moreover have "(length xs = nat T) = (int (length xs) = T)" for xs :: "string option list" using T(1) by auto
    ultimately show ?thesis by (simp only: has_run_def)
  qed
  obtain k where f: "fold (watch_tick C T) pings (0, h, w) = (k, h', w')"
    using assms(2) T(2) by (metis Watchdog_Run_def prod.collapse)
  have nh: "\<not> hl_halted h" using assms(1) by (simp add: IsHalted_def)
  from watch_fold [OF T(1) nh f] have "if failing_run (nat T) pings
        then (\<exists>err. h' = h\<lparr>hl_halted := True, hl_reason := watch_reason T err\<rparr>
                   \<and> w' = snd (lc_Engage C SafeHaltName (watch_reason T err) w))
        else h' = h \<and> w' = w"
    by (rule conjunct2)
  then show ?thesis
    using assms(1) unfolding T_def [symmetric] run [symmetric]
    by (auto simp: IsHalted_def split: if_splits)
qed

theorem watchdog_halts_iff_witness:
  "fst (IsHalted (fst (Watchdog_Run (locks_repo pg_pool) 2
     [Some ''refused'', None, Some ''refused'', Some ''refused''] (NewHalter True True)
     \<lparr>pg_rows = Map.empty, pg_faults = [True], pg_owner = True\<rparr>)))"
proof -
  let ?pings = "[Some ''refused'', None, Some ''refused'', Some ''refused''] :: string option list"
  let ?d = "\<lparr>pg_rows = Map.empty, pg_faults = [True], pg_owner = True\<rparr>"
  obtain h' w' where r: "Watchdog_Run (locks_repo pg_pool) 2 ?pings (NewHalter True True) ?d = (h', w')"
    by (metis surj_pair)
  have "?pings = [Some ''refused'', None] @ [Some ''refused'', Some ''refused''] @ []" by simp
  then show ?thesis
    using watchdog_halts_iff [OF _ r] unfolding r
    by (metis IsHalted_def NewHalter_def Halter.select_convs(3) fst_conv length_Cons list.size(3)
        list.set_intros(1) set_ConsD empty_iff empty_set option.distinct(1) of_nat_numeral
        numeral_2_eq_2 not_numeral_le_zero)
qed

section \<open>The system over a restart\<close>

text \<open>
  Several processes share the database, each with its failure counter and its guard.  A step is one call
  on one of them or its restart; its label tells the steps by which an engaged lock can be lost.
\<close>

datatype halt_label = Ordinary | Resuming | BlindRestart

type_synonym 'w halt_state = "(nat \<Rightarrow> int \<times> Halter) \<times> 'w"

definition query_failed :: "'w pool \<Rightarrow> 'w \<Rightarrow> bool" where
  "query_failed P w \<longleftrightarrow> (case fst (pl_QueryEngaged P SafeHaltName w) of Inl (DbFailed e) \<Rightarrow> True | _ \<Rightarrow> False)"

inductive halt_step :: "'w pool \<Rightarrow> int \<Rightarrow> halt_label \<Rightarrow> 'w halt_state \<Rightarrow> 'w halt_state \<Rightarrow> bool"
  for P :: "'w pool" and T :: int where
  do_halt: "ps i = (k, h) \<Longrightarrow> Halt (locks_repo P) reason h w = (r, h', w') \<Longrightarrow>
     halt_step P T Ordinary (ps, w) (ps(i := (k, h')), w')"
| do_tick: "watch_tick (locks_repo P) T ping (fst (ps i), snd (ps i), w) = (k', h', w') \<Longrightarrow>
     halt_step P T Ordinary (ps, w) (ps(i := (k', h')), w')"
| do_restart: "RestoreFromDB (locks_repo P) (NewHalter nt sl) w = (None, h', w') \<Longrightarrow>
     halt_step P T (if query_failed P w then BlindRestart else Ordinary) (ps, w) (ps(i := (0, h')), w')"
| do_resume: "ps i = (k, h) \<Longrightarrow> Resume (locks_repo P) h w = (r, h', w') \<Longrightarrow>
     halt_step P T Resuming (ps, w) (ps(i := (k, h')), w')"

inductive_cases halt_stepE: "halt_step P T l (ps, w) st"

context lock_table
begin

abbreviation "locked w \<equiv> row_engaged (rows w) SafeHaltName"

lemma Halt_locks:
  assumes "Halt (locks_repo P) reason h w = ((e, out), h', w')"
  shows "e = None \<Longrightarrow> locked w'" and "locked w \<Longrightarrow> locked w'"
  using assms repo.engage_ok [of SafeHaltName reason w] repo.engage_keeps [of SafeHaltName reason w]
  by (auto simp: Halt_def Let_def split: prod.splits option.splits)

lemma Restore_reads:
  assumes "RestoreFromDB (locks_repo P) h w = (e, h', w')"
  shows "e = None" and "rows w' = rows w"
    and "\<not> query_failed P w \<Longrightarrow> hl_halted h' = locked w"
  using assms query_pure [of SafeHaltName w] query_ok [of SafeHaltName w] query_missing [of SafeHaltName w]
  by (auto simp: RestoreFromDB_def locks_repo_def Locks_IsEngaged_def query_failed_def row_engaged_def
      split: prod.splits sum.splits db_error.splits)

lemma tick_locks:
  assumes "watch_tick (locks_repo P) T ping (k, h, w) = (k', h', w')"
  shows "locked w \<Longrightarrow> locked w'" and "hl_halted h \<Longrightarrow> hl_halted h'"
  using assms Halt_locks(2) Halt_stops(1)
  by (auto simp: watch_tick_def Let_def split: option.splits if_splits prod.splits)

lemma step_locks:
  assumes "halt_step P T Ordinary (ps, w) (ps', w')" and "locked w" and "hl_halted (snd (ps i))"
  shows "locked w' \<and> hl_halted (snd (ps' i))"
  using assms
proof cases
  case (do_halt j k h reason r h')
  then show ?thesis
    using assms Halt_locks(2) [of reason h w "fst r" "snd r"] Halt_stops(1) [of "locks_repo P" reason h w] by auto
next
  case (do_tick ping j k' h')
  then show ?thesis
    using assms tick_locks [of T ping "fst (ps j)" "snd (ps j)" w] by auto
next
  case (do_restart nt sl h' j)
  then show ?thesis
    using assms Restore_reads [OF do_restart(3)] by (auto split: if_splits)
qed

lemma steps_lock:
  assumes "(halt_step P T Ordinary)\<^sup>*\<^sup>* st st'" and "locked (snd st)" and "hl_halted (snd (fst st i))"
  shows "locked (snd st') \<and> hl_halted (snd (fst st' i))"
  using assms(1)
proof induction
  case (step y z)
  then show ?case using step_locks [of T "fst y" "snd y" "fst z" "snd z" i] by simp
qed (use assms in simp)

end

text \<open>
  C11: a halt that was persisted outlives everything but a resume.  Whatever halts,
  watchdog ticks and restarts of this and of other processes follow, failed writes included, as long as
  nobody resumes and no restart's lock query fails: the process that halted is halted, the lock is
  engaged, and a process started next comes up halted, again unless its lock query fails.
\<close>

theorem safe_halt_sticks:
  assumes "lock_table P rows"
    and "Halt (locks_repo P) reason h w = ((None, out), h', w')"
    and "(halt_step P T Ordinary)\<^sup>*\<^sup>* (ps(i := (k, h')), w') (ps'', w'')"
  shows "fst (IsHalted (snd (ps'' i))) \<and> row_engaged (rows w'') SafeHaltName
     \<and> (query_failed P w'' \<or> fst (IsHalted (fst (snd (RestoreFromDB (locks_repo P) (NewHalter nt sl) w'')))))"
proof -
  note locks = lock_table.Halt_locks(1) [OF assms(1,2)] Halt_stops(1) [OF assms(2)]
  then have l: "row_engaged (rows w'') SafeHaltName" "hl_halted (snd (ps'' i))"
    using lock_table.steps_lock [OF assms(1,3), of i] by simp_all
  obtain e h1 w1 where "RestoreFromDB (locks_repo P) (NewHalter nt sl) w'' = (e, h1, w1)"
    by (metis surj_pair)
  then show ?thesis
    using l lock_table.Restore_reads(3) [OF assms(1), of "NewHalter nt sl" w''] by (auto simp: IsHalted_def)
qed

text \<open>A database without rows, whose first \<open>fs\<close> statements fail as scheduled.\<close>

definition example_db :: "bool list \<Rightarrow> Pg" where
  "example_db fs = \<lparr>pg_rows = Map.empty, pg_faults = fs, pg_owner = True\<rparr>"

theorem safe_halt_sticks_witness:
  "\<exists>ps'' w''. (halt_step pg_pool 3 Ordinary)\<^sup>*\<^sup>*
       ((\<lambda>i. (0, NewHalter True True))(0 := (0, fst (snd (Halt (locks_repo pg_pool) ''key rotation'' (NewHalter True True) (example_db []))))),
        snd (snd (Halt (locks_repo pg_pool) ''key rotation'' (NewHalter True True) (example_db [])))) (ps'', w'')
     \<and> fst (IsHalted (snd (ps'' 0))) \<and> row_engaged (pg_rows w'') SafeHaltName"
proof -
  let ?ps = "\<lambda>i::nat. (0::int, NewHalter True True)"
  obtain out h' w' where h: "Halt (locks_repo pg_pool) ''key rotation'' (NewHalter True True) (example_db []) = ((None, out), h', w')"
    by (simp add: Halt_def locks_repo_def Locks_Engage_def pg_pool_def pg_fault_def example_db_def)
  obtain e h1 w1 where r: "RestoreFromDB (locks_repo pg_pool) (NewHalter True True) w' = (e, h1, w1)"
    by (metis surj_pair)
  have e: "e = None" using lock_table.Restore_reads(1) [OF pg_lock_table r] .
  have "\<not> query_failed pg_pool w'"
    using h by (auto simp: Halt_def locks_repo_def Locks_Engage_def pg_pool_def pg_fault_def example_db_def
        query_failed_def apply_stmt.simps)
  then have "halt_step pg_pool 3 Ordinary (?ps(0 := (0, h')), w') ((?ps(0 := (0, h')))(0 := (0, h1)), w1)"
    using halt_step.do_restart [of pg_pool True True w' h1 w1 3 "?ps(0 := (0, h'))" 0] r e by simp
  then have st: "(halt_step pg_pool 3 Ordinary)\<^sup>*\<^sup>* (?ps(0 := (0, h')), w') ((?ps(0 := (0, h')))(0 := (0, h1)), w1)"
    by blast
  note after = safe_halt_sticks [OF pg_lock_table h st, of True True]
  show ?thesis
    unfolding h fst_conv snd_conv
    by (rule exI, rule exI, intro conjI, rule st) (use after in simp_all)
qed

text \<open>
  a restart trusts a failed lock query.  With a database that keeps the lock
  contract and holds an engaged SAFE_HALT, a process whose one query fails starts without an error
  and is not halted, while the lock stays engaged.
\<close>

theorem restore_fails_open:
  "lock_table pg_pool pg_rows
   \<and> (\<exists>d h' d'. row_engaged (pg_rows d) SafeHaltName
        \<and> RestoreFromDB (locks_repo pg_pool) (NewHalter True True) d = (None, h', d')
        \<and> \<not> fst (IsHalted h') \<and> row_engaged (pg_rows d') SafeHaltName)"
proof (rule conjI [OF pg_lock_table], intro exI conjI)
  let ?d = "(example_db [True])\<lparr>pg_rows := apply_stmt (UpsertLock SafeHaltName ''stop'' 1) Map.empty\<rparr>"
  show "row_engaged (pg_rows ?d) SafeHaltName" by simp
  show "RestoreFromDB (locks_repo pg_pool) (NewHalter True True) ?d
      = (None, NewHalter True True, ?d\<lparr>pg_faults := []\<rparr>)"
    by (simp add: RestoreFromDB_def locks_repo_def Locks_IsEngaged_def pg_pool_def pg_fault_def
        example_db_def NewHalter_def)
qed (simp_all add: IsHalted_def NewHalter_def)

section \<open>Start preconditions\<close>

text \<open>Each check is run, on the world the one before left; all the failures are returned.\<close>

fun CheckPreconditions ::
  "(string \<times> ('w \<Rightarrow> string option \<times> 'w)) list \<Rightarrow> 'w \<Rightarrow> (string \<times> string) list \<times> 'w" where
  "CheckPreconditions [] w = ([], w)"
| "CheckPreconditions ((name, fn) # checks) w =
     (case fn w of (err, w') \<Rightarrow>
        (case CheckPreconditions checks w' of (errs, w'') \<Rightarrow>
           (case err of None \<Rightarrow> (errs, w'') | Some e \<Rightarrow> ((name, e) # errs, w''))))"

end
