(* ===== verification/RebalancePlan.thy ===== *)
theory RebalancePlan
  imports Decimal Domain Fsm
begin

text \<open>
  Package \<open>internal/rebalance\<close>, its parts without effects: the plan and its state machine
  (\<open>state_machine.go\<close>), the planner (\<open>planner.go\<close>), the circuit breaker (\<open>circuit_breaker.go\<close>) and the
  address rules (\<open>address.go\<close>).  Injected clocks are \<open>now\<close> arguments.  Error values keep the data the
  code formats into their texts.
\<close>

section \<open>Plans\<close>

datatype PlanState = PlanDraft | PlanPlanned | PlanAwaitingApproval | PlanTestSent | PlanTestConfirmed
  | PlanMainSent | PlanMainConfirmed | PlanCompleted | PlanFailed | PlanCancelled | PlanOther string

definition Plan_IsTerminal :: "PlanState \<Rightarrow> bool" where
  "Plan_IsTerminal s \<longleftrightarrow> s = PlanCompleted \<or> s = PlanFailed \<or> s = PlanCancelled"

definition Plan_IsActive :: "PlanState \<Rightarrow> bool" where
  "Plan_IsActive s \<longleftrightarrow> \<not> Plan_IsTerminal s"

fun allowedPlanTransitions :: "PlanState \<Rightarrow> PlanState list option" where
  "allowedPlanTransitions PlanDraft = Some [PlanPlanned, PlanFailed, PlanCancelled]"
| "allowedPlanTransitions PlanPlanned = Some [PlanAwaitingApproval, PlanFailed, PlanCancelled]"
| "allowedPlanTransitions PlanAwaitingApproval = Some [PlanTestSent, PlanFailed, PlanCancelled]"
| "allowedPlanTransitions PlanTestSent = Some [PlanTestConfirmed, PlanFailed, PlanCancelled]"
| "allowedPlanTransitions PlanTestConfirmed = Some [PlanMainSent, PlanFailed, PlanCancelled]"
| "allowedPlanTransitions PlanMainSent = Some [PlanMainConfirmed, PlanFailed, PlanCancelled]"
| "allowedPlanTransitions PlanMainConfirmed = Some [PlanCompleted, PlanFailed]"
| "allowedPlanTransitions PlanCompleted = Some []"
| "allowedPlanTransitions PlanFailed = Some []"
| "allowedPlanTransitions PlanCancelled = Some []"
| "allowedPlanTransitions (PlanOther s) = None"

definition plan_allowed :: "PlanState \<Rightarrow> PlanState \<Rightarrow> bool" where
  "plan_allowed s t = (case allowedPlanTransitions s of None \<Rightarrow> False | Some ts \<Rightarrow> t \<in> set ts)"

record PlanProposal =
  pp_FromExchange :: ExchangeID
  pp_ToExchange :: ExchangeID
  pp_Asset :: string
  pp_GrossAmount :: decimal
  pp_Reason :: "string list" \<comment> \<open>the values substituted into the message\<close>

datatype plan_error = ErrTerminalState PlanState PlanState | ErrDryRunStopped PlanState
  | ErrPlanTransition PlanState PlanState

datatype reb_error =
    ErrAddressNeverApproved int ExchangeID ExchangeID
  | ErrAddressNotApproved reb_error
  | ErrBreakerTripped string "(int \<times> string) option"
  | ErrMainBeforeTestConfirmed PlanState
  | ErrFeeCapExceeded decimal decimal
  | ErrTestTimeout
  | ErrMainTimeout
  | ErrTransition plan_error
  | ErrStore string
  | ErrTransfer string
  | ErrUnknownKind string
  | ErrCheck string
  | ErrContext string
  | ErrAlso reb_error reb_error \<comment> \<open>an error and the error of recording it\<close>

record Plan =
  pl_ID :: string
  pl_State :: PlanState
  pl_DryRun :: bool
  pl_Proposal :: "PlanProposal option"
  pl_FailureReason :: "reb_error option"
  pl_CreatedAt :: time
  pl_UpdatedAt :: time
  pl_CompletedAt :: "time option"

definition NewPlan :: "string \<Rightarrow> PlanProposal option \<Rightarrow> bool \<Rightarrow> time \<Rightarrow> Plan" where
  "NewPlan i proposal dryRun now = \<lparr>pl_ID = i, pl_State = PlanDraft, pl_DryRun = dryRun, pl_Proposal = proposal,
     pl_FailureReason = None, pl_CreatedAt = now, pl_UpdatedAt = now, pl_CompletedAt = None\<rparr>"

text \<open>The guards of \<open>Transition\<close> in their order, and the change when they pass.\<close>

definition plan_guard :: "Plan \<Rightarrow> PlanState \<Rightarrow> plan_error option" where
  "plan_guard p t =
     (if Plan_IsTerminal (pl_State p) then Some (ErrTerminalState (pl_State p) t)
      else if pl_DryRun p \<and> pl_State p = PlanPlanned \<and> t \<noteq> PlanFailed \<and> t \<noteq> PlanCancelled
      then Some (ErrDryRunStopped t)
      else if \<not> plan_allowed (pl_State p) t then Some (ErrPlanTransition (pl_State p) t)
      else None)"

definition plan_move :: "Plan \<Rightarrow> PlanState \<Rightarrow> reb_error option \<Rightarrow> time \<Rightarrow> Plan" where
  "plan_move p t reason now =
     (let p1 = p\<lparr>pl_State := t, pl_UpdatedAt := now\<rparr>;
          p2 = (if t = PlanFailed then p1\<lparr>pl_FailureReason := reason\<rparr> else p1)
      in if t = PlanCompleted then p2\<lparr>pl_CompletedAt := Some now\<rparr> else p2)"

definition Plan_Transition :: "Plan \<Rightarrow> PlanState \<Rightarrow> reb_error option \<Rightarrow> time \<Rightarrow> plan_error + Plan" where
  "Plan_Transition p t reason now =
     (case plan_guard p t of Some e \<Rightarrow> Inl e | None \<Rightarrow> Inr (plan_move p t reason now))"

lemma plan_move_simps [simp]:
  "pl_State (plan_move p t reason now) = t" "pl_DryRun (plan_move p t reason now) = pl_DryRun p"
  "pl_ID (plan_move p t reason now) = pl_ID p" "pl_Proposal (plan_move p t reason now) = pl_Proposal p"
  by (auto simp: plan_move_def Let_def)

text \<open>\<open>MustTransition\<close> panics on an error.\<close>

definition MustTransition :: "Plan \<Rightarrow> PlanState \<Rightarrow> reb_error option \<Rightarrow> time \<Rightarrow> Plan option" where
  "MustTransition p t reason now = (case Plan_Transition p t reason now of Inl e \<Rightarrow> None | Inr p' \<Rightarrow> Some p')"

lemma plan_allowed_simps [simp]:
  "plan_allowed PlanDraft t \<longleftrightarrow> t \<in> {PlanPlanned, PlanFailed, PlanCancelled}"
  "plan_allowed PlanPlanned t \<longleftrightarrow> t \<in> {PlanAwaitingApproval, PlanFailed, PlanCancelled}"
  "plan_allowed PlanAwaitingApproval t \<longleftrightarrow> t \<in> {PlanTestSent, PlanFailed, PlanCancelled}"
  "plan_allowed PlanTestSent t \<longleftrightarrow> t \<in> {PlanTestConfirmed, PlanFailed, PlanCancelled}"
  "plan_allowed PlanTestConfirmed t \<longleftrightarrow> t \<in> {PlanMainSent, PlanFailed, PlanCancelled}"
  "plan_allowed PlanMainSent t \<longleftrightarrow> t \<in> {PlanMainConfirmed, PlanFailed, PlanCancelled}"
  "plan_allowed PlanMainConfirmed t \<longleftrightarrow> t \<in> {PlanCompleted, PlanFailed}"
  "\<not> plan_allowed PlanCompleted t" "\<not> plan_allowed PlanFailed t" "\<not> plan_allowed PlanCancelled t"
  "\<not> plan_allowed (PlanOther s) t"
  by (auto simp: plan_allowed_def)

lemma plan_allowed_final: "Plan_IsTerminal s \<Longrightarrow> \<not> plan_allowed s t"
  by (auto simp: Plan_IsTerminal_def)

interpretation planfsm: fsm plan_allowed Plan_IsTerminal
  by unfold_locales (rule plan_allowed_final)

text \<open>How far a plan has come; every transition of the table goes forward.\<close>

fun plan_rank :: "PlanState \<Rightarrow> nat" where
  "plan_rank PlanDraft = 0"
| "plan_rank PlanPlanned = 1"
| "plan_rank PlanAwaitingApproval = 2"
| "plan_rank PlanTestSent = 3"
| "plan_rank PlanTestConfirmed = 4"
| "plan_rank PlanMainSent = 5"
| "plan_rank PlanMainConfirmed = 6"
| "plan_rank _ = 7"

lemma plan_rank_up: "plan_allowed s t \<Longrightarrow> plan_rank s < plan_rank t"
  by (cases s) auto

lemma Plan_Transition_Inr:
  assumes "Plan_Transition p t reason now = Inr p'"
  shows "plan_allowed (pl_State p) t" "pl_State p' = t" "pl_DryRun p' = pl_DryRun p" "pl_ID p' = pl_ID p"
    "pl_Proposal p' = pl_Proposal p"
    "pl_DryRun p \<Longrightarrow> pl_State p = PlanPlanned \<Longrightarrow> t \<in> {PlanFailed, PlanCancelled}"
  using assms by (auto simp: Plan_Transition_def plan_guard_def split: if_splits option.splits)

text \<open>A sequence of transition requests, the refused ones included.\<close>

fun run_plan :: "Plan \<Rightarrow> (PlanState \<times> reb_error option \<times> time) list \<Rightarrow> Plan" where
  "run_plan p [] = p"
| "run_plan p ((t, reason, now) # reqs) =
     run_plan (case Plan_Transition p t reason now of Inl e \<Rightarrow> p | Inr p' \<Rightarrow> p') reqs"

text \<open>The states a run goes through, as the history of the table.\<close>

fun plan_trail :: "Plan \<Rightarrow> (PlanState \<times> reb_error option \<times> time) list \<Rightarrow> (PlanState \<times> PlanState) list" where
  "plan_trail p [] = []"
| "plan_trail p ((t, reason, now) # reqs) =
     (case Plan_Transition p t reason now of
        Inl e \<Rightarrow> plan_trail p reqs
      | Inr p' \<Rightarrow> (pl_State p, t) # plan_trail p' reqs)"

lemma run_plan_path: "path plan_allowed (pl_State p) (plan_trail p reqs) (pl_State (run_plan p reqs))"
proof (induction p reqs rule: plan_trail.induct)
  case (2 p t reason now reqs)
  then show ?case
  proof (cases "Plan_Transition p t reason now")
    case (Inr p')
    then show ?thesis using 2(2) [OF Inr] Plan_Transition_Inr(1,2) [OF Inr] by simp
  qed simp
qed simp

definition dry_states :: "PlanState set" where
  "dry_states = {PlanDraft, PlanPlanned, PlanFailed, PlanCancelled}"

lemma dry_step:
  assumes "Plan_Transition p t reason now = Inr p'" and "pl_DryRun p" and "pl_State p \<in> dry_states"
  shows "pl_State p' \<in> dry_states \<and> pl_DryRun p'"
  using Plan_Transition_Inr [OF assms(1)] assms(2,3) by (auto simp: dry_states_def)

lemma dry_run_states: "pl_DryRun p \<Longrightarrow> pl_State p \<in> dry_states \<Longrightarrow> pl_State (run_plan p reqs) \<in> dry_states"
proof (induction p reqs rule: run_plan.induct)
  case (2 p t reason now reqs)
  then show ?case by (cases "Plan_Transition p t reason now") (auto dest: dry_step)
qed simp

text \<open>To complete, a plan has to take the seven steps in order.\<close>

definition plan_steps :: "(PlanState \<times> PlanState) list" where
  "plan_steps = [(PlanDraft, PlanPlanned), (PlanPlanned, PlanAwaitingApproval),
     (PlanAwaitingApproval, PlanTestSent), (PlanTestSent, PlanTestConfirmed),
     (PlanTestConfirmed, PlanMainSent), (PlanMainSent, PlanMainConfirmed), (PlanMainConfirmed, PlanCompleted)]"

lemma path_drop_steps:
  assumes "path plan_allowed s hs PlanCompleted" and "\<not> Plan_IsTerminal s" and "\<forall>x. s \<noteq> PlanOther x"
  shows "hs = drop (plan_rank s) plan_steps"
  using assms
proof (induction hs arbitrary: s)
  case Nil
  then show ?case by (auto simp: Plan_IsTerminal_def)
next
  case (Cons h hs)
  obtain t where h: "h = (s, t)" "plan_allowed s t" "path plan_allowed t hs PlanCompleted"
    using Cons.prems(1) by (cases h) auto
  show ?case
  proof (cases "Plan_IsTerminal t")
    case True
    then have "t = PlanCompleted" "hs = []"
      using planfsm.path_final [OF True h(3)] by auto
    then show ?thesis using h by (cases s) (auto simp: plan_steps_def)
  next
    case False
    moreover have "\<forall>x. t \<noteq> PlanOther x" using h(2) by (cases s) auto
    ultimately have "hs = drop (plan_rank t) plan_steps"
      using Cons.IH h(3) by blast
    then show ?thesis
      using h False by (cases s) (auto simp: plan_steps_def Plan_IsTerminal_def)
  qed
qed

text \<open>
  C17: whatever transitions are requested of a new plan, in any order and however often, the
  plan takes at most seven of them; when it ends up COMPLETED it took exactly the seven steps from DRAFT
  over approval, test and main transfer in order; and a dry-run plan never gets past PLANNED, except
  to fail or be cancelled.
\<close>

theorem plan_in_order:
  "length (plan_trail (NewPlan i proposal dryRun now) reqs) \<le> 7
   \<and> (pl_State (run_plan (NewPlan i proposal dryRun now) reqs) = PlanCompleted
        \<longrightarrow> plan_trail (NewPlan i proposal dryRun now) reqs = plan_steps)
   \<and> (dryRun \<longrightarrow> pl_State (run_plan (NewPlan i proposal dryRun now) reqs)
        \<in> {PlanDraft, PlanPlanned, PlanFailed, PlanCancelled})"
proof -
  let ?p = "NewPlan i proposal dryRun now"
  have p: "path plan_allowed PlanDraft (plan_trail ?p reqs) (pl_State (run_plan ?p reqs))"
    using run_plan_path [of ?p reqs] by (simp add: NewPlan_def)
  have "length (plan_trail ?p reqs) \<le> plan_rank (pl_State (run_plan ?p reqs))"
    using planfsm.rank_bound [of plan_rank, OF plan_rank_up p] by simp
  also have "\<dots> \<le> 7" by (cases "pl_State (run_plan ?p reqs)") auto
  finally have "length (plan_trail ?p reqs) \<le> 7" .
  moreover have "plan_trail ?p reqs = plan_steps" if "pl_State (run_plan ?p reqs) = PlanCompleted"
    using path_drop_steps [of PlanDraft "plan_trail ?p reqs"] p that by (simp add: Plan_IsTerminal_def)
  moreover have "pl_State (run_plan ?p reqs) \<in> dry_states" if dryRun
    using dry_run_states [of ?p reqs] that by (simp add: NewPlan_def dry_states_def)
  ultimately show ?thesis by (auto simp: dry_states_def)
qed

theorem plan_in_order_witness:
  "pl_State (run_plan (NewPlan ''p1'' None False 0) (map (\<lambda>(s, t). (t, None, 1)) plan_steps)) = PlanCompleted
   \<and> plan_trail (NewPlan ''p1'' None False 0) (map (\<lambda>(s, t). (t, None, 1)) plan_steps) = plan_steps"
proof -
  have "pl_State (run_plan (NewPlan ''p1'' None False 0) (map (\<lambda>(s, t). (t, None, 1)) plan_steps)) = PlanCompleted"
    by (simp add: plan_steps_def NewPlan_def Plan_Transition_def plan_guard_def plan_move_def Plan_IsTerminal_def Let_def)
  then show ?thesis
    using plan_in_order [of "''p1''" None False 0 "map (\<lambda>(s, t). (t, None, 1)) plan_steps"] by simp
qed

section \<open>The planner\<close>

record PlannerConfig =
  pc_TolerancePct :: decimal
  pc_MinTransferUSDT :: decimal
  pc_ReserveUSDT :: decimal

datatype planner_error = ErrNegativeTolerance | ErrNegativeMinimum | ErrNegativeReserve
  | ErrNotTwoExchanges nat | ErrNegativeEquity ExchangeID decimal

definition NewPlanner :: "PlannerConfig \<Rightarrow> planner_error + PlannerConfig" where
  "NewPlanner cfg =
     (if pc_TolerancePct cfg < 0 then Inl ErrNegativeTolerance
      else if pc_MinTransferUSDT cfg < 0 then Inl ErrNegativeMinimum
      else if pc_ReserveUSDT cfg < 0 then Inl ErrNegativeReserve
      else Inr cfg)"

text \<open>
  The equities come in the iteration order of the Go map.  \<open>None\<close> is a panic, \<open>Some (Inr None)\<close> the nil
  proposal.
\<close>

definition source_and_target ::
  "ExchangeID \<Rightarrow> decimal \<Rightarrow> ExchangeID \<Rightarrow> decimal \<Rightarrow> (ExchangeID \<times> decimal) \<times> (ExchangeID \<times> decimal)" where
  "source_and_target exA eqA exB eqB = (if eqA > eqB then ((exA, eqA), (exB, eqB)) else ((exB, eqB), (exA, eqA)))"

definition plan_reason :: "sp_ops \<Rightarrow> ExchangeID \<Rightarrow> decimal \<Rightarrow> decimal \<Rightarrow> decimal \<Rightarrow> decimal \<Rightarrow> string list" where
  "plan_reason D fromEx fromEq target deficiency quantized =
     [fromEx, sp_StringFixed D fromEq 2, sp_StringFixed D target 2, sp_StringFixed D deficiency 2,
      sp_StringFixed D quantized 2]"

text \<open>The amount and its rounding, from the point where source, destination and target are known.\<close>

definition propose_amount ::
  "sp_ops \<Rightarrow> PlannerConfig \<Rightarrow> (ExchangeID \<rightharpoonup> decimal) \<Rightarrow> ExchangeID \<times> decimal \<Rightarrow> ExchangeID \<times> decimal \<Rightarrow> decimal
   \<Rightarrow> PlanProposal option option" where
  "propose_amount D cfg reserves source dest target =
     (let (fromEx, fromEq) = source; (toEx, toEq) = dest;
          deficiency = target - toEq;
          amount0 = Dec_Min (fromEq - target) deficiency;
          reserve = (case reserves fromEx of None \<Rightarrow> pc_ReserveUSDT cfg | Some r \<Rightarrow> r);
          available = fromEq - reserve
      in if available \<le> 0 then Some None
         else (let amount = (if amount0 > available then available else amount0)
               in if amount < pc_MinTransferUSDT cfg \<or> amount = 0 then Some None
                  else do { (quantized, rest) \<leftarrow> Dec_Quantize D amount (Dec_New 1 (- 2));
                            Some (if quantized = 0 then None
                                  else if quantized < pc_MinTransferUSDT cfg then None
                                  else Some \<lparr>pp_FromExchange = fromEx, pp_ToExchange = toEx, pp_Asset = ''USDT'',
                                             pp_GrossAmount = quantized,
                                             pp_Reason = plan_reason D fromEx fromEq target deficiency quantized\<rparr>) }))"

definition Propose ::
  "sp_ops \<Rightarrow> PlannerConfig \<Rightarrow> (ExchangeID \<times> decimal) list \<Rightarrow> (ExchangeID \<rightharpoonup> decimal)
   \<Rightarrow> (planner_error + PlanProposal option) option" where
  "Propose D cfg equity reserves =
     (case equity of
        [(exA, eqA), (exB, eqB)] \<Rightarrow>
          if eqA < 0 then Some (Inl (ErrNegativeEquity exA eqA))
          else if eqB < 0 then Some (Inl (ErrNegativeEquity exB eqB))
          else (let total = Dec_Zero + eqA + eqB
                in if total = 0 then Some (Inr None)
                   else do { target \<leftarrow> Dec_Div D total (Dec_New 2 0);
                             let (source, dest) = source_and_target exA eqA exB eqB;
                             pct \<leftarrow> (if target = 0 then Some None
                                    else map_option (\<lambda>q. Some (q * Dec_New 100 0)) (Dec_Div D (snd source - target) target));
                             (case pct of
                                Some p \<Rightarrow> if p < pc_TolerancePct cfg then Some (Inr None)
                                          else map_option Inr (propose_amount D cfg reserves source dest target)
                              | None \<Rightarrow> map_option Inr (propose_amount D cfg reserves source dest target)) })
      | _ \<Rightarrow> Some (Inl (ErrNotTwoExchanges (length equity))))"

lemma cent: "Dec_New 1 (- 2) = 1 / 100"
  by (simp add: Dec_New_def)

context shopspring
begin

lemma quantize_cent:
  assumes "Dec_Quantize D d (1 / 100) = Some (q, r)"
  shows "q \<le> d + ulp / 200" "\<exists>k::int. q = of_int k / 100" "r = d - q"
proof -
  have q: "q = of_int \<lfloor>sp_Div D DivisionPrecision d (1 / 100)\<rfloor> / 100" and "r = d - q"
    using assms by (auto simp: Dec_Quantize_def Let_def floor_law)
  have "of_int \<lfloor>sp_Div D DivisionPrecision d (1 / 100)\<rfloor> \<le> sp_Div D DivisionPrecision d (1 / 100)"
    by (rule of_int_floor_le)
  also have "\<dots> \<le> d * 100 + ulp / 2"
    using div_le [of "1 / 100" d] by simp
  finally show "q \<le> d + ulp / 200" unfolding q by (simp add: field_simps)
  show "\<exists>k::int. q = of_int k / 100" using q by blast
  show "r = d - q" by fact
qed

lemma propose_amount_sound:
  assumes "propose_amount D cfg reserves (fromEx, fromEq) (toEx, toEq) target = Some (Some pr)"
  shows "pp_FromExchange pr = fromEx \<and> pp_ToExchange pr = toEx
     \<and> pp_GrossAmount pr \<ge> pc_MinTransferUSDT cfg \<and> pp_GrossAmount pr \<noteq> 0
     \<and> (\<exists>k::int. pp_GrossAmount pr = of_int k / 100)
     \<and> pp_GrossAmount pr \<le> fromEq - target + ulp / 200 \<and> pp_GrossAmount pr \<le> target - toEq + ulp / 200
     \<and> pp_GrossAmount pr \<le> fromEq - (case reserves fromEx of None \<Rightarrow> pc_ReserveUSDT cfg | Some r \<Rightarrow> r) + ulp / 200"
proof -
  let ?res = "case reserves fromEx of None \<Rightarrow> pc_ReserveUSDT cfg | Some r \<Rightarrow> r"
  define amount where "amount = (if Dec_Min (fromEq - target) (target - toEq) > fromEq - ?res
      then fromEq - ?res else Dec_Min (fromEq - target) (target - toEq))"
  have le: "amount \<le> fromEq - target" "amount \<le> target - toEq" "amount \<le> fromEq - ?res"
    by (auto simp: amount_def)
  obtain q r where q: "Dec_Quantize D amount (1 / 100) = Some (q, r)" and gross: "pp_GrossAmount pr = q"
    and rest: "pp_FromExchange pr = fromEx" "pp_ToExchange pr = toEx" "q \<noteq> 0" "\<not> q < pc_MinTransferUSDT cfg"
    using assms
    by (auto simp: propose_amount_def Let_def amount_def cent bind_eq_Some_conv simp del: Dec_Min_min
        split: if_splits prod.splits)
  show ?thesis
    using quantize_cent [OF q] le rest unfolding gross by (auto simp: algebra_simps)
qed

end

text \<open>The answer does not depend on the iteration order of the map.\<close>

lemma propose_symmetric:
  assumes "eqA \<noteq> eqB" and "0 \<le> eqA" and "0 \<le> eqB"
  shows "Propose D cfg [(exA, eqA), (exB, eqB)] reserves = Propose D cfg [(exB, eqB), (exA, eqA)] reserves"
proof -
  have "source_and_target exA eqA exB eqB = source_and_target exB eqB exA eqA"
    using assms(1) by (auto simp: source_and_target_def)
  then show ?thesis
    using assms(2,3) by (simp add: Propose_def Let_def add.commute)
qed

text \<open>
  C18: a transfer the planner proposes, for two exchanges with different equity, goes from the richer to the poorer of the two exchanges,
  is a positive whole number of cents of at least the configured minimum, leaves the reserve of the source in
  place and does not make the source the poorer one, both up to half a unit of the division's last
  place per cent.
\<close>

theorem propose_sound:
  assumes "shopspring D" and "NewPlanner cfg = Inr cfg"
    and "Propose D cfg [(exA, eqA), (exB, eqB)] reserves = Some (Inr (Some pr))"
  shows "(pp_FromExchange pr, pp_ToExchange pr) = (if eqA > eqB then (exA, exB) else (exB, exA)) \<and> eqA \<noteq> eqB
     \<and> 0 < pp_GrossAmount pr \<and> pc_MinTransferUSDT cfg \<le> pp_GrossAmount pr
     \<and> (\<exists>k::int. pp_GrossAmount pr = of_int k / 100)
     \<and> min eqA eqB + pp_GrossAmount pr \<le> max eqA eqB - pp_GrossAmount pr + ulp / 100
     \<and> pp_GrossAmount pr \<le> max eqA eqB - (case reserves (pp_FromExchange pr) of None \<Rightarrow> pc_ReserveUSDT cfg | Some r \<Rightarrow> r)
         + ulp / 200"
proof -
  obtain fromEx fromEq toEx toEq target where st: "source_and_target exA eqA exB eqB = ((fromEx, fromEq), (toEx, toEq))"
      and pa: "propose_amount D cfg reserves (fromEx, fromEq) (toEx, toEq) target = Some (Some pr)"
    using assms(3)
    by (auto simp: Propose_def Let_def source_and_target_def bind_eq_Some_conv split: if_splits option.splits)
  have eqs: "fromEq = max eqA eqB" "toEq = min eqA eqB" "(fromEx, toEx) = (if eqA > eqB then (exA, exB) else (exB, exA))"
    using st by (auto simp: source_and_target_def split: if_splits)
  have min: "0 \<le> pc_MinTransferUSDT cfg"
    using assms(2) by (auto simp: NewPlanner_def split: if_splits)
  note S = shopspring.propose_amount_sound [OF assms(1) pa]
  obtain k :: int where k: "pp_GrossAmount pr = of_int k / 100" using S by blast
  then have "0 < k" using S min by (auto simp: zero_less_mult_iff le_less)
  then have "1 / 100 \<le> pp_GrossAmount pr" using k by simp
  then have ne: "eqA \<noteq> eqB" and pos: "0 < pp_GrossAmount pr" using S eqs(1,2) by (auto simp: ulp_def)
  show ?thesis
    using S eqs ne pos by auto
qed

theorem propose_sound_witness:
  "\<exists>pr. Propose sp_ref \<lparr>pc_TolerancePct = 5, pc_MinTransferUSDT = 10, pc_ReserveUSDT = 50\<rparr>
       [(ExchangeBybit, 100), (ExchangeBinance, 300)] Map.empty = Some (Inr (Some pr))
     \<and> pp_FromExchange pr = ExchangeBinance \<and> pp_GrossAmount pr \<le> 250 + ulp / 200"
proof -
  let ?cfg = "\<lparr>pc_TolerancePct = 5, pc_MinTransferUSDT = 10, pc_ReserveUSDT = 50\<rparr>"
  let ?eq = "[(ExchangeBybit, 100), (ExchangeBinance, 300)]"
  have "case Propose sp_ref ?cfg ?eq Map.empty of
      Some (Inr (Some pr)) \<Rightarrow> pp_FromExchange pr = ExchangeBinance \<and> pp_ToExchange pr = ExchangeBybit
    | _ \<Rightarrow> False"
    by code_simp
  then obtain pr where pr: "Propose sp_ref ?cfg ?eq Map.empty = Some (Inr (Some pr))"
    "pp_FromExchange pr = ExchangeBinance" "pp_ToExchange pr = ExchangeBybit"
    by (auto split: option.splits sum.splits)
  then show ?thesis
    using propose_sound [OF spref.shopspring_axioms _ pr(1)] by (simp add: NewPlanner_def)
qed

end
