(* ===== verification/CircuitBreaker.thy ===== *)
theory CircuitBreaker
  imports GoLib
begin

text \<open>
  \<open>internal/rebalance/circuit_breaker.go\<close>: the in-memory guard of withdrawals, a counter of failures in a
  row per scope that trips at a threshold and stays tripped until an operator resets it.  The mutex makes
  every method one step; \<open>now\<close> is what the injected clock answers.  The persistent store is never called by
  the code and has no counterpart here.
\<close>

record scopeState =
  ss_failures :: int
  ss_tripped :: bool
  ss_tripReason :: "(int \<times> string) option" \<comment> \<open>threshold and scope of the message, \<open>None\<close> for the empty text\<close>
  ss_trippedAt :: "time option"

record CircuitBreaker =
  cb_threshold :: int
  cb_states :: "string \<rightharpoonup> scopeState"

definition NewCircuitBreaker :: "int \<Rightarrow> CircuitBreaker" where
  "NewCircuitBreaker threshold = \<lparr>cb_threshold = threshold, cb_states = Map.empty\<rparr>"

definition zero_scope :: scopeState where
  "zero_scope = \<lparr>ss_failures = 0, ss_tripped = False, ss_tripReason = None, ss_trippedAt = None\<rparr>"

definition ensureScope :: "CircuitBreaker \<Rightarrow> string \<Rightarrow> scopeState \<times> CircuitBreaker" where
  "ensureScope cb scope =
     (case cb_states cb scope of
        Some s \<Rightarrow> (s, cb)
      | None \<Rightarrow> (zero_scope, cb\<lparr>cb_states := (cb_states cb)(scope \<mapsto> zero_scope)\<rparr>))"

definition put_scope :: "string \<Rightarrow> scopeState \<Rightarrow> CircuitBreaker \<Rightarrow> CircuitBreaker" where
  "put_scope scope s cb = cb\<lparr>cb_states := (cb_states cb)(scope \<mapsto> s)\<rparr>"

definition IsTripped :: "CircuitBreaker \<Rightarrow> string \<Rightarrow> bool \<times> (int \<times> string) option" where
  "IsTripped cb scope =
     (case cb_states cb scope of
        None \<Rightarrow> (False, None)
      | Some s \<Rightarrow> if ss_tripped s then (True, ss_tripReason s) else (False, None))"

definition RecordFailure :: "string \<Rightarrow> time \<Rightarrow> CircuitBreaker \<Rightarrow> CircuitBreaker" where
  "RecordFailure scope now cb0 =
     (case ensureScope cb0 scope of (s, cb) \<Rightarrow>
        if ss_tripped s then cb
        else (let s1 = s\<lparr>ss_failures := ss_failures s + 1\<rparr>
              in put_scope scope
                   (if ss_failures s1 \<ge> cb_threshold cb
                    then s1\<lparr>ss_tripped := True, ss_tripReason := Some (cb_threshold cb, scope), ss_trippedAt := Some now\<rparr>
                    else s1) cb))"

definition RecordSuccess :: "string \<Rightarrow> CircuitBreaker \<Rightarrow> CircuitBreaker" where
  "RecordSuccess scope cb0 =
     (case ensureScope cb0 scope of (s, cb) \<Rightarrow>
        if ss_tripped s then cb else put_scope scope (s\<lparr>ss_failures := 0\<rparr>) cb)"

definition Breaker_Reset :: "string \<Rightarrow> CircuitBreaker \<Rightarrow> CircuitBreaker" where
  "Breaker_Reset scope cb0 =
     (case ensureScope cb0 scope of (s, cb) \<Rightarrow>
        put_scope scope (s\<lparr>ss_tripped := False, ss_failures := 0, ss_tripReason := None, ss_trippedAt := None\<rparr>) cb)"

record BreakerState =
  bs_Scope :: string
  bs_Tripped :: bool
  bs_TripReason :: "(int \<times> string) option"
  bs_FailuresCount :: int
  bs_TrippedAt :: "time option"
  bs_ManualResetRequired :: bool
  bs_UpdatedAt :: time

definition Breaker_State :: "CircuitBreaker \<Rightarrow> string \<Rightarrow> time \<Rightarrow> BreakerState" where
  "Breaker_State cb scope now =
     (let s = (case cb_states cb scope of None \<Rightarrow> zero_scope | Some s \<Rightarrow> s)
      in \<lparr>bs_Scope = scope, bs_Tripped = ss_tripped s, bs_TripReason = ss_tripReason s,
          bs_FailuresCount = ss_failures s, bs_TrippedAt = ss_trippedAt s,
          bs_ManualResetRequired = True, bs_UpdatedAt = now\<rparr>)"

definition FailuresCount :: "CircuitBreaker \<Rightarrow> string \<Rightarrow> int" where
  "FailuresCount cb scope = (case cb_states cb scope of None \<Rightarrow> 0 | Some s \<Rightarrow> ss_failures s)"

section \<open>When a scope is tripped\<close>

datatype breaker_op = OpFailure string time | OpSuccess string | OpReset string

fun breaker_apply :: "breaker_op \<Rightarrow> CircuitBreaker \<Rightarrow> CircuitBreaker" where
  "breaker_apply (OpFailure scope now) cb = RecordFailure scope now cb"
| "breaker_apply (OpSuccess scope) cb = RecordSuccess scope cb"
| "breaker_apply (OpReset scope) cb = Breaker_Reset scope cb"

fun op_scope :: "breaker_op \<Rightarrow> string" where
  "op_scope (OpFailure scope now) = scope"
| "op_scope (OpSuccess scope) = scope"
| "op_scope (OpReset scope) = scope"

fun is_failure :: "breaker_op \<Rightarrow> bool" where
  "is_failure (OpFailure scope now) = True"
| "is_failure _ = False"

fun is_reset :: "breaker_op \<Rightarrow> bool" where
  "is_reset (OpReset scope) = True"
| "is_reset _ = False"

text \<open>The operations on a scope after its last reset.\<close>

definition since_reset :: "string \<Rightarrow> breaker_op list \<Rightarrow> breaker_op list" where
  "since_reset scope ops = rev (takeWhile (\<lambda>x. \<not> is_reset x) (rev (filter (\<lambda>x. op_scope x = scope) ops)))"

lemma since_reset_simps [simp]:
  "since_reset scope [] = []"
  "op_scope x \<noteq> scope \<Longrightarrow> since_reset scope (ops @ [x]) = since_reset scope ops"
  "op_scope x = scope \<Longrightarrow> since_reset scope (ops @ [x]) = (if is_reset x then [] else since_reset scope ops @ [x])"
  by (auto simp: since_reset_def)

definition scope_of :: "CircuitBreaker \<Rightarrow> string \<Rightarrow> scopeState" where
  "scope_of cb scope = (case cb_states cb scope of None \<Rightarrow> zero_scope | Some s \<Rightarrow> s)"

lemmas breaker_defs = RecordFailure_def RecordSuccess_def Breaker_Reset_def ensureScope_def put_scope_def
  scope_of_def zero_scope_def Let_def

lemma apply_threshold [simp]: "cb_threshold (breaker_apply x cb) = cb_threshold cb"
  by (cases x) (auto simp: breaker_defs split: option.splits)

lemma fold_threshold [simp]: "cb_threshold (fold breaker_apply ops cb) = cb_threshold cb"
  by (induction ops arbitrary: cb) auto

lemma apply_other: "op_scope x \<noteq> scope \<Longrightarrow> scope_of (breaker_apply x cb) scope = scope_of cb scope"
  by (cases x) (auto simp: breaker_defs split: option.splits)

lemma apply_failure:
  "ss_tripped (scope_of (RecordFailure scope now cb) scope)
     \<longleftrightarrow> ss_tripped (scope_of cb scope) \<or> ss_failures (scope_of cb scope) + 1 \<ge> cb_threshold cb"
  "\<not> ss_tripped (scope_of cb scope)
     \<Longrightarrow> ss_failures (scope_of (RecordFailure scope now cb) scope) = ss_failures (scope_of cb scope) + 1"
  by (auto simp: breaker_defs split: option.splits)

lemma apply_success:
  "ss_tripped (scope_of (RecordSuccess scope cb) scope) = ss_tripped (scope_of cb scope)"
  "\<not> ss_tripped (scope_of cb scope) \<Longrightarrow> ss_failures (scope_of (RecordSuccess scope cb) scope) = 0"
  by (auto simp: breaker_defs split: option.splits)

lemma apply_reset:
  "scope_of (Breaker_Reset scope cb) scope = zero_scope"
  by (auto simp: breaker_defs split: option.splits)

lemma breaker_fold:
  assumes "0 < T"
  shows "ss_tripped (scope_of (fold breaker_apply ops (NewCircuitBreaker T)) scope)
            = has_run is_failure (nat T) (since_reset scope ops)
       \<and> (\<not> ss_tripped (scope_of (fold breaker_apply ops (NewCircuitBreaker T)) scope) \<longrightarrow>
            ss_failures (scope_of (fold breaker_apply ops (NewCircuitBreaker T)) scope)
              = int (trailing_run is_failure (since_reset scope ops)))"
proof (induction ops rule: rev_induct)
  case Nil
  then show ?case using assms by (simp add: NewCircuitBreaker_def scope_of_def zero_scope_def)
next
  case (snoc x ops)
  let ?cb = "fold breaker_apply ops (NewCircuitBreaker T)"
  have T: "cb_threshold ?cb = T" by (simp add: NewCircuitBreaker_def)
  show ?case
  proof (cases "op_scope x = scope")
    case False
    then show ?thesis using snoc apply_other [OF False] by simp
  next
    case scope: True
    show ?thesis
    proof (cases x)
      case (OpFailure s now)
      then show ?thesis
        using snoc scope T assms apply_failure(1) [of scope now ?cb] apply_failure(2) [of ?cb scope now] no_run_trailing [of is_failure "nat T" "since_reset scope ops"]
        by (auto simp: has_run_snoc)
    next
      case (OpSuccess s)
      then show ?thesis
        using snoc scope assms apply_success(1) [of scope ?cb] apply_success(2) [of ?cb scope] by (auto simp: has_run_snoc)
    next
      case (OpReset s)
      then show ?thesis using scope assms by (simp add: apply_reset zero_scope_def)
    qed
  qed
qed

text \<open>
  after any sequence of failures, successes and resets of any scopes, a scope of a new
  breaker is tripped exactly when, among its own operations since its last reset, as many failures in a
  row occurred as the threshold says; other scopes play no part, and a success after the trip does not
  clear it.
\<close>

theorem breaker_trips_iff:
  assumes "0 < T"
  shows "fst (IsTripped (fold breaker_apply ops (NewCircuitBreaker T)) scope)
     \<longleftrightarrow> (\<exists>us xs vs. rev (takeWhile (\<lambda>x. \<not> is_reset x) (rev (filter (\<lambda>x. op_scope x = scope) ops))) = us @ xs @ vs
            \<and> int (length xs) = T \<and> list_all is_failure xs)"
proof -
  have "fst (IsTripped cb scope) = ss_tripped (scope_of cb scope)" for cb
    by (simp add: IsTripped_def scope_of_def zero_scope_def split: option.splits)
  moreover have "has_run is_failure (nat T) ys \<longleftrightarrow> (\<exists>us xs vs. ys = us @ xs @ vs \<and> int (length xs) = T \<and> list_all is_failure xs)" for ys
  proof -
    have "(length xs = nat T) = (int (length xs) = T)" for xs :: "breaker_op list" using assms by auto
    then show ?thesis by (simp only: has_run_def list_all_iff)
  qed
  ultimately show ?thesis
    using breaker_fold [OF assms, of ops scope] by (simp add: since_reset_def)
qed

theorem breaker_trips_iff_witness:
  "fst (IsTripped (fold breaker_apply [OpFailure ''x'' 1, OpSuccess ''y'', OpFailure ''x'' 2, OpSuccess ''x''] (NewCircuitBreaker 2)) ''x'')"
  by (subst breaker_trips_iff, simp,
      rule exI [of _ "[]"], rule exI [of _ "[OpFailure ''x'' 1, OpFailure ''x'' 2]"], rule exI [of _ "[OpSuccess ''x'']"], simp)

end
