(* ===== verification/RebalanceExec.thy ===== *)
theory RebalanceExec
  imports RebalancePlan CircuitBreaker
begin

text \<open>
  \<open>internal/rebalance/executor.go\<close> and \<open>address.go\<close>: the two-phase executor, a test transfer and, once
  that is confirmed, the main transfer.

  Everything outside is one record of functions on a world, \<open>reb_env\<close>: the clock, the context, the store,
  the transferer and the confirmation checker.  The executor's methods are computations on the plan, the
  circuit breaker and the world; \<open>None\<close> is a panic or a wait that does not end.
\<close>

section \<open>Data\<close>

datatype AttemptPhase = PhaseTest | PhaseMain

datatype AttemptStatus = AttemptCreated | AttemptSent | AttemptConfirmed | AttemptTimedOut
  | AttemptFailed | AttemptCancelled

datatype AttemptKind = KindInternal | KindOnChain | KindOther string

datatype FeeCapStatus = FeeCapPending | FeeCapPassed | FeeCapFailed

record TransferAttempt =
  ta_RequestID :: string
  ta_PlanID :: string
  ta_Phase :: AttemptPhase
  ta_Kind :: AttemptKind
  ta_Source :: string
  ta_Destination :: string
  ta_Asset :: string
  ta_GrossAmount :: decimal
  ta_Fee :: decimal
  ta_WithdrawalID :: string
  ta_FeeCapCheck :: FeeCapStatus
  ta_Status :: AttemptStatus
  ta_TimeoutAt :: time
  ta_FailureReason :: string
  ta_CreatedAt :: time
  ta_UpdatedAt :: time

record Route =
  rt_RouteID :: int
  rt_FromExchange :: ExchangeID
  rt_ToExchange :: ExchangeID
  rt_Asset :: string
  rt_Network :: string
  rt_Address :: string
  rt_AddressFingerprint :: string
  rt_Memo :: string
  rt_FeeCap :: "decimal option"
  rt_ApprovedAt :: "time option"
  rt_Kind :: AttemptKind

record ExecutorConfig =
  xc_TestAmountUSDT :: decimal
  xc_TestTimeout :: duration
  xc_MainTimeout :: duration
  xc_PollInterval :: duration

record 'w reb_env =
  re_Clock :: "'w \<Rightarrow> time \<times> 'w"
  re_CtxErr :: "'w \<Rightarrow> string option \<times> 'w"
  re_Sleep :: "duration \<Rightarrow> 'w \<Rightarrow> string option \<times> 'w"
  re_UpdatePlanState :: "string \<Rightarrow> PlanState \<Rightarrow> reb_error option \<Rightarrow> 'w \<Rightarrow> string option \<times> 'w"
  re_RecordAttempt :: "TransferAttempt \<Rightarrow> 'w \<Rightarrow> string option \<times> 'w"
  re_UpdateAttemptStatus :: "string \<Rightarrow> AttemptStatus \<Rightarrow> reb_error option \<Rightarrow> 'w \<Rightarrow> string option \<times> 'w"
  re_Withdraw :: "WithdrawalRequest \<Rightarrow> 'w \<Rightarrow> (string + string) \<times> 'w"
  re_InternalTransfer :: "InternalTransferRequest \<Rightarrow> 'w \<Rightarrow> (string + string) \<times> 'w"
  re_IsConfirmed :: "string \<Rightarrow> 'w \<Rightarrow> (string + bool) \<times> 'w"

definition ValidateRoute :: "Route \<Rightarrow> time option \<Rightarrow> reb_error option" where
  "ValidateRoute route addressApprovedAt =
     (case addressApprovedAt of
        None \<Rightarrow> Some (ErrAddressNeverApproved (rt_RouteID route) (rt_FromExchange route) (rt_ToExchange route))
      | Some t \<Rightarrow> None)"

text \<open>The hash of \<open>crypto/sha256\<close>, in hexadecimal, is a parameter.\<close>

definition AddressFingerprint :: "(string \<Rightarrow> string) \<Rightarrow> string \<Rightarrow> string" where
  "AddressFingerprint sha256hex address =
     (let full = sha256hex address in if length full > 12 then take 12 full else full)"

definition MemoFingerprint :: "(string \<Rightarrow> string) \<Rightarrow> string \<Rightarrow> string" where
  "MemoFingerprint sha256hex memo = (if memo = [] then [] else AddressFingerprint sha256hex memo)"

definition breakerScope :: "ExchangeID \<Rightarrow> string" where
  "breakerScope ex = ''exchange:'' @ ex"

section \<open>Computations of the executor\<close>

type_synonym 'w rstate = "Plan \<times> CircuitBreaker \<times> 'w"
type_synonym ('w, 'a) reb = "'w rstate \<Rightarrow> ((reb_error + 'a) \<times> 'w rstate) option"

definition rb_return :: "'a \<Rightarrow> ('w, 'a) reb" where
  "rb_return a s = Some (Inr a, s)"

definition rb_fail :: "reb_error \<Rightarrow> ('w, 'a) reb" where
  "rb_fail e s = Some (Inl e, s)"

definition rb_panic :: "('w, 'a) reb" where
  "rb_panic s = None"

definition rb_try :: "('w, 'a) reb \<Rightarrow> (reb_error \<Rightarrow> ('w, 'b) reb) \<Rightarrow> ('a \<Rightarrow> ('w, 'b) reb) \<Rightarrow> ('w, 'b) reb" where
  "rb_try m h k s =
     (case m s of None \<Rightarrow> None | Some (Inl e, s') \<Rightarrow> h e s' | Some (Inr a, s') \<Rightarrow> k a s')"

definition rb_bind :: "('w, 'a) reb \<Rightarrow> ('a \<Rightarrow> ('w, 'b) reb) \<Rightarrow> ('w, 'b) reb" where
  "rb_bind m k = rb_try m rb_fail k"

text \<open>A call of the store.\<close>

definition rb_store :: "('w \<Rightarrow> string option \<times> 'w) \<Rightarrow> ('w, unit) reb" where
  "rb_store f = (\<lambda>(p, cb, w).
     (case f w of
        (None, w') \<Rightarrow> Some (Inr (), (p, cb, w'))
      | (Some e, w') \<Rightarrow> Some (Inl (ErrStore e), (p, cb, w'))))"

definition rb_clock :: "'w reb_env \<Rightarrow> ('w, time) reb" where
  "rb_clock E = (\<lambda>(p, cb, w). case re_Clock E w of (now, w') \<Rightarrow> Some (Inr now, (p, cb, w')))"

definition rb_transition :: "'w reb_env \<Rightarrow> PlanState \<Rightarrow> reb_error option \<Rightarrow> ('w, unit) reb" where
  "rb_transition E t reason = (\<lambda>(p, cb, w).
     (case plan_guard p t of
        Some e \<Rightarrow> Some (Inl (ErrTransition e), (p, cb, w))
      | None \<Rightarrow> (case re_Clock E w of (now, w') \<Rightarrow> Some (Inr (), (plan_move p t reason now, cb, w')))))"

text \<open>The plan and the breaker as they are now.\<close>

definition rb_plan :: "('w, Plan) reb" where
  "rb_plan = (\<lambda>(p, cb, w). Some (Inr p, (p, cb, w)))"

definition rb_breaker :: "('w, CircuitBreaker) reb" where
  "rb_breaker = (\<lambda>(p, cb, w). Some (Inr cb, (p, cb, w)))"

definition rb_save_state :: "'w reb_env \<Rightarrow> PlanState \<Rightarrow> reb_error option \<Rightarrow> ('w, unit) reb" where
  "rb_save_state E t reason = rb_bind rb_plan (\<lambda>p. rb_store (re_UpdatePlanState E (pl_ID p) t reason))"

text \<open>\<open>RecordFailure\<close> reads its clock only when it trips.\<close>

definition breaker_due :: "CircuitBreaker \<Rightarrow> string \<Rightarrow> bool" where
  "breaker_due cb scope \<longleftrightarrow> \<not> fst (IsTripped cb scope) \<and> FailuresCount cb scope + 1 \<ge> cb_threshold cb"

definition rb_record_failure :: "'w reb_env \<Rightarrow> string \<Rightarrow> ('w, unit) reb" where
  "rb_record_failure E scope = (\<lambda>(p, cb, w).
     (if breaker_due cb scope
      then (case re_Clock E w of (now, w') \<Rightarrow> Some (Inr (), (p, RecordFailure scope now cb, w')))
      else Some (Inr (), (p, RecordFailure scope 0 cb, w))))"

definition rb_record_success :: "string \<Rightarrow> ('w, unit) reb" where
  "rb_record_success scope = (\<lambda>(p, cb, w). Some (Inr (), (p, RecordSuccess scope cb, w)))"

definition failPlan :: "'w reb_env \<Rightarrow> reb_error \<Rightarrow> ('w, unit) reb" where
  "failPlan E err =
     (let save = rb_try (rb_save_state E PlanFailed (Some err)) (\<lambda>_. rb_fail err) (\<lambda>_. rb_fail err)
      in rb_try (rb_transition E PlanFailed (Some err)) (\<lambda>_. save) (\<lambda>_. save))"

text \<open>A failed attempt is counted and recorded; the answer is the error, joined with that of the record.\<close>

definition rb_note_failure :: "'w reb_env \<Rightarrow> string \<Rightarrow> string \<Rightarrow> AttemptStatus \<Rightarrow> reb_error \<Rightarrow> ('w, reb_error) reb" where
  "rb_note_failure E scope requestID status err =
     rb_bind (rb_record_failure E scope) (\<lambda>_.
       rb_try (rb_store (re_UpdateAttemptStatus E requestID status (Some err)))
         (\<lambda>e. rb_return (ErrAlso err e)) (\<lambda>_. rb_return err))"

definition withdrawal_of :: "Route \<Rightarrow> decimal \<Rightarrow> WithdrawalRequest" where
  "withdrawal_of route amount = \<lparr>wd_Asset = rt_Asset route, wd_Amount = amount, wd_Network = rt_Network route,
     wd_Address = rt_Address route, wd_Memo = rt_Memo route\<rparr>"

definition internal_of :: "Route \<Rightarrow> decimal \<Rightarrow> InternalTransferRequest" where
  "internal_of route amount = \<lparr>it_Asset = rt_Asset route, it_Amount = amount, it_From = rt_FromExchange route,
     it_To = rt_ToExchange route\<rparr>"

definition doTransfer :: "'w reb_env \<Rightarrow> Route \<Rightarrow> decimal \<Rightarrow> ('w, string) reb" where
  "doTransfer E route amount = (\<lambda>(p, cb, w).
     (case rt_Kind route of
        KindOnChain \<Rightarrow>
          (case re_Withdraw E (withdrawal_of route amount) w of
             (Inl e, w') \<Rightarrow> Some (Inl (ErrTransfer e), (p, cb, w'))
           | (Inr i, w') \<Rightarrow> Some (Inr i, (p, cb, w')))
      | KindInternal \<Rightarrow>
          (case re_InternalTransfer E (internal_of route amount) w of
             (Inl e, w') \<Rightarrow> Some (Inl (ErrTransfer e), (p, cb, w'))
           | (Inr i, w') \<Rightarrow> Some (Inr i, (p, cb, w')))
      | KindOther k \<Rightarrow> Some (Inl (ErrUnknownKind k), (p, cb, w))))"

partial_function (option) waitConfirmation ::
  "'w reb_env \<Rightarrow> duration \<Rightarrow> string \<Rightarrow> time \<Rightarrow> 'w \<Rightarrow> ((reb_error + bool) \<times> 'w) option" where
  "waitConfirmation E poll requestID deadline w =
     (case re_CtxErr E w of
        (Some e, w1) \<Rightarrow> Some (Inl (ErrContext e), w1)
      | (None, w1) \<Rightarrow>
          (case re_Clock E w1 of (now, w2) \<Rightarrow>
             if now > deadline then Some (Inr False, w2)
             else (case re_IsConfirmed E requestID w2 of
                     (Inl e, w3) \<Rightarrow> Some (Inl (ErrCheck e), w3)
                   | (Inr confirmed, w3) \<Rightarrow>
                       if confirmed then Some (Inr True, w3)
                       else if poll > 0
                       then (case re_Sleep E poll w3 of
                               (Some e, w4) \<Rightarrow> Some (Inl (ErrContext e), w4)
                             | (None, w4) \<Rightarrow> waitConfirmation E poll requestID deadline w4)
                       else Some (Inr False, w3))))"

definition rb_wait :: "'w reb_env \<Rightarrow> duration \<Rightarrow> string \<Rightarrow> time \<Rightarrow> ('w, bool) reb" where
  "rb_wait E poll requestID deadline = (\<lambda>(p, cb, w).
     map_option (\<lambda>(r, w'). (r, (p, cb, w'))) (waitConfirmation E poll requestID deadline w))"

section \<open>The two phases\<close>

definition new_attempt ::
  "AttemptPhase \<Rightarrow> Plan \<Rightarrow> Route \<Rightarrow> decimal \<Rightarrow> decimal \<Rightarrow> FeeCapStatus \<Rightarrow> time \<Rightarrow> duration \<Rightarrow> TransferAttempt" where
  "new_attempt phase p route amount fee cap now timeout =
     \<lparr>ta_RequestID = pl_ID p @ (if phase = PhaseTest then ''-TEST'' else ''-MAIN''), ta_PlanID = pl_ID p,
      ta_Phase = phase, ta_Kind = rt_Kind route, ta_Source = rt_FromExchange route,
      ta_Destination = rt_ToExchange route, ta_Asset = rt_Asset route, ta_GrossAmount = amount, ta_Fee = fee,
      ta_WithdrawalID = [], ta_FeeCapCheck = cap, ta_Status = AttemptCreated,
      ta_TimeoutAt = time_Add now timeout, ta_FailureReason = [], ta_CreatedAt = now, ta_UpdatedAt = now\<rparr>"

text \<open>After the test transfer was accepted.\<close>

definition await_test :: "'w reb_env \<Rightarrow> ExecutorConfig \<Rightarrow> string \<Rightarrow> string \<Rightarrow> time \<Rightarrow> ('w, unit) reb" where
  "await_test E cfg scope requestID now =
     rb_bind (rb_store (re_UpdateAttemptStatus E requestID AttemptSent None)) (\<lambda>_.
     rb_try (rb_wait E (xc_PollInterval cfg) requestID (time_Add now (xc_TestTimeout cfg)))
       (\<lambda>err. rb_bind (rb_note_failure E scope requestID AttemptFailed err) (failPlan E))
       (\<lambda>confirmed.
          if \<not> confirmed
          then rb_bind (rb_note_failure E scope requestID AttemptTimedOut ErrTestTimeout) (\<lambda>_. failPlan E ErrTestTimeout)
          else
            rb_bind (rb_record_success scope) (\<lambda>_.
            rb_bind (rb_store (re_UpdateAttemptStatus E requestID AttemptConfirmed None)) (\<lambda>_.
            rb_bind (rb_transition E PlanTestConfirmed None) (\<lambda>_.
            rb_save_state E PlanTestConfirmed None)))))"

text \<open>From the recording of the attempt on.\<close>

definition send_test :: "'w reb_env \<Rightarrow> ExecutorConfig \<Rightarrow> Route \<Rightarrow> ('w, unit) reb" where
  "send_test E cfg route =
     rb_bind rb_plan (\<lambda>p.
     let scope = breakerScope (rt_FromExchange route); requestID = pl_ID p @ ''-TEST''
     in rb_bind (rb_clock E) (\<lambda>now.
        rb_bind (rb_store (re_RecordAttempt E (new_attempt PhaseTest p route (xc_TestAmountUSDT cfg) 0 FeeCapPending now
                                                 (xc_TestTimeout cfg)))) (\<lambda>_.
        rb_try (doTransfer E route (xc_TestAmountUSDT cfg))
          (\<lambda>err. rb_bind (rb_note_failure E scope requestID AttemptFailed err) (failPlan E))
          (\<lambda>_. await_test E cfg scope requestID now))))"

definition ExecuteTest :: "'w reb_env \<Rightarrow> ExecutorConfig \<Rightarrow> Route \<Rightarrow> ('w, unit) reb" where
  "ExecuteTest E cfg route =
     (case ValidateRoute route (rt_ApprovedAt route) of
        Some e \<Rightarrow> failPlan E (ErrAddressNotApproved e)
      | None \<Rightarrow>
          (let scope = breakerScope (rt_FromExchange route)
           in rb_bind rb_breaker (\<lambda>cb.
              if fst (IsTripped cb scope)
              then rb_fail (ErrBreakerTripped scope (snd (IsTripped cb scope)))
              else rb_bind rb_plan (\<lambda>p.
                   rb_bind
                     (if pl_State p = PlanAwaitingApproval
                      then rb_bind (rb_transition E PlanTestSent None) (\<lambda>_. rb_save_state E PlanTestSent None)
                      else rb_return ())
                     (\<lambda>_. send_test E cfg route)))))"

definition await_main :: "'w reb_env \<Rightarrow> ExecutorConfig \<Rightarrow> string \<Rightarrow> string \<Rightarrow> time \<Rightarrow> ('w, unit) reb" where
  "await_main E cfg scope requestID now =
     rb_bind (rb_store (re_UpdateAttemptStatus E requestID AttemptSent None)) (\<lambda>_.
     rb_try (rb_wait E (xc_PollInterval cfg) requestID (time_Add now (xc_MainTimeout cfg)))
       (\<lambda>err. rb_bind (rb_note_failure E scope requestID AttemptFailed err) (\<lambda>_. failPlan E err))
       (\<lambda>confirmed.
          if \<not> confirmed
          then rb_bind (rb_note_failure E scope requestID AttemptTimedOut ErrMainTimeout) (\<lambda>_. failPlan E ErrMainTimeout)
          else
            rb_bind (rb_record_success scope) (\<lambda>_.
            rb_bind (rb_store (re_UpdateAttemptStatus E requestID AttemptConfirmed None)) (\<lambda>_.
            rb_bind (rb_transition E PlanMainConfirmed None) (\<lambda>_.
            rb_bind (rb_save_state E PlanMainConfirmed None) (\<lambda>_.
            rb_bind (rb_transition E PlanCompleted None) (\<lambda>_.
            rb_save_state E PlanCompleted None)))))))"

text \<open>A plan without a proposal is a nil dereference, a panic, after \<open>MAIN_SENT\<close> was stored.\<close>

definition send_main :: "'w reb_env \<Rightarrow> ExecutorConfig \<Rightarrow> Route \<Rightarrow> decimal \<Rightarrow> Plan \<Rightarrow> ('w, unit) reb" where
  "send_main E cfg route estimatedFee p =
     (let scope = breakerScope (rt_FromExchange route); requestID = pl_ID p @ ''-MAIN'';
          cap = (if rt_FeeCap route = None then FeeCapPending else FeeCapPassed)
      in rb_bind (rb_clock E) (\<lambda>now.
         (case pl_Proposal p of
            None \<Rightarrow> rb_panic
          | Some proposal \<Rightarrow>
              rb_bind (rb_store (re_RecordAttempt E (new_attempt PhaseMain p route (pp_GrossAmount proposal) estimatedFee
                                                       cap now (xc_MainTimeout cfg)))) (\<lambda>_.
              rb_try (doTransfer E route (pp_GrossAmount proposal))
                (\<lambda>err. rb_bind (rb_note_failure E scope requestID AttemptFailed err) (failPlan E))
                (\<lambda>_. await_main E cfg scope requestID now)))))"

definition fee_exceeded :: "Route \<Rightarrow> decimal \<Rightarrow> reb_error option" where
  "fee_exceeded route estimatedFee =
     (case rt_FeeCap route of
        None \<Rightarrow> None
      | Some cap \<Rightarrow> if estimatedFee > cap then Some (ErrFeeCapExceeded estimatedFee cap) else None)"

definition ExecuteMain :: "'w reb_env \<Rightarrow> ExecutorConfig \<Rightarrow> Route \<Rightarrow> decimal \<Rightarrow> ('w, unit) reb" where
  "ExecuteMain E cfg route estimatedFee =
     rb_bind rb_plan (\<lambda>p.
     if pl_State p \<noteq> PlanTestConfirmed then rb_fail (ErrMainBeforeTestConfirmed (pl_State p))
     else case ValidateRoute route (rt_ApprovedAt route) of
       Some e \<Rightarrow> failPlan E (ErrAddressNotApproved e)
     | None \<Rightarrow>
         (let scope = breakerScope (rt_FromExchange route)
          in rb_bind rb_breaker (\<lambda>cb.
             if fst (IsTripped cb scope)
             then rb_fail (ErrBreakerTripped scope (snd (IsTripped cb scope)))
             else case fee_exceeded route estimatedFee of
                    Some e \<Rightarrow> failPlan E e
                  | None \<Rightarrow>
                      rb_bind (rb_transition E PlanMainSent None) (\<lambda>_.
                      rb_bind (rb_save_state E PlanMainSent None) (\<lambda>_.
                      rb_bind rb_plan (send_main E cfg route estimatedFee))))))"

section \<open>The wait ends\<close>

text \<open>What a clock promises: no call sets it back, and an uninterrupted sleep lasts.\<close>

locale clocked =
  fixes E :: "'w reb_env" and t :: "'w \<Rightarrow> time"
  assumes clock_reads: "re_Clock E w = (now, w') \<Longrightarrow> now = t w \<and> t w \<le> t w'"
    and ctx_forward: "re_CtxErr E w = (c, w') \<Longrightarrow> t w \<le> t w'"
    and check_forward: "re_IsConfirmed E i w = (r, w') \<Longrightarrow> t w \<le> t w'"
    and sleep_lasts: "re_Sleep E d w = (None, w') \<Longrightarrow> t w + d \<le> t w'"
begin

lemma wait_ends: "0 < poll \<Longrightarrow> \<exists>r. waitConfirmation E poll requestID deadline w = Some r"
proof (induction "nat (deadline - t w + 1)" arbitrary: w rule: less_induct)
  case less
  obtain c w1 where c: "re_CtxErr E w = (c, w1)" by (metis surj_pair)
  obtain now w2 where now: "re_Clock E w1 = (now, w2)" by (metis surj_pair)
  obtain r w3 where r: "re_IsConfirmed E requestID w2 = (r, w3)" by (metis surj_pair)
  obtain sl w4 where sl: "re_Sleep E poll w3 = (sl, w4)" by (metis surj_pair)
  have "\<exists>r. waitConfirmation E poll requestID deadline w4 = Some r" if "now \<le> deadline" "sl = None"
  proof -
    have "t w + poll \<le> t w4" "t w \<le> deadline"
      using ctx_forward [OF c] clock_reads [OF now] check_forward [OF r] sleep_lasts [of poll w3 w4] sl that by auto
    then show ?thesis using less by auto
  qed
  then show ?case
    using less.prems by (subst waitConfirmation.simps) (auto simp: c now r sl split: option.splits sum.splits)
qed

end

section \<open>A log of the transfers sent\<close>

datatype send = SentWithdraw WithdrawalRequest | SentInternal InternalTransferRequest

fun send_amount :: "send \<Rightarrow> decimal" where
  "send_amount (SentWithdraw r) = wd_Amount r"
| "send_amount (SentInternal r) = it_Amount r"

definition beside :: "('w \<Rightarrow> 'r \<times> 'w) \<Rightarrow> 'w \<times> send list \<Rightarrow> 'r \<times> ('w \<times> send list)" where
  "beside f = (\<lambda>(w, lg). case f w of (r, w') \<Rightarrow> (r, (w', lg)))"

text \<open>Any environment with a record of the transfer requests it was sent, beside its own state.\<close>

definition logged_env :: "'w reb_env \<Rightarrow> ('w \<times> send list) reb_env" where
  "logged_env E = \<lparr>re_Clock = beside (re_Clock E), re_CtxErr = beside (re_CtxErr E),
     re_Sleep = (\<lambda>d. beside (re_Sleep E d)),
     re_UpdatePlanState = (\<lambda>i s e. beside (re_UpdatePlanState E i s e)),
     re_RecordAttempt = (\<lambda>a. beside (re_RecordAttempt E a)),
     re_UpdateAttemptStatus = (\<lambda>i s e. beside (re_UpdateAttemptStatus E i s e)),
     re_Withdraw = (\<lambda>req (w, lg). case re_Withdraw E req w of (r, w') \<Rightarrow> (r, (w', lg @ [SentWithdraw req]))),
     re_InternalTransfer = (\<lambda>req (w, lg). case re_InternalTransfer E req w of (r, w') \<Rightarrow> (r, (w', lg @ [SentInternal req]))),
     re_IsConfirmed = (\<lambda>i. beside (re_IsConfirmed E i))\<rparr>"

lemma beside_log: "beside f (w, lg) = (r, (w', lg')) \<longleftrightarrow> f w = (r, w') \<and> lg' = lg"
  by (auto simp: beside_def split: prod.split)

lemma beside_fst: "beside f (w, lg) = (fst (f w), (snd (f w), lg))"
  by (simp add: beside_def split: prod.split)

lemma beside_snd: "beside f wl = (r, wl') \<Longrightarrow> snd wl' = snd wl"
  by (auto simp: beside_def split: prod.splits)

lemma wait_logged_env:
  "waitConfirmation E' poll i deadline wl = Some x \<Longrightarrow> (E' = logged_env E \<longrightarrow> snd (snd x) = snd wl)"
proof (rule waitConfirmation.raw_induct [where P = "\<lambda>E' poll i deadline wl x. E' = logged_env E \<longrightarrow> snd (snd x) = snd wl"],
    rule impI)
  fix wait and E' :: "('a \<times> send list) reb_env" and poll i deadline wl
  fix x :: "(reb_error + bool) \<times> 'a \<times> send list"
  assume IH: "\<And>E' poll i deadline wl x. wait E' poll i deadline wl = Some x \<Longrightarrow>
      (E' :: ('a \<times> send list) reb_env) = logged_env E \<longrightarrow> snd (snd x) = snd wl"
    and run: "(case re_CtxErr E' wl of
        (Some e, w1) \<Rightarrow> Some (Inl (ErrContext e), w1)
      | (None, w1) \<Rightarrow>
          (case re_Clock E' w1 of (now, w2) \<Rightarrow>
             if now > deadline then Some (Inr False, w2)
             else (case re_IsConfirmed E' i w2 of
                     (Inl e, w3) \<Rightarrow> Some (Inl (ErrCheck e), w3)
                   | (Inr confirmed, w3) \<Rightarrow>
                       if confirmed then Some (Inr True, w3)
                       else if poll > 0
                       then (case re_Sleep E' poll w3 of
                               (Some e, w4) \<Rightarrow> Some (Inl (ErrContext e), w4)
                             | (None, w4) \<Rightarrow> wait E' poll i deadline w4)
                       else Some (Inr False, w3)))) = Some x"
    and E': "E' = logged_env E"
  obtain c w1 where c: "re_CtxErr E' wl = (c, w1)" by (metis surj_pair)
  obtain now w2 where now: "re_Clock E' w1 = (now, w2)" by (metis surj_pair)
  obtain r w3 where r: "re_IsConfirmed E' i w2 = (r, w3)" by (metis surj_pair)
  obtain sl w4 where sl: "re_Sleep E' poll w3 = (sl, w4)" by (metis surj_pair)
  have keep: "snd w1 = snd wl" "snd w2 = snd w1" "snd w3 = snd w2" "snd w4 = snd w3"
    using c now r sl E' by (auto simp: logged_env_def dest: beside_snd)
  have "snd (snd x) = snd w4" if "wait E' poll i deadline w4 = Some x"
    using IH [OF that] E' by blast
  then show "snd (snd x) = snd wl"
    using run keep
    by (auto simp: c now r sl split: option.splits sum.splits if_splits)
qed

lemmas wait_logged = wait_logged_env [THEN mp, OF _ refl]

section \<open>How far a computation takes the plan, and what it sends\<close>

text \<open>How a plan may change: forward in the table, the same in the rest, and in a dry run not past \<open>PLANNED\<close>.\<close>

definition plan_le :: "Plan \<Rightarrow> Plan \<Rightarrow> bool" where
  "plan_le p p' \<longleftrightarrow> plan_rank (pl_State p) \<le> plan_rank (pl_State p') \<and> pl_ID p' = pl_ID p
     \<and> pl_Proposal p' = pl_Proposal p \<and> pl_DryRun p' = pl_DryRun p
     \<and> (pl_DryRun p \<longrightarrow> pl_State p \<in> dry_states \<longrightarrow> pl_State p' \<in> dry_states)"

lemma plan_le_refl [simp]: "plan_le p p"
  by (simp add: plan_le_def)

lemma plan_le_trans [trans]: "plan_le p p1 \<Longrightarrow> plan_le p1 p' \<Longrightarrow> plan_le p p'"
  by (auto simp: plan_le_def)

lemma plan_le_move:
  assumes "plan_guard p t = None"
  shows "plan_le p (plan_move p t reason now)"
proof -
  have tr: "Plan_Transition p t reason now = Inr (plan_move p t reason now)"
    using assms by (simp add: Plan_Transition_def)
  have "plan_rank (pl_State p) \<le> plan_rank t"
    using plan_rank_up [OF Plan_Transition_Inr(1) [OF tr]] by simp
  then show ?thesis
    using dry_step [OF tr] by (simp add: plan_le_def)
qed

text \<open>
  \<open>effects Q n m\<close>: whatever the state, \<open>m\<close> never takes the plan back, keeps its identity and proposal, and
  sends at most \<open>n\<close> transfers, all satisfying \<open>Q\<close>.
\<close>

definition effects :: "(send \<Rightarrow> bool) \<Rightarrow> nat \<Rightarrow> ('w \<times> send list, 'a) reb \<Rightarrow> bool" where
  "effects Q n m \<longleftrightarrow> (\<forall>p cb w lg r p' cb' w' lg'. m (p, cb, (w, lg)) = Some (r, (p', cb', (w', lg'))) \<longrightarrow>
     plan_le p p'
     \<and> (\<exists>ms. lg' = lg @ ms \<and> length ms \<le> n \<and> list_all Q ms))"

lemma effectsD:
  assumes "effects Q n m" and "m (p, cb, (w, lg)) = Some (r, (p', cb', (w', lg')))"
  obtains ms where "lg' = lg @ ms" "length ms \<le> n" "list_all Q ms"
    "plan_le p p'"
  using assms unfolding effects_def by blast

named_theorems effects_intro

lemma effects_return [effects_intro]: "effects Q n (rb_return a)"
  by (auto simp: effects_def rb_return_def)

lemma effects_fail [effects_intro]: "effects Q n (rb_fail e)"
  by (auto simp: effects_def rb_fail_def)

lemma effects_try:
  assumes "effects Q a m" and "\<And>e. effects Q b (h e)" and "\<And>x. effects Q b (k x)"
  shows "effects Q (a + b) (rb_try m h k)"
  unfolding effects_def
proof (intro allI impI)
  fix p cb w lg r p' cb' w' lg'
  assume run: "rb_try m h k (p, cb, (w, lg)) = Some (r, (p', cb', (w', lg')))"
  then obtain r1 p1 cb1 w1 lg1 where m: "m (p, cb, (w, lg)) = Some (r1, (p1, cb1, (w1, lg1)))"
    by (auto simp: rb_try_def split: option.splits prod.splits sum.splits)
  then have rest: "(case r1 of Inl e \<Rightarrow> h e | Inr x \<Rightarrow> k x) (p1, cb1, (w1, lg1)) = Some (r, (p', cb', (w', lg')))"
    using run by (auto simp: rb_try_def split: sum.splits)
  have "effects Q b (case r1 of Inl e \<Rightarrow> h e | Inr x \<Rightarrow> k x)"
    using assms(2,3) by (cases r1) auto
  from effectsD [OF this rest] obtain ns where ns: "lg' = lg1 @ ns" "length ns \<le> b" "list_all Q ns"
    "plan_le p1 p'"
    by blast
  from effectsD [OF assms(1) m] obtain ms where "lg1 = lg @ ms" "length ms \<le> a" "list_all Q ms"
    "plan_le p p1"
    by blast
  then show "plan_le p p'
     \<and> (\<exists>ms. lg' = lg @ ms \<and> length ms \<le> a + b \<and> list_all Q ms)"
    using ns plan_le_trans by (intro conjI exI [of _ "ms @ ns"]) auto
qed

lemma effects_if [effects_intro]: "effects Q n m \<Longrightarrow> effects Q n m' \<Longrightarrow> effects Q n (if b then m else m')"
  by simp

text \<open>Silent steps before and around the rest.\<close>

lemma effects_silent_try [effects_intro]:
  "effects Q 0 m \<Longrightarrow> (\<And>e. effects Q n (h e)) \<Longrightarrow> (\<And>x. effects Q n (k x)) \<Longrightarrow> effects Q n (rb_try m h k)"
  using effects_try [of Q 0 m n h k] by simp

lemma effects_silent_bind [effects_intro]:
  "effects Q 0 m \<Longrightarrow> (\<And>x. effects Q n (k x)) \<Longrightarrow> effects Q n (rb_bind m k)"
  unfolding rb_bind_def by (intro effects_intro)

lemma effects_store:
  "(\<And>wl r wl'. f wl = (r, wl') \<Longrightarrow> snd wl' = snd wl) \<Longrightarrow> effects Q n (rb_store f)"
  by (fastforce simp: effects_def rb_store_def split: prod.splits option.splits)

lemma effects_stores [effects_intro]:
  "effects Q n (rb_store (re_UpdatePlanState (logged_env E) i s e))"
  "effects Q n (rb_store (re_RecordAttempt (logged_env E) a))"
  "effects Q n (rb_store (re_UpdateAttemptStatus (logged_env E) i st e))"
  by (rule effects_store, simp add: logged_env_def, erule beside_snd)+

lemma effects_clock [effects_intro]: "effects Q n (rb_clock (logged_env E))"
  by (auto simp: effects_def rb_clock_def logged_env_def beside_def split: prod.splits)

lemma effects_transition [effects_intro]: "effects Q n (rb_transition (logged_env E) t reason)"
  using plan_le_move
  by (auto simp: effects_def rb_transition_def logged_env_def beside_def split: prod.splits option.splits)

lemma effects_gets [effects_intro]: "effects Q n rb_plan" "effects Q n rb_breaker" "effects Q n rb_panic"
  by (auto simp: effects_def rb_plan_def rb_breaker_def rb_panic_def)

lemma effects_save [effects_intro]: "effects Q n (rb_save_state (logged_env E) t reason)"
  unfolding rb_save_state_def by (intro effects_intro)

lemma effects_record_failure [effects_intro]: "effects Q n (rb_record_failure (logged_env E) scope)"
  by (auto simp: effects_def rb_record_failure_def logged_env_def beside_def split: prod.splits if_splits)

lemma effects_record_success [effects_intro]: "effects Q n (rb_record_success scope)"
  by (auto simp: effects_def rb_record_success_def)

lemma effects_wait [effects_intro]: "effects Q n (rb_wait (logged_env E) poll i deadline)"
  using wait_logged by (fastforce simp: effects_def rb_wait_def)

lemma effects_fail_plan [effects_intro]: "effects Q n (failPlan (logged_env E) err)"
  unfolding failPlan_def Let_def by (intro effects_intro)

lemma effects_note [effects_intro]: "effects Q n (rb_note_failure (logged_env E) scope i status err)"
  unfolding rb_note_failure_def by (intro effects_intro)

lemma effects_transfer: "effects (\<lambda>x. send_amount x = amount) 1 (doTransfer (logged_env E) route amount)"
  by (auto simp: effects_def doTransfer_def logged_env_def withdrawal_of_def internal_of_def
      split: AttemptKind.splits prod.splits sum.splits)

lemma effects_await [effects_intro]:
  "effects Q n (await_test (logged_env E) cfg scope i now)"
  "effects Q n (await_main (logged_env E) cfg scope i now)"
  unfolding await_test_def await_main_def by (intro effects_intro)+

lemma effects_send:
  assumes "\<And>e. effects (\<lambda>x. send_amount x = amount) 0 (h e)" and "\<And>x. effects (\<lambda>x. send_amount x = amount) 0 (k x)"
  shows "effects (\<lambda>x. send_amount x = amount) 1 (rb_try (doTransfer (logged_env E) route amount) h k)"
  using effects_try [OF effects_transfer assms] by simp

text \<open>A computation that runs another after reading the plan sends what that one does for every plan.\<close>

lemma effects_send_test: "effects (\<lambda>x. send_amount x = xc_TestAmountUSDT cfg) 1 (send_test (logged_env E) cfg route)"
  unfolding send_test_def Let_def
  by (intro effects_silent_bind effects_gets effects_clock effects_stores effects_send) (intro effects_intro)+

lemma rb_read [simp]:
  "rb_bind rb_plan k (p, cb, w) = k p (p, cb, w)"
  "rb_bind rb_breaker k' (p, cb, w) = k' cb (p, cb, w)"
  by (simp_all add: rb_bind_def rb_try_def rb_plan_def rb_breaker_def)

lemma effects_test: "effects (\<lambda>x. send_amount x = xc_TestAmountUSDT cfg) 1 (ExecuteTest (logged_env E) cfg route)"
  unfolding ExecuteTest_def Let_def
  by (cases "ValidateRoute route (rt_ApprovedAt route)") (simp_all, (intro effects_intro effects_send_test [unfolded One_nat_def])+)

text \<open>The main transfer is the proposal's amount.\<close>

lemma effects_send_main:
  assumes "pl_Proposal p = Some proposal"
  shows "effects (\<lambda>x. send_amount x = pp_GrossAmount proposal) 1 (send_main (logged_env E) cfg route fee p)"
  unfolding send_main_def Let_def assms option.case
  by (intro effects_silent_bind effects_gets effects_clock effects_stores effects_send) (intro effects_intro)+

lemma rb_bindE:
  assumes "rb_bind m k s = Some (r, s')"
  obtains (Failed) e where "m s = Some (Inl e, s')" "r = Inl e"
  | (Done) a s1 where "m s = Some (Inr a, s1)" "k a s1 = Some (r, s')"
  using assms by (auto simp: rb_bind_def rb_try_def rb_fail_def split: option.splits sum.splits)

definition pays :: "PlanProposal option \<Rightarrow> send \<Rightarrow> bool" where
  "pays proposal x \<longleftrightarrow> (\<exists>pr. proposal = Some pr \<and> send_amount x = pp_GrossAmount pr)"

lemma effects_mono: "effects Q n m \<Longrightarrow> (\<And>x. Q x \<Longrightarrow> Q' x) \<Longrightarrow> effects Q' n m"
  unfolding effects_def by (metis list.pred_mono_strong)

lemma effects_send_pays: "effects (pays (pl_Proposal p)) 1 (send_main (logged_env E) cfg route fee p)"
proof (cases "pl_Proposal p")
  case None
  then show ?thesis unfolding send_main_def Let_def by simp (intro effects_intro)
next
  case (Some pr)
  then show ?thesis
    by (intro effects_mono [OF effects_send_main [OF Some]]) (simp add: pays_def)
qed

text \<open>From \<open>MAIN_SENT\<close> on.\<close>

lemma main_sent_effects:
  assumes "rb_bind (rb_save_state (logged_env E) PlanMainSent None) (\<lambda>_.
             rb_bind rb_plan (send_main (logged_env E) cfg route fee)) (p, cb, (w, lg)) = Some (r, (p', cb', (w', lg')))"
  shows "plan_le p p'
     \<and> (\<exists>ms. lg' = lg @ ms \<and> length ms \<le> 1 \<and> list_all (pays (pl_Proposal p)) ms)"
  using assms
proof (cases rule: rb_bindE)
  case (Failed e)
  then have "plan_le p p' \<and> lg' = lg"
    using effects_save [of "\<lambda>_. True" 0 E PlanMainSent None] by (auto elim: effectsD)
  then show ?thesis by simp
next
  case (Done a s1)
  obtain p1 cb1 w1 lg1 where s1: "s1 = (p1, cb1, (w1, lg1))" by (metis surj_pair)
  have save: "plan_le p p1" "lg1 = lg"
    using effects_save [of "\<lambda>_. True" 0 E PlanMainSent None] Done(1) unfolding s1 by (auto elim: effectsD)
  show ?thesis
    using Done(2) effects_send_pays [of p1 E cfg route fee] save plan_le_trans [OF save(1)] unfolding s1 rb_read
    by (auto simp: plan_le_def [of p p1] elim!: effectsD)
qed

text \<open>One call of \<open>ExecuteMain\<close>.\<close>

definition main_allowed :: "Plan \<Rightarrow> CircuitBreaker \<Rightarrow> Route \<Rightarrow> decimal \<Rightarrow> bool" where
  "main_allowed p cb route fee \<longleftrightarrow> pl_State p = PlanTestConfirmed \<and> rt_ApprovedAt route \<noteq> None
     \<and> \<not> fst (IsTripped cb (breakerScope (rt_FromExchange route))) \<and> fee_exceeded route fee = None"

lemma ExecuteMain_effects:
  assumes "ExecuteMain (logged_env E) cfg route fee (p, cb, (w, lg)) = Some (r, (p', cb', (w', lg')))"
  shows "plan_le p p'
     \<and> (\<exists>ms. lg' = lg @ ms \<and> length ms \<le> 1 \<and> list_all (pays (pl_Proposal p)) ms
           \<and> (ms \<noteq> [] \<longrightarrow> main_allowed p cb route fee \<and> 5 \<le> plan_rank (pl_State p')))"
proof (cases "main_allowed p cb route fee")
  case True
  then have guards: "pl_State p = PlanTestConfirmed" "ValidateRoute route (rt_ApprovedAt route) = None"
    "\<not> fst (IsTripped cb (breakerScope (rt_FromExchange route)))" "fee_exceeded route fee = None"
    "plan_guard p PlanMainSent = None"
    by (auto simp: main_allowed_def ValidateRoute_def plan_guard_def Plan_IsTerminal_def)
  obtain now w1 where clock: "re_Clock E w = (now, w1)" by (metis surj_pair)
  have tr: "rb_transition (logged_env E) PlanMainSent None (p, cb, (w, lg))
      = Some (Inr (), (plan_move p PlanMainSent None now, cb, (w1, lg)))"
    using guards(5) clock by (simp add: rb_transition_def logged_env_def beside_def)
  have "rb_bind (rb_save_state (logged_env E) PlanMainSent None) (\<lambda>_.
           rb_bind rb_plan (send_main (logged_env E) cfg route fee)) (plan_move p PlanMainSent None now, cb, (w1, lg))
      = Some (r, (p', cb', (w', lg')))"
    using assms guards tr by (simp add: ExecuteMain_def Let_def rb_bind_def [of "rb_transition _ _ _"] rb_try_def)
  note sent = main_sent_effects [OF this]
  have "plan_le p p'"
    using plan_le_trans [OF plan_le_move [OF guards(5)]] sent by blast
  moreover have "5 \<le> plan_rank (pl_State p')"
    using sent by (simp add: plan_le_def)
  ultimately show ?thesis
    using sent True by auto
next
  case False
  then obtain m where "effects (\<lambda>_. True) 0 m" "m (p, cb, (w, lg)) = Some (r, (p', cb', (w', lg')))"
    using assms effects_fail_plan [of "\<lambda>_. True" 0 E]
      effects_fail [where Q = "\<lambda>_. True" and n = 0, where 'a = 'a and 'b = unit]
    by (auto simp: ExecuteMain_def Let_def main_allowed_def ValidateRoute_def split: if_splits option.splits)
  then have "lg' = lg \<and> plan_le p p'"
    by (rule effectsD) simp
  then show ?thesis by simp
qed

lemma ExecuteTest_effects:
  assumes "ExecuteTest (logged_env E) cfg route (p, cb, (w, lg)) = Some (r, (p', cb', (w', lg')))"
  shows "plan_le p p'
     \<and> (\<exists>ms. lg' = lg @ ms \<and> length ms \<le> 1)"
  using effectsD [OF effects_test assms] by metis

section \<open>A plan's whole life\<close>

text \<open>What may happen to a plan: the two phases, with any routes, requested transitions, and breaker operations.\<close>

datatype reb_op = RunTest Route | RunMain Route decimal | Request PlanState "reb_error option" time
  | OnBreaker breaker_op

fun reb_exec :: "'w reb_env \<Rightarrow> ExecutorConfig \<Rightarrow> reb_op \<Rightarrow> 'w rstate \<Rightarrow> 'w rstate option" where
  "reb_exec E cfg (RunTest route) s = map_option snd (ExecuteTest E cfg route s)"
| "reb_exec E cfg (RunMain route fee) s = map_option snd (ExecuteMain E cfg route fee s)"
| "reb_exec E cfg (Request t reason now) (p, cb, w) =
     Some (case Plan_Transition p t reason now of Inl e \<Rightarrow> p | Inr p' \<Rightarrow> p', cb, w)"
| "reb_exec E cfg (OnBreaker x) (p, cb, w) = Some (p, breaker_apply x cb, w)"

text \<open>The transfers the main phases of a sequence of operations send.\<close>

fun main_sends ::
  "'w reb_env \<Rightarrow> ExecutorConfig \<Rightarrow> reb_op list \<Rightarrow> ('w \<times> send list) rstate \<Rightarrow> send list option" where
  "main_sends E cfg [] s = Some []"
| "main_sends E cfg (op # ops) (p, cb, (w, lg)) =
     (case reb_exec (logged_env E) cfg op (p, cb, (w, lg)) of
        None \<Rightarrow> None
      | Some (p', cb', (w', lg')) \<Rightarrow>
          map_option (\<lambda>rest. (case op of RunMain route fee \<Rightarrow> drop (length lg) lg' | _ \<Rightarrow> []) @ rest)
            (main_sends E cfg ops (p', cb', (w', lg'))))"

lemma reb_exec_plan:
  assumes "reb_exec (logged_env E) cfg op (p, cb, (w, lg)) = Some (p', cb', (w', lg'))"
  shows "plan_le p p'"
    and "case op of RunMain route fee \<Rightarrow>
           (\<exists>ms. lg' = lg @ ms \<and> length ms \<le> 1 \<and> list_all (pays (pl_Proposal p)) ms
              \<and> (ms \<noteq> [] \<longrightarrow> main_allowed p cb route fee \<and> 5 \<le> plan_rank (pl_State p')))
         | _ \<Rightarrow> True"
proof -
  show "plan_le p p'"
  proof (cases op)
    case (Request t reason now)
    then show ?thesis
      using assms plan_le_move [of p t reason now]
      by (auto simp: Plan_Transition_def split: option.splits)
  qed (use assms ExecuteTest_effects [of E cfg _ p cb w lg] ExecuteMain_effects [of E cfg _ _ p cb w lg] in auto)
  show "case op of RunMain route fee \<Rightarrow>
           (\<exists>ms. lg' = lg @ ms \<and> length ms \<le> 1 \<and> list_all (pays (pl_Proposal p)) ms
              \<and> (ms \<noteq> [] \<longrightarrow> main_allowed p cb route fee \<and> 5 \<le> plan_rank (pl_State p')))
         | _ \<Rightarrow> True"
    using assms ExecuteMain_effects [of E cfg _ _ p cb w lg] by (auto split: reb_op.splits)
qed

lemma main_sends_plan:
  "main_sends E cfg ops (p, cb, (w, lg)) = Some ms \<Longrightarrow>
     length ms \<le> 1 \<and> list_all (pays (pl_Proposal p)) ms
     \<and> (5 \<le> plan_rank (pl_State p) \<longrightarrow> ms = []) \<and> (pl_DryRun p \<longrightarrow> pl_State p \<in> dry_states \<longrightarrow> ms = [])"
proof (induction ops arbitrary: p cb w lg ms)
  case (Cons op ops)
  obtain p' cb' w' lg' where ex: "reb_exec (logged_env E) cfg op (p, cb, (w, lg)) = Some (p', cb', (w', lg'))"
    using Cons.prems by (auto split: option.splits prod.splits)
  then obtain rest where rest: "main_sends E cfg ops (p', cb', (w', lg')) = Some rest"
    and ms: "ms = (case op of RunMain route fee \<Rightarrow> drop (length lg) lg' | _ \<Rightarrow> []) @ rest"
    using Cons.prems by auto
  note IH = Cons.IH [OF rest] and le = reb_exec_plan(1) [OF ex] and sent = reb_exec_plan(2) [OF ex]
  have same: "pl_Proposal p' = pl_Proposal p" "plan_rank (pl_State p) \<le> plan_rank (pl_State p')"
    "pl_DryRun p' = pl_DryRun p" "pl_DryRun p \<Longrightarrow> pl_State p \<in> dry_states \<Longrightarrow> pl_State p' \<in> dry_states"
    using le by (auto simp: plan_le_def)
  show ?case
  proof (cases "\<exists>route fee. op = RunMain route fee")
    case True
    then obtain route fee where op: "op = RunMain route fee" by blast
    then obtain ns where ns: "lg' = lg @ ns" "length ns \<le> 1" "list_all (pays (pl_Proposal p)) ns"
      "ns \<noteq> [] \<longrightarrow> main_allowed p cb route fee \<and> 5 \<le> plan_rank (pl_State p')"
      using sent by auto
    have m: "ms = ns @ rest" using ms op ns(1) by simp
    show ?thesis
    proof (cases "ns = []")
      case True
      then show ?thesis using m IH same by auto
    next
      case False
      then have "rest = []" "pl_State p = PlanTestConfirmed" using IH ns(4) by (auto simp: main_allowed_def)
      then show ?thesis using m ns(2,3) by (simp add: dry_states_def)
    qed
  next
    case False
    then have "ms = rest" using ms by (cases op) auto
    then show ?thesis using IH same by auto
  qed
qed simp

text \<open>
  C15: over the whole life of a plan, with any sequence of test and main phases on any routes,
  requested transitions and breaker operations, and whatever the store, the exchange, the checker and the
  clock answer, the main phase sends at most one transfer; it is for the proposed amount, and a dry-run plan
  sends none.
\<close>

theorem main_sent_once:
  assumes "main_sends E cfg ops (NewPlan i (Some proposal) dryRun now, cb, (w, [])) = Some ms"
  shows "length ms \<le> 1 \<and> (\<forall>x\<in>set ms. send_amount x = pp_GrossAmount proposal) \<and> (dryRun \<longrightarrow> ms = [])"
proof -
  have "pl_State (NewPlan i (Some proposal) dryRun now) = PlanDraft"
    and "pl_Proposal (NewPlan i (Some proposal) dryRun now) = Some proposal"
    and "pl_DryRun (NewPlan i (Some proposal) dryRun now) = dryRun"
    by (simp_all add: NewPlan_def)
  then show ?thesis
    using main_sends_plan [OF assms] by (auto simp: pays_def list_all_iff dry_states_def)
qed

section \<open>A simulated environment\<close>

text \<open>
  A clock that moves with the sleeps, a store that accepts everything, exchanges that accept every transfer,
  and a checker that confirms after a number of polls.
\<close>

record Sim =
  sim_now :: time
  sim_polls :: nat

definition sim_env :: "Sim reb_env" where
  "sim_env = \<lparr>re_Clock = (\<lambda>w. (sim_now w, w)), re_CtxErr = (\<lambda>w. (None, w)),
     re_Sleep = (\<lambda>d w. (None, w\<lparr>sim_now := sim_now w + d\<rparr>)),
     re_UpdatePlanState = (\<lambda>i s e w. (None, w)), re_RecordAttempt = (\<lambda>a w. (None, w)),
     re_UpdateAttemptStatus = (\<lambda>i s e w. (None, w)),
     re_Withdraw = (\<lambda>req w. (Inr ''wd-1'', w)), re_InternalTransfer = (\<lambda>req w. (Inr ''tr-1'', w)),
     re_IsConfirmed = (\<lambda>i w. case sim_polls w of 0 \<Rightarrow> (Inr True, w) | Suc n \<Rightarrow> (Inr False, w\<lparr>sim_polls := n\<rparr>))\<rparr>"

interpretation sim: clocked sim_env sim_now
  by unfold_locales (auto simp: sim_env_def split: nat.splits)

text \<open>
  C16: with a clock that no call sets back and sleeps that last, polling for a confirmation
  ends, also when the checker never confirms; without a poll interval it ends after one check
  on any environment.
\<close>

theorem wait_returns:
  assumes "0 < poll \<Longrightarrow> clocked E t"
  shows "\<exists>r. waitConfirmation E poll requestID deadline w = Some r"
proof (cases "0 < poll")
  case True
  then show ?thesis using clocked.wait_ends [OF assms] by blast
next
  case False
  then show ?thesis
    by (subst waitConfirmation.simps) (auto split: prod.splits option.splits sum.splits)
qed

theorem wait_returns_witness:
  "\<exists>r. waitConfirmation sim_env 5 ''plan-TEST'' 60 \<lparr>sim_now = 0, sim_polls = 1000\<rparr> = Some r"
  by (rule wait_returns) (rule sim.clocked_axioms)

definition example_route :: Route where
  "example_route = \<lparr>rt_RouteID = 1, rt_FromExchange = ExchangeBinance, rt_ToExchange = ExchangeBybit,
     rt_Asset = ''USDT'', rt_Network = ''TRC20'', rt_Address = ''T1'', rt_AddressFingerprint = ''f'', rt_Memo = [],
     rt_FeeCap = Some 2, rt_ApprovedAt = Some 1, rt_Kind = KindOnChain\<rparr>"

definition example_xcfg :: ExecutorConfig where
  "example_xcfg = \<lparr>xc_TestAmountUSDT = 10, xc_TestTimeout = Minute, xc_MainTimeout = Minute, xc_PollInterval = Second\<rparr>"

definition example_proposal :: PlanProposal where
  "example_proposal = \<lparr>pp_FromExchange = ExchangeBinance, pp_ToExchange = ExchangeBybit, pp_Asset = ''USDT'',
     pp_GrossAmount = 100, pp_Reason = []\<rparr>"

lemmas reb_eval = rb_bind_def rb_try_def rb_fail_def rb_return_def rb_store_def rb_clock_def rb_transition_def
  rb_plan_def rb_breaker_def rb_save_state_def rb_record_success_def rb_wait_def doTransfer_def
  logged_env_def beside_def sim_env_def Let_def

lemma sim_wait:
  "now \<le> deadline \<Longrightarrow> waitConfirmation (logged_env sim_env) poll i deadline (\<lparr>sim_now = now, sim_polls = 0\<rparr>, lg)
     = Some (Inr True, (\<lparr>sim_now = now, sim_polls = 0\<rparr>, lg))"
  by (subst waitConfirmation.simps) (simp add: logged_env_def beside_def sim_env_def)

lemma sim_test:
  assumes "rt_ApprovedAt route \<noteq> None" and "rt_Kind route = KindOnChain"
    and "\<not> fst (IsTripped cb (breakerScope (rt_FromExchange route)))" and "pl_State p \<noteq> PlanAwaitingApproval"
  shows "ExecuteTest (logged_env sim_env) example_xcfg route (p, cb, (\<lparr>sim_now = 0, sim_polls = 0\<rparr>, lg))
    = Some (case plan_guard p PlanTestConfirmed of Some e \<Rightarrow> Inl (ErrTransition e) | None \<Rightarrow> Inr (),
        (case plan_guard p PlanTestConfirmed of Some e \<Rightarrow> p | None \<Rightarrow> plan_move p PlanTestConfirmed None 0,
         RecordSuccess (breakerScope (rt_FromExchange route)) cb,
         (\<lparr>sim_now = 0, sim_polls = 0\<rparr>, lg @ [SentWithdraw (withdrawal_of route 10)])))"
proof -
  have w: "waitConfirmation (logged_env sim_env) Second i (time_Add 0 Minute) (\<lparr>sim_now = 0, sim_polls = 0\<rparr>, lg')
     = Some (Inr True, (\<lparr>sim_now = 0, sim_polls = 0\<rparr>, lg'))" for i lg'
    by (rule sim_wait) (simp add: time_Add_def)
  obtain t where "rt_ApprovedAt route = Some t" using assms(1) by auto
  then show ?thesis
    using assms(2-4) w
    by (auto simp: ExecuteTest_def ValidateRoute_def send_test_def await_test_def reb_eval example_xcfg_def
        split: option.splits)
qed

text \<open>
  the test phase does not look at the state of the plan.  Run on a plan in any
  state but AWAITING_APPROVAL (a finished one, a cancelled one, a dry-run one stopped at PLANNED) over an approved
  on-chain route, in an environment where everything succeeds, it withdraws the test amount; unless the plan was
  in TEST_SENT it then reports a transition error and leaves the plan as it was, ready to be sent again.
\<close>

theorem test_phase_ignores_state:
  assumes "pl_State p \<noteq> PlanAwaitingApproval" and "rt_ApprovedAt route \<noteq> None" and "rt_Kind route = KindOnChain"
  shows "\<exists>r p' cb' w'. ExecuteTest (logged_env sim_env) example_xcfg route
        (p, NewCircuitBreaker 3, (\<lparr>sim_now = 0, sim_polls = 0\<rparr>, []))
      = Some (r, (p', cb', (w', [SentWithdraw (withdrawal_of route 10)])))
     \<and> (pl_State p \<noteq> PlanTestSent \<longrightarrow> p' = p \<and> (\<exists>e. r = Inl (ErrTransition e)))"
proof -
  have "\<not> fst (IsTripped (NewCircuitBreaker 3) scope)" for scope
    by (simp add: IsTripped_def NewCircuitBreaker_def)
  note run = sim_test [OF assms(2,3) this assms(1), of "[]"]
  have "plan_guard p PlanTestConfirmed \<noteq> None" if "pl_State p \<noteq> PlanTestSent"
    using that by (cases "pl_State p") (auto simp: plan_guard_def)
  then show ?thesis
    unfolding run by (cases "plan_guard p PlanTestConfirmed") auto
qed

theorem test_phase_ignores_state_witness:
  "\<exists>r p' cb' w'. ExecuteTest (logged_env sim_env) example_xcfg example_route
        ((NewPlan ''p1'' (Some example_proposal) True 0)\<lparr>pl_State := PlanPlanned\<rparr>, NewCircuitBreaker 3,
         (\<lparr>sim_now = 0, sim_polls = 0\<rparr>, []))
      = Some (r, (p', cb', (w', [SentWithdraw (withdrawal_of example_route 10)]))) \<and> pl_State p' = PlanPlanned"
  using test_phase_ignores_state [of "(NewPlan ''p1'' (Some example_proposal) True 0)\<lparr>pl_State := PlanPlanned\<rparr>" example_route]
  by (auto simp: example_route_def NewPlan_def)

definition example_life :: "reb_op list" where
  "example_life = [Request PlanPlanned None 0, Request PlanAwaitingApproval None 0, Request PlanTestSent None 0,
     RunTest example_route, RunMain example_route 1, RunMain example_route 1]"

lemma main_sends_request:
  "main_sends E cfg (Request t reason now # ops) (p, cb, (w, lg))
     = main_sends E cfg ops (case Plan_Transition p t reason now of Inl e \<Rightarrow> p | Inr p' \<Rightarrow> p', cb, (w, lg))"
proof -
  have "(@) [] = (id :: send list \<Rightarrow> send list)" by (simp add: fun_eq_iff)
  then show ?thesis by (simp add: option.map_id)
qed

lemma example_life_sends:
  "main_sends sim_env example_xcfg example_life
     (NewPlan ''p1'' (Some example_proposal) False 0, NewCircuitBreaker 3, (\<lparr>sim_now = 0, sim_polls = 0\<rparr>, []))
   = Some [SentWithdraw (withdrawal_of example_route 100)]"
proof -
  let ?w = "\<lparr>sim_now = 0, sim_polls = 0\<rparr>" and ?scope = "breakerScope (rt_FromExchange example_route)"
  let ?cb = "RecordSuccess ?scope (NewCircuitBreaker 3)"
  define p where "p = plan_move (plan_move (plan_move (NewPlan ''p1'' (Some example_proposal) False 0) PlanPlanned None 0)
    PlanAwaitingApproval None 0) PlanTestSent None 0"
  have p: "pl_State p = PlanTestSent" "pl_ID p = ''p1''" "pl_Proposal p = Some example_proposal" "\<not> pl_DryRun p"
    by (simp_all add: p_def NewPlan_def)
  have w: "waitConfirmation (logged_env sim_env) Second i (time_Add 0 Minute) (?w, lg)
     = Some (Inr True, (?w, lg))" for i lg
    by (rule sim_wait) (simp add: time_Add_def)
  have ok: "\<not> fst (IsTripped ?cb ?scope)" "\<not> fst (IsTripped (NewCircuitBreaker 3) ?scope)"
    "\<not> fst (IsTripped (RecordSuccess ?scope ?cb) ?scope)"
    by (simp_all add: IsTripped_def NewCircuitBreaker_def breaker_defs)
  have test: "ExecuteTest (logged_env sim_env) example_xcfg example_route (p, NewCircuitBreaker 3, (?w, []))
      = Some (Inr (), (plan_move p PlanTestConfirmed None 0, ?cb, (?w, [SentWithdraw (withdrawal_of example_route 10)])))"
    by (subst sim_test) (use ok p in \<open>auto simp: example_route_def plan_guard_def Plan_IsTerminal_def\<close>)
  let ?p1 = "plan_move p PlanTestConfirmed None 0"
  let ?p2 = "plan_move (plan_move (plan_move ?p1 PlanMainSent None 0) PlanMainConfirmed None 0) PlanCompleted None 0"
  have route: "rt_ApprovedAt example_route = Some 1" "rt_Kind example_route = KindOnChain" "fee_exceeded example_route 1 = None"
    by (simp_all add: example_route_def fee_exceeded_def)
  have main: "ExecuteMain (logged_env sim_env) example_xcfg example_route 1 (?p1, ?cb, (?w, lg))
      = Some (Inr (), (?p2, RecordSuccess ?scope ?cb, (?w, lg @ [SentWithdraw (withdrawal_of example_route 100)])))" for lg
    using p ok w route
    by (simp add: ExecuteMain_def ValidateRoute_def send_main_def await_main_def reb_eval
        example_xcfg_def plan_guard_def Plan_IsTerminal_def example_proposal_def)
  have again: "ExecuteMain (logged_env sim_env) example_xcfg example_route 1 (?p2, cb, (?w, lg))
      = Some (Inl (ErrMainBeforeTestConfirmed PlanCompleted), (?p2, cb, (?w, lg)))" for cb lg
    by (simp add: ExecuteMain_def reb_eval)
  have life: "main_sends sim_env example_xcfg example_life
       (NewPlan ''p1'' (Some example_proposal) False 0, NewCircuitBreaker 3, (?w, []))
     = main_sends sim_env example_xcfg [RunTest example_route, RunMain example_route 1, RunMain example_route 1]
       (p, NewCircuitBreaker 3, (?w, []))"
    unfolding example_life_def main_sends_request
    by (simp add: Plan_Transition_def plan_guard_def Plan_IsTerminal_def NewPlan_def p_def del: main_sends.simps)
  show ?thesis
    unfolding life by (simp add: test main again)
qed

theorem main_sent_once_witness:
  "\<exists>ms. main_sends sim_env example_xcfg example_life
     (NewPlan ''p1'' (Some example_proposal) False 0, NewCircuitBreaker 3, (\<lparr>sim_now = 0, sim_polls = 0\<rparr>, [])) = Some ms
     \<and> length ms = 1 \<and> (\<forall>x\<in>set ms. send_amount x = 100)"
  using main_sent_once [OF example_life_sends] example_life_sends by (simp add: example_proposal_def)

end
