(* ===== verification/EngineState.thy ===== *)
theory EngineState
  imports Scanner Portfolio Repair CandidVenue "HOL-Library.AList"
begin

text \<open>
  Package \<open>internal/engine\<close> (\<open>engine.go\<close>), the data and the small operations: the dependencies, the
  configuration, the open positions with their symbols, the requests to close, the notifications and
  the record of the legs (\<open>repository/legs.go\<close>).

  Everything outside the engine is one state: the venues by exchange, and a state \<open>'d\<close> of the database, the
  clock, the lock flag, the registry and the caches, which other goroutines and processes change; a
  call of the clock or of a repository may therefore change all of it.  The engine's maps are association
  lists in some order; the step relation of theory \<open>Engine\<close> permutes them, since Go's iteration
  order is arbitrary.  The texts of notifications are values of \<open>notice\<close>, and what is only logged is left out.
\<close>

record openPosition =
  op_pos :: Position
  op_longSym :: ExchangeSymbol
  op_shortSym :: ExchangeSymbol
  op_longEx :: ExchangeID
  op_shortEx :: ExchangeID
  op_asset :: AssetSymbol
  op_tickSize :: decimal

record EngineConfig =
  ec_Scan :: Config
  ec_MaxOpenPositions :: int
  ec_OrdersEnabled :: bool
  ec_ProtectionTicks :: int
  ec_MaxRequotes :: int
  ec_DeltaToleranceBase :: decimal
  ec_ExitIfFundingSignChanges :: bool
  ec_Interval :: duration

section \<open>The legs in the database\<close>

record LegState =
  lg_PositionID :: PositionID
  lg_Side :: Side
  lg_Exchange :: ExchangeID
  lg_Symbol :: ExchangeSymbol
  lg_BaseQty :: decimal
  lg_EntryVWAP :: decimal
  lg_Status :: string

record LegQuantities =
  lq_LongBaseQty :: decimal
  lq_ShortBaseQty :: decimal
  lq_Found :: bool

record 'd legs_repo =
  lr_Upsert :: "LegState \<Rightarrow> 'd \<Rightarrow> string option \<times> 'd"
  lr_Load :: "PositionID \<Rightarrow> 'd \<Rightarrow> (string + LegQuantities) \<times> 'd"

text \<open>The status of a position as the database stores it for its legs.\<close>

definition legStatus :: "PState \<Rightarrow> string" where
  "legStatus s = (case s of StateClosed \<Rightarrow> ''closed'' | StateDegraded \<Rightarrow> ''degraded'' | _ \<Rightarrow> ''open'')"

section \<open>Dependencies and state\<close>

record ('v, 'd) Deps =
  dp_Dec :: "sp_ops" \<comment> \<open>the third-party decimal operations\<close>
  dp_Adapters :: "ExchangeID \<rightharpoonup> 'v adapter"
  dp_Executors :: "ExchangeID \<rightharpoonup> 'v adapter" \<comment> \<open>the adapter of each executor\<close>
  dp_Registry :: "'d \<Rightarrow> Registry"
  dp_Cache :: "'d \<Rightarrow> nat \<Rightarrow> Cache" \<comment> \<open>as the reader's n-th look at it finds it\<close>
  dp_Scanner :: "'d \<Rightarrow> Scanner"
  dp_Positions :: "(string list \<Rightarrow> 'd \<Rightarrow> (string + Position list) \<times> 'd) option"
  dp_Persister :: "'d persister"
  dp_Orders :: "(Order \<Rightarrow> ExchangeID \<Rightarrow> PositionID \<Rightarrow> string \<Rightarrow> 'd \<Rightarrow> string option \<times> 'd) option"
  dp_Legs :: "'d legs_repo option"
  dp_Halter :: "'d \<Rightarrow> bool \<times> string"
  dp_Notifier :: "bool" \<comment> \<open>present or nil\<close>
  dp_Clock :: "'d \<Rightarrow> time \<times> 'd"

datatype notice =
    NoteHalted string | NoteDegradedPosition PositionID | NoteObserveOnly
  | NoteClosed PositionID string | NoteAmbiguousClose PositionID
  | NoteCloseIncomplete PositionID string decimal decimal
  | NoteAmbiguousEntry PositionID | NoteDeltaOpen PositionID decimal decimal
  | NoteOpened PositionID AssetSymbol ExchangeID ExchangeID decimal

record Engine =
  en_open :: "(PositionID \<times> openPosition) list"
  en_closeReq :: "PositionID \<rightharpoonup> string"
  en_seq :: int
  en_lastNotif :: "string \<rightharpoonup> time"

record ('v, 'd) world =
  wd_venues :: "ExchangeID \<Rightarrow> 'v"
  wd_ext :: 'd
  wd_notes :: "(string \<times> notice) list" \<comment> \<open>severity and text, in order of sending\<close>

definition engine_defaults :: "EngineConfig \<Rightarrow> EngineConfig" where
  "engine_defaults cfg =
     (let c1 = (if ec_MaxOpenPositions cfg \<le> 0 then cfg\<lparr>ec_MaxOpenPositions := 1\<rparr> else cfg);
          c2 = (if ec_Interval c1 \<le> 0 then c1\<lparr>ec_Interval := 5 * Second\<rparr> else c1)
      in if ec_MaxRequotes c2 \<le> 0 then c2\<lparr>ec_MaxRequotes := 3\<rparr> else c2)"

text \<open>\<open>New\<close>, the required dependencies being there: the engine and the configuration it works with.\<close>

definition Engine_New :: "EngineConfig \<Rightarrow> Engine \<times> EngineConfig" where
  "Engine_New cfg = (\<lparr>en_open = [], en_closeReq = Map.empty, en_seq = 0, en_lastNotif = Map.empty\<rparr>,
                     engine_defaults cfg)"

definition RequestClose :: "PositionID \<Rightarrow> string \<Rightarrow> Engine \<Rightarrow> Engine" where
  "RequestClose positionID reason en =
     (let r = (if reason = [] then ''operator request'' else reason)
      in en\<lparr>en_closeReq := (en_closeReq en)(positionID \<mapsto> r)\<rparr>)"

definition registerOpen :: "PositionID \<Rightarrow> openPosition \<Rightarrow> Engine \<Rightarrow> Engine" where
  "registerOpen i p en = en\<lparr>en_open := AList.update i p (en_open en)\<rparr>"

definition forget :: "PositionID \<Rightarrow> Engine \<Rightarrow> Engine" where
  "forget i en = en\<lparr>en_open := AList.delete i (en_open en), en_closeReq := (en_closeReq en)(i := None)\<rparr>"

definition OpenCount :: "Engine \<Rightarrow> nat" where
  "OpenCount en = length (en_open en)"

text \<open>The open positions are pointers: a change through one is seen in the map.\<close>

definition store_op :: "openPosition \<Rightarrow> Engine \<Rightarrow> Engine" where
  "store_op p en = en\<lparr>en_open := map (\<lambda>(k, x). (k, if k = pos_ID (op_pos p) then p else x)) (en_open en)\<rparr>"

definition clear_request :: "PositionID \<Rightarrow> Engine \<Rightarrow> Engine" where
  "clear_request i en = en\<lparr>en_closeReq := (en_closeReq en)(i := None)\<rparr>"

section \<open>Notifications\<close>

definition notify :: "('v, 'd) Deps \<Rightarrow> string \<Rightarrow> notice \<Rightarrow> ('v, 'd) world \<Rightarrow> ('v, 'd) world" where
  "notify dp severity n w = (if dp_Notifier dp then w\<lparr>wd_notes := wd_notes w @ [(severity, n)]\<rparr> else w)"

definition notifyOnce ::
  "('v, 'd) Deps \<Rightarrow> string \<Rightarrow> string \<Rightarrow> notice \<Rightarrow> Engine \<Rightarrow> ('v, 'd) world \<Rightarrow> Engine \<times> ('v, 'd) world" where
  "notifyOnce dp key severity n en w =
     (case dp_Clock dp (wd_ext w) of (now, d) \<Rightarrow>
        let w1 = w\<lparr>wd_ext := d\<rparr> in
        if (case en_lastNotif en key of None \<Rightarrow> False | Some prev \<Rightarrow> time_Sub now prev < 10 * Minute)
        then (en, w1)
        else (en\<lparr>en_lastNotif := (en_lastNotif en)(key \<mapsto> now)\<rparr>, notify dp severity n w1))"

section \<open>Symbols, legs, books\<close>

definition resolveSymbols :: "('v, 'd) Deps \<Rightarrow> 'd \<Rightarrow> openPosition \<Rightarrow> bool \<times> openPosition" where
  "resolveSymbols dp d p =
     (if op_longSym p \<noteq> [] \<and> op_shortSym p \<noteq> [] \<and> op_tickSize p \<noteq> 0 then (True, p)
      else case (Registry_Get (dp_Registry dp d) (op_longEx p) (op_asset p),
                 Registry_Get (dp_Registry dp d) (op_shortEx p) (op_asset p)) of
             (Some li, Some si) \<Rightarrow>
               (True, p\<lparr>op_longSym := ins_Symbol li, op_shortSym := ins_Symbol si,
                        op_tickSize := Dec_Max (ins_TickSize li) (ins_TickSize si)\<rparr>)
           | _ \<Rightarrow> (False, p))"

definition leg_states :: "openPosition \<Rightarrow> LegState list" where
  "leg_states p =
     (let q = op_pos p in
      [\<lparr>lg_PositionID = pos_ID q, lg_Side = SideLong, lg_Exchange = op_longEx p, lg_Symbol = op_longSym p,
        lg_BaseQty = pos_LongBaseQty q, lg_EntryVWAP = 0, lg_Status = legStatus (pos_State q)\<rparr>,
       \<lparr>lg_PositionID = pos_ID q, lg_Side = SideShort, lg_Exchange = op_shortEx p, lg_Symbol = op_shortSym p,
        lg_BaseQty = pos_ShortBaseQty q, lg_EntryVWAP = 0, lg_Status = legStatus (pos_State q)\<rparr>])"

definition persistLegs :: "('v, 'd) Deps \<Rightarrow> openPosition \<Rightarrow> 'd \<Rightarrow> 'd" where
  "persistLegs dp p d =
     (case dp_Legs dp of None \<Rightarrow> d | Some repo \<Rightarrow> fold (\<lambda>l d. snd (lr_Upsert repo l d)) (leg_states p) d)"

text \<open>The book provider of a leg: the cache at each attempt, a zero price being no price.\<close>

definition cache_BestBid :: "(nat \<Rightarrow> Cache) \<Rightarrow> ExchangeID \<Rightarrow> AssetSymbol \<Rightarrow> book_answers" where
  "cache_BestBid c ex a = (\<lambda>att _. case Cache_Get (c att) ex a of
       None \<Rightarrow> None | Some s \<Rightarrow> if snap_BestBid s = 0 then None else Some (snap_BestBid s))"

definition cache_BestAsk :: "(nat \<Rightarrow> Cache) \<Rightarrow> ExchangeID \<Rightarrow> AssetSymbol \<Rightarrow> book_answers" where
  "cache_BestAsk c ex a = (\<lambda>att _. case Cache_Get (c att) ex a of
       None \<Rightarrow> None | Some s \<Rightarrow> if snap_BestAsk s = 0 then None else Some (snap_BestAsk s))"

definition fundingSpreadFlipped :: "('v, 'd) Deps \<Rightarrow> 'd \<Rightarrow> openPosition \<Rightarrow> bool" where
  "fundingSpreadFlipped dp d p =
     (case (Cache_Get (dp_Cache dp d 0) (op_longEx p) (op_asset p),
            Cache_Get (dp_Cache dp d 0) (op_shortEx p) (op_asset p)) of
        (Some l, Some s) \<Rightarrow> \<not> snap_PredictedRate s - snap_PredictedRate l > 0
      | _ \<Rightarrow> False)"

section \<open>Transitions of the engine's positions\<close>

definition engine_actor :: string where "engine_actor = ''system:engine''"

definition transition_at ::
  "('v, 'd) Deps \<Rightarrow> Position \<Rightarrow> PState \<Rightarrow> time \<Rightarrow> string \<Rightarrow> 'd \<Rightarrow> bool \<times> Position \<times> 'd" where
  "transition_at dp p to now reason d =
     (case TransitionTo p to now reason engine_actor (Some (dp_Persister dp)) d of
        (r, p', d') \<Rightarrow> (r = Inr (), p', d'))"

definition transition_now ::
  "('v, 'd) Deps \<Rightarrow> Position \<Rightarrow> PState \<Rightarrow> string \<Rightarrow> 'd \<Rightarrow> bool \<times> Position \<times> 'd" where
  "transition_now dp p to reason d = (case dp_Clock dp d of (now, d') \<Rightarrow> transition_at dp p to now reason d')"

definition set_quantities_now ::
  "('v, 'd) Deps \<Rightarrow> Position \<Rightarrow> decimal \<Rightarrow> decimal \<Rightarrow> 'd \<Rightarrow> Position \<times> 'd" where
  "set_quantities_now dp p long short d =
     (case dp_Clock dp d of (now, d') \<Rightarrow>
        (case SetQuantities p long short now of Inl e \<Rightarrow> p | Inr p' \<Rightarrow> p', d'))"

section \<open>Restoring\<close>

datatype engine_error = ErrRestoreNeedsRepository | ErrRestore string

definition restore_states :: "string list" where
  "restore_states = [''OPENING'', ''PARTIALLY_HEDGED'', ''HEDGED'', ''MONITORING'', ''EXIT_REQUESTED'',
     ''EXITING'', ''RECONCILING'', ''DEGRADED'']"

definition restore_one ::
  "('v, 'd) Deps \<Rightarrow> Position \<Rightarrow> Engine \<times> 'd \<Rightarrow> Engine \<times> 'd" where
  "restore_one dp p = (\<lambda>(en, d).
     let p0 = \<lparr>op_pos = p, op_longSym = [], op_shortSym = [], op_longEx = pos_LongExchange p,
               op_shortEx = pos_ShortExchange p, op_asset = pos_Asset p, op_tickSize = 0\<rparr>;
         p1 = snd (resolveSymbols dp d p0);
         (q, d') = (case dp_Legs dp of
              None \<Rightarrow> (p, d)
            | Some repo \<Rightarrow>
                if PState_IsTerminal (pos_State p) then (p, d)
                else (case lr_Load repo (pos_ID p) d of
                        (Inl e, d1) \<Rightarrow> (p, d1)
                      | (Inr legs, d1) \<Rightarrow>
                          if lq_Found legs
                          then set_quantities_now dp p (lq_LongBaseQty legs) (lq_ShortBaseQty legs) d1
                          else (p, d1)))
     in (registerOpen (pos_ID p) (p1\<lparr>op_pos := q\<rparr>) en, d'))"

definition Restore ::
  "('v, 'd) Deps \<Rightarrow> Engine \<Rightarrow> 'd \<Rightarrow> engine_error option \<times> Engine \<times> 'd" where
  "Restore dp en d =
     (case dp_Positions dp of
        None \<Rightarrow> (Some ErrRestoreNeedsRepository, en, d)
      | Some loadByStates \<Rightarrow>
          (case loadByStates restore_states d of
             (Inl e, d1) \<Rightarrow> (Some (ErrRestore e), en, d1)
           | (Inr active, d1) \<Rightarrow> (case fold (restore_one dp) active (en, d1) of (en', d') \<Rightarrow> (None, en', d'))))"

end
