(* ===== verification/EngineClose.thy ===== *)
theory EngineClose
  imports EngineState
begin

text \<open>
  Package \<open>internal/engine\<close> (\<open>engine.go\<close>), the way out of a position: \<open>closePosition\<close> and \<open>monitor\<close>.

  \<open>CoordinatedClose\<close> threads the states of the two venues of the position, which the scanner chooses
  different.  A missing executor is a nil pointer, and the close panics when it comes to use it.
\<close>

text \<open>The executor of a leg the close does not get to.\<close>

definition nil_executor :: "'v adapter" where
  "nil_executor = \<lparr>ad_PlaceOrder = (\<lambda>_ w. (Inl (ErrExchOther []), w)),
     ad_GetOrder = (\<lambda>_ w. (Inl (ErrExchOther []), w)), ad_SetLeverage = (\<lambda>_ w. (None, w))\<rparr>"

definition close_request :: "('v, 'd) Deps \<Rightarrow> openPosition \<Rightarrow> 'd \<Rightarrow> CloseRequest" where
  "close_request dp p d =
     \<lparr>cq_PositionID = pos_ID (op_pos p), cq_LongSymbol = op_longSym p,
      cq_LongRemaining = pos_LongBaseQty (op_pos p), cq_ShortSymbol = op_shortSym p,
      cq_ShortRemaining = pos_ShortBaseQty (op_pos p),
      cq_LongBestBid = cache_BestBid (dp_Cache dp d) (op_longEx p) (op_asset p),
      cq_ShortBestAsk = cache_BestAsk (dp_Cache dp d) (op_shortEx p) (op_asset p)\<rparr>"

definition close_config :: "EngineConfig \<Rightarrow> openPosition \<Rightarrow> CloseConfig" where
  "close_config cfg p = \<lparr>cc_CloseProtectionTicks = ec_ProtectionTicks cfg,
     cc_MaxRequotes = ec_MaxRequotes cfg, cc_TickSize = op_tickSize p\<rparr>"

text \<open>Whether the close sends orders at all: something to close, an attempt, and both prices.\<close>

definition close_sends :: "CloseRequest \<Rightarrow> CloseConfig \<Rightarrow> bool" where
  "close_sends req cfg \<longleftrightarrow> Dec_Min (cq_LongRemaining req) (cq_ShortRemaining req) > 0
     \<and> cc_MaxRequotes cfg + 1 > 0
     \<and> cq_LongBestBid req 0 (cq_LongSymbol req) \<noteq> None \<and> cq_ShortBestAsk req 0 (cq_ShortSymbol req) \<noteq> None"

definition run_close ::
  "('v, 'd) Deps \<Rightarrow> EngineConfig \<Rightarrow> openPosition \<Rightarrow> ('v, 'd) world
   \<Rightarrow> ((CloseResult \<times> close_error option) \<times> ('v, 'd) world) option" where
  "run_close dp cfg p w =
     (let req = close_request dp p (wd_ext w);
          ccfg = close_config cfg p;
          L = dp_Executors dp (op_longEx p);
          S = dp_Executors dp (op_shortEx p)
      in if (L = None \<or> S = None) \<and> close_sends req ccfg then None
         else (case CoordinatedClose (case L of None \<Rightarrow> nil_executor | Some A \<Rightarrow> A)
                      (case S of None \<Rightarrow> nil_executor | Some A \<Rightarrow> A) req ccfg
                      (wd_venues w (op_longEx p)) (wd_venues w (op_shortEx p)) of
                 (r, vl, vs) \<Rightarrow>
                   Some (r, w\<lparr>wd_venues := (wd_venues w)(op_longEx p := vl, op_shortEx p := vs)\<rparr>)))"

text \<open>\<open>closePosition\<close> up to the close itself: the transitions to EXIT\_REQUESTED and EXITING.\<close>

definition begin_exit ::
  "('v, 'd) Deps \<Rightarrow> Position \<Rightarrow> string \<Rightarrow> 'd \<Rightarrow> bool \<times> Position \<times> 'd" where
  "begin_exit dp p reason d =
     (let (now, d1) = dp_Clock dp d;
          (ok1, p1, d2) = (if pos_State p \<noteq> StateExitRequested
                           then transition_at dp p StateExitRequested now reason d1 else (True, p, d1))
      in if \<not> ok1 then (False, p1, d2) else transition_at dp p1 StateExiting now reason d2)"

text \<open>What follows the close, by its outcome.\<close>

definition finish_exit ::
  "('v, 'd) Deps \<Rightarrow> openPosition \<Rightarrow> string \<Rightarrow> CloseResult \<Rightarrow> close_error option
   \<Rightarrow> Engine \<Rightarrow> ('v, 'd) world \<Rightarrow> Engine \<times> ('v, 'd) world" where
  "finish_exit dp p reason res err en w =
     (let i = pos_ID (op_pos p) in
      case err of
        None \<Rightarrow>
          (let (_, p1, d1) = transition_now dp (op_pos p) StateReconciling ''close complete, verifying'' (wd_ext w);
               (ok, p2, d2) = transition_now dp p1 StateClosed reason d1;
               en' = store_op (p\<lparr>op_pos := p2\<rparr>) en;
               w' = w\<lparr>wd_ext := d2\<rparr>
           in if \<not> ok then (en', w')
              else (clear_request i (forget i en'), notify dp ''INFO'' (NoteClosed i reason) w'))
      | Some ErrCloseAmbiguous \<Rightarrow>
          (let (_, p1, d1) = transition_now dp (op_pos p) StateReconciling (cl_Reason res) (wd_ext w);
               (_, p2, d2) = transition_now dp p1 StateDegraded
                  ''ambiguous close: manual reconciliation required'' d1
           in (clear_request i (store_op (p\<lparr>op_pos := p2\<rparr>) en),
               notify dp ''CRITICAL'' (NoteAmbiguousClose i) (w\<lparr>wd_ext := d2\<rparr>)))
      | Some ErrCloseIncomplete \<Rightarrow>
          (let (_, p1, d1) = transition_now dp (op_pos p) StateDegraded (cl_Reason res) (wd_ext w)
           in (clear_request i (store_op (p\<lparr>op_pos := p1\<rparr>) en),
               notify dp ''ERROR'' (NoteCloseIncomplete i (cl_Reason res) (cl_ResidualLongQty res)
                  (cl_ResidualShortQty res)) (w\<lparr>wd_ext := d1\<rparr>))))"

definition closePosition ::
  "('v, 'd) Deps \<Rightarrow> EngineConfig \<Rightarrow> openPosition \<Rightarrow> string \<Rightarrow> Engine \<Rightarrow> ('v, 'd) world
   \<Rightarrow> (Engine \<times> ('v, 'd) world) option" where
  "closePosition dp cfg p0 reason en w =
     (case resolveSymbols dp (wd_ext w) p0 of
        (False, p) \<Rightarrow> Some (en, w)
      | (True, p) \<Rightarrow>
          (case begin_exit dp (op_pos p) reason (wd_ext w) of
             (False, q, d) \<Rightarrow> Some (store_op (p\<lparr>op_pos := q\<rparr>) en, w\<lparr>wd_ext := d\<rparr>)
           | (True, q, d) \<Rightarrow>
               do { ((res, err), w1) \<leftarrow> run_close dp cfg (p\<lparr>op_pos := q\<rparr>) (w\<lparr>wd_ext := d\<rparr>);
                    let (q2, d2) = set_quantities_now dp q (pos_LongBaseQty q - cl_LongClosedQty res)
                                     (pos_ShortBaseQty q - cl_ShortClosedQty res) (wd_ext w1);
                    let p2 = p\<lparr>op_pos := q2\<rparr>;
                    let w2 = w1\<lparr>wd_ext := persistLegs dp p2 d2\<rparr>;
                    Some (finish_exit dp p2 reason res err en w2) }))"

section \<open>Monitoring\<close>

definition monitor_one ::
  "('v, 'd) Deps \<Rightarrow> EngineConfig \<Rightarrow> openPosition \<Rightarrow> Engine \<Rightarrow> ('v, 'd) world
   \<Rightarrow> (Engine \<times> ('v, 'd) world) option" where
  "monitor_one dp cfg p en w =
     (let i = pos_ID (op_pos p) in
      if pos_State (op_pos p) = StateMonitoring
      then (case en_closeReq en i of
              Some reason \<Rightarrow> closePosition dp cfg p reason en w
            | None \<Rightarrow>
                if ec_ExitIfFundingSignChanges cfg \<and> fundingSpreadFlipped dp (wd_ext w) p
                then closePosition dp cfg p ''funding spread sign changed'' en w
                else Some (en, w))
      else if pos_State (op_pos p) = StateDegraded
      then (case notifyOnce dp (''degraded-'' @ i) ''CRITICAL'' (NoteDegradedPosition i) en w of
              (en1, w1) \<Rightarrow>
                (case en_closeReq en1 i of
                   Some reason \<Rightarrow> closePosition dp cfg p reason en1 w1
                 | None \<Rightarrow> Some (en1, w1)))
      else if PState_IsTerminal (pos_State (op_pos p)) then Some (forget i en, w)
      else Some (en, w))"

fun monitor_loop ::
  "('v, 'd) Deps \<Rightarrow> EngineConfig \<Rightarrow> openPosition list \<Rightarrow> Engine \<Rightarrow> ('v, 'd) world
   \<Rightarrow> (Engine \<times> ('v, 'd) world) option" where
  "monitor_loop dp cfg [] en w = Some (en, w)"
| "monitor_loop dp cfg (p # ps) en w =
     do { (en', w') \<leftarrow> monitor_one dp cfg p en w;
          monitor_loop dp cfg ps en' w' }"

definition monitor ::
  "('v, 'd) Deps \<Rightarrow> EngineConfig \<Rightarrow> Engine \<Rightarrow> ('v, 'd) world \<Rightarrow> (Engine \<times> ('v, 'd) world) option" where
  "monitor dp cfg en w = monitor_loop dp cfg (map snd (en_open en)) en w"

end
