(* ===== verification/EngineOpen.thy ===== *)
theory EngineOpen
  imports EngineState
begin

text \<open>
  Package \<open>internal/engine\<close> (\<open>engine.go\<close>), the way into a position: \<open>openPosition\<close> with the two entry
  orders, the repair of a difference between the legs, the record of the orders and the registration.
  The two goroutines that place the entry orders trade on different venues; they are run one after the other.
\<close>

record legResult =
  le_filled :: decimal
  le_order :: "Order option" \<comment> \<open>None: the zero order\<close>
  le_ambiguous :: bool
  le_err :: "exch_error option"

definition zero_legResult :: legResult where
  "zero_legResult = \<lparr>le_filled = 0, le_order = None, le_ambiguous = False, le_err = None\<rparr>"

text \<open>\<open>exec.Place\<close> on one of the venues.\<close>

definition place_at ::
  "'v adapter \<Rightarrow> ExchangeID \<Rightarrow> PlaceOrderRequest \<Rightarrow> ('v, 'd) world
   \<Rightarrow> (exch_error + Order \<times> ResultSource) \<times> ('v, 'd) world" where
  "place_at A ex req w =
     (case Place A req (wd_venues w ex) of (r, v) \<Rightarrow> (r, w\<lparr>wd_venues := (wd_venues w)(ex := v)\<rparr>))"

definition entry_id :: "PositionID \<Rightarrow> Side \<Rightarrow> ClientOrderID" where
  "entry_id i side = Format \<lparr>cp_PositionID = i, cp_LegSide = side, cp_SliceIndex = 0, cp_Nonce = 0,
     cp_Purpose = PurposeEntry\<rparr>"

definition repair_id :: "PositionID \<Rightarrow> Side \<Rightarrow> int \<Rightarrow> ClientOrderID" where
  "repair_id i side k = Format \<lparr>cp_PositionID = i, cp_LegSide = side, cp_SliceIndex = k, cp_Nonce = 0,
     cp_Purpose = PurposeRepair\<rparr>"

text \<open>The order of an entry and of a top-up: an IOC limit order that may open exposure.\<close>

definition opening_order ::
  "ClientOrderID \<Rightarrow> ExchangeSymbol \<Rightarrow> Side \<Rightarrow> decimal \<Rightarrow> decimal \<Rightarrow> PlaceOrderRequest" where
  "opening_order coid symb side qty px = \<lparr>req_ClientOrderID = coid, req_Symbol = symb, req_Side = side,
     req_Mode = OrderMarketableLimitIOC, req_BaseQty = qty, req_Price = px, req_ReduceOnly = False,
     req_PostOnly = False, req_TimeInForce = TIFIOC\<rparr>"

text \<open>The closure \<open>place\<close> of \<open>placeEntryLegs\<close>.\<close>

definition place_entry ::
  "('v, 'd) Deps \<Rightarrow> PositionID \<Rightarrow> ExchangeID \<Rightarrow> ExchangeSymbol \<Rightarrow> Side \<Rightarrow> decimal \<Rightarrow> decimal
   \<Rightarrow> ('v, 'd) world \<Rightarrow> legResult \<times> ('v, 'd) world" where
  "place_entry dp i ex symb side qty px w =
     (case dp_Executors dp ex of
        None \<Rightarrow> (zero_legResult\<lparr>le_err := Some (ErrNoExecutor ex)\<rparr>, w)
      | Some A \<Rightarrow>
          (case place_at A ex (opening_order (entry_id i side) symb side qty px) w of
             (Inl err, w') \<Rightarrow>
               (if err = ErrOrderNotFound then (zero_legResult\<lparr>le_err := Some err\<rparr>, w')
                else if IsAmbiguousTimeout err
                then (zero_legResult\<lparr>le_ambiguous := True, le_err := Some err\<rparr>, w')
                else (zero_legResult\<lparr>le_err := Some err\<rparr>, w'))
           | (Inr (order, src), w') \<Rightarrow>
               (let filled = (if ord_FilledQty order > qty then qty else ord_FilledQty order)
                in (zero_legResult\<lparr>le_filled := filled, le_order := Some order\<rparr>, w'))))"

definition placeEntryLegs ::
  "('v, 'd) Deps \<Rightarrow> PositionID \<Rightarrow> openPosition \<Rightarrow> decimal \<Rightarrow> decimal \<Rightarrow> decimal
   \<Rightarrow> ('v, 'd) world \<Rightarrow> (legResult \<times> legResult) \<times> ('v, 'd) world" where
  "placeEntryLegs dp i p qty longPx shortPx w =
     (let (l, w1) = place_entry dp i (op_longEx p) (op_longSym p) SideLong qty longPx w;
          (s, w2) = place_entry dp i (op_shortEx p) (op_shortSym p) SideShort qty shortPx w1
      in ((l, s), w2))"

section \<open>The repair of the delta\<close>

text \<open>The single top-up of the lagging leg: what it counts as filled.\<close>

definition top_up ::
  "('v, 'd) Deps \<Rightarrow> PositionID \<Rightarrow> openPosition \<Rightarrow> bool \<Rightarrow> decimal \<Rightarrow> decimal \<Rightarrow> decimal
   \<Rightarrow> ('v, 'd) world \<Rightarrow> decimal \<times> ('v, 'd) world" where
  "top_up dp i p lagIsLong shortfall longPx shortPx w =
     (let (ex, symb, side, px) = (if lagIsLong then (op_longEx p, op_longSym p, SideLong, longPx)
                                  else (op_shortEx p, op_shortSym p, SideShort, shortPx))
      in case dp_Executors dp ex of
           None \<Rightarrow> (0, w)
         | Some A \<Rightarrow>
             (case place_at A ex (opening_order (repair_id i side 1) symb side shortfall px) w of
                (Inr (order, src), w') \<Rightarrow>
                  ((if ord_FilledQty order > shortfall then shortfall else ord_FilledQty order), w')
              | (Inl err, w') \<Rightarrow> (0, w')))"

text \<open>The reduce-only order on the heavier leg: whether it was placed without an error.\<close>

definition reduce_excess ::
  "('v, 'd) Deps \<Rightarrow> PositionID \<Rightarrow> openPosition \<Rightarrow> bool \<Rightarrow> decimal \<Rightarrow> ('v, 'd) world \<Rightarrow> bool \<times> ('v, 'd) world" where
  "reduce_excess dp i p heavyIsLong excess w =
     (let (ex, symb, side) = (if heavyIsLong then (op_longEx p, op_longSym p, SideLong)
                              else (op_shortEx p, op_shortSym p, SideShort))
      in case dp_Executors dp ex of
           None \<Rightarrow> (False, w)
         | Some A \<Rightarrow>
             (case PlaceReduceOrder A \<lparr>re_Symbol = symb, re_ExcessQty = excess, re_Side = ReduceExcessAction side\<rparr>
                     (repair_id i side 2) (wd_venues w ex) of
                (e, v) \<Rightarrow> (e = None, w\<lparr>wd_venues := (wd_venues w)(ex := v)\<rparr>)))"

definition repairImbalance ::
  "('v, 'd) Deps \<Rightarrow> EngineConfig \<Rightarrow> PositionID \<Rightarrow> openPosition \<Rightarrow> RepairDecision
   \<Rightarrow> decimal \<Rightarrow> decimal \<Rightarrow> decimal \<Rightarrow> decimal \<Rightarrow> ('v, 'd) world \<Rightarrow> (decimal \<times> decimal) \<times> ('v, 'd) world" where
  "repairImbalance dp cfg i p decision longFilled shortFilled longPx shortPx w =
     (let lagIsLong = longFilled < shortFilled;
          (t, w1) = top_up dp i p lagIsLong (rd_ShortfallQty decision) longPx shortPx w;
          long = (if lagIsLong then longFilled + t else longFilled);
          short = (if lagIsLong then shortFilled else shortFilled + t);
          after = ApplyTopUp decision \<lparr>tu_Success = t > 0, tu_FilledQty = t, tu_NewLongQty = long,
                    tu_NewShortQty = short\<rparr> (ec_DeltaToleranceBase cfg)
      in if rd_Action after = RepairReduceExcess \<and> rd_ExcessQty after > 0
         then (case reduce_excess dp i p (long > short) (rd_ExcessQty after) w1 of
                 (ok, w2) \<Rightarrow>
                   (if ok then (let common = Dec_Min long short in ((common, common), w2))
                    else ((long, short), w2)))
         else ((long, short), w1))"

section \<open>The record of the entry orders\<close>

definition record_order ::
  "('v, 'd) Deps \<Rightarrow> PositionID \<Rightarrow> legResult \<Rightarrow> ExchangeID \<Rightarrow> 'd \<Rightarrow> 'd" where
  "record_order dp i res ex d =
     (case (dp_Orders dp, le_order res) of
        (Some upsert, Some order) \<Rightarrow>
          (if ord_ClientOrderID order = [] then d else snd (upsert order ex i [] d))
      | _ \<Rightarrow> d)"

definition recordEntryOrders ::
  "('v, 'd) Deps \<Rightarrow> PositionID \<Rightarrow> openPosition \<Rightarrow> legResult \<Rightarrow> legResult \<Rightarrow> 'd \<Rightarrow> 'd" where
  "recordEntryOrders dp i p l s d = record_order dp i s (op_shortEx p) (record_order dp i l (op_longEx p) d)"

section \<open>Opening a position\<close>

text \<open>The position is registered, with its legs in the database.\<close>

definition register_with ::
  "('v, 'd) Deps \<Rightarrow> PositionID \<Rightarrow> openPosition \<Rightarrow> string \<Rightarrow> notice \<Rightarrow> Engine \<Rightarrow> ('v, 'd) world
   \<Rightarrow> Engine \<times> ('v, 'd) world" where
  "register_with dp i p severity n en w =
     (registerOpen i p en, notify dp severity n (w\<lparr>wd_ext := persistLegs dp p (wd_ext w)\<rparr>))"

text \<open>The last part, for legs that are even enough: HEDGED, MONITORING, registered.\<close>

definition finish_open ::
  "('v, 'd) Deps \<Rightarrow> PositionID \<Rightarrow> openPosition \<Rightarrow> decimal \<Rightarrow> decimal \<Rightarrow> Engine \<Rightarrow> ('v, 'd) world
   \<Rightarrow> Engine \<times> ('v, 'd) world" where
  "finish_open dp i p longFilled shortFilled en w =
     (let (ok1, q1, d1) = transition_now dp (op_pos p) StateHedged
            (''hedged long='' @ sp_String (dp_Dec dp) longFilled @ '' short='' @ sp_String (dp_Dec dp) shortFilled)
            (wd_ext w)
      in if \<not> ok1 then (en, w\<lparr>wd_ext := d1\<rparr>)
         else (let (ok2, q2, d2) = transition_now dp q1 StateMonitoring ''entering monitoring'' d1
               in if \<not> ok2 then (en, w\<lparr>wd_ext := d2\<rparr>)
                  else register_with dp i (p\<lparr>op_pos := q2\<rparr>) ''INFO''
                         (NoteOpened i (op_asset p) (op_longEx p) (op_shortEx p) longFilled) en
                         (w\<lparr>wd_ext := d2\<rparr>)))"

text \<open>From the fills of the entry on: quantities, repair, then MONITORING or DEGRADED.\<close>

definition hedge_open ::
  "('v, 'd) Deps \<Rightarrow> EngineConfig \<Rightarrow> PositionID \<Rightarrow> openPosition \<Rightarrow> decimal \<Rightarrow> decimal \<Rightarrow> decimal \<Rightarrow> decimal
   \<Rightarrow> Engine \<Rightarrow> ('v, 'd) world \<Rightarrow> Engine \<times> ('v, 'd) world" where
  "hedge_open dp cfg i p longFilled shortFilled longPx shortPx en w =
     (let (q1, d1) = set_quantities_now dp (op_pos p) longFilled shortFilled (wd_ext w);
          decision = AnalyzeMismatch longFilled shortFilled (ec_DeltaToleranceBase cfg)
      in if rd_Action decision = RepairNone
         then finish_open dp i (p\<lparr>op_pos := q1\<rparr>) longFilled shortFilled en (w\<lparr>wd_ext := d1\<rparr>)
         else (let (ok, q2, d2) = transition_now dp q1 StatePartiallyHedged (rd_Reason decision) d1
               in if \<not> ok then (en, w\<lparr>wd_ext := d2\<rparr>)
                  else (let ((long, short), w3) = repairImbalance dp cfg i p decision longFilled shortFilled
                               longPx shortPx (w\<lparr>wd_ext := d2\<rparr>);
                            (q3, d3) = set_quantities_now dp q2 long short (wd_ext w3)
                        in if \<bar>long - short\<bar> > ec_DeltaToleranceBase cfg \<or> (long = 0 \<and> short = 0)
                           then (let (_, q4, d4) = transition_now dp q3 StateDegraded ''delta mismatch not repaired'' d3
                                 in register_with dp i (p\<lparr>op_pos := q4\<rparr>) ''CRITICAL'' (NoteDeltaOpen i long short)
                                      en (w3\<lparr>wd_ext := d4\<rparr>))
                           else finish_open dp i (p\<lparr>op_pos := q3\<rparr>) long short en (w3\<lparr>wd_ext := d3\<rparr>))))"

text \<open>From OPENING on: the prices, the entry orders and their evaluation.\<close>

definition enter_open ::
  "('v, 'd) Deps \<Rightarrow> EngineConfig \<Rightarrow> PositionID \<Rightarrow> openPosition \<Rightarrow> decimal \<Rightarrow> Engine \<Rightarrow> ('v, 'd) world
   \<Rightarrow> Engine \<times> ('v, 'd) world" where
  "enter_open dp cfg i p qty en w =
     (case (Cache_Get (dp_Cache dp (wd_ext w) 0) (op_longEx p) (op_asset p),
            Cache_Get (dp_Cache dp (wd_ext w) 0) (op_shortEx p) (op_asset p)) of
        (Some longSnap, Some shortSnap) \<Rightarrow>
          (let protection = Dec_MulInt (op_tickSize p) (ec_ProtectionTicks cfg);
               longPx = snap_BestAsk longSnap + protection;
               shortPx = snap_BestBid shortSnap - protection;
               ((l, s), w1) = placeEntryLegs dp i p qty longPx shortPx w
           in if le_ambiguous l \<or> le_ambiguous s
              then (let (_, q1, d1) = transition_now dp (op_pos p) StateDegraded
                           ''entry leg state unknown (ack+query timeout)'' (wd_ext w1)
                    in register_with dp i (p\<lparr>op_pos := q1\<rparr>) ''CRITICAL'' (NoteAmbiguousEntry i) en
                         (w1\<lparr>wd_ext := d1\<rparr>))
              else (let w2 = w1\<lparr>wd_ext := recordEntryOrders dp i p l s (wd_ext w1)\<rparr>
                    in if le_filled l = 0 \<and> le_filled s = 0
                       then (let (_, _, d3) = transition_now dp (op_pos p) StateFailed ''no fills on entry'' (wd_ext w2)
                             in (en, w2\<lparr>wd_ext := d3\<rparr>))
                       else hedge_open dp cfg i p (le_filled l) (le_filled s) longPx shortPx en w2))
      | _ \<Rightarrow>
          (let (_, _, d1) = transition_now dp (op_pos p) StateFailed ''market data missing at entry'' (wd_ext w)
           in (en, w\<lparr>wd_ext := d1\<rparr>)))"

text \<open>The preflight: leverage 2 on both venues, whose errors are only logged.\<close>

definition set_leverage ::
  "('v, 'd) Deps \<Rightarrow> ExchangeID \<times> ExchangeSymbol \<Rightarrow> ('v, 'd) world \<Rightarrow> ('v, 'd) world" where
  "set_leverage dp leg w =
     (case dp_Adapters dp (fst leg) of
        None \<Rightarrow> w
      | Some A \<Rightarrow>
          (case ad_SetLeverage A \<lparr>lev_Symbol = snd leg, lev_Leverage = Dec_FromInt 2\<rparr> (wd_venues w (fst leg)) of
             (_, v) \<Rightarrow> w\<lparr>wd_venues := (wd_venues w)(fst leg := v)\<rparr>))"

definition unix_milli :: "time \<Rightarrow> int" where
  "unix_milli t = t div Millisecond"

definition position_id :: "time \<Rightarrow> int \<Rightarrow> AssetSymbol \<Rightarrow> PositionID" where
  "position_id now n asset = ''P'' @ format_int (unix_milli now) @ ''-'' @ format_int n @ ''-'' @ to_upper asset"

text \<open>The transitions before the first order: QUALIFIED, PREPARING, the preflight, OPENING.\<close>

definition prepare_open ::
  "('v, 'd) Deps \<Rightarrow> openPosition \<Rightarrow> ('v, 'd) world \<Rightarrow> bool \<times> openPosition \<times> ('v, 'd) world" where
  "prepare_open dp p w =
     (let (ok1, q1, d1) = transition_now dp (op_pos p) StateQualified ''passed filters+eligibility'' (wd_ext w)
      in if \<not> ok1 then (False, p\<lparr>op_pos := q1\<rparr>, w\<lparr>wd_ext := d1\<rparr>)
         else (let (ok2, q2, d2) = transition_now dp q1 StatePreparing ''preflight'' d1
               in if \<not> ok2 then (False, p\<lparr>op_pos := q2\<rparr>, w\<lparr>wd_ext := d2\<rparr>)
                  else (let w1 = set_leverage dp (op_shortEx p, op_shortSym p)
                                   (set_leverage dp (op_longEx p, op_longSym p) (w\<lparr>wd_ext := d2\<rparr>));
                            (ok3, q3, d3) = transition_now dp q2 StateOpening ''placing entry orders'' (wd_ext w1)
                        in (ok3, p\<lparr>op_pos := q3\<rparr>, w1\<lparr>wd_ext := d3\<rparr>))))"

text \<open>The result is None when the quantity step of both venues is zero: \<open>Quantize\<close> divides by it.\<close>

definition openPosition_run ::
  "('v, 'd) Deps \<Rightarrow> EngineConfig \<Rightarrow> Candidate \<Rightarrow> Engine \<Rightarrow> ('v, 'd) world
   \<Rightarrow> (Engine \<times> ('v, 'd) world) option" where
  "openPosition_run dp cfg cand en w =
     (let (now, d0) = dp_Clock dp (wd_ext w);
          n = i64 (en_seq en + 1);
          en1 = en\<lparr>en_seq := n\<rparr>;
          i = position_id now n (cd_Asset cand);
          q0 = NewPosition i (cd_Asset cand) (cd_LongExchange cand) (cd_ShortExchange cand) now;
          w0 = w\<lparr>wd_ext := d0\<rparr>
      in case (Registry_Get (dp_Registry dp d0) (cd_LongExchange cand) (cd_Asset cand),
               Registry_Get (dp_Registry dp d0) (cd_ShortExchange cand) (cd_Asset cand)) of
           (Some li, Some si) \<Rightarrow>
             do { (qty, rest) \<leftarrow> Dec_Quantize (dp_Dec dp) (cfg_TargetQty (ec_Scan cfg))
                                   (Dec_Max (ins_QtyStep li) (ins_QtyStep si));
                  if \<not> qty > 0 \<or> qty < Dec_Max (ins_MinQty li) (ins_MinQty si) then Some (en1, w0)
                  else (let p = \<lparr>op_pos = q0\<lparr>pos_TargetBaseQty := qty\<rparr>, op_longSym = ins_Symbol li,
                                 op_shortSym = ins_Symbol si, op_longEx = cd_LongExchange cand,
                                 op_shortEx = cd_ShortExchange cand, op_asset = cd_Asset cand,
                                 op_tickSize = Dec_Max (ins_TickSize li) (ins_TickSize si)\<rparr>
                        in case prepare_open dp p w0 of
                             (False, _, w1) \<Rightarrow> Some (en1, w1)
                           | (True, p1, w1) \<Rightarrow> Some (enter_open dp cfg i p1 qty en1 w1)) }
         | _ \<Rightarrow> Some (en1, w0))"

text \<open>\<open>pickCandidate\<close>: the first eligible candidate of an asset without an open position.\<close>

definition pickCandidate :: "Engine \<Rightarrow> Candidate list \<Rightarrow> Candidate option" where
  "pickCandidate en cands =
     find (\<lambda>c. cd_Eligible c \<and> \<not> (\<exists>p \<in> snd ` set (en_open en). op_asset p = cd_Asset c)) cands"

definition tryOpen ::
  "('v, 'd) Deps \<Rightarrow> EngineConfig \<Rightarrow> Engine \<Rightarrow> ('v, 'd) world \<Rightarrow> (Engine \<times> ('v, 'd) world) option" where
  "tryOpen dp cfg en w =
     (if int (OpenCount en) \<ge> ec_MaxOpenPositions cfg then Some (en, w)
      else (let (now, d) = dp_Clock dp (wd_ext w);
                w1 = w\<lparr>wd_ext := d\<rparr>
            in do { cands \<leftarrow> Scan (dp_Dec dp) (dp_Scanner dp d) (ec_Scan cfg) now;
                    case pickCandidate en cands of
                      None \<Rightarrow> Some (en, w1)
                    | Some best \<Rightarrow>
                        if \<not> ec_OrdersEnabled cfg
                        then Some (notifyOnce dp ''observe-only'' ''WARN'' NoteObserveOnly en w1)
                        else openPosition_run dp cfg best en w1 }))"

end
