(* ===== verification/OpenHedge.thy ===== *)
theory OpenHedge
  imports EngineOpen
begin

text \<open>
  What opening a position leaves behind: the recorded legs against the fills of the venues.

  The locale \<open>candid_venues\<close> has the executors of the engine at candid venues, whose orders may fill, fill in part or be rejected after the
  acknowledgement, and whose queries may be refused after a placement without an answer.  With a persister that accepts, the legs a
  position is monitored with never exceed what the venues hold, and fall short of it in two cases only, which the theorem names.
  The last section runs into one of them.
\<close>

section \<open>Transitions\<close>

text \<open>A position after a successful transition, and after a refused one.\<close>

definition moved :: "Position \<Rightarrow> PState \<Rightarrow> Position \<Rightarrow> bool" where
  "moved p to p' \<longleftrightarrow> (\<exists>now t. p' = p\<lparr>pos_State := to, pos_UpdatedAt := now, pos_History := pos_History p @ [t],
     pos_persisting := False\<rparr> \<and> tr_From t = pos_State p \<and> tr_To t = to)"

definition kept :: "Position \<Rightarrow> Position \<Rightarrow> bool" where
  "kept p p' \<longleftrightarrow> (\<exists>now. p' = p\<lparr>pos_UpdatedAt := now\<rparr>)"

lemma movedI:
  "tr_From t = pos_State p \<Longrightarrow> tr_To t = to \<Longrightarrow>
     moved p to (p\<lparr>pos_State := to, pos_UpdatedAt := now, pos_History := pos_History p @ [t], pos_persisting := False\<rparr>)"
  unfolding moved_def by blast

lemma kept_refl: "kept p p"
  unfolding kept_def by (rule exI [of _ "pos_UpdatedAt p"]) simp

lemma kept_upd: "kept p (p\<lparr>pos_UpdatedAt := now\<rparr>)"
  unfolding kept_def by blast

lemma rollback_kept:
  assumes "transition_begin p to now reason actor = Inr (p1, t)"
  shows "kept p (transition_rollback (tr_From t) now' p1)"
proof -
  have "transition_rollback (tr_From t) now' p1 = p\<lparr>pos_UpdatedAt := now'\<rparr>"
    using assms by (auto simp: transition_begin_def transition_rollback_def Let_def split: if_splits)
  then show ?thesis using kept_upd by simp
qed

lemma commit_moved:
  assumes "transition_begin p to now reason actor = Inr (p1, t)"
  shows "CanTransition (pos_State p) to \<and> \<not> pos_persisting p \<and> moved p to (transition_commit p1)"
proof -
  have "transition_commit p1 = p\<lparr>pos_State := to, pos_UpdatedAt := now, pos_History := pos_History p @ [t],
      pos_persisting := False\<rparr>" "tr_From t = pos_State p" "tr_To t = to"
      "CanTransition (pos_State p) to" "\<not> pos_persisting p"
    using assms by (auto simp: transition_begin_def transition_commit_def Let_def split: if_splits)
  then show ?thesis using movedI by simp
qed

lemma transition_at_cases:
  assumes "transition_at dp p to now reason d = (okt, p', d')"
  shows "if okt then CanTransition (pos_State p) to \<and> \<not> pos_persisting p \<and> moved p to p' else kept p p'"
  using assms commit_moved rollback_kept kept_refl
  by (auto simp: transition_at_def TransitionTo_def split: prod.splits sum.splits option.splits)

lemma transition_now_cases:
  assumes "transition_now dp p to reason d = (okt, p', d')"
  shows "if okt then CanTransition (pos_State p) to \<and> \<not> pos_persisting p \<and> moved p to p' else kept p p'"
proof -
  obtain now d1 where "transition_at dp p to now reason d1 = (okt, p', d')"
    using assms by (auto simp: transition_now_def split: prod.splits)
  then show ?thesis by (rule transition_at_cases)
qed

text \<open>A persister that never fails.\<close>

definition accepting :: "('v, 'd) Deps \<Rightarrow> bool" where
  "accepting dp \<longleftrightarrow> (\<forall>p t d. fst (dp_Persister dp p t d) = None)"

lemma transition_at_ok:
  assumes "accepting dp" and "transition_at dp p to now reason d = (okt, p', d')"
  shows "okt \<longleftrightarrow> CanTransition (pos_State p) to \<and> \<not> pos_persisting p"
proof -
  have "fst (dp_Persister dp q t e) = None" for q t e using assms(1) by (simp add: accepting_def)
  then have "\<And>q t e x e'. dp_Persister dp q t e \<noteq> (Some x, e')" by (metis fst_conv option.distinct(1))
  then show ?thesis
    using assms(2) CanTransition_final
    by (auto simp: transition_at_def TransitionTo_def transition_begin_def Let_def
        split: prod.splits sum.splits option.splits if_splits)
qed

lemma set_quantities_now_cases:
  assumes "set_quantities_now dp p l s d = (p', d')" and "\<not> PState_IsTerminal (pos_State p)"
  shows "\<exists>now. p' = p\<lparr>pos_LongBaseQty := l, pos_ShortBaseQty := s, pos_UpdatedAt := now\<rparr>"
  using assms by (auto simp: set_quantities_now_def SetQuantities_def split: prod.splits if_splits)

section \<open>The identifiers of a position's orders\<close>

lemma in_i64_small: "in_i64 0" "in_i64 1" "in_i64 2"
  by (simp_all add: in_i64_def int64_min_def int64_max_def)

lemma coid_differ [simp]:
  "entry_id i sd \<noteq> repair_id j sd' 1" "entry_id i sd \<noteq> repair_id j sd' 2"
  "repair_id i sd 1 \<noteq> repair_id j sd' 2"
proof -
  show "entry_id i sd \<noteq> repair_id j sd' 1" "entry_id i sd \<noteq> repair_id j sd' 2"
    "repair_id i sd 1 \<noteq> repair_id j sd' 2"
    using in_i64_small by (auto simp: entry_id_def repair_id_def dest!: Format_inj)
qed

lemmas coid_differ_sym [simp] = coid_differ [symmetric]

section \<open>Orders at candid venues\<close>

text \<open>A query fails only for an order that does not exist.\<close>

definition answering :: "'w adapter \<Rightarrow> ('w \<Rightarrow> bool) \<Rightarrow> bool" where
  "answering A ok \<longleftrightarrow> (\<forall>w q e w'. ok w \<longrightarrow> ad_GetOrder A q w = (Inl e, w') \<longrightarrow> e = ErrOrderNotFound)"

definition queries_answer :: "('v, 'd) Deps \<Rightarrow> ('v \<Rightarrow> bool) \<Rightarrow> bool" where
  "queries_answer dp ok \<longleftrightarrow> (\<forall>ex A. dp_Executors dp ex = Some A \<longrightarrow> answering A ok)"

context candid_venue
begin

lemma Place_counted:
  assumes "Place A req w = (r, w')" and "sane w" and "0 < req_BaseQty req"
    and "book w (req_ClientOrderID req) = None"
  shows "sane w' \<and> (\<forall>j. j \<noteq> req_ClientOrderID req \<longrightarrow> book w' j = book w j)
     \<and> 0 \<le> real_fill book w' (req_ClientOrderID req) \<and> real_fill book w' (req_ClientOrderID req) \<le> req_BaseQty req
     \<and> (case r of
          Inr (o', src) \<Rightarrow> ord_FilledQty o' = real_fill book w' (req_ClientOrderID req) \<and> book w' (req_ClientOrderID req) \<noteq> None
        | Inl e \<Rightarrow> (\<not> IsAmbiguousTimeout e \<longrightarrow> real_fill book w' (req_ClientOrderID req) = 0)
            \<and> (answering A sane \<longrightarrow> \<not> IsAmbiguousTimeout e))"
proof -
  have s: "sane w'" by (rule Place_sane [OF assms(1-3)])
  have oth: "\<forall>j. j \<noteq> req_ClientOrderID req \<longrightarrow> book w' j = book w j" using Place_other_ids [OF assms(1)] by blast
  note ex = Place_exact [OF assms]
  obtain w1 r1 where p: "ad_PlaceOrder A req w = (r1, w1)" by (metis surj_pair)
  have "book w' = book w1"
    using assms(1) get_pure by (cases rule: Place_cases) (use p in auto)
  then have bounds: "0 \<le> real_fill book w' (req_ClientOrderID req)" "real_fill book w' (req_ClientOrderID req) \<le> req_BaseQty req"
    using no_overfill [OF assms(2,3) p] book_sane [OF s] assms(3,4) by (auto simp: real_fill_def split: option.splits)
  show ?thesis
  proof (cases r)
    case (Inl e)
    have "\<not> IsAmbiguousTimeout e" if "answering A sane"
      using assms(1) unfolding Inl
    proof (cases rule: Place_cases)
      case (unresolved e0 w1 e')
      have "sane w1" by (rule place_sane [OF assms(2,3) unresolved(1)])
      then have "e' = ErrOrderNotFound" using that unresolved(3) unfolding answering_def by blast
      then show ?thesis using unresolved(4) by auto
    qed auto
    then show ?thesis using s oth ex bounds Inl by auto
  next
    case (Inr x)
    obtain o' src where x: "x = (o', src)" by (cases x)
    have "book w' (req_ClientOrderID req) \<noteq> None" using Place_found [of req w o' src w'] assms(1) Inr x by auto
    then show ?thesis using s oth ex bounds Inr x by auto
  qed
qed

end

definition fills ::
  "('v \<Rightarrow> ClientOrderID \<Rightarrow> Order option) \<Rightarrow> ('v, 'd) world \<Rightarrow> ExchangeID \<Rightarrow> ClientOrderID \<Rightarrow> decimal" where
  "fills bk w ex j = real_fill bk (wd_venues w ex) j"

text \<open>What the venues filled for the entry, the top-up and the reduction of one leg, together.\<close>

definition net_fill ::
  "('v \<Rightarrow> ClientOrderID \<Rightarrow> Order option) \<Rightarrow> ('v, 'd) world \<Rightarrow> ExchangeID \<Rightarrow> PositionID \<Rightarrow> Side \<Rightarrow> decimal" where
  "net_fill bk w ex i sd = fills bk w ex (entry_id i sd) + fills bk w ex (repair_id i sd 1) - fills bk w ex (repair_id i sd 2)"

text \<open>At most the order with this identifier of this venue changed, and it was new.\<close>

definition only_order ::
  "('v \<Rightarrow> ClientOrderID \<Rightarrow> Order option) \<Rightarrow> ('v \<Rightarrow> bool) \<Rightarrow> ExchangeID \<Rightarrow> ClientOrderID
   \<Rightarrow> ('v, 'd) world \<Rightarrow> ('v, 'd) world \<Rightarrow> bool" where
  "only_order bk ok ex j w w' \<longleftrightarrow> (\<forall>ex. ok (wd_venues w' ex))
     \<and> (\<forall>ex' j'. ex' \<noteq> ex \<or> j' \<noteq> j \<longrightarrow> bk (wd_venues w' ex') j' = bk (wd_venues w ex') j')"

lemma only_order_fills:
  "only_order bk ok ex j w w' \<Longrightarrow> ex' \<noteq> ex \<or> j' \<noteq> j \<Longrightarrow> fills bk w' ex' j' = fills bk w ex' j'"
  by (auto simp: only_order_def fills_def real_fill_def)

lemma fills_new: "bk (wd_venues w ex) j = None \<Longrightarrow> fills bk w ex j = 0"
  by (simp add: fills_def real_fill_def)

lemma net_fill_venues: "wd_venues w' = wd_venues w \<Longrightarrow> net_fill bk w' ex i sd = net_fill bk w ex i sd"
  by (simp add: net_fill_def fills_def)

locale candid_venues =
  fixes dp :: "('v, 'd) Deps" and bk :: "'v \<Rightarrow> ClientOrderID \<Rightarrow> Order option" and ok :: "'v \<Rightarrow> bool"
  assumes executor: "dp_Executors dp ex = Some A \<Longrightarrow> candid_venue A bk ok"
    and leverage: "dp_Adapters dp ex = Some A \<Longrightarrow> ad_SetLeverage A q v = (e, v') \<Longrightarrow> bk v' = bk v \<and> (ok v \<longrightarrow> ok v')"
begin

lemma place_at_counted:
  assumes "place_at A ex req w = (r, w')" and "dp_Executors dp ex = Some A" and "\<forall>ex. ok (wd_venues w ex)"
    and "0 < req_BaseQty req" and "bk (wd_venues w ex) (req_ClientOrderID req) = None"
  shows "only_order bk ok ex (req_ClientOrderID req) w w'
     \<and> 0 \<le> fills bk w' ex (req_ClientOrderID req) \<and> fills bk w' ex (req_ClientOrderID req) \<le> req_BaseQty req
     \<and> (case r of
          Inr (o', src) \<Rightarrow> ord_FilledQty o' = fills bk w' ex (req_ClientOrderID req)
            \<and> bk (wd_venues w' ex) (req_ClientOrderID req) \<noteq> None
        | Inl e \<Rightarrow> (\<not> IsAmbiguousTimeout e \<longrightarrow> fills bk w' ex (req_ClientOrderID req) = 0)
            \<and> (queries_answer dp ok \<longrightarrow> \<not> IsAmbiguousTimeout e))"
proof -
  obtain v where p: "Place A req (wd_venues w ex) = (r, v)" and w': "w' = w\<lparr>wd_venues := (wd_venues w)(ex := v)\<rparr>"
    using assms(1) by (auto simp: place_at_def split: prod.splits)
  have "queries_answer dp ok \<longrightarrow> answering A ok" using assms(2) by (auto simp: queries_answer_def)
  then show ?thesis
    using candid_venue.Place_counted [OF executor [OF assms(2)] p _ assms(4,5)] assms(3)
    by (auto simp: w' only_order_def fills_def split: sum.splits)
qed

lemma place_entry_counted:
  assumes "place_entry dp i ex symb sd qty px w = (r, w')" and "\<forall>ex. ok (wd_venues w ex)" and "0 < qty"
    and "bk (wd_venues w ex) (entry_id i sd) = None"
  shows "only_order bk ok ex (entry_id i sd) w w' \<and> (queries_answer dp ok \<longrightarrow> \<not> le_ambiguous r)
     \<and> (\<not> le_ambiguous r \<longrightarrow> le_filled r = fills bk w' ex (entry_id i sd) \<and> 0 \<le> le_filled r \<and> le_filled r \<le> qty)"
proof (cases "dp_Executors dp ex")
  case None
  then show ?thesis
    using assms fills_new [of bk w ex "entry_id i sd"]
    by (auto simp: place_entry_def only_order_def zero_legResult_def)
next
  case (Some A)
  let ?req = "opening_order (entry_id i sd) symb sd qty px"
  obtain r0 w0 where p: "place_at A ex ?req w = (r0, w0)" by (metis surj_pair)
  have req: "req_ClientOrderID ?req = entry_id i sd" "req_BaseQty ?req = qty" by (simp_all add: opening_order_def)
  show ?thesis
    using place_at_counted [OF p Some assms(2)] assms Some p req
    by (auto simp: place_entry_def zero_legResult_def Let_def split: sum.splits prod.splits if_splits)
qed

text \<open>The venue, the symbol and the side of one of the two legs.\<close>

definition leg_ex :: "openPosition \<Rightarrow> bool \<Rightarrow> ExchangeID" where
  "leg_ex p long = (if long then op_longEx p else op_shortEx p)"

definition leg_side :: "bool \<Rightarrow> Side" where
  "leg_side long = (if long then SideLong else SideShort)"

lemma top_up_counted:
  assumes "top_up dp i p lag q lp sp w = (t, w')" and "\<forall>ex. ok (wd_venues w ex)" and "0 < q"
    and "bk (wd_venues w (leg_ex p lag)) (repair_id i (leg_side lag) 1) = None"
  shows "only_order bk ok (leg_ex p lag) (repair_id i (leg_side lag) 1) w w'
     \<and> (t = fills bk w' (leg_ex p lag) (repair_id i (leg_side lag) 1) \<or> t = 0 \<and> \<not> queries_answer dp ok)
     \<and> 0 \<le> t \<and> t \<le> q \<and> 0 \<le> fills bk w' (leg_ex p lag) (repair_id i (leg_side lag) 1)"
proof (cases "dp_Executors dp (leg_ex p lag)")
  case None
  then have "t = 0" "w' = w"
    using assms(1) by (auto simp: top_up_def leg_ex_def split: if_splits)
  then show ?thesis using assms(2-4) fills_new [of bk w, OF assms(4)] by (simp add: only_order_def)
next
  case (Some A)
  let ?req = "opening_order (repair_id i (leg_side lag) 1) (if lag then op_longSym p else op_shortSym p)
    (leg_side lag) q (if lag then lp else sp)"
  obtain r0 w0 where p: "place_at A (leg_ex p lag) ?req w = (r0, w0)" by (metis surj_pair)
  have req: "req_ClientOrderID ?req = repair_id i (leg_side lag) 1" "req_BaseQty ?req = q"
    by (simp_all add: opening_order_def)
  have "top_up dp i p lag q lp sp w = (case (r0, w0) of
      (Inr (order, src), w') \<Rightarrow> ((if ord_FilledQty order > q then q else ord_FilledQty order), w')
    | (Inl err, w') \<Rightarrow> (0, w'))"
    using Some p by (cases lag) (simp_all add: top_up_def leg_ex_def leg_side_def)
  then show ?thesis
    using place_at_counted [OF p Some assms(2)] assms req
    by (auto split: sum.splits prod.splits if_splits)
qed

lemma reduce_excess_counted:
  assumes "reduce_excess dp i p heavy q w = (sent, w')" and "\<forall>ex. ok (wd_venues w ex)" and "0 < q"
    and "bk (wd_venues w (leg_ex p heavy)) (repair_id i (leg_side heavy) 2) = None"
  shows "only_order bk ok (leg_ex p heavy) (repair_id i (leg_side heavy) 2) w w'
     \<and> 0 \<le> fills bk w' (leg_ex p heavy) (repair_id i (leg_side heavy) 2)
     \<and> fills bk w' (leg_ex p heavy) (repair_id i (leg_side heavy) 2) \<le> q
     \<and> (if sent then bk (wd_venues w' (leg_ex p heavy)) (repair_id i (leg_side heavy) 2) \<noteq> None
        else fills bk w' (leg_ex p heavy) (repair_id i (leg_side heavy) 2) = 0 \<or> \<not> queries_answer dp ok)"
proof (cases "dp_Executors dp (leg_ex p heavy)")
  case None
  then have "sent = False" "w' = w"
    using assms(1) by (auto simp: reduce_excess_def leg_ex_def split: if_splits)
  then show ?thesis using assms(2-4) fills_new [of bk w, OF assms(4)] by (simp add: only_order_def)
next
  case (Some A)
  let ?rr = "\<lparr>re_Symbol = (if heavy then op_longSym p else op_shortSym p), re_ExcessQty = q,
     re_Side = ReduceExcessAction (leg_side heavy)\<rparr>"
  let ?req = "reduce_order ?rr (repair_id i (leg_side heavy) 2)"
  obtain r0 w0 where p: "place_at A (leg_ex p heavy) ?req w = (r0, w0)" by (metis surj_pair)
  have req: "req_ClientOrderID ?req = repair_id i (leg_side heavy) 2" "req_BaseQty ?req = q"
    by (simp_all add: reduce_order_def)
  have "reduce_excess dp i p heavy q w = (case (r0, w0) of (Inl e, w') \<Rightarrow> (False, w') | (Inr _, w') \<Rightarrow> (True, w'))"
    using Some p assms(3)
    by (cases heavy) (auto simp: reduce_excess_def PlaceReduceOrder_def place_at_def leg_ex_def leg_side_def
        split: prod.splits sum.splits)
  then show ?thesis
    using place_at_counted [OF p Some assms(2)] assms req
    by (auto split: sum.splits prod.splits)
qed

text \<open>
  The two orders of a repair: a top-up of the lagging leg, then perhaps a reduction of the other one by \<open>x\<close>, which is not sent, or
  acknowledged and counted as filled, or not acknowledged and not counted.
\<close>

lemma repairImbalance_steps:
  assumes "repairImbalance dp cfg i p (AnalyzeMismatch l s tol) l s lp sp w = ((l', s'), w')"
    and "\<forall>ex. ok (wd_venues w ex)" and "tol = ec_DeltaToleranceBase cfg" and "0 \<le> tol" and "tol < \<bar>l - s\<bar>"
    and "\<forall>b. bk (wd_venues w (leg_ex p b)) (repair_id i (leg_side b) 1) = None
             \<and> bk (wd_venues w (leg_ex p b)) (repair_id i (leg_side b) 2) = None"
  obtains t x w1 where
    "only_order bk ok (leg_ex p (l < s)) (repair_id i (leg_side (l < s)) 1) w w1"
    "t = fills bk w1 (leg_ex p (l < s)) (repair_id i (leg_side (l < s)) 1) \<or> t = 0 \<and> \<not> queries_answer dp ok"
    "0 \<le> t" "t \<le> \<bar>l - s\<bar>" "0 \<le> fills bk w1 (leg_ex p (l < s)) (repair_id i (leg_side (l < s)) 1)"
    "only_order bk ok (leg_ex p (\<not> l < s)) (repair_id i (leg_side (\<not> l < s)) 2) w1 w'"
    "l' = (if l < s then l + t else l - x)" "s' = (if l < s then s - x else s + t)"
    "x = 0 \<and> bk (wd_venues w' (leg_ex p (\<not> l < s))) (repair_id i (leg_side (\<not> l < s)) 2) = None
     \<or> fills bk w' (leg_ex p (\<not> l < s)) (repair_id i (leg_side (\<not> l < s)) 2) \<le> x \<and> l' = s'
       \<and> bk (wd_venues w' (leg_ex p (\<not> l < s))) (repair_id i (leg_side (\<not> l < s)) 2) \<noteq> None
     \<or> x = 0 \<and> tol < \<bar>l' - s'\<bar>
       \<and> (fills bk w' (leg_ex p (\<not> l < s)) (repair_id i (leg_side (\<not> l < s)) 2) = 0 \<or> \<not> queries_answer dp ok)"
proof -
  let ?d = "AnalyzeMismatch l s tol" and ?b = "l < s"
  have q: "rd_ShortfallQty ?d = \<bar>l - s\<bar>"
    using assms(5) by (auto simp: AnalyzeMismatch_def Let_def abs_if split: if_splits)
  obtain t w1 where t: "top_up dp i p ?b \<bar>l - s\<bar> lp sp w = (t, w1)" by (metis surj_pair)
  have "0 < \<bar>l - s\<bar>" using assms(4,5) by simp
  note tt = top_up_counted [OF t assms(2) this conjunct1 [OF spec [OF assms(6), of ?b]]]
  define long where "long = (if ?b then l + t else l)"
  define short where "short = (if ?b then s else s + t)"
  define after where "after = ApplyTopUp ?d \<lparr>tu_Success = t > 0, tu_FilledQty = t, tu_NewLongQty = long,
                    tu_NewShortQty = short\<rparr> tol"
  have w1: "\<forall>ex. ok (wd_venues w1 ex)"
    "bk (wd_venues w1 (leg_ex p (\<not> ?b))) (repair_id i (leg_side (\<not> ?b)) 2) = None"
    using tt spec [OF assms(6), of "\<not> ?b"] by (auto simp: only_order_def)
  have "repairImbalance dp cfg i p ?d l s lp sp w =
      (if rd_Action after = RepairReduceExcess \<and> rd_ExcessQty after > 0
       then (case reduce_excess dp i p (long > short) (rd_ExcessQty after) w1 of
               (sent, w2) \<Rightarrow> (if sent then ((Dec_Min long short, Dec_Min long short), w2) else ((long, short), w2)))
       else ((long, short), w1))"
    by (simp only: repairImbalance_def Let_def q t prod.case after_def long_def short_def assms(3) [symmetric])
  note run = this [unfolded assms(1)]
  show thesis
  proof (cases "rd_Action after = RepairReduceExcess \<and> rd_ExcessQty after > 0")
    case False
    then have "w' = w1" "l' = long" "s' = short" using run by auto
    then show thesis
      using tt w1 by (intro that [of w1 t 0]) (auto simp: only_order_def long_def short_def)
  next
    case True
    have ab: "rd_ExcessQty after = \<bar>long - short\<bar>" "(long > short) = (\<not> ?b)" "\<bar>long - short\<bar> = \<bar>l - s\<bar> - t"
        "tol < \<bar>long - short\<bar>"
      using True tt assms(4,5)
      by (auto simp: after_def ApplyTopUp_def long_def short_def q Let_def abs_if split: if_splits)
    obtain sent w2 where r: "reduce_excess dp i p (\<not> ?b) (rd_ExcessQty after) w1 = (sent, w2)" by (metis surj_pair)
    note rr = reduce_excess_counted [OF r w1(1) _ w1(2)]
    have res: "w' = w2" "l' = (if sent then Dec_Min long short else long)" "s' = (if sent then Dec_Min long short else short)"
      using run True ab(2) r by (auto split: if_splits)
    show thesis
    proof (cases sent)
      case sent: True
      show thesis
        by (rule that [of w1 t "\<bar>long - short\<bar>"])
          (use tt rr True ab res sent in \<open>auto simp: long_def short_def Dec_Min_def abs_if split: if_splits\<close>)
    next
      case unsent: False
      show thesis
        by (rule that [of w1 t 0]) (use tt rr True ab res unsent in \<open>auto simp: long_def short_def split: if_splits\<close>)
    qed
  qed
qed

end

text \<open>
  A recorded leg against the real one: it is not above it, and equal to it when the outcome of the top-up is known (\<open>sure\<close>) and no reduce-only
  order was recorded as filled.
\<close>

definition reduced ::
  "('v \<Rightarrow> ClientOrderID \<Rightarrow> Order option) \<Rightarrow> ('v, 'd) world \<Rightarrow> ExchangeID \<Rightarrow> PositionID \<Rightarrow> Side \<Rightarrow> bool" where
  "reduced bk w ex i sd \<longleftrightarrow> bk (wd_venues w ex) (repair_id i sd 2) \<noteq> None"

definition leg_accounted :: "bool \<Rightarrow> bool \<Rightarrow> decimal \<Rightarrow> decimal \<Rightarrow> bool" where
  "leg_accounted sure red recorded actual \<longleftrightarrow> 0 \<le> recorded \<and> recorded \<le> actual \<and> (sure \<and> \<not> red \<longrightarrow> recorded = actual)"

definition legs_accounted ::
  "('v, 'd) Deps \<Rightarrow> ('v \<Rightarrow> ClientOrderID \<Rightarrow> Order option) \<Rightarrow> ('v \<Rightarrow> bool) \<Rightarrow> PositionID \<Rightarrow> ExchangeID \<Rightarrow> ExchangeID
   \<Rightarrow> ('v, 'd) world \<Rightarrow> bool \<Rightarrow> decimal \<Rightarrow> decimal \<Rightarrow> bool" where
  "legs_accounted dp bk ok i longEx shortEx w monitored l s \<longleftrightarrow>
     (monitored \<or> queries_answer dp ok \<longrightarrow>
        leg_accounted (queries_answer dp ok \<or> \<not> reduced bk w shortEx i SideShort) (reduced bk w longEx i SideLong)
          l (net_fill bk w longEx i SideLong)
      \<and> leg_accounted (queries_answer dp ok \<or> \<not> reduced bk w longEx i SideLong) (reduced bk w shortEx i SideShort)
          s (net_fill bk w shortEx i SideShort))
     \<and> (monitored \<and> (reduced bk w longEx i SideLong \<or> reduced bk w shortEx i SideShort) \<longrightarrow> l = s)"

lemma legs_accounted_venues:
  "wd_venues w' = wd_venues w \<Longrightarrow> legs_accounted dp bk ok i le se w' = legs_accounted dp bk ok i le se w"
  by (simp add: legs_accounted_def reduced_def net_fill_def fills_def fun_eq_iff)

context candid_venues
begin

lemma disjE3: "P \<or> Q \<or> R \<Longrightarrow> (P \<Longrightarrow> C) \<Longrightarrow> (Q \<Longrightarrow> C) \<Longrightarrow> (R \<Longrightarrow> C) \<Longrightarrow> C"
  by blast

lemma repairImbalance_counted:
  assumes "repairImbalance dp cfg i p (AnalyzeMismatch l s tol) l s lp sp w = ((l', s'), w')"
    and "\<forall>ex. ok (wd_venues w ex)" and "tol = ec_DeltaToleranceBase cfg" and "0 \<le> tol" and "tol < \<bar>l - s\<bar>"
    and "\<forall>b. bk (wd_venues w (leg_ex p b)) (repair_id i (leg_side b) 1) = None
             \<and> bk (wd_venues w (leg_ex p b)) (repair_id i (leg_side b) 2) = None"
    and "op_longEx p \<noteq> op_shortEx p" and "0 \<le> l" and "0 \<le> s"
    and "l = fills bk w (op_longEx p) (entry_id i SideLong)" and "s = fills bk w (op_shortEx p) (entry_id i SideShort)"
    and "m \<longrightarrow> \<bar>l' - s'\<bar> \<le> tol"
  shows "legs_accounted dp bk ok i (op_longEx p) (op_shortEx p) w' m l' s'"
  using assms(1-6)
proof (rule repairImbalance_steps)
  fix t x :: decimal and w1 :: "('v, 'd) world"
  let ?Q = "queries_answer dp ok"
  let ?T = "fills bk w1 (leg_ex p (l < s)) (repair_id i (leg_side (l < s)) 1)"
  let ?R = "fills bk w' (leg_ex p (\<not> l < s)) (repair_id i (leg_side (\<not> l < s)) 2)"
  let ?red = "bk (wd_venues w' (leg_ex p (\<not> l < s))) (repair_id i (leg_side (\<not> l < s)) 2) \<noteq> None"
  assume o1: "only_order bk ok (leg_ex p (l < s)) (repair_id i (leg_side (l < s)) 1) w w1"
    and t: "t = ?T \<or> t = 0 \<and> \<not> ?Q" "0 \<le> t" "t \<le> \<bar>l - s\<bar>" "0 \<le> ?T"
    and o2: "only_order bk ok (leg_ex p (\<not> l < s)) (repair_id i (leg_side (\<not> l < s)) 2) w1 w'"
    and res: "l' = (if l < s then l + t else l - x)" "s' = (if l < s then s - x else s + t)"
    and x: "x = 0 \<and> bk (wd_venues w' (leg_ex p (\<not> l < s))) (repair_id i (leg_side (\<not> l < s)) 2) = None
       \<or> ?R \<le> x \<and> l' = s' \<and> ?red \<or> x = 0 \<and> tol < \<bar>l' - s'\<bar> \<and> (?R = 0 \<or> \<not> ?Q)"
  note keep = only_order_fills [OF o1] only_order_fills [OF o2]
  have new: "fills bk w (leg_ex p b) (repair_id i (leg_side b) 1) = 0"
    "fills bk w (leg_ex p b) (repair_id i (leg_side b) 2) = 0" for b
    using assms(6) by (simp_all add: fills_def real_fill_def)
  have R0: "\<not> ?red \<longrightarrow> ?R = 0" by (auto simp: fills_def real_fill_def)
  have unred: "\<not> reduced bk w' (leg_ex p (l < s)) i (leg_side (l < s))"
    using o1 o2 assms(6,7) by (auto simp: only_order_def reduced_def leg_ex_def leg_side_def split: if_splits)
  have red: "reduced bk w' (leg_ex p (\<not> l < s)) i (leg_side (\<not> l < s)) = ?red" by (simp add: reduced_def)
  have lag: "net_fill bk w' (leg_ex p (l < s)) i (leg_side (l < s)) = min l s + ?T"
    and heavy: "net_fill bk w' (leg_ex p (\<not> l < s)) i (leg_side (\<not> l < s)) = max l s - ?R"
    using keep new [of True] new [of False] assms(7,10,11)
    by (auto simp: net_fill_def leg_ex_def leg_side_def min_def max_def)
  have "(m \<or> ?Q \<longrightarrow>
        leg_accounted (?Q \<or> \<not> ?red) False (min l s + t) (min l s + ?T)
      \<and> leg_accounted True ?red (max l s - x) (max l s - ?R)) \<and> (m \<and> ?red \<longrightarrow> l' = s')"
  proof (cases "m \<or> ?Q")
    case True
    from x show ?thesis
    proof (rule disjE3)
      assume "x = 0 \<and> bk (wd_venues w' (leg_ex p (\<not> l < s))) (repair_id i (leg_side (\<not> l < s)) 2) = None"
      then have unsent: "x = 0" "\<not> ?red" by auto
      have "t = ?T"
      proof (rule ccontr)
        assume "t \<noteq> ?T"
        then have "t = 0" "m" using t(1) True by auto
        then show False using assms(5,12) res unsent(1) by (auto split: if_splits)
      qed
      then show ?thesis using unsent R0 t(2) assms(8,9) by (auto simp: leg_accounted_def)
    next
      assume "?R \<le> x \<and> l' = s' \<and> ?red"
      then have sent: "?R \<le> x" "l' = s'" "?red" by auto
      have "max l s - x = min l s + t" using sent(2) res by (auto simp: min_def max_def split: if_splits)
      then show ?thesis using sent t assms(8,9) by (auto simp: leg_accounted_def)
    next
      assume "x = 0 \<and> tol < \<bar>l' - s'\<bar> \<and> (?R = 0 \<or> \<not> ?Q)"
      then have failed: "x = 0" "tol < \<bar>l' - s'\<bar>" "?R = 0 \<or> \<not> ?Q" by auto
      then have "\<not> m" using assms(12) by auto
      then have "?Q" "t = ?T" "?R = 0" using True t(1) failed(3) by auto
      then show ?thesis using \<open>\<not> m\<close> failed(1) t(2) assms(8,9) by (auto simp: leg_accounted_def)
    qed
  qed (use x in auto)
  note acc = this
  show ?thesis
  proof (cases "l < s")
    case True
    then have mm: "min l s = l" "max l s = s" by auto
    show ?thesis using acc lag heavy unred red res True unfolding mm legs_accounted_def by (auto simp: leg_ex_def leg_side_def)
  next
    case False
    then have mm: "min l s = s" "max l s = l" by auto
    show ?thesis using acc lag heavy unred red res False unfolding mm legs_accounted_def by (auto simp: leg_ex_def leg_side_def)
  qed
qed

end

section \<open>The end of an opening\<close>

text \<open>The position's path through the table is complete and nothing is being persisted.\<close>

definition at_rest :: "PState \<Rightarrow> Position \<Rightarrow> bool" where
  "at_rest s0 q \<longleftrightarrow> path CanTransition s0 (trail q) (pos_State q) \<and> \<not> pos_persisting q"

lemma moved_simps:
  assumes "moved p to p'"
  shows "pos_State p' = to" "\<not> pos_persisting p'" "pos_ID p' = pos_ID p" "pos_Asset p' = pos_Asset p"
    "pos_LongExchange p' = pos_LongExchange p" "pos_ShortExchange p' = pos_ShortExchange p"
    "pos_LongBaseQty p' = pos_LongBaseQty p" "pos_ShortBaseQty p' = pos_ShortBaseQty p"
    "trail p' = trail p @ [(pos_State p, to)]"
  using assms by (auto simp: moved_def trail_def)

lemma kept_simps:
  assumes "kept p p'"
  shows "pos_State p' = pos_State p" "pos_persisting p' = pos_persisting p" "pos_ID p' = pos_ID p"
    "pos_Asset p' = pos_Asset p" "pos_LongExchange p' = pos_LongExchange p" "pos_ShortExchange p' = pos_ShortExchange p"
    "pos_LongBaseQty p' = pos_LongBaseQty p" "pos_ShortBaseQty p' = pos_ShortBaseQty p" "trail p' = trail p"
  using assms by (auto simp: kept_def trail_def)

text \<open>A transition whatever its outcome: what stays, and the state it leads to.\<close>

lemma transition_at_at_rest:
  assumes "transition_at dp p to now reason d = (okt, p', d')" and "at_rest s0 p"
  shows "at_rest s0 p' \<and> pos_ID p' = pos_ID p \<and> pos_LongBaseQty p' = pos_LongBaseQty p
     \<and> pos_ShortBaseQty p' = pos_ShortBaseQty p \<and> pos_State p' = (if okt then to else pos_State p)
     \<and> trail p' = trail p @ (if okt then [(pos_State p, to)] else [])
     \<and> (okt \<longrightarrow> CanTransition (pos_State p) to) \<and> (accepting dp \<and> CanTransition (pos_State p) to \<longrightarrow> okt)"
proof -
  note c = transition_at_cases [OF assms(1)]
  have "accepting dp \<and> CanTransition (pos_State p) to \<longrightarrow> okt"
    using transition_at_ok [OF _ assms(1)] assms(2) by (auto simp: at_rest_def)
  then show ?thesis
    using c assms(2) moved_simps [of p to p'] kept_simps [of p p']
    by (auto simp: at_rest_def split: if_splits)
qed

lemma transition_now_at_rest:
  assumes "transition_now dp p to reason d = (okt, p', d')" and "at_rest s0 p"
  shows "at_rest s0 p' \<and> pos_ID p' = pos_ID p \<and> pos_LongBaseQty p' = pos_LongBaseQty p
     \<and> pos_ShortBaseQty p' = pos_ShortBaseQty p \<and> pos_State p' = (if okt then to else pos_State p)
     \<and> trail p' = trail p @ (if okt then [(pos_State p, to)] else [])
     \<and> (okt \<longrightarrow> CanTransition (pos_State p) to) \<and> (accepting dp \<and> CanTransition (pos_State p) to \<longrightarrow> okt)"
proof -
  obtain now d1 where t: "transition_at dp p to now reason d1 = (okt, p', d')"
    using assms(1) by (auto simp: transition_now_def split: prod.splits)
  show ?thesis using transition_at_at_rest [OF t assms(2)] .
qed

lemma set_quantities_at_rest:
  assumes "set_quantities_now dp p l s d = (p', d')" and "at_rest s0 p" and "\<not> PState_IsTerminal (pos_State p)"
  shows "at_rest s0 p' \<and> pos_ID p' = pos_ID p \<and> pos_State p' = pos_State p
     \<and> pos_LongBaseQty p' = l \<and> pos_ShortBaseQty p' = s"
  using set_quantities_now_cases [OF assms(1,3)] assms(2) by (auto simp: at_rest_def trail_def)

text \<open>
  The engine after an opening: as before, which an accepting persister excludes once something is filled, or
  with the position registered, its recorded legs \<open>l\<close> and \<open>s\<close>.
\<close>

definition registered ::
  "EngineConfig \<Rightarrow> PositionID \<Rightarrow> openPosition \<Rightarrow> decimal \<Rightarrow> decimal \<Rightarrow> PState set \<Rightarrow> Engine \<Rightarrow> Engine \<Rightarrow> bool" where
  "registered cfg i p l s States en en' \<longleftrightarrow> (\<exists>q. en' = registerOpen i (p\<lparr>op_pos := q\<rparr>) en
     \<and> at_rest StateDiscovered q \<and> pos_ID q = pos_ID (op_pos p) \<and> pos_LongBaseQty q = l \<and> pos_ShortBaseQty q = s
     \<and> pos_State q \<in> States
     \<and> (pos_State q = StateMonitoring \<longrightarrow> \<bar>l - s\<bar> \<le> ec_DeltaToleranceBase cfg))"

lemma register_with_venues [simp]:
  "wd_venues (snd (register_with dp i p sev n en w)) = wd_venues w"
  "fst (register_with dp i p sev n en w) = registerOpen i p en"
  by (simp_all add: register_with_def notify_def)

lemma finish_open_result:
  assumes "finish_open dp i p l s en w = (en', w')" and "at_rest StateDiscovered (op_pos p)"
    and "pos_State (op_pos p) \<in> {StateOpening, StatePartiallyHedged}"
    and "pos_LongBaseQty (op_pos p) = l" and "pos_ShortBaseQty (op_pos p) = s"
    and "\<bar>l - s\<bar> \<le> ec_DeltaToleranceBase cfg"
  shows "wd_venues w' = wd_venues w
     \<and> (\<not> accepting dp \<and> en' = en \<or> registered cfg i p l s {StateMonitoring} en en')"
proof -
  let ?reason = "''hedged long='' @ sp_String (dp_Dec dp) l @ '' short='' @ sp_String (dp_Dec dp) s"
  obtain o1 q1 d1 where t1: "transition_now dp (op_pos p) StateHedged ?reason (wd_ext w) = (o1, q1, d1)"
    by (metis prod_cases3)
  obtain o2 q2 d2 where t2: "transition_now dp q1 StateMonitoring ''entering monitoring'' d1 = (o2, q2, d2)"
    by (metis prod_cases3)
  note r1 = transition_now_at_rest [OF t1 assms(2)]
  note r2 = transition_now_at_rest [OF t2 conjunct1 [OF r1]]
  show ?thesis
  proof (cases "o1 \<and> o2")
    case True
    then have "en' = registerOpen i (p\<lparr>op_pos := q2\<rparr>) en" "wd_venues w' = wd_venues w"
      using assms(1) t1 t2 by (auto simp: finish_open_def register_with_def notify_def)
    moreover have "registered cfg i p l s {StateMonitoring} en (registerOpen i (p\<lparr>op_pos := q2\<rparr>) en)"
      unfolding registered_def using True r1 r2 assms(4-6) by (intro exI [of _ q2]) auto
    ultimately show ?thesis by simp
  next
    case False
    then have "en' = en" "wd_venues w' = wd_venues w"
      using assms(1) t1 t2 by (auto simp: finish_open_def split: if_splits)
    moreover have "\<not> accepting dp" using False r1 r2 assms(3) by auto
    ultimately show ?thesis by simp
  qed
qed

lemma registered_mono: "registered cfg i p l s S en en' \<Longrightarrow> S \<subseteq> T \<Longrightarrow> registered cfg i p l s T en en'"
  unfolding registered_def by blast

lemma registered_pos:
  "registered cfg i (p\<lparr>op_pos := q\<rparr>) l s S en en' \<Longrightarrow> pos_ID q = pos_ID (op_pos p) \<Longrightarrow> registered cfg i p l s S en en'"
  unfolding registered_def by simp

lemma hedge_open_result:
  assumes "hedge_open dp cfg i p l s lp sp en w = (en', w')" and "at_rest StateDiscovered (op_pos p)"
    and "pos_State (op_pos p) = StateOpening" and "tol = ec_DeltaToleranceBase cfg"
  obtains
    (lost) "\<not> accepting dp" "en' = en"
  | (even) "\<bar>l - s\<bar> \<le> tol" "wd_venues w' = wd_venues w" "registered cfg i p l s {StateMonitoring} en en'"
  | (repaired) w1 w2 long short where "tol < \<bar>l - s\<bar>" "wd_venues w1 = wd_venues w" "wd_venues w' = wd_venues w2"
      "repairImbalance dp cfg i p (AnalyzeMismatch l s tol) l s lp sp w1 = ((long, short), w2)"
      "registered cfg i p long short
         (if accepting dp then {StateMonitoring, StateDegraded}
          else {StateMonitoring, StateDegraded, StatePartiallyHedged}) en en'"
proof -
  obtain q1 d1 where s1: "set_quantities_now dp (op_pos p) l s (wd_ext w) = (q1, d1)" by (metis surj_pair)
  note r1 = set_quantities_at_rest [OF s1 assms(2)]
  have q1: "at_rest StateDiscovered q1" "pos_ID q1 = pos_ID (op_pos p)" "pos_State q1 = StateOpening"
      "pos_LongBaseQty q1 = l" "pos_ShortBaseQty q1 = s"
    using r1 assms(3) by (simp_all add: PState_IsTerminal_def)
  let ?d = "AnalyzeMismatch l s tol"
  show thesis
  proof (cases "\<bar>l - s\<bar> \<le> tol")
    case True
    then have "rd_Action ?d = RepairNone" by (simp add: AnalyzeMismatch_def)
    then have "finish_open dp i (p\<lparr>op_pos := q1\<rparr>) l s en (w\<lparr>wd_ext := d1\<rparr>) = (en', w')"
      using assms(1,4) s1 by (simp add: hedge_open_def)
    from finish_open_result [OF this, where cfg = cfg] have
      "wd_venues w' = wd_venues w \<and> (\<not> accepting dp \<and> en' = en \<or> registered cfg i (p\<lparr>op_pos := q1\<rparr>) l s {StateMonitoring} en en')"
      using q1 True assms(4) by simp
    then show thesis using lost even [OF True] registered_pos [OF _ q1(2)] by blast
  next
    case False
    then have act: "rd_Action ?d \<noteq> RepairNone" by (simp add: AnalyzeMismatch_def Let_def)
    obtain o2 q2 d2 where t2: "transition_now dp q1 StatePartiallyHedged (rd_Reason ?d) d1 = (o2, q2, d2)"
      by (metis prod_cases3)
    note r2 = transition_now_at_rest [OF t2 q1(1)]
    show thesis
    proof (cases o2)
      case False
      then show thesis using lost assms(1,4) s1 t2 act r2 q1 by (auto simp: hedge_open_def)
    next
      case True
      obtain long short w2 where rep: "repairImbalance dp cfg i p ?d l s lp sp (w\<lparr>wd_ext := d2\<rparr>) = ((long, short), w2)"
        by (metis surj_pair)
      obtain q3 d3 where s3: "set_quantities_now dp q2 long short (wd_ext w2) = (q3, d3)" by (metis surj_pair)
      have q3: "at_rest StateDiscovered q3" "pos_ID q3 = pos_ID (op_pos p)" "pos_State q3 = StatePartiallyHedged"
          "pos_LongBaseQty q3 = long" "pos_ShortBaseQty q3 = short"
        using set_quantities_at_rest [OF s3] r2 q1 True by (auto simp: PState_IsTerminal_def)
      have step: "(en', w') =
          (if \<bar>long - short\<bar> > tol \<or> (long = 0 \<and> short = 0)
           then (let (_, q4, d4) = transition_now dp q3 StateDegraded ''delta mismatch not repaired'' d3
                 in register_with dp i (p\<lparr>op_pos := q4\<rparr>) ''CRITICAL'' (NoteDeltaOpen i long short)
                      en (w2\<lparr>wd_ext := d4\<rparr>))
           else finish_open dp i (p\<lparr>op_pos := q3\<rparr>) long short en (w2\<lparr>wd_ext := d3\<rparr>))"
        using assms(1,4) s1 t2 act rep s3 True by (simp add: hedge_open_def)
      show thesis
      proof (cases "\<bar>long - short\<bar> > tol \<or> (long = 0 \<and> short = 0)")
        case True
        obtain o4 q4 d4 where t4: "transition_now dp q3 StateDegraded ''delta mismatch not repaired'' d3 = (o4, q4, d4)"
          by (metis prod_cases3)
        note r4 = transition_now_at_rest [OF t4 q3(1)]
        have en': "(en', w') = register_with dp i (p\<lparr>op_pos := q4\<rparr>) ''CRITICAL'' (NoteDeltaOpen i long short) en (w2\<lparr>wd_ext := d4\<rparr>)"
          using step True t4 by simp
        have "en' = registerOpen i (p\<lparr>op_pos := q4\<rparr>) en" "wd_venues w' = wd_venues w2"
          using en' by (simp_all add: register_with_def notify_def)
        moreover have "registered cfg i p long short
            (if accepting dp then {StateMonitoring, StateDegraded}
             else {StateMonitoring, StateDegraded, StatePartiallyHedged}) en (registerOpen i (p\<lparr>op_pos := q4\<rparr>) en)"
          unfolding registered_def using r4 q3 by (intro exI [of _ q4]) auto
        ultimately show thesis using repaired [OF _ _ _ rep] False by simp
      next
        case small: False
        then have "finish_open dp i (p\<lparr>op_pos := q3\<rparr>) long short en (w2\<lparr>wd_ext := d3\<rparr>) = (en', w')"
          using step unfolding if_not_P [OF small] by simp
        from finish_open_result [OF this, where cfg = cfg] have
          f: "wd_venues w' = wd_venues w2 \<and> (\<not> accepting dp \<and> en' = en
             \<or> registered cfg i (p\<lparr>op_pos := q3\<rparr>) long short {StateMonitoring} en en')"
          using q3 small assms(4) by simp
        then show thesis
          using lost repaired [OF _ _ _ rep] False registered_pos [OF _ q3(2)] registered_mono by (auto 4 4)
      qed
    qed
  qed
qed

section \<open>Opening at candid venues\<close>

text \<open>No order of the position is at its venues yet.\<close>

definition fresh_position ::
  "('v \<Rightarrow> ClientOrderID \<Rightarrow> Order option) \<Rightarrow> ('v, 'd) world \<Rightarrow> ExchangeID \<Rightarrow> ExchangeID \<Rightarrow> PositionID \<Rightarrow> bool" where
  "fresh_position bk w longEx shortEx i \<longleftrightarrow>
     (\<forall>(ex, sd) \<in> {(longEx, SideLong), (shortEx, SideShort)}.
        \<forall>j \<in> {entry_id i sd, repair_id i sd 1, repair_id i sd 2}. bk (wd_venues w ex) j = None)"

lemma fresh_position_net:
  "fresh_position bk w le se i \<Longrightarrow> net_fill bk w le i SideLong = 0 \<and> net_fill bk w se i SideShort = 0"
  by (simp add: fresh_position_def net_fill_def fills_def real_fill_def)

text \<open>What an opening may leave behind: nothing, or the position with its legs.\<close>

definition opened_counted ::
  "('v, 'd) Deps \<Rightarrow> EngineConfig \<Rightarrow> ('v \<Rightarrow> ClientOrderID \<Rightarrow> Order option) \<Rightarrow> ('v \<Rightarrow> bool) \<Rightarrow> PositionID \<Rightarrow> openPosition
   \<Rightarrow> Engine \<Rightarrow> Engine \<Rightarrow> ('v, 'd) world \<Rightarrow> bool" where
  "opened_counted dp cfg bk ok i p en en' w' \<longleftrightarrow>
     en' = en \<and> net_fill bk w' (op_longEx p) i SideLong = 0 \<and> net_fill bk w' (op_shortEx p) i SideShort = 0
     \<or> (\<exists>l s st. registered cfg i p l s {st} en en' \<and> st \<in> {StateMonitoring, StateDegraded}
          \<and> legs_accounted dp bk ok i (op_longEx p) (op_shortEx p) w' (st = StateMonitoring) l s)"

lemma registered_state:
  "registered cfg i p l s States en en' \<Longrightarrow>
     \<exists>st \<in> States. registered cfg i p l s {st} en en' \<and> (st = StateMonitoring \<longrightarrow> \<bar>l - s\<bar> \<le> ec_DeltaToleranceBase cfg)"
  unfolding registered_def by blast

context candid_venues
begin

lemma enter_open_counted:
  assumes "enter_open dp cfg i p qty en w = (en', w')" and "accepting dp" and "at_rest StateDiscovered (op_pos p)"
    and "pos_State (op_pos p) = StateOpening" and "\<forall>ex. ok (wd_venues w ex)" and "0 < qty"
    and "op_longEx p \<noteq> op_shortEx p" and "0 \<le> ec_DeltaToleranceBase cfg"
    and "fresh_position bk w (op_longEx p) (op_shortEx p) i"
  shows "opened_counted dp cfg bk ok i p en en' w'"
proof -
  have quiet: "opened_counted dp cfg bk ok i p en en' w'" if "en' = en" "wd_venues w' = wd_venues w"
    using that fresh_position_net [OF assms(9)] net_fill_venues [OF that(2), of bk]
    by (simp add: opened_counted_def)
  show ?thesis
  proof (cases "Cache_Get (dp_Cache dp (wd_ext w) 0) (op_longEx p) (op_asset p) = None
      \<or> Cache_Get (dp_Cache dp (wd_ext w) 0) (op_shortEx p) (op_asset p) = None")
    case True
    then have "en' = en" "wd_venues w' = wd_venues w"
      using assms(1) by (auto simp: enter_open_def split: option.splits prod.splits)
    then show ?thesis by (rule quiet)
  next
    case False
    then obtain ls ss where snaps: "Cache_Get (dp_Cache dp (wd_ext w) 0) (op_longEx p) (op_asset p) = Some ls"
        "Cache_Get (dp_Cache dp (wd_ext w) 0) (op_shortEx p) (op_asset p) = Some ss" by auto
    define lp where "lp = snap_BestAsk ls + Dec_MulInt (op_tickSize p) (ec_ProtectionTicks cfg)"
    define sp where "sp = snap_BestBid ss - Dec_MulInt (op_tickSize p) (ec_ProtectionTicks cfg)"
    obtain l w1 where l: "place_entry dp i (op_longEx p) (op_longSym p) SideLong qty lp w = (l, w1)" by (metis surj_pair)
    obtain s w2 where s: "place_entry dp i (op_shortEx p) (op_shortSym p) SideShort qty sp w1 = (s, w2)" by (metis surj_pair)
    have "bk (wd_venues w (op_longEx p)) (entry_id i SideLong) = None" using assms(9) by (simp add: fresh_position_def)
    note L = place_entry_counted [OF l assms(5,6) this]
    have "\<forall>ex. ok (wd_venues w1 ex)" "bk (wd_venues w1 (op_shortEx p)) (entry_id i SideShort) = None"
      using L assms(7,9) by (auto simp: only_order_def fresh_position_def)
    note S = place_entry_counted [OF s this(1) assms(6) this(2)]
    have ent: "\<not> le_ambiguous l \<longrightarrow> le_filled l = fills bk w2 (op_longEx p) (entry_id i SideLong)"
        "\<not> le_ambiguous s \<longrightarrow> le_filled s = fills bk w2 (op_shortEx p) (entry_id i SideShort)"
      using L S only_order_fills [of bk ok "op_shortEx p" "entry_id i SideShort" w1 w2] assms(7) by auto
    have rep: "\<forall>b. bk (wd_venues w2 (leg_ex p b)) (repair_id i (leg_side b) 1) = None
        \<and> bk (wd_venues w2 (leg_ex p b)) (repair_id i (leg_side b) 2) = None"
      using L S assms(7,9) by (auto simp: only_order_def fresh_position_def leg_ex_def leg_side_def)
    define w3 where "w3 = w2\<lparr>wd_ext := recordEntryOrders dp i p l s (wd_ext w2)\<rparr>"
    have v3: "wd_venues w3 = wd_venues w2" by (simp add: w3_def)
    show ?thesis
    proof (cases "le_ambiguous l \<or> le_ambiguous s")
      case True
      then have nq: "\<not> queries_answer dp ok" using L S by auto
      obtain o1 q1 d1 where t1: "transition_now dp (op_pos p) StateDegraded ''entry leg state unknown (ack+query timeout)'' (wd_ext w2)
          = (o1, q1, d1)" by (metis prod_cases3)
      note r1 = transition_now_at_rest [OF t1 assms(3)]
      have "enter_open dp cfg i p qty en w
          = register_with dp i (p\<lparr>op_pos := q1\<rparr>) ''CRITICAL'' (NoteAmbiguousEntry i) en (w2\<lparr>wd_ext := d1\<rparr>)"
        by (simp only: enter_open_def snaps prod.case option.case placeEntryLegs_def Let_def lp_def [symmetric]
            sp_def [symmetric] l s if_P [OF True] t1)
      note run = this [unfolded assms(1)]
      from run have "en' = registerOpen i (p\<lparr>op_pos := q1\<rparr>) en" by (simp add: register_with_def)
      moreover have o1 using r1 assms(2,4) by simp
      ultimately have "registered cfg i p (pos_LongBaseQty (op_pos p)) (pos_ShortBaseQty (op_pos p)) {StateDegraded} en en'"
        unfolding registered_def using r1 by (intro exI [of _ q1]) auto
      moreover have "legs_accounted dp bk ok i (op_longEx p) (op_shortEx p) w' (StateDegraded = StateMonitoring) l0 s0" for l0 s0
        using nq by (simp add: legs_accounted_def)
      ultimately show ?thesis unfolding opened_counted_def by blast
    next
      case False
      then have na: "\<not> le_ambiguous l" "\<not> le_ambiguous s" by auto
      have net: "net_fill bk w4 (op_longEx p) i SideLong = le_filled l"
          "net_fill bk w4 (op_shortEx p) i SideShort = le_filled s"
          "\<not> reduced bk w4 (op_longEx p) i SideLong" "\<not> reduced bk w4 (op_shortEx p) i SideShort"
          if "wd_venues w4 = wd_venues w2" for w4
        using rep [rule_format, of True] rep [rule_format, of False] ent na net_fill_venues [OF that, of bk] that
        by (auto simp: net_fill_def fills_def real_fill_def leg_ex_def leg_side_def reduced_def)
      have "enter_open dp cfg i p qty en w =
          (if le_filled l = 0 \<and> le_filled s = 0
           then (let (_, _, d3) = transition_now dp (op_pos p) StateFailed ''no fills on entry'' (wd_ext w3)
                 in (en, w3\<lparr>wd_ext := d3\<rparr>))
           else hedge_open dp cfg i p (le_filled l) (le_filled s) lp sp en w3)"
        by (simp only: enter_open_def snaps prod.case option.case placeEntryLegs_def Let_def lp_def [symmetric]
            sp_def [symmetric] l s na w3_def simp_thms if_False)
      note step = this [unfolded assms(1)]
      have nonneg: "0 \<le> le_filled l" "0 \<le> le_filled s" using L S na by auto
      show ?thesis
      proof (cases "le_filled l = 0 \<and> le_filled s = 0")
        case True
        then have "en' = en" "wd_venues w' = wd_venues w2"
          using step v3 by (auto split: prod.splits)
        then show ?thesis using net [of w'] True by (simp add: opened_counted_def)
      next
        case False
        then have h: "hedge_open dp cfg i p (le_filled l) (le_filled s) lp sp en w3 = (en', w')"
          using step unfolding if_not_P [OF False] by simp
        from h assms(3,4) refl show ?thesis
        proof (cases rule: hedge_open_result)
          case lost
          then show ?thesis using assms(2) by simp
        next
          case even
          have "wd_venues w' = wd_venues w2" using even(2) v3 by simp
          from net [OF this] have "legs_accounted dp bk ok i (op_longEx p) (op_shortEx p) w' (StateMonitoring = StateMonitoring) (le_filled l) (le_filled s)"
            using nonneg by (simp add: legs_accounted_def leg_accounted_def)
          then show ?thesis using even(3) unfolding opened_counted_def by blast
        next
          case (repaired w4 w5 long short)
          have "\<forall>ex. ok (wd_venues w4 ex)" using S repaired(2) v3 by (simp add: only_order_def)
          moreover have "fills bk w4 = fills bk w2" using repaired(2) v3 by (simp add: fills_def fun_eq_iff)
          ultimately have acc: "m \<longrightarrow> \<bar>long - short\<bar> \<le> ec_DeltaToleranceBase cfg \<Longrightarrow>
              legs_accounted dp bk ok i (op_longEx p) (op_shortEx p) w5 m long short" for m
            using repairImbalance_counted [OF repaired(4) _ refl assms(8) repaired(1)] rep repaired(2) v3 assms(7) nonneg ent na
            by simp
          obtain st where "st \<in> {StateMonitoring, StateDegraded}" "registered cfg i p long short {st} en en'"
              "st = StateMonitoring \<longrightarrow> \<bar>long - short\<bar> \<le> ec_DeltaToleranceBase cfg"
            using registered_state [OF repaired(5)] assms(2) by auto
          moreover note acc [OF this(3)]
          ultimately show ?thesis
            unfolding opened_counted_def legs_accounted_venues [OF repaired(3), of dp bk ok i] by blast
        qed
      qed
    qed
  qed
qed

lemma set_leverage_books:
  "bk (wd_venues (set_leverage dp leg w) ex) = bk (wd_venues w ex) \<and>
   (ok (wd_venues w ex) \<longrightarrow> ok (wd_venues (set_leverage dp leg w) ex))"
  using leverage by (auto simp: set_leverage_def split: option.splits prod.splits)

end

lemma at_rest_new: "at_rest StateDiscovered (NewPosition i a l s now)" "at_rest StateDiscovered ((NewPosition i a l s now)\<lparr>pos_TargetBaseQty := q\<rparr>)"
  by (simp_all add: at_rest_def NewPosition_def trail_def)

lemma prepare_open_result:
  assumes "prepare_open dp p w = (okp, p', w')" and "at_rest StateDiscovered (op_pos p)"
  shows "(\<exists>q. p' = p\<lparr>op_pos := q\<rparr> \<and> at_rest StateDiscovered q \<and> pos_ID q = pos_ID (op_pos p)
       \<and> (okp \<longrightarrow> pos_State q = StateOpening))
     \<and> (\<exists>w1. wd_venues w1 = wd_venues w \<and> (wd_venues w' = wd_venues w \<or>
            wd_venues w' = wd_venues (set_leverage dp (op_shortEx p, op_shortSym p)
               (set_leverage dp (op_longEx p, op_longSym p) w1))))"
proof -
  obtain o1 q1 d1 where t1: "transition_now dp (op_pos p) StateQualified ''passed filters+eligibility'' (wd_ext w) = (o1, q1, d1)"
    by (metis prod_cases3)
  obtain o2 q2 d2 where t2: "transition_now dp q1 StatePreparing ''preflight'' d1 = (o2, q2, d2)" by (metis prod_cases3)
  define w1 where "w1 = set_leverage dp (op_shortEx p, op_shortSym p)
     (set_leverage dp (op_longEx p, op_longSym p) (w\<lparr>wd_ext := d2\<rparr>))"
  obtain o3 q3 d3 where t3: "transition_now dp q2 StateOpening ''placing entry orders'' (wd_ext w1) = (o3, q3, d3)"
    by (metis prod_cases3)
  note r1 = transition_now_at_rest [OF t1 assms(2)]
  note r2 = transition_now_at_rest [OF t2 conjunct1 [OF r1]]
  note r3 = transition_now_at_rest [OF t3 conjunct1 [OF r2]]
  have run: "(okp, p', w') = (if \<not> o1 then (False, p\<lparr>op_pos := q1\<rparr>, w\<lparr>wd_ext := d1\<rparr>)
      else if \<not> o2 then (False, p\<lparr>op_pos := q2\<rparr>, w\<lparr>wd_ext := d2\<rparr>)
      else (o3, p\<lparr>op_pos := q3\<rparr>, w1\<lparr>wd_ext := d3\<rparr>))"
    using assms(1) t1 t2 t3 by (cases o1; cases o2) (simp_all add: prepare_open_def w1_def Let_def)
  have "\<exists>q. p' = p\<lparr>op_pos := q\<rparr> \<and> at_rest StateDiscovered q \<and> pos_ID q = pos_ID (op_pos p)
       \<and> (okp \<longrightarrow> pos_State q = StateOpening)"
    using run r1 r2 r3 by (cases o1; cases o2) auto
  moreover have "wd_venues w' = wd_venues w \<or> wd_venues w' = wd_venues w1"
    using run by (auto split: if_splits)
  ultimately show ?thesis
    unfolding w1_def by (intro conjI exI [of _ "w\<lparr>wd_ext := d2\<rparr>"]) auto
qed

text \<open>How an opening goes: not at all, refused before the first order, or on to the entry.\<close>

lemma openPosition_run_cases:
  assumes "openPosition_run dp cfg cand en w = Some (en', w')" and "dp_Clock dp (wd_ext w) = (now, d0)"
  obtains
    (skipped) "en' = en\<lparr>en_seq := i64 (en_seq en + 1)\<rparr>" "wd_venues w' = wd_venues w"
  | (refused) p p1 where "en' = en\<lparr>en_seq := i64 (en_seq en + 1)\<rparr>" "at_rest StateDiscovered (op_pos p)"
      "prepare_open dp p (w\<lparr>wd_ext := d0\<rparr>) = (False, p1, w')"
  | (entered) p p1 w1 qty rest step where "Dec_Quantize (dp_Dec dp) (cfg_TargetQty (ec_Scan cfg)) step = Some (qty, rest)"
      "0 < qty" "op_longEx p = cd_LongExchange cand" "op_shortEx p = cd_ShortExchange cand"
      "op_asset p = cd_Asset cand" "at_rest StateDiscovered (op_pos p)"
      "pos_ID (op_pos p) = position_id now (i64 (en_seq en + 1)) (cd_Asset cand)"
      "prepare_open dp p (w\<lparr>wd_ext := d0\<rparr>) = (True, p1, w1)"
      "enter_open dp cfg (position_id now (i64 (en_seq en + 1)) (cd_Asset cand)) p1 qty
         (en\<lparr>en_seq := i64 (en_seq en + 1)\<rparr>) w1 = (en', w')"
proof -
  define en1 where "en1 = en\<lparr>en_seq := i64 (en_seq en + 1)\<rparr>"
  define i where "i = position_id now (i64 (en_seq en + 1)) (cd_Asset cand)"
  let ?li = "Registry_Get (dp_Registry dp d0) (cd_LongExchange cand) (cd_Asset cand)"
    and ?si = "Registry_Get (dp_Registry dp d0) (cd_ShortExchange cand) (cd_Asset cand)"
  show thesis
  proof (cases "?li = None \<or> ?si = None")
    case True
    then show thesis
      using assms skipped by (auto simp: openPosition_run_def Let_def split: option.splits)
  next
    case False
    then obtain li si where ins: "?li = Some li" "?si = Some si" by auto
    define p where "p qty = \<lparr>op_pos = (NewPosition i (cd_Asset cand) (cd_LongExchange cand) (cd_ShortExchange cand) now)
         \<lparr>pos_TargetBaseQty := qty\<rparr>, op_longSym = ins_Symbol li, op_shortSym = ins_Symbol si,
         op_longEx = cd_LongExchange cand, op_shortEx = cd_ShortExchange cand, op_asset = cd_Asset cand,
         op_tickSize = Dec_Max (ins_TickSize li) (ins_TickSize si)\<rparr>" for qty
    obtain qty rest where q: "Dec_Quantize (dp_Dec dp) (cfg_TargetQty (ec_Scan cfg))
        (Dec_Max (ins_QtyStep li) (ins_QtyStep si)) = Some (qty, rest)"
      using assms ins by (auto simp: openPosition_run_def Let_def split: option.splits simp: bind_eq_Some_conv)
    obtain okp p1 w1 where pr: "prepare_open dp (p qty) (w\<lparr>wd_ext := d0\<rparr>) = (okp, p1, w1)" by (metis prod_cases3)
    have run: "Some (en', w') = (if \<not> qty > 0 \<or> qty < Dec_Max (ins_MinQty li) (ins_MinQty si) then Some (en1, w\<lparr>wd_ext := d0\<rparr>)
        else case prepare_open dp (p qty) (w\<lparr>wd_ext := d0\<rparr>) of
               (False, _, w1) \<Rightarrow> Some (en1, w1) | (True, p1, w1) \<Rightarrow> Some (enter_open dp cfg i p1 qty en1 w1))"
      using assms(1) unfolding openPosition_run_def Let_def assms(2) prod.case ins option.case q bind.simps
        en1_def [symmetric] i_def [symmetric] p_def by simp
    show thesis
    proof (cases "\<not> qty > 0 \<or> qty < Dec_Max (ins_MinQty li) (ins_MinQty si)")
      case True
      then show thesis using run skipped by (auto simp: en1_def split: if_splits)
    next
      case small: False
      note run = run [unfolded if_not_P [OF small] pr]
      have rest_p: "at_rest StateDiscovered (op_pos (p qty))" "pos_ID (op_pos (p qty)) = i" "op_longEx (p qty) = cd_LongExchange cand"
          "op_shortEx (p qty) = cd_ShortExchange cand" "op_asset (p qty) = cd_Asset cand"
        by (simp_all add: p_def at_rest_new) (simp add: NewPosition_def)
      show thesis
      proof (cases okp)
        case True
        then show thesis using run entered [OF q _ rest_p(3-5,1)] rest_p(2) pr small by (simp add: en1_def i_def)
      next
        case False
        then show thesis using run refused [OF _ rest_p(1)] pr by (simp add: en1_def)
      qed
    qed
  qed
qed

context candid_venues
begin

lemma prepare_books:
  assumes "prepare_open dp p w = (okp, p', w')" and "at_rest StateDiscovered (op_pos p)"
  shows "bk (wd_venues w' ex) = bk (wd_venues w ex) \<and> (ok (wd_venues w ex) \<longrightarrow> ok (wd_venues w' ex))"
proof -
  obtain w1 where w1: "wd_venues w1 = wd_venues w" "wd_venues w' = wd_venues w \<or>
      wd_venues w' = wd_venues (set_leverage dp (op_shortEx p, op_shortSym p)
         (set_leverage dp (op_longEx p, op_longSym p) w1))"
    using prepare_open_result [OF assms] by blast
  show ?thesis
    using w1(2) set_leverage_books [of "(op_longEx p, op_longSym p)" w1 ex]
      set_leverage_books [of "(op_shortEx p, op_shortSym p)" "set_leverage dp (op_longEx p, op_longSym p) w1" ex]
    by (auto simp: w1(1))
qed

end

section \<open>The theorem, and a run\<close>

text \<open>
  C19: at candid venues and with a persister that accepts, an opening whose identifiers are new to the venues
  ends in one of these ways, and touches no other position.  The position is not registered, and the venues filled nothing for it.  It is
  MONITORING with recorded legs that differ by no more than the tolerance; no recorded leg is above what the venue filled for
  its entry and top-up less its reduction; when no reduce-only order is in the venues' books, both are exactly that.  When there is one,
  the two recorded legs are equal; the leg it reduces may be larger at the venue, where that order may have filled in part or not at all, and
  the other leg is exact if the venues answer queries (otherwise it may be larger by a top-up whose outcome stayed unknown).  Or it is DEGRADED, with
  exact legs if the venues answer queries and no reduce-only order is in their books.
\<close>

theorem open_position_hedged:
  assumes "candid_venues dp bk ok" and "accepting dp"
    and "openPosition_run dp cfg cand en w = Some (en', w')" and "\<forall>ex. ok (wd_venues w ex)"
    and "cd_LongExchange cand \<noteq> cd_ShortExchange cand" and "0 \<le> ec_DeltaToleranceBase cfg"
    and "i = position_id (fst (dp_Clock dp (wd_ext w))) (i64 (en_seq en + 1)) (cd_Asset cand)"
    and "fresh_position bk w (cd_LongExchange cand) (cd_ShortExchange cand) i" and "map_of (en_open en) i = None"
    and "l = net_fill bk w' (cd_LongExchange cand) i SideLong"
    and "s = net_fill bk w' (cd_ShortExchange cand) i SideShort"
    and "lred = reduced bk w' (cd_LongExchange cand) i SideLong"
    and "sred = reduced bk w' (cd_ShortExchange cand) i SideShort"
  shows "(\<forall>j. j \<noteq> i \<longrightarrow> map_of (en_open en') j = map_of (en_open en) j)
     \<and> (case map_of (en_open en') i of
          None \<Rightarrow> l = 0 \<and> s = 0
        | Some p \<Rightarrow>
            pos_State (op_pos p) = StateMonitoring
            \<and> \<bar>pos_LongBaseQty (op_pos p) - pos_ShortBaseQty (op_pos p)\<bar> \<le> ec_DeltaToleranceBase cfg
            \<and> leg_accounted (queries_answer dp ok \<or> \<not> sred) lred (pos_LongBaseQty (op_pos p)) l
            \<and> leg_accounted (queries_answer dp ok \<or> \<not> lred) sred (pos_ShortBaseQty (op_pos p)) s
            \<and> (lred \<or> sred \<longrightarrow> pos_LongBaseQty (op_pos p) = pos_ShortBaseQty (op_pos p))
          \<or> pos_State (op_pos p) = StateDegraded
            \<and> (queries_answer dp ok \<longrightarrow> leg_accounted True lred (pos_LongBaseQty (op_pos p)) l
                 \<and> leg_accounted True sred (pos_ShortBaseQty (op_pos p)) s))"
proof -
  obtain now d0 where clk: "dp_Clock dp (wd_ext w) = (now, d0)" by (metis surj_pair)
  define en1 where "en1 = en\<lparr>en_seq := i64 (en_seq en + 1)\<rparr>"
  have i: "i = position_id now (i64 (en_seq en + 1)) (cd_Asset cand)" using assms(7) clk by simp
  have silent: ?thesis if "en' = en1" "\<forall>ex. bk (wd_venues w' ex) = bk (wd_venues w ex)"
  proof -
    have "fresh_position bk w' (cd_LongExchange cand) (cd_ShortExchange cand) i"
      using assms(8) that(2) by (simp add: fresh_position_def)
    from fresh_position_net [OF this] show ?thesis using assms(9-11) that(1) by (simp add: en1_def)
  qed
  from assms(3) clk show ?thesis
  proof (cases rule: openPosition_run_cases)
    case skipped
    then show ?thesis using silent by (simp add: en1_def)
  next
    case (refused p p1)
    then show ?thesis
      using silent candid_venues.prepare_books [OF assms(1) refused(3,2)] by (simp add: en1_def)
  next
    case (entered p p1 w1 qty rest step)
    note bo = candid_venues.prepare_books [OF assms(1) entered(8,6)]
    obtain q where q: "p1 = p\<lparr>op_pos := q\<rparr>" "at_rest StateDiscovered q" "pos_State q = StateOpening"
      using prepare_open_result [OF entered(8,6)] by auto
    have o: "opened_counted dp cfg bk ok i p1 en1 en' w'"
      using candid_venues.enter_open_counted [OF assms(1) entered(9) assms(2)] q bo assms(4-6,8) entered(2-4)
      by (simp add: en1_def i fresh_position_def)
    have ex: "op_longEx p1 = cd_LongExchange cand" "op_shortEx p1 = cd_ShortExchange cand" using q(1) entered(3,4) by simp_all
    from o [unfolded opened_counted_def] show ?thesis
    proof
      assume "en' = en1 \<and> net_fill bk w' (op_longEx p1) i SideLong = 0 \<and> net_fill bk w' (op_shortEx p1) i SideShort = 0"
      then show ?thesis using assms(9-11) ex by (simp add: en1_def)
    next
      assume "\<exists>l s st. registered cfg i p1 l s {st} en1 en' \<and> st \<in> {StateMonitoring, StateDegraded}
          \<and> legs_accounted dp bk ok i (op_longEx p1) (op_shortEx p1) w' (st = StateMonitoring) l s"
      then obtain l0 s0 st q' where st: "st = StateMonitoring \<or> st = StateDegraded"
          and acc: "legs_accounted dp bk ok i (op_longEx p1) (op_shortEx p1) w' (st = StateMonitoring) l0 s0"
          and r: "en' = registerOpen i (p1\<lparr>op_pos := q'\<rparr>) en1" "pos_LongBaseQty q' = l0" "pos_ShortBaseQty q' = s0" "pos_State q' = st"
            "st = StateMonitoring \<longrightarrow> \<bar>l0 - s0\<bar> \<le> ec_DeltaToleranceBase cfg"
        unfolding registered_def by blast
      have here: "map_of (en_open en') i = Some (p1\<lparr>op_pos := q'\<rparr>)"
        and others: "\<forall>j. j \<noteq> i \<longrightarrow> map_of (en_open en') j = map_of (en_open en) j"
        by (simp_all add: r(1) registerOpen_def update_conv' en1_def)
      show ?thesis
        using st acc r(2-5) others unfolding here legs_accounted_def ex assms(10-13) [symmetric]
        by (auto simp: leg_accounted_def)
    qed
  qed
qed

section \<open>An example\<close>

text \<open>
  Two venues and one asset; the state outside is the time, which every reading of the clock advances.  The venue
  of the short leg fills half of what it is asked for.
\<close>

definition example_deps :: "Mock adapter \<Rightarrow> (Mock, time) Deps" where
  "example_deps A = \<lparr>dp_Dec = sp_ref, dp_Adapters = (\<lambda>_. Some A), dp_Executors = (\<lambda>_. Some A),
     dp_Registry = (\<lambda>_. scn_registry example_scanner), dp_Cache = (\<lambda>_ _. scn_cache example_scanner),
     dp_Scanner = (\<lambda>_. example_scanner), dp_Positions = None, dp_Persister = (\<lambda>_ _ d. (None, d)),
     dp_Orders = None, dp_Legs = None, dp_Halter = (\<lambda>_. (False, [])), dp_Notifier = True,
     dp_Clock = (\<lambda>t. (t, t + Millisecond))\<rparr>"

definition example_engine_config :: EngineConfig where
  "example_engine_config = \<lparr>ec_Scan = example_config, ec_MaxOpenPositions = 2, ec_OrdersEnabled = True,
     ec_ProtectionTicks = 2, ec_MaxRequotes = 3, ec_DeltaToleranceBase = 1 / 1000,
     ec_ExitIfFundingSignChanges = True, ec_Interval = 5 * Second\<rparr>"

definition example_venue :: "ExchangeID \<Rightarrow> Mock" where
  "example_venue ex = SetServerTime 0 (if ex = ExchangeOKX
     then SetFillRule ''BTCUSDT'' \<lparr>fr_FillFraction = 1 / 2, fr_Reject = False\<rparr> (Mock_New ex) else Mock_New ex)"

definition example_world :: "(Mock, time) world" where
  "example_world = \<lparr>wd_venues = example_venue, wd_ext = 0, wd_notes = []\<rparr>"

definition example_candidate :: Candidate where
  "example_candidate = (new_candidate (example_instrument ExchangeBybit) (example_instrument ExchangeOKX)
     (example_snap ExchangeBybit 100) (example_snap ExchangeOKX 100) 0)\<lparr>cd_Eligible := True\<rparr>"

definition example_engine :: Engine where
  "example_engine = fst (Engine_New example_engine_config)"

lemma example_candid:
  assumes "candid_venue A mk_orders mock_candid" and "ad_SetLeverage A = ad_SetLeverage mock_adapter"
  shows "candid_venues (example_deps A) mk_orders mock_candid"
proof (rule candid_venues.intro)
  fix ex A' q v e v'
  show "dp_Executors (example_deps A) ex = Some A' \<Longrightarrow> candid_venue A' mk_orders mock_candid"
    using assms(1) by (simp add: example_deps_def)
  show "dp_Adapters (example_deps A) ex = Some A' \<Longrightarrow> ad_SetLeverage A' q v = (e, v') \<Longrightarrow>
      mk_orders v' = mk_orders v \<and> (mock_candid v \<longrightarrow> mock_candid v')"
    using assms(2) by (auto simp: example_deps_def mock_adapter_def Mock_SetLeverage_def)
qed

interpretation example_venues: candid_venues "example_deps mock_adapter" mk_orders mock_candid
  by (rule example_candid [OF mock_candid.candid_venue_axioms refl])

lemma example_venues_sane: "\<forall>ex. mock_candid (wd_venues example_world ex)"
proof
  fix ex
  have "mock_candid (Mock_New ex)" by (rule mock_candid_new)
  then show "mock_candid (wd_venues example_world ex)"
    by (simp add: example_world_def example_venue_def mock_candid_def mock_sane_def
        SetServerTime_def SetFillRule_def) (simp add: Mock_New_def)
qed

definition example_run :: "Mock adapter \<Rightarrow> (Engine \<times> (Mock, time) world) option" where
  "example_run A = openPosition_run (example_deps A) example_engine_config example_candidate example_engine example_world"

text \<open>The state and the legs of the one open position, and the fills of the two venues for it.\<close>

definition example_outcome ::
  "Engine \<times> (Mock, time) world \<Rightarrow> (PState \<times> decimal \<times> decimal) option \<times> decimal \<times> decimal" where
  "example_outcome r = (case r of (en, w) \<Rightarrow>
     (map_option (\<lambda>p. (pos_State (op_pos p), pos_LongBaseQty (op_pos p), pos_ShortBaseQty (op_pos p)))
        (map_of (en_open en) ''P0-1-BTC''),
      net_fill mk_orders w ExchangeBybit ''P0-1-BTC'' SideLong, net_fill mk_orders w ExchangeOKX ''P0-1-BTC'' SideShort))"

lemma example_run_repaired:
  "map_option example_outcome (example_run mock_adapter)
     = Some (Some (StateMonitoring, 3 / 4, 3 / 4), 3 / 4, 3 / 4)"
  by code_simp

lemma example_fresh: "fresh_position mk_orders example_world ExchangeBybit ExchangeOKX ''P0-1-BTC''"
  by (simp add: fresh_position_def example_world_def example_venue_def SetServerTime_def SetFillRule_def Mock_New_def)

theorem open_position_hedged_witness:
  "\<exists>en w p. example_run mock_adapter = Some (en, w) \<and> map_of (en_open en) ''P0-1-BTC'' = Some p
     \<and> pos_State (op_pos p) = StateMonitoring
     \<and> pos_LongBaseQty (op_pos p) \<le> net_fill mk_orders w ExchangeBybit ''P0-1-BTC'' SideLong
     \<and> pos_ShortBaseQty (op_pos p) \<le> net_fill mk_orders w ExchangeOKX ''P0-1-BTC'' SideShort"
proof -
  obtain en w where r: "example_run mock_adapter = Some (en, w)"
      "example_outcome (en, w) = (Some (StateMonitoring, 3 / 4, 3 / 4), 3 / 4, 3 / 4)"
    using example_run_repaired by auto
  have c: "cd_LongExchange example_candidate = ExchangeBybit" "cd_ShortExchange example_candidate = ExchangeOKX"
    by (simp_all add: example_candidate_def new_candidate_def example_instrument_def)
  have acc: "accepting (example_deps mock_adapter)" by (simp add: accepting_def example_deps_def)
  have pid: "''P0-1-BTC'' = position_id (fst (dp_Clock (example_deps mock_adapter) (wd_ext example_world)))
      (i64 (en_seq example_engine + 1)) (cd_Asset example_candidate)" by code_simp
  have start: "0 \<le> ec_DeltaToleranceBase example_engine_config" "map_of (en_open example_engine) ''P0-1-BTC'' = None"
    by (simp_all add: example_engine_config_def example_engine_def Engine_New_def)
  have ne: "cd_LongExchange example_candidate \<noteq> cd_ShortExchange example_candidate"
    unfolding c by (simp add: ExchangeBybit_def ExchangeOKX_def)
  have fr: "fresh_position mk_orders example_world (cd_LongExchange example_candidate)
      (cd_ShortExchange example_candidate) ''P0-1-BTC''" unfolding c by (rule example_fresh)
  note h = open_position_hedged [OF example_venues.candid_venues_axioms acc r(1) [unfolded example_run_def] example_venues_sane
      ne start(1) pid fr start(2) refl refl refl refl, unfolded c]
  obtain p where p: "map_of (en_open en) ''P0-1-BTC'' = Some p" "pos_State (op_pos p) = StateMonitoring"
    using r(2) by (auto simp: example_outcome_def)
  have "pos_LongBaseQty (op_pos p) \<le> net_fill mk_orders w ExchangeBybit ''P0-1-BTC'' SideLong
     \<and> pos_ShortBaseQty (op_pos p) \<le> net_fill mk_orders w ExchangeOKX ''P0-1-BTC'' SideShort"
    using h p by (simp add: leg_accounted_def)
  then show ?thesis using r(1) p by blast
qed

section \<open>A reduce-only order that does not fill\<close>

text \<open>The mock that acknowledges a reduce-only order and then rejects it, without a fill.\<close>

definition rejecting_adapter :: "Mock adapter" where
  "rejecting_adapter = mock_adapter\<lparr>ad_PlaceOrder := (\<lambda>req m.
     Mock_PlaceOrder req (if req_ReduceOnly req then SetRejectNext 1 m else m))\<rparr>"

lemma rejecting_adapter_simps:
  "ad_PlaceOrder rejecting_adapter req m = ad_PlaceOrder mock_adapter req (if req_ReduceOnly req then SetRejectNext 1 m else m)"
  "ad_GetOrder rejecting_adapter = ad_GetOrder mock_adapter"
  by (simp_all add: rejecting_adapter_def mock_adapter_def)

lemma set_reject_orders [simp]: "mk_orders (if b then SetRejectNext k m else m) = mk_orders m"
  by (simp add: SetRejectNext_def)

lemma set_reject_candid [simp]: "mock_candid (if b then SetRejectNext k m else m) = mock_candid m"
  by (simp add: SetRejectNext_def mock_candid_def mock_sane_def)

interpretation rejecting_mock: candid_venue rejecting_adapter mk_orders mock_candid
proof unfold_locales
  fix w w' w1 :: Mock and req r q rq i ord e ack o'
  show "ad_PlaceOrder rejecting_adapter req w = (Inr ack, w') \<Longrightarrow>
      \<exists>ord. mk_orders w' = (mk_orders w)(req_ClientOrderID req \<mapsto> ord)"
    unfolding rejecting_adapter_simps by (metis mock.place_ack set_reject_orders)
  show "ad_PlaceOrder rejecting_adapter req w = (Inl e, w') \<Longrightarrow> IsAmbiguousTimeout e \<Longrightarrow>
      mk_orders w' = mk_orders w \<or> (\<exists>ord. mk_orders w' = (mk_orders w)(req_ClientOrderID req \<mapsto> ord))"
    unfolding rejecting_adapter_simps by (metis mock.place_ambiguous set_reject_orders)
  show "ad_PlaceOrder rejecting_adapter req w = (Inl e, w') \<Longrightarrow> \<not> IsAmbiguousTimeout e \<Longrightarrow>
      mk_orders w' = mk_orders w"
    unfolding rejecting_adapter_simps by (metis mock.place_refused set_reject_orders)
  show "ad_GetOrder rejecting_adapter q w = (rq, w') \<Longrightarrow> mk_orders w' = mk_orders w"
    unfolding rejecting_adapter_simps by (rule mock.get_pure)
  show "ad_GetOrder rejecting_adapter q w = (Inr o', w') \<Longrightarrow> mk_orders w' (qry_ClientOrderID q) = Some o'"
    unfolding rejecting_adapter_simps by (rule mock.get_found)
  show "ad_GetOrder rejecting_adapter q w = (Inl ErrOrderNotFound, w') \<Longrightarrow> mk_orders w' (qry_ClientOrderID q) = None"
    unfolding rejecting_adapter_simps by (rule mock.get_missing)
  show "mock_candid w \<Longrightarrow> 0 < req_BaseQty req \<Longrightarrow> ad_PlaceOrder rejecting_adapter req w = (r, w') \<Longrightarrow> mock_candid w'"
    unfolding rejecting_adapter_simps by (metis mock_candid.place_sane set_reject_candid)
  show "mock_candid w \<Longrightarrow> ad_GetOrder rejecting_adapter q w = (rq, w') \<Longrightarrow> mock_candid w'"
    unfolding rejecting_adapter_simps by (rule mock_candid.get_sane)
  show "mock_candid w \<Longrightarrow> mk_orders w i = Some ord \<Longrightarrow> 0 \<le> ord_FilledQty ord"
    by (rule mock_candid.book_sane)
  show "mock_candid w \<Longrightarrow> ad_GetOrder rejecting_adapter q w = (Inl e, w') \<Longrightarrow> IsAmbiguousTimeout e \<or> e = ErrOrderNotFound"
    unfolding rejecting_adapter_simps by (rule mock_candid.get_answers)
  show "mock_candid w \<Longrightarrow> 0 < req_BaseQty req \<Longrightarrow> ad_PlaceOrder rejecting_adapter req w = (Inr ack, w1)
      \<Longrightarrow> \<exists>q w2. ad_GetOrder rejecting_adapter (query_of req) w1 = (Inr q, w2)"
    unfolding rejecting_adapter_simps by (metis mock_candid.get_after_ack set_reject_candid)
  show "mock_candid w \<Longrightarrow> 0 < req_BaseQty req \<Longrightarrow> ad_PlaceOrder rejecting_adapter req w = (r, w1) \<Longrightarrow>
      mk_orders w1 (req_ClientOrderID req) = Some ord \<Longrightarrow>
      mk_orders w (req_ClientOrderID req) = Some ord \<or> ord_FilledQty ord \<le> req_BaseQty req"
    unfolding rejecting_adapter_simps by (metis mock_candid.no_overfill set_reject_candid set_reject_orders)
qed

interpretation rejecting_venues: candid_venues "example_deps rejecting_adapter" mk_orders mock_candid
  by (rule example_candid [OF rejecting_mock.candid_venue_axioms]) (simp add: rejecting_adapter_def)

text \<open>
  the repair records the heavier leg as reduced as soon as the reduce-only order is
  acknowledged.  At venues that answer every query truthfully, one of which rejects that order after the
  acknowledgement, the engine ends in MONITORING with both legs recorded as 3/4, while the long venue has filled
  1: a gap of 250 times the tolerance that nothing records.
\<close>

theorem repair_can_hide_a_gap:
  "candid_venue rejecting_adapter mk_orders mock_candid \<and> (\<forall>ex. mock_candid (wd_venues example_world ex))
   \<and> (\<exists>en w p. openPosition_run (example_deps rejecting_adapter) example_engine_config example_candidate
          example_engine example_world = Some (en, w)
        \<and> map_of (en_open en) ''P0-1-BTC'' = Some p \<and> pos_State (op_pos p) = StateMonitoring
        \<and> pos_LongBaseQty (op_pos p) = 3 / 4 \<and> pos_ShortBaseQty (op_pos p) = 3 / 4
        \<and> net_fill mk_orders w ExchangeBybit ''P0-1-BTC'' SideLong = 1
        \<and> net_fill mk_orders w ExchangeOKX ''P0-1-BTC'' SideShort = 3 / 4)"
proof -
  have "map_option example_outcome (example_run rejecting_adapter)
      = Some (Some (StateMonitoring, 3 / 4, 3 / 4), 1, 3 / 4)" by code_simp
  then obtain en w where r: "example_run rejecting_adapter = Some (en, w)"
      "example_outcome (en, w) = (Some (StateMonitoring, 3 / 4, 3 / 4), 1, 3 / 4)" by auto
  then have "\<exists>p. map_of (en_open en) ''P0-1-BTC'' = Some p \<and> pos_State (op_pos p) = StateMonitoring
        \<and> pos_LongBaseQty (op_pos p) = 3 / 4 \<and> pos_ShortBaseQty (op_pos p) = 3 / 4
        \<and> net_fill mk_orders w ExchangeBybit ''P0-1-BTC'' SideLong = 1
        \<and> net_fill mk_orders w ExchangeOKX ''P0-1-BTC'' SideShort = 3 / 4"
    by (auto simp: example_outcome_def)
  then show ?thesis
    using r(1) example_venues_sane rejecting_mock.candid_venue_axioms
    by (auto simp: example_run_def)
qed

section \<open>Identifiers that do not tell positions apart\<close>

lemma sanitize_append: "sanitizeComponent (xs @ ys) = sanitizeComponent xs @ sanitizeComponent ys"
  by (simp add: sanitizeComponent_def to_upper_def)

lemma to_upper_char_idem: "to_upper_char (to_upper_char c) = to_upper_char c"
  by (auto simp: to_upper_char_def Let_def)

lemma sanitize_upper: "sanitizeComponent (to_upper a) = sanitizeComponent a"
  by (simp add: sanitizeComponent_def to_upper_def comp_def to_upper_char_idem)

lemma position_id_tail: "\<exists>xs. sanitizeComponent (position_id t n a) = xs @ ''-'' @ sanitizeComponent a"
proof -
  have "sanitizeComponent ''-'' = ''-''" by code_simp
  moreover have "position_id t n a = (''P'' @ format_int (unix_milli t) @ ''-'' @ format_int n) @ (''-'' @ to_upper a)"
    by (simp add: position_id_def)
  ultimately show ?thesis by (simp only: sanitize_append sanitize_upper) blast
qed

text \<open>The tail of the position's identifier in a short entry order has 16 characters.\<close>

lemma short_entry_position:
  "fitted_position \<lparr>cp_PositionID = i, cp_LegSide = SideShort, cp_SliceIndex = 0, cp_Nonce = 0, cp_Purpose = PurposeEntry\<rparr>
     = drop (length (sanitizeComponent i) - 16) (sanitizeComponent i)"
proof -
  have z: "format_int 0 = ''0''" and e: "sanitizeComponent PurposeEntry = ''ENTRY''" by code_simp+
  show ?thesis by (simp add: fitted_position_def format_suffix_def leg_name_def z e MaxLength_def Let_def)
qed

text \<open>
  the identifier of an order keeps only the tail of the position's identifier that fits
  into 32 characters.  For an asset whose name is too long, whatever the time and the sequence number,
  all short entry orders of all positions in it carry the same client order identifier.
\<close>

theorem entry_ids_collide:
  assumes "15 \<le> length (sanitizeComponent a)"
  shows "entry_id (position_id t n a) SideShort = entry_id (position_id t' n' a) SideShort"
proof -
  let ?zs = "''-'' @ sanitizeComponent a"
  have "drop (length (sanitizeComponent (position_id u k a)) - 16) (sanitizeComponent (position_id u k a))
      = drop (length ?zs - 16) ?zs" for u k
    using position_id_tail [of u k a] assms by auto
  then show ?thesis
    by (simp add: entry_id_def Format_shape short_entry_position fitted_purpose_def format_suffix_def)
qed

theorem entry_ids_collide_witness:
  "entry_id (position_id 0 1 ''1000000BABYDOGE'') SideShort = entry_id (position_id (10 ^ 18) 77 ''1000000BABYDOGE'') SideShort"
  by (rule entry_ids_collide) code_simp

end
