(* ===== verification/EngineExit.thy ===== *)
theory EngineExit
  imports EngineClose OpenHedge
begin

text \<open>
  What closing a position does: the accounting of an accepted close, the close that has nothing to match, and how a
  request to close is served.
\<close>

section \<open>The map of open positions\<close>

lemma map_of_store:
  "map_of (map (\<lambda>(k, x). (k, if k = i then p else x)) xs) j
     = (if j = i then map_option (\<lambda>_. p) (map_of xs i) else map_of xs j)"
  by (induction xs) auto

lemma open_store_op:
  "map_of (en_open (store_op p en)) j
     = (if j = pos_ID (op_pos p) then map_option (\<lambda>_. p) (map_of (en_open en) j) else map_of (en_open en) j)"
  by (simp add: store_op_def map_of_store)

lemma open_forget: "map_of (en_open (forget i en)) j = (if j = i then None else map_of (en_open en) j)"
  by (simp add: forget_def delete_conv')

lemma open_clear [simp]: "en_open (clear_request i en) = en_open en"
  by (simp add: clear_request_def)

lemma requests:
  "en_closeReq (store_op p en) = en_closeReq en" "en_closeReq (forget i en) = (en_closeReq en)(i := None)"
  "en_closeReq (clear_request i en) = (en_closeReq en)(i := None)"
  by (simp_all add: store_op_def forget_def clear_request_def)

section \<open>A close, step by step\<close>

lemma begin_exit_ok:
  assumes "begin_exit dp p reason d = (okx, p', d')" and "at_rest s0 p"
    and "pos_State p \<in> {StateMonitoring, StateDegraded}" and "accepting dp"
  shows "okx \<and> at_rest s0 p' \<and> pos_State p' = StateExiting \<and> pos_ID p' = pos_ID p
     \<and> pos_LongBaseQty p' = pos_LongBaseQty p \<and> pos_ShortBaseQty p' = pos_ShortBaseQty p"
proof -
  obtain now d1 where c: "dp_Clock dp d = (now, d1)" by (metis surj_pair)
  obtain o1 p1 d2 where t1: "transition_at dp p StateExitRequested now reason d1 = (o1, p1, d2)" by (metis prod_cases3)
  note r1 = transition_at_at_rest [OF t1 assms(2)]
  have o1: o1 using r1 assms(3,4) by auto
  obtain o2 p2 d3 where t2: "transition_at dp p1 StateExiting now reason d2 = (o2, p2, d3)" by (metis prod_cases3)
  note r2 = transition_at_at_rest [OF t2 conjunct1 [OF r1]]
  have o2: o2 using r1 r2 assms(4) o1 by auto
  have "begin_exit dp p reason d = (o2, p2, d3)"
    using assms(3) c t1 t2 o1 by (auto simp: begin_exit_def)
  then show ?thesis using assms(1) r1 r2 o1 o2 by auto
qed

text \<open>The engine and the legs after the outcome of a close, when the persister accepts.\<close>

lemma finish_exit_ok:
  assumes "finish_exit dp p reason res err en w = (en', w')" and "at_rest s0 (op_pos p)"
    and "pos_State (op_pos p) = StateExiting" and "accepting dp" and "pos_ID (op_pos p) = i"
    and "map_of (en_open en) i \<noteq> None"
  shows "wd_venues w' = wd_venues w \<and> en_closeReq en' i = None
     \<and> (\<forall>j. j \<noteq> i \<longrightarrow> map_of (en_open en') j = map_of (en_open en) j \<and> en_closeReq en' j = en_closeReq en j)
     \<and> (if err = None then map_of (en_open en') i = None
        else \<exists>q. map_of (en_open en') i = Some (p\<lparr>op_pos := q\<rparr>) \<and> at_rest s0 q \<and> pos_ID q = i \<and> pos_State q = StateDegraded
          \<and> pos_LongBaseQty q = pos_LongBaseQty (op_pos p) \<and> pos_ShortBaseQty q = pos_ShortBaseQty (op_pos p)
          \<and> last (trail q) = (if err = Some ErrCloseAmbiguous then StateReconciling else StateExiting, StateDegraded))"
proof -
  have t1: "o1 \<and> at_rest s0 p1 \<and> pos_State p1 = to \<and> pos_ID p1 = i \<and> pos_LongBaseQty p1 = pos_LongBaseQty (op_pos p)
      \<and> pos_ShortBaseQty p1 = pos_ShortBaseQty (op_pos p) \<and> last (trail p1) = (pos_State q, to)"
    if "transition_now dp q to r d = (o1, p1, d')" "at_rest s0 q" "pos_ID q = i" "CanTransition (pos_State q) to"
      "pos_LongBaseQty q = pos_LongBaseQty (op_pos p)" "pos_ShortBaseQty q = pos_ShortBaseQty (op_pos p)"
    for q to r d o1 p1 d'
    using transition_now_at_rest [OF that(1,2)] that(3-6) assms(4) by simp
  show ?thesis
  proof (cases err)
    case None
    obtain o1 p1 d1 where a: "transition_now dp (op_pos p) StateReconciling ''close complete, verifying'' (wd_ext w) = (o1, p1, d1)"
      by (metis prod_cases3)
    obtain o2 p2 d2 where b: "transition_now dp p1 StateClosed reason d1 = (o2, p2, d2)" by (metis prod_cases3)
    note ra = t1 [OF a assms(2,5) _ refl refl]
    have rb: "o2 \<and> pos_ID p2 = i" using t1 [OF b] ra assms(3) by simp
    then have "en' = clear_request i (forget i (store_op (p\<lparr>op_pos := p2\<rparr>) en))" "wd_venues w' = wd_venues w"
      using assms(1,5) None a b by (auto simp: finish_exit_def Let_def notify_def)
    then show ?thesis using None rb by (simp add: open_forget open_store_op requests)
  next
    case (Some e)
    show ?thesis
    proof (cases e)
      case ErrCloseAmbiguous
      obtain o1 p1 d1 where a: "transition_now dp (op_pos p) StateReconciling (cl_Reason res) (wd_ext w) = (o1, p1, d1)"
        by (metis prod_cases3)
      obtain o2 p2 d2 where b: "transition_now dp p1 StateDegraded ''ambiguous close: manual reconciliation required'' d1 = (o2, p2, d2)"
        by (metis prod_cases3)
      note ra = t1 [OF a assms(2,5) _ refl refl]
      have rb: "at_rest s0 p2 \<and> pos_ID p2 = i \<and> pos_State p2 = StateDegraded
          \<and> pos_LongBaseQty p2 = pos_LongBaseQty (op_pos p) \<and> pos_ShortBaseQty p2 = pos_ShortBaseQty (op_pos p)
          \<and> last (trail p2) = (StateReconciling, StateDegraded)"
        using t1 [OF b] ra assms(3) by simp
      have "en' = clear_request i (store_op (p\<lparr>op_pos := p2\<rparr>) en)" "wd_venues w' = wd_venues w"
        using assms(1,5) Some ErrCloseAmbiguous a b by (auto simp: finish_exit_def Let_def notify_def)
      then show ?thesis using Some rb assms(6) ErrCloseAmbiguous by (auto simp: open_store_op requests)
    next
      case ErrCloseIncomplete
      obtain o1 p1 d1 where a: "transition_now dp (op_pos p) StateDegraded (cl_Reason res) (wd_ext w) = (o1, p1, d1)"
        by (metis prod_cases3)
      note ra = t1 [OF a assms(2,5) _ refl refl]
      have "en' = clear_request i (store_op (p\<lparr>op_pos := p1\<rparr>) en)" "wd_venues w' = wd_venues w"
        using assms(1,5) Some ErrCloseIncomplete a by (auto simp: finish_exit_def Let_def notify_def)
      then show ?thesis using Some ra assms(3,6) ErrCloseIncomplete by (auto simp: open_store_op requests)
    qed
  qed
qed

lemma resolveSymbols_pos: "resolveSymbols dp d p = (okr, p') \<Longrightarrow>
    op_pos p' = op_pos p \<and> op_longEx p' = op_longEx p \<and> op_shortEx p' = op_shortEx p \<and> op_asset p' = op_asset p"
  by (auto simp: resolveSymbols_def split: if_splits option.splits)

text \<open>The whole of \<open>closePosition\<close> for a position the engine closes, with an accepting persister.\<close>

lemma closePosition_steps:
  assumes "closePosition dp cfg p reason en w = Some (en', w')" and "fst (resolveSymbols dp (wd_ext w) p)"
    and "at_rest s0 (op_pos p)" and "pos_State (op_pos p) \<in> {StateMonitoring, StateDegraded}" and "accepting dp"
    and "pos_ID (op_pos p) = i" and "map_of (en_open en) i \<noteq> None"
  obtains p1 q d res err w1 where
    "run_close dp cfg (p1\<lparr>op_pos := q\<rparr>) (w\<lparr>wd_ext := d\<rparr>) = Some ((res, err), w1)"
    "op_longEx p1 = op_longEx p" "op_shortEx p1 = op_shortEx p"
    "pos_ID q = i" "pos_LongBaseQty q = pos_LongBaseQty (op_pos p)" "pos_ShortBaseQty q = pos_ShortBaseQty (op_pos p)"
    "wd_venues w' = wd_venues w1" "en_closeReq en' i = None"
    "\<forall>j. j \<noteq> i \<longrightarrow> map_of (en_open en') j = map_of (en_open en) j \<and> en_closeReq en' j = en_closeReq en j"
    "if err = None then map_of (en_open en') i = None
     else \<exists>q'. map_of (en_open en') i = Some (p1\<lparr>op_pos := q'\<rparr>) \<and> at_rest s0 q' \<and> pos_ID q' = i \<and> pos_State q' = StateDegraded
       \<and> pos_LongBaseQty q' = pos_LongBaseQty q - cl_LongClosedQty res
       \<and> pos_ShortBaseQty q' = pos_ShortBaseQty q - cl_ShortClosedQty res
       \<and> last (trail q') = (if err = Some ErrCloseAmbiguous then StateReconciling else StateExiting, StateDegraded)"
proof -
  obtain p1 where p1: "resolveSymbols dp (wd_ext w) p = (True, p1)" using assms(2) by (metis prod.collapse)
  note rs = resolveSymbols_pos [OF p1]
  obtain ob q d where b: "begin_exit dp (op_pos p) reason (wd_ext w) = (ob, q, d)" by (metis prod_cases3)
  note rb = begin_exit_ok [OF b assms(3-5)]
  obtain res err w1 where run: "run_close dp cfg (p1\<lparr>op_pos := q\<rparr>) (w\<lparr>wd_ext := d\<rparr>) = Some ((res, err), w1)"
    using assms(1) p1 b rb rs by (auto simp: closePosition_def bind_eq_Some_conv)
  obtain q2 d2 where s: "set_quantities_now dp q (pos_LongBaseQty q - cl_LongClosedQty res)
      (pos_ShortBaseQty q - cl_ShortClosedQty res) (wd_ext w1) = (q2, d2)" by (metis surj_pair)
  have q2: "at_rest s0 q2" "pos_ID q2 = i" "pos_State q2 = StateExiting"
      "pos_LongBaseQty q2 = pos_LongBaseQty q - cl_LongClosedQty res"
      "pos_ShortBaseQty q2 = pos_ShortBaseQty q - cl_ShortClosedQty res"
    using set_quantities_at_rest [OF s] rb assms(6) by (auto simp: PState_IsTerminal_def)
  let ?p2 = "p1\<lparr>op_pos := q2\<rparr>"
  have fin: "finish_exit dp ?p2 reason res err en (w1\<lparr>wd_ext := persistLegs dp ?p2 d2\<rparr>) = (en', w')"
    using assms(1) p1 b rb rs run s by (simp add: closePosition_def Let_def)
  have F: "at_rest s0 (op_pos ?p2)" "pos_State (op_pos ?p2) = StateExiting" "pos_ID (op_pos ?p2) = i" using q2 by simp_all
  note F = finish_exit_ok [OF fin F(1,2) assms(5) F(3) assms(7)]
  show thesis
  proof (cases "err = None")
    case True
    then show thesis using rs rb assms(6) F by (intro that [OF run]) simp_all
  next
    case False
    then obtain q' where q': "map_of (en_open en') i = Some (p1\<lparr>op_pos := q'\<rparr>)" "at_rest s0 q'" "pos_ID q' = i"
        "pos_State q' = StateDegraded" "pos_LongBaseQty q' = pos_LongBaseQty q - cl_LongClosedQty res"
        "pos_ShortBaseQty q' = pos_ShortBaseQty q - cl_ShortClosedQty res"
        "last (trail q') = (if err = Some ErrCloseAmbiguous then StateReconciling else StateExiting, StateDegraded)"
      using F by (auto simp: q2(4,5))
    show thesis
    proof (rule that [OF run])
      show "if err = None then map_of (en_open en') i = None
         else \<exists>q'. map_of (en_open en') i = Some (p1\<lparr>op_pos := q'\<rparr>) \<and> at_rest s0 q' \<and> pos_ID q' = i \<and> pos_State q' = StateDegraded
           \<and> pos_LongBaseQty q' = pos_LongBaseQty q - cl_LongClosedQty res
           \<and> pos_ShortBaseQty q' = pos_ShortBaseQty q - cl_ShortClosedQty res
           \<and> last (trail q') = (if err = Some ErrCloseAmbiguous then StateReconciling else StateExiting, StateDegraded)"
        unfolding if_not_P [OF False] using q' by blast
    qed (use rs rb assms(6) F in simp_all)
  qed
qed

section \<open>Closing with both legs open\<close>

lemma run_close_sent:
  assumes "run_close dp cfg p w = Some ((res, err), w')"
    and "dp_Executors dp (op_longEx p) = Some L" and "dp_Executors dp (op_shortEx p) = Some S"
    and "op_longEx p \<noteq> op_shortEx p"
  shows "CoordinatedClose L S (close_request dp p (wd_ext w)) (close_config cfg p)
      (wd_venues w (op_longEx p)) (wd_venues w (op_shortEx p))
    = ((res, err), wd_venues w' (op_longEx p), wd_venues w' (op_shortEx p))"
  using assms by (auto simp: run_close_def Let_def split: prod.splits)

text \<open>
  C22: closing a position of two positive legs that the engine holds in MONITORING or DEGRADED, at candid venues, with a persister that
  accepts, known symbols and executors, and no exit order placed for the position before (a second close uses the identifiers of the first
  again), has two outcomes, and either way the request to close is gone.  The position is forgotten: then the
  venues filled, on both legs, the whole smaller leg.  Or it stays, DEGRADED: then what is recorded of each leg is
  never less than what the venue left open, and exactly that unless the position went through RECONCILING, the sign
  of an ambiguous close.
\<close>

theorem close_position_accounts:
  assumes "closePosition dp cfg p reason en w = Some (en', w')" and "accepting dp"
    and "fst (resolveSymbols dp (wd_ext w) p)" and "at_rest s0 (op_pos p)"
    and "pos_State (op_pos p) \<in> {StateMonitoring, StateDegraded}" and "map_of (en_open en) (pos_ID (op_pos p)) = Some p"
    and "dp_Executors dp (op_longEx p) = Some L" and "dp_Executors dp (op_shortEx p) = Some S"
    and "candid_venue L bk ok" and "candid_venue S bk ok" and "\<forall>ex. ok (wd_venues w ex)"
    and "op_longEx p \<noteq> op_shortEx p" and "ec_MaxRequotes cfg < int64_max" and "pos_ID (op_pos p) = i"
    and "\<forall>k sd ex. bk (wd_venues w ex) (exit_id i sd k) = None"
    and "l = pos_LongBaseQty (op_pos p)" and "s = pos_ShortBaseQty (op_pos p)" and "0 < min l s"
    and "fl = exit_fills bk (wd_venues w' (op_longEx p)) i SideLong [0..<nat (ec_MaxRequotes cfg + 1)]"
    and "fs = exit_fills bk (wd_venues w' (op_shortEx p)) i SideShort [0..<nat (ec_MaxRequotes cfg + 1)]"
  shows "en_closeReq en' i = None
     \<and> (case map_of (en_open en') i of
          None \<Rightarrow> fl = min l s \<and> fs = min l s
        | Some p' \<Rightarrow> pos_State (op_pos p') = StateDegraded
            \<and> l - fl \<le> pos_LongBaseQty (op_pos p') \<and> s - fs \<le> pos_ShortBaseQty (op_pos p')
            \<and> (pos_LongBaseQty (op_pos p') = l - fl \<and> pos_ShortBaseQty (op_pos p') = s - fs
               \<or> last (trail (op_pos p')) = (StateReconciling, StateDegraded)))"
  using assms(1,3-5,2,14)
proof (rule closePosition_steps)
  show "map_of (en_open en) i \<noteq> None" using assms(6,14) by simp
next
  fix p1 q d res err w1
  assume run: "run_close dp cfg (p1\<lparr>op_pos := q\<rparr>) (w\<lparr>wd_ext := d\<rparr>) = Some ((res, err), w1)"
    and ex: "op_longEx p1 = op_longEx p" "op_shortEx p1 = op_shortEx p"
    and q: "pos_ID q = i" "pos_LongBaseQty q = pos_LongBaseQty (op_pos p)" "pos_ShortBaseQty q = pos_ShortBaseQty (op_pos p)"
    and w': "wd_venues w' = wd_venues w1" and req: "en_closeReq en' i = None"
    and out: "if err = None then map_of (en_open en') i = None
     else \<exists>q'. map_of (en_open en') i = Some (p1\<lparr>op_pos := q'\<rparr>) \<and> at_rest s0 q' \<and> pos_ID q' = i \<and> pos_State q' = StateDegraded
       \<and> pos_LongBaseQty q' = pos_LongBaseQty q - cl_LongClosedQty res
       \<and> pos_ShortBaseQty q' = pos_ShortBaseQty q - cl_ShortClosedQty res
       \<and> last (trail q') = (if err = Some ErrCloseAmbiguous then StateReconciling else StateExiting, StateDegraded)"
  have hon: "honest_venue L bk ok" "honest_venue S bk ok" using assms(9,10) by (simp_all add: candid_venue_def)
  let ?req = "close_request dp (p1\<lparr>op_pos := q\<rparr>) d" and ?cfg = "close_config cfg (p1\<lparr>op_pos := q\<rparr>)"
  have cc: "CoordinatedClose L S ?req ?cfg (wd_venues w (op_longEx p)) (wd_venues w (op_shortEx p))
      = ((res, err), wd_venues w' (op_longEx p), wd_venues w' (op_shortEx p))"
    using run_close_sent [OF run, of L S] assms(7,8,12) ex w' by simp
  have rq: "cq_PositionID ?req = i" "cq_LongRemaining ?req = l" "cq_ShortRemaining ?req = s" "cc_MaxRequotes ?cfg = ec_MaxRequotes cfg"
    using q assms(16,17) by (simp_all add: close_request_def close_config_def)
  note acc = CoordinatedClose_sound [OF hon _ _ _ cc, unfolded rq]
    and exact = CoordinatedClose_exact [OF assms(9,10) _ _ _ cc, unfolded rq]
  have acc: "cl_LongClosedQty res \<le> fl" "cl_ShortClosedQty res \<le> fs"
      "err = None \<Longrightarrow> cl_LongClosedQty res = min l s \<and> cl_ShortClosedQty res = min l s"
    using acc assms(11,13,18-20) by (auto split: if_splits)
  have exact: "err \<noteq> Some ErrCloseAmbiguous \<Longrightarrow> cl_LongClosedQty res = fl \<and> cl_ShortClosedQty res = fs"
    using exact assms(11,13,15,19,20) by blast
  show ?thesis
    using out acc exact q assms(16,17) req by (cases err) auto
qed

section \<open>Closing with nothing to match\<close>

lemma run_close_idle:
  assumes "\<not> 0 < min (pos_LongBaseQty (op_pos p)) (pos_ShortBaseQty (op_pos p))"
  shows "run_close dp cfg p w = Some ((zero_CloseResult, None), w)"
proof -
  have "CoordinatedClose L S (close_request dp p (wd_ext w)) (close_config cfg p) wl ws = ((zero_CloseResult, None), wl, ws)"
    for L S :: "'a adapter" and wl ws
    using assms by (simp add: CoordinatedClose_def close_request_def)
  moreover have "\<not> close_sends (close_request dp p (wd_ext w)) (close_config cfg p)"
    using assms by (auto simp: close_sends_def close_request_def)
  ultimately show ?thesis by (simp add: run_close_def Let_def)
qed

text \<open>Whatever the persister does, the transitions of a close keep the identifier and the legs.\<close>

definition same_legs :: "Position \<Rightarrow> Position \<Rightarrow> bool" where
  "same_legs p q \<longleftrightarrow> pos_ID q = pos_ID p \<and> pos_LongBaseQty q = pos_LongBaseQty p \<and> pos_ShortBaseQty q = pos_ShortBaseQty p"

lemma transition_at_legs:
  assumes "transition_at dp p to now reason d = (okt, q, d')"
  shows "same_legs p q"
  using transition_at_cases [OF assms] moved_simps [of p to q] kept_simps [of p q]
  by (auto simp: same_legs_def split: if_splits)

lemma transition_now_legs:
  assumes "transition_now dp p to reason d = (okt, q, d')"
  shows "same_legs p q"
  using assms transition_at_legs unfolding transition_now_def by (metis case_prod_conv surj_pair)

lemma begin_exit_legs:
  assumes "begin_exit dp p reason d = (okx, q, d')"
  shows "same_legs p q"
proof -
  obtain now d1 where c: "dp_Clock dp d = (now, d1)" by (metis surj_pair)
  obtain o1 p1 d2 where t1: "transition_at dp p StateExitRequested now reason d1 = (o1, p1, d2)" by (metis prod_cases3)
  have refl: "same_legs p p" by (simp add: same_legs_def)
  have trans: "same_legs p q" if "same_legs p p2" "transition_at dp p2 StateExiting now reason d3 = (okx, q, d')" for p2 d3
    using that(1) transition_at_legs [OF that(2)] by (simp add: same_legs_def)
  show ?thesis
    using assms c t1 refl trans transition_at_legs [OF t1]
    by (auto simp: begin_exit_def split: if_splits)
qed

lemma closePosition_some:
  assumes "\<And>p1 w1. same_legs (op_pos p) (op_pos p1) \<Longrightarrow> op_longEx p1 = op_longEx p \<Longrightarrow> op_shortEx p1 = op_shortEx p
     \<Longrightarrow> run_close dp cfg p1 w1 \<noteq> None"
  shows "closePosition dp cfg p reason en w \<noteq> None"
proof -
  obtain okr p1 where r: "resolveSymbols dp (wd_ext w) p = (okr, p1)" by (metis surj_pair)
  obtain ob q d where b: "begin_exit dp (op_pos p1) reason (wd_ext w) = (ob, q, d)" by (metis prod_cases3)
  have "run_close dp cfg (p1\<lparr>op_pos := q\<rparr>) (w\<lparr>wd_ext := d\<rparr>) \<noteq> None"
    using assms [of "p1\<lparr>op_pos := q\<rparr>"] resolveSymbols_pos [OF r] begin_exit_legs [OF b] by simp
  then obtain res err w1 where c: "run_close dp cfg (p1\<lparr>op_pos := q\<rparr>) (w\<lparr>wd_ext := d\<rparr>) = Some ((res, err), w1)"
    by (metis not_None_eq surj_pair)
  obtain q2 d2 where "set_quantities_now dp q (pos_LongBaseQty q - cl_LongClosedQty res)
      (pos_ShortBaseQty q - cl_ShortClosedQty res) (wd_ext w1) = (q2, d2)" by (metis surj_pair)
  then show ?thesis using r b c by (cases okr; cases ob) (simp_all add: closePosition_def Let_def)
qed

lemma close_idle:
  assumes "fst (resolveSymbols dp (wd_ext w) p)" and "at_rest s0 (op_pos p)" and "accepting dp"
    and "pos_State (op_pos p) \<in> {StateMonitoring, StateDegraded}"
    and "map_of (en_open en) (pos_ID (op_pos p)) = Some p"
    and "pos_LongBaseQty (op_pos p) = 0 \<or> pos_ShortBaseQty (op_pos p) = 0"
  shows "\<exists>en' w'. closePosition dp cfg p reason en w = Some (en', w') \<and> wd_venues w' = wd_venues w
     \<and> map_of (en_open en') (pos_ID (op_pos p)) = None"
proof -
  have idle: "\<not> 0 < min (pos_LongBaseQty q) (pos_ShortBaseQty q)" if "same_legs (op_pos p) q" for q
    using that assms(6) by (auto simp: same_legs_def)
  have "closePosition dp cfg p reason en w \<noteq> None"
    by (rule closePosition_some) (metis run_close_idle idle option.distinct(1))
  then obtain en' w' where c: "closePosition dp cfg p reason en w = Some (en', w')" by auto
  have "map_of (en_open en) (pos_ID (op_pos p)) \<noteq> None" using assms(5) by simp
  from c assms(1,2,4,3) refl this show ?thesis
  proof (rule closePosition_steps)
    fix p1 q d res err w1
    assume "run_close dp cfg (p1\<lparr>op_pos := q\<rparr>) (w\<lparr>wd_ext := d\<rparr>) = Some ((res, err), w1)"
      and q: "pos_ID q = pos_ID (op_pos p)" "pos_LongBaseQty q = pos_LongBaseQty (op_pos p)"
        "pos_ShortBaseQty q = pos_ShortBaseQty (op_pos p)" and "wd_venues w' = wd_venues w1"
      and "if err = None then map_of (en_open en') (pos_ID (op_pos p)) = None
        else \<exists>q'. map_of (en_open en') (pos_ID (op_pos p)) = Some (p1\<lparr>op_pos := q'\<rparr>) \<and> at_rest s0 q'
          \<and> pos_ID q' = pos_ID (op_pos p) \<and> pos_State q' = StateDegraded
          \<and> pos_LongBaseQty q' = pos_LongBaseQty q - cl_LongClosedQty res
          \<and> pos_ShortBaseQty q' = pos_ShortBaseQty q - cl_ShortClosedQty res
          \<and> last (trail q') = (if err = Some ErrCloseAmbiguous then StateReconciling else StateExiting, StateDegraded)"
    moreover from this have "\<not> 0 < min (pos_LongBaseQty q) (pos_ShortBaseQty q)" using idle [of q] by (simp add: same_legs_def)
    ultimately show ?thesis using c run_close_idle [of "p1\<lparr>op_pos := q\<rparr>" dp cfg "w\<lparr>wd_ext := d\<rparr>"] by simp
  qed
qed

text \<open>
  when one leg of a position is already empty, closing it sends no order, whatever is left
  on the other leg: the venues are as before, and yet the position goes to CLOSED and is forgotten, and the operator
  is told that it is closed.
\<close>

theorem close_abandons_a_leg:
  assumes "fst (resolveSymbols dp (wd_ext w) p)" and "at_rest s0 (op_pos p)" and "accepting dp"
    and "pos_State (op_pos p) \<in> {StateMonitoring, StateDegraded}"
    and "map_of (en_open en) (pos_ID (op_pos p)) = Some p"
    and "pos_LongBaseQty (op_pos p) = 0 \<or> pos_ShortBaseQty (op_pos p) = 0"
  shows "\<exists>en' w'. closePosition dp cfg p reason en w = Some (en', w') \<and> wd_venues w' = wd_venues w
     \<and> map_of (en_open en') (pos_ID (op_pos p)) = None"
  by (rule close_idle [OF assms])

section \<open>Requests are served\<close>

lemma finish_exit_frame:
  assumes "finish_exit dp p reason res err en w = (en', w')" and "j \<noteq> pos_ID (op_pos p)"
  shows "map_of (en_open en') j = map_of (en_open en) j \<and> en_closeReq en' j = en_closeReq en j"
proof -
  have id: "pos_ID q = pos_ID p0" if "transition_now dp p0 to r d = (okt, q, d')" for p0 to r d okt q d'
    using transition_now_legs [OF that] by (simp add: same_legs_def)
  show ?thesis
    using assms id
    by (auto simp: finish_exit_def Let_def notify_def open_store_op open_forget requests
        split: option.splits close_error.splits prod.splits if_splits)
qed

lemma set_quantities_id: "set_quantities_now dp p l s d = (q, d') \<Longrightarrow> pos_ID q = pos_ID p"
  by (auto simp: set_quantities_now_def SetQuantities_def split: prod.splits if_splits)

lemma closePosition_frame:
  assumes "closePosition dp cfg p reason en w = Some (en', w')" and "j \<noteq> pos_ID (op_pos p)"
  shows "map_of (en_open en') j = map_of (en_open en) j \<and> en_closeReq en' j = en_closeReq en j"
proof -
  obtain okr p1 where r: "resolveSymbols dp (wd_ext w) p = (okr, p1)" by (metis surj_pair)
  obtain ob q d where b: "begin_exit dp (op_pos p1) reason (wd_ext w) = (ob, q, d)" by (metis prod_cases3)
  have q: "pos_ID q = pos_ID (op_pos p)" using resolveSymbols_pos [OF r] begin_exit_legs [OF b] by (simp add: same_legs_def)
  show ?thesis
  proof (cases "okr \<and> ob")
    case False
    then show ?thesis
      using assms r b q by (cases okr) (auto simp: closePosition_def open_store_op requests)
  next
    case True
    then obtain res err w1 where run: "run_close dp cfg (p1\<lparr>op_pos := q\<rparr>) (w\<lparr>wd_ext := d\<rparr>) = Some ((res, err), w1)"
      using assms(1) r b by (auto simp: closePosition_def bind_eq_Some_conv)
    obtain q2 d2 where s: "set_quantities_now dp q (pos_LongBaseQty q - cl_LongClosedQty res)
        (pos_ShortBaseQty q - cl_ShortClosedQty res) (wd_ext w1) = (q2, d2)" by (metis surj_pair)
    have fin: "finish_exit dp (p1\<lparr>op_pos := q2\<rparr>) reason res err en
        (w1\<lparr>wd_ext := persistLegs dp (p1\<lparr>op_pos := q2\<rparr>) d2\<rparr>) = (en', w')"
      using assms(1) True r b run s by (simp add: closePosition_def Let_def)
    show ?thesis using finish_exit_frame [OF fin] set_quantities_id [OF s] q assms(2) by simp
  qed
qed

lemma notifyOnce_frame:
  "notifyOnce dp key sev n en w = (en', w') \<Longrightarrow> en_open en' = en_open en \<and> en_closeReq en' = en_closeReq en
     \<and> en_seq en' = en_seq en \<and> wd_venues w' = wd_venues w"
  by (auto simp: notifyOnce_def notify_def Let_def split: prod.splits if_splits)

lemma monitor_one_frame:
  assumes "monitor_one dp cfg p en w = Some (en', w')" and "j \<noteq> pos_ID (op_pos p)"
  shows "map_of (en_open en') j = map_of (en_open en) j \<and> en_closeReq en' j = en_closeReq en j"
proof -
  obtain en1 w1 where n: "notifyOnce dp (''degraded-'' @ pos_ID (op_pos p)) ''CRITICAL''
      (NoteDegradedPosition (pos_ID (op_pos p))) en w = (en1, w1)" by (metis surj_pair)
  note nf = notifyOnce_frame [OF n]
  have cl: "map_of (en_open en') j = map_of (en_open e) j \<and> en_closeReq en' j = en_closeReq e j"
    if "closePosition dp cfg p r e v = Some (en', w')" for r e v
    using closePosition_frame [OF that assms(2)] .
  show ?thesis
    using assms n nf cl by (auto simp: monitor_one_def Let_def open_forget requests split: if_splits option.splits)
qed

lemma monitor_loop_frame:
  "monitor_loop dp cfg ps en w = Some (en', w') \<Longrightarrow> j \<notin> (\<lambda>p. pos_ID (op_pos p)) ` set ps \<Longrightarrow>
     map_of (en_open en') j = map_of (en_open en) j \<and> en_closeReq en' j = en_closeReq en j"
proof (induction dp cfg ps en w rule: monitor_loop.induct)
  case (2 dp cfg p ps en w)
  then obtain en1 w1 where m: "monitor_one dp cfg p en w = Some (en1, w1)"
      "monitor_loop dp cfg ps en1 w1 = Some (en', w')" by (auto simp: bind_eq_Some_conv)
  show ?case using 2(1) [OF m(1) refl m(2)] monitor_one_frame [OF m(1)] 2(3) by auto
qed simp

text \<open>Each open position is filed under its own identifier, once.\<close>

definition filed :: "Engine \<Rightarrow> bool" where
  "filed en \<longleftrightarrow> distinct (map fst (en_open en)) \<and> (\<forall>(i, p) \<in> set (en_open en). pos_ID (op_pos p) = i)"

lemma filed_ids: "filed en \<Longrightarrow> map (\<lambda>p. pos_ID (op_pos p)) (map snd (en_open en)) = map fst (en_open en)"
  by (auto simp: filed_def)

definition served :: "Engine \<Rightarrow> PositionID \<Rightarrow> bool" where
  "served en i \<longleftrightarrow> en_closeReq en i = None
     \<and> (case map_of (en_open en) i of None \<Rightarrow> True | Some p \<Rightarrow> pos_State (op_pos p) = StateDegraded)"

text \<open>A position the engine can close: monitored or degraded, with its symbols.\<close>

definition closable :: "openPosition \<Rightarrow> bool" where
  "closable p \<longleftrightarrow> (\<exists>s0. at_rest s0 (op_pos p)) \<and> pos_State (op_pos p) \<in> {StateMonitoring, StateDegraded}
     \<and> op_longSym p \<noteq> [] \<and> op_shortSym p \<noteq> [] \<and> op_tickSize p \<noteq> 0"

lemma closePosition_served:
  assumes "closePosition dp cfg p reason en w = Some (en', w')" and "closable p" and "accepting dp"
    and "map_of (en_open en) (pos_ID (op_pos p)) = Some p"
  shows "served en' (pos_ID (op_pos p))"
proof -
  obtain s0 where c: "fst (resolveSymbols dp (wd_ext w) p)" "at_rest s0 (op_pos p)" "pos_State (op_pos p) \<in> {StateMonitoring, StateDegraded}"
    using assms(2) by (auto simp: closable_def resolveSymbols_def)
  have "map_of (en_open en) (pos_ID (op_pos p)) \<noteq> None" using assms(4) by simp
  from assms(1) c assms(3) refl this show ?thesis
    by (rule closePosition_steps) (auto simp: served_def split: if_splits)
qed

lemma monitor_one_served:
  assumes "monitor_one dp cfg p en w = Some (en', w')" and "closable p" and "accepting dp"
    and "map_of (en_open en) (pos_ID (op_pos p)) = Some p" and "en_closeReq en (pos_ID (op_pos p)) = Some reason"
  shows "served en' (pos_ID (op_pos p))"
proof (cases "pos_State (op_pos p) = StateMonitoring")
  case True
  then have "closePosition dp cfg p reason en w = Some (en', w')"
    using assms(1,5) by (simp add: monitor_one_def)
  then show ?thesis using closePosition_served assms(2-4) by blast
next
  case False
  obtain en1 w1 where n: "notifyOnce dp (''degraded-'' @ pos_ID (op_pos p)) ''CRITICAL''
      (NoteDegradedPosition (pos_ID (op_pos p))) en w = (en1, w1)" by (metis surj_pair)
  have "closePosition dp cfg p reason en1 w1 = Some (en', w')"
    using assms(1,2,5) False n notifyOnce_frame [OF n] by (auto simp: monitor_one_def closable_def Let_def)
  then show ?thesis using closePosition_served assms(2-4) notifyOnce_frame [OF n] by metis
qed

lemma monitor_loop_served:
  "monitor_loop dp cfg ps en w = Some (en', w') \<Longrightarrow> accepting dp \<Longrightarrow> p \<in> set ps \<Longrightarrow> closable p \<Longrightarrow>
   distinct (map (\<lambda>p. pos_ID (op_pos p)) ps) \<Longrightarrow> map_of (en_open en) (pos_ID (op_pos p)) = Some p \<Longrightarrow>
   en_closeReq en (pos_ID (op_pos p)) = Some reason \<Longrightarrow> served en' (pos_ID (op_pos p))"
proof (induction dp cfg ps en w rule: monitor_loop.induct)
  case (2 dp cfg q ps en w)
  then obtain en1 w1 where m: "monitor_one dp cfg q en w = Some (en1, w1)"
      "monitor_loop dp cfg ps en1 w1 = Some (en', w')" by (auto simp: bind_eq_Some_conv)
  show ?case
  proof (cases "pos_ID (op_pos q) = pos_ID (op_pos p)")
    case True
    then have "q = p" using 2(4,6) by auto
    then have "served en1 (pos_ID (op_pos p))" using monitor_one_served [of dp cfg p en w en1 w1] m 2 by blast
    moreover have "pos_ID (op_pos p) \<notin> (\<lambda>p. pos_ID (op_pos p)) ` set ps" using 2(6) True by auto
    ultimately show ?thesis using monitor_loop_frame [OF m(2)] by (simp add: served_def)
  next
    case False
    then have "p \<in> set ps" using 2(4) by auto
    then show ?thesis using 2(1) [OF m(1) refl m(2)] 2(3,5-8) monitor_one_frame [OF m(1), of "pos_ID (op_pos p)"] False by auto
  qed
qed simp

lemma closePosition_total:
  assumes "\<forall>ex. dp_Executors dp ex \<noteq> None"
  shows "closePosition dp cfg p reason en w \<noteq> None"
proof (rule closePosition_some)
  fix p1 w1
  show "run_close dp cfg p1 w1 \<noteq> None"
    using assms by (auto simp: run_close_def Let_def split: prod.splits)
qed

lemma monitor_one_total:
  assumes "\<forall>ex. dp_Executors dp ex \<noteq> None"
  shows "monitor_one dp cfg p en w \<noteq> None"
  using closePosition_total [OF assms] by (auto simp: monitor_one_def Let_def split: option.splits prod.splits)

lemma monitor_loop_total:
  "\<forall>ex. dp_Executors dp ex \<noteq> None \<Longrightarrow> monitor_loop dp cfg ps en w \<noteq> None"
proof (induction dp cfg ps en w rule: monitor_loop.induct)
  case (2 dp cfg p ps en w)
  obtain en1 w1 where m: "monitor_one dp cfg p en w = Some (en1, w1)"
    using monitor_one_total [OF 2(2)] by (metis not_None_eq surj_pair)
  then show ?case using 2(1) [OF m refl 2(2)] by simp
qed simp

text \<open>
  C23: with an executor for every exchange and a persister that accepts, one round of monitoring
  always returns, and it serves every request to close a monitored or degraded position whose symbols are known:
  afterwards the request is gone, and the position is forgotten or DEGRADED.
\<close>

theorem close_request_served:
  assumes "\<forall>ex. dp_Executors dp ex \<noteq> None" and "accepting dp" and "filed en"
    and "(i, p) \<in> set (en_open en)" and "closable p" and "en_closeReq en i = Some reason"
  shows "\<exists>en' w'. monitor dp cfg en w = Some (en', w') \<and> en_closeReq en' i = None
     \<and> (case map_of (en_open en') i of None \<Rightarrow> True | Some p' \<Rightarrow> pos_State (op_pos p') = StateDegraded)"
proof -
  obtain en' w' where m: "monitor dp cfg en w = Some (en', w')"
    using monitor_loop_total [OF assms(1)] unfolding monitor_def by (metis not_None_eq surj_pair)
  have i: "pos_ID (op_pos p) = i" using assms(3,4) by (auto simp: filed_def)
  have "map_of (en_open en) i = Some p" using assms(3,4) by (simp add: filed_def)
  moreover have "p \<in> set (map snd (en_open en))" using assms(4) by force
  moreover have "distinct (map (\<lambda>p. pos_ID (op_pos p)) (map snd (en_open en)))"
    using assms(3) unfolding filed_ids [OF assms(3)] by (simp add: filed_def)
  ultimately have "served en' i"
    using monitor_loop_served [OF m [unfolded monitor_def] assms(2)] assms(5,6) i by metis
  then show ?thesis using m by (auto simp: served_def)
qed

section \<open>Example\<close>

definition example_history :: "Transition list" where
  "example_history = map (\<lambda>(a, b). \<lparr>tr_From = a, tr_To = b, tr_At = 0, tr_Reason = [], tr_Actor = engine_actor\<rparr>)
     [(StateDiscovered, StateQualified), (StateQualified, StatePreparing), (StatePreparing, StateOpening),
      (StateOpening, StateHedged), (StateHedged, StateMonitoring)]"

text \<open>A position as opening leaves it, its two legs being given.\<close>

definition example_position :: "decimal \<Rightarrow> decimal \<Rightarrow> openPosition" where
  "example_position l s = \<lparr>op_pos = (NewPosition ''P0-1-BTC'' ''BTC'' ExchangeBybit ExchangeOKX 0)
      \<lparr>pos_State := StateMonitoring, pos_LongBaseQty := l, pos_ShortBaseQty := s, pos_History := example_history\<rparr>,
     op_longSym = ''BTCUSDT'', op_shortSym = ''BTCUSDT'', op_longEx = ExchangeBybit, op_shortEx = ExchangeOKX,
     op_asset = ''BTC'', op_tickSize = 1 / 10\<rparr>"

definition example_open_engine :: "openPosition \<Rightarrow> Engine" where
  "example_open_engine p = RequestClose ''P0-1-BTC'' [] (registerOpen ''P0-1-BTC'' p example_engine)"

lemma example_position_simps:
  "closable (example_position l s)" "pos_ID (op_pos (example_position l s)) = ''P0-1-BTC''"
  "pos_LongBaseQty (op_pos (example_position l s)) = l" "pos_ShortBaseQty (op_pos (example_position l s)) = s"
  "op_longEx (example_position l s) = ExchangeBybit" "op_shortEx (example_position l s) = ExchangeOKX"
  "en_open (example_open_engine p) = [(''P0-1-BTC'', p)]"
  "en_closeReq (example_open_engine p) ''P0-1-BTC'' = Some ''operator request''"
  by (simp_all add: example_position_def example_open_engine_def closable_def at_rest_def trail_def NewPosition_def
      example_history_def RequestClose_def registerOpen_def example_engine_def Engine_New_def)

lemma example_at_rest: "at_rest StateDiscovered (op_pos (example_position l s))"
  by (simp add: example_position_def at_rest_def trail_def NewPosition_def example_history_def)

lemma closable_simps:
  "closable p \<Longrightarrow> fst (resolveSymbols dp d p)"
  "closable p \<Longrightarrow> pos_State (op_pos p) \<in> {StateMonitoring, StateDegraded}"
  by (simp_all add: closable_def resolveSymbols_def)

lemma example_accepting: "accepting (example_deps A)"
  by (simp add: accepting_def example_deps_def)

theorem close_request_served_witness:
  "\<exists>en w. monitor (example_deps mock_adapter) example_engine_config (example_open_engine (example_position 1 1)) example_world
        = Some (en, w) \<and> en_closeReq en ''P0-1-BTC'' = None"
proof -
  let ?p = "example_position 1 1"
  have "\<forall>ex. dp_Executors (example_deps mock_adapter) ex \<noteq> None" by (simp add: example_deps_def)
  moreover have "filed (example_open_engine ?p)" by (simp add: filed_def example_position_simps)
  moreover have "(''P0-1-BTC'', ?p) \<in> set (en_open (example_open_engine ?p))" by (simp add: example_position_simps)
  ultimately show ?thesis
    using close_request_served [OF _ example_accepting _ _ example_position_simps(1) example_position_simps(8)] by blast
qed

theorem close_abandons_a_leg_witness:
  "\<exists>en w. closePosition (example_deps mock_adapter) example_engine_config (example_position 1 0) ''operator request''
        (example_open_engine (example_position 1 0)) example_world = Some (en, w)
     \<and> wd_venues w = wd_venues example_world \<and> map_of (en_open en) ''P0-1-BTC'' = None"
  using close_abandons_a_leg [OF closable_simps(1) [OF example_position_simps(1)] example_at_rest example_accepting
      closable_simps(2) [OF example_position_simps(1)], of "example_open_engine (example_position 1 0)" 1 0]
  by (simp add: example_position_simps)

theorem close_position_accounts_witness:
  "\<exists>en w. closePosition (example_deps mock_adapter) example_engine_config (example_position 1 1) ''operator request''
        (example_open_engine (example_position 1 1)) example_world = Some (en, w)
     \<and> en_closeReq en ''P0-1-BTC'' = None"
proof -
  let ?p = "example_position 1 1" and ?dp = "example_deps mock_adapter"
  have "\<forall>ex. dp_Executors ?dp ex \<noteq> None" by (simp add: example_deps_def)
  from closePosition_total [OF this] obtain en w where
    c: "closePosition ?dp example_engine_config ?p ''operator request'' (example_open_engine ?p) example_world = Some (en, w)"
    by (metis not_None_eq surj_pair)
  have m: "map_of (en_open (example_open_engine ?p)) (pos_ID (op_pos ?p)) = Some ?p" by (simp add: example_position_simps)
  have e: "dp_Executors ?dp (op_longEx ?p) = Some mock_adapter" "dp_Executors ?dp (op_shortEx ?p) = Some mock_adapter"
    by (simp_all add: example_deps_def)
  have v: "\<forall>ex. mock_candid (wd_venues example_world ex)" using example_venues_sane by simp
  have ne: "op_longEx ?p \<noteq> op_shortEx ?p" by (simp add: example_position_simps ExchangeBybit_def ExchangeOKX_def)
  have rq: "ec_MaxRequotes example_engine_config < int64_max" by (simp add: example_engine_config_def int64_max_def)
  have fr: "\<forall>k sd ex. mk_orders (wd_venues example_world ex) (exit_id ''P0-1-BTC'' sd k) = None"
    by (simp add: example_world_def example_venue_def SetServerTime_def SetFillRule_def Mock_New_def)
  have pos: "0 < min (pos_LongBaseQty (op_pos ?p)) (pos_ShortBaseQty (op_pos ?p))" by (simp add: example_position_simps)
  show ?thesis
    using close_position_accounts [OF c example_accepting closable_simps(1) [OF example_position_simps(1)]
        example_at_rest closable_simps(2) [OF example_position_simps(1)] m e
        mock_candid.candid_venue_axioms mock_candid.candid_venue_axioms v ne rq example_position_simps(2) fr refl refl pos refl refl] c
    by blast
qed

end
