(* ===== verification/Engine.thy ===== *)
theory Engine
  imports EngineExit
begin

text \<open>
  Package \<open>internal/engine\<close> (\<open>engine.go\<close>), the tick of the trading loop, and the life of the engine: ticks,
  requests to close, and anything the environment does to the venues and the rest of the world in between.
\<close>

definition Tick ::
  "('v, 'd) Deps \<Rightarrow> EngineConfig \<Rightarrow> Engine \<Rightarrow> ('v, 'd) world \<Rightarrow> (Engine \<times> ('v, 'd) world) option" where
  "Tick dp cfg en w =
     (case dp_Halter dp (wd_ext w) of
        (True, reason) \<Rightarrow> Some (notifyOnce dp ''engine_halted'' ''WARN'' (NoteHalted reason) en w)
      | (False, _) \<Rightarrow> do { (en', w') \<leftarrow> monitor dp cfg en w; tryOpen dp cfg en' w' })"

inductive engine_step ::
  "('v, 'd) Deps \<Rightarrow> EngineConfig \<Rightarrow> Engine \<times> ('v, 'd) world \<Rightarrow> Engine \<times> ('v, 'd) world \<Rightarrow> bool"
  for dp cfg where
  tick: "Tick dp cfg en w = Some (en', w') \<Longrightarrow> engine_step dp cfg (en, w) (en', w')"
| request: "engine_step dp cfg (en, w) (RequestClose i reason en, w)"
| reorder: "mset (en_open en) = mset kvs \<Longrightarrow> engine_step dp cfg (en, w) (en\<lparr>en_open := kvs\<rparr>, w)"
| environment: "engine_step dp cfg (en, w) (en, w')"

inductive_cases engine_stepE: "engine_step dp cfg (en, w) st"

section \<open>Positions nobody looks at\<close>

definition ignored :: "PState \<Rightarrow> bool" where
  "ignored s \<longleftrightarrow> s \<noteq> StateMonitoring \<and> s \<noteq> StateDegraded \<and> \<not> PState_IsTerminal s"

lemma monitor_loop_ignored:
  "\<forall>p \<in> set ps. ignored (pos_State (op_pos p)) \<Longrightarrow> monitor_loop dp cfg ps en w = Some (en, w)"
  by (induction ps) (auto simp: monitor_one_def ignored_def Let_def)

lemma Tick_stuck:
  assumes "\<forall>(i, p) \<in> set (en_open en). ignored (pos_State (op_pos p))"
    and "ec_MaxOpenPositions cfg \<le> int (OpenCount en)"
  shows "\<exists>en' w'. Tick dp cfg en w = Some (en', w') \<and> en_open en' = en_open en \<and> wd_venues w' = wd_venues w"
proof (cases "dp_Halter dp (wd_ext w)")
  case (Pair halted reason)
  have m: "monitor dp cfg en w = Some (en, w)"
    unfolding monitor_def by (rule monitor_loop_ignored) (use assms(1) in auto)
  obtain en1 w1 where n: "notifyOnce dp ''engine_halted'' ''WARN'' (NoteHalted reason) en w = (en1, w1)" by (metis surj_pair)
  show ?thesis
    using Pair m n notifyOnce_frame [OF n] assms(2)
    by (cases halted) (auto simp: Tick_def tryOpen_def)
qed

definition stuck :: "EngineConfig \<Rightarrow> Engine \<Rightarrow> bool" where
  "stuck cfg en \<longleftrightarrow> (\<forall>(i, p) \<in> set (en_open en). ignored (pos_State (op_pos p)))
     \<and> ec_MaxOpenPositions cfg \<le> int (OpenCount en)"

lemma stuck_cong:
  assumes "stuck cfg en" and "mset (en_open en') = mset (en_open en)"
  shows "stuck cfg en'"
  using assms mset_eq_setD [OF assms(2)] mset_eq_length [OF assms(2)] by (auto simp: stuck_def OpenCount_def)

lemma stuck_step:
  assumes "engine_step dp cfg (en, w) (en', w')" and "stuck cfg en"
  shows "mset (en_open en') = mset (en_open en)"
  using assms(1)
proof (cases rule: engine_step.cases)
  case tick
  then show ?thesis using Tick_stuck [of en cfg dp w] assms(2) by (auto simp: stuck_def)
qed (auto simp: RequestClose_def)

lemma stuck_run:
  assumes "(engine_step dp cfg)\<^sup>*\<^sup>* (en, w) (en', w')" and "stuck cfg en"
  shows "stuck cfg en' \<and> mset (en_open en') = mset (en_open en)"
  using assms(1)
proof (induction rule: rtranclp_induct2)
  case refl
  then show ?case using assms(2) by simp
next
  case (step en1 w1 en2 w2)
  then have "mset (en_open en2) = mset (en_open en1)" using stuck_step by blast
  then show ?case using step.IH stuck_cong [of cfg en1 en2] by simp
qed

text \<open>
  monitoring looks at MONITORING and DEGRADED positions only.  When the engine
  starts with as many positions as it may open in other states, as a restart in the middle of an exit restores them, then
  in every later state, whatever is requested and whatever the environment does, the open positions are the same ones
  in the same states, and every tick returns without touching a venue.
\<close>

theorem restored_positions_block:
  assumes "\<forall>(i, p) \<in> set (en_open en). ignored (pos_State (op_pos p))"
    and "ec_MaxOpenPositions cfg \<le> int (OpenCount en)" and "(engine_step dp cfg)\<^sup>*\<^sup>* (en, w) (en', w')"
  shows "mset (en_open en') = mset (en_open en)
     \<and> (\<exists>en2 w2. Tick dp cfg en' w' = Some (en2, w2) \<and> en_open en2 = en_open en' \<and> wd_venues w2 = wd_venues w')"
proof -
  have "stuck cfg en" using assms(1,2) by (simp add: stuck_def)
  then have "stuck cfg en'" "mset (en_open en') = mset (en_open en)" using stuck_run [OF assms(3)] by blast+
  then show ?thesis using Tick_stuck [of en' cfg dp w'] by (auto simp: stuck_def)
qed

definition example_exiting :: Position where
  "example_exiting = (op_pos (example_position 1 1))\<lparr>pos_State := StateExiting\<rparr>"

theorem restored_positions_block_witness:
  "\<exists>en d en'. Restore ((example_deps mock_adapter)\<lparr>dp_Positions := Some (\<lambda>_ d. (Inr [example_exiting, example_exiting\<lparr>pos_ID := ''P2''\<rparr>], d))\<rparr>)
       example_engine 0 = (None, en, d)
     \<and> (engine_step (example_deps mock_adapter) example_engine_config)\<^sup>*\<^sup>* (en, example_world)
          (RequestClose ''P2'' [] en, example_world)
     \<and> mset (en_open (RequestClose ''P2'' [] en)) = mset (en_open en)"
proof -
  let ?dp = "(example_deps mock_adapter)\<lparr>dp_Positions := Some (\<lambda>_ d. (Inr [example_exiting, example_exiting\<lparr>pos_ID := ''P2''\<rparr>], d))\<rparr>"
  obtain err en d where r: "Restore ?dp example_engine 0 = (err, en, d)" by (metis prod_cases3)
  have e: "err = None" "\<forall>(i, p) \<in> set (en_open en). ignored (pos_State (op_pos p))" "OpenCount en = 2"
    using r by (auto simp: Restore_def restore_one_def example_deps_def example_exiting_def example_position_def
        NewPosition_def registerOpen_def example_engine_def Engine_New_def ignored_def PState_IsTerminal_def
        OpenCount_def Let_def resolveSymbols_def split: if_splits option.splits prod.splits)
  have run: "(engine_step (example_deps mock_adapter) example_engine_config)\<^sup>*\<^sup>* (en, example_world)
      (RequestClose ''P2'' [] en, example_world)"
    by (rule r_into_rtranclp) (rule engine_step.request)
  show ?thesis
    using restored_positions_block [OF e(2) _ run] e(1,3) r run by (auto simp: example_engine_config_def)
qed

section \<open>The invariant of the engine\<close>

definition op_ok :: "EngineConfig \<Rightarrow> openPosition \<Rightarrow> bool" where
  "op_ok cfg p \<longleftrightarrow> at_rest StateDiscovered (op_pos p) \<and> \<not> PState_IsTerminal (pos_State (op_pos p)) \<and> op_longEx p \<noteq> op_shortEx p
     \<and> (pos_State (op_pos p) = StateMonitoring \<longrightarrow>
          \<bar>pos_LongBaseQty (op_pos p) - pos_ShortBaseQty (op_pos p)\<bar> \<le> ec_DeltaToleranceBase cfg)"

definition engine_ok :: "EngineConfig \<Rightarrow> Engine \<Rightarrow> bool" where
  "engine_ok cfg en \<longleftrightarrow> filed en \<and> int (OpenCount en) \<le> ec_MaxOpenPositions cfg
     \<and> distinct (map (\<lambda>(i, p). op_asset p) (en_open en)) \<and> (\<forall>(i, p) \<in> set (en_open en). op_ok cfg p)"

text \<open>Three ways an operation changes the open positions: not at all, one of them in place, one less.\<close>

lemma engine_ok_cong: "en_open en' = en_open en \<Longrightarrow> engine_ok cfg en \<Longrightarrow> engine_ok cfg en'"
  by (simp add: engine_ok_def filed_def OpenCount_def)

lemma store_list:
  assumes "\<forall>(k, x) \<in> set xs. k = i \<longrightarrow> f p = f x"
  shows "map (\<lambda>(k, x). f x) (map (\<lambda>(k, x). (k, if k = i then p else x)) xs) = map (\<lambda>(k, x). f x) xs"
  using assms by (induction xs) auto

lemma delete_stored: "AList.delete i (map (\<lambda>(k, x). (k, if k = i then p else x)) xs) = AList.delete i xs"
  by (induction xs) (auto simp: AList.delete_eq)

lemma engine_ok_store:
  assumes "engine_ok cfg en" and "map_of (en_open en) i = Some x" and "pos_ID (op_pos p) = i"
    and "op_asset p = op_asset x" and "op_ok cfg p"
  shows "engine_ok cfg (store_op p en)"
proof -
  let ?xs = "en_open en"
  have fst: "map fst (en_open (store_op p en)) = map fst ?xs" by (auto simp: store_op_def)
  have dist: "distinct (map fst ?xs)" using assms(1) by (simp add: engine_ok_def filed_def)
  have same: "\<forall>(k, y) \<in> set ?xs. k = i \<longrightarrow> op_asset p = op_asset y"
    using assms(2,4) map_of_is_SomeI [OF dist] by fastforce
  have assets: "map (\<lambda>(k, x). op_asset x) (en_open (store_op p en)) = map (\<lambda>(k, x). op_asset x) ?xs"
    using store_list [OF same] assms(3) by (simp add: store_op_def)
  have "filed (store_op p en)"
    unfolding filed_def fst using dist assms(1,3) by (auto simp: engine_ok_def filed_def store_op_def)
  moreover have "\<forall>(k, y) \<in> set (en_open (store_op p en)). op_ok cfg y"
    using assms(1,5) by (auto simp: engine_ok_def store_op_def)
  moreover have "OpenCount (store_op p en) = OpenCount en" by (simp add: OpenCount_def store_op_def)
  ultimately show ?thesis using assms(1) unfolding engine_ok_def assets by simp
qed

lemma engine_ok_forget:
  assumes "engine_ok cfg en"
  shows "engine_ok cfg (forget i en)"
proof -
  let ?ys = "filter (\<lambda>(k, x). k \<noteq> i) (en_open en)"
  have "en_open (forget i en) = ?ys"
    by (auto simp: forget_def AList.delete_eq intro: filter_cong)
  moreover have "distinct (map fst ?ys)" "distinct (map (\<lambda>(k, x). op_asset x) ?ys)"
    by (rule distinct_map_filter, use assms in \<open>simp add: engine_ok_def filed_def\<close>)+
  moreover have "int (length ?ys) \<le> ec_MaxOpenPositions cfg"
  proof -
    have "int (length ?ys) \<le> int (length (en_open en))" by (simp add: length_filter_le)
    also have "\<dots> \<le> ec_MaxOpenPositions cfg" using assms by (simp add: engine_ok_def OpenCount_def)
    finally show ?thesis .
  qed
  ultimately show ?thesis
    using assms unfolding engine_ok_def filed_def OpenCount_def by auto
qed

section \<open>Monitoring keeps it\<close>

lemma finish_exit_keeps:
  assumes "finish_exit dp p reason res err en w = (en', w')" and "engine_ok cfg en" and "at_rest StateDiscovered (op_pos p)"
    and "pos_State (op_pos p) = StateExiting" and "op_longEx p \<noteq> op_shortEx p"
    and "map_of (en_open en) (pos_ID (op_pos p)) = Some x" and "op_asset p = op_asset x"
  shows "engine_ok cfg en'"
proof -
  have t: "at_rest StateDiscovered q' \<and> pos_ID q' = pos_ID q \<and> pos_State q' = (if b then to else pos_State q)"
    if "transition_now dp q to r d = (b, q', d')" "at_rest StateDiscovered q" for q q' to r d b d'
    using transition_now_at_rest [OF that] by simp
  have st: "engine_ok cfg (store_op (p\<lparr>op_pos := q\<rparr>) en)"
    if "at_rest StateDiscovered q" "pos_ID q = pos_ID (op_pos p)" "pos_State q \<in> {StateExiting, StateReconciling, StateDegraded}" for q
    using engine_ok_store [OF assms(2,6), of "p\<lparr>op_pos := q\<rparr>"] that assms(5,7)
    by (auto simp: op_ok_def PState_IsTerminal_def)
  have cl: "engine_ok cfg (clear_request i e) = engine_ok cfg e" for i e
    by (simp add: engine_ok_def filed_def OpenCount_def)
  show ?thesis
  proof (cases err)
    case None
    obtain o1 p1 d1 where a: "transition_now dp (op_pos p) StateReconciling ''close complete, verifying'' (wd_ext w) = (o1, p1, d1)"
      by (metis prod_cases3)
    obtain o2 p2 d2 where b: "transition_now dp p1 StateClosed reason d1 = (o2, p2, d2)" by (metis prod_cases3)
    note ra = t [OF a assms(3)]
    note rb = t [OF b conjunct1 [OF ra]]
    show ?thesis
    proof (cases o2)
      case True
      have "forget i (store_op q e) = forget i e" if "pos_ID (op_pos q) = i" for i q and e :: Engine
        using that by (simp add: forget_def store_op_def delete_stored)
      moreover have "en' = clear_request (pos_ID (op_pos p)) (forget (pos_ID (op_pos p)) (store_op (p\<lparr>op_pos := p2\<rparr>) en))"
        using assms(1) None a b True by (simp add: finish_exit_def Let_def)
      ultimately show ?thesis using ra rb engine_ok_forget [OF assms(2)] cl by simp
    next
      case False
      then have "en' = store_op (p\<lparr>op_pos := p2\<rparr>) en" using assms(1) None a b by (simp add: finish_exit_def Let_def)
      then show ?thesis using st [of p2] ra rb False assms(4) by (auto split: if_splits)
    qed
  next
    case (Some e)
    show ?thesis
    proof (cases e)
      case ErrCloseAmbiguous
      obtain o1 p1 d1 where a: "transition_now dp (op_pos p) StateReconciling (cl_Reason res) (wd_ext w) = (o1, p1, d1)"
        by (metis prod_cases3)
      obtain o2 p2 d2 where b: "transition_now dp p1 StateDegraded ''ambiguous close: manual reconciliation required'' d1 = (o2, p2, d2)"
        by (metis prod_cases3)
      note ra = t [OF a assms(3)]
      note rb = t [OF b conjunct1 [OF ra]]
      have "en' = clear_request (pos_ID (op_pos p)) (store_op (p\<lparr>op_pos := p2\<rparr>) en)"
        using assms(1) Some ErrCloseAmbiguous a b by (simp add: finish_exit_def Let_def)
      then show ?thesis using st [of p2] ra rb assms(4) cl by (auto split: if_splits)
    next
      case ErrCloseIncomplete
      obtain o1 p1 d1 where a: "transition_now dp (op_pos p) StateDegraded (cl_Reason res) (wd_ext w) = (o1, p1, d1)"
        by (metis prod_cases3)
      have "en' = clear_request (pos_ID (op_pos p)) (store_op (p\<lparr>op_pos := p1\<rparr>) en)"
        using assms(1) Some ErrCloseIncomplete a by (simp add: finish_exit_def Let_def)
      then show ?thesis using st [of p1] t [OF a assms(3)] assms(4) cl by (auto split: if_splits)
    qed
  qed
qed

lemma begin_exit_at_rest:
  assumes "begin_exit dp p reason d = (okx, q, d')" and "at_rest StateDiscovered p"
  shows "at_rest StateDiscovered q \<and> (if okx then pos_State q = StateExiting else pos_State q = pos_State p \<or> pos_State q = StateExitRequested)"
proof -
  obtain now d1 where c: "dp_Clock dp d = (now, d1)" by (metis surj_pair)
  obtain o1 p1 d2 where t1: "(if pos_State p \<noteq> StateExitRequested then transition_at dp p StateExitRequested now reason d1
      else (True, p, d1)) = (o1, p1, d2)" by (metis prod_cases3)
  have r1: "at_rest StateDiscovered p1 \<and> pos_State p1 = (if o1 then StateExitRequested else pos_State p)"
    using t1 assms(2) transition_at_at_rest [of dp p StateExitRequested now reason d1 o1 p1 d2] by (auto split: if_splits)
  obtain o2 p2 d3 where t2: "transition_at dp p1 StateExiting now reason d2 = (o2, p2, d3)" by (metis prod_cases3)
  note r2 = transition_at_at_rest [OF t2 conjunct1 [OF r1]]
  have "(okx, q) = (if \<not> o1 then (False, p1) else (o2, p2))"
    using assms(1) c t1 t2 by (auto simp: begin_exit_def split: if_splits)
  then show ?thesis using r1 r2 by (auto split: if_splits)
qed

lemma closePosition_keeps:
  assumes "closePosition dp cfg p reason en w = Some (en', w')" and "engine_ok cfg en"
    and "map_of (en_open en) (pos_ID (op_pos p)) = Some p"
  shows "engine_ok cfg en'"
proof -
  have okp: "op_ok cfg p" using assms(2) map_of_SomeD [OF assms(3)] by (auto simp: engine_ok_def)
  obtain okr p1 where r: "resolveSymbols dp (wd_ext w) p = (okr, p1)" by (metis surj_pair)
  obtain ob q d where b: "begin_exit dp (op_pos p1) reason (wd_ext w) = (ob, q, d)" by (metis prod_cases3)
  note rs = resolveSymbols_pos [OF r]
  have rest: "at_rest StateDiscovered (op_pos p1)" using okp rs by (simp add: op_ok_def)
  note rb = begin_exit_at_rest [OF b rest] begin_exit_legs [OF b]
  show ?thesis
  proof (cases "okr \<and> ob")
    case False
    have "op_ok cfg (p1\<lparr>op_pos := q\<rparr>)" if "\<not> ob"
      using that rb okp rs by (auto simp: op_ok_def same_legs_def PState_IsTerminal_def)
    then have "\<not> ob \<Longrightarrow> engine_ok cfg (store_op (p1\<lparr>op_pos := q\<rparr>) en)"
      using engine_ok_store [OF assms(2,3), of "p1\<lparr>op_pos := q\<rparr>"] rs rb by (simp add: same_legs_def)
    then show ?thesis using assms(1,2) r b False by (cases okr) (auto simp: closePosition_def)
  next
    case True
    then obtain res err w1 where run: "run_close dp cfg (p1\<lparr>op_pos := q\<rparr>) (w\<lparr>wd_ext := d\<rparr>) = Some ((res, err), w1)"
      using assms(1) r b by (auto simp: closePosition_def bind_eq_Some_conv)
    obtain q2 d2 where s: "set_quantities_now dp q (pos_LongBaseQty q - cl_LongClosedQty res)
        (pos_ShortBaseQty q - cl_ShortClosedQty res) (wd_ext w1) = (q2, d2)" by (metis surj_pair)
    have fin: "finish_exit dp (p1\<lparr>op_pos := q2\<rparr>) reason res err en
        (w1\<lparr>wd_ext := persistLegs dp (p1\<lparr>op_pos := q2\<rparr>) d2\<rparr>) = (en', w')"
      using assms(1) True r b run s by (simp add: closePosition_def Let_def)
    have q2: "at_rest StateDiscovered q2" "pos_State q2 = StateExiting" "pos_ID q2 = pos_ID (op_pos p)"
      using set_quantities_at_rest [OF s] rb rs True by (auto simp: PState_IsTerminal_def same_legs_def)
    show ?thesis
      by (rule finish_exit_keeps [OF fin assms(2), of p]) (use q2 rs okp assms(3) in \<open>simp_all add: op_ok_def\<close>)
  qed
qed

lemma monitor_one_keeps:
  assumes "monitor_one dp cfg p en w = Some (en', w')" and "engine_ok cfg en"
    and "map_of (en_open en) (pos_ID (op_pos p)) = Some p"
  shows "engine_ok cfg en'"
proof -
  obtain en1 w1 where n: "notifyOnce dp (''degraded-'' @ pos_ID (op_pos p)) ''CRITICAL''
      (NoteDegradedPosition (pos_ID (op_pos p))) en w = (en1, w1)" by (metis surj_pair)
  have n1: "engine_ok cfg en1" "map_of (en_open en1) (pos_ID (op_pos p)) = Some p"
    using notifyOnce_frame [OF n] assms(2,3) engine_ok_cong [of en1 en] by simp_all
  show ?thesis
    using assms(1,2) n n1 closePosition_keeps [OF _ assms(2,3)] closePosition_keeps [OF _ n1] engine_ok_forget
    by (auto simp: monitor_one_def Let_def split: if_splits option.splits)
qed

lemma monitor_loop_keeps:
  "monitor_loop dp cfg ps en w = Some (en', w') \<Longrightarrow> engine_ok cfg en \<Longrightarrow>
   distinct (map (\<lambda>p. pos_ID (op_pos p)) ps) \<Longrightarrow> \<forall>p \<in> set ps. map_of (en_open en) (pos_ID (op_pos p)) = Some p \<Longrightarrow>
   engine_ok cfg en'"
proof (induction dp cfg ps en w rule: monitor_loop.induct)
  case (2 dp cfg p ps en w)
  then obtain en1 w1 where m: "monitor_one dp cfg p en w = Some (en1, w1)"
      "monitor_loop dp cfg ps en1 w1 = Some (en', w')" by (auto simp: bind_eq_Some_conv)
  have "\<forall>q \<in> set ps. map_of (en_open en1) (pos_ID (op_pos q)) = Some q"
  proof
    fix q assume q: "q \<in> set ps"
    then have "pos_ID (op_pos q) \<noteq> pos_ID (op_pos p)" using 2(4) by (auto simp: image_iff)
    then show "map_of (en_open en1) (pos_ID (op_pos q)) = Some q"
      using monitor_one_frame [OF m(1)] 2(5) q by simp
  qed
  moreover have "engine_ok cfg en1" using monitor_one_keeps [OF m(1) 2(3)] 2(5) by simp
  moreover have "distinct (map (\<lambda>p. pos_ID (op_pos p)) ps)" using 2(4) by simp
  ultimately show ?case using 2(1) [OF m(1) refl m(2)] by blast
qed simp

lemma monitor_keeps:
  assumes "monitor dp cfg en w = Some (en', w')" and "engine_ok cfg en"
  shows "engine_ok cfg en'"
proof (rule monitor_loop_keeps [OF assms(1) [unfolded monitor_def] assms(2)])
  have f: "filed en" using assms(2) by (simp add: engine_ok_def)
  then show "distinct (map (\<lambda>p. pos_ID (op_pos p)) (map snd (en_open en)))"
    unfolding filed_ids [OF f] by (simp add: filed_def)
  show "\<forall>p \<in> set (map snd (en_open en)). map_of (en_open en) (pos_ID (op_pos p)) = Some p"
    using f by (auto simp: filed_def intro!: map_of_is_SomeI)
qed

section \<open>Opening keeps it\<close>

abbreviation entered_states :: "PState set" where
  "entered_states \<equiv> {StateMonitoring, StateDegraded, StatePartiallyHedged, StateOpening}"

lemma enter_open_result:
  assumes "enter_open dp cfg i p qty en w = (en', w')" and "at_rest StateDiscovered (op_pos p)" and "pos_State (op_pos p) = StateOpening"
  shows "en' = en \<or> (\<exists>l s. registered cfg i p l s entered_states en en')"
proof (cases "Cache_Get (dp_Cache dp (wd_ext w) 0) (op_longEx p) (op_asset p) = None
      \<or> Cache_Get (dp_Cache dp (wd_ext w) 0) (op_shortEx p) (op_asset p) = None")
  case True
  then show ?thesis using assms(1) by (auto simp: enter_open_def split: option.splits prod.splits)
next
  case False
  then obtain ls ss where snaps: "Cache_Get (dp_Cache dp (wd_ext w) 0) (op_longEx p) (op_asset p) = Some ls"
      "Cache_Get (dp_Cache dp (wd_ext w) 0) (op_shortEx p) (op_asset p) = Some ss" by auto
  define lp where "lp = snap_BestAsk ls + Dec_MulInt (op_tickSize p) (ec_ProtectionTicks cfg)"
  define sp where "sp = snap_BestBid ss - Dec_MulInt (op_tickSize p) (ec_ProtectionTicks cfg)"
  obtain l s w1 where legs: "placeEntryLegs dp i p qty lp sp w = ((l, s), w1)" by (metis surj_pair)
  define w2 where "w2 = w1\<lparr>wd_ext := recordEntryOrders dp i p l s (wd_ext w1)\<rparr>"
  obtain o1 q1 d1 where t: "transition_now dp (op_pos p) StateDegraded ''entry leg state unknown (ack+query timeout)''
      (wd_ext w1) = (o1, q1, d1)" by (metis prod_cases3)
  have run: "enter_open dp cfg i p qty en w =
      (if le_ambiguous l \<or> le_ambiguous s
       then register_with dp i (p\<lparr>op_pos := q1\<rparr>) ''CRITICAL'' (NoteAmbiguousEntry i) en (w1\<lparr>wd_ext := d1\<rparr>)
       else if le_filled l = 0 \<and> le_filled s = 0
       then (let (_, _, d3) = transition_now dp (op_pos p) StateFailed ''no fills on entry'' (wd_ext w2)
             in (en, w2\<lparr>wd_ext := d3\<rparr>))
       else hedge_open dp cfg i p (le_filled l) (le_filled s) lp sp en w2)"
    by (simp only: enter_open_def snaps prod.case option.case legs Let_def lp_def [symmetric] sp_def [symmetric] t w2_def)
  note run = run [unfolded assms(1)]
  show ?thesis
  proof (cases "le_ambiguous l \<or> le_ambiguous s")
    case True
    then have "en' = registerOpen i (p\<lparr>op_pos := q1\<rparr>) en" using run by (simp add: register_with_def)
    moreover have "registered cfg i p (pos_LongBaseQty q1) (pos_ShortBaseQty q1) entered_states en (registerOpen i (p\<lparr>op_pos := q1\<rparr>) en)"
      unfolding registered_def using transition_now_at_rest [OF t assms(2)] assms(3) by (intro exI [of _ q1]) auto
    ultimately show ?thesis by blast
  next
    case F: False
    note run = run [unfolded if_not_P [OF F]]
    show ?thesis
    proof (cases "le_filled l = 0 \<and> le_filled s = 0")
      case True
      then show ?thesis using run by (auto split: prod.splits)
    next
      case False
      have h: "hedge_open dp cfg i p (le_filled l) (le_filled s) lp sp en w2 = (en', w')"
        using run unfolding if_not_P [OF False] by simp
      from h assms(2,3) refl show ?thesis
      proof (cases rule: hedge_open_result)
        case lost
        then show ?thesis by simp
      next
        case even
        then show ?thesis using registered_mono [OF even(3), of entered_states] by blast
      next
        case (repaired w4 w5 long short)
        have "registered cfg i p long short entered_states en en'"
          by (rule registered_mono [OF repaired(5)]) auto
        then show ?thesis by blast
      qed
    qed
  qed
qed

text \<open>The open positions after an opening: as before, or with one more of the candidate's asset.\<close>

lemma openPosition_run_result:
  assumes "openPosition_run dp cfg cand en w = Some (en', w')" and "cd_LongExchange cand \<noteq> cd_ShortExchange cand"
  shows "en_closeReq en' = en_closeReq en \<and> (en_open en' = en_open en
     \<or> (\<exists>i p. en_open en' = AList.update i p (en_open en) \<and> pos_ID (op_pos p) = i
          \<and> op_asset p = cd_Asset cand \<and> op_ok cfg p))"
proof -
  obtain now d0 where clk: "dp_Clock dp (wd_ext w) = (now, d0)" by (metis surj_pair)
  from assms(1) clk show ?thesis
  proof (cases rule: openPosition_run_cases)
    case (entered p p1 w1 qty rest step)
    let ?i = "position_id now (i64 (en_seq en + 1)) (cd_Asset cand)"
    obtain q where q: "p1 = p\<lparr>op_pos := q\<rparr>" "at_rest StateDiscovered q" "pos_State q = StateOpening" "pos_ID q = ?i"
      using prepare_open_result [OF entered(8,6)] entered(7) by auto
    have "en' = en\<lparr>en_seq := i64 (en_seq en + 1)\<rparr>
        \<or> (\<exists>l s. registered cfg ?i p1 l s entered_states (en\<lparr>en_seq := i64 (en_seq en + 1)\<rparr>) en')"
      using enter_open_result [OF entered(9)] q by simp
    then show ?thesis
    proof
      assume "\<exists>l s. registered cfg ?i p1 l s entered_states (en\<lparr>en_seq := i64 (en_seq en + 1)\<rparr>) en'"
      then obtain l s q' where r: "en' = registerOpen ?i (p1\<lparr>op_pos := q'\<rparr>) (en\<lparr>en_seq := i64 (en_seq en + 1)\<rparr>)"
          "at_rest StateDiscovered q'" "pos_ID q' = ?i" "pos_LongBaseQty q' = l" "pos_ShortBaseQty q' = s" "pos_State q' \<in> entered_states"
          "pos_State q' = StateMonitoring \<longrightarrow> \<bar>l - s\<bar> \<le> ec_DeltaToleranceBase cfg"
        unfolding registered_def using q(1,4) by auto
      have "op_ok cfg (p1\<lparr>op_pos := q'\<rparr>)"
        using r(2-7) assms(2) entered(3,4) q(1) by (auto simp: op_ok_def PState_IsTerminal_def)
      then show ?thesis
        using r(1,3) entered(5) q(1)
        by (auto simp: registerOpen_def intro!: exI [of _ ?i] exI [of _ "p1\<lparr>op_pos := q'\<rparr>"])
    qed auto
  qed auto
qed

lemma update_entries: "set (AList.update i p xs) \<subseteq> insert (i, p) (set xs)"
  by (induction xs) auto

lemma update_assets:
  "\<forall>(k, x) \<in> set xs. op_asset x \<noteq> op_asset p \<Longrightarrow> distinct (map (\<lambda>(k, x). op_asset x) xs) \<Longrightarrow>
     distinct (map (\<lambda>(k, x). op_asset x) (AList.update i p xs))"
proof (induction xs)
  case (Cons y ys)
  have "op_asset (snd y) \<noteq> op_asset (snd z)" if "z \<in> set (AList.update i p ys)" for z
  proof -
    have "z = (i, p) \<or> z \<in> set ys" using update_entries that by fast
    then show ?thesis using Cons.prems by (auto simp: split_def)
  qed
  then show ?case using Cons by (auto simp: split_def image_iff)
qed simp

lemma update_length: "length (AList.update i p xs) \<le> Suc (length xs)"
  by (induction xs) auto

lemma engine_ok_update:
  assumes "engine_ok cfg en" and "int (OpenCount en) < ec_MaxOpenPositions cfg" and "op_ok cfg p"
    and "pos_ID (op_pos p) = i" and "\<forall>(k, x) \<in> set (en_open en). op_asset x \<noteq> op_asset p"
    and "en_open en' = AList.update i p (en_open en)"
  shows "engine_ok cfg en'"
proof -
  have "filed en'"
    using assms(1,4,6) update_entries [of i p "en_open en"] AList.distinct_update [of "en_open en" i p]
    by (auto simp: engine_ok_def filed_def)
  moreover have "int (OpenCount en') \<le> ec_MaxOpenPositions cfg"
    using assms(2,6) update_length [of i p "en_open en"] by (simp add: OpenCount_def)
  moreover have "distinct (map (\<lambda>(k, x). op_asset x) (en_open en'))"
    using update_assets [OF assms(5)] assms(1,6) by (simp add: engine_ok_def)
  moreover have "\<forall>(k, x) \<in> set (en_open en'). op_ok cfg x"
    using assms(1,3,6) update_entries [of i p "en_open en"] by (auto simp: engine_ok_def)
  ultimately show ?thesis by (simp add: engine_ok_def)
qed

text \<open>The candidate an opening uses: scanned, eligible, of an asset without a position.\<close>

lemma pickCandidate_Some:
  assumes "pickCandidate en cands = Some c"
  shows "c \<in> set cands \<and> cd_Eligible c \<and> (\<forall>(i, p) \<in> set (en_open en). op_asset p \<noteq> cd_Asset c)"
  using assms by (auto simp: pickCandidate_def find_Some_iff)

lemma tryOpen_cases:
  assumes "tryOpen dp cfg en w = Some (en', w')"
  obtains
    (idle) "en_open en' = en_open en" "en_closeReq en' = en_closeReq en" "wd_venues w' = wd_venues w"
  | (opened) cands c now d where "dp_Clock dp (wd_ext w) = (now, d)"
      "Scan (dp_Dec dp) (dp_Scanner dp d) (ec_Scan cfg) now = Some cands"
      "c \<in> set cands" "cd_Eligible c" "\<forall>(i, p) \<in> set (en_open en). op_asset p \<noteq> cd_Asset c"
      "ec_OrdersEnabled cfg" "int (OpenCount en) < ec_MaxOpenPositions cfg"
      "openPosition_run dp cfg c en (w\<lparr>wd_ext := d\<rparr>) = Some (en', w')"
proof -
  obtain now d where clk: "dp_Clock dp (wd_ext w) = (now, d)" by (metis surj_pair)
  obtain en1 w1 where n: "notifyOnce dp ''observe-only'' ''WARN'' NoteObserveOnly en (w\<lparr>wd_ext := d\<rparr>) = (en1, w1)"
    by (metis surj_pair)
  note nf = notifyOnce_frame [OF n]
  show thesis
  proof (cases "int (OpenCount en) \<ge> ec_MaxOpenPositions cfg")
    case True
    then show thesis using assms idle by (simp add: tryOpen_def)
  next
    case room: False
    obtain cands where s: "Scan (dp_Dec dp) (dp_Scanner dp d) (ec_Scan cfg) now = Some cands"
      using assms room clk by (auto simp: tryOpen_def bind_eq_Some_conv Let_def)
    show thesis
    proof (cases "pickCandidate en cands")
      case None
      then show thesis using assms room clk s idle by (auto simp: tryOpen_def)
    next
      case (Some c)
      show thesis
      proof (cases "ec_OrdersEnabled cfg")
        case True
        then show thesis
          using assms room True clk s Some pickCandidate_Some [OF Some] by (intro opened [OF clk s]) (auto simp: tryOpen_def)
      next
        case False
        then show thesis using assms room False clk s Some n nf idle by (auto simp: tryOpen_def split: if_splits)
      qed
    qed
  qed
qed

lemma tryOpen_keeps:
  assumes "tryOpen dp cfg en w = Some (en', w')" and "engine_ok cfg en"
  shows "engine_ok cfg en'"
  using assms(1)
proof (cases rule: tryOpen_cases)
  case idle
  then show ?thesis using engine_ok_cong assms(2) by blast
next
  case (opened cands c now d)
  have "cd_LongExchange c \<noteq> cd_ShortExchange c" using Scan_eligible [OF opened(2-4)] by auto
  from openPosition_run_result [OF opened(8) this] show ?thesis
    using engine_ok_cong [of en' en] engine_ok_update [OF assms(2) opened(7)] assms(2) opened(5) by metis
qed

lemma engine_step_keeps:
  assumes "engine_step dp cfg (en, w) (en', w')" and "engine_ok cfg en"
  shows "engine_ok cfg en'"
  using assms(1)
proof (cases rule: engine_step.cases)
  case tick
  obtain halted reason where h: "dp_Halter dp (wd_ext w) = (halted, reason)" by (metis surj_pair)
  obtain en1 w1 where n: "notifyOnce dp ''engine_halted'' ''WARN'' (NoteHalted reason) en w = (en1, w1)" by (metis surj_pair)
  show ?thesis
  proof (cases halted)
    case True
    then have "en' = en1" using tick h n by (simp add: Tick_def)
    then show ?thesis using notifyOnce_frame [OF n] engine_ok_cong assms(2) by blast
  next
    case False
    then obtain en2 w2 where "monitor dp cfg en w = Some (en2, w2)" "tryOpen dp cfg en2 w2 = Some (en', w')"
      using tick h by (auto simp: Tick_def bind_eq_Some_conv)
    then show ?thesis using monitor_keeps tryOpen_keeps assms(2) by blast
  qed
next
  case (request i reason)
  then show ?thesis using assms(2) engine_ok_cong [of en' en] by (simp add: RequestClose_def)
next
  case (reorder kvs)
  have s: "set kvs = set (en_open en)" and l: "length kvs = length (en_open en)"
    using mset_eq_setD [OF reorder(3)] mset_eq_length [OF reorder(3)] by simp_all
  have d: "distinct (map fst kvs) = distinct (map fst (en_open en))"
      "distinct (map (\<lambda>(i, p). op_asset p) kvs) = distinct (map (\<lambda>(i, p). op_asset p) (en_open en))"
    by (rule mset_eq_imp_distinct_iff, simp add: reorder(3))+
  show ?thesis
    using assms(2) reorder s l d by (simp add: engine_ok_def filed_def OpenCount_def)
qed (use assms(2) in simp)

text \<open>
  C21: from its start, through every sequence of ticks, requests and changes of the environment,
  persister failures and dishonest venues included, the engine holds at most the configured number of positions, each
  under its own identifier, of different assets, each on two different exchanges, in a state its transition history
  leads to and that is not final, and a position in MONITORING has legs that differ by no more than the tolerance.
\<close>

theorem engine_invariant:
  assumes "Engine_New cfg0 = (en0, cfg)" and "(engine_step dp cfg)\<^sup>*\<^sup>* (en0, w0) (en, w)"
  shows "int (OpenCount en) \<le> ec_MaxOpenPositions cfg
     \<and> distinct (map fst (en_open en)) \<and> distinct (map (\<lambda>(i, p). op_asset p) (en_open en))
     \<and> (\<forall>(i, p) \<in> set (en_open en). pos_ID (op_pos p) = i \<and> op_longEx p \<noteq> op_shortEx p
          \<and> path CanTransition StateDiscovered (trail (op_pos p)) (pos_State (op_pos p))
          \<and> \<not> PState_IsTerminal (pos_State (op_pos p))
          \<and> (pos_State (op_pos p) = StateMonitoring \<longrightarrow>
               \<bar>pos_LongBaseQty (op_pos p) - pos_ShortBaseQty (op_pos p)\<bar> \<le> ec_DeltaToleranceBase cfg))"
proof -
  have "engine_ok cfg en0"
    using assms(1) by (auto simp: Engine_New_def engine_defaults_def engine_ok_def filed_def OpenCount_def Let_def)
  moreover have "engine_ok cfg en" if "(engine_step dp cfg)\<^sup>*\<^sup>* (en0, w0) (en, w)" "engine_ok cfg en0"
    using that by (induction rule: rtranclp_induct2) (auto intro: engine_step_keeps)
  ultimately have "engine_ok cfg en" using assms(2) by blast
  then show ?thesis by (fastforce simp: engine_ok_def filed_def op_ok_def at_rest_def)
qed

lemma example_tick:
  "map_option (\<lambda>(en, w). (OpenCount en, map (\<lambda>(i, p). (i, pos_State (op_pos p))) (en_open en)))
     (Tick (example_deps mock_adapter) example_engine_config example_engine example_world)
   = Some (1, [(''P1-1-BTC'', StateMonitoring)])"
  by code_simp

theorem engine_invariant_witness:
  "\<exists>en w i p. (engine_step (example_deps mock_adapter) example_engine_config)\<^sup>*\<^sup>* (example_engine, example_world) (en, w)
     \<and> en_open en = [(i, p)] \<and> pos_State (op_pos p) = StateMonitoring
     \<and> \<bar>pos_LongBaseQty (op_pos p) - pos_ShortBaseQty (op_pos p)\<bar> \<le> 1 / 1000"
proof -
  obtain en w where t: "Tick (example_deps mock_adapter) example_engine_config example_engine example_world = Some (en, w)"
      "map (\<lambda>(i, p). (i, pos_State (op_pos p))) (en_open en) = [(''P1-1-BTC'', StateMonitoring)]"
    using example_tick by auto
  have r: "(engine_step (example_deps mock_adapter) example_engine_config)\<^sup>*\<^sup>* (example_engine, example_world) (en, w)"
    by (rule r_into_rtranclp) (rule engine_step.tick [OF t(1)])
  have "Engine_New example_engine_config = (example_engine, example_engine_config)"
    by (simp add: example_engine_def Engine_New_def engine_defaults_def example_engine_config_def)
  note inv = engine_invariant [OF this r]
  obtain i p where "en_open en = [(i, p)]" "pos_State (op_pos p) = StateMonitoring"
    using t(2) by (auto simp: map_eq_Cons_conv)
  then show ?thesis using inv r by (auto simp: example_engine_config_def)
qed

end
