(* ===== verification/EngineOrders.thy ===== *)
theory EngineOrders imports Engine begin

text \<open>
  The orders of one tick of \<open>engine/engine.go\<close>, read off an order log that every venue keeps: a closing tick sends
  reduce-only orders, an opening tick two entries of one quantity and a repair, a halted engine nothing but closes.
\<close>

section \<open>The orders of a tick\<close>

text \<open>The same dependencies, every venue recording the order requests it receives.\<close>

definition logged_deps :: "('v, 'd) Deps \<Rightarrow> ('v \<times> PlaceOrderRequest list, 'd) Deps" where
  "logged_deps dp = \<lparr>dp_Dec = dp_Dec dp, dp_Adapters = (\<lambda>ex. map_option logged (dp_Adapters dp ex)),
     dp_Executors = (\<lambda>ex. map_option logged (dp_Executors dp ex)), dp_Registry = dp_Registry dp,
     dp_Cache = dp_Cache dp, dp_Scanner = dp_Scanner dp, dp_Positions = dp_Positions dp,
     dp_Persister = dp_Persister dp, dp_Orders = dp_Orders dp, dp_Legs = dp_Legs dp, dp_Halter = dp_Halter dp,
     dp_Notifier = dp_Notifier dp, dp_Clock = dp_Clock dp\<rparr>"

type_synonym ('v, 'd) logged_world = "('v \<times> PlaceOrderRequest list, 'd) world"

text \<open>Between two states the venues received some more orders, all of them satisfying a predicate.\<close>

definition sends ::
  "(ExchangeID \<Rightarrow> PlaceOrderRequest list \<Rightarrow> bool) \<Rightarrow> ('v, 'd) logged_world \<Rightarrow> ('v, 'd) logged_world \<Rightarrow> bool" where
  "sends P w w' \<longleftrightarrow> (\<forall>ex. \<exists>rs. snd (wd_venues w' ex) = snd (wd_venues w ex) @ rs \<and> P ex rs)"

abbreviation closing :: "ExchangeID \<Rightarrow> PlaceOrderRequest list \<Rightarrow> bool" where
  "closing \<equiv> \<lambda>_ rs. \<forall>r \<in> set rs. req_ReduceOnly r"

lemma sends_none: "wd_venues w' = wd_venues w \<Longrightarrow> (\<And>ex. P ex []) \<Longrightarrow> sends P w w'"
  by (simp add: sends_def)

lemma sends_append:
  assumes "sends P w w1" and "sends Q w1 w2" and "\<And>ex xs ys. P ex xs \<Longrightarrow> Q ex ys \<Longrightarrow> R ex (xs @ ys)"
  shows "sends R w w2"
  unfolding sends_def
proof
  fix ex
  obtain xs ys where "snd (wd_venues w1 ex) = snd (wd_venues w ex) @ xs" "P ex xs"
      "snd (wd_venues w2 ex) = snd (wd_venues w1 ex) @ ys" "Q ex ys"
    using assms(1,2) unfolding sends_def by meson
  then show "\<exists>rs. snd (wd_venues w2 ex) = snd (wd_venues w ex) @ rs \<and> R ex rs" using assms(3) by auto
qed

lemma sends_venues: "sends P w w' \<Longrightarrow> wd_venues w1 = wd_venues w \<Longrightarrow> wd_venues w2 = wd_venues w' \<Longrightarrow> sends P w1 w2"
  by (simp add: sends_def)

text \<open>A close sends reduce-only orders.\<close>

lemma close_loop_reduces:
  "close_loop (logged L) (logged S) req p n att ll sl res wl ws = ((res', err), wl', ws') \<Longrightarrow>
     \<exists>xs ys. snd wl' = snd wl @ xs \<and> snd ws' = snd ws @ ys \<and> (\<forall>r \<in> set (xs @ ys). req_ReduceOnly r)"
proof (induction n arbitrary: att ll sl res wl ws)
  case 0
  then show ?case by (auto split: if_splits)
next
  case (Suc n)
  from Suc.prems show ?case
  proof (cases rule: close_loop_Suc_cases)
    case (attempt l1 l2 lr wl1 sr ws1)
    obtain xs ys where x: "snd wl1 = snd wl @ xs" "snd ws1 = snd ws @ ys" "\<forall>r \<in> set (xs @ ys). req_ReduceOnly r"
      using close_leg_logged [OF attempt(1)] close_leg_logged [OF attempt(2)] by (auto simp: exit_order_def split: if_splits)
    obtain xs' ys' where y: "snd wl' = snd wl1 @ xs'" "snd ws' = snd ws1 @ ys'" "\<forall>r \<in> set (xs' @ ys'). req_ReduceOnly r"
      using attempt(3) Suc.IH by (metis append.right_neutral empty_iff list.set(1) append_Nil)
    show ?thesis using x y by (intro exI [of _ "xs @ xs'"] exI [of _ "ys @ ys'"]) auto
  qed auto
qed

lemma CoordinatedClose_reduces:
  assumes "CoordinatedClose (logged L) (logged S) req cfg wl ws = (r, wl', ws')"
  shows "\<exists>xs ys. snd wl' = snd wl @ xs \<and> snd ws' = snd ws @ ys \<and> (\<forall>r \<in> set (xs @ ys). req_ReduceOnly r)"
proof -
  obtain res err where "r = (res, err)" by (cases r)
  then show ?thesis
    using assms close_loop_reduces [of L S req] by (auto simp: CoordinatedClose_def Let_def split: if_splits)
qed

text \<open>A close that gets to no order touches no venue.\<close>

lemma CoordinatedClose_unsent:
  assumes "\<not> close_sends req cfg"
  shows "snd (CoordinatedClose L S req cfg wl ws) = (wl, ws)"
proof (cases "0 < min (cq_LongRemaining req) (cq_ShortRemaining req) \<and> cc_MaxRequotes cfg + 1 > 0")
  case True
  then obtain n where "nat (cc_MaxRequotes cfg + 1) = Suc n" by (metis Suc_pred' zero_less_nat_eq)
  then show ?thesis using True assms by (auto simp: CoordinatedClose_def close_sends_def Let_def)
next
  case False
  then show ?thesis by (auto simp: CoordinatedClose_def Let_def)
qed

lemma run_close_sends:
  assumes "run_close (logged_deps dp) cfg p w = Some (r, w')"
  shows "sends closing w w'"
proof -
  let ?L = "dp_Executors dp (op_longEx p)" and ?S = "dp_Executors dp (op_shortEx p)"
  let ?req = "close_request (logged_deps dp) p (wd_ext w)" and ?cfg = "close_config cfg p"
  have ex: "dp_Executors (logged_deps dp) e = map_option logged (dp_Executors dp e)" for e by (simp add: logged_deps_def)
  show ?thesis
  proof (cases "?L = None \<or> ?S = None")
    case True
    then have "\<not> close_sends ?req ?cfg" using assms by (auto simp: run_close_def Let_def ex split: if_splits)
    moreover define A where "A = (case dp_Executors (logged_deps dp) (op_longEx p) of None \<Rightarrow> nil_executor | Some A \<Rightarrow> A)"
    moreover define B where "B = (case dp_Executors (logged_deps dp) (op_shortEx p) of None \<Rightarrow> nil_executor | Some A \<Rightarrow> A)"
    ultimately obtain r0 where "CoordinatedClose A B ?req ?cfg (wd_venues w (op_longEx p)) (wd_venues w (op_shortEx p))
        = (r0, wd_venues w (op_longEx p), wd_venues w (op_shortEx p))"
      using CoordinatedClose_unsent by (metis prod.collapse)
    then have "wd_venues w' = wd_venues w"
      using assms by (auto simp: run_close_def Let_def A_def B_def split: if_splits)
    then show ?thesis by (simp add: sends_none)
  next
    case False
    then obtain L S where LS: "?L = Some L" "?S = Some S" by auto
    obtain r0 vl vs where c: "CoordinatedClose (logged L) (logged S) ?req ?cfg (wd_venues w (op_longEx p))
        (wd_venues w (op_shortEx p)) = (r0, vl, vs)" by (metis prod_cases3)
    then have "wd_venues w' = (wd_venues w)(op_longEx p := vl, op_shortEx p := vs)"
      using assms LS by (auto simp: run_close_def Let_def ex)
    then show ?thesis
      using CoordinatedClose_reduces [OF c] by (auto simp: sends_def)
  qed
qed

lemma finish_exit_venues:
  assumes "finish_exit dp p reason res err en w = (en', w')"
  shows "wd_venues w' = wd_venues w"
  using assms by (auto simp: finish_exit_def notify_def Let_def split: option.splits close_error.splits prod.splits if_splits)

lemma closePosition_sends:
  assumes "closePosition (logged_deps dp) cfg p reason en w = Some (en', w')"
  shows "sends closing w w'"
proof -
  let ?dp = "logged_deps dp"
  obtain okr p1 where r: "resolveSymbols ?dp (wd_ext w) p = (okr, p1)" by (metis surj_pair)
  obtain ob q d where b: "begin_exit ?dp (op_pos p1) reason (wd_ext w) = (ob, q, d)" by (metis prod_cases3)
  show ?thesis
  proof (cases "okr \<and> ob")
    case False
    then have "wd_venues w' = wd_venues w" using assms r b by (cases okr) (auto simp: closePosition_def)
    then show ?thesis by (simp add: sends_none)
  next
    case True
    then obtain res err w1 where run: "run_close ?dp cfg (p1\<lparr>op_pos := q\<rparr>) (w\<lparr>wd_ext := d\<rparr>) = Some ((res, err), w1)"
      using assms r b by (auto simp: closePosition_def bind_eq_Some_conv)
    obtain q2 d2 where s: "set_quantities_now ?dp q (pos_LongBaseQty q - cl_LongClosedQty res)
        (pos_ShortBaseQty q - cl_ShortClosedQty res) (wd_ext w1) = (q2, d2)" by (metis surj_pair)
    have "finish_exit ?dp (p1\<lparr>op_pos := q2\<rparr>) reason res err en
        (w1\<lparr>wd_ext := persistLegs ?dp (p1\<lparr>op_pos := q2\<rparr>) d2\<rparr>) = (en', w')"
      using assms True r b run s by (simp add: closePosition_def Let_def)
    then have "wd_venues w' = wd_venues w1" using finish_exit_venues by fastforce
    then show ?thesis by (intro sends_venues [OF run_close_sends [OF run]]) simp_all
  qed
qed

lemma monitor_one_sends:
  assumes "monitor_one (logged_deps dp) cfg p en w = Some (en', w')"
  shows "sends closing w w'"
proof -
  obtain en1 w1 where n: "notifyOnce (logged_deps dp) (''degraded-'' @ pos_ID (op_pos p)) ''CRITICAL''
      (NoteDegradedPosition (pos_ID (op_pos p))) en w = (en1, w1)" by (metis surj_pair)
  have v: "wd_venues w1 = wd_venues w" using notifyOnce_frame [OF n] by simp
  have c: "sends closing w w'" if "closePosition (logged_deps dp) cfg p r e v = Some (en', w')" "wd_venues v = wd_venues w" for r e v
    by (rule sends_venues [OF closePosition_sends [OF that(1)]]) (simp_all add: that(2))
  have s: "sends closing w w" "sends closing w w1" using v by (simp_all add: sends_none)
  show ?thesis
    using assms n v c s by (auto simp: monitor_one_def Let_def split: if_splits option.splits)
qed

lemma monitor_loop_sends:
  "monitor_loop (logged_deps dp) cfg ps en w = Some (en', w') \<Longrightarrow> sends closing w w'"
proof (induction ps arbitrary: en w)
  case Nil
  then show ?case by (simp add: sends_none)
next
  case (Cons p ps)
  then obtain en1 w1 where m: "monitor_one (logged_deps dp) cfg p en w = Some (en1, w1)"
      "monitor_loop (logged_deps dp) cfg ps en1 w1 = Some (en', w')" by (auto simp: bind_eq_Some_conv)
  show ?case by (rule sends_append [OF monitor_one_sends [OF m(1)] Cons.IH [OF m(2)]]) auto
qed

text \<open>
  The orders of an opening: of the two entry orders and the repair, seen from one exchange: at most two may open exposure,
  only on the two venues of the position, and the first of them is for the quantity of the position.
\<close>

definition opening_part ::
  "ExchangeID \<Rightarrow> ExchangeID \<Rightarrow> decimal \<Rightarrow> ExchangeID \<Rightarrow> PlaceOrderRequest list \<Rightarrow> bool" where
  "opening_part a b qty ex rs \<longleftrightarrow>
     (let opening = filter (\<lambda>r. \<not> req_ReduceOnly r) rs
      in length opening \<le> 2 \<and> (opening \<noteq> [] \<longrightarrow> ex \<in> {a, b} \<and> req_BaseQty (hd opening) = qty))"

definition entry_part ::
  "('v, 'd) Deps \<Rightarrow> ExchangeID set \<Rightarrow> decimal \<Rightarrow> ExchangeID \<Rightarrow> PlaceOrderRequest list \<Rightarrow> bool" where
  "entry_part dp X qty ex rs \<longleftrightarrow>
     (if ex \<in> X \<and> dp_Executors dp ex \<noteq> None then \<exists>r. rs = [r] \<and> \<not> req_ReduceOnly r \<and> req_BaseQty r = qty else rs = [])"

definition repair_part :: "('v, 'd) Deps \<Rightarrow> ExchangeID set \<Rightarrow> ExchangeID \<Rightarrow> PlaceOrderRequest list \<Rightarrow> bool" where
  "repair_part dp X ex rs \<longleftrightarrow> length (filter (\<lambda>r. \<not> req_ReduceOnly r) rs) \<le> 1
     \<and> (rs \<noteq> [] \<longrightarrow> ex \<in> X \<and> dp_Executors dp ex \<noteq> None)"

lemma parts_compose:
  "entry_part dp {a, b} qty ex xs \<Longrightarrow> repair_part dp {a, b} ex ys \<Longrightarrow> opening_part a b qty ex (xs @ ys)"
  by (auto simp: entry_part_def repair_part_def opening_part_def Let_def split: if_splits)

lemma place_at_logged:
  "place_at (logged A) ex req w = (r, w') \<Longrightarrow>
     snd (wd_venues w' e) = snd (wd_venues w e) @ (if e = ex then [req] else [])"
  using Place_logged [of A req "fst (wd_venues w ex)" "snd (wd_venues w ex)"]
  by (auto simp: place_at_def split: prod.splits)

lemma logged_executor: "dp_Executors (logged_deps dp) ex = map_option logged (dp_Executors dp ex)"
  by (simp add: logged_deps_def)

lemma place_entry_logged:
  assumes "place_entry (logged_deps dp) i ex symb sd qty px w = (r, w')"
  shows "sends (entry_part dp {ex} qty) w w'"
proof (cases "dp_Executors dp ex")
  case None
  then show ?thesis using assms by (auto simp: place_entry_def logged_executor sends_def entry_part_def)
next
  case (Some A)
  let ?req = "opening_order (entry_id i sd) symb sd qty px"
  obtain r0 w0 where p: "place_at (logged A) ex ?req w = (r0, w0)" by (metis surj_pair)
  have "w' = w0" using assms Some p by (auto simp: place_entry_def logged_executor Let_def split: sum.splits prod.splits if_splits)
  then show ?thesis
    using place_at_logged [OF p] Some by (auto simp: sends_def entry_part_def opening_order_def)
qed

lemma placeEntryLegs_logged:
  assumes "placeEntryLegs (logged_deps dp) i p qty lp sp w = (r, w')" and "op_longEx p \<noteq> op_shortEx p"
  shows "sends (entry_part dp {op_longEx p, op_shortEx p} qty) w w'"
proof -
  obtain l w1 where l: "place_entry (logged_deps dp) i (op_longEx p) (op_longSym p) SideLong qty lp w = (l, w1)" by (metis surj_pair)
  obtain s w2 where s: "place_entry (logged_deps dp) i (op_shortEx p) (op_shortSym p) SideShort qty sp w1 = (s, w2)" by (metis surj_pair)
  have "w' = w2" using assms(1) l s by (simp add: placeEntryLegs_def)
  moreover have "entry_part dp {op_longEx p, op_shortEx p} qty ex (xs @ ys)"
    if "entry_part dp {op_longEx p} qty ex xs" "entry_part dp {op_shortEx p} qty ex ys" for ex xs ys
    using that assms(2) by (auto simp: entry_part_def split: if_splits)
  ultimately show ?thesis using sends_append [OF place_entry_logged [OF l] place_entry_logged [OF s]] by blast
qed

lemma top_up_logged:
  assumes "top_up (logged_deps dp) i p lag q lp sp w = (t, w')"
  shows "sends (repair_part dp {op_longEx p, op_shortEx p}) w w'"
proof -
  define ex where "ex = (if lag then op_longEx p else op_shortEx p)"
  show ?thesis
  proof (cases "dp_Executors dp ex")
    case None
    then have "w' = w" using assms by (auto simp: top_up_def ex_def logged_executor split: if_splits)
    then show ?thesis by (auto simp: sends_none repair_part_def)
  next
    case (Some A)
    then obtain req r0 where p: "place_at (logged A) ex req w = (r0, w')"
      using assms by (cases lag) (auto simp: top_up_def ex_def logged_executor split: prod.splits sum.splits)
    show ?thesis
      using place_at_logged [OF p] Some by (auto simp: sends_def repair_part_def ex_def)
  qed
qed

lemma reduce_excess_logged:
  assumes "reduce_excess (logged_deps dp) i p heavy q w = (t, w')"
  shows "sends (\<lambda>ex rs. closing ex rs \<and> repair_part dp {op_longEx p, op_shortEx p} ex rs) w w'"
proof -
  define ex where "ex = (if heavy then op_longEx p else op_shortEx p)"
  show ?thesis
  proof (cases "dp_Executors dp ex")
    case None
    then have "w' = w" using assms by (auto simp: reduce_excess_def ex_def logged_executor split: if_splits)
    then show ?thesis by (auto simp: sends_none repair_part_def)
  next
    case (Some A)
    then obtain rr coid e v where p: "PlaceReduceOrder (logged A) rr coid (wd_venues w ex) = (e, v)"
        "w' = w\<lparr>wd_venues := (wd_venues w)(ex := v)\<rparr>"
      using assms by (cases heavy) (auto simp: reduce_excess_def ex_def logged_executor split: prod.splits)
    have "snd v = snd (wd_venues w ex) \<or> snd v = snd (wd_venues w ex) @ [reduce_order rr coid]"
      using p(1) Place_logged [of A "reduce_order rr coid" "fst (wd_venues w ex)" "snd (wd_venues w ex)"]
      by (auto simp: PlaceReduceOrder_def split: if_splits sum.splits prod.splits)
    then show ?thesis
      using p(2) Some by (auto simp: sends_def repair_part_def reduce_order_def ex_def)
  qed
qed

lemma repairImbalance_logged:
  assumes "repairImbalance (logged_deps dp) cfg i p d l s lp sp w = (r, w')"
  shows "sends (repair_part dp {op_longEx p, op_shortEx p}) w w'"
proof -
  let ?X = "{op_longEx p, op_shortEx p}"
  obtain t w1 where t: "top_up (logged_deps dp) i p (l < s) (rd_ShortfallQty d) lp sp w = (t, w1)" by (metis surj_pair)
  have "wd_venues w' = wd_venues w1 \<or> (\<exists>heavy q sent w2. reduce_excess (logged_deps dp) i p heavy q w1 = (sent, w2) \<and> w' = w2)"
    using assms t by (auto simp: repairImbalance_def Let_def split: if_splits prod.splits)
  then show ?thesis
  proof
    assume "wd_venues w' = wd_venues w1"
    then show ?thesis by (intro sends_venues [OF top_up_logged [OF t]]) simp_all
  next
    assume "\<exists>heavy q sent w2. reduce_excess (logged_deps dp) i p heavy q w1 = (sent, w2) \<and> w' = w2"
    then obtain heavy q sent where r: "reduce_excess (logged_deps dp) i p heavy q w1 = (sent, w')" by blast
    show ?thesis
      by (rule sends_append [OF top_up_logged [OF t] reduce_excess_logged [OF r]])
        (auto simp: repair_part_def filter_empty_conv)
  qed
qed

lemma finish_open_venues: "wd_venues (snd (finish_open dp i p l s en w)) = wd_venues w"
  by (auto simp: finish_open_def register_with_def notify_def Let_def split: prod.splits option.splits)

lemma hedge_open_sends:
  assumes "hedge_open (logged_deps dp) cfg i p l s lp sp en w = (en', w')"
  shows "sends (repair_part dp {op_longEx p, op_shortEx p}) w w'"
proof -
  let ?dp = "logged_deps dp" and ?d = "AnalyzeMismatch l s (ec_DeltaToleranceBase cfg)"
  obtain q1 d1 where q: "set_quantities_now ?dp (op_pos p) l s (wd_ext w) = (q1, d1)" by (metis surj_pair)
  obtain ok q2 d2 where t: "transition_now ?dp q1 StatePartiallyHedged (rd_Reason ?d) d1 = (ok, q2, d2)" by (metis prod_cases3)
  obtain long short w3 where r: "repairImbalance ?dp cfg i p ?d l s lp sp (w\<lparr>wd_ext := d2\<rparr>) = ((long, short), w3)" by (metis surj_pair)
  have n: "sends (repair_part dp {op_longEx p, op_shortEx p}) w v" if "wd_venues v = wd_venues w" for v
    using that by (auto simp: repair_part_def intro: sends_none)
  have f: "wd_venues w' = wd_venues v" if "finish_open ?dp i' p' l' s' en v = (en', w')" for i' p' l' s' v
    using that finish_open_venues by (metis snd_conv)
  show ?thesis
  proof (cases "rd_Action ?d = RepairNone \<or> \<not> ok")
    case True
    then have "wd_venues w' = wd_venues w" using assms q t f by (fastforce simp: hedge_open_def Let_def split: if_splits)
    then show ?thesis by (rule n)
  next
    case False
    then have "wd_venues w' = wd_venues w3"
      using assms q t r f by (fastforce simp: hedge_open_def register_with_def notify_def Let_def split: if_splits option.splits prod.splits)
    then show ?thesis by (intro sends_venues [OF repairImbalance_logged [OF r]]) simp_all
  qed
qed

lemma enter_open_sends:
  assumes "enter_open (logged_deps dp) cfg i p qty en w = (en', w')" and "op_longEx p \<noteq> op_shortEx p"
  shows "sends (opening_part (op_longEx p) (op_shortEx p) qty) w w'"
proof -
  let ?dp = "logged_deps dp"
  let ?c = "\<lambda>ex. Cache_Get (dp_Cache ?dp (wd_ext w) 0) ex (op_asset p)"
  have n: "sends (opening_part (op_longEx p) (op_shortEx p) qty) w w'" if "wd_venues w' = wd_venues w"
    using that by (auto simp: opening_part_def Let_def intro: sends_none)
  show ?thesis
  proof (cases "?c (op_longEx p) = None \<or> ?c (op_shortEx p) = None")
    case True
    then have "wd_venues w' = wd_venues w"
      using assms(1) by (auto simp: enter_open_def split: option.splits prod.splits)
    then show ?thesis by (rule n)
  next
    case False
    then obtain ls ss where c: "?c (op_longEx p) = Some ls" "?c (op_shortEx p) = Some ss" by auto
    define pr where "pr = op_tickSize p * of_int (ec_ProtectionTicks cfg)"
    obtain l s w1 where e: "placeEntryLegs ?dp i p qty (snap_BestAsk ls + pr) (snap_BestBid ss - pr) w = ((l, s), w1)"
      by (metis surj_pair)
    note E = placeEntryLegs_logged [OF e assms(2)]
    show ?thesis
    proof (cases "le_ambiguous l \<or> le_ambiguous s \<or> le_filled l = 0 \<and> le_filled s = 0")
      case True
      then have v: "wd_venues w' = wd_venues w1"
        using assms(1) c e by (auto simp: enter_open_def pr_def register_with_def notify_def Let_def
              split: option.splits prod.splits if_splits)
      have "sends (opening_part (op_longEx p) (op_shortEx p) qty) w w1"
      proof (rule sends_append [OF E])
        show "sends (repair_part dp {op_longEx p, op_shortEx p}) w1 w1" by (simp add: sends_none repair_part_def)
      qed (rule parts_compose)
      then show ?thesis using v by (auto intro: sends_venues)
    next
      case False
      then have "hedge_open ?dp cfg i p (le_filled l) (le_filled s) (snap_BestAsk ls + pr) (snap_BestBid ss - pr) en
          (w1\<lparr>wd_ext := recordEntryOrders ?dp i p l s (wd_ext w1)\<rparr>) = (en', w')"
        using assms(1) c e by (auto simp: enter_open_def pr_def Let_def split: if_splits)
      from hedge_open_sends [OF this] have "sends (repair_part dp {op_longEx p, op_shortEx p}) w1 w'"
        by (rule sends_venues) simp_all
      from E this show ?thesis by (rule sends_append) (rule parts_compose)
    qed
  qed
qed

lemma set_leverage_logged: "sends (\<lambda>_ rs. rs = []) w (set_leverage (logged_deps dp) leg w)"
  by (auto simp: sends_def set_leverage_def logged_deps_def logged_def split: option.splits prod.splits)

lemma prepare_open_sends:
  assumes "prepare_open (logged_deps dp) p w = (ok, p', w')"
  shows "sends (\<lambda>_ rs. rs = []) w w'"
proof -
  let ?dp = "logged_deps dp"
  obtain o1 q1 d1 where t1: "transition_now ?dp (op_pos p) StateQualified ''passed filters+eligibility'' (wd_ext w) = (o1, q1, d1)"
    by (metis prod_cases3)
  obtain o2 q2 d2 where t2: "transition_now ?dp q1 StatePreparing ''preflight'' d1 = (o2, q2, d2)" by (metis prod_cases3)
  define w1 where "w1 = set_leverage ?dp (op_longEx p, op_longSym p) (w\<lparr>wd_ext := d2\<rparr>)"
  define w2 where "w2 = set_leverage ?dp (op_shortEx p, op_shortSym p) w1"
  obtain o3 q3 d3 where t3: "transition_now ?dp q2 StateOpening ''placing entry orders'' (wd_ext w2) = (o3, q3, d3)"
    by (metis prod_cases3)
  have run: "(ok, p', w') = (if \<not> o1 then (False, p\<lparr>op_pos := q1\<rparr>, w\<lparr>wd_ext := d1\<rparr>)
      else if \<not> o2 then (False, p\<lparr>op_pos := q2\<rparr>, w\<lparr>wd_ext := d2\<rparr>)
      else (o3, p\<lparr>op_pos := q3\<rparr>, w2\<lparr>wd_ext := d3\<rparr>))"
    using assms t1 t2 t3 by (cases o1; cases o2) (simp_all add: prepare_open_def w1_def w2_def Let_def)
  then have "wd_venues w' = wd_venues w \<or> wd_venues w' = wd_venues w2" by (auto split: if_splits)
  moreover have "sends (\<lambda>_ rs. rs = []) w w2"
  proof (rule sends_append)
    show "sends (\<lambda>_ rs. rs = []) w w1"
      by (rule sends_venues [OF set_leverage_logged [of "w\<lparr>wd_ext := d2\<rparr>"]]) (simp_all add: w1_def)
    show "sends (\<lambda>_ rs. rs = []) w1 w2" unfolding w2_def by (rule set_leverage_logged)
  qed simp
  ultimately show ?thesis by (auto simp: sends_def)
qed

text \<open>What an opening sends, if anything: nothing, or the entry of a quantized target and its repair.\<close>

lemma openPosition_run_sends:
  assumes "openPosition_run (logged_deps dp) cfg c en w = Some (en', w')" and "cd_LongExchange c \<noteq> cd_ShortExchange c"
  obtains "sends (\<lambda>_ rs. rs = []) w w'"
  | qty rest step where "Dec_Quantize (dp_Dec dp) (cfg_TargetQty (ec_Scan cfg)) step = Some (qty, rest)" "0 < qty"
      "sends (opening_part (cd_LongExchange c) (cd_ShortExchange c) qty) w w'"
proof -
  obtain now d0 where clk: "dp_Clock (logged_deps dp) (wd_ext w) = (now, d0)" by (metis surj_pair)
  from assms(1) clk show thesis
  proof (cases rule: openPosition_run_cases)
    case skipped
    have "sends (\<lambda>_ rs. rs = []) w w'" by (rule sends_none) (simp_all add: skipped)
    then show thesis by (rule that(1))
  next
    case (refused p p1)
    have "sends (\<lambda>_ rs. rs = []) w w'" by (rule sends_venues [OF prepare_open_sends [OF refused(3)]]) simp_all
    then show thesis by (rule that(1))
  next
    case (entered p p1 w1 qty rest step)
    have "sends (\<lambda>_ rs. rs = []) w w1" by (rule sends_venues [OF prepare_open_sends [OF entered(8)]]) simp_all
    moreover have ex: "op_longEx p1 = cd_LongExchange c" "op_shortEx p1 = cd_ShortExchange c"
      using prepare_open_result [OF entered(8,6)] entered(3,4) by auto
    then have "sends (opening_part (cd_LongExchange c) (cd_ShortExchange c) qty) w1 w'"
      using enter_open_sends [OF entered(9)] assms(2) by simp
    ultimately have "sends (opening_part (cd_LongExchange c) (cd_ShortExchange c) qty) w w'"
      by (rule sends_append) simp
    then show thesis using that(2) entered(1,2) by (simp add: logged_deps_def)
  qed
qed

lemma monitor_sends: "monitor (logged_deps dp) cfg en w = Some (en', w') \<Longrightarrow> sends closing w w'"
  by (auto simp: monitor_def intro: monitor_loop_sends)

text \<open>
  C20: a halted engine sends no order; otherwise every order a tick sends is reduce-only, unless
  order placement is enabled, a slot is free after the monitoring of the open positions and the scan found an eligible
  candidate of an asset without an open position: then only its two venues receive orders that may open exposure, at
  most two each, the first of them for the quantized target quantity.
\<close>

theorem engine_orders_guarded:
  assumes "Tick (logged_deps dp) cfg en w = Some (en', w')"
  shows "\<exists>new. (\<forall>ex. snd (wd_venues w' ex) = snd (wd_venues w ex) @ new ex)
     \<and> (fst (dp_Halter dp (wd_ext w)) \<longrightarrow> (\<forall>ex. new ex = []))
     \<and> ((\<exists>ex. \<exists>r \<in> set (new ex). \<not> req_ReduceOnly r) \<longrightarrow>
          ec_OrdersEnabled cfg \<and>
          (\<exists>en1 w1 now d cands c step qty rest.
             monitor (logged_deps dp) cfg en w = Some (en1, w1) \<and> int (OpenCount en1) < ec_MaxOpenPositions cfg
             \<and> dp_Clock dp (wd_ext w1) = (now, d)
             \<and> Scan (dp_Dec dp) (dp_Scanner dp d) (ec_Scan cfg) now = Some cands \<and> c \<in> set cands \<and> cd_Eligible c
             \<and> (\<forall>(i, p) \<in> set (en_open en1). op_asset p \<noteq> cd_Asset c)
             \<and> Dec_Quantize (dp_Dec dp) (cfg_TargetQty (ec_Scan cfg)) step = Some (qty, rest) \<and> 0 < qty
             \<and> (\<forall>ex. opening_part (cd_LongExchange c) (cd_ShortExchange c) qty ex (new ex))))"
proof -
  let ?dp = "logged_deps dp"
  have fields: "dp_Halter ?dp = dp_Halter dp" "dp_Clock ?dp = dp_Clock dp" "dp_Dec ?dp = dp_Dec dp" "dp_Scanner ?dp = dp_Scanner dp"
    by (simp_all add: logged_deps_def)
  show ?thesis
  proof (cases "fst (dp_Halter dp (wd_ext w))")
    case True
    then obtain reason where "notifyOnce ?dp ''engine_halted'' ''WARN'' (NoteHalted reason) en w = (en', w')"
      using assms by (auto simp: Tick_def fields split: prod.splits)
    then have "wd_venues w' = wd_venues w" using notifyOnce_frame by blast
    then show ?thesis by (intro exI [of _ "\<lambda>_. []"]) simp
  next
    case False
    then obtain en1 w1 where m: "monitor ?dp cfg en w = Some (en1, w1)" "tryOpen ?dp cfg en1 w1 = Some (en', w')"
      using assms by (auto simp: Tick_def fields bind_eq_Some_conv split: prod.splits)
    note M = monitor_sends [OF m(1)]
    have closed: ?thesis if "sends (\<lambda>_ rs. rs = []) w1 w'"
    proof -
      have "sends closing w w'" by (rule sends_append [OF M that]) simp
      then obtain new where "\<And>ex. snd (wd_venues w' ex) = snd (wd_venues w ex) @ new ex" "\<And>ex. closing ex (new ex)"
        unfolding sends_def by metis
      then show ?thesis using False by (intro exI [of _ new]) auto
    qed
    from m(2) show ?thesis
    proof (cases rule: tryOpen_cases)
      case idle
      have "sends (\<lambda>_ rs. rs = []) w1 w'" by (rule sends_none) (simp_all add: idle)
      then show ?thesis by (rule closed)
    next
      case (opened cands c now d)
      have x: "cd_LongExchange c \<noteq> cd_ShortExchange c" using Scan_eligible [OF opened(2-4)] by auto
      from opened(8) x show ?thesis
      proof (cases rule: openPosition_run_sends)
        case 1
        then have "sends (\<lambda>_ rs. rs = []) w1 w'" by (rule sends_venues) simp_all
        then show ?thesis by (rule closed)
      next
        case (2 qty rest step)
        then have "sends (opening_part (cd_LongExchange c) (cd_ShortExchange c) qty) w1 w'" by (intro sends_venues [OF 2(3)]) simp_all
        with M have "sends (opening_part (cd_LongExchange c) (cd_ShortExchange c) qty) w w'"
          by (rule sends_append) (auto simp: opening_part_def Let_def)
        then obtain new where "\<And>ex. snd (wd_venues w' ex) = snd (wd_venues w ex) @ new ex"
            "\<And>ex. opening_part (cd_LongExchange c) (cd_ShortExchange c) qty ex (new ex)"
          unfolding sends_def by metis
        then show ?thesis
          using False opened(6,7) opened(1-5) 2(1,2) m(1) unfolding fields
          by (intro exI [of _ new] conjI impI exI [of _ en1] exI [of _ w1] exI [of _ now] exI [of _ d] exI [of _ cands]
              exI [of _ c] exI [of _ step] exI [of _ qty] exI [of _ rest]) simp_all
      qed
    qed
  qed
qed

text \<open>The first tick on two empty venues, as in \<open>example_tick\<close>: an entry order on each, a top-up
  on the one that filled a half and a reduction on the other.\<close>

definition logged_world_of :: "('v, 'd) world \<Rightarrow> ('v, 'd) logged_world" where
  "logged_world_of w = \<lparr>wd_venues = (\<lambda>ex. (wd_venues w ex, [])), wd_ext = wd_ext w, wd_notes = wd_notes w\<rparr>"

lemma example_logged_tick:
  "map_option (\<lambda>(en, w). map (\<lambda>ex. map (\<lambda>r. (req_BaseQty r, req_ReduceOnly r)) (snd (wd_venues w ex))) [ExchangeBybit, ExchangeOKX])
     (Tick (logged_deps (example_deps mock_adapter)) example_engine_config example_engine (logged_world_of example_world))
   = Some [[(1, False), (1 / 4, True)], [(1, False), (1 / 2, False)]]"
  by code_simp

theorem engine_orders_guarded_witness:
  "\<exists>en w new. Tick (logged_deps (example_deps mock_adapter)) example_engine_config example_engine (logged_world_of example_world)
       = Some (en, w)
     \<and> snd (wd_venues w ExchangeOKX) = new ExchangeOKX \<and> map req_ReduceOnly (new ExchangeOKX) = [False, False]
     \<and> (\<exists>(c :: Candidate) qty. opening_part (cd_LongExchange c) (cd_ShortExchange c) qty ExchangeOKX (new ExchangeOKX))"
proof -
  let ?dp = "example_deps mock_adapter" and ?w = "logged_world_of example_world"
  obtain en w where t: "Tick (logged_deps ?dp) example_engine_config example_engine ?w = Some (en, w)"
      "map (\<lambda>r. (req_BaseQty r, req_ReduceOnly r)) (snd (wd_venues w ExchangeOKX)) = [(1, False), (1 / 2, False)]"
    using example_logged_tick by auto
  from engine_orders_guarded [OF t(1)] obtain new where n: "\<forall>ex. snd (wd_venues w ex) = snd (wd_venues ?w ex) @ new ex"
      and guard: "(\<exists>ex. \<exists>r \<in> set (new ex). \<not> req_ReduceOnly r) \<longrightarrow> (\<exists>(c :: Candidate) qty. \<forall>ex. opening_part (cd_LongExchange c) (cd_ShortExchange c) qty ex (new ex))"
    by (elim exE conjE) (rule that, assumption, erule imp_forward, assumption, elim conjE exE, intro exI, assumption)
  have e: "snd (wd_venues w ExchangeOKX) = new ExchangeOKX" using n(1) by (simp add: logged_world_of_def)
  with t(2) have "map req_ReduceOnly (new ExchangeOKX) = [False, False]" by (auto simp: map_eq_Cons_conv)
  moreover from this have "\<exists>r \<in> set (new ExchangeOKX). \<not> req_ReduceOnly r" by (auto simp: map_eq_Cons_conv)
  then obtain c :: Candidate and qty where "opening_part (cd_LongExchange c) (cd_ShortExchange c) qty ExchangeOKX (new ExchangeOKX)"
    using guard by blast
  ultimately show ?thesis using t(1) e by (intro exI [of _ en] exI [of _ w] exI [of _ new] conjI exI [of _ c] exI [of _ qty])
qed

end
