(* ===== verification/PositionRepo.thy ===== *)
theory PositionRepo
  imports Portfolio Lifecycle "HOL-Library.AList"
begin

text \<open>
  Package \<open>internal/repository\<close> (\<open>positions.go\<close>, \<open>audit.go\<close>, \<open>pool.go\<close>): the positions in PostgreSQL and the
  persister of the position state machine.

  The connection pool is the record \<open>pos_pool\<close> of what \<open>positions.go\<close> asks of it; the locale \<open>position_store\<close>
  states the documented behaviour of PostgreSQL: a transaction is applied as a whole when its commit succeeds, a commit
  whose answer is lost may or may not have been applied, and a query reads the committed rows, numbers by value and
  times to the microsecond.  The tables have one writer, the engine.
\<close>

section \<open>Numbers, states and rows as text\<close>

definition decimalToNumeric :: "sp_ops \<Rightarrow> decimal \<Rightarrow> string" where
  "decimalToNumeric D d = sp_String D d"

definition numericToDecimal :: "sp_ops \<Rightarrow> string \<Rightarrow> dec_error + decimal" where
  "numericToDecimal D s = Dec_FromString D s"

text \<open>A number that survives being printed and read.\<close>

definition reads_back :: "sp_ops \<Rightarrow> decimal \<Rightarrow> bool" where
  "reads_back D d \<longleftrightarrow> numericToDecimal D (decimalToNumeric D d) = Inr d"

definition named_states :: "(PState \<times> string) list" where
  "named_states =
     [(StateDiscovered, ''DISCOVERED''), (StateQualified, ''QUALIFIED''), (StateAwaitingApproval, ''AWAITING_USER_APPROVAL''),
      (StatePreparing, ''PREPARING''), (StateOpening, ''OPENING''), (StatePartiallyHedged, ''PARTIALLY_HEDGED''),
      (StateHedged, ''HEDGED''), (StateMonitoring, ''MONITORING''), (StateExitRequested, ''EXIT_REQUESTED''),
      (StateExiting, ''EXITING''), (StateReconciling, ''RECONCILING''), (StateClosed, ''CLOSED''),
      (StateDegraded, ''DEGRADED''), (StateFailed, ''FAILED'')]"

text \<open>\<open>string(state)\<close> and the conversion \<open>portfolio.State(text)\<close>.\<close>

definition PState_text :: "PState \<Rightarrow> string" where
  "PState_text s = (case s of PStateOther t \<Rightarrow> t | _ \<Rightarrow> the (map_of named_states s))"

definition PState_of :: "string \<Rightarrow> PState" where
  "PState_of t = (case find (\<lambda>(s, u). u = t) named_states of None \<Rightarrow> PStateOther t | Some (s, u) \<Rightarrow> s)"

lemma PState_of_text [simp]: "s \<in> fst ` set named_states \<Longrightarrow> PState_of (PState_text s) = s"
  by (cases s) (simp_all add: PState_text_def PState_of_def named_states_def)

lemma PState_text_of: "PState_text (PState_of t) = t"
  by (auto simp: PState_text_def PState_of_def named_states_def find_None_iff split: option.splits)

record positionRow =
  pr_positionID :: string
  pr_canonicalAsset :: string
  pr_state :: string
  pr_longExchange :: string
  pr_shortExchange :: string
  pr_targetQty :: string
  pr_actualDelta :: string
  pr_realisedPnL :: string
  pr_fundingPnL :: string
  pr_feesPaid :: string
  pr_entryReason :: "string option"
  pr_exitReason :: "string option"
  pr_exitAt :: "time option"
  pr_createdAt :: time
  pr_updatedAt :: time

definition non_empty :: "string \<Rightarrow> string option" where
  "non_empty s = (if s \<noteq> [] then Some s else None)"

text \<open>The arguments of the upsert.\<close>

definition upsert_args :: "sp_ops \<Rightarrow> Position \<Rightarrow> positionRow" where
  "upsert_args D pos =
     (let snap = Position_Snapshot pos in
      \<lparr>pr_positionID = ps_ID snap, pr_canonicalAsset = ps_Asset snap, pr_state = PState_text (ps_State snap),
       pr_longExchange = ps_LongExchange snap, pr_shortExchange = ps_ShortExchange snap,
       pr_targetQty = decimalToNumeric D (ps_TargetBaseQty snap), pr_actualDelta = decimalToNumeric D (ps_DeltaBase snap),
       pr_realisedPnL = decimalToNumeric D (ps_RealisedPnL snap), pr_fundingPnL = decimalToNumeric D (ps_FundingPnL snap),
       pr_feesPaid = decimalToNumeric D (ps_FeesPaid snap), pr_entryReason = non_empty (pos_EntryReason pos),
       pr_exitReason = non_empty (pos_ExitReason pos), pr_exitAt = pos_ExitedAt pos,
       pr_createdAt = ps_CreatedAt snap, pr_updatedAt = ps_UpdatedAt snap\<rparr>)"

datatype repo_error = RepoDb string db_error | RepoNumeric string PositionID dec_error

text \<open>\<open>restorePosition\<close>: the five numbers are parsed in this order.\<close>

definition restorePosition :: "sp_ops \<Rightarrow> positionRow \<Rightarrow> repo_error + Position" where
  "restorePosition D r =
     (case numericToDecimal D (pr_targetQty r) of Inl e \<Rightarrow> Inl (RepoNumeric ''target_qty'' (pr_positionID r) e)
      | Inr targetQty \<Rightarrow>
     (case numericToDecimal D (pr_actualDelta r) of Inl e \<Rightarrow> Inl (RepoNumeric ''actual_delta'' (pr_positionID r) e)
      | Inr actualDelta \<Rightarrow>
     (case numericToDecimal D (pr_realisedPnL r) of Inl e \<Rightarrow> Inl (RepoNumeric ''realised_pnl'' (pr_positionID r) e)
      | Inr realisedPnL \<Rightarrow>
     (case numericToDecimal D (pr_fundingPnL r) of Inl e \<Rightarrow> Inl (RepoNumeric ''funding_pnl'' (pr_positionID r) e)
      | Inr fundingPnL \<Rightarrow>
     (case numericToDecimal D (pr_feesPaid r) of Inl e \<Rightarrow> Inl (RepoNumeric ''fees_paid'' (pr_positionID r) e)
      | Inr feesPaid \<Rightarrow>
          Inr (RestorePosition \<lparr>ra_ID = pr_positionID r, ra_Asset = pr_canonicalAsset r,
            ra_LongExchange = pr_longExchange r, ra_ShortExchange = pr_shortExchange r, ra_State = PState_of (pr_state r),
            ra_TargetBaseQty = targetQty, ra_ActualDelta = actualDelta, ra_RealisedPnL = realisedPnL,
            ra_FundingPnL = fundingPnL, ra_FeesPaid = feesPaid,
            ra_EntryReason = (case pr_entryReason r of None \<Rightarrow> [] | Some s \<Rightarrow> s),
            ra_ExitReason = (case pr_exitReason r of None \<Rightarrow> [] | Some s \<Rightarrow> s), ra_ExitedAt = pr_exitAt r,
            ra_CreatedAt = pr_createdAt r, ra_UpdatedAt = pr_updatedAt r\<rparr>))))))"

section \<open>Statements and queries\<close>

record transitionRow =
  trw_position :: PositionID
  trw_from :: string
  trw_to :: string
  trw_reason :: "string option"
  trw_at :: time

record auditRow =
  au_actor :: string
  au_action :: string
  au_correlation :: "string option"
  au_params :: "(string \<times> string) list"
  au_result :: string

datatype pos_stmt = UpsertPosition positionRow | InsertTransition transitionRow | InsertAudit auditRow

text \<open>A result set: its rows, each of which may fail to scan, and the error its iteration ends with.\<close>

type_synonym row_set = "(db_error + positionRow) list \<times> db_error option"

record 'w pos_pool =
  pp_Begin :: "'w \<Rightarrow> db_error option \<times> 'w"
  pp_TxExec :: "pos_stmt \<Rightarrow> 'w \<Rightarrow> db_error option \<times> 'w"
  pp_Commit :: "'w \<Rightarrow> db_error option \<times> 'w"
  pp_Rollback :: "'w \<Rightarrow> 'w"
  pp_Exec :: "pos_stmt \<Rightarrow> 'w \<Rightarrow> db_error option \<times> 'w"
  pp_QueryStates :: "string list \<Rightarrow> 'w \<Rightarrow> (db_error + row_set) \<times> 'w"
  pp_QueryRow :: "PositionID \<Rightarrow> 'w \<Rightarrow> (db_error + positionRow) \<times> 'w"

definition Repo_Upsert :: "sp_ops \<Rightarrow> 'w pos_pool \<Rightarrow> Position \<Rightarrow> 'w \<Rightarrow> repo_error option \<times> 'w" where
  "Repo_Upsert D P pos w =
     (case pp_Exec P (UpsertPosition (upsert_args D pos)) w of (e, w') \<Rightarrow> (map_option (RepoDb ''upsert'') e, w'))"

definition Repo_Load :: "sp_ops \<Rightarrow> 'w pos_pool \<Rightarrow> PositionID \<Rightarrow> 'w \<Rightarrow> (repo_error + Position) \<times> 'w" where
  "Repo_Load D P i w =
     (case pp_QueryRow P i w of
        (Inl e, w') \<Rightarrow> (Inl (RepoDb ''load'' e), w')
      | (Inr r, w') \<Rightarrow> (restorePosition D r, w'))"

text \<open>The loop over the rows: the first row that does not scan or parse ends it.\<close>

fun load_rows :: "sp_ops \<Rightarrow> (db_error + positionRow) list \<Rightarrow> db_error option \<Rightarrow> repo_error + Position list" where
  "load_rows D [] None = Inr []"
| "load_rows D [] (Some e) = Inl (RepoDb ''iterate'' e)"
| "load_rows D (Inl e # rs) fin = Inl (RepoDb ''scan'' e)"
| "load_rows D (Inr r # rs) fin =
     (case restorePosition D r of
        Inl e \<Rightarrow> Inl e
      | Inr p \<Rightarrow> (case load_rows D rs fin of Inl e \<Rightarrow> Inl e | Inr ps \<Rightarrow> Inr (p # ps)))"

definition LoadByStates ::
  "sp_ops \<Rightarrow> 'w pos_pool \<Rightarrow> string list \<Rightarrow> 'w \<Rightarrow> (repo_error + Position list) \<times> 'w" where
  "LoadByStates D P states w =
     (if states = [] then (Inr [], w)
      else (case pp_QueryStates P states w of
              (Inl e, w') \<Rightarrow> (Inl (RepoDb ''query'' e), w')
            | (Inr (rs, fin), w') \<Rightarrow> (load_rows D rs fin, w')))"

section \<open>The persister\<close>

definition insert_transition :: "Position \<Rightarrow> Transition \<Rightarrow> pos_stmt" where
  "insert_transition pos t = InsertTransition \<lparr>trw_position = pos_ID pos, trw_from = PState_text (tr_From t),
     trw_to = PState_text (tr_To t), trw_reason = non_empty (tr_Reason t), trw_at = tr_At t\<rparr>"

text \<open>\<open>AuditRepo.WriteTx\<close>; marshalling a map of strings does not fail.\<close>

definition WriteTx ::
  "'w pos_pool \<Rightarrow> string \<Rightarrow> string \<Rightarrow> string \<Rightarrow> (string \<times> string) list \<Rightarrow> string \<Rightarrow> 'w \<Rightarrow> db_error option \<times> 'w" where
  "WriteTx P actor action correlationID params result w =
     pp_TxExec P (InsertAudit \<lparr>au_actor = actor, au_action = action, au_correlation = non_empty correlationID,
       au_params = params, au_result = result\<rparr>) w"

definition audit_params :: "Transition \<Rightarrow> (string \<times> string) list" where
  "audit_params t = [(''from'', PState_text (tr_From t)), (''to'', PState_text (tr_To t)), (''reason'', tr_Reason t)]"

definition OnTransition ::
  "sp_ops \<Rightarrow> 'w pos_pool \<Rightarrow> Position \<Rightarrow> Transition \<Rightarrow> 'w \<Rightarrow> repo_error option \<times> 'w" where
  "OnTransition D P pos t w =
     (case pp_Begin P w of
        (Some e, w1) \<Rightarrow> (Some (RepoDb ''begin'' e), w1)
      | (None, w1) \<Rightarrow>
     (case pp_TxExec P (UpsertPosition (upsert_args D pos)) w1 of
        (Some e, w2) \<Rightarrow> (Some (RepoDb ''upsert'' e), pp_Rollback P w2)
      | (None, w2) \<Rightarrow>
     (case pp_TxExec P (insert_transition pos t) w2 of
        (Some e, w3) \<Rightarrow> (Some (RepoDb ''position_transitions'' e), pp_Rollback P w3)
      | (None, w3) \<Rightarrow>
     (case WriteTx P (tr_Actor t) ''position.transition'' (pos_ID pos) (audit_params t) ''ok'' w3 of
        (Some e, w4) \<Rightarrow> (Some (RepoDb ''audit_log'' e), pp_Rollback P w4)
      | (None, w4) \<Rightarrow>
     (case pp_Commit P w4 of
        (Some e, w5) \<Rightarrow> (Some (RepoDb ''commit'' e), pp_Rollback P w5)
      | (None, w5) \<Rightarrow> (None, w5))))))"

fun error_text :: "repo_error \<Rightarrow> string" where
  "error_text (RepoDb what e) = ''repository: '' @ what"
| "error_text (RepoNumeric what i e) = ''repository: '' @ what @ '' '' @ i"

text \<open>The repository as the \<open>Persister\<close> of the state machine.\<close>

definition repo_persister :: "sp_ops \<Rightarrow> 'w pos_pool \<Rightarrow> 'w persister" where
  "repo_persister D P = (\<lambda>p t w. case OnTransition D P p t w of (e, w') \<Rightarrow> (map_option error_text e, w'))"

section \<open>The tables\<close>

record pos_tables =
  pt_rows :: "(PositionID \<times> positionRow) list"
  pt_transitions :: "transitionRow list"
  pt_audit :: "auditRow list"

text \<open>The conflict clause: what an upsert of an existing row changes.\<close>

definition update_row :: "positionRow \<Rightarrow> positionRow \<Rightarrow> positionRow" where
  "update_row new old = old\<lparr>pr_state := pr_state new, pr_actualDelta := pr_actualDelta new,
     pr_realisedPnL := pr_realisedPnL new, pr_fundingPnL := pr_fundingPnL new, pr_feesPaid := pr_feesPaid new,
     pr_exitReason := pr_exitReason new, pr_exitAt := pr_exitAt new, pr_updatedAt := pr_updatedAt new\<rparr>"

fun apply_pos :: "pos_stmt \<Rightarrow> pos_tables \<Rightarrow> pos_tables" where
  "apply_pos (UpsertPosition r) T =
     T\<lparr>pt_rows := AList.update (pr_positionID r)
         (case map_of (pt_rows T) (pr_positionID r) of None \<Rightarrow> r | Some old \<Rightarrow> update_row r old) (pt_rows T)\<rparr>"
| "apply_pos (InsertTransition t) T = T\<lparr>pt_transitions := pt_transitions T @ [t]\<rparr>"
| "apply_pos (InsertAudit a) T = T\<lparr>pt_audit := pt_audit T @ [a]\<rparr>"

text \<open>A stored row as a query shows it: numbers by value, times to the microsecond.\<close>

definition micros :: "time \<Rightarrow> time" where
  "micros t = t div 1000 * 1000"

definition shown :: "sp_ops \<Rightarrow> positionRow \<Rightarrow> positionRow \<Rightarrow> bool" where
  "shown D r y \<longleftrightarrow> pr_positionID y = pr_positionID r \<and> pr_canonicalAsset y = pr_canonicalAsset r \<and> pr_state y = pr_state r
     \<and> pr_longExchange y = pr_longExchange r \<and> pr_shortExchange y = pr_shortExchange r
     \<and> (\<forall>f \<in> {pr_targetQty, pr_actualDelta, pr_realisedPnL, pr_fundingPnL, pr_feesPaid}.
          numericToDecimal D (f y) = numericToDecimal D (f r))
     \<and> pr_entryReason y = pr_entryReason r \<and> pr_exitReason y = pr_exitReason r
     \<and> pr_exitAt y = map_option micros (pr_exitAt r)
     \<and> pr_createdAt y = micros (pr_createdAt r) \<and> pr_updatedAt y = micros (pr_updatedAt r)"

text \<open>All stored rows in one of the given states, each once; a row of the result may fail to scan.\<close>

definition selects :: "sp_ops \<Rightarrow> pos_tables \<Rightarrow> string list \<Rightarrow> (db_error + positionRow) list \<Rightarrow> bool" where
  "selects D T ss rs \<longleftrightarrow> (\<exists>is. distinct is
     \<and> set is = {i. \<exists>r. map_of (pt_rows T) i = Some r \<and> pr_positionID r = i \<and> pr_state r \<in> set ss}
     \<and> list_all2 (\<lambda>i x. \<forall>y. x = Inr y \<longrightarrow> (\<exists>r. map_of (pt_rows T) i = Some r \<and> pr_positionID r = i \<and> shown D r y)) is rs)"

locale position_store =
  fixes D :: sp_ops and P :: "'w pos_pool" and tables :: "'w \<Rightarrow> pos_tables" and pending :: "'w \<Rightarrow> pos_stmt list"
  assumes begin_ok: "pp_Begin P w = (None, w') \<Longrightarrow> tables w' = tables w \<and> pending w' = []"
    and begin_failed: "pp_Begin P w = (Some e, w') \<Longrightarrow> tables w' = tables w"
    and exec_ok: "pp_TxExec P s w = (None, w') \<Longrightarrow> tables w' = tables w \<and> pending w' = pending w @ [s]"
    and exec_failed: "pp_TxExec P s w = (Some e, w') \<Longrightarrow> tables w' = tables w"
    and commit_ok: "pp_Commit P w = (None, w') \<Longrightarrow> tables w' = fold apply_pos (pending w) (tables w)"
    and commit_lost: "pp_Commit P w = (Some e, w') \<Longrightarrow>
          tables w' = tables w \<or> tables w' = fold apply_pos (pending w) (tables w)"
    and rollback: "tables (pp_Rollback P w) = tables w"
    and states_pure: "pp_QueryStates P ss w = (r, w') \<Longrightarrow> tables w' = tables w"
    and states_ok: "pp_QueryStates P ss w = (Inr (rs, None), w') \<Longrightarrow> selects D (tables w) ss rs"
    and row_pure: "pp_QueryRow P i w = (r', w') \<Longrightarrow> tables w' = tables w"
    and row_ok: "pp_QueryRow P i w = (Inr y, w') \<Longrightarrow>
          \<exists>r. map_of (pt_rows (tables w)) i = Some r \<and> pr_positionID r = i \<and> shown D r y"

text \<open>A store whose commits are never in doubt.\<close>

definition decisive :: "'w pos_pool \<Rightarrow> ('w \<Rightarrow> pos_tables) \<Rightarrow> bool" where
  "decisive P tables \<longleftrightarrow> (\<forall>w e w'. pp_Commit P w = (Some e, w') \<longrightarrow> tables w' = tables w)"

text \<open>What one transition writes.\<close>

definition transition_stmts :: "sp_ops \<Rightarrow> Position \<Rightarrow> Transition \<Rightarrow> pos_stmt list" where
  "transition_stmts D pos t = [UpsertPosition (upsert_args D pos), insert_transition pos t,
     InsertAudit \<lparr>au_actor = tr_Actor t, au_action = ''position.transition'', au_correlation = non_empty (pos_ID pos),
       au_params = audit_params t, au_result = ''ok''\<rparr>]"

context position_store
begin

lemma OnTransition_tables:
  assumes "OnTransition D P pos t w = (r, w')"
  shows "(r = None \<longrightarrow> tables w' = fold apply_pos (transition_stmts D pos t) (tables w))
     \<and> (r \<noteq> None \<longrightarrow> tables w' = tables w
          \<or> (\<exists>e. r = Some (RepoDb ''commit'' e)) \<and> tables w' = fold apply_pos (transition_stmts D pos t) (tables w))"
proof -
  obtain r1 w1 where b: "pp_Begin P w = (r1, w1)" by (metis surj_pair)
  obtain r2 w2 where u: "pp_TxExec P (UpsertPosition (upsert_args D pos)) w1 = (r2, w2)" by (metis surj_pair)
  obtain r3 w3 where i: "pp_TxExec P (insert_transition pos t) w2 = (r3, w3)" by (metis surj_pair)
  obtain r4 w4 where a: "WriteTx P (tr_Actor t) ''position.transition'' (pos_ID pos) (audit_params t) ''ok'' w3 = (r4, w4)"
    by (metis surj_pair)
  obtain r5 w5 where c: "pp_Commit P w4 = (r5, w5)" by (metis surj_pair)
  note steps = assms [unfolded OnTransition_def b u i a c prod.case]
  note a' = a [unfolded WriteTx_def]
  show ?thesis
  proof (cases "r1 = None \<and> r2 = None \<and> r3 = None \<and> r4 = None")
    case True
    have "tables w4 = tables w" "pending w4 = transition_stmts D pos t"
      using True b u i a' begin_ok exec_ok by (fastforce simp: transition_stmts_def)+
    then show ?thesis
      using True steps c commit_ok [of w4 w5] commit_lost [of w4 _ w5] rollback [of w5] by (cases r5) auto
  next
    case False
    have "tables w' = tables w \<and> r \<noteq> None"
      using False steps b u i a' begin_ok [of w w1] begin_failed [of w _ w1] exec_ok [of _ w1 w2] exec_failed [of _ w1 _ w2]
        exec_ok [of _ w2 w3] exec_failed [of _ w2 _ w3] exec_failed [of _ w3 _ w4] rollback
      by (cases r1; cases r2; cases r3; cases r4) auto
    then show ?thesis by auto
  qed
qed

lemma OnTransition_kept:
  assumes "decisive P tables" and "OnTransition D P pos t w = (Some e, w')"
  shows "tables w' = tables w"
proof (cases "\<exists>e'. e = RepoDb ''commit'' e'")
  case True
  then obtain w4 e' w5 where "pp_Commit P w4 = (Some e', w5)" "tables w4 = tables w" "w' = pp_Rollback P w5"
    using assms(2) begin_ok exec_ok
    by (fastforce simp: OnTransition_def WriteTx_def split: prod.splits option.splits)
  then show ?thesis using assms(1) rollback unfolding decisive_def by metis
next
  case False
  then show ?thesis using OnTransition_tables [OF assms(2)] by auto
qed

end

text \<open>
  C25: the persister records a transition completely or not at all: without an error the row, the
  transition and the audit entry are in the tables; with one none of them is, unless it is the answer to the commit
  that was lost, and then either none or all three.
\<close>

theorem on_transition_atomic:
  assumes "position_store D P tables pending" and "OnTransition D P pos t w = (r, w')"
  shows "(r = None \<longrightarrow> tables w' = fold apply_pos (transition_stmts D pos t) (tables w))
     \<and> (r \<noteq> None \<longrightarrow> tables w' = tables w
          \<or> (\<exists>e. r = Some (RepoDb ''commit'' e)) \<and> tables w' = fold apply_pos (transition_stmts D pos t) (tables w))"
  using position_store.OnTransition_tables [OF assms] .

section \<open>Reading a position back\<close>

text \<open>What is left of a position that is written and loaded: the legs become the delta, the history is gone.\<close>

definition as_loaded :: "Position \<Rightarrow> Position" where
  "as_loaded p = p\<lparr>pos_LongBaseQty := DeltaBase p, pos_ShortBaseQty := 0,
     pos_CreatedAt := micros (pos_CreatedAt p), pos_UpdatedAt := micros (pos_UpdatedAt p),
     pos_ExitedAt := map_option micros (pos_ExitedAt p), pos_History := [], pos_persisting := False\<rparr>"

text \<open>Every number of the position survives printing and its state is a named one.\<close>

definition storable :: "sp_ops \<Rightarrow> Position \<Rightarrow> bool" where
  "storable D p \<longleftrightarrow> pos_State p \<in> fst ` set named_states
     \<and> (\<forall>d \<in> {pos_TargetBaseQty p, DeltaBase p, pos_RealisedPnL p, pos_FundingPnL p, pos_FeesPaid p}. reads_back D d)"

lemma restore_shown:
  assumes "shown D (upsert_args D p) y" and "storable D p"
  shows "restorePosition D y = Inr (as_loaded p)"
  using assms
  by (auto simp: shown_def storable_def reads_back_def restorePosition_def upsert_args_def Position_Snapshot_def Let_def
      RestorePosition_def as_loaded_def DeltaBase_def non_empty_def numericToDecimal_def)

text \<open>The columns an upsert does not change agree with the position already.\<close>

definition same_fixed :: "sp_ops \<Rightarrow> Position \<Rightarrow> positionRow \<Rightarrow> bool" where
  "same_fixed D p r \<longleftrightarrow> update_row (upsert_args D p) r = upsert_args D p"

lemma upserted_row:
  assumes "\<forall>r. map_of (pt_rows T) (pos_ID p) = Some r \<longrightarrow> same_fixed D p r"
  shows "map_of (pt_rows (fold apply_pos (transition_stmts D p t) T)) (pos_ID p) = Some (upsert_args D p)"
  using assms
  by (auto simp: transition_stmts_def insert_transition_def same_fixed_def update_conv' Let_def upsert_args_def
      Position_Snapshot_def split: option.splits)

text \<open>
  a position whose transition was recorded is loaded as it was written, up to what the table
  does not keep: the two legs become their difference on the long side, the history is empty and times are cut to the
  microsecond.
\<close>

theorem stored_position_loads:
  assumes "position_store D P tables pending" and "OnTransition D P p t w = (None, w1)" and "storable D p"
    and "\<forall>r. map_of (pt_rows (tables w)) (pos_ID p) = Some r \<longrightarrow> same_fixed D p r"
    and "pp_QueryRow P (pos_ID p) w1 = (Inr y, w2)"
  shows "Repo_Load D P (pos_ID p) w1 = (Inr (as_loaded p), w2)"
proof -
  have "map_of (pt_rows (tables w1)) (pos_ID p) = Some (upsert_args D p)"
    using position_store.OnTransition_tables [OF assms(1,2)] upserted_row [OF assms(4)] by simp
  then show ?thesis
    using position_store.row_ok [OF assms(1,5)] restore_shown assms(3,5) by (auto simp: Repo_Load_def)
qed

section \<open>The history in memory and the history in the table\<close>

text \<open>
  The life of one position on the repository's persister: its own transitions, those of other positions on the same
  tables, and the changes that are not persisted.
\<close>

inductive repo_step ::
  "sp_ops \<Rightarrow> 'w pos_pool \<Rightarrow> Position \<times> 'w \<Rightarrow> Position \<times> 'w \<Rightarrow> bool" for D P where
  own: "TransitionTo p to now reason actor (Some (repo_persister D P)) w = (r, p', w') \<Longrightarrow> repo_step D P (p, w) (p', w')"
| other: "OnTransition D P q t w = (r, w') \<Longrightarrow> pos_ID q \<noteq> pos_ID p \<Longrightarrow> repo_step D P (p, w) (p, w')"
| quantities: "SetQuantities p l s now = Inr p' \<Longrightarrow> repo_step D P (p, w) (p', w)"
| realised: "AddRealisedPnL p d now = Inr p' \<Longrightarrow> repo_step D P (p, w) (p', w)"
| funding: "AddFundingPnL p d now = Inr p' \<Longrightarrow> repo_step D P (p, w) (p', w)"

text \<open>The transitions of the position in the table, and its state there.\<close>

definition stored_trail :: "PositionID \<Rightarrow> pos_tables \<Rightarrow> (string \<times> string) list" where
  "stored_trail i T = map (\<lambda>t. (trw_from t, trw_to t)) (filter (\<lambda>t. trw_position t = i) (pt_transitions T))"

definition stored_state :: "PositionID \<Rightarrow> pos_tables \<Rightarrow> string option" where
  "stored_state i T = map_option pr_state (map_of (pt_rows T) i)"

definition mirrors :: "pos_tables \<Rightarrow> Position \<Rightarrow> bool" where
  "mirrors T p \<longleftrightarrow> stored_trail (pos_ID p) T = map (\<lambda>(a, b). (PState_text a, PState_text b)) (trail p)
     \<and> stored_state (pos_ID p) T = (if trail p = [] then None else Some (PState_text (pos_State p)))"

lemma mirrors_cong: "mirrors T p \<Longrightarrow> pos_ID q = pos_ID p \<Longrightarrow> pos_State q = pos_State p \<Longrightarrow> trail q = trail p \<Longrightarrow> mirrors T q"
  by (simp add: mirrors_def)

lemma stored_after:
  "stored_trail i (fold apply_pos (transition_stmts D q t) T)
     = stored_trail i T @ (if pos_ID q = i then [(PState_text (tr_From t), PState_text (tr_To t))] else [])"
  "stored_state i (fold apply_pos (transition_stmts D q t) T)
     = (if pos_ID q = i then Some (PState_text (pos_State q)) else stored_state i T)"
  by (auto simp: transition_stmts_def insert_transition_def stored_trail_def stored_state_def update_conv' upsert_args_def
      Position_Snapshot_def update_row_def Let_def split: option.splits)

context position_store
begin

lemma step_mirrors:
  assumes decisive: "decisive P tables"
    and "repo_step D P (p, w) (p', w')" and m: "mirrors (tables w) p" and free: "\<not> pos_persisting p"
  shows "mirrors (tables w') p' \<and> pos_ID p' = pos_ID p \<and> \<not> pos_persisting p'"
  using assms(2)
proof cases
  case (own to now reason actor r)
  show ?thesis
  proof (cases "transition_begin p to now reason actor")
    case (Inl e)
    then show ?thesis using own m free by (simp add: TransitionTo_def)
  next
    case (Inr pt)
    obtain p1 t where pt: "pt = (p1, t)" by (cases pt)
    obtain e w1 where o: "OnTransition D P p1 t w = (e, w1)" by (metis surj_pair)
    note b = Inr [unfolded pt]
    have p1: "pos_ID p1 = pos_ID p" "pos_State p1 = tr_To t" "tr_From t = pos_State p"
        "pos_History p1 = pos_History p @ [t]"
      using b by (auto simp: transition_begin_def Let_def split: if_splits)
    show ?thesis
    proof (cases e)
      case None
      then have "p' = transition_commit p1" "w' = w1"
        using own b o by (auto simp: TransitionTo_def repo_persister_def split: prod.splits)
      moreover have "tables w1 = fold apply_pos (transition_stmts D p1 t) (tables w)"
        using OnTransition_tables [OF o] None by simp
      ultimately show ?thesis
        using m p1 by (simp add: mirrors_def stored_after trail_def transition_commit_def)
    next
      case (Some err)
      then have "p' = transition_rollback (tr_From t) now p1" "w' = w1"
        using own b o by (auto simp: TransitionTo_def repo_persister_def split: prod.splits)
      moreover have "tables w1 = tables w"
        using OnTransition_kept [OF decisive o [unfolded Some]] by simp
      moreover have "pos_ID p' = pos_ID p" "pos_State p' = pos_State p" "trail p' = trail p" "\<not> pos_persisting p'"
        using calculation(1) p1 by (simp_all add: transition_rollback_def trail_def)
      ultimately show ?thesis using mirrors_cong [OF m] by simp
    qed
  qed
next
  case (other q t r)
  have "tables w' = tables w \<or> tables w' = fold apply_pos (transition_stmts D q t) (tables w)"
    using OnTransition_tables [OF other(2)] by blast
  then show ?thesis using other(1,3) m free by (auto simp: mirrors_def stored_after)
qed (use m free in \<open>auto simp: SetQuantities_def AddRealisedPnL_def AddFundingPnL_def trail_def intro: mirrors_cong
    split: if_splits\<close>)

end

text \<open>
  C26: as long as no answer to a commit is lost, the tables follow the position: through any sequence
  of transitions, failures of the database included, the transitions stored for it are exactly those of its history, in
  order, and the stored state is its state.
\<close>

theorem history_is_stored:
  assumes "position_store D P tables pending" and "decisive P tables"
    and "(repo_step D P)\<^sup>*\<^sup>* (NewPosition i asset longEx shortEx now, w) (p, w')"
    and "stored_trail i (tables w) = []" and "stored_state i (tables w) = None"
  shows "stored_trail i (tables w') = map (\<lambda>(a, b). (PState_text a, PState_text b)) (trail p)
     \<and> (trail p \<noteq> [] \<longrightarrow> stored_state i (tables w') = Some (PState_text (pos_State p)))"
proof -
  have "mirrors (tables w') p \<and> pos_ID p = i \<and> \<not> pos_persisting p"
    using assms(3)
  proof (induction rule: rtranclp_induct2)
    case refl
    then show ?case using assms(4,5) by (simp add: mirrors_def NewPosition_def trail_def)
  next
    case (step p w p' w')
    then show ?case using position_store.step_mirrors [OF assms(1,2) step(2)] by blast
  qed
  then show ?thesis by (auto simp: mirrors_def)
qed

section \<open>A reference store\<close>

text \<open>
  A single connection to tables in memory.  Each call takes the next entry of a fault plan: it may be refused without
  an effect, or, for a commit, applied with the answer lost.
\<close>

datatype fault = NoFault | Refused | AnswerLost

record pg =
  pg_tables :: pos_tables
  pg_pending :: "pos_stmt list"
  pg_faults :: "fault list"

definition next_fault :: "pg \<Rightarrow> fault \<times> pg" where
  "next_fault w = (case pg_faults w of [] \<Rightarrow> (NoFault, w) | f # fs \<Rightarrow> (f, w\<lparr>pg_faults := fs\<rparr>))"

definition pg_do :: "(pg \<Rightarrow> pg) \<Rightarrow> pg \<Rightarrow> db_error option \<times> pg" where
  "pg_do f w = (case next_fault w of (NoFault, w') \<Rightarrow> (None, f w') | (_, w') \<Rightarrow> (Some (DbFailed ''fault''), w'))"

definition pg_commit :: "pg \<Rightarrow> pg" where
  "pg_commit w = w\<lparr>pg_tables := fold apply_pos (pg_pending w) (pg_tables w), pg_pending := []\<rparr>"

definition cut_times :: "positionRow \<Rightarrow> positionRow" where
  "cut_times r = r\<lparr>pr_exitAt := map_option micros (pr_exitAt r), pr_createdAt := micros (pr_createdAt r),
     pr_updatedAt := micros (pr_updatedAt r)\<rparr>"

definition pg_ids :: "(positionRow \<Rightarrow> bool) \<Rightarrow> pos_tables \<Rightarrow> PositionID list" where
  "pg_ids sel T = filter (\<lambda>i. case map_of (pt_rows T) i of None \<Rightarrow> False | Some r \<Rightarrow> pr_positionID r = i \<and> sel r)
     (remdups (map fst (pt_rows T)))"

definition pg_select :: "(positionRow \<Rightarrow> bool) \<Rightarrow> pos_tables \<Rightarrow> positionRow list" where
  "pg_select sel T = map (\<lambda>i. cut_times (the (map_of (pt_rows T) i))) (pg_ids sel T)"

definition pg_pool :: "pg pos_pool" where
  "pg_pool = \<lparr>pp_Begin = pg_do (\<lambda>w. w\<lparr>pg_pending := []\<rparr>),
     pp_TxExec = (\<lambda>s. pg_do (\<lambda>w. w\<lparr>pg_pending := pg_pending w @ [s]\<rparr>)),
     pp_Commit = (\<lambda>w. case next_fault w of
        (NoFault, w') \<Rightarrow> (None, pg_commit w')
      | (AnswerLost, w') \<Rightarrow> (Some (DbFailed ''lost''), pg_commit w')
      | (Refused, w') \<Rightarrow> (Some (DbFailed ''refused''), w')),
     pp_Rollback = (\<lambda>w. w\<lparr>pg_pending := []\<rparr>),
     pp_Exec = (\<lambda>s. pg_do (\<lambda>w. w\<lparr>pg_tables := apply_pos s (pg_tables w)\<rparr>)),
     pp_QueryStates = (\<lambda>ss w. case next_fault w of
        (NoFault, w') \<Rightarrow> (Inr (map Inr (pg_select (\<lambda>r. pr_state r \<in> set ss) (pg_tables w)), None), w')
      | (_, w') \<Rightarrow> (Inl (DbFailed ''fault''), w')),
     pp_QueryRow = (\<lambda>i w. case next_fault w of
        (NoFault, w') \<Rightarrow> (case pg_select (\<lambda>r. pr_positionID r = i) (pg_tables w) of
            [] \<Rightarrow> (Inl DbNoRows, w') | r # _ \<Rightarrow> (Inr r, w'))
      | (_, w') \<Rightarrow> (Inl (DbFailed ''fault''), w'))\<rparr>"

lemma next_fault_frame: "next_fault w = (f, w') \<Longrightarrow> pg_tables w' = pg_tables w \<and> pg_pending w' = pg_pending w"
  by (auto simp: next_fault_def split: list.splits)

lemma pg_do_none: "pg_do g w = (None, w') \<Longrightarrow> \<exists>v. pg_tables v = pg_tables w \<and> pg_pending v = pg_pending w \<and> w' = g v"
  using next_fault_frame [of w] by (auto simp: pg_do_def split: prod.splits fault.splits)

lemma pg_do_some: "pg_do g w = (Some e, w') \<Longrightarrow> pg_tables w' = pg_tables w"
  using next_fault_frame [of w] by (auto simp: pg_do_def split: prod.splits fault.splits)

lemma shown_cut: "shown D r (cut_times r)"
  by (simp add: shown_def cut_times_def)

lemma pg_select_mem:
  assumes "y \<in> set (pg_select sel T)"
  shows "\<exists>i r. map_of (pt_rows T) i = Some r \<and> pr_positionID r = i \<and> sel r \<and> y = cut_times r"
  using assms by (auto simp: pg_select_def pg_ids_def split: option.splits)

lemma pg_selects: "selects D T ss (map Inr (pg_select (\<lambda>r. pr_state r \<in> set ss) T))"
  unfolding selects_def
proof (intro exI conjI)
  let ?is = "pg_ids (\<lambda>r. pr_state r \<in> set ss) T"
  show "distinct ?is" by (simp add: pg_ids_def)
  show "set ?is = {i. \<exists>r. map_of (pt_rows T) i = Some r \<and> pr_positionID r = i \<and> pr_state r \<in> set ss}"
    by (auto simp: pg_ids_def dest: map_of_SomeD split: option.splits) (force dest: map_of_SomeD)
  show "list_all2 (\<lambda>i x. \<forall>y. x = Inr y \<longrightarrow> (\<exists>r. map_of (pt_rows T) i = Some r \<and> pr_positionID r = i \<and> shown D r y)) ?is
      (map Inr (pg_select (\<lambda>r. pr_state r \<in> set ss) T))"
    by (auto simp: pg_select_def list_all2_map2 list_all2_same pg_ids_def shown_cut split: option.splits)
qed

interpretation pg: position_store D pg_pool pg_tables pg_pending for D
proof unfold_locales
  fix w w' :: pg and s e ss rs r i y r'
  show "pp_Begin pg_pool w = (None, w') \<Longrightarrow> pg_tables w' = pg_tables w \<and> pg_pending w' = []"
    by (auto simp: pg_pool_def dest: pg_do_none)
  show "pp_Begin pg_pool w = (Some e, w') \<Longrightarrow> pg_tables w' = pg_tables w"
    by (auto simp: pg_pool_def dest: pg_do_some)
  show "pp_TxExec pg_pool s w = (None, w') \<Longrightarrow> pg_tables w' = pg_tables w \<and> pg_pending w' = pg_pending w @ [s]"
    by (auto simp: pg_pool_def dest: pg_do_none)
  show "pp_TxExec pg_pool s w = (Some e, w') \<Longrightarrow> pg_tables w' = pg_tables w"
    by (auto simp: pg_pool_def dest: pg_do_some)
  show "pp_Commit pg_pool w = (None, w') \<Longrightarrow> pg_tables w' = fold apply_pos (pg_pending w) (pg_tables w)"
    using next_fault_frame [of w] by (auto simp: pg_pool_def pg_commit_def split: prod.splits fault.splits)
  show "pp_Commit pg_pool w = (Some e, w') \<Longrightarrow>
      pg_tables w' = pg_tables w \<or> pg_tables w' = fold apply_pos (pg_pending w) (pg_tables w)"
    using next_fault_frame [of w] by (auto simp: pg_pool_def pg_commit_def split: prod.splits fault.splits)
  show "pg_tables (pp_Rollback pg_pool w) = pg_tables w"
    by (simp add: pg_pool_def)
  show "pp_QueryStates pg_pool ss w = (r, w') \<Longrightarrow> pg_tables w' = pg_tables w"
    using next_fault_frame [of w] by (auto simp: pg_pool_def split: prod.splits fault.splits)
  show "pp_QueryStates pg_pool ss w = (Inr (rs, None), w') \<Longrightarrow> selects D (pg_tables w) ss rs"
    using pg_selects by (auto simp: pg_pool_def split: prod.splits fault.splits)
  show "pp_QueryRow pg_pool i w = (r', w') \<Longrightarrow> pg_tables w' = pg_tables w"
    using next_fault_frame [of w] by (auto simp: pg_pool_def split: prod.splits fault.splits list.splits)
  show "pp_QueryRow pg_pool i w = (Inr y, w') \<Longrightarrow>
      \<exists>r. map_of (pt_rows (pg_tables w)) i = Some r \<and> pr_positionID r = i \<and> shown D r y"
    using pg_select_mem [of y "\<lambda>r. pr_positionID r = i" "pg_tables w"]
    by (auto simp: pg_pool_def shown_cut split: prod.splits fault.splits list.splits)
qed

section \<open>Examples\<close>

definition empty_tables :: pos_tables where
  "empty_tables = \<lparr>pt_rows = [], pt_transitions = [], pt_audit = []\<rparr>"

definition fresh_pg :: "fault list \<Rightarrow> pg" where
  "fresh_pg fs = \<lparr>pg_tables = empty_tables, pg_pending = [], pg_faults = fs\<rparr>"

definition example_stored :: Position where
  "example_stored = (NewPosition ''P1'' ''BTC'' ExchangeBinance ExchangeBybit 1000)
     \<lparr>pos_State := StateQualified, pos_TargetBaseQty := 3\<rparr>"

definition example_transition :: Transition where
  "example_transition = \<lparr>tr_From = StateDiscovered, tr_To = StateQualified, tr_At = 2000, tr_Reason = ''signal'',
     tr_Actor = ''engine''\<rparr>"

theorem on_transition_atomic_witness:
  "\<exists>w. OnTransition sp_ref pg_pool example_stored example_transition (fresh_pg []) = (None, w)
     \<and> length (pt_transitions (pg_tables w)) = 1 \<and> length (pt_audit (pg_tables w)) = 1"
proof -
  obtain r w where o: "OnTransition sp_ref pg_pool example_stored example_transition (fresh_pg []) = (r, w)" by (metis surj_pair)
  then have "r = None"
    by (simp add: OnTransition_def WriteTx_def pg_pool_def pg_do_def next_fault_def pg_commit_def fresh_pg_def)
  moreover have "pg_tables w = fold apply_pos (transition_stmts sp_ref example_stored example_transition) empty_tables"
    using on_transition_atomic [OF pg.position_store_axioms o] \<open>r = None\<close> by (simp add: fresh_pg_def)
  ultimately show ?thesis
    using o by (simp add: transition_stmts_def insert_transition_def empty_tables_def)
qed

theorem stored_position_loads_witness:
  "\<exists>w1 w2. OnTransition sp_ref pg_pool example_stored example_transition (fresh_pg []) = (None, w1)
     \<and> Repo_Load sp_ref pg_pool ''P1'' w1 = (Inr (as_loaded example_stored), w2)"
proof -
  obtain r w1 where o: "OnTransition sp_ref pg_pool example_stored example_transition (fresh_pg []) = (r, w1)" by (metis surj_pair)
  obtain q w2 where q: "pp_QueryRow pg_pool ''P1'' w1 = (q, w2)" by (metis surj_pair)
  have "r = None \<and> (\<exists>y. q = Inr y)"
    using o q by (auto simp: OnTransition_def WriteTx_def pg_pool_def pg_do_def next_fault_def pg_commit_def fresh_pg_def
        pg_select_def pg_ids_def empty_tables_def insert_transition_def upsert_args_def Position_Snapshot_def
        example_stored_def NewPosition_def)
  then obtain y where y: "r = None" "q = Inr y" by blast
  have s: "storable sp_ref example_stored" by code_simp
  have "\<forall>r. map_of (pt_rows (pg_tables (fresh_pg []))) (pos_ID example_stored) = Some r \<longrightarrow> same_fixed sp_ref example_stored r"
    by (simp add: fresh_pg_def empty_tables_def)
  moreover have "pos_ID example_stored = ''P1''" by (simp add: example_stored_def NewPosition_def)
  ultimately show ?thesis
    using stored_position_loads [OF pg.position_store_axioms o [unfolded y] s] q y o by metis
qed

text \<open>The reference store with a commit that is refused instead of answered too late.\<close>

definition decisive_pool :: "pg pos_pool" where
  "decisive_pool = pg_pool\<lparr>pp_Commit := (\<lambda>w. case next_fault w of
     (NoFault, w') \<Rightarrow> (None, pg_commit w') | (_, w') \<Rightarrow> (Some (DbFailed ''refused''), w'))\<rparr>"

interpretation dpg: position_store D decisive_pool pg_tables pg_pending for D
  using pg.begin_ok pg.begin_failed pg.exec_ok pg.exec_failed pg.rollback pg.states_pure pg.states_ok pg.row_pure pg.row_ok
  by unfold_locales
    (auto simp: decisive_pool_def pg_commit_def split: prod.splits fault.splits dest: next_fault_frame)

lemma decisive_pool_decisive: "decisive decisive_pool pg_tables"
  by (auto simp: decisive_def decisive_pool_def split: prod.splits fault.splits dest: next_fault_frame)

text \<open>A refused first attempt, then a recorded one.\<close>

definition example_attempt :: "Position \<Rightarrow> pg \<Rightarrow> (pos_error + unit) \<times> Position \<times> pg" where
  "example_attempt p w = TransitionTo p StateQualified 2000 ''signal'' ''engine'' (Some (repo_persister sp_ref decisive_pool)) w"

lemma example_retry:
  "case example_attempt (NewPosition ''P1'' ''BTC'' ExchangeBinance ExchangeBybit 1000)
       (fresh_pg [NoFault, NoFault, NoFault, NoFault, Refused]) of (r, p, w) \<Rightarrow>
     (case example_attempt p w of (r', p', w') \<Rightarrow>
        pos_State p' = StateQualified \<and> trail p' = [(StateDiscovered, StateQualified)])"
  by code_simp

theorem history_is_stored_witness:
  "\<exists>p w. (repo_step sp_ref decisive_pool)\<^sup>*\<^sup>* (NewPosition ''P1'' ''BTC'' ExchangeBinance ExchangeBybit 1000,
         fresh_pg [NoFault, NoFault, NoFault, NoFault, Refused]) (p, w)
     \<and> pos_State p = StateQualified \<and> stored_trail ''P1'' (pg_tables w) = [(''DISCOVERED'', ''QUALIFIED'')]"
proof -
  let ?p = "NewPosition ''P1'' ''BTC'' ExchangeBinance ExchangeBybit 1000"
  let ?w = "fresh_pg [NoFault, NoFault, NoFault, NoFault, Refused]"
  let ?t = "\<lambda>p w. TransitionTo p StateQualified 2000 ''signal'' ''engine'' (Some (repo_persister sp_ref decisive_pool)) w"
  obtain r p w where t1: "?t ?p ?w = (r, p, w)" by (metis prod_cases3)
  obtain r' p' w' where t2: "?t p w = (r', p', w')" by (metis prod_cases3)
  have "(repo_step sp_ref decisive_pool)\<^sup>*\<^sup>* (?p, ?w) (p', w')"
    using repo_step.own [OF t1] repo_step.own [OF t2] by (meson converse_rtranclp_into_rtranclp rtranclp.rtrancl_refl)
  moreover have "pos_State p' = StateQualified \<and> trail p' = [(StateDiscovered, StateQualified)]"
    using example_retry unfolding example_attempt_def t1 t2 prod.case by simp
  moreover have "stored_trail ''P1'' (pg_tables w') = map (\<lambda>(a, b). (PState_text a, PState_text b)) (trail p')
      \<and> (trail p' \<noteq> [] \<longrightarrow> stored_state ''P1'' (pg_tables w') = Some (PState_text (pos_State p')))"
    by (rule history_is_stored [OF dpg.position_store_axioms decisive_pool_decisive calculation(1)])
      (simp_all add: stored_trail_def stored_state_def fresh_pg_def empty_tables_def)
  ultimately show ?thesis by (auto simp: PState_text_def named_states_def)
qed

text \<open>With a commit whose answer is lost the position goes back while the table goes ahead.\<close>

lemma lost_commit_diverges:
  "case TransitionTo (NewPosition ''P1'' ''BTC'' ExchangeBinance ExchangeBybit 1000) StateQualified 2000 ''signal'' ''engine''
       (Some (repo_persister sp_ref pg_pool)) (fresh_pg [NoFault, NoFault, NoFault, NoFault, AnswerLost]) of
     (r, p, w) \<Rightarrow> pos_State p = StateDiscovered \<and> stored_state ''P1'' (pg_tables w) = Some ''QUALIFIED''"
  by code_simp

end
