(* ===== verification/LegsRepo.thy ===== *)
theory LegsRepo
  imports EngineState PositionRepo
begin

text \<open>
  Package \<open>internal/repository\<close> (\<open>legs.go\<close>): the two legs of a position in the table \<open>position_legs\<close>, whose sizes
  \<open>positions\<close> does not keep.  As in theory \<open>PositionRepo\<close> the pool is a record and the locale \<open>leg_store\<close> states what
  the database does with the two statements.
\<close>

fun Side_text :: "Side \<Rightarrow> string" where
  "Side_text SideLong = ''long''"
| "Side_text SideShort = ''short''"
| "Side_text (SideOther s) = s"

definition legID :: "PositionID \<Rightarrow> Side \<Rightarrow> string" where
  "legID positionID side = positionID @ ''-'' @ Side_text side"

record legRow =
  lw_legID :: string
  lw_positionID :: PositionID
  lw_exchange :: string
  lw_symbol :: string
  lw_side :: string
  lw_baseQty :: string
  lw_entryVWAP :: "string option"
  lw_status :: string

record 'w legs_pool =
  lp_Exec :: "legRow \<Rightarrow> 'w \<Rightarrow> db_error option \<times> 'w" \<comment> \<open>the upsert\<close>
  lp_Query :: "PositionID \<Rightarrow> 'w \<Rightarrow> (db_error + (db_error + string \<times> string) list \<times> db_error option) \<times> 'w"

definition leg_args :: "sp_ops \<Rightarrow> LegState \<Rightarrow> legRow" where
  "leg_args D leg =
     \<lparr>lw_legID = legID (lg_PositionID leg) (lg_Side leg), lw_positionID = lg_PositionID leg, lw_exchange = lg_Exchange leg,
      lw_symbol = lg_Symbol leg, lw_side = Side_text (lg_Side leg), lw_baseQty = decimalToNumeric D (lg_BaseQty leg),
      lw_entryVWAP = (if lg_EntryVWAP leg \<noteq> 0 then Some (decimalToNumeric D (lg_EntryVWAP leg)) else None),
      lw_status = (if lg_Status leg = [] then ''open'' else lg_Status leg)\<rparr>"

definition Legs_Upsert :: "sp_ops \<Rightarrow> 'w legs_pool \<Rightarrow> LegState \<Rightarrow> 'w \<Rightarrow> string option \<times> 'w" where
  "Legs_Upsert D L leg w =
     (case lp_Exec L (leg_args D leg) w of
        (e, w') \<Rightarrow> (map_option (\<lambda>_. ''repository: upsert leg '' @ lg_PositionID leg @ ''/'' @ Side_text (lg_Side leg)) e, w'))"

text \<open>The loop of \<open>Load\<close>: a side that is neither long nor short is skipped.\<close>

fun load_legs ::
  "sp_ops \<Rightarrow> PositionID \<Rightarrow> (db_error + string \<times> string) list \<Rightarrow> db_error option \<Rightarrow> LegQuantities
   \<Rightarrow> string + LegQuantities" where
  "load_legs D i [] None acc = Inr acc"
| "load_legs D i [] (Some e) acc = Inl (''repository: iterate legs '' @ i)"
| "load_legs D i (Inl e # rs) fin acc = Inl (''repository: scan leg '' @ i)"
| "load_legs D i (Inr (side, q) # rs) fin acc =
     (case numericToDecimal D q of
        Inl e \<Rightarrow> Inl (''repository: leg qty '' @ i)
      | Inr qty \<Rightarrow>
          (if side = Side_text SideLong then load_legs D i rs fin (acc\<lparr>lq_LongBaseQty := qty, lq_Found := True\<rparr>)
           else if side = Side_text SideShort then load_legs D i rs fin (acc\<lparr>lq_ShortBaseQty := qty, lq_Found := True\<rparr>)
           else load_legs D i rs fin acc))"

definition Legs_Load :: "sp_ops \<Rightarrow> 'w legs_pool \<Rightarrow> PositionID \<Rightarrow> 'w \<Rightarrow> (string + LegQuantities) \<times> 'w" where
  "Legs_Load D L i w =
     (case lp_Query L i w of
        (Inl e, w') \<Rightarrow> (Inl (''repository: load legs '' @ i), w')
      | (Inr (rs, fin), w') \<Rightarrow>
          (load_legs D i rs fin \<lparr>lq_LongBaseQty = Dec_Zero, lq_ShortBaseQty = Dec_Zero, lq_Found = False\<rparr>, w'))"

definition repo_legs :: "sp_ops \<Rightarrow> 'w legs_pool \<Rightarrow> 'w legs_repo" where
  "repo_legs D L = \<lparr>lr_Upsert = Legs_Upsert D L, lr_Load = Legs_Load D L\<rparr>"

section \<open>The table\<close>

type_synonym leg_table = "PositionID \<Rightarrow> string \<rightharpoonup> legRow"

text \<open>The conflict clause keeps the entry price when the new one is missing.\<close>

definition apply_leg :: "legRow \<Rightarrow> leg_table \<Rightarrow> leg_table" where
  "apply_leg r T = T(lw_positionID r := (T (lw_positionID r))(lw_side r \<mapsto>
     (case T (lw_positionID r) (lw_side r) of
        None \<Rightarrow> r
      | Some old \<Rightarrow> old\<lparr>lw_exchange := lw_exchange r, lw_symbol := lw_symbol r, lw_baseQty := lw_baseQty r,
          lw_entryVWAP := (if lw_entryVWAP r = None then lw_entryVWAP old else lw_entryVWAP r), lw_status := lw_status r\<rparr>)))"

text \<open>A complete result: one row per stored side, the quantity of the same value.\<close>

definition leg_rows :: "sp_ops \<Rightarrow> leg_table \<Rightarrow> PositionID \<Rightarrow> (string \<times> string) list \<Rightarrow> bool" where
  "leg_rows D T i rs \<longleftrightarrow> distinct (map fst rs) \<and> fst ` set rs = dom (T i)
     \<and> (\<forall>(side, q) \<in> set rs. \<forall>r. T i side = Some r \<longrightarrow> numericToDecimal D q = numericToDecimal D (lw_baseQty r))"

locale leg_store =
  fixes D :: sp_ops and L :: "'w legs_pool" and legs :: "'w \<Rightarrow> leg_table"
  assumes leg_exec_ok: "lp_Exec L r w = (None, w') \<Longrightarrow> legs w' = apply_leg r (legs w)"
    and leg_exec_failed: "lp_Exec L r w = (Some e, w') \<Longrightarrow> legs w' = legs w \<or> legs w' = apply_leg r (legs w)"
    and leg_query_pure: "lp_Query L i w = (x, w') \<Longrightarrow> legs w' = legs w"
    and leg_query_ok: "lp_Query L i w = (Inr (map Inr rs, None), w') \<Longrightarrow> leg_rows D (legs w) i rs"

text \<open>The stored size of a leg.\<close>

definition stored_leg :: "sp_ops \<Rightarrow> leg_table \<Rightarrow> PositionID \<Rightarrow> Side \<Rightarrow> decimal option" where
  "stored_leg D T i side = (case T i (Side_text side) of None \<Rightarrow> None | Some r \<Rightarrow>
     (case numericToDecimal D (lw_baseQty r) of Inl e \<Rightarrow> None | Inr q \<Rightarrow> Some q))"

lemma load_legs_rows:
  "load_legs D i rs fin acc = Inr q \<Longrightarrow> fin = None \<and> (\<exists>ys. rs = map Inr ys)"
  by (induction D i rs fin acc arbitrary: q rule: load_legs.induct)
    (auto split: sum.splits if_splits intro: exI [of _ "_ # _"] simp: Cons_eq_map_conv)

lemma load_legs_sizes:
  assumes "load_legs D i (map Inr ys) None acc = Inr q" and "distinct (map fst ys)"
  shows "(\<forall>(side, u) \<in> set ys. \<exists>x. numericToDecimal D u = Inr x)
     \<and> lq_LongBaseQty q = (case map_of ys ''long'' of None \<Rightarrow> lq_LongBaseQty acc | Some u \<Rightarrow> projr (numericToDecimal D u))
     \<and> lq_ShortBaseQty q = (case map_of ys ''short'' of None \<Rightarrow> lq_ShortBaseQty acc | Some u \<Rightarrow> projr (numericToDecimal D u))
     \<and> lq_Found q = (lq_Found acc \<or> ''long'' \<in> fst ` set ys \<or> ''short'' \<in> fst ` set ys)"
  using assms
proof (induction ys arbitrary: acc)
  case (Cons y ys)
  obtain side u where y: "y = (side, u)" by (cases y)
  obtain x where x: "numericToDecimal D u = Inr x" using Cons.prems(1) y by (auto split: sum.splits)
  have n: "map_of ys side = None" using Cons.prems(2) y by (simp add: map_of_eq_None_iff)
  consider "side = ''long''" | "side = ''short''" | "side \<noteq> ''long''" "side \<noteq> ''short''" by blast
  then show ?case
  proof cases
    case 1
    then show ?thesis using Cons.prems Cons.IH [of "acc\<lparr>lq_LongBaseQty := x, lq_Found := True\<rparr>"] x y n
      by (auto split: option.splits)
  next
    case 2
    then show ?thesis using Cons.prems Cons.IH [of "acc\<lparr>lq_ShortBaseQty := x, lq_Found := True\<rparr>"] x y n
      by (auto split: option.splits)
  next
    case 3
    then show ?thesis using Cons.prems Cons.IH [of acc] x y n by auto
  qed
qed auto

context leg_store
begin

text \<open>A load that succeeds reports the stored sizes, a missing leg as zero.\<close>

lemma Legs_Load_sizes:
  assumes "Legs_Load D L i w = (Inr q, w')"
  shows "lq_LongBaseQty q = (case stored_leg D (legs w) i SideLong of None \<Rightarrow> 0 | Some x \<Rightarrow> x)
     \<and> lq_ShortBaseQty q = (case stored_leg D (legs w) i SideShort of None \<Rightarrow> 0 | Some x \<Rightarrow> x)
     \<and> lq_Found q = (stored_leg D (legs w) i SideLong \<noteq> None \<or> stored_leg D (legs w) i SideShort \<noteq> None)"
proof -
  obtain rs fin where r: "lp_Query L i w = (Inr (rs, fin), w')"
    and l: "load_legs D i rs fin \<lparr>lq_LongBaseQty = Dec_Zero, lq_ShortBaseQty = Dec_Zero, lq_Found = False\<rparr> = Inr q"
    using assms by (auto simp: Legs_Load_def split: prod.splits sum.splits)
  obtain ys where ys: "fin = None" "rs = map Inr ys" using load_legs_rows [OF l] by blast
  have t: "leg_rows D (legs w) i ys" using leg_query_ok r ys by blast
  then have d: "distinct (map fst ys)" by (simp add: leg_rows_def)
  note z = load_legs_sizes [OF l [unfolded ys] d]
  have v: "(case stored_leg D (legs w) i side of None \<Rightarrow> 0 | Some x \<Rightarrow> x)
      = (case map_of ys (Side_text side) of None \<Rightarrow> 0 | Some u \<Rightarrow> projr (numericToDecimal D u))
    \<and> (stored_leg D (legs w) i side \<noteq> None \<longleftrightarrow> Side_text side \<in> fst ` set ys)" for side
  proof (cases "map_of ys (Side_text side)")
    case None
    then have m: "Side_text side \<notin> fst ` set ys" by (simp add: map_of_eq_None_iff)
    then have "legs w i (Side_text side) = None" using t by (auto simp: leg_rows_def)
    then show ?thesis using None m by (simp add: stored_leg_def)
  next
    case (Some u)
    then have m: "(Side_text side, u) \<in> set ys" by (rule map_of_SomeD)
    then have "Side_text side \<in> dom (legs w i)" using t by (force simp: leg_rows_def)
    then obtain r where r: "legs w i (Side_text side) = Some r" by blast
    obtain x where x: "numericToDecimal D u = Inr x" using z m by blast
    moreover have "numericToDecimal D u = numericToDecimal D (lw_baseQty r)" using t m r by (auto simp: leg_rows_def)
    ultimately have "stored_leg D (legs w) i side = Some x" using r by (simp add: stored_leg_def)
    moreover have "Side_text side \<in> fst ` set ys" using m by force
    ultimately show ?thesis using Some x by simp
  qed
  show ?thesis using z v [of SideLong] v [of SideShort] by (simp cong: option.case_cong)
qed

lemma Legs_Load_keeps: "Legs_Load D L i w = (r, w') \<Longrightarrow> legs w' = legs w"
  using leg_query_pure by (auto simp: Legs_Load_def split: prod.splits sum.splits)

end

text \<open>What the upsert of a leg leaves in the table.\<close>

lemma stored_leg_apply:
  assumes "reads_back D (lg_BaseQty leg)"
  shows "stored_leg D (apply_leg (leg_args D leg) T) i side
     = (if i = lg_PositionID leg \<and> Side_text side = Side_text (lg_Side leg) then Some (lg_BaseQty leg) else stored_leg D T i side)"
  using assms by (auto simp: stored_leg_def apply_leg_def leg_args_def reads_back_def split: option.splits)

text \<open>
  The sizes of the two legs that the engine records for a position are the sizes a later load of it
  reports, whatever was stored before.
\<close>

lemma legs_roundtrip:
  assumes "leg_store D L legs" and "reads_back D (pos_LongBaseQty (op_pos p))" and "reads_back D (pos_ShortBaseQty (op_pos p))"
    and "Legs_Upsert D L (leg_states p ! 0) w = (None, w1)" and "Legs_Upsert D L (leg_states p ! 1) w1 = (None, w2)"
    and "Legs_Load D L (pos_ID (op_pos p)) w2 = (Inr q, w3)"
  shows "q = \<lparr>lq_LongBaseQty = pos_LongBaseQty (op_pos p), lq_ShortBaseQty = pos_ShortBaseQty (op_pos p), lq_Found = True\<rparr>"
proof -
  have "legs w2 = apply_leg (leg_args D (leg_states p ! 1)) (apply_leg (leg_args D (leg_states p ! 0)) (legs w))"
    using assms(4,5) leg_store.leg_exec_ok [OF assms(1)] by (auto simp: Legs_Upsert_def split: prod.splits)
  then have "stored_leg D (legs w2) (pos_ID (op_pos p)) SideLong = Some (pos_LongBaseQty (op_pos p))"
      "stored_leg D (legs w2) (pos_ID (op_pos p)) SideShort = Some (pos_ShortBaseQty (op_pos p))"
    using assms(2,3) by (simp_all add: stored_leg_apply leg_states_def Let_def)
  then show ?thesis using leg_store.Legs_Load_sizes [OF assms(1,6)] by simp
qed

end
