(* ===== verification/Restart.thy ===== *)
theory Restart
  imports LegsRepo Engine
begin

text \<open>
  A restart of the trading engine: \<open>Restore\<close> of \<open>engine.go\<close> on the repositories of \<open>positions.go\<close> and \<open>legs.go\<close>.

  The locale \<open>engine_store\<close> puts the two tables into one world; reading one of them, and the clock, leave both as
  they are.
\<close>

locale engine_store =
  position_store D P tables pending + leg_store D L legs
  for D :: sp_ops and P :: "'w pos_pool" and tables :: "'w \<Rightarrow> pos_tables" and pending :: "'w \<Rightarrow> pos_stmt list"
    and L :: "'w legs_pool" and legs :: "'w \<Rightarrow> leg_table" +
  fixes clock :: "'w \<Rightarrow> time \<times> 'w"
  assumes states_legs: "pp_QueryStates P ss w = (r, w') \<Longrightarrow> legs w' = legs w"
    and clock_pure: "clock w = (t, w') \<Longrightarrow> tables w' = tables w \<and> legs w' = legs w"

text \<open>The engine's dependencies on the repositories.\<close>

definition load_positions ::
  "sp_ops \<Rightarrow> 'w pos_pool \<Rightarrow> string list \<Rightarrow> 'w \<Rightarrow> (string + Position list) \<times> 'w" where
  "load_positions D P ss w =
     (case LoadByStates D P ss w of (Inl e, w') \<Rightarrow> (Inl (error_text e), w') | (Inr ps, w') \<Rightarrow> (Inr ps, w'))"

definition on_repositories :: "sp_ops \<Rightarrow> 'd pos_pool \<Rightarrow> 'd legs_pool \<Rightarrow> ('d \<Rightarrow> time \<times> 'd) \<Rightarrow> ('v, 'd) Deps \<Rightarrow> bool" where
  "on_repositories D P L clock dp \<longleftrightarrow> dp_Dec dp = D \<and> dp_Positions dp = Some (load_positions D P)
     \<and> dp_Persister dp = repo_persister D P \<and> dp_Legs dp = Some (repo_legs D L) \<and> dp_Clock dp = clock"

section \<open>One restored position\<close>

text \<open>
  The open position that a loaded one becomes: with the stored legs when their query answered and found any, otherwise
  with the legs it was loaded with.
\<close>

definition restored_as :: "sp_ops \<Rightarrow> leg_table \<Rightarrow> bool \<Rightarrow> Position \<Rightarrow> openPosition \<Rightarrow> bool" where
  "restored_as D T answered p op \<longleftrightarrow>
     op_longEx op = pos_LongExchange p \<and> op_shortEx op = pos_ShortExchange p \<and> op_asset op = pos_Asset p
     \<and> (let l = stored_leg D T (pos_ID p) SideLong; s = stored_leg D T (pos_ID p) SideShort
        in if answered \<and> (l \<noteq> None \<or> s \<noteq> None)
           then \<exists>t. op_pos op = p\<lparr>pos_LongBaseQty := (case l of None \<Rightarrow> 0 | Some x \<Rightarrow> x),
                  pos_ShortBaseQty := (case s of None \<Rightarrow> 0 | Some x \<Rightarrow> x), pos_UpdatedAt := t\<rparr>
           else op_pos op = p)"

lemma resolveSymbols_keeps:
  assumes "resolveSymbols dp d p = (b, p')"
  shows "op_pos p' = op_pos p \<and> op_longEx p' = op_longEx p \<and> op_shortEx p' = op_shortEx p \<and> op_asset p' = op_asset p"
  using assms by (auto simp: resolveSymbols_def split: if_splits option.splits)

context engine_store
begin

lemma restore_one_result:
  assumes "restore_one dp p (en, d) = (en', d')" and "on_repositories D P L clock dp" and "\<not> PState_IsTerminal (pos_State p)"
  shows "legs d' = legs d \<and> (\<exists>op. en' = registerOpen (pos_ID p) op en \<and>
     (restored_as D (legs d) True p op
      \<or> restored_as D (legs d) False p op \<and> (\<exists>d1 e d2. legs d1 = legs d \<and> Legs_Load D L (pos_ID p) d1 = (Inl e, d2))))"
proof -
  define p0 where "p0 = \<lparr>op_pos = p, op_longSym = [], op_shortSym = [], op_longEx = pos_LongExchange p,
      op_shortEx = pos_ShortExchange p, op_asset = pos_Asset p, op_tickSize = 0\<rparr>"
  obtain b p1 where r: "resolveSymbols dp d p0 = (b, p1)" by (metis surj_pair)
  have k: "op_longEx p1 = pos_LongExchange p" "op_shortEx p1 = pos_ShortExchange p" "op_asset p1 = pos_Asset p"
    using resolveSymbols_keeps [OF r] by (simp_all add: p0_def)
  obtain x d1 where l: "Legs_Load D L (pos_ID p) d = (x, d1)" by (metis surj_pair)
  have repo: "dp_Legs dp = Some (repo_legs D L)" "lr_Load (repo_legs D L) = Legs_Load D L" "dp_Clock dp = clock"
    using assms(2) by (simp_all add: on_repositories_def repo_legs_def)
  note run = assms(1) [unfolded restore_one_def prod.case p0_def [symmetric] r Let_def snd_conv repo option.case if_not_P [OF assms(3)] l]
  have kept: "legs d1 = legs d" using Legs_Load_keeps [OF l] .
  show ?thesis
  proof (cases x)
    case (Inl e)
    then have "en' = registerOpen (pos_ID p) (p1\<lparr>op_pos := p\<rparr>) en \<and> d' = d1" using run by simp
    moreover have "restored_as D (legs d) False p (p1\<lparr>op_pos := p\<rparr>)" using k by (simp add: restored_as_def Let_def)
    ultimately show ?thesis using kept l Inl by blast
  next
    case (Inr q)
    note z = Legs_Load_sizes [OF l [unfolded Inr]]
    show ?thesis
    proof (cases "lq_Found q")
      case False
      then have "en' = registerOpen (pos_ID p) (p1\<lparr>op_pos := p\<rparr>) en \<and> d' = d1" using run Inr by simp
      moreover have "restored_as D (legs d) True p (p1\<lparr>op_pos := p\<rparr>)" using k z False by (simp add: restored_as_def Let_def)
      ultimately show ?thesis using kept by blast
    next
      case True
      obtain t d2 where c: "clock d1 = (t, d2)" by (metis surj_pair)
      have s: "set_quantities_now dp p (lq_LongBaseQty q) (lq_ShortBaseQty q) d1
          = (p\<lparr>pos_LongBaseQty := lq_LongBaseQty q, pos_ShortBaseQty := lq_ShortBaseQty q, pos_UpdatedAt := t\<rparr>, d2)"
        using assms(3) c repo by (simp add: set_quantities_now_def SetQuantities_def)
      define op where "op = p1\<lparr>op_pos := p\<lparr>pos_LongBaseQty := lq_LongBaseQty q, pos_ShortBaseQty := lq_ShortBaseQty q,
          pos_UpdatedAt := t\<rparr>\<rparr>"
      have "en' = registerOpen (pos_ID p) op en \<and> d' = d2" using run Inr True s by (simp add: op_def)
      moreover have "restored_as D (legs d) True p op" using k z True by (auto simp: restored_as_def Let_def op_def)
      ultimately show ?thesis using kept clock_pure [OF c] by auto
    qed
  qed
qed

text \<open>All of them, each under its own identifier.\<close>

lemma fold_restore_result:
  assumes "fold (restore_one dp) ps (en, d) = (en', d')" and "on_repositories D P L clock dp"
    and "\<forall>p \<in> set ps. \<not> PState_IsTerminal (pos_State p)" and "distinct (map pos_ID ps)"
  shows "(\<forall>p \<in> set ps. \<exists>op. map_of (en_open en') (pos_ID p) = Some op \<and>
       (restored_as D (legs d) True p op
        \<or> restored_as D (legs d) False p op \<and> (\<exists>d1 e d2. legs d1 = legs d \<and> Legs_Load D L (pos_ID p) d1 = (Inl e, d2))))
     \<and> (\<forall>j. j \<notin> pos_ID ` set ps \<longrightarrow> map_of (en_open en') j = map_of (en_open en) j)"
  using assms(1,3,4)
proof (induction ps arbitrary: en d)
  case (Cons p ps)
  obtain en1 d1 where r: "restore_one dp p (en, d) = (en1, d1)" by (metis surj_pair)
  obtain op where op: "legs d1 = legs d" "en1 = registerOpen (pos_ID p) op en"
      "restored_as D (legs d) True p op
        \<or> restored_as D (legs d) False p op \<and> (\<exists>d1 e d2. legs d1 = legs d \<and> Legs_Load D L (pos_ID p) d1 = (Inl e, d2))"
    using restore_one_result [OF r assms(2)] Cons.prems(2) by auto
  have f: "fold (restore_one dp) ps (en1, d1) = (en', d')" using Cons.prems(1) r by simp
  have ih: "(\<forall>p \<in> set ps. \<exists>op. map_of (en_open en') (pos_ID p) = Some op \<and>
       (restored_as D (legs d) True p op
        \<or> restored_as D (legs d) False p op \<and> (\<exists>d1 e d2. legs d1 = legs d \<and> Legs_Load D L (pos_ID p) d1 = (Inl e, d2))))
     \<and> (\<forall>j. j \<notin> pos_ID ` set ps \<longrightarrow> map_of (en_open en') j = map_of (en_open en1) j)"
    using Cons.IH [OF f] Cons.prems(2,3) op(1) by simp
  have m: "map_of (en_open en1) j = (if j = pos_ID p then Some op else map_of (en_open en) j)" for j
    using op(2) by (simp add: registerOpen_def update_conv')
  have "pos_ID p \<notin> pos_ID ` set ps" using Cons.prems(3) by (simp add: image_iff)
  then show ?case using ih m op(3) by auto
qed simp

end

section \<open>The restart\<close>

lemma load_rows_all:
  "load_rows D rs fin = Inr ps \<Longrightarrow> fin = None \<and> list_all2 (\<lambda>x p. \<exists>y. x = Inr y \<and> restorePosition D y = Inr p) rs ps"
  by (induction D rs fin arbitrary: ps rule: load_rows.induct) (auto split: sum.splits)

lemma restorePosition_fields:
  "restorePosition D y = Inr p \<Longrightarrow> pos_ID p = pr_positionID y \<and> pos_State p = PState_of (pr_state y)"
  by (auto simp: restorePosition_def RestorePosition_def split: sum.splits)

text \<open>A restorable row of the table with the position it is loaded as.\<close>

definition loads_as :: "sp_ops \<Rightarrow> pos_tables \<Rightarrow> PositionID \<Rightarrow> Position \<Rightarrow> bool" where
  "loads_as D T i p \<longleftrightarrow> (\<exists>r y. map_of (pt_rows T) i = Some r \<and> pr_positionID r = i \<and> pr_state r \<in> set restore_states
     \<and> shown D r y \<and> restorePosition D y = Inr p)"

lemma shown_id: "shown D r y \<Longrightarrow> pr_positionID y = pr_positionID r \<and> pr_state y = pr_state r"
  by (simp add: shown_def)

lemma selects_loads:
  assumes "selects D T restore_states rs" and "load_rows D rs fin = Inr ps"
  shows "distinct (map pos_ID ps) \<and> (\<forall>p \<in> set ps. loads_as D T (pos_ID p) p)
     \<and> pos_ID ` set ps = {i. \<exists>r. map_of (pt_rows T) i = Some r \<and> pr_positionID r = i \<and> pr_state r \<in> set restore_states}"
proof -
  let ?sel = "{i. \<exists>r. map_of (pt_rows T) i = Some r \<and> pr_positionID r = i \<and> pr_state r \<in> set restore_states}"
  obtain ids where ids: "distinct ids" "set ids = ?sel"
    and rows: "list_all2 (\<lambda>i x. \<forall>y. x = Inr y \<longrightarrow> (\<exists>r. map_of (pt_rows T) i = Some r \<and> pr_positionID r = i \<and> shown D r y)) ids rs"
    using assms(1) by (auto simp: selects_def)
  have "list_all2 (\<lambda>i p. \<exists>r y. map_of (pt_rows T) i = Some r \<and> pr_positionID r = i \<and> shown D r y \<and> restorePosition D y = Inr p) ids ps"
    by (rule list_all2_trans [OF _ rows conjunct2 [OF load_rows_all [OF assms(2)]]]) blast
  then have "list_all2 (\<lambda>i p. i \<in> ?sel \<and> (\<exists>r y. map_of (pt_rows T) i = Some r \<and> pr_positionID r = i \<and> shown D r y
      \<and> restorePosition D y = Inr p)) ids ps"
    unfolding ids(2) [symmetric] by (auto simp: list_all2_conv_all_nth)
  then have l: "list_all2 (\<lambda>i p. pos_ID p = i \<and> loads_as D T i p) ids ps"
    by (rule list_all2_mono) (use shown_id restorePosition_fields in \<open>fastforce simp: loads_as_def\<close>)
  then have "map pos_ID ps = ids" by (induction rule: list_all2_induct) auto
  moreover have "\<forall>p \<in> set ps. loads_as D T (pos_ID p) p" using l by (auto simp: list_all2_conv_all_nth in_set_conv_nth)
  ultimately show ?thesis using ids by (metis list.set_map)
qed

context engine_store
begin

lemma Restore_result:
  assumes "Restore dp en d = (None, en', d')" and "on_repositories D P L clock dp" and "en_open en = []"
  shows "case map_of (en_open en') i of
       None \<Rightarrow> \<nexists>r. map_of (pt_rows (tables d)) i = Some r \<and> pr_positionID r = i \<and> pr_state r \<in> set restore_states
     | Some op \<Rightarrow> \<exists>p. loads_as D (tables d) i p \<and>
         (restored_as D (legs d) True p op
          \<or> restored_as D (legs d) False p op \<and> (\<exists>d1 e d2. legs d1 = legs d \<and> Legs_Load D L i d1 = (Inl e, d2)))"
proof -
  obtain rs fin d1 where q: "pp_QueryStates P restore_states d = (Inr (rs, fin), d1)"
    and "\<exists>ps. load_rows D rs fin = Inr ps \<and> fold (restore_one dp) ps (en, d1) = (en', d')"
    using assms(1,2)
    by (auto simp: Restore_def on_repositories_def load_positions_def LoadByStates_def restore_states_def split: prod.splits sum.splits)
  then obtain ps where ps: "load_rows D rs fin = Inr ps" "fold (restore_one dp) ps (en, d1) = (en', d')" by blast
  have "selects D (tables d) restore_states rs" using states_ok q load_rows_all [OF ps(1)] by blast
  note sel = selects_loads [OF this ps(1)]
  have "\<forall>p \<in> set ps. \<not> PState_IsTerminal (pos_State p)"
  proof
    fix p assume "p \<in> set ps"
    then obtain r y where "pr_state r \<in> set restore_states" "shown D r y" "restorePosition D y = Inr p"
      using sel by (auto simp: loads_as_def)
    then have "pos_State p \<in> PState_of ` set restore_states" using restorePosition_fields by (auto simp: shown_def)
    then show "\<not> PState_IsTerminal (pos_State p)"
      by (auto simp: restore_states_def PState_of_def named_states_def PState_IsTerminal_def)
  qed
  from fold_restore_result [OF ps(2) assms(2) this] sel
  have f: "\<forall>p \<in> set ps. \<exists>op. map_of (en_open en') (pos_ID p) = Some op \<and>
       (restored_as D (legs d) True p op
        \<or> restored_as D (legs d) False p op \<and> (\<exists>d1 e d2. legs d1 = legs d \<and> Legs_Load D L (pos_ID p) d1 = (Inl e, d2)))"
      "\<forall>j. j \<notin> pos_ID ` set ps \<longrightarrow> map_of (en_open en') j = None"
    using assms(3) states_legs [OF q] by auto
  show ?thesis
  proof (cases "i \<in> pos_ID ` set ps")
    case True
    then obtain p where "p \<in> set ps" "pos_ID p = i" by blast
    then show ?thesis using f(1) sel by fastforce
  next
    case False
    then show ?thesis using f(2) sel by auto
  qed
qed

end

text \<open>One stored position: how the engine holds it after the restart.\<close>

lemma engine_store_restores:
  assumes "engine_store D P tables pending L legs clock" and "on_repositories D P L clock dp"
    and "Restore dp en d = (None, en', d')" and "en_open en = []"
    and "map_of (pt_rows (tables d)) (pos_ID p) = Some (upsert_args D p)" and "storable D p"
    and "PState_text (pos_State p) \<in> set restore_states"
  shows "\<exists>op. map_of (en_open en') (pos_ID p) = Some op
     \<and> (restored_as D (legs d) True (as_loaded p) op
        \<or> restored_as D (legs d) False (as_loaded p) op \<and> (\<exists>d1 e d2. legs d1 = legs d \<and> Legs_Load D L (pos_ID p) d1 = (Inl e, d2)))"
proof -
  have row: "pr_positionID (upsert_args D p) = pos_ID p" "pr_state (upsert_args D p) = PState_text (pos_State p)"
    by (simp_all add: upsert_args_def Position_Snapshot_def Let_def)
  note r = engine_store.Restore_result [OF assms(1,3,2,4), of "pos_ID p"]
  obtain op where "map_of (en_open en') (pos_ID p) = Some op"
    using r assms(5,7) row by (cases "map_of (en_open en') (pos_ID p)") auto
  with r have "\<exists>q. loads_as D (tables d) (pos_ID p) q \<and> (restored_as D (legs d) True q op
        \<or> restored_as D (legs d) False q op \<and> (\<exists>d1 e d2. legs d1 = legs d \<and> Legs_Load D L (pos_ID p) d1 = (Inl e, d2)))"
    by simp
  then obtain q where op: "map_of (en_open en') (pos_ID p) = Some op" "loads_as D (tables d) (pos_ID p) q"
      "restored_as D (legs d) True q op
        \<or> restored_as D (legs d) False q op \<and> (\<exists>d1 e d2. legs d1 = legs d \<and> Legs_Load D L (pos_ID p) d1 = (Inl e, d2))"
    using \<open>map_of (en_open en') (pos_ID p) = Some op\<close> by blast
  then obtain y where "shown D (upsert_args D p) y" "restorePosition D y = Inr q"
    using assms(5) by (auto simp: loads_as_def)
  then have "q = as_loaded p" using restore_shown [OF _ assms(6)] by simp
  then show ?thesis using op by blast
qed

text \<open>
  C27: a restart that reports no error brings back every position that was stored in an active state, whatever became of its
  legs, on its asset and its venues and in its state, and nothing else.  Its quantities are those of the stored legs, zero for a leg that is
  missing beside the other; when neither leg was stored, or when reading them failed, they are the ones of the positions table, which
  keeps the difference of the legs.
\<close>

theorem restart_restores:
  assumes "engine_store D P tables pending L legs clock" and "on_repositories D P L clock dp"
    and "Restore dp en d = (None, en', d')" and "en_open en = []"
    and "map_of (pt_rows (tables d)) (pos_ID p) = Some (upsert_args D p)" and "storable D p"
    and "PState_text (pos_State p) \<in> set restore_states"
  defines "l \<equiv> stored_leg D (legs d) (pos_ID p) SideLong" and "s \<equiv> stored_leg D (legs d) (pos_ID p) SideShort"
  shows "(\<exists>op. map_of (en_open en') (pos_ID p) = Some op \<and> op_asset op = pos_Asset p
       \<and> op_longEx op = pos_LongExchange p \<and> op_shortEx op = pos_ShortExchange p
       \<and> pos_State (op_pos op) = pos_State p
       \<and> (if l = None \<and> s = None then op_pos op = as_loaded p
          else (\<exists>t. op_pos op = (as_loaded p)\<lparr>pos_LongBaseQty := (case l of None \<Rightarrow> 0 | Some x \<Rightarrow> x),
                  pos_ShortBaseQty := (case s of None \<Rightarrow> 0 | Some x \<Rightarrow> x), pos_UpdatedAt := t\<rparr>)
            \<or> op_pos op = as_loaded p \<and> (\<exists>d1 e d2. legs d1 = legs d \<and> Legs_Load D L (pos_ID p) d1 = (Inl e, d2))))
     \<and> (\<forall>i. map_of (en_open en') i \<noteq> None \<longrightarrow>
          (\<exists>r. map_of (pt_rows (tables d)) i = Some r \<and> pr_state r \<in> set restore_states))"
proof
  have keeps: "pos_ID (as_loaded p) = pos_ID p" "pos_State (as_loaded p) = pos_State p" "pos_Asset (as_loaded p) = pos_Asset p"
      "pos_LongExchange (as_loaded p) = pos_LongExchange p" "pos_ShortExchange (as_loaded p) = pos_ShortExchange p"
    by (simp_all add: as_loaded_def)
  obtain op where op: "map_of (en_open en') (pos_ID p) = Some op"
      "restored_as D (legs d) True (as_loaded p) op
        \<or> restored_as D (legs d) False (as_loaded p) op \<and> (\<exists>d1 e d2. legs d1 = legs d \<and> Legs_Load D L (pos_ID p) d1 = (Inl e, d2))"
    using engine_store_restores [OF assms(1-7)] by blast
  have "op_asset op = pos_Asset p \<and> op_longEx op = pos_LongExchange p \<and> op_shortEx op = pos_ShortExchange p"
    using op(2) keeps by (auto simp: restored_as_def)
  moreover have "if l = None \<and> s = None then op_pos op = as_loaded p
      else (\<exists>t. op_pos op = (as_loaded p)\<lparr>pos_LongBaseQty := (case l of None \<Rightarrow> 0 | Some x \<Rightarrow> x),
              pos_ShortBaseQty := (case s of None \<Rightarrow> 0 | Some x \<Rightarrow> x), pos_UpdatedAt := t\<rparr>)
        \<or> op_pos op = as_loaded p \<and> (\<exists>d1 e d2. legs d1 = legs d \<and> Legs_Load D L (pos_ID p) d1 = (Inl e, d2))"
    using op(2) keeps by (auto simp: restored_as_def l_def s_def Let_def)
  moreover from this have "pos_State (op_pos op) = pos_State p" using keeps by (auto split: if_splits)
  ultimately show "\<exists>op. map_of (en_open en') (pos_ID p) = Some op \<and> op_asset op = pos_Asset p
       \<and> op_longEx op = pos_LongExchange p \<and> op_shortEx op = pos_ShortExchange p
       \<and> pos_State (op_pos op) = pos_State p
       \<and> (if l = None \<and> s = None then op_pos op = as_loaded p
          else (\<exists>t. op_pos op = (as_loaded p)\<lparr>pos_LongBaseQty := (case l of None \<Rightarrow> 0 | Some x \<Rightarrow> x),
                  pos_ShortBaseQty := (case s of None \<Rightarrow> 0 | Some x \<Rightarrow> x), pos_UpdatedAt := t\<rparr>)
            \<or> op_pos op = as_loaded p \<and> (\<exists>d1 e d2. legs d1 = legs d \<and> Legs_Load D L (pos_ID p) d1 = (Inl e, d2)))"
    using op(1) by blast
  show "\<forall>i. map_of (en_open en') i \<noteq> None \<longrightarrow>
          (\<exists>r. map_of (pt_rows (tables d)) i = Some r \<and> pr_state r \<in> set restore_states)"
  proof (intro allI impI)
    fix i assume "map_of (en_open en') i \<noteq> None"
    then show "\<exists>r. map_of (pt_rows (tables d)) i = Some r \<and> pr_state r \<in> set restore_states"
      using engine_store.Restore_result [OF assms(1,3,2,4), of i] by (auto simp: loads_as_def)
  qed
qed

text \<open>
  when the legs of a monitored position were not stored, because the process stopped after
  its transition was recorded and before its legs were, the restored position has the difference of the legs on the
  long side and nothing on the short side; the next attempt to close it sends no order and forgets the position.
\<close>

theorem restart_abandons_legs:
  assumes "engine_store D P tables pending L legs clock" and "on_repositories D P L clock dp"
    and "Restore dp en d = (None, en', d')" and "en_open en = []"
    and "map_of (pt_rows (tables d)) (pos_ID p) = Some (upsert_args D p)" and "storable D p"
    and "pos_State p \<in> {StateMonitoring, StateDegraded}"
    and "stored_leg D (legs d) (pos_ID p) SideLong = None" and "stored_leg D (legs d) (pos_ID p) SideShort = None"
    and "accepting dp"
  shows "\<exists>op. map_of (en_open en') (pos_ID p) = Some op
     \<and> pos_LongBaseQty (op_pos op) = DeltaBase p \<and> pos_ShortBaseQty (op_pos op) = 0
     \<and> (\<forall>w. fst (resolveSymbols dp (wd_ext w) op) \<longrightarrow>
          (\<exists>en2 w2. closePosition dp cfg op reason en' w = Some (en2, w2)
             \<and> wd_venues w2 = wd_venues w \<and> map_of (en_open en2) (pos_ID p) = None))"
proof -
  have "PState_text (pos_State p) \<in> set restore_states"
    using assms(7) by (auto simp: PState_text_def named_states_def restore_states_def)
  from engine_store_restores [OF assms(1-6) this] obtain op where op: "map_of (en_open en') (pos_ID p) = Some op"
      "op_pos op = as_loaded p"
    using assms(8,9) by (auto simp: restored_as_def as_loaded_def)
  have "at_rest (pos_State p) (op_pos op)" using op by (simp add: at_rest_def trail_def as_loaded_def)
  then have "\<exists>en2 w2. closePosition dp cfg op reason en' w = Some (en2, w2)
      \<and> wd_venues w2 = wd_venues w \<and> map_of (en_open en2) (pos_ID p) = None"
    if "fst (resolveSymbols dp (wd_ext w) op)" for w
    using close_idle [OF that _ assms(10)] op assms(7) by (simp add: as_loaded_def)
  then show ?thesis using op by (auto simp: as_loaded_def)
qed

section \<open>A database in memory\<close>

text \<open>Positions, legs and a clock, without faults.\<close>

record edb =
  edb_tables :: pos_tables
  edb_pending :: "pos_stmt list"
  edb_leg_rows :: "((PositionID \<times> string) \<times> legRow) list"
  edb_time :: time

definition edb_positions :: "edb pos_pool" where
  "edb_positions = \<lparr>pp_Begin = (\<lambda>w. (None, w\<lparr>edb_pending := []\<rparr>)),
     pp_TxExec = (\<lambda>s w. (None, w\<lparr>edb_pending := edb_pending w @ [s]\<rparr>)),
     pp_Commit = (\<lambda>w. (None, w\<lparr>edb_tables := fold apply_pos (edb_pending w) (edb_tables w), edb_pending := []\<rparr>)),
     pp_Rollback = (\<lambda>w. w\<lparr>edb_pending := []\<rparr>),
     pp_Exec = (\<lambda>s w. (None, w\<lparr>edb_tables := apply_pos s (edb_tables w)\<rparr>)),
     pp_QueryStates = (\<lambda>ss w. (Inr (map Inr (pg_select (\<lambda>r. pr_state r \<in> set ss) (edb_tables w)), None), w)),
     pp_QueryRow = (\<lambda>i w. (case pg_select (\<lambda>r. pr_positionID r = i) (edb_tables w) of
        [] \<Rightarrow> Inl DbNoRows | r # _ \<Rightarrow> Inr r, w))\<rparr>"

definition edb_legs :: "edb \<Rightarrow> leg_table" where
  "edb_legs w i side = map_of (edb_leg_rows w) (i, side)"

definition edb_put :: "legRow \<Rightarrow> edb \<Rightarrow> edb" where
  "edb_put r w = (let k = (lw_positionID r, lw_side r) in
     w\<lparr>edb_leg_rows := (k, the (apply_leg r (edb_legs w) (lw_positionID r) (lw_side r))) # edb_leg_rows w\<rparr>)"

definition edb_legs_pool :: "edb legs_pool" where
  "edb_legs_pool = \<lparr>lp_Exec = (\<lambda>r w. (None, edb_put r w)),
     lp_Query = (\<lambda>i w. (Inr (map (\<lambda>side. Inr (side, lw_baseQty (the (edb_legs w i side))))
                (remdups (map (snd \<circ> fst) (filter (\<lambda>(k, r). fst k = i) (edb_leg_rows w)))), None), w))\<rparr>"

definition edb_clock :: "edb \<Rightarrow> time \<times> edb" where
  "edb_clock w = (edb_time w, w\<lparr>edb_time := edb_time w + Millisecond\<rparr>)"

interpretation edb_legs: leg_store D edb_legs_pool edb_legs for D
proof unfold_locales
  fix r w w' e i x rs
  have put: "edb_legs (edb_put r w) = apply_leg r (edb_legs w)"
    by (intro ext) (simp add: edb_legs_def edb_put_def apply_leg_def Let_def)
  then show "lp_Exec edb_legs_pool r w = (None, w') \<Longrightarrow> edb_legs w' = apply_leg r (edb_legs w)"
    by (auto simp: edb_legs_pool_def)
  show "lp_Exec edb_legs_pool r w = (Some e, w') \<Longrightarrow> edb_legs w' = edb_legs w \<or> edb_legs w' = apply_leg r (edb_legs w)"
    by (simp add: edb_legs_pool_def)
  show "lp_Query edb_legs_pool i w = (x, w') \<Longrightarrow> edb_legs w' = edb_legs w"
    by (auto simp: edb_legs_pool_def split: if_splits)
  assume "lp_Query edb_legs_pool i w = (Inr (map Inr rs, None), w')"
  then have rs: "rs = map (\<lambda>side. (side, lw_baseQty (the (edb_legs w i side))))
      (remdups (map (snd \<circ> fst) (filter (\<lambda>(k, r). fst k = i) (edb_leg_rows w))))"
    by (auto simp: edb_legs_pool_def list_eq_iff_nth_eq split: if_splits)
  have "dom (edb_legs w i) = (snd \<circ> fst) ` {x \<in> set (edb_leg_rows w). fst (fst x) = i}"
    by (rule set_eqI) (simp add: edb_legs_def domIff map_of_eq_None_iff, force)
  then show "leg_rows D (edb_legs w) i rs"
    by (auto simp: leg_rows_def rs comp_def case_prod_unfold image_image)
qed

interpretation edb: engine_store D edb_positions edb_tables edb_pending edb_legs_pool edb_legs edb_clock for D
proof unfold_locales
  fix w w' :: edb and s e ss rs r i y r' t
  show "pp_QueryStates edb_positions ss w = (Inr (rs, None), w') \<Longrightarrow> selects D (edb_tables w) ss rs"
    using pg_selects by (auto simp: edb_positions_def)
  show "pp_QueryRow edb_positions i w = (Inr y, w') \<Longrightarrow>
      \<exists>r. map_of (pt_rows (edb_tables w)) i = Some r \<and> pr_positionID r = i \<and> shown D r y"
    using pg_select_mem [of y "\<lambda>r. pr_positionID r = i" "edb_tables w"]
    by (auto simp: edb_positions_def shown_cut split: list.splits)
qed (auto simp: edb_positions_def edb_clock_def edb_legs_def fun_eq_iff)

section \<open>Examples\<close>

definition edb_deps :: "(Mock, edb) Deps" where
  "edb_deps = \<lparr>dp_Dec = sp_ref, dp_Adapters = (\<lambda>_. Some mock_adapter), dp_Executors = (\<lambda>_. Some mock_adapter),
     dp_Registry = (\<lambda>_. scn_registry example_scanner), dp_Cache = (\<lambda>_ _. scn_cache example_scanner),
     dp_Scanner = (\<lambda>_. example_scanner), dp_Positions = Some (load_positions sp_ref edb_positions),
     dp_Persister = repo_persister sp_ref edb_positions, dp_Orders = None,
     dp_Legs = Some (repo_legs sp_ref edb_legs_pool), dp_Halter = (\<lambda>_. (False, [])), dp_Notifier = True,
     dp_Clock = edb_clock\<rparr>"

text \<open>A monitored position of two equal legs, stored with them or without.\<close>

definition monitored :: Position where
  "monitored = (NewPosition ''P1'' ''BTC'' ExchangeBybit ExchangeOKX 0)
     \<lparr>pos_State := StateMonitoring, pos_LongBaseQty := 2, pos_ShortBaseQty := 2\<rparr>"

definition stored_world :: "((PositionID \<times> string) \<times> legRow) list \<Rightarrow> edb" where
  "stored_world ls = \<lparr>edb_tables = empty_tables\<lparr>pt_rows := [(''P1'', upsert_args sp_ref monitored)]\<rparr>, edb_pending = [],
     edb_leg_rows = ls, edb_time = 0\<rparr>"

definition leg_of :: "Side \<Rightarrow> legRow" where
  "leg_of side = \<lparr>lw_legID = legID ''P1'' side, lw_positionID = ''P1'', lw_exchange = ExchangeBybit, lw_symbol = ''BTCUSDT'',
     lw_side = Side_text side, lw_baseQty = ''2'', lw_entryVWAP = None, lw_status = ''open''\<rparr>"

definition both_legs :: "((PositionID \<times> string) \<times> legRow) list" where
  "both_legs = [((''P1'', ''long''), leg_of SideLong), ((''P1'', ''short''), leg_of SideShort)]"

lemma monitored_storable:
  "storable sp_ref monitored" "pos_ID monitored = ''P1''" "pos_State monitored = StateMonitoring" "DeltaBase monitored = 0"
  "pos_LongBaseQty monitored = 2" "pos_ShortBaseQty monitored = 2"
  by code_simp+

lemma stored_row: "map_of (pt_rows (edb_tables (stored_world ls))) (pos_ID monitored) = Some (upsert_args sp_ref monitored)"
  by (simp add: stored_world_def monitored_storable)

lemma stored_legs:
  "stored_leg sp_ref (edb_legs (stored_world [])) ''P1'' side = None"
  "stored_leg sp_ref (edb_legs (stored_world both_legs)) ''P1'' SideLong = Some 2"
  "stored_leg sp_ref (edb_legs (stored_world both_legs)) ''P1'' SideShort = Some 2"
  by (simp add: stored_leg_def edb_legs_def stored_world_def) code_simp+

lemma edb_on_repositories: "on_repositories sp_ref edb_positions edb_legs_pool edb_clock edb_deps"
  by (simp add: on_repositories_def edb_deps_def)

lemma both_legs_load:
  assumes "edb_legs d = edb_legs (stored_world both_legs)"
  shows "\<exists>q d2. Legs_Load sp_ref edb_legs_pool ''P1'' d = (Inr q, d2)"
proof -
  have "dom (edb_legs d ''P1'') = {''long'', ''short''}"
    unfolding assms by (auto simp: edb_legs_def stored_world_def both_legs_def dom_def split: if_splits)
  moreover have "dom (edb_legs d ''P1'') = set (remdups (map (snd \<circ> fst) (filter (\<lambda>(k, r). fst k = ''P1'') (edb_leg_rows d))))"
    by (rule set_eqI) (simp add: edb_legs_def domIff map_of_eq_None_iff, force)
  moreover have "\<exists>x. numericToDecimal sp_ref (lw_baseQty (the (edb_legs d ''P1'' side))) = Inr x" if "side \<in> {''long'', ''short''}" for side
    using that stored_legs(2,3) unfolding assms by (auto simp: stored_leg_def split: option.splits sum.splits)
  moreover have "\<exists>q. load_legs sp_ref ''P1'' (map (\<lambda>s. Inr (s, lw_baseQty (the (edb_legs d ''P1'' s)))) ss) None acc = Inr q"
    if "\<forall>s \<in> set ss. \<exists>x. numericToDecimal sp_ref (lw_baseQty (the (edb_legs d ''P1'' s))) = Inr x" for ss acc
    using that by (induction ss arbitrary: acc) auto
  ultimately show ?thesis by (simp add: Legs_Load_def edb_legs_pool_def)
qed

theorem restart_restores_witness:
  "\<exists>en d op. Restore edb_deps example_engine (stored_world both_legs) = (None, en, d)
     \<and> map_of (en_open en) ''P1'' = Some op \<and> pos_LongBaseQty (op_pos op) = 2 \<and> pos_ShortBaseQty (op_pos op) = 2"
proof -
  obtain r en d where run: "Restore edb_deps example_engine (stored_world both_legs) = (r, en, d)" by (metis prod_cases3)
  have "fst (Restore edb_deps example_engine (stored_world both_legs)) = None" by code_simp
  then have "r = None" using run by simp
  have st: "PState_text (pos_State monitored) \<in> set restore_states" "en_open example_engine = []"
    by (simp_all add: monitored_storable restore_states_def PState_text_def named_states_def example_engine_def Engine_New_def)
  have "\<exists>op t. map_of (en_open en) (pos_ID monitored) = Some op \<and> op_pos op
      = (as_loaded monitored)\<lparr>pos_LongBaseQty := pos_LongBaseQty monitored, pos_ShortBaseQty := pos_ShortBaseQty monitored,
           pos_UpdatedAt := t\<rparr>"
    using restart_restores [OF edb.engine_store_axioms edb_on_repositories run [unfolded \<open>r = None\<close>] st(2) stored_row monitored_storable(1) st(1)]
      both_legs_load stored_legs by (fastforce simp: monitored_storable)
  then show ?thesis using run \<open>r = None\<close> by (auto simp: monitored_storable)
qed

theorem restart_abandons_legs_witness:
  "\<exists>en d op. Restore edb_deps example_engine (stored_world []) = (None, en, d)
     \<and> map_of (en_open en) ''P1'' = Some op \<and> pos_ShortBaseQty monitored = 2 \<and> pos_ShortBaseQty (op_pos op) = 0"
proof -
  obtain r en d where run: "Restore edb_deps example_engine (stored_world []) = (r, en, d)" by (metis prod_cases3)
  have "fst (Restore edb_deps example_engine (stored_world [])) = None" by code_simp
  then have "r = None" using run by simp
  have "accepting edb_deps"
    by (simp add: accepting_def edb_deps_def repo_persister_def OnTransition_def edb_positions_def WriteTx_def)
  then have "\<exists>op. map_of (en_open en) (pos_ID monitored) = Some op \<and> pos_ShortBaseQty (op_pos op) = 0"
    using restart_abandons_legs [OF edb.engine_store_axioms edb_on_repositories run [unfolded \<open>r = None\<close>] _ stored_row monitored_storable(1)]
      stored_legs(1)
    by (force simp: monitored_storable example_engine_def Engine_New_def)
  then show ?thesis using run \<open>r = None\<close> by (auto simp: monitored_storable)
qed

end
