(* ===== verification/HttpClient.thy ===== *)
theory HttpClient
  imports GoLib
begin

text \<open>
  Package \<open>internal/exchange/httpclient\<close> (\<open>client.go\<close>): the REST client of the exchange adapters, with its token
  bucket and its retry policy.

  The network, the context and the clocks are the record \<open>net\<close> of functions on a world \<open>'w\<close>: sending one request,
  reading the clock, waiting for a timer or for the end of the context, drawing the jitter.  A loop that may run for
  ever is a \<^theory_text>\<open>partial_function\<close> into \<open>option\<close>: not returning is \<open>None\<close>.
\<close>

section \<open>The client and its environment\<close>

datatype net_error = NetDeadline | NetCanceled | NetStatus int string | NetFailed string

record HttpConfig =
  hc_BaseURL :: string
  hc_MaxRetries :: int
  hc_RequestsPerSecond :: int
  hc_Burst :: int

record Bucket =
  bk_tokens :: int
  bk_lastFill :: time

record HttpRequest =
  hr_Method :: string
  hr_Path :: string
  hr_Query :: string
  hr_Body :: "string option"
  hr_Headers :: "(string \<times> string) list"
  hr_Safe :: bool

text \<open>One exchange on the wire: no response, or a status with the body or the error reading it.\<close>

datatype send_result = NoResponse net_error | Response int "net_error + string"

record 'w net =
  nt_now :: "'w \<Rightarrow> time \<times> 'w"
  nt_wait :: "duration \<Rightarrow> 'w \<Rightarrow> net_error option \<times> 'w" \<comment> \<open>the error of the context, if it ends first\<close>
  nt_jitter :: "'w \<Rightarrow> int \<times> 'w" \<comment> \<open>\<open>Int63n\<close> of 50 ms\<close>
  nt_send :: "string \<Rightarrow> string \<Rightarrow> (string \<times> string) list \<Rightarrow> string option \<Rightarrow> 'w \<Rightarrow> (send_result \<times> string option) \<times> 'w"
    \<comment> \<open>method, URL, headers and what is left of the body, before and after\<close>

definition Http_New :: "HttpConfig \<Rightarrow> time \<Rightarrow> Bucket option" where
  "Http_New cfg now = (if hc_BaseURL cfg = [] then None else Some \<lparr>bk_tokens = hc_Burst cfg, bk_lastFill = now\<rparr>)"

section \<open>The token bucket\<close>

definition refill :: "HttpConfig \<Rightarrow> int \<Rightarrow> time \<Rightarrow> Bucket \<Rightarrow> Bucket" where
  "refill cfg rps now b =
     (let elapsed = time_Sub now (bk_lastFill b);
          add = go_quot (i64 (elapsed * rps)) Second
      in if add > 0
         then \<lparr>bk_tokens = min (i64 (bk_tokens b + add)) (hc_Burst cfg), bk_lastFill = now\<rparr>
         else b)"

text \<open>The body of the loop of \<open>waitToken\<close> under the mutex: a token, or none.\<close>

definition take_token :: "HttpConfig \<Rightarrow> time \<Rightarrow> Bucket \<Rightarrow> bool \<times> Bucket" where
  "take_token cfg now b =
     (let b' = refill cfg (hc_RequestsPerSecond cfg) now b in
      if bk_tokens b' > 0 then (True, b'\<lparr>bk_tokens := bk_tokens b' - 1\<rparr>) else (False, b'))"

definition token_wait :: "HttpConfig \<Rightarrow> duration" where
  "token_wait cfg = go_quot Second (hc_RequestsPerSecond cfg)"

partial_function (option) waitToken ::
  "HttpConfig \<Rightarrow> 'w net \<Rightarrow> Bucket \<Rightarrow> 'w \<Rightarrow> (net_error option \<times> Bucket \<times> 'w) option" where
  "waitToken cfg nt b w =
     (if hc_RequestsPerSecond cfg \<le> 0 then Some (None, b, w)
      else (case nt_now nt w of (now, w1) \<Rightarrow>
            case take_token cfg now b of (granted, b') \<Rightarrow>
              if granted then Some (None, b', w1)
              else (case nt_wait nt (token_wait cfg) w1 of
                      (Some e, w2) \<Rightarrow> Some (Some e, b', w2)
                    | (None, w2) \<Rightarrow> waitToken cfg nt b' w2)))"

section \<open>One request, with its retries\<close>

definition request_url :: "HttpConfig \<Rightarrow> HttpRequest \<Rightarrow> string" where
  "request_url cfg r = hc_BaseURL cfg @ hr_Path r @ (if hr_Query r \<noteq> [] then ''?'' @ hr_Query r else [])"

definition doOnce ::
  "HttpConfig \<Rightarrow> 'w net \<Rightarrow> HttpRequest \<Rightarrow> string option \<Rightarrow> 'w
   \<Rightarrow> (int \<times> string option \<times> net_error option) \<times> string option \<times> 'w" where
  "doOnce cfg nt r body w =
     (case nt_send nt (hr_Method r) (request_url cfg r) (hr_Headers r) body w of ((res, body'), w') \<Rightarrow>
        ((case res of
            NoResponse e \<Rightarrow> (0, None, Some e)
          | Response status (Inl e) \<Rightarrow> (status, None, Some e)
          | Response status (Inr b) \<Rightarrow> (status, Some b, None)), body', w'))"

text \<open>The delay before the next attempt, without the jitter.\<close>

definition backoff_base :: "int \<Rightarrow> duration" where
  "backoff_base attempt = min (i64 (i64 (100 * 2 ^ nat attempt) * Millisecond)) (5 * Second)"

definition backoff :: "'w net \<Rightarrow> int \<Rightarrow> 'w \<Rightarrow> net_error option \<times> 'w" where
  "backoff nt attempt w =
     (let base = backoff_base (if attempt < 0 then 0 else attempt) in
      case nt_jitter nt w of (jitter, w1) \<Rightarrow> nt_wait nt (base + jitter) w1)"

text \<open>The loop of \<open>Do\<close> with \<open>n\<close> attempts left.\<close>

fun do_loop ::
  "HttpConfig \<Rightarrow> 'w net \<Rightarrow> HttpRequest \<Rightarrow> nat \<Rightarrow> int \<Rightarrow> net_error option \<Rightarrow> string option \<Rightarrow> Bucket \<Rightarrow> 'w
   \<Rightarrow> ((int \<times> string option \<times> net_error option) \<times> Bucket \<times> 'w) option" where
  "do_loop cfg nt r 0 attempt lastErr body b w = Some ((0, None, lastErr), b, w)"
| "do_loop cfg nt r (Suc n) attempt lastErr body b w =
     (case waitToken cfg nt b w of
        None \<Rightarrow> None
      | Some (Some e, b1, w1) \<Rightarrow> Some ((0, None, Some e), b1, w1)
      | Some (None, b1, w1) \<Rightarrow>
     (case doOnce cfg nt r body w1 of
        ((status, bs, Some e), body', w2) \<Rightarrow>
          if \<not> hr_Safe r then Some ((status, bs, Some e), b1, w2)
          else (case backoff nt attempt w2 of
                  (Some e', w3) \<Rightarrow> Some ((0, None, Some e'), b1, w3)
                | (None, w3) \<Rightarrow> do_loop cfg nt r n (attempt + 1) (Some e) body' b1 w3)
      | ((status, bs, None), body', w2) \<Rightarrow>
          if status \<noteq> 429 \<and> status < 500 then Some ((status, bs, None), b1, w2)
          else (let e = NetStatus status (case bs of None \<Rightarrow> [] | Some s \<Rightarrow> s) in
                if \<not> hr_Safe r then Some ((status, bs, Some e), b1, w2)
                else (case backoff nt attempt w2 of
                        (Some e', w3) \<Rightarrow> Some ((status, bs, Some e'), b1, w3)
                      | (None, w3) \<Rightarrow> do_loop cfg nt r n (attempt + 1) (Some e) body' b1 w3))))"

definition Http_Do ::
  "HttpConfig \<Rightarrow> 'w net \<Rightarrow> HttpRequest \<Rightarrow> Bucket \<Rightarrow> 'w
   \<Rightarrow> ((int \<times> string option \<times> net_error option) \<times> Bucket \<times> 'w) option" where
  "Http_Do cfg nt r b w = do_loop cfg nt r (nat (i64 (hc_MaxRetries cfg + 1))) 0 None (hr_Body r) b w"

section \<open>How often a request is sent\<close>

text \<open>The network with a log of the URLs it was asked for.\<close>

definition counted :: "'w net \<Rightarrow> ('w \<times> string list) net" where
  "counted nt = \<lparr>
     nt_now = (\<lambda>(w, lg). case nt_now nt w of (t, w') \<Rightarrow> (t, (w', lg))),
     nt_wait = (\<lambda>d (w, lg). case nt_wait nt d w of (r, w') \<Rightarrow> (r, (w', lg))),
     nt_jitter = (\<lambda>(w, lg). case nt_jitter nt w of (j, w') \<Rightarrow> (j, (w', lg))),
     nt_send = (\<lambda>m u hs body (w, lg). case nt_send nt m u hs body w of (r, w') \<Rightarrow> (r, (w', lg @ [u])))\<rparr>"

lemma waitToken_quiet:
  assumes "waitToken cfg (counted nt) b wl = Some (r, b', wl')"
  shows "snd wl' = snd wl"
proof -
  have "snd (snd (snd x)) = snd wl" if "waitToken cfg (counted nt) b wl = Some x" for x
  proof (rule waitToken.raw_induct [where P = "\<lambda>cfg nt0 b wl x. nt0 = counted nt \<longrightarrow> snd (snd (snd x)) = snd wl",
        OF _ that, THEN mp, OF _ refl])
    fix f cfg nt0 b x and wl :: "'a \<times> string list"
    assume ih: "\<And>cfg nt0 b wl x. f cfg nt0 b wl = Some x \<Longrightarrow> nt0 = counted nt \<longrightarrow> snd (snd (snd x)) = snd wl"
      and eq: "(if hc_RequestsPerSecond cfg \<le> 0 then Some (None, b, wl)
        else case nt_now nt0 wl of (now, w1) \<Rightarrow> case take_token cfg now b of (granted, b') \<Rightarrow>
          if granted then Some (None, b', w1)
          else (case nt_wait nt0 (token_wait cfg) w1 of
                  (None, w2) \<Rightarrow> f cfg nt0 b' w2 | (Some e, w2) \<Rightarrow> Some (Some e, b', w2))) = Some x"
    show "nt0 = counted nt \<longrightarrow> snd (snd (snd x)) = snd wl"
      using eq by (auto simp: counted_def case_prod_unfold split: if_splits option.splits dest!: ih)
  qed
  then show ?thesis using assms by fastforce
qed

lemma backoff_quiet: "backoff (counted nt) k wl = (r, wl') \<Longrightarrow> snd wl' = snd wl"
  by (auto simp: backoff_def counted_def Let_def split: prod.splits)

lemma doOnce_sends: "doOnce cfg (counted nt) r body wl = (x, body', wl') \<Longrightarrow> snd wl' = snd wl @ [request_url cfg r]"
  by (auto simp: doOnce_def counted_def split: prod.splits)

lemma do_loop_sends:
  "do_loop cfg (counted nt) r n k e body b wl = Some (x, b', wl') \<Longrightarrow>
   \<exists>m \<le> (if hr_Safe r then n else min 1 n). snd wl' = snd wl @ replicate m (request_url cfg r)"
proof (induction n arbitrary: k e body b wl)
  case (Suc n)
  obtain q where "waitToken cfg (counted nt) b wl = Some q" using Suc.prems by (auto split: option.splits)
  then obtain re b1 w1 where t: "waitToken cfg (counted nt) b wl = Some (re, b1, w1)" by (cases q) auto
  obtain y body' w2 where d: "doOnce cfg (counted nt) r body w1 = (y, body', w2)" by (metis prod_cases3)
  obtain st bs de where y: "y = (st, bs, de)" by (cases y) auto
  obtain be w3 where bo: "backoff (counted nt) k w2 = (be, w3)" by (metis surj_pair)
  have lg: "snd w1 = snd wl" "snd w2 = snd wl @ [request_url cfg r]" "snd w3 = snd wl @ [request_url cfg r]"
    using waitToken_quiet [OF t] doOnce_sends [OF d] backoff_quiet [OF bo] by simp_all
  note run = Suc.prems [unfolded do_loop.simps t option.case prod.case d y bo]
  consider (none) "wl' = w1" | (one) "wl' = w2 \<or> wl' = w3"
    | (more) e' body1 where "hr_Safe r" "do_loop cfg (counted nt) r n (k + 1) e' body1 b1 w3 = Some (x, b', wl')"
    using run by (auto simp: Let_def split: option.splits if_splits)
  then show ?case
  proof cases
    case none
    then show ?thesis using lg by (intro exI [of _ 0]) simp
  next
    case one
    then show ?thesis using lg by (intro exI [of _ 1]) auto
  next
    case more
    then obtain m where "m \<le> n" "snd wl' = snd w3 @ replicate m (request_url cfg r)" using Suc.IH [OF more(2)] by auto
    then show ?thesis using lg more(1) by (intro exI [of _ "Suc m"]) simp
  qed
qed simp

text \<open>
  C28: a request that is not marked safe, as every order is, is put on the wire at most once, whatever
  the network answers; a safe one at most once more than the configured number of retries.
\<close>

theorem http_sends_at_most:
  assumes "Http_Do cfg (counted nt) r b (w, []) = Some (x, b', (w', sent))" and "in_i64 (hc_MaxRetries cfg + 1)"
  shows "set sent \<subseteq> {request_url cfg r}
     \<and> int (length sent) \<le> max 0 (if hr_Safe r then hc_MaxRetries cfg + 1 else 1)"
proof -
  obtain m where "m \<le> (if hr_Safe r then nat (hc_MaxRetries cfg + 1) else min 1 (nat (hc_MaxRetries cfg + 1)))"
      "sent = replicate m (request_url cfg r)"
    using do_loop_sends [OF assms(1) [unfolded Http_Do_def i64_id [OF assms(2)]]] by auto
  then show ?thesis by (auto split: if_splits)
qed

section \<open>The rate limit\<close>

text \<open>
  The calls that any goroutines make to the bucket, one after the other under its mutex, at the times at which they read
  the clock; the number of tokens they are given.
\<close>

fun grants :: "HttpConfig \<Rightarrow> time list \<Rightarrow> Bucket \<Rightarrow> int" where
  "grants cfg [] b = 0"
| "grants cfg (t # ts) b = (case take_token cfg t b of (granted, b') \<Rightarrow> (if granted then 1 else 0) + grants cfg ts b')"

definition bucket_ok :: "HttpConfig \<Rightarrow> Bucket \<Rightarrow> bool" where
  "bucket_ok cfg b \<longleftrightarrow> 0 \<le> bk_tokens b \<and> bk_tokens b \<le> hc_Burst cfg \<and> hc_Burst cfg < 2 ^ 62
     \<and> 0 < hc_RequestsPerSecond cfg \<and> hc_RequestsPerSecond cfg \<le> Second"

text \<open>No product of a time span and the rate overflows.\<close>

definition span_ok :: "HttpConfig \<Rightarrow> duration \<Rightarrow> bool" where
  "span_ok cfg d \<longleftrightarrow> 0 \<le> d \<and> d * hc_RequestsPerSecond cfg < 2 ^ 63"

lemma div_add_le: "0 < c \<Longrightarrow> x div c + y div c \<le> (x + y) div (c :: int)"
  by (simp add: div_add1_eq [of x y c] pos_imp_zdiv_nonneg_iff)

lemma refill_cases:
  assumes "bucket_ok cfg b" and "span_ok cfg (now - bk_lastFill b)"
  defines "add \<equiv> (now - bk_lastFill b) * hc_RequestsPerSecond cfg div Second"
  shows "refill cfg (hc_RequestsPerSecond cfg) now b
     = (if add > 0 then \<lparr>bk_tokens = min (bk_tokens b + add) (hc_Burst cfg), bk_lastFill = now\<rparr> else b)"
proof -
  let ?d = "now - bk_lastFill b" and ?r = "hc_RequestsPerSecond cfg"
  have d: "0 \<le> ?d" "?d * ?r < 2 ^ 63" and r: "1 \<le> ?r" using assms by (simp_all add: span_ok_def bucket_ok_def)
  have "?d * 1 \<le> ?d * ?r" using d(1) r by (rule mult_left_mono [rotated])
  then have "?d < 2 ^ 63" "in_i64 ?d" "in_i64 (?d * ?r)" using d r by (auto simp: in_i64_def int64_min_def int64_max_def)
  then have e: "go_quot (i64 (time_Sub now (bk_lastFill b) * ?r)) Second = add"
    using d r by (simp add: time_Sub_def sat64_id i64_id go_quot_nonneg add_def)
  have "add \<le> 2 ^ 63 div Second" unfolding add_def by (rule zdiv_mono1) (use d(2) in simp_all)
  then have "add < 2 ^ 34" by simp
  then have "add > 0 \<longrightarrow> in_i64 (bk_tokens b + add)"
    using assms(1) by (auto simp: bucket_ok_def in_i64_def int64_min_def int64_max_def)
  then show ?thesis unfolding refill_def Let_def e by (simp add: i64_id)
qed

lemma refill_ok:
  assumes "bucket_ok cfg b" and "span_ok cfg (now - bk_lastFill b)"
  defines "b' \<equiv> refill cfg (hc_RequestsPerSecond cfg) now b"
  shows "bucket_ok cfg b' \<and> bk_lastFill b \<le> bk_lastFill b' \<and> bk_lastFill b' \<le> now
     \<and> (bk_tokens b' - bk_tokens b) \<le> (bk_lastFill b' - bk_lastFill b) * hc_RequestsPerSecond cfg div Second"
  using assms unfolding b'_def refill_cases [OF assms(1,2)] by (auto simp: bucket_ok_def span_ok_def)

lemma take_token_ok:
  assumes "bucket_ok cfg b" and "span_ok cfg (now - bk_lastFill b)" and "take_token cfg now b = (g, b')"
  shows "bucket_ok cfg b' \<and> bk_lastFill b \<le> bk_lastFill b' \<and> bk_lastFill b' \<le> now
     \<and> (if g then 1 else 0) + bk_tokens b' - bk_tokens b
         \<le> (bk_lastFill b' - bk_lastFill b) * hc_RequestsPerSecond cfg div Second"
proof -
  define b1 where "b1 = refill cfg (hc_RequestsPerSecond cfg) now b"
  note z = refill_ok [OF assms(1,2), folded b1_def]
  have "b' = (if g then b1\<lparr>bk_tokens := bk_tokens b1 - 1\<rparr> else b1)" "g \<longleftrightarrow> bk_tokens b1 > 0"
    using assms(3) by (auto simp: take_token_def Let_def b1_def [symmetric] split: if_splits)
  then show ?thesis using z by (cases g) (simp_all add: bucket_ok_def)
qed

lemma grants_bound:
  assumes "bucket_ok cfg b" and "span_ok cfg (until - bk_lastFill b)"
    and "sorted ts" and "\<forall>t \<in> set ts. bk_lastFill b \<le> t \<and> t \<le> until"
  shows "grants cfg ts b \<le> bk_tokens b + (until - bk_lastFill b) * hc_RequestsPerSecond cfg div Second"
  using assms
proof (induction ts arbitrary: b)
  case Nil
  then show ?case by (simp add: bucket_ok_def span_ok_def pos_imp_zdiv_nonneg_iff)
next
  case (Cons t ts)
  let ?r = "hc_RequestsPerSecond cfg"
  obtain g b' where s: "take_token cfg t b = (g, b')" by (metis surj_pair)
  have r: "0 \<le> ?r" using Cons.prems(1) by (simp add: bucket_ok_def)
  have near: "span_ok cfg (u - l)" if "u \<le> until" "bk_lastFill b \<le> l" "l \<le> u" for u l
  proof -
    have "(u - l) * ?r \<le> (until - bk_lastFill b) * ?r" using that r by (intro mult_right_mono) auto
    then show ?thesis using Cons.prems(2) that by (auto simp: span_ok_def)
  qed
  note z = take_token_ok [OF Cons.prems(1) near s]
  have z: "bucket_ok cfg b'" "bk_lastFill b \<le> bk_lastFill b'" "bk_lastFill b' \<le> t"
      "(if g then 1 else 0) + bk_tokens b' - bk_tokens b \<le> (bk_lastFill b' - bk_lastFill b) * ?r div Second"
    using z Cons.prems(4) by auto
  have le: "t \<le> until" "\<forall>u \<in> set ts. bk_lastFill b' \<le> u \<and> u \<le> until" using Cons.prems(3,4) z(3) by force+
  have "grants cfg ts b' \<le> bk_tokens b' + (until - bk_lastFill b') * ?r div Second"
    using Cons.IH [OF z(1) _ _ le(2)] near [of until "bk_lastFill b'"] Cons.prems(3) z le(1) by auto
  moreover have "(bk_lastFill b' - bk_lastFill b) * ?r div Second + (until - bk_lastFill b') * ?r div Second
      \<le> (until - bk_lastFill b) * ?r div Second"
    using div_add_le [of Second "(bk_lastFill b' - bk_lastFill b) * ?r" "(until - bk_lastFill b') * ?r"]
    by (simp add: algebra_simps)
  ultimately show ?case using s z(4) by simp
qed

lemma take_token_refilled:
  assumes "bucket_ok cfg b" and "span_ok cfg (now - bk_lastFill b)"
  shows "take_token cfg now (refill cfg (hc_RequestsPerSecond cfg) now b) = take_token cfg now b"
proof -
  define b1 where "b1 = refill cfg (hc_RequestsPerSecond cfg) now b"
  have "bucket_ok cfg b1" using refill_ok [OF assms] by (simp add: b1_def)
  moreover have "b1 = b \<or> bk_lastFill b1 = now" unfolding b1_def refill_cases [OF assms] by simp
  ultimately have "refill cfg (hc_RequestsPerSecond cfg) now b1 = b1"
    using b1_def refill_cases [of cfg b1 now] by (auto simp: span_ok_def)
  then show ?thesis by (simp add: take_token_def b1_def [symmetric])
qed

text \<open>
  C29: over any stretch of time, however many goroutines share the client and however long it was idle
  before, it lets through at most the burst, one more, and what the rate gives for the time that passes.
\<close>

theorem http_rate_limit:
  assumes "bucket_ok cfg b" and "span_ok cfg (until - bk_lastFill b)" and "bk_lastFill b \<le> t"
    and "sorted (t # ts)" and "\<forall>u \<in> set (t # ts). u \<le> until"
  shows "grants cfg (t # ts) b \<le> hc_Burst cfg + 1 + (until - t) * hc_RequestsPerSecond cfg div Second"
proof -
  let ?r = "hc_RequestsPerSecond cfg"
  define b1 where "b1 = refill cfg ?r t b"
  have r: "0 \<le> ?r" using assms(1) by (simp add: bucket_ok_def)
  have near: "span_ok cfg (u - l)" if "u \<le> until" "bk_lastFill b \<le> l" "l \<le> u" for u l
  proof -
    have "(u - l) * ?r \<le> (until - bk_lastFill b) * ?r" using that r by (intro mult_right_mono) auto
    then show ?thesis using assms(2) that by (auto simp: span_ok_def)
  qed
  have t: "t \<le> until" "span_ok cfg (t - bk_lastFill b)" using assms(3,5) near by auto
  note ok = refill_ok [OF assms(1) t(2), folded b1_def]
  have same: "grants cfg (t # ts) b = grants cfg (t # ts) b1"
    using take_token_refilled [OF assms(1) t(2)] by (simp add: b1_def)
  have "grants cfg (t # ts) b1 \<le> bk_tokens b1 + (until - bk_lastFill b1) * ?r div Second"
    by (rule grants_bound) (use ok near assms(4,5) in force)+
  also have "\<dots> \<le> hc_Burst cfg + 1 + (until - t) * ?r div Second"
  proof (cases "bk_lastFill b1 = t")
    case True
    then show ?thesis using ok by (simp add: bucket_ok_def)
  next
    case False
    then have "b1 = b" "(t - bk_lastFill b) * ?r div Second \<le> 0"
      using b1_def refill_cases [OF assms(1) t(2)] by (auto split: if_splits)
    then have "(t - bk_lastFill b) * ?r < Second" by (simp add: not_less [symmetric] pos_imp_zdiv_pos_iff)
    then have "((until - t) * ?r + (t - bk_lastFill b) * ?r) div Second \<le> ((until - t) * ?r + Second) div Second"
      by (intro zdiv_mono1) simp_all
    then have "(until - bk_lastFill b) * ?r div Second \<le> (until - t) * ?r div Second + 1" by (simp add: algebra_simps)
    then show ?thesis using ok \<open>b1 = b\<close> by (simp add: bucket_ok_def)
  qed
  finally show ?thesis using same by simp
qed

text \<open>The limits of the live adapters.\<close>

definition liveRateLimit :: "string \<Rightarrow> HttpConfig" where
  "liveRateLimit url = \<lparr>hc_BaseURL = url, hc_MaxRetries = 3, hc_RequestsPerSecond = 8, hc_Burst = 16\<rparr>"

theorem http_rate_limit_witness:
  "grants (liveRateLimit ''https://fapi.binance.com'') (replicate 20 5) \<lparr>bk_tokens = 16, bk_lastFill = 0\<rparr> = 16
   \<and> grants (liveRateLimit ''https://fapi.binance.com'') (5 # replicate 19 5) \<lparr>bk_tokens = 16, bk_lastFill = 0\<rparr>
       \<le> 16 + 1 + (5 - 5) * 8 div Second"
proof
  show "grants (liveRateLimit ''https://fapi.binance.com'') (replicate 20 5) \<lparr>bk_tokens = 16, bk_lastFill = 0\<rparr> = 16"
    by code_simp
  show "grants (liveRateLimit ''https://fapi.binance.com'') (5 # replicate 19 5) \<lparr>bk_tokens = 16, bk_lastFill = 0\<rparr>
       \<le> 16 + 1 + (5 - 5) * 8 div Second"
    using http_rate_limit [of "liveRateLimit ''https://fapi.binance.com''" "\<lparr>bk_tokens = 16, bk_lastFill = 0\<rparr>" 5 5 "replicate 19 5"]
    by (simp add: bucket_ok_def span_ok_def liveRateLimit_def)
qed

section \<open>The request returns\<close>

text \<open>
  A world whose clock runs: a wait lasts as long as asked and at most \<open>S\<close> longer, a request at most \<open>S\<close>.
\<close>

locale ticking =
  fixes nt :: "'w net" and tm :: "'w \<Rightarrow> time" and S :: duration
  assumes slack: "0 \<le> S"
    and now_is: "nt_now nt w = (t, w') \<Longrightarrow> t = tm w \<and> tm w' = tm w"
    and waits: "nt_wait nt d w = (None, w') \<Longrightarrow> tm w + max 0 d \<le> tm w' \<and> tm w' \<le> tm w + max 0 d + S"
    and jitter_is: "nt_jitter nt w = (j, w') \<Longrightarrow> tm w' = tm w \<and> 0 \<le> j \<and> j < 50 * Millisecond"
    and sends: "nt_send nt m u hs body w = (r, w') \<Longrightarrow> tm w \<le> tm w' \<and> tm w' \<le> tm w + S"
begin

lemma waitToken_granted:
  assumes "bucket_ok cfg b" and "0 \<le> tm w - bk_lastFill b" and "span_ok cfg (tm w - bk_lastFill b)"
    and "bk_tokens b > 0 \<or> Second \<le> (tm w - bk_lastFill b) * hc_RequestsPerSecond cfg" and "0 < hc_Burst cfg"
  shows "\<exists>b' w'. waitToken cfg nt b w = Some (None, b', w') \<and> bucket_ok cfg b' \<and> tm w' = tm w
     \<and> bk_lastFill b \<le> bk_lastFill b' \<and> bk_lastFill b' \<le> tm w"
proof -
  let ?r = "hc_RequestsPerSecond cfg"
  obtain t w1 where n: "nt_now nt w = (t, w1)" by (metis surj_pair)
  note n' = now_is [OF n]
  obtain g b' where s: "take_token cfg (tm w) b = (g, b')" by (metis surj_pair)
  have "g"
  proof -
    have "bk_tokens (refill cfg ?r (tm w) b) > 0"
      using assms(4,5) assms(1) unfolding refill_cases [OF assms(1,3)]
      by (auto simp: bucket_ok_def pos_imp_zdiv_pos_iff)
    then show ?thesis using s by (auto simp: take_token_def Let_def split: if_splits)
  qed
  moreover have "0 < ?r" using assms(1) by (simp add: bucket_ok_def)
  ultimately show ?thesis
    using n n' s take_token_ok [OF assms(1,3) s] by (subst waitToken.simps) simp
qed

text \<open>One turn of the waiting loop: a token, the end of the context, or the same bucket a little later.\<close>

lemma waitToken_turn:
  assumes "bucket_ok cfg b" and "0 \<le> tm w - bk_lastFill b" and "span_ok cfg (tm w - bk_lastFill b)" and "0 < hc_Burst cfg"
  shows "(\<exists>b' w'. waitToken cfg nt b w = Some (None, b', w') \<and> bucket_ok cfg b' \<and> tm w' = tm w
       \<and> bk_lastFill b \<le> bk_lastFill b' \<and> bk_lastFill b' \<le> tm w)
     \<or> (\<exists>e b' w'. waitToken cfg nt b w = Some (Some e, b', w'))
     \<or> (\<exists>w'. waitToken cfg nt b w = waitToken cfg nt b w' \<and> tm w + token_wait cfg \<le> tm w'
           \<and> tm w' \<le> tm w + token_wait cfg + S)"
proof (cases "bk_tokens b > 0 \<or> Second \<le> (tm w - bk_lastFill b) * hc_RequestsPerSecond cfg")
  case True
  then show ?thesis using waitToken_granted assms by blast
next
  case False
  let ?r = "hc_RequestsPerSecond cfg"
  have r: "0 < ?r" using assms(1) by (simp add: bucket_ok_def)
  have "\<not> 0 < (tm w - bk_lastFill b) * ?r div Second" using False by (simp add: pos_imp_zdiv_pos_iff)
  then have b: "take_token cfg (tm w) b = (False, b)"
    using False unfolding take_token_def refill_cases [OF assms(1,3)] by simp
  obtain t w1 where n: "nt_now nt w = (t, w1)" by (metis surj_pair)
  obtain x w2 where wt: "nt_wait nt (token_wait cfg) w1 = (x, w2)" by (metis surj_pair)
  have run: "waitToken cfg nt b w
      = (case x of None \<Rightarrow> waitToken cfg nt b w2 | Some e \<Rightarrow> Some (Some e, b, w2))"
    using r n now_is [OF n] b wt by (subst waitToken.simps) (simp cong: option.case_cong)
  have "0 \<le> token_wait cfg" using r by (simp add: token_wait_def go_quot_nonneg pos_imp_zdiv_nonneg_iff)
  then show ?thesis using run waits [of "token_wait cfg" w1 w2] wt now_is [OF n] by (cases x) auto
qed

lemma two_waits:
  assumes "bucket_ok cfg b"
  shows "0 \<le> token_wait cfg \<and> token_wait cfg \<le> Second \<and> Second \<le> 2 * token_wait cfg * hc_RequestsPerSecond cfg"
proof -
  let ?r = "hc_RequestsPerSecond cfg"
  have r: "0 < ?r" "?r \<le> Second" using assms by (simp_all add: bucket_ok_def)
  have w: "token_wait cfg = Second div ?r" using r by (simp add: token_wait_def go_quot_nonneg)
  have one: "1 \<le> Second div ?r" using r by (metis div_self zdiv_mono1 not_less_iff_gr_or_eq order_le_less)
  have "Second = Second div ?r * ?r + Second mod ?r" by simp
  moreover have "Second mod ?r < ?r" using r by simp
  moreover have "1 * ?r \<le> Second div ?r * ?r" using one r by (intro mult_right_mono) simp_all
  ultimately have "Second \<le> 2 * (Second div ?r * ?r)" by linarith
  moreover have "Second div ?r \<le> Second" using zdiv_mono2 [of Second 1 ?r] r by simp
  ultimately show ?thesis using one by (simp add: w)
qed

text \<open>Two turns are enough.\<close>

lemma waitToken_returns:
  assumes "bucket_ok cfg b" and "0 \<le> tm w - bk_lastFill b" and "0 < hc_Burst cfg"
    and "span_ok cfg (tm w - bk_lastFill b + 2 * (Second + S))"
  shows "\<exists>r b' w'. waitToken cfg nt b w = Some (r, b', w') \<and> (r = None \<longrightarrow> bucket_ok cfg b'
     \<and> 0 \<le> tm w' - bk_lastFill b' \<and> tm w' - bk_lastFill b' \<le> tm w - bk_lastFill b + 2 * (Second + S))"
proof -
  let ?r = "hc_RequestsPerSecond cfg"
  have tw: "0 \<le> token_wait cfg" "token_wait cfg \<le> Second" "Second \<le> 2 * token_wait cfg * hc_RequestsPerSecond cfg"
    using two_waits [OF assms(1)] by simp_all
  have near: "span_ok cfg d" if "0 \<le> d" "d \<le> tm w - bk_lastFill b + 2 * (Second + S)" for d
  proof -
    have "d * ?r \<le> (tm w - bk_lastFill b + 2 * (Second + S)) * ?r"
      using that assms(1) by (intro mult_right_mono) (auto simp: bucket_ok_def)
    then show ?thesis using assms(4) that by (auto simp: span_ok_def)
  qed
  consider (ret) "\<exists>b' w'. waitToken cfg nt b w = Some (None, b', w') \<and> bucket_ok cfg b' \<and> tm w' = tm w
       \<and> bk_lastFill b \<le> bk_lastFill b' \<and> bk_lastFill b' \<le> tm w" | (err) "\<exists>e b' w'. waitToken cfg nt b w = Some (Some e, b', w')"
    | (again) w1 where "waitToken cfg nt b w = waitToken cfg nt b w1" "tm w + token_wait cfg \<le> tm w1"
        "tm w1 \<le> tm w + token_wait cfg + S"
    using waitToken_turn [OF assms(1,2) near assms(3)] assms(2) slack by fastforce
  then show ?thesis
  proof cases
    case again
    have d1: "0 \<le> tm w1 - bk_lastFill b" "tm w1 - bk_lastFill b \<le> tm w - bk_lastFill b + Second + S"
      using again(2,3) assms(2) tw(1,2) by simp_all
    consider (ret) "\<exists>b' w'. waitToken cfg nt b w1 = Some (None, b', w') \<and> bucket_ok cfg b' \<and> tm w' = tm w1
         \<and> bk_lastFill b \<le> bk_lastFill b' \<and> bk_lastFill b' \<le> tm w1" | (err) "\<exists>e b' w'. waitToken cfg nt b w1 = Some (Some e, b', w')"
      | (more) w2 where "waitToken cfg nt b w1 = waitToken cfg nt b w2" "tm w1 + token_wait cfg \<le> tm w2"
          "tm w2 \<le> tm w1 + token_wait cfg + S"
      using waitToken_turn [OF assms(1) d1(1) near assms(3)] d1 slack by fastforce
    then show ?thesis
    proof cases
      case more
      have d2: "0 \<le> tm w2 - bk_lastFill b" "tm w2 - bk_lastFill b \<le> tm w - bk_lastFill b + 2 * (Second + S)"
          "2 * token_wait cfg \<le> tm w2 - bk_lastFill b"
        using again(2,3) more(2,3) assms(2) tw(1,2) by simp_all
      then have "2 * token_wait cfg * ?r \<le> (tm w2 - bk_lastFill b) * ?r"
        using assms(1) by (intro mult_right_mono) (simp_all add: bucket_ok_def)
      then have "Second \<le> (tm w2 - bk_lastFill b) * ?r" using tw by linarith
      then obtain b' w' where "waitToken cfg nt b w2 = Some (None, b', w')" "bucket_ok cfg b'" "tm w' = tm w2"
          "bk_lastFill b \<le> bk_lastFill b'" "bk_lastFill b' \<le> tm w2"
        using waitToken_granted [OF assms(1) d2(1) near _ assms(3)] d2 by blast
      then show ?thesis using again(1) more(1) d2 by fastforce
    qed (use again(1) d1 slack in fastforce)+
  qed (use assms(2) slack in fastforce)+
qed

lemma backoff_waits:
  assumes "backoff nt k w = (None, w')" and "0 \<le> k" and "k < 30"
  shows "tm w \<le> tm w' \<and> tm w' \<le> tm w + 6 * Second + S"
proof -
  obtain j w1 where j: "nt_jitter nt w = (j, w1)" by (metis surj_pair)
  have "backoff_base k \<le> 5 * Second" by (simp add: backoff_base_def)
  then show ?thesis
    using assms j jitter_is [OF j] waits [of "backoff_base k + j" w1 w'] slack
    by (auto simp: backoff_def Let_def max_def split: if_splits)
qed

lemma doOnce_time: "doOnce cfg nt r body w = (x, body', w') \<Longrightarrow> tm w \<le> tm w' \<and> tm w' \<le> tm w + S"
  using sends by (auto simp: doOnce_def split: prod.splits)

text \<open>What one attempt takes at most.\<close>

definition attempt_time :: duration where
  "attempt_time = 2 * (Second + S) + S + 6 * Second + S"

lemma do_loop_returns:
  assumes "bucket_ok cfg b" and "0 \<le> tm w - bk_lastFill b" and "0 < hc_Burst cfg" and "0 \<le> k" and "k + int n \<le> 30"
    and "span_ok cfg (tm w - bk_lastFill b + int n * attempt_time)"
  shows "\<exists>x. do_loop cfg nt r n k e body b w = Some x"
  using assms
proof (induction n arbitrary: k e body b w)
  case (Suc n)
  let ?r = "hc_RequestsPerSecond cfg"
  have at: "2 * (Second + S) \<le> attempt_time" "0 \<le> attempt_time" using slack by (simp_all add: attempt_time_def)
  have near: "span_ok cfg d" if "0 \<le> d" "d \<le> tm w - bk_lastFill b + int (Suc n) * attempt_time" for d
  proof -
    have "d * ?r \<le> (tm w - bk_lastFill b + int (Suc n) * attempt_time) * ?r"
      using that Suc.prems(1) by (intro mult_right_mono) (auto simp: bucket_ok_def)
    then show ?thesis using Suc.prems(6) that by (auto simp: span_ok_def)
  qed
  have first: "2 * (Second + S) \<le> int (Suc n) * attempt_time"
    using at mult_right_mono [of 1 "int (Suc n)" attempt_time] by simp
  obtain re b1 w1 where t: "waitToken cfg nt b w = Some (re, b1, w1)"
    and ok: "re = None \<longrightarrow> bucket_ok cfg b1 \<and> 0 \<le> tm w1 - bk_lastFill b1
       \<and> tm w1 - bk_lastFill b1 \<le> tm w - bk_lastFill b + 2 * (Second + S)"
    using waitToken_returns [OF Suc.prems(1-3) near] first Suc.prems(2) slack by fastforce
  obtain y body' w2 where d: "doOnce cfg nt r body w1 = (y, body', w2)" by (metis prod_cases3)
  obtain st bs de where y: "y = (st, bs, de)" by (cases y) auto
  obtain be w3 where bo: "backoff nt k w2 = (be, w3)" by (metis surj_pair)
  have more: "\<exists>x. do_loop cfg nt r n (k + 1) e' body1 b1 w3 = Some x" if "re = None" "be = None" for e' body1
  proof (rule Suc.IH)
    have "tm w2 \<le> tm w3 \<and> tm w3 \<le> tm w2 + 6 * Second + S"
      using backoff_waits bo that(2) Suc.prems(4,5) by auto
    then have z: "tm w1 \<le> tm w3" "tm w3 \<le> tm w1 + 6 * Second + S + S" using doOnce_time [OF d] by linarith+
    show "bucket_ok cfg b1" "0 \<le> tm w3 - bk_lastFill b1" using ok that z by auto
    have "tm w3 - bk_lastFill b1 + int n * attempt_time \<le> tm w - bk_lastFill b + int (Suc n) * attempt_time"
      using ok that z by (simp add: algebra_simps attempt_time_def)
    moreover have "0 \<le> tm w3 - bk_lastFill b1 + int n * attempt_time" using ok that z at by auto
    ultimately show "span_ok cfg (tm w3 - bk_lastFill b1 + int n * attempt_time)" using near by blast
  qed (use Suc.prems in auto)
  show ?case
    unfolding do_loop.simps t option.case prod.case d y bo
    using more by (auto simp: Let_def split: option.splits)
qed simp

end

lemma Http_Do_returns:
  assumes "ticking nt tm S" and "bucket_ok cfg b" and "0 < hc_Burst cfg" and "bk_lastFill b \<le> tm w"
    and "0 \<le> hc_MaxRetries cfg" and "hc_MaxRetries cfg < 30"
    and "span_ok cfg (tm w - bk_lastFill b + 30 * (4 * S + 8 * Second))"
  shows "\<exists>r b' w'. Http_Do cfg nt r0 b w = Some (r, b', w')"
proof -
  let ?n = "nat (hc_MaxRetries cfg + 1)" and ?T = "4 * S + 8 * Second" and ?r = "hc_RequestsPerSecond cfg"
  have s: "0 \<le> S" "ticking.attempt_time S = ?T"
    using ticking.slack [OF assms(1)] ticking.attempt_time_def [OF assms(1)] by simp_all
  have n: "i64 (hc_MaxRetries cfg + 1) = hc_MaxRetries cfg + 1"
    using assms(5,6) by (intro i64_id) (simp add: in_i64_def int64_min_def int64_max_def)
  have "int ?n * ?T \<le> 30 * ?T" using assms(5,6) s by (intro mult_right_mono) simp_all
  moreover have "0 \<le> int ?n * ?T" using s by simp
  ultimately have d: "0 \<le> tm w - bk_lastFill b + int ?n * ?T"
      "tm w - bk_lastFill b + int ?n * ?T \<le> tm w - bk_lastFill b + 30 * ?T"
    using assms(4) by linarith+
  then have "(tm w - bk_lastFill b + int ?n * ?T) * ?r \<le> (tm w - bk_lastFill b + 30 * ?T) * ?r"
    using assms(2) by (intro mult_right_mono) (auto simp: bucket_ok_def)
  then have "span_ok cfg (tm w - bk_lastFill b + int ?n * ?T)" using assms(7) d by (auto simp: span_ok_def)
  then have "\<exists>x. do_loop cfg nt r0 ?n 0 None (hr_Body r0) b w = Some x"
    by (intro ticking.do_loop_returns [OF assms(1,2)]) (use assms(3-6) s in auto)
  then show ?thesis by (auto simp: Http_Do_def n)
qed

text \<open>
  with a positive burst and a running clock a request always comes back, with an answer or an
  error: the rate limiter makes each attempt wait two turns at most.
\<close>

theorem http_request_returns:
  assumes "ticking nt tm S" and "bucket_ok cfg b" and "0 < hc_Burst cfg" and "bk_lastFill b \<le> tm w"
    and "0 \<le> hc_MaxRetries cfg" and "hc_MaxRetries cfg < 30"
    and "span_ok cfg (tm w - bk_lastFill b + 30 * (4 * S + 8 * Second))"
  shows "\<exists>r b' w'. Http_Do cfg nt r0 b w = Some (r, b', w')"
  by (rule Http_Do_returns [OF assms])

text \<open>Without a burst the limiter lets nothing through: a wait only ends with the context.\<close>

lemma no_burst_no_token:
  assumes "waitToken cfg nt b w = Some (r, b', w')" and "0 < hc_RequestsPerSecond cfg" and "hc_Burst cfg \<le> 0"
    and "bk_tokens b \<le> 0"
  shows "r \<noteq> None"
proof -
  have take: "take_token cfg now b = (False, refill cfg (hc_RequestsPerSecond cfg) now b)
      \<and> bk_tokens (refill cfg (hc_RequestsPerSecond cfg) now b) \<le> 0" if "hc_Burst cfg \<le> 0" "bk_tokens b \<le> 0" for cfg now b
    using that by (auto simp: take_token_def refill_def Let_def min_def)
  have "0 < hc_RequestsPerSecond cfg \<longrightarrow> hc_Burst cfg \<le> 0 \<longrightarrow> bk_tokens b \<le> 0 \<longrightarrow> fst (r, b', w') \<noteq> None"
  proof (rule waitToken.raw_induct [OF _ assms(1), where P = "\<lambda>cfg nt b w x. 0 < hc_RequestsPerSecond cfg \<longrightarrow>
        hc_Burst cfg \<le> 0 \<longrightarrow> bk_tokens b \<le> 0 \<longrightarrow> fst x \<noteq> None"], intro impI)
    fix f cfg x and nt :: "'a net" and b w
    assume ih: "\<And>cfg nt b w x. f cfg nt b w = Some x \<Longrightarrow>
        0 < hc_RequestsPerSecond cfg \<longrightarrow> hc_Burst cfg \<le> 0 \<longrightarrow> bk_tokens b \<le> 0 \<longrightarrow> fst x \<noteq> None"
      and eq: "(if hc_RequestsPerSecond cfg \<le> 0 then Some (None, b, w)
        else case nt_now nt w of (now, w1) \<Rightarrow> case take_token cfg now b of (granted, b') \<Rightarrow>
          if granted then Some (None, b', w1)
          else (case nt_wait nt (token_wait cfg) w1 of
                  (None, w2) \<Rightarrow> f cfg nt b' w2 | (Some e, w2) \<Rightarrow> Some (Some e, b', w2))) = Some x"
      and h: "0 < hc_RequestsPerSecond cfg" "hc_Burst cfg \<le> 0" "bk_tokens b \<le> 0"
    show "fst x \<noteq> None"
      using eq h take [OF h(2,3)] ih by (auto split: prod.splits option.splits if_splits)
  qed
  then show ?thesis using assms by simp
qed

section \<open>A simulated network\<close>

record sim =
  sm_time :: time
  sm_script :: "send_result list"

definition sim_net :: "sim net" where
  "sim_net = \<lparr>nt_now = (\<lambda>w. (sm_time w, w)), nt_wait = (\<lambda>d w. (None, w\<lparr>sm_time := sm_time w + max 0 d\<rparr>)),
     nt_jitter = (\<lambda>w. (0, w)),
     nt_send = (\<lambda>m u hs body w. case sm_script w of
        [] \<Rightarrow> ((NoResponse NetDeadline, body), w\<lparr>sm_time := sm_time w + Second\<rparr>)
      | x # xs \<Rightarrow> ((x, None), w\<lparr>sm_time := sm_time w + Second, sm_script := xs\<rparr>))\<rparr>"

interpretation sim: ticking sim_net sm_time Second
  by unfold_locales (auto simp: sim_net_def split: list.splits)

definition busy :: sim where
  "busy = \<lparr>sm_time = 0, sm_script = [Response 503 (Inr ''''), Response 200 (Inr ''ok'')]\<rparr>"

definition request :: "bool \<Rightarrow> HttpRequest" where
  "request safe = \<lparr>hr_Method = ''GET'', hr_Path = ''/t'', hr_Query = [], hr_Body = None, hr_Headers = [], hr_Safe = safe\<rparr>"

definition full_bucket :: Bucket where
  "full_bucket = \<lparr>bk_tokens = 16, bk_lastFill = 0\<rparr>"

theorem http_request_returns_witness:
  "\<exists>r b w. Http_Do (liveRateLimit ''h'') sim_net (request True) full_bucket busy = Some (r, b, w)"
  using http_request_returns [OF sim.ticking_axioms, of "liveRateLimit ''h''" full_bucket busy "request True"]
  by (simp add: liveRateLimit_def full_bucket_def busy_def bucket_ok_def span_ok_def)

lemma waitToken_now:
  assumes "nt_now nt w = (now, w1)" and "take_token cfg now b = (True, b')" and "0 < hc_RequestsPerSecond cfg"
  shows "waitToken cfg nt b w = Some (None, b', w1)"
  using assms by (subst waitToken.simps) simp

lemma busy_steps:
  "take_token (liveRateLimit ''h'') 0 full_bucket = (True, \<lparr>bk_tokens = 15, bk_lastFill = 0\<rparr>)"
  "take_token (liveRateLimit ''h'') 1100000000 \<lparr>bk_tokens = 15, bk_lastFill = 0\<rparr>
     = (True, \<lparr>bk_tokens = 15, bk_lastFill = 1100000000\<rparr>)"
  "backoff_base 0 = 100000000" "nat (i64 4) = Suc (Suc (Suc (Suc 0)))"
  by code_simp+

lemma live_fields:
  "hc_RequestsPerSecond (liveRateLimit u) = 8" "hc_MaxRetries (liveRateLimit u) = 3" "hc_Burst (liveRateLimit u) = 16"
  "hc_BaseURL (liveRateLimit u) = u"
  by (simp_all add: liveRateLimit_def)

lemma busy_net:
  "nt_now (counted sim_net) (w, lg) = (sm_time w, (w, lg))"
  "backoff (counted sim_net) 0 (w, lg) = (None, (w\<lparr>sm_time := sm_time w + 100000000\<rparr>, lg))"
  by (simp_all add: counted_def sim_net_def backoff_def busy_steps)

text \<open>A safe request is repeated after an answer 503, an unsafe one is not.\<close>

lemma busy_runs:
  "\<exists>b w. Http_Do (liveRateLimit ''h'') (counted sim_net) (request True) full_bucket (busy, [])
     = Some ((200, Some ''ok'', None), b, (w, [''h/t'', ''h/t'']))"
  "\<exists>b w. Http_Do (liveRateLimit ''h'') (counted sim_net) (request False) full_bucket (busy, [])
     = Some ((503, Some [], Some (NetStatus 503 [])), b, (w, [''h/t'']))"
proof -
  have w: "waitToken (liveRateLimit ''h'') (counted sim_net) full_bucket (busy, [])
      = Some (None, \<lparr>bk_tokens = 15, bk_lastFill = 0\<rparr>, (busy, []))"
    by (rule waitToken_now [OF busy_net(1)]) (simp_all add: busy_def busy_steps live_fields)
  let ?w = "busy\<lparr>sm_script := [Response 200 (Inr ''ok'')], sm_time := 1100000000\<rparr>"
  have w2: "waitToken (liveRateLimit ''h'') (counted sim_net) \<lparr>bk_tokens = 15, bk_lastFill = 0\<rparr> (?w, [''h/t''])
      = Some (None, \<lparr>bk_tokens = 15, bk_lastFill = 1100000000\<rparr>, (?w, [''h/t'']))"
    by (rule waitToken_now [OF busy_net(1)]) (simp_all add: busy_def busy_steps live_fields)
  have once: "doOnce (liveRateLimit ''h'') (counted sim_net) (request safe) body (busy, [])
      = ((503, Some [], None), None, (busy\<lparr>sm_time := Second, sm_script := [Response 200 (Inr ''ok'')]\<rparr>, [''h/t'']))"
    "doOnce (liveRateLimit ''h'') (counted sim_net) (request safe) body (?w, [''h/t''])
      = ((200, Some ''ok'', None), None, (busy\<lparr>sm_time := 2100000000, sm_script := []\<rparr>, [''h/t'', ''h/t'']))" for safe body
    by (simp_all add: doOnce_def counted_def sim_net_def request_url_def live_fields request_def busy_def)
  have n: "hc_MaxRetries (liveRateLimit ''h'') + 1 = 4" "hr_Safe (request s) = s" for s
    by (simp_all add: live_fields request_def)
  show "\<exists>b w. Http_Do (liveRateLimit ''h'') (counted sim_net) (request True) full_bucket (busy, [])
     = Some ((200, Some ''ok'', None), b, (w, [''h/t'', ''h/t'']))"
    by (simp add: Http_Do_def n busy_steps(4) w once(1) busy_net(2) w2 once(2) Let_def)
  show "\<exists>b w. Http_Do (liveRateLimit ''h'') (counted sim_net) (request False) full_bucket (busy, [])
     = Some ((503, Some [], Some (NetStatus 503 [])), b, (w, [''h/t'']))"
    by (simp add: Http_Do_def n busy_steps(4) w once(1) Let_def)
qed

theorem http_sends_at_most_witness:
  "\<exists>x b w. Http_Do (liveRateLimit ''h'') (counted sim_net) (request False) full_bucket (busy, []) = Some (x, b, (w, [''h/t'']))
     \<and> int (length [''h/t'']) \<le> max 0 (if hr_Safe (request False) then 3 + 1 else 1)"
proof -
  obtain b w where run: "Http_Do (liveRateLimit ''h'') (counted sim_net) (request False) full_bucket (busy, [])
     = Some ((503, Some [], Some (NetStatus 503 [])), b, (w, [''h/t'']))" using busy_runs(2) by blast
  then show ?thesis
    using http_sends_at_most [OF run] by (auto simp: liveRateLimit_def in_i64_def int64_min_def int64_max_def)
qed

end
