(* ===== verification/GoUrl.thy ===== *)
theory GoUrl
  imports GoLib
begin

text \<open>
  The parts of \<open>net/url\<close> and \<open>strings\<close> that the exchange adapters and the check of Telegram's \<open>initData\<close> use: query
  escaping, \<open>strings.Cut\<close>, and query strings as lists of pairs.
\<close>

section \<open>Escaping\<close>

definition hex_digit :: "nat \<Rightarrow> char" where
  "hex_digit d = (if d < 10 then char_of (48 + d) else char_of (55 + d))"

definition hex_val :: "char \<Rightarrow> nat option" where
  "hex_val c = (let n = of_char c in
     if 48 \<le> n \<and> n \<le> 57 then Some (n - 48) else if 65 \<le> n \<and> n \<le> 70 then Some (n - 55)
     else if 97 \<le> n \<and> n \<le> 102 then Some (n - 87) else None)"

text \<open>A byte that \<open>url.QueryEscape\<close> leaves alone.\<close>

definition unreserved :: "char \<Rightarrow> bool" where
  "unreserved c = (let n = of_char c :: nat in
     48 \<le> n \<and> n \<le> 57 \<or> 65 \<le> n \<and> n \<le> 90 \<or> 97 \<le> n \<and> n \<le> 122
     \<or> c \<in> {CHR ''-'', CHR ''_'', CHR ''.'', CHR ''~''})"

definition escape_char :: "char \<Rightarrow> string" where
  "escape_char c = (if unreserved c then [c] else if c = CHR '' '' then ''+''
     else [CHR ''%'', hex_digit (of_char c div 16), hex_digit (of_char c mod 16)])"

definition QueryEscape :: "string \<Rightarrow> string" where
  "QueryEscape s = concat (map escape_char s)"

fun QueryUnescape :: "string \<Rightarrow> string option" where
  "QueryUnescape [] = Some []"
| "QueryUnescape (c # s) =
     (if c = CHR ''%'' then
        (case s of
           x # y # s' \<Rightarrow>
             (case (hex_val x, hex_val y) of
                (Some a, Some b) \<Rightarrow> map_option (Cons (char_of (16 * a + b))) (QueryUnescape s')
              | _ \<Rightarrow> None)
         | _ \<Rightarrow> None)
      else map_option (Cons (if c = CHR ''+'' then CHR '' '' else c)) (QueryUnescape s))"

lemma hex_val_digit [simp]: "d < 16 \<Longrightarrow> hex_val (hex_digit d) = Some d"
  by (auto simp: hex_val_def hex_digit_def Let_def)

lemma of_char_bound: "of_char c < (256 :: nat)"
  by simp

lemma hex_pair: "hex_val (hex_digit (of_char c div 16)) = Some (of_char c div 16)"
  "hex_val (hex_digit (of_char c mod 16)) = Some (of_char c mod 16)"
  using of_char_bound [of c] by (simp_all add: less_mult_imp_div_less)

lemma unescape_escape_char: "QueryUnescape (escape_char c @ s) = map_option (Cons c) (QueryUnescape s)"
proof -
  have "unreserved c \<Longrightarrow> c \<noteq> CHR ''%'' \<and> c \<noteq> CHR ''+''" by (auto simp: unreserved_def)
  then show ?thesis by (auto simp: escape_char_def hex_pair simp del: of_char_Char)
qed

text \<open>Unescaping undoes escaping.\<close>

lemma QueryUnescape_Escape [simp]: "QueryUnescape (QueryEscape s) = Some s"
  by (induction s) (simp_all add: QueryEscape_def unescape_escape_char)

lemma hex_digit_plain:
  assumes "d < 16"
  shows "hex_digit d \<noteq> CHR ''&'' \<and> hex_digit d \<noteq> CHR ''=''"
proof -
  have "list_all (\<lambda>d. hex_digit d \<noteq> CHR ''&'' \<and> hex_digit d \<noteq> CHR ''='') [0..<16]" by code_simp
  then show ?thesis using assms by (simp add: list_all_iff)
qed

lemma escape_char_plain: "x \<in> set (escape_char c) \<Longrightarrow> x \<noteq> CHR ''&'' \<and> x \<noteq> CHR ''=''"
  using hex_digit_plain [of "of_char c div 16"] hex_digit_plain [of "of_char c mod 16"] of_char_bound [of c]
  by (auto simp: escape_char_def unreserved_def less_mult_imp_div_less split: if_splits)

lemma QueryEscape_plain: "CHR ''&'' \<notin> set (QueryEscape s)" "CHR ''='' \<notin> set (QueryEscape s)"
  using escape_char_plain by (auto simp: QueryEscape_def)

section \<open>Query strings\<close>

text \<open>\<open>strings.Cut(s, sep)\<close> for a one-byte separator.\<close>

fun cut_on :: "char \<Rightarrow> string \<Rightarrow> string \<times> string \<times> bool" where
  "cut_on c [] = ([], [], False)"
| "cut_on c (x # xs) = (if x = c then ([], xs, True) else (case cut_on c xs of (a, b, f) \<Rightarrow> (x # a, b, f)))"

lemma cut_on_append [simp]: "c \<notin> set a \<Longrightarrow> cut_on c (a @ c # b) = (a, b, True)"
  by (induction a) auto

text \<open>What a server reads in a query string: the escaped pairs, in order.\<close>

definition read_pair :: "string \<Rightarrow> (string \<times> string) option" where
  "read_pair part = (case cut_on CHR ''='' part of (k, v, f) \<Rightarrow>
     (case (QueryUnescape k, QueryUnescape v) of (Some k', Some v') \<Rightarrow> Some (k', v') | _ \<Rightarrow> None))"

fun all_some :: "'a option list \<Rightarrow> 'a list option" where
  "all_some [] = Some []"
| "all_some (None # xs) = None"
| "all_some (Some x # xs) = map_option (Cons x) (all_some xs)"

definition read_query :: "string \<Rightarrow> (string \<times> string) list option" where
  "read_query q = all_some (map read_pair (filter (\<lambda>part. part \<noteq> []) (split_on CHR ''&'' q)))"

definition query_pair :: "string \<times> string \<Rightarrow> string" where
  "query_pair kv = QueryEscape (fst kv) @ ''='' @ QueryEscape (snd kv)"

fun join_amp :: "string list \<Rightarrow> string" where
  "join_amp [] = []"
| "join_amp [x] = x"
| "join_amp (x # xs) = x @ CHR ''&'' # join_amp xs"

lemma all_some_map [simp]: "all_some (map Some xs) = Some xs"
  by (induction xs) auto

lemma read_query_pair [simp]: "read_pair (query_pair kv) = Some kv"
  by (cases kv) (simp add: read_pair_def query_pair_def QueryEscape_plain)

lemma query_pair_plain: "CHR ''&'' \<notin> set (query_pair kv)" "query_pair kv \<noteq> []"
  by (simp_all add: query_pair_def QueryEscape_plain)

lemma split_join_amp: "xs \<noteq> [] \<Longrightarrow> \<forall>x \<in> set xs. CHR ''&'' \<notin> set x \<Longrightarrow> split_on CHR ''&'' (join_amp xs) = xs"
  by (induction xs rule: join_amp.induct) auto

lemma read_query_join: "read_query (join_amp (map query_pair kvs)) = Some kvs"
proof (cases "kvs = []")
  case True
  then show ?thesis by (simp add: read_query_def)
next
  case False
  then have "split_on CHR ''&'' (join_amp (map query_pair kvs)) = map query_pair kvs"
    by (intro split_join_amp) (auto simp: query_pair_plain)
  then show ?thesis by (simp add: read_query_def query_pair_plain(2) filter_map comp_def)
qed

end
