(* ===== verification/GoJson.thy ===== *)
theory GoJson
  imports GoLib
begin

text \<open>
  The parts of \<open>encoding/json\<close> the program uses: reading a document and storing it into Go values of a declared shape.

  A document is a value of \<open>json\<close>; numbers keep their literal, as \<open>json.Number\<close> does.  \<open>decode\<close> follows
  \<open>json.Unmarshal\<close>: keys match the field names exactly or without regard to case, later keys overwrite earlier ones,
  \<open>null\<close> leaves the zero value, unknown keys are skipped, and a value of the wrong type makes the whole call fail.
  Text is kept as bytes; Unicode escapes become UTF-8.
\<close>

datatype json =
    JNull | JBool bool | JNum string | JStr string | JArr "json list" | JObj "(string \<times> json) list"

section \<open>Reading a document\<close>

fun skip_ws :: "string \<Rightarrow> string" where
  "skip_ws (c # s) = (if of_char c \<in> {9, 10, 13, 32 :: nat} then skip_ws s else c # s)"
| "skip_ws [] = []"

definition hex4 :: "string \<Rightarrow> (nat \<times> string) option" where
  "hex4 s = (case s of
     a # b # c # d # r \<Rightarrow>
       (let h = (\<lambda>x. let n = of_char x :: nat in
              if 48 \<le> n \<and> n \<le> 57 then Some (n - 48) else if 65 \<le> n \<and> n \<le> 70 then Some (n - 55)
              else if 97 \<le> n \<and> n \<le> 102 then Some (n - 87) else None)
        in case (h a, h b, h c, h d) of
             (Some p, Some q, Some u, Some v) \<Rightarrow> Some (p * 4096 + q * 256 + u * 16 + v, r)
           | _ \<Rightarrow> None)
   | _ \<Rightarrow> None)"

definition utf8 :: "nat \<Rightarrow> string" where
  "utf8 n = map char_of
     (if n < 128 then [n]
      else if n < 2048 then [192 + n div 64, 128 + n mod 64]
      else if n < 65536 then [224 + n div 4096, 128 + n div 64 mod 64, 128 + n mod 64]
      else [240 + n div 262144, 128 + n div 4096 mod 64, 128 + n div 64 mod 64, 128 + n mod 64])"

text \<open>A \<open>\u\<close> escape: a surrogate pair is one character, a lone surrogate the replacement character.\<close>

definition read_unicode :: "string \<Rightarrow> (string \<times> string) option" where
  "read_unicode s = (case hex4 s of
     None \<Rightarrow> None
   | Some (n, r) \<Rightarrow>
       (if 55296 \<le> n \<and> n < 56320 then
          (case r of
             b # u # r' \<Rightarrow>
               (if of_char b = (92 :: nat) \<and> u = CHR ''u'' then
                  (case hex4 r' of
                     Some (m, r'') \<Rightarrow>
                       if 56320 \<le> m \<and> m < 57344 then Some (utf8 (65536 + (n - 55296) * 1024 + (m - 56320)), r'')
                       else Some (utf8 65533, r)
                   | None \<Rightarrow> Some (utf8 65533, r))
                else Some (utf8 65533, r))
           | _ \<Rightarrow> Some (utf8 65533, r))
        else if 56320 \<le> n \<and> n < 57344 then Some (utf8 65533, r)
        else Some (utf8 n, r)))"

definition simple_escape :: "char \<Rightarrow> char option" where
  "simple_escape c = map_of (zip (map char_of [34, 92, 47, 98, 102, 110, 114, 116 :: nat])
                                 (map char_of [34, 92, 47, 8, 12, 10, 13, 9 :: nat])) c"

text \<open>The text after an opening quote, and what follows the closing one; the fuel is the length of the input.\<close>

fun read_string :: "nat \<Rightarrow> string \<Rightarrow> (string \<times> string) option" where
  "read_string 0 s = None"
| "read_string (Suc n) [] = None"
| "read_string (Suc n) (c # s) =
     (if of_char c = (34 :: nat) then Some ([], s)
      else if of_char c < (32 :: nat) then None
      else if of_char c = (92 :: nat) then
        (case s of
           [] \<Rightarrow> None
         | e # r \<Rightarrow>
             if e = CHR ''u'' then
               (case read_unicode r of
                  None \<Rightarrow> None
                | Some (u, r') \<Rightarrow> map_option (\<lambda>(t, z). (u @ t, z)) (read_string n r'))
             else (case simple_escape e of
                     None \<Rightarrow> None
                   | Some x \<Rightarrow> map_option (\<lambda>(t, z). (x # t, z)) (read_string n r)))
      else map_option (\<lambda>(t, z). (c # t, z)) (read_string n s))"

text \<open>The longest prefix of digits, and a number in the grammar of JSON.\<close>

definition span_digits :: "string \<Rightarrow> string \<times> string" where
  "span_digits s = (takeWhile is_digit s, dropWhile is_digit s)"

definition read_number :: "string \<Rightarrow> (string \<times> string) option" where
  "read_number s =
     (let (sign, s1) = (case s of c # r \<Rightarrow> if c = CHR ''-'' then (''-'', r) else ([], s) | [] \<Rightarrow> ([], s));
          (int, s2) = (case s1 of c # r \<Rightarrow> if c = CHR ''0'' then (''0'', r) else span_digits s1 | [] \<Rightarrow> ([], s1))
      in if int = [] then None else
         (let (frac, s3) = (case s2 of
                c # r \<Rightarrow> if c = CHR ''.'' then (case span_digits r of (d, z) \<Rightarrow> (Some d, z)) else (None, s2)
              | [] \<Rightarrow> (None, s2))
          in if frac = Some [] then None else
             (let lit = sign @ int @ (case frac of None \<Rightarrow> [] | Some d \<Rightarrow> ''.'' @ d)
              in case s3 of
                   c # r \<Rightarrow>
                     if c = CHR ''e'' \<or> c = CHR ''E'' then
                       (let (es, z) = (case r of
                              x # r' \<Rightarrow> if x = CHR ''+'' \<or> x = CHR ''-'' then ([x], r') else ([], r)
                            | [] \<Rightarrow> ([], r));
                            (ed, z') = span_digits z
                        in if ed = [] then None else Some (lit @ c # es @ ed, z'))
                     else Some (lit, s3)
                 | [] \<Rightarrow> Some (lit, s3))))"

definition starts :: "string \<Rightarrow> string \<Rightarrow> string option" where
  "starts p s = (if take (length p) s = p then Some (drop (length p) s) else None)"

text \<open>Values, the elements of an array and the members of an object, with the nesting as fuel.\<close>

fun read_value :: "nat \<Rightarrow> string \<Rightarrow> (json \<times> string) option"
  and read_elements :: "nat \<Rightarrow> string \<Rightarrow> (json list \<times> string) option"
  and read_members :: "nat \<Rightarrow> string \<Rightarrow> ((string \<times> json) list \<times> string) option" where
  "read_value 0 s = None"
| "read_value (Suc n) s =
     (case skip_ws s of
        [] \<Rightarrow> None
      | c # r \<Rightarrow>
          if c = CHR ''{'' then
            (case skip_ws r of
               x # z \<Rightarrow> if x = CHR ''}'' then Some (JObj [], z) else map_option (\<lambda>(ms, z). (JObj ms, z)) (read_members n r)
             | [] \<Rightarrow> None)
          else if c = CHR ''['' then
            (case skip_ws r of
               x # z \<Rightarrow> if x = CHR '']'' then Some (JArr [], z) else map_option (\<lambda>(vs, z). (JArr vs, z)) (read_elements n r)
             | [] \<Rightarrow> None)
          else if of_char c = (34 :: nat) then map_option (\<lambda>(t, z). (JStr t, z)) (read_string (length r) r)
          else if c = CHR ''t'' then map_option (\<lambda>z. (JBool True, z)) (starts ''rue'' r)
          else if c = CHR ''f'' then map_option (\<lambda>z. (JBool False, z)) (starts ''alse'' r)
          else if c = CHR ''n'' then map_option (\<lambda>z. (JNull, z)) (starts ''ull'' r)
          else map_option (\<lambda>(t, z). (JNum t, z)) (read_number (c # r)))"
| "read_elements 0 s = None"
| "read_elements (Suc n) s =
     (case read_value n s of
        None \<Rightarrow> None
      | Some (v, r) \<Rightarrow>
          (case skip_ws r of
             x # z \<Rightarrow>
               if x = CHR '','' then map_option (\<lambda>(vs, z). (v # vs, z)) (read_elements n z)
               else if x = CHR '']'' then Some ([v], z) else None
           | [] \<Rightarrow> None))"
| "read_members 0 s = None"
| "read_members (Suc n) s =
     (case skip_ws s of
        q # r0 \<Rightarrow>
          (if of_char q \<noteq> (34 :: nat) then None else
           (case read_string (length r0) r0 of
              None \<Rightarrow> None
            | Some (k, r1) \<Rightarrow>
                (case skip_ws r1 of
                   c # r2 \<Rightarrow>
                     (if c \<noteq> CHR '':'' then None else
                      (case read_value n r2 of
                         None \<Rightarrow> None
                       | Some (v, r) \<Rightarrow>
                           (case skip_ws r of
                              x # z \<Rightarrow>
                                if x = CHR '','' then map_option (\<lambda>(ms, z). ((k, v) # ms, z)) (read_members n z)
                                else if x = CHR ''}'' then Some ([(k, v)], z) else None
                            | [] \<Rightarrow> None)))
                 | [] \<Rightarrow> None)))
      | [] \<Rightarrow> None)"

definition json_read :: "string \<Rightarrow> json option" where
  "json_read s = (case read_value (Suc (Suc (length s))) s of
     Some (v, r) \<Rightarrow> if skip_ws r = [] then Some v else None
   | None \<Rightarrow> None)"

section \<open>Storing a document into a Go value\<close>

text \<open>The shapes of the variables: text, a 64-bit integer, a Boolean, \<open>json.Number\<close>, anything, slices and structs.\<close>

datatype shape =
    ShStr | ShInt | ShBool | ShNum | ShAny | ShList shape | ShStruct "(string \<times> shape) list"

function zero_value :: "shape \<Rightarrow> json" where
  "zero_value ShStr = JStr []"
| "zero_value ShInt = JNum ''0''"
| "zero_value ShBool = JBool False"
| "zero_value ShNum = JNum []"
| "zero_value ShAny = JNull"
| "zero_value (ShList t) = JNull"
| "zero_value (ShStruct fs) = JObj (map (\<lambda>(k, t). (k, zero_value t)) fs)"
  by pat_completeness auto

termination
  by (relation "measure size") (auto simp: less_Suc_eq_le dest!: size_list_estimation' [where f = "size_prod (\<lambda>_. 0) size" and y = "size _"])

text \<open>\<open>strconv.ParseInt(s, 10, 64)\<close>: the value and whether there was no error; out of range the value is the nearest bound.\<close>

definition ParseInt :: "string \<Rightarrow> int \<times> bool" where
  "ParseInt s =
     (let (neg, ds) = (case s of c # r \<Rightarrow> if c = CHR ''-'' then (True, r) else if c = CHR ''+'' then (False, r) else (False, s)
                       | [] \<Rightarrow> (False, [])) in
      if ds = [] \<or> \<not> list_all is_digit ds then (0, False)
      else let v = (if neg then - int (read_uint ds) else int (read_uint ds)) in
           if v > int64_max then (int64_max, False) else if v < int64_min then (int64_min, False) else (v, True))"

definition valid_number :: "string \<Rightarrow> bool" where
  "valid_number s \<longleftrightarrow> (case read_number s of Some (l, r) \<Rightarrow> r = [] | None \<Rightarrow> False)"

definition to_lower_char :: "char \<Rightarrow> char" where
  "to_lower_char c = (let n = of_char c :: nat in if 65 \<le> n \<and> n \<le> 90 then char_of (n + 32) else c)"

definition to_lower :: "string \<Rightarrow> string" where
  "to_lower s = map to_lower_char s"

text \<open>The field a key belongs to.\<close>

definition field_for :: "(string \<times> shape) list \<Rightarrow> string \<Rightarrow> (string \<times> shape) option" where
  "field_for fs k = (case find (\<lambda>(f, t). f = k) fs of
     Some ft \<Rightarrow> Some ft
   | None \<Rightarrow> find (\<lambda>(f, t). to_lower f = to_lower k) fs)"

fun obj_get :: "json \<Rightarrow> string \<Rightarrow> json" where
  "obj_get (JObj ms) k = (case map_of ms k of Some v \<Rightarrow> v | None \<Rightarrow> JNull)"
| "obj_get j k = JNull"

fun obj_put :: "string \<Rightarrow> json \<Rightarrow> json \<Rightarrow> json" where
  "obj_put k v (JObj ms) = JObj (map (\<lambda>(f, x). (f, if f = k then v else x)) ms)"
| "obj_put k v j = j"

definition decode_scalar :: "shape \<Rightarrow> json \<Rightarrow> json option" where
  "decode_scalar t v = (case (t, v) of
     (ShStr, JStr s) \<Rightarrow> Some (JStr s)
   | (ShInt, JNum l) \<Rightarrow> (if snd (ParseInt l) then Some (JNum l) else None)
   | (ShBool, JBool b) \<Rightarrow> Some (JBool b)
   | (ShNum, JNum l) \<Rightarrow> Some (JNum l)
   | (ShNum, JStr l) \<Rightarrow> (if valid_number l then Some (JNum l) else None)
   | (ShAny, _) \<Rightarrow> Some v
   | _ \<Rightarrow> None)"

fun decode :: "shape \<Rightarrow> json \<Rightarrow> json \<Rightarrow> json option"
  and decode_list :: "shape \<Rightarrow> json list \<Rightarrow> json list option"
  and decode_fields :: "(string \<times> shape) list \<Rightarrow> json \<Rightarrow> (string \<times> json) list \<Rightarrow> json option" where
  "decode t old JNull = (case t of ShList u \<Rightarrow> Some JNull | ShAny \<Rightarrow> Some JNull | _ \<Rightarrow> Some old)"
| "decode t old (JArr vs) = (case t of ShList u \<Rightarrow> map_option JArr (decode_list u vs) | _ \<Rightarrow> decode_scalar t (JArr vs))"
| "decode t old (JObj ms) = (case t of ShStruct fs \<Rightarrow> decode_fields fs old ms | _ \<Rightarrow> decode_scalar t (JObj ms))"
| "decode t old v = decode_scalar t v"
| "decode_list t [] = Some []"
| "decode_list t (v # vs) = (case decode t (zero_value t) v of
     None \<Rightarrow> None | Some x \<Rightarrow> map_option (Cons x) (decode_list t vs))"
| "decode_fields fs old [] = Some old"
| "decode_fields fs old ((k, v) # ms) = (case field_for fs k of
     None \<Rightarrow> decode_fields fs old ms
   | Some (f, t) \<Rightarrow> (case decode t (obj_get old f) v of
       None \<Rightarrow> None | Some x \<Rightarrow> decode_fields fs (obj_put f x old) ms))"

text \<open>\<open>json.Unmarshal\<close> into a fresh variable.\<close>

definition Unmarshal :: "shape \<Rightarrow> string \<Rightarrow> json option" where
  "Unmarshal t s = (case json_read s of None \<Rightarrow> None | Some v \<Rightarrow> decode t (zero_value t) v)"

text \<open>Reading the fields of the variable.\<close>

definition js_str :: "json \<Rightarrow> string \<Rightarrow> string" where
  "js_str j k = (case obj_get j k of JStr s \<Rightarrow> s | JNum s \<Rightarrow> s | _ \<Rightarrow> [])"

definition js_int :: "json \<Rightarrow> string \<Rightarrow> int" where
  "js_int j k = (case obj_get j k of JNum l \<Rightarrow> fst (ParseInt l) | _ \<Rightarrow> 0)"

definition js_bool :: "json \<Rightarrow> string \<Rightarrow> bool" where
  "js_bool j k = (case obj_get j k of JBool b \<Rightarrow> b | _ \<Rightarrow> False)"

fun js_elems :: "json \<Rightarrow> json list" where
  "js_elems (JArr vs) = vs"
| "js_elems j = []"

definition js_list :: "json \<Rightarrow> string \<Rightarrow> json list" where
  "js_list j k = js_elems (obj_get j k)"

fun js_text :: "json \<Rightarrow> string" where
  "js_text (JStr s) = s"
| "js_text j = []"

section \<open>Examples\<close>

text \<open>Documents are written with carets for the quotes here.\<close>

definition quoted :: "string \<Rightarrow> string" where
  "quoted s = map (\<lambda>c. if c = CHR ''^'' then char_of (34 :: nat) else c) s"

lemma unmarshal_example:
  "map_option (\<lambda>j. (js_int j ''code'', js_str j ''msg''))
     (Unmarshal (ShStruct [(''code'', ShInt), (''msg'', ShStr)]) (quoted ''{ ^code^ : -7, ^x^: [1.5e3, null, {}], ^MSG^: ^a^ }''))
   = Some (-7, ''a'')"
  by code_simp

end
