(* ===== verification/GoCrypto.thy ===== *)
theory GoCrypto
  imports GoLib "HOL-Library.Word"
begin

text \<open>
  The parts of \<open>crypto/sha256\<close>, \<open>crypto/hmac\<close> and \<open>encoding/hex\<close> the program uses: SHA-256 on 32-bit words as in FIPS
  180-4, HMAC as in RFC 2104, lower-case hexadecimal.
\<close>

unbundle bit_operations_syntax

section \<open>SHA-256\<close>

definition round_constants :: "32 word list" where
  "round_constants = map word_of_int
    [1116352408, 1899447441, 3049323471, 3921009573, 961987163, 1508970993, 2453635748, 2870763221,
     3624381080, 310598401, 607225278, 1426881987, 1925078388, 2162078206, 2614888103, 3248222580,
     3835390401, 4022224774, 264347078, 604807628, 770255983, 1249150122, 1555081692, 1996064986,
     2554220882, 2821834349, 2952996808, 3210313671, 3336571891, 3584528711, 113926993, 338241895,
     666307205, 773529912, 1294757372, 1396182291, 1695183700, 1986661051, 2177026350, 2456956037,
     2730485921, 2820302411, 3259730800, 3345764771, 3516065817, 3600352804, 4094571909, 275423344,
     430227734, 506948616, 659060556, 883997877, 958139571, 1322822218, 1537002063, 1747873779,
     1955562222, 2024104815, 2227730452, 2361852424, 2428436474, 2756734187, 3204031479, 3329325298]"

definition initial_hash :: "32 word list" where
  "initial_hash = map word_of_int
    [1779033703, 3144134277, 1013904242, 2773480762, 1359893119, 2600822924, 528734635, 1541459225]"

definition rot_right :: "nat \<Rightarrow> 32 word \<Rightarrow> 32 word" where
  "rot_right n x = drop_bit n x OR push_bit (32 - n) x"

definition small_sigma0 :: "32 word \<Rightarrow> 32 word" where
  "small_sigma0 x = rot_right 7 x XOR rot_right 18 x XOR drop_bit 3 x"

definition small_sigma1 :: "32 word \<Rightarrow> 32 word" where
  "small_sigma1 x = rot_right 17 x XOR rot_right 19 x XOR drop_bit 10 x"

definition big_sigma0 :: "32 word \<Rightarrow> 32 word" where
  "big_sigma0 x = rot_right 2 x XOR rot_right 13 x XOR rot_right 22 x"

definition big_sigma1 :: "32 word \<Rightarrow> 32 word" where
  "big_sigma1 x = rot_right 6 x XOR rot_right 11 x XOR rot_right 25 x"

text \<open>The schedule, newest word first: 16 words of the block and 48 more.\<close>

fun schedule :: "nat \<Rightarrow> 32 word list \<Rightarrow> 32 word list" where
  "schedule 0 ws = ws"
| "schedule (Suc n) ws =
     schedule n ((small_sigma1 (ws ! 1) + ws ! 6 + small_sigma0 (ws ! 14) + ws ! 15) # ws)"

fun sha_round :: "32 word \<times> 32 word \<Rightarrow> 32 word list \<Rightarrow> 32 word list" where
  "sha_round (k, w) [a, b, c, d, e, f, g, h] =
     (let t1 = h + big_sigma1 e + ((e AND f) XOR ((NOT e) AND g)) + k + w;
          t2 = big_sigma0 a + ((a AND b) XOR (a AND c) XOR (b AND c))
      in [t1 + t2, a, b, c, d + t1, e, f, g])"
| "sha_round kw hs = hs"

definition compress :: "32 word list \<Rightarrow> 32 word list \<Rightarrow> 32 word list" where
  "compress hs block =
     map2 (+) hs (fold sha_round (zip round_constants (rev (schedule 48 (rev block)))) hs)"

fun words_of :: "char list \<Rightarrow> 32 word list" where
  "words_of (a # b # c # d # s) =
     word_of_nat (((of_char a * 256 + of_char b) * 256 + of_char c) * 256 + of_char d) # words_of s"
| "words_of s = []"

fun bytes_of :: "nat \<Rightarrow> nat \<Rightarrow> char list" where
  "bytes_of 0 n = []"
| "bytes_of (Suc k) n = bytes_of k (n div 256) @ [char_of (n mod 256)]"

definition sha_pad :: "char list \<Rightarrow> char list" where
  "sha_pad s = s @ [char_of (128 :: nat)] @ replicate ((119 - length s mod 64) mod 64) (char_of (0 :: nat))
     @ bytes_of 8 (8 * length s)"

function blocks :: "32 word list \<Rightarrow> 32 word list list" where
  "blocks ws = (if ws = [] then [] else take 16 ws # blocks (drop 16 ws))"
  by auto

termination
  by (relation "measure length") auto

declare blocks.simps [simp del]

definition sha256 :: "char list \<Rightarrow> char list" where
  "sha256 s = concat (map (\<lambda>w. bytes_of 4 (unat w))
     (fold (\<lambda>block hs. compress hs block) (blocks (words_of (sha_pad s))) initial_hash))"

section \<open>HMAC and hexadecimal\<close>

definition xor_bytes :: "nat \<Rightarrow> char list \<Rightarrow> char list" where
  "xor_bytes n s = map (\<lambda>c. char_of ((of_char c :: nat) XOR n)) s"

definition hmac_sha256 :: "char list \<Rightarrow> char list \<Rightarrow> char list" where
  "hmac_sha256 key msg =
     (let k0 = (if length key > 64 then sha256 key else key);
          k = k0 @ replicate (64 - length k0) (char_of (0 :: nat))
      in sha256 (xor_bytes 92 k @ sha256 (xor_bytes 54 k @ msg)))"

definition lower_hex :: "nat \<Rightarrow> char" where
  "lower_hex d = (if d < 10 then char_of (48 + d) else char_of (87 + d))"

definition hex_EncodeToString :: "char list \<Rightarrow> string" where
  "hex_EncodeToString s = concat (map (\<lambda>c. [lower_hex (of_char c div 16), lower_hex (of_char c mod 16)]) s)"

lemma length_bytes_of [simp]: "length (bytes_of k n) = k"
  by (induction k arbitrary: n) auto

lemma lower_hex_char:
  assumes "d < 16"
  shows "lower_hex d \<in> set ''0123456789abcdef''"
proof -
  have "list_all (\<lambda>d. lower_hex d \<in> set ''0123456789abcdef'') [0..<16]" by code_simp
  then show ?thesis using assms by (simp only: list_all_iff set_upt atLeastLessThan_iff) simp
qed

lemma length_sha_round: "length hs = 8 \<Longrightarrow> length (sha_round kw hs) = 8"
  by (induction kw hs rule: sha_round.induct) (auto simp: Let_def)

lemma length_sha_rounds: "length hs = 8 \<Longrightarrow> length (fold sha_round kws hs) = 8"
  by (induction kws arbitrary: hs) (auto simp: length_sha_round)

lemma length_compress: "length hs = 8 \<Longrightarrow> length (compress hs block) = 8"
  by (simp add: compress_def length_sha_rounds)

lemma length_compressed: "length hs = 8 \<Longrightarrow> length (fold (\<lambda>block hs. compress hs block) bs hs) = 8"
  by (induction bs arbitrary: hs) (auto simp: length_compress)

lemma length_sha256 [simp]: "length (sha256 s) = 32"
  by (simp add: sha256_def length_concat comp_def length_compressed initial_hash_def sum_list_triv)

lemma length_hex [simp]: "length (hex_EncodeToString s) = 2 * length s"
  by (simp add: hex_EncodeToString_def length_concat comp_def sum_list_triv)

lemma length_hmac [simp]: "length (hmac_sha256 key msg) = 32"
  by (simp add: hmac_sha256_def Let_def)

end
