(* ===== verification/Binance.thy ===== *)
theory Binance
  imports Adapter HttpClient GoUrl GoJson GoCrypto
begin

text \<open>
  Package \<open>internal/exchange/binance\<close> (\<open>adapter.go\<close>, \<open>signer.go\<close>): the REST adapter of Binance USDT-M futures.

  The HTTP doer and the clocks are fields of the record \<open>BnAdapter\<close>, functions on a world \<open>'w\<close> which holds the network
  and the exchange.  Every operation is the translation of the method of the same name; the text that wraps an error is
  dropped, its sentinel is kept.
\<close>

section \<open>Data of \<open>market.go\<close>\<close>

record Ticker =
  tk_Symbol :: ExchangeSymbol
  tk_LastPrice :: decimal
  tk_MarkPrice :: decimal
  tk_IndexPrice :: decimal
  tk_QuoteVolume24h :: decimal
  tk_Timestamp :: time

record Balance =
  bl_Asset :: string
  bl_WalletBalance :: decimal
  bl_AvailableBalance :: decimal

record ExchPosition =
  xp_Symbol :: ExchangeSymbol
  xp_Side :: Side
  xp_ContractQty :: decimal
  xp_BaseQty :: decimal
  xp_EntryPrice :: decimal
  xp_MarkPrice :: decimal
  xp_LiquidationPrice :: decimal
  xp_UnrealizedPnL :: decimal
  xp_MarginMode :: MarginMode
  xp_Leverage :: decimal
  xp_Margin :: decimal
  xp_ADLQueue :: "ADLQueuePosition option"
  xp_Updated :: time

record CancelOrderRequest =
  cxl_ClientOrderID :: ClientOrderID
  cxl_ExchangeOrderID :: string
  cxl_Symbol :: ExchangeSymbol

record TransferQuery =
  tq_Asset :: string
  tq_Since :: time
  tq_Limit :: int

record NetworkInfo =
  ni_Network :: string
  ni_WithdrawEnabled :: bool
  ni_DepositEnabled :: bool
  ni_WithdrawFee :: decimal
  ni_WithdrawMin :: decimal
  ni_DepositMin :: decimal

record WithdrawalResult =
  wr_WithdrawalID :: string
  wr_TxID :: string
  wr_Status :: string

record TransferResult =
  xr_TransferID :: string
  xr_Status :: string

record Withdrawal =
  wl_WithdrawalID :: string
  wl_TxID :: string
  wl_Asset :: string
  wl_Network :: string
  wl_Amount :: decimal
  wl_Fee :: decimal
  wl_Status :: string
  wl_RequestedAt :: time

record Deposit =
  dp_TxID :: string
  dp_Asset :: string
  dp_Network :: string
  dp_Amount :: decimal
  dp_Status :: string
  dp_ConfirmedAt :: time

record ADLState =
  al_Symbol :: ExchangeSymbol
  al_LongQueue :: decimal
  al_ShortQueue :: decimal
  al_Timestamp :: time

section \<open>The adapter and its requests\<close>

type_synonym http_answer = "int \<times> string option \<times> net_error option"

record 'w BnAdapter =
  bn_dec :: sp_ops
  bn_apiKey :: string
  bn_secret :: string
  bn_recvWindow :: int
  bn_http :: "HttpRequest \<Rightarrow> 'w \<Rightarrow> http_answer \<times> 'w"
  bn_clock :: "'w \<Rightarrow> time \<times> 'w"
  bn_wall :: "'w \<Rightarrow> time \<times> 'w" \<comment> \<open>\<open>time.Now\<close>\<close>

definition time_UnixMilli :: "time \<Rightarrow> int" where
  "time_UnixMilli t = t div Millisecond"

definition UnixMilli :: "int \<Rightarrow> time" where
  "UnixMilli ms = ms * Millisecond"

definition Sign :: "string \<Rightarrow> string \<Rightarrow> string" where
  "Sign secret payload = hex_EncodeToString (hmac_sha256 secret payload)"

definition SignQuery :: "string \<Rightarrow> string \<Rightarrow> int \<Rightarrow> int \<Rightarrow> string" where
  "SignQuery secret query timestampMs recvWindowMs =
     (let full = query @ (if query \<noteq> [] then ''&'' else []) @ ''timestamp='' @ format_int timestampMs
                   @ ''&recvWindow='' @ format_int recvWindowMs
      in full @ ''&signature='' @ Sign secret full)"

definition buildQuery :: "(string \<times> string) list \<Rightarrow> string" where
  "buildQuery params = join_amp (map query_pair (sort_key fst params))"

definition apiKeyHeaders :: "'w BnAdapter \<Rightarrow> (string \<times> string) list" where
  "apiKeyHeaders a = [(''X-MBX-APIKEY'', bn_apiKey a)]"

definition sapiPath :: "string \<Rightarrow> string" where
  "sapiPath p = ''|SAPI|'' @ p"

definition doPublicGET :: "'w BnAdapter \<Rightarrow> string \<Rightarrow> string \<Rightarrow> 'w \<Rightarrow> http_answer \<times> 'w" where
  "doPublicGET a path query w =
     bn_http a \<lparr>hr_Method = ''GET'', hr_Path = path, hr_Query = query, hr_Body = None, hr_Headers = [], hr_Safe = True\<rparr> w"

text \<open>\<open>doSignedGET\<close>, \<open>doSignedDELETE\<close>, \<open>doSignedPOST\<close>: the clock is read for the timestamp, then the request is sent.\<close>

definition do_signed :: "'w BnAdapter \<Rightarrow> string \<Rightarrow> bool \<Rightarrow> string \<Rightarrow> string \<Rightarrow> 'w \<Rightarrow> http_answer \<times> 'w" where
  "do_signed a meth safe path query w =
     (case bn_clock a w of (now, w1) \<Rightarrow>
        bn_http a \<lparr>hr_Method = meth, hr_Path = path,
          hr_Query = SignQuery (bn_secret a) query (time_UnixMilli now) (bn_recvWindow a),
          hr_Body = None, hr_Headers = apiKeyHeaders a, hr_Safe = safe\<rparr> w1)"

definition doSignedGET :: "'w BnAdapter \<Rightarrow> string \<Rightarrow> string \<Rightarrow> 'w \<Rightarrow> http_answer \<times> 'w" where
  "doSignedGET a path query = do_signed a ''GET'' True path query"

definition doSignedDELETE :: "'w BnAdapter \<Rightarrow> string \<Rightarrow> string \<Rightarrow> 'w \<Rightarrow> http_answer \<times> 'w" where
  "doSignedDELETE a path query = do_signed a ''DELETE'' False path query"

definition doSignedPOST :: "'w BnAdapter \<Rightarrow> string \<Rightarrow> (string \<times> string) list \<Rightarrow> 'w \<Rightarrow> http_answer \<times> 'w" where
  "doSignedPOST a path params = do_signed a ''POST'' False path (buildQuery params)"

definition doSignedSAPIGET :: "'w BnAdapter \<Rightarrow> string \<Rightarrow> string \<Rightarrow> 'w \<Rightarrow> http_answer \<times> 'w" where
  "doSignedSAPIGET a path query = do_signed a ''GET'' True (sapiPath path) query"

definition doSignedSAPIPOST :: "'w BnAdapter \<Rightarrow> string \<Rightarrow> (string \<times> string) list \<Rightarrow> 'w \<Rightarrow> http_answer \<times> 'w" where
  "doSignedSAPIPOST a path params = do_signed a ''POST'' False (sapiPath path) (buildQuery params)"

section \<open>Errors\<close>

definition errMarginModeNotChanged :: exch_error where
  "errMarginModeNotChanged = ErrExchOther ''binance: margin mode not changed (-4046)''"

definition errPositionModeNotChanged :: exch_error where
  "errPositionModeNotChanged = ErrExchOther ''binance: position mode not changed (-4059)''"

definition errLeverageNotChanged :: exch_error where
  "errLeverageNotChanged = ErrExchOther ''binance: leverage not changed (-4028)''"

definition mapAPIError :: "int \<Rightarrow> string \<Rightarrow> exch_error" where
  "mapAPIError code msg =
     (if code = -2011 then ErrOrderNotFound
      else if code = -2013 then ErrOrderNotFound
      else if code = -2014 \<or> code = -2015 then ErrUnauthorized
      else if code = -1121 then ErrInvalidSymbol
      else if code = -2019 then ErrInsufficientMargin
      else if code = -4046 then errMarginModeNotChanged
      else if code = -4059 then errPositionModeNotChanged
      else if code = -4028 then errLeverageNotChanged
      else ErrExchOther (''binance: API error code='' @ format_int code @ '': '' @ msg))"

definition apiErr_shape :: shape where
  "apiErr_shape = ShStruct [(''code'', ShInt), (''msg'', ShStr)]"

definition wrapHTTPStatus :: "int \<Rightarrow> string \<Rightarrow> exch_error option" where
  "wrapHTTPStatus status body =
     (if status = 429 \<or> status = 418 then Some ErrRateLimited
      else if status = 401 then Some ErrUnauthorized
      else if status \<ge> 200 \<and> status < 300 then None
      else Some (case Unmarshal apiErr_shape body of
                   Some j \<Rightarrow> if js_int j ''code'' \<noteq> 0 then mapAPIError (js_int j ''code'') (js_str j ''msg'')
                             else ErrExchOther (''binance: HTTP '' @ format_int status @ '': '' @ body)
                 | None \<Rightarrow> ErrExchOther (''binance: HTTP '' @ format_int status @ '': '' @ body)))"

definition wrapNetErr :: "net_error \<Rightarrow> exch_error" where
  "wrapNetErr e = (if e = NetDeadline \<or> e = NetCanceled then ErrTimeout else ErrNetwork)"

text \<open>The start of every method: the error of the request, the error of the status, or the body.\<close>

definition body_text :: "string option \<Rightarrow> string" where
  "body_text body = (case body of None \<Rightarrow> [] | Some b \<Rightarrow> b)"

definition bn_body :: "http_answer \<Rightarrow> exch_error + string" where
  "bn_body ans = (case ans of (status, body, err) \<Rightarrow>
     (case err of
        Some e \<Rightarrow> Inl (wrapNetErr e)
      | None \<Rightarrow> (case wrapHTTPStatus status (body_text body) of Some e \<Rightarrow> Inl e | None \<Rightarrow> Inr (body_text body))))"

text \<open>The same with the body decoded.\<close>

definition bn_decoded :: "shape \<Rightarrow> http_answer \<Rightarrow> exch_error + json" where
  "bn_decoded t ans = (case bn_body ans of
     Inl e \<Rightarrow> Inl e
   | Inr b \<Rightarrow> (case Unmarshal t b of None \<Rightarrow> Inl (ErrExchOther ''parse'') | Some j \<Rightarrow> Inr j))"

definition parseDecimalOrZero :: "sp_ops \<Rightarrow> string \<Rightarrow> dec_error + decimal" where
  "parseDecimalOrZero D s = (if s = [] then Inr Dec_Zero else Dec_FromString D s)"

text \<open>The next decimal, or the error of the method.\<close>

definition with_dec :: "string \<Rightarrow> dec_error + decimal \<Rightarrow> (decimal \<Rightarrow> exch_error + 'a) \<Rightarrow> exch_error + 'a" where
  "with_dec what r f = (case r of Inl e \<Rightarrow> Inl (ErrExchOther what) | Inr x \<Rightarrow> f x)"

section \<open>Market data\<close>

definition serverTimeResponse :: shape where
  "serverTimeResponse = ShStruct [(''serverTime'', ShInt)]"

definition BN_GetServerTime :: "'w BnAdapter \<Rightarrow> 'w \<Rightarrow> (exch_error + time) \<times> 'w" where
  "BN_GetServerTime a w =
     (case doPublicGET a ''/fapi/v1/time'' [] w of (ans, w') \<Rightarrow>
        (case bn_decoded serverTimeResponse ans of
           Inl e \<Rightarrow> (Inl e, w')
         | Inr res \<Rightarrow> (Inr (UnixMilli (js_int res ''serverTime'')), w')))"

definition exchangeInfoFilter :: shape where
  "exchangeInfoFilter = ShStruct (map (\<lambda>k. (k, ShStr))
     [''filterType'', ''stepSize'', ''minQty'', ''maxQty'', ''tickSize'', ''minPrice'', ''maxPrice'', ''notional''])"

definition exchangeInfoSymbol :: shape where
  "exchangeInfoSymbol = ShStruct (map (\<lambda>k. (k, ShStr))
     [''symbol'', ''contractType'', ''status'', ''baseAsset'', ''quoteAsset'', ''marginAsset'']
     @ [(''filters'', ShList exchangeInfoFilter)])"

definition exchangeInfoResponse :: shape where
  "exchangeInfoResponse = ShStruct [(''symbols'', ShList exchangeInfoSymbol)]"

definition fundingInfoEntry :: shape where
  "fundingInfoEntry = ShStruct [(''symbol'', ShStr), (''fundingIntervalHours'', ShInt)]"

text \<open>The filters of a symbol, in order: step size, least quantity and tick size.\<close>

fun symbol_filters ::
  "sp_ops \<Rightarrow> json list \<Rightarrow> decimal \<times> decimal \<times> decimal \<Rightarrow> exch_error + decimal \<times> decimal \<times> decimal" where
  "symbol_filters D [] acc = Inr acc"
| "symbol_filters D (f # fs) (stepSize, minQty, tickSize) =
     (if js_str f ''filterType'' = ''LOT_SIZE'' then
        with_dec ''LOT_SIZE stepSize'' (Dec_FromString D (js_str f ''stepSize'')) (\<lambda>step.
        with_dec ''LOT_SIZE minQty'' (Dec_FromString D (js_str f ''minQty'')) (\<lambda>qty.
          symbol_filters D fs (step, qty, tickSize)))
      else if js_str f ''filterType'' = ''PRICE_FILTER'' then
        with_dec ''PRICE_FILTER tickSize'' (Dec_FromString D (js_str f ''tickSize'')) (\<lambda>tick.
          symbol_filters D fs (stepSize, minQty, tick))
      else symbol_filters D fs (stepSize, minQty, tickSize))"

definition parseExchangeInfoSymbol :: "sp_ops \<Rightarrow> json \<Rightarrow> exch_error + CanonicalInstrument" where
  "parseExchangeInfoSymbol D sm =
     (case symbol_filters D (js_list sm ''filters'') (0, 0, 0) of
        Inl e \<Rightarrow> Inl e
      | Inr (stepSize, minQty, tickSize) \<Rightarrow>
          if stepSize = 0 \<or> tickSize = 0 then Inl (ErrExchOther ''missing LOT_SIZE or PRICE_FILTER'')
          else Inr \<lparr>ins_Exchange = ExchangeBinance, ins_BaseAsset = js_str sm ''baseAsset'',
            ins_Symbol = js_str sm ''symbol'', ins_Type = LinearUSDTPerpetual, ins_Settlement = js_str sm ''marginAsset'',
            ins_Multiplier = Dec_One, ins_QtyStep = stepSize, ins_MinQty = minQty, ins_MinNotional = 0,
            ins_TickSize = tickSize, ins_MaxLeverage = 125, ins_MaxMarketOrderQty = 0, ins_PositionLimit = 0,
            ins_FundingIntervalSec = 8 * 3600, ins_FundingPriceType = FundingPriceMark, ins_SupportsADL = True,
            ins_Status = InstrActive\<rparr>)"

text \<open>The funding intervals by symbol; a later entry of a symbol wins.\<close>

definition funding_intervals :: "json list \<Rightarrow> string \<rightharpoonup> int" where
  "funding_intervals entries = fold (\<lambda>f m. if js_int f ''fundingIntervalHours'' > 0
     then m(js_str f ''symbol'' \<mapsto> i64 (js_int f ''fundingIntervalHours'' * 3600)) else m) entries Map.empty"

text \<open>The second request is best effort: without it every interval is eight hours.\<close>

definition bn_intervals :: "'w BnAdapter \<Rightarrow> 'w \<Rightarrow> (string \<rightharpoonup> int) \<times> 'w" where
  "bn_intervals a w = (case doPublicGET a ''/fapi/v1/fundingInfo'' [] w of ((status, body, err), w') \<Rightarrow>
     ((if err = None \<and> status = 200 then
         (case Unmarshal (ShList fundingInfoEntry) (body_text body) of
            None \<Rightarrow> Map.empty
          | Some j \<Rightarrow> funding_intervals (js_elems j))
       else Map.empty), w'))"

definition bn_instrument :: "sp_ops \<Rightarrow> (string \<rightharpoonup> int) \<Rightarrow> json \<Rightarrow> CanonicalInstrument list" where
  "bn_instrument D intervals sm =
     (if js_str sm ''contractType'' \<noteq> ''PERPETUAL'' \<or> js_str sm ''quoteAsset'' \<noteq> ''USDT'' then []
      else if js_str sm ''status'' \<noteq> ''TRADING'' then []
      else (case parseExchangeInfoSymbol D sm of
              Inl e \<Rightarrow> []
            | Inr instr \<Rightarrow> [case intervals (js_str sm ''symbol'') of
                 Some interval \<Rightarrow> instr\<lparr>ins_FundingIntervalSec := interval\<rparr> | None \<Rightarrow> instr]))"

definition BN_GetInstruments :: "'w BnAdapter \<Rightarrow> 'w \<Rightarrow> (exch_error + CanonicalInstrument list) \<times> 'w" where
  "BN_GetInstruments a w =
     (case doPublicGET a ''/fapi/v1/exchangeInfo'' [] w of (ans, w1) \<Rightarrow>
        (case bn_decoded exchangeInfoResponse ans of
           Inl e \<Rightarrow> (Inl e, w1)
         | Inr ei \<Rightarrow> (case bn_intervals a w1 of (intervals, w2) \<Rightarrow>
             (Inr (concat (map (bn_instrument (bn_dec a) intervals) (js_list ei ''symbols''))), w2))))"

definition premiumIndexResponse :: shape where
  "premiumIndexResponse = ShStruct
     [(''symbol'', ShStr), (''markPrice'', ShStr), (''indexPrice'', ShStr), (''estimatedSettlePrice'', ShStr),
      (''lastFundingRate'', ShStr), (''nextFundingTime'', ShInt), (''interestRate'', ShStr), (''time'', ShInt)]"

definition funding_confidence :: "duration \<Rightarrow> ConfidenceLevel" where
  "funding_confidence untilFunding =
     (if untilFunding < 30 * Minute then ConfidenceHigh
      else if untilFunding < 240 * Minute then ConfidenceMedium else ConfidenceLow)"

definition BN_GetFunding :: "'w BnAdapter \<Rightarrow> ExchangeSymbol \<Rightarrow> 'w \<Rightarrow> (exch_error + FundingInfo) \<times> 'w" where
  "BN_GetFunding a symbol w =
     (case doPublicGET a ''/fapi/v1/premiumIndex'' (buildQuery [(''symbol'', symbol)]) w of (ans, w1) \<Rightarrow>
        (case bn_decoded premiumIndexResponse ans of
           Inl e \<Rightarrow> (Inl e, w1)
         | Inr res \<Rightarrow>
             (case Dec_FromString (bn_dec a) (js_str res ''lastFundingRate'') of
                Inl e \<Rightarrow> (Inl (ErrExchOther ''lastFundingRate''), w1)
              | Inr rate \<Rightarrow>
                  (let nextFunding = UnixMilli (js_int res ''nextFundingTime'') in
                   case bn_wall a w1 of (now, w2) \<Rightarrow>
                     (Inr \<lparr>fi_Symbol = symbol, fi_RealizedRate = rate, fi_PredictedRate = rate,
                        fi_RateType = FundingRatePredicted, fi_RateCap = None, fi_RateFloor = None,
                        fi_IntervalSec = 8 * 3600, fi_NextFundingTime = nextFunding,
                        fi_Confidence = funding_confidence (time_Sub nextFunding now),
                        fi_PriceType = FundingPriceMark\<rparr>, w2)))))"

definition bookTickerResponse :: shape where
  "bookTickerResponse = ShStruct [(''symbol'', ShStr), (''bidPrice'', ShStr), (''bidQty'', ShStr), (''askPrice'', ShStr),
     (''askQty'', ShStr), (''time'', ShInt)]"

definition ticker24hrResponse :: shape where
  "ticker24hrResponse = ShStruct [(''symbol'', ShStr), (''lastPrice'', ShStr), (''quoteVolume'', ShStr), (''closeTime'', ShInt)]"

definition BN_GetTicker :: "'w BnAdapter \<Rightarrow> ExchangeSymbol \<Rightarrow> 'w \<Rightarrow> (exch_error + Ticker) \<times> 'w" where
  "BN_GetTicker a symbol w =
     (case doPublicGET a ''/fapi/v1/ticker/bookTicker'' (buildQuery [(''symbol'', symbol)]) w of (ans1, w1) \<Rightarrow>
        (case bn_decoded bookTickerResponse ans1 of
           Inl e \<Rightarrow> (Inl e, w1)
         | Inr bt \<Rightarrow>
     (case doPublicGET a ''/fapi/v1/ticker/24hr'' (buildQuery [(''symbol'', symbol)]) w1 of (ans2, w2) \<Rightarrow>
        (case bn_decoded ticker24hrResponse ans2 of
           Inl e \<Rightarrow> (Inl e, w2)
         | Inr t24 \<Rightarrow>
     (case parseDecimalOrZero (bn_dec a) (js_str t24 ''lastPrice'') of
        Inl e \<Rightarrow> (Inl (ErrExchOther ''lastPrice''), w2)
      | Inr lastPrice \<Rightarrow>
     (case parseDecimalOrZero (bn_dec a) (js_str t24 ''quoteVolume'') of
        Inl e \<Rightarrow> (Inl (ErrExchOther ''quoteVolume''), w2)
      | Inr volume \<Rightarrow>
     (case bn_clock a w2 of (now, w3) \<Rightarrow>
        (Inr \<lparr>tk_Symbol = symbol, tk_LastPrice = lastPrice, tk_MarkPrice = 0, tk_IndexPrice = 0,
           tk_QuoteVolume24h = volume,
           tk_Timestamp = (if js_int bt ''time'' > 0 then UnixMilli (js_int bt ''time'') else now)\<rparr>, w3))))))))"

definition depthResponse :: shape where
  "depthResponse = ShStruct [(''lastUpdateId'', ShInt), (''E'', ShInt), (''T'', ShInt),
     (''bids'', ShList (ShList ShStr)), (''asks'', ShList (ShList ShStr))]"

text \<open>A level of fewer than two strings is skipped; one that does not parse ends the loop.\<close>

fun parsePriceLevels :: "sp_ops \<Rightarrow> string list list \<Rightarrow> dec_error + PriceLevel list" where
  "parsePriceLevels D [] = Inr []"
| "parsePriceLevels D (pair # raw) =
     (case pair of
        p # q # _ \<Rightarrow>
          (case Dec_FromString D p of
             Inl e \<Rightarrow> Inl e
           | Inr price \<Rightarrow>
          (case Dec_FromString D q of
             Inl e \<Rightarrow> Inl e
           | Inr qty \<Rightarrow>
          (case parsePriceLevels D raw of
             Inl e \<Rightarrow> Inl e
           | Inr ls \<Rightarrow> Inr (\<lparr>lvl_Price = price, lvl_Qty = qty\<rparr> # ls))))
      | _ \<Rightarrow> parsePriceLevels D raw)"

definition js_pairs :: "json \<Rightarrow> string \<Rightarrow> string list list" where
  "js_pairs j k = map (\<lambda>r. map js_text (js_elems r)) (js_list j k)"

definition BN_GetOrderBookSnapshot ::
  "'w BnAdapter \<Rightarrow> ExchangeSymbol \<Rightarrow> int \<Rightarrow> 'w \<Rightarrow> (exch_error + OrderBookSnapshot) \<times> 'w" where
  "BN_GetOrderBookSnapshot a symbol depth w =
     (case doPublicGET a ''/fapi/v1/depth'' (buildQuery [(''symbol'', symbol), (''limit'', format_int depth)]) w of (ans, w1) \<Rightarrow>
        (case bn_decoded depthResponse ans of
           Inl e \<Rightarrow> (Inl e, w1)
         | Inr res \<Rightarrow>
     (case parsePriceLevels (bn_dec a) (js_pairs res ''bids'') of
        Inl e \<Rightarrow> (Inl (ErrExchOther ''bids''), w1)
      | Inr bids \<Rightarrow>
     (case parsePriceLevels (bn_dec a) (js_pairs res ''asks'') of
        Inl e \<Rightarrow> (Inl (ErrExchOther ''asks''), w1)
      | Inr asks \<Rightarrow>
     (case bn_clock a w1 of (now, w2) \<Rightarrow>
        (Inr \<lparr>ob_Exchange = ExchangeBinance, ob_Symbol = symbol, ob_Bids = bids, ob_Asks = asks,
           ob_Timestamp = (if js_int res ''T'' > 0 then UnixMilli (js_int res ''T'')
                           else if js_int res ''E'' > 0 then UnixMilli (js_int res ''E'') else now),
           ob_Sequence = js_int res ''lastUpdateId'', ob_IsSnapshot = True\<rparr>, w2))))))"

section \<open>The account\<close>

definition balanceEntry :: shape where
  "balanceEntry = ShStruct (map (\<lambda>k. (k, ShStr))
     [''accountAlias'', ''asset'', ''balance'', ''crossWalletBalance'', ''crossUnPnl'', ''availableBalance'', ''maxWithdrawAmount'']
     @ [(''marginAvailable'', ShBool), (''updateTime'', ShInt)])"

text \<open>The loops that skip an entry they cannot parse.\<close>

definition keep_parsed :: "('a \<Rightarrow> 'e + 'b) \<Rightarrow> 'a list \<Rightarrow> 'b list" where
  "keep_parsed f xs = concat (map (\<lambda>x. case f x of Inl e \<Rightarrow> [] | Inr y \<Rightarrow> [y]) xs)"

definition bn_balance :: "sp_ops \<Rightarrow> json \<Rightarrow> exch_error + Balance" where
  "bn_balance D e =
     with_dec ''balance'' (parseDecimalOrZero D (js_str e ''balance'')) (\<lambda>wallet.
     with_dec ''availableBalance'' (parseDecimalOrZero D (js_str e ''availableBalance'')) (\<lambda>avail.
       Inr \<lparr>bl_Asset = js_str e ''asset'', bl_WalletBalance = wallet, bl_AvailableBalance = avail\<rparr>))"

definition BN_GetBalances :: "'w BnAdapter \<Rightarrow> 'w \<Rightarrow> (exch_error + Balance list) \<times> 'w" where
  "BN_GetBalances a w =
     (case doSignedGET a ''/fapi/v2/balance'' [] w of (ans, w') \<Rightarrow>
        (case bn_decoded (ShList balanceEntry) ans of
           Inl e \<Rightarrow> (Inl e, w')
         | Inr entries \<Rightarrow> (Inr (keep_parsed (bn_balance (bn_dec a)) (js_elems entries)), w')))"

definition positionRiskEntry :: shape where
  "positionRiskEntry = ShStruct (map (\<lambda>k. (k, ShStr))
     [''symbol'', ''positionAmt'', ''entryPrice'', ''breakEvenPrice'', ''markPrice'', ''unRealizedProfit'', ''liquidationPrice'',
      ''leverage'', ''maxNotionalValue'', ''marginType'', ''isolatedMargin'', ''isAutoAddMargin'', ''positionSide'', ''notional'',
      ''isolatedWallet''] @ [(''updateTime'', ShInt)])"

definition parsePositionRisk :: "sp_ops \<Rightarrow> json \<Rightarrow> exch_error + ExchPosition" where
  "parsePositionRisk D e =
     with_dec ''positionAmt'' (Dec_FromString D (js_str e ''positionAmt'')) (\<lambda>amt.
     with_dec ''entryPrice'' (parseDecimalOrZero D (js_str e ''entryPrice'')) (\<lambda>entryPrice.
     with_dec ''markPrice'' (parseDecimalOrZero D (js_str e ''markPrice'')) (\<lambda>markPrice.
     with_dec ''liquidationPrice'' (parseDecimalOrZero D (js_str e ''liquidationPrice'')) (\<lambda>liqPrice.
     with_dec ''unRealizedProfit'' (parseDecimalOrZero D (js_str e ''unRealizedProfit'')) (\<lambda>pnl.
     with_dec ''leverage'' (parseDecimalOrZero D (js_str e ''leverage'')) (\<lambda>leverage.
     with_dec ''isolatedMargin'' (parseDecimalOrZero D (js_str e ''isolatedMargin'')) (\<lambda>margin.
       Inr \<lparr>xp_Symbol = js_str e ''symbol'', xp_Side = (if amt > 0 then SideLong else SideShort),
         xp_ContractQty = \<bar>amt\<bar>, xp_BaseQty = \<bar>amt\<bar>, xp_EntryPrice = entryPrice, xp_MarkPrice = markPrice,
         xp_LiquidationPrice = liqPrice, xp_UnrealizedPnL = pnl,
         xp_MarginMode = (if to_lower (js_str e ''marginType'') = ''isolated'' then MarginIsolated else MarginCross),
         xp_Leverage = leverage, xp_Margin = margin, xp_ADLQueue = None,
         xp_Updated = (if js_int e ''updateTime'' > 0 then UnixMilli (js_int e ''updateTime'') else zero_time)\<rparr>)))))))"

definition bn_open_position :: "sp_ops \<Rightarrow> json \<Rightarrow> exch_error + ExchPosition" where
  "bn_open_position D e = (case Dec_FromString D (js_str e ''positionAmt'') of
     Inl err \<Rightarrow> Inl (ErrExchOther ''positionAmt'')
   | Inr amt \<Rightarrow> if amt = 0 then Inl (ErrExchOther ''empty'') else parsePositionRisk D e)"

definition BN_GetPositions :: "'w BnAdapter \<Rightarrow> 'w \<Rightarrow> (exch_error + ExchPosition list) \<times> 'w" where
  "BN_GetPositions a w =
     (case doSignedGET a ''/fapi/v2/positionRisk'' [] w of (ans, w') \<Rightarrow>
        (case bn_decoded (ShList positionRiskEntry) ans of
           Inl e \<Rightarrow> (Inl e, w')
         | Inr entries \<Rightarrow> (Inr (keep_parsed (bn_open_position (bn_dec a)) (js_elems entries)), w')))"

definition adlQuantileResponse :: shape where
  "adlQuantileResponse = ShStruct [(''symbol'', ShStr),
     (''adlQuantile'', ShStruct [(''LONG'', ShInt), (''SHORT'', ShInt), (''BOTH'', ShInt), (''HEDGE'', ShInt)])]"

text \<open>The entries of the answer, which is a list or a single object.\<close>

definition adl_entries :: "string \<Rightarrow> json list option" where
  "adl_entries body = (case Unmarshal (ShList adlQuantileResponse) body of
     Some j \<Rightarrow> Some (js_elems j)
   | None \<Rightarrow> map_option (\<lambda>j. [j]) (Unmarshal adlQuantileResponse body))"

definition quantile :: "sp_ops \<Rightarrow> int \<Rightarrow> decimal" where
  "quantile D n = sp_Div D DivisionPrecision (of_int n) 4"

definition adl_state :: "sp_ops \<Rightarrow> ExchangeSymbol \<Rightarrow> time \<Rightarrow> json list \<Rightarrow> ADLState" where
  "adl_state D symbol now entries =
     (case find (\<lambda>e. js_str e ''symbol'' = symbol) entries of
        None \<Rightarrow> \<lparr>al_Symbol = symbol, al_LongQueue = Dec_Zero, al_ShortQueue = Dec_Zero, al_Timestamp = now\<rparr>
      | Some e \<Rightarrow> (let q = obj_get e ''adlQuantile''; both = js_int q ''BOTH'' in
          \<lparr>al_Symbol = symbol,
           al_LongQueue = quantile D (if both > 0 then both else js_int q ''LONG''),
           al_ShortQueue = quantile D (if both > 0 then both else js_int q ''SHORT''),
           al_Timestamp = now\<rparr>))"

definition BN_GetADLState :: "'w BnAdapter \<Rightarrow> ExchangeSymbol \<Rightarrow> 'w \<Rightarrow> (exch_error + ADLState) \<times> 'w" where
  "BN_GetADLState a symbol w =
     (case doSignedGET a ''/fapi/v1/adlQuantile'' (buildQuery [(''symbol'', symbol)]) w of (ans, w1) \<Rightarrow>
        (case bn_body ans of
           Inl e \<Rightarrow> (Inl e, w1)
         | Inr body \<Rightarrow>
             (case adl_entries body of
                None \<Rightarrow> (Inl (ErrExchOther ''parse''), w1)
              | Some entries \<Rightarrow> (case bn_clock a w1 of (now, w2) \<Rightarrow>
                  (Inr (adl_state (bn_dec a) symbol now entries), w2)))))"

section \<open>Orders\<close>

definition openOrderEntry :: shape where
  "openOrderEntry = ShStruct ((''orderId'', ShInt) # map (\<lambda>k. (k, ShStr))
     [''clientOrderId'', ''symbol'', ''side'', ''type'', ''origQty'', ''executedQty'', ''cumQty'', ''avgPrice'', ''price'', ''status'']
     @ [(''reduceOnly'', ShBool), (''timeInForce'', ShStr), (''time'', ShInt), (''updateTime'', ShInt), (''cumQuote'', ShStr)])"

definition parseSide :: "string \<Rightarrow> Side" where
  "parseSide s = (if to_upper s = ''BUY'' then SideLong else SideShort)"

definition parseOrderStatus :: "string \<Rightarrow> OrderStatus" where
  "parseOrderStatus s = (let u = to_upper s in
     if u = ''NEW'' then OrdAcknowledged
     else if u = ''PARTIALLY_FILLED'' then OrdPartiallyFilled
     else if u = ''FILLED'' then OrdFilled
     else if u = ''CANCELED'' then OrdCancelled
     else if u = ''REJECTED'' then OrdRejected
     else if u = ''EXPIRED'' then OrdExpired
     else OrdNew)"

definition parseOrderMode :: "string \<Rightarrow> OrderMode" where
  "parseOrderMode t = (if to_upper t = ''MARKET'' then OrderMarket else OrderMarketableLimitIOC)"

definition parseOpenOrder :: "sp_ops \<Rightarrow> json \<Rightarrow> exch_error + Order" where
  "parseOpenOrder D e =
     with_dec ''origQty'' (Dec_FromString D (js_str e ''origQty'')) (\<lambda>qty.
     with_dec ''executedQty'' (parseDecimalOrZero D (js_str e ''executedQty'')) (\<lambda>filledQty.
     with_dec ''avgPrice'' (parseDecimalOrZero D (js_str e ''avgPrice'')) (\<lambda>avgPrice.
       Inr \<lparr>ord_ExchangeOrderID = format_int (js_int e ''orderId''), ord_ClientOrderID = js_str e ''clientOrderId'',
         ord_Symbol = js_str e ''symbol'', ord_Side = parseSide (js_str e ''side''),
         ord_Mode = parseOrderMode (js_str e ''type''), ord_ReduceOnly = js_bool e ''reduceOnly'',
         ord_RequestedQty = qty, ord_FilledQty = filledQty, ord_AvgFillPrice = avgPrice, ord_Fees = 0,
         ord_Status = parseOrderStatus (js_str e ''status''),
         ord_ExchangeTimestamp = (if js_int e ''time'' > 0 then UnixMilli (js_int e ''time'') else zero_time),
         ord_AckState = AckQueried\<rparr>)))"

definition BN_GetOpenOrders :: "'w BnAdapter \<Rightarrow> ExchangeSymbol \<Rightarrow> 'w \<Rightarrow> (exch_error + Order list) \<times> 'w" where
  "BN_GetOpenOrders a symbol w =
     (case doSignedGET a ''/fapi/v1/openOrders'' (buildQuery [(''symbol'', symbol)]) w of (ans, w') \<Rightarrow>
        (case bn_decoded (ShList openOrderEntry) ans of
           Inl e \<Rightarrow> (Inl e, w')
         | Inr entries \<Rightarrow> (Inr (keep_parsed (parseOpenOrder (bn_dec a)) (js_elems entries)), w')))"

text \<open>A settings request: one error of the exchange counts as success.\<close>

definition bn_setting :: "exch_error \<Rightarrow> http_answer \<Rightarrow> exch_error option" where
  "bn_setting unchanged ans = (case bn_body ans of
     Inl e \<Rightarrow> (if snd (snd ans) = None \<and> e = unchanged then None else Some e)
   | Inr b \<Rightarrow> None)"

definition BN_SetLeverage :: "'w BnAdapter \<Rightarrow> SetLeverageRequest \<Rightarrow> 'w \<Rightarrow> exch_error option \<times> 'w" where
  "BN_SetLeverage a req w =
     (case doSignedPOST a ''/fapi/v1/leverage''
          [(''symbol'', lev_Symbol req), (''leverage'', format_int (sp_IntPart (bn_dec a) (lev_Leverage req)))] w of
        (ans, w') \<Rightarrow> (bn_setting errLeverageNotChanged ans, w'))"

definition BN_SetMarginMode :: "'w BnAdapter \<Rightarrow> ExchangeSymbol \<Rightarrow> MarginMode \<Rightarrow> 'w \<Rightarrow> exch_error option \<times> 'w" where
  "BN_SetMarginMode a symbol mode w =
     (case doSignedPOST a ''/fapi/v1/marginType''
          [(''symbol'', symbol), (''marginType'', if mode = MarginIsolated then ''ISOLATED'' else ''CROSSED'')] w of
        (ans, w') \<Rightarrow> (bn_setting errMarginModeNotChanged ans, w'))"

definition BN_SetPositionMode :: "'w BnAdapter \<Rightarrow> PositionMode \<Rightarrow> 'w \<Rightarrow> exch_error option \<times> 'w" where
  "BN_SetPositionMode a mode w =
     (case doSignedPOST a ''/fapi/v1/positionSide/dual''
          [(''dualSidePosition'', if mode = PositionHedge then ''true'' else ''false'')] w of
        (ans, w') \<Rightarrow> (bn_setting errPositionModeNotChanged ans, w'))"

fun TIF_text :: "TimeInForce \<Rightarrow> string" where
  "TIF_text TIFNone = []"
| "TIF_text TIFGTC = ''GTC''"
| "TIF_text TIFIOC = ''IOC''"
| "TIF_text TIFFOK = ''FOK''"

text \<open>The parameters of an order.\<close>

definition order_params :: "sp_ops \<Rightarrow> PlaceOrderRequest \<Rightarrow> (string \<times> string) list" where
  "order_params D req =
     (let market = req_Mode req = OrderMarket;
          tif = (if market then [] else if TIF_text (req_TimeInForce req) \<noteq> [] then TIF_text (req_TimeInForce req) else ''IOC'')
      in [(''symbol'', req_Symbol req), (''side'', if req_Side req = SideShort then ''SELL'' else ''BUY''),
          (''type'', if market then ''MARKET'' else ''LIMIT''), (''quantity'', sp_String D (req_BaseQty req)),
          (''newClientOrderId'', req_ClientOrderID req)]
         @ (if tif \<noteq> [] then [(''timeInForce'', tif)] else [])
         @ (if \<not> market \<and> req_Price req \<noteq> 0 then [(''price'', sp_String D (req_Price req))] else [])
         @ (if req_ReduceOnly req then [(''reduceOnly'', ''true'')] else []))"

definition placeOrderResponse :: shape where
  "placeOrderResponse = ShStruct [(''orderId'', ShInt), (''clientOrderId'', ShStr), (''symbol'', ShStr), (''status'', ShStr),
     (''updateTime'', ShInt)]"

definition BN_PlaceOrder :: "'w BnAdapter \<Rightarrow> PlaceOrderRequest \<Rightarrow> 'w \<Rightarrow> (exch_error + OrderAck) \<times> 'w" where
  "BN_PlaceOrder a req w =
     (case doSignedPOST a ''/fapi/v1/order'' (order_params (bn_dec a) req) w of (ans, w1) \<Rightarrow>
        (case bn_decoded placeOrderResponse ans of
           Inl e \<Rightarrow> (Inl e, w1)
         | Inr res \<Rightarrow> (case bn_clock a w1 of (now, w2) \<Rightarrow>
             (Inr \<lparr>ack_ExchangeOrderID = format_int (js_int res ''orderId''), ack_ClientOrderID = req_ClientOrderID req,
                ack_Status = OrdAcknowledged, ack_Timestamp = now\<rparr>, w2))))"

text \<open>The parameters that name an order.\<close>

definition order_key :: "ExchangeSymbol \<Rightarrow> ClientOrderID \<Rightarrow> string \<Rightarrow> (string \<times> string) list" where
  "order_key symbol clientID exchangeID =
     [(''symbol'', symbol)] @ (if clientID \<noteq> [] then [(''origClientOrderId'', clientID)] else [])
     @ (if exchangeID \<noteq> [] then [(''orderId'', exchangeID)] else [])"

definition BN_CancelOrder :: "'w BnAdapter \<Rightarrow> CancelOrderRequest \<Rightarrow> 'w \<Rightarrow> exch_error option \<times> 'w" where
  "BN_CancelOrder a req w =
     (case doSignedDELETE a ''/fapi/v1/order''
          (buildQuery (order_key (cxl_Symbol req) (cxl_ClientOrderID req) (cxl_ExchangeOrderID req))) w of (ans, w') \<Rightarrow>
        ((case bn_body ans of Inl e \<Rightarrow> Some e | Inr b \<Rightarrow> None), w'))"

definition BN_GetOrder :: "'w BnAdapter \<Rightarrow> OrderQuery \<Rightarrow> 'w \<Rightarrow> (exch_error + Order) \<times> 'w" where
  "BN_GetOrder a req w =
     (case doSignedGET a ''/fapi/v1/order''
          (buildQuery (order_key (qry_Symbol req) (qry_ClientOrderID req) (qry_ExchangeOrderID req))) w of (ans, w') \<Rightarrow>
        (case bn_decoded openOrderEntry ans of
           Inl e \<Rightarrow> (Inl e, w')
         | Inr e \<Rightarrow> (parseOpenOrder (bn_dec a) e, w')))"

section \<open>Transfers\<close>

definition mapTransferType :: "string \<Rightarrow> string \<Rightarrow> string" where
  "mapTransferType src dst =
     (let f = to_lower src; t = to_lower dst in
      if (f = ''spot'' \<or> f = ''main'') \<and> (t = ''futures'' \<or> t = ''umfuture'') then ''MAIN_UMFUTURE''
      else if (f = ''futures'' \<or> f = ''umfuture'') \<and> (t = ''spot'' \<or> t = ''main'') then ''UMFUTURE_MAIN''
      else to_upper src @ ''_'' @ to_upper dst)"

definition BN_InternalTransfer ::
  "'w BnAdapter \<Rightarrow> InternalTransferRequest \<Rightarrow> 'w \<Rightarrow> (exch_error + TransferResult) \<times> 'w" where
  "BN_InternalTransfer a req w =
     (case doSignedSAPIPOST a ''/sapi/v1/asset/transfer''
          [(''type'', mapTransferType (it_From req) (it_To req)), (''asset'', it_Asset req),
           (''amount'', sp_String (bn_dec a) (it_Amount req))] w of (ans, w') \<Rightarrow>
        (case bn_decoded (ShStruct [(''tranId'', ShInt)]) ans of
           Inl e \<Rightarrow> (Inl e, w')
         | Inr res \<Rightarrow> (Inr \<lparr>xr_TransferID = format_int (js_int res ''tranId''), xr_Status = ''submitted''\<rparr>, w')))"

definition withdraw_params :: "sp_ops \<Rightarrow> WithdrawalRequest \<Rightarrow> (string \<times> string) list" where
  "withdraw_params D req =
     [(''coin'', wd_Asset req), (''network'', wd_Network req), (''address'', wd_Address req),
      (''amount'', sp_String D (wd_Amount req))]
     @ (if wd_Memo req \<noteq> [] then [(''addressTag'', wd_Memo req)] else [])"

definition BN_Withdraw :: "'w BnAdapter \<Rightarrow> WithdrawalRequest \<Rightarrow> 'w \<Rightarrow> (exch_error + WithdrawalResult) \<times> 'w" where
  "BN_Withdraw a req w =
     (case doSignedSAPIPOST a ''/sapi/v1/capital/withdraw/apply'' (withdraw_params (bn_dec a) req) w of (ans, w') \<Rightarrow>
        (case bn_decoded (ShStruct [(''id'', ShStr)]) ans of
           Inl e \<Rightarrow> (Inl e, w')
         | Inr res \<Rightarrow> (Inr \<lparr>wr_WithdrawalID = js_str res ''id'', wr_TxID = [], wr_Status = ''submitted''\<rparr>, w')))"

definition history_params :: "TransferQuery \<Rightarrow> (string \<times> string) list" where
  "history_params q = (if tq_Asset q \<noteq> [] then [(''coin'', tq_Asset q)] else [])
     @ (if tq_Limit q > 0 then [(''limit'', format_int (tq_Limit q))] else [])"

text \<open>A number that does not parse counts as zero.\<close>

definition dec_or_zero :: "sp_ops \<Rightarrow> string \<Rightarrow> decimal" where
  "dec_or_zero D s = (case parseDecimalOrZero D s of Inl e \<Rightarrow> 0 | Inr x \<Rightarrow> x)"

definition withdrawHistoryEntry :: shape where
  "withdrawHistoryEntry = ShStruct [(''id'', ShStr), (''txId'', ShStr), (''coin'', ShStr), (''network'', ShStr),
     (''amount'', ShStr), (''transactionFee'', ShStr), (''status'', ShInt), (''applyTime'', ShStr)]"

definition bn_withdrawal :: "sp_ops \<Rightarrow> json \<Rightarrow> Withdrawal" where
  "bn_withdrawal D e =
     \<lparr>wl_WithdrawalID = js_str e ''id'', wl_TxID = js_str e ''txId'', wl_Asset = js_str e ''coin'',
      wl_Network = js_str e ''network'', wl_Amount = dec_or_zero D (js_str e ''amount''),
      wl_Fee = dec_or_zero D (js_str e ''transactionFee''), wl_Status = format_int (js_int e ''status''),
      wl_RequestedAt = zero_time\<rparr>"

definition BN_GetWithdrawalHistory ::
  "'w BnAdapter \<Rightarrow> TransferQuery \<Rightarrow> 'w \<Rightarrow> (exch_error + Withdrawal list) \<times> 'w" where
  "BN_GetWithdrawalHistory a q w =
     (case doSignedSAPIGET a ''/sapi/v1/capital/withdraw/history'' (buildQuery (history_params q)) w of (ans, w') \<Rightarrow>
        (case bn_decoded (ShList withdrawHistoryEntry) ans of
           Inl e \<Rightarrow> (Inl e, w')
         | Inr entries \<Rightarrow> (Inr (map (bn_withdrawal (bn_dec a)) (js_elems entries)), w')))"

definition depositHistoryEntry :: shape where
  "depositHistoryEntry = ShStruct [(''txId'', ShStr), (''coin'', ShStr), (''network'', ShStr), (''amount'', ShStr),
     (''status'', ShInt), (''insertTime'', ShInt)]"

definition bn_deposit :: "sp_ops \<Rightarrow> json \<Rightarrow> Deposit" where
  "bn_deposit D e =
     \<lparr>dp_TxID = js_str e ''txId'', dp_Asset = js_str e ''coin'', dp_Network = js_str e ''network'',
      dp_Amount = dec_or_zero D (js_str e ''amount''), dp_Status = format_int (js_int e ''status''),
      dp_ConfirmedAt = (if js_int e ''insertTime'' > 0 then UnixMilli (js_int e ''insertTime'') else zero_time)\<rparr>"

definition BN_GetDepositHistory :: "'w BnAdapter \<Rightarrow> TransferQuery \<Rightarrow> 'w \<Rightarrow> (exch_error + Deposit list) \<times> 'w" where
  "BN_GetDepositHistory a q w =
     (case doSignedSAPIGET a ''/sapi/v1/capital/deposit/hisrec'' (buildQuery (history_params q)) w of (ans, w') \<Rightarrow>
        (case bn_decoded (ShList depositHistoryEntry) ans of
           Inl e \<Rightarrow> (Inl e, w')
         | Inr entries \<Rightarrow> (Inr (map (bn_deposit (bn_dec a)) (js_elems entries)), w')))"

definition coinNetworkEntry :: shape where
  "coinNetworkEntry = ShStruct [(''coin'', ShStr), (''networkList'', ShList (ShStruct
     [(''network'', ShStr), (''withdrawEnable'', ShBool), (''depositEnable'', ShBool), (''withdrawFee'', ShStr),
      (''withdrawMin'', ShStr), (''depositDesc'', ShStr)]))]"

definition bn_network :: "sp_ops \<Rightarrow> json \<Rightarrow> NetworkInfo" where
  "bn_network D n =
     \<lparr>ni_Network = js_str n ''network'', ni_WithdrawEnabled = js_bool n ''withdrawEnable'',
      ni_DepositEnabled = js_bool n ''depositEnable'', ni_WithdrawFee = dec_or_zero D (js_str n ''withdrawFee''),
      ni_WithdrawMin = dec_or_zero D (js_str n ''withdrawMin''), ni_DepositMin = 0\<rparr>"

definition BN_GetNetworkInfo :: "'w BnAdapter \<Rightarrow> string \<Rightarrow> 'w \<Rightarrow> (exch_error + NetworkInfo list) \<times> 'w" where
  "BN_GetNetworkInfo a asset w =
     (case doSignedSAPIGET a ''/sapi/v1/capital/config/getall'' (buildQuery [(''coin'', asset)]) w of (ans, w') \<Rightarrow>
        (case bn_decoded (ShList coinNetworkEntry) ans of
           Inl e \<Rightarrow> (Inl e, w')
         | Inr coins \<Rightarrow> (Inr (concat (map (\<lambda>c. if js_str c ''coin'' \<noteq> asset then []
               else map (bn_network (bn_dec a)) (js_list c ''networkList'')) (js_elems coins))), w')))"

section \<open>The adapter behind the interface\<close>

definition binance_adapter :: "'w BnAdapter \<Rightarrow> 'w adapter" where
  "binance_adapter a = \<lparr>ad_PlaceOrder = BN_PlaceOrder a, ad_GetOrder = BN_GetOrder a, ad_SetLeverage = BN_SetLeverage a\<rparr>"

section \<open>What is sent\<close>

lemma QueryEscape_unreserved: "list_all unreserved s \<Longrightarrow> QueryEscape s = s"
  by (induction s) (simp_all add: QueryEscape_def escape_char_def)

lemma format_int_unreserved: "list_all unreserved (format_int n)"
proof -
  have "unreserved c" if "is_digit c" for c using that by (simp add: unreserved_def is_digit_def Let_def)
  then have "list_all unreserved (format_uint m)" for m using format_uint_digits by (auto simp: list_all_iff)
  then show ?thesis by (simp add: format_int_def unreserved_def)
qed

lemma hex_unreserved: "list_all unreserved (hex_EncodeToString s)"
proof -
  have "list_all unreserved ''0123456789abcdef''" by code_simp
  then have "unreserved (lower_hex d)" if "d < 16" for d
    using lower_hex_char [OF that] by (auto simp: list_all_iff)
  then show ?thesis
    using of_char_bound by (auto simp: hex_EncodeToString_def list_all_iff less_mult_imp_div_less)
qed

lemma join_amp_append: "join_amp (xs @ [y]) = (if xs = [] then y else join_amp xs @ ''&'' @ y)"
  by (induction xs rule: join_amp.induct) auto

lemma join_amp_Nil: "join_amp (map query_pair kvs) = [] \<longleftrightarrow> kvs = []"
  by (cases kvs rule: list.exhaust; cases "tl kvs") (auto simp: query_pair_plain(2))

text \<open>A signed query is the pairs joined, with the three that the signer adds.\<close>

lemma SignQuery_pairs:
  assumes "kvs = sort_key fst params @ [(''timestamp'', format_int ts), (''recvWindow'', format_int window)]"
  shows "SignQuery secret (buildQuery params) ts window
     = join_amp (map query_pair (kvs @ [(''signature'', Sign secret (join_amp (map query_pair kvs)))]))"
proof -
  have name: "QueryEscape ''timestamp'' = ''timestamp''" "QueryEscape ''recvWindow'' = ''recvWindow''"
      "QueryEscape ''signature'' = ''signature''"
    by code_simp+
  have v: "QueryEscape (format_int n) = format_int n" "QueryEscape (Sign s p) = Sign s p" for n s p
    by (simp_all add: QueryEscape_unreserved format_int_unreserved Sign_def hex_unreserved)
  have full: "buildQuery params @ (if buildQuery params \<noteq> [] then ''&'' else []) @ ''timestamp='' @ format_int ts
      @ ''&recvWindow='' @ format_int window = join_amp (map query_pair kvs)"
    unfolding assms buildQuery_def
    by (simp add: join_amp_append [of "_ @ [_]", simplified] join_amp_append join_amp_Nil query_pair_def name v)
  have "SignQuery secret (buildQuery params) ts window
      = join_amp (map query_pair kvs) @ ''&signature='' @ Sign secret (join_amp (map query_pair kvs))"
    unfolding SignQuery_def Let_def full [symmetric] by simp
  moreover have "query_pair (''signature'', Sign secret m) = ''signature='' @ Sign secret m" for m
    by (simp add: query_pair_def name v)
  moreover have "kvs \<noteq> []" using assms by simp
  ultimately show ?thesis by (simp add: join_amp_append)
qed

text \<open>
  C30: the query of a signed request reads back as the parameters, sorted by name, followed by
  the timestamp, the receive window and the signature of everything before it: no value, whatever bytes it holds, can
  add, hide or change another parameter.
\<close>

theorem signed_query_readable:
  "read_query (SignQuery secret (buildQuery params) ts window)
     = Some (sort_key fst params @ [(''timestamp'', format_int ts), (''recvWindow'', format_int window),
         (''signature'', Sign secret (join_amp (map query_pair
            (sort_key fst params @ [(''timestamp'', format_int ts), (''recvWindow'', format_int window)]))))])"
  unfolding SignQuery_pairs [OF refl] read_query_join by simp

end
