(* ===== verification/BinanceVenue.thy ===== *)
theory BinanceVenue
  imports Binance OrderExecutor
begin

text \<open>
  The Binance adapter as a venue of the order path.

  The locale \<open>binance_api\<close> states what Binance documents about the two order requests, over the requests as they are
  sent; from it follow the laws of the locale \<open>venue\<close> and with them the guarantees of the order executor.
\<close>

text \<open>A parameter of a request.\<close>

definition query_param :: "HttpRequest \<Rightarrow> string \<Rightarrow> string option" where
  "query_param r k = (case read_query (hr_Query r) of None \<Rightarrow> None | Some kvs \<Rightarrow> map_of kvs k)"

definition order_request :: "string \<Rightarrow> HttpRequest \<Rightarrow> bool" where
  "order_request meth r \<longleftrightarrow> hr_Method r = meth \<and> hr_Path r = ''/fapi/v1/order''"

definition ok_status :: "int \<Rightarrow> bool" where
  "ok_status status \<longleftrightarrow> status \<ge> 200 \<and> status < 300"

text \<open>
  An answer that leaves open what became of the request.  Binance documents 408, the 5xx statuses and the codes -1006 and -1007 as
  "execution status unknown"; what is no 2xx and no 4xx at all is not documented either.
\<close>

definition outcome_unknown :: "http_answer \<Rightarrow> bool" where
  "outcome_unknown ans = (case ans of (status, body, err) \<Rightarrow>
     err = None \<and> \<not> ok_status status
     \<and> (status < 400 \<or> status \<ge> 500 \<or> status = 408
        \<or> (case Unmarshal apiErr_shape (body_text body) of None \<Rightarrow> False | Some j \<Rightarrow> js_int j ''code'' = -1006 \<or> js_int j ''code'' = -1007)))"

text \<open>An entry of the exchange that the adapter can read.\<close>

definition readable :: "'w BnAdapter \<Rightarrow> json \<Rightarrow> bool" where
  "readable a e \<longleftrightarrow> (\<exists>ord. parseOpenOrder (bn_dec a) e = Inr ord)"

locale binance_api =
  fixes a :: "'w BnAdapter" and orders :: "'w \<Rightarrow> ClientOrderID \<Rightarrow> json option"
  assumes clock_pure: "bn_clock a w = (t, w') \<Longrightarrow> orders w' = orders w"
    and get_pure: "hr_Method r = ''GET'' \<Longrightarrow> bn_http a r w = (ans, w') \<Longrightarrow> orders w' = orders w"
    and order_lost: "order_request ''POST'' r \<Longrightarrow> query_param r ''newClientOrderId'' = Some i \<Longrightarrow>
        bn_http a r w = ((status, body, Some e), w') \<Longrightarrow>
        orders w' = orders w \<or> (\<exists>x. readable a x \<and> orders w' = (orders w)(i \<mapsto> x))"
    and order_accepted: "order_request ''POST'' r \<Longrightarrow> query_param r ''newClientOrderId'' = Some i \<Longrightarrow>
        bn_http a r w = ((status, body, None), w') \<Longrightarrow> ok_status status \<Longrightarrow>
        (\<exists>x. readable a x \<and> orders w' = (orders w)(i \<mapsto> x)) \<and> Unmarshal placeOrderResponse (body_text body) \<noteq> None"
    and order_rejected: "order_request ''POST'' r \<Longrightarrow> bn_http a r w = ((status, body, None), w') \<Longrightarrow>
        \<not> ok_status status \<Longrightarrow> \<not> outcome_unknown (status, body, None) \<Longrightarrow> orders w' = orders w"
    and order_unknown: "order_request ''POST'' r \<Longrightarrow> query_param r ''newClientOrderId'' = Some i \<Longrightarrow>
        bn_http a r w = ((status, body, None), w') \<Longrightarrow> outcome_unknown (status, body, None) \<Longrightarrow>
        orders w' = orders w \<or> (\<exists>x. readable a x \<and> orders w' = (orders w)(i \<mapsto> x))"
    and order_shown: "order_request ''GET'' r \<Longrightarrow> query_param r ''origClientOrderId'' = Some i \<Longrightarrow>
        bn_http a r w = ((status, body, None), w') \<Longrightarrow> ok_status status \<Longrightarrow>
        Unmarshal openOrderEntry (body_text body) = Some x \<Longrightarrow> orders w i = Some x"
    and order_missing: "order_request ''GET'' r \<Longrightarrow> query_param r ''origClientOrderId'' = Some i \<Longrightarrow>
        bn_http a r w = ((status, body, None), w') \<Longrightarrow> wrapHTTPStatus status (body_text body) = Some ErrOrderNotFound \<Longrightarrow>
        orders w i = None"
    and order_unnamed: "order_request ''GET'' r \<Longrightarrow> query_param r ''origClientOrderId'' = None \<Longrightarrow>
        query_param r ''orderId'' = None \<Longrightarrow> bn_http a r w = ((status, body, None), w') \<Longrightarrow>
        \<not> ok_status status \<and> wrapHTTPStatus status (body_text body) \<noteq> Some ErrOrderNotFound"

section \<open>Parameters of the requests that are sent\<close>

lemma map_of_sorted:
  assumes "distinct (map fst ps)"
  shows "map_of (sort_key fst ps) k = map_of ps k"
proof -
  have "distinct (map fst (sort_key fst ps))"
    using assms by (metis distinct_map inj_on_cong mset_map mset_sort set_sort distinct_sort distinct_map)
  then have "map_of (sort_key fst ps) = map_of ps" using assms by (simp add: map_of_inject_set)
  then show ?thesis by simp
qed

definition own_params :: "string list" where
  "own_params = [''timestamp'', ''recvWindow'', ''signature'']"

lemma signed_param:
  assumes "distinct (map fst ps)" and "k \<notin> set own_params" and "hr_Query r = SignQuery s (buildQuery ps) t win"
  shows "query_param r k = map_of ps k"
  using assms unfolding query_param_def assms(3) SignQuery_pairs [OF refl] read_query_join
  by (auto simp: map_of_sorted map_add_def own_params_def split: option.splits)

lemma order_params_keys:
  "distinct (map fst (order_params D req))" "map_of (order_params D req) ''newClientOrderId'' = Some (req_ClientOrderID req)"
  by (auto simp: order_params_def Let_def)

lemma order_key_keys:
  "distinct (map fst (order_key sm i x))"
  "map_of (order_key sm i x) ''origClientOrderId'' = (if i \<noteq> [] then Some i else None)"
  "map_of (order_key sm i x) ''orderId'' = (if x \<noteq> [] then Some x else None)"
  by (auto simp: order_key_def)

text \<open>
  The queries of the order path name an order by its client order id only.  An adapter that reported an unknown outcome as
  ambiguous would keep the contract of a venue; the adapter of the program agrees with it on every other answer.
\<close>

definition by_client_id :: "'w BnAdapter \<Rightarrow> 'w adapter" where
  "by_client_id a = (binance_adapter a)\<lparr>ad_GetOrder := (\<lambda>q. BN_GetOrder a (q\<lparr>qry_ExchangeOrderID := []\<rparr>))\<rparr>"

text \<open>The answer to the order request of a placement.\<close>

definition order_answer :: "'w BnAdapter \<Rightarrow> PlaceOrderRequest \<Rightarrow> 'w \<Rightarrow> http_answer" where
  "order_answer a req w = fst (doSignedPOST a ''/fapi/v1/order'' (order_params (bn_dec a) req) w)"

definition candid_adapter :: "'w BnAdapter \<Rightarrow> 'w adapter" where
  "candid_adapter a = (by_client_id a)\<lparr>ad_PlaceOrder := (\<lambda>req w.
     if outcome_unknown (order_answer a req w)
     then (Inl ErrTimeout, snd (doSignedPOST a ''/fapi/v1/order'' (order_params (bn_dec a) req) w))
     else BN_PlaceOrder a req w)\<rparr>"

lemma Place_by_client_id: "Place (binance_adapter a) req w = Place (by_client_id a) req w"
proof -
  have "ad_PlaceOrder (binance_adapter a) = ad_PlaceOrder (by_client_id a)"
      "ad_GetOrder (binance_adapter a) (query_of req) = ad_GetOrder (by_client_id a) (query_of req)"
    by (simp_all add: by_client_id_def binance_adapter_def query_of_def)
  then show ?thesis unfolding Place_def by (simp only:)
qed

section \<open>The laws of a venue\<close>

definition book_of :: "'w BnAdapter \<Rightarrow> ('w \<Rightarrow> ClientOrderID \<Rightarrow> json option) \<Rightarrow> 'w \<Rightarrow> ClientOrderID \<Rightarrow> Order option" where
  "book_of a orders w i = (case orders w i of None \<Rightarrow> None | Some x \<Rightarrow>
     (case parseOpenOrder (bn_dec a) x of Inl e \<Rightarrow> None | Inr ord \<Rightarrow> Some ord))"

lemma book_of_upd:
  assumes "orders w' = (orders w)(i \<mapsto> x)" and "readable a x"
  shows "\<exists>ord. book_of a orders w' = (book_of a orders w)(i \<mapsto> ord)"
  using assms by (auto simp: book_of_def readable_def fun_eq_iff)

lemma mapAPIError_definite: "mapAPIError c m \<noteq> ErrTimeout \<and> mapAPIError c m \<noteq> ErrNetwork"
  by (simp add: mapAPIError_def errMarginModeNotChanged_def errPositionModeNotChanged_def errLeverageNotChanged_def)

lemma wrapHTTPStatus_definite: "wrapHTTPStatus st b = Some e \<Longrightarrow> \<not> IsAmbiguousTimeout e"
  using mapAPIError_definite by (auto simp: wrapHTTPStatus_def split: if_splits option.splits)

lemma wrapHTTPStatus_ok: "wrapHTTPStatus st b = None \<longleftrightarrow> ok_status st"
  by (auto simp: wrapHTTPStatus_def ok_status_def)

lemma with_dec_definite: "with_dec what r f = Inl e \<Longrightarrow> (\<And>x e'. f x = Inl e' \<Longrightarrow> e' \<noteq> ErrOrderNotFound) \<Longrightarrow> e \<noteq> ErrOrderNotFound"
  by (auto simp: with_dec_def split: sum.splits)

lemma parseOpenOrder_error: "parseOpenOrder D x = Inl e \<Longrightarrow> e \<noteq> ErrOrderNotFound"
  by (auto simp: parseOpenOrder_def with_dec_def split: sum.splits)

lemma answer_parts: "\<exists>status body err w'. x = ((status, body, err), w' :: 'w)"
  by (cases x rule: prod.exhaust) (metis prod_cases3)

text \<open>The four ends of a decoded answer.\<close>

lemma bn_decoded_cases:
  assumes "bn_decoded t (status, body, err) = r"
  obtains (lost) e where "err = Some e" "r = Inl (wrapNetErr e)"
  | (refused) e where "err = None" "wrapHTTPStatus status (body_text body) = Some e" "\<not> ok_status status" "r = Inl e"
  | (unread) "err = None" "ok_status status" "Unmarshal t (body_text body) = None" "r = Inl (ErrExchOther ''parse'')"
  | (read) j where "err = None" "ok_status status" "Unmarshal t (body_text body) = Some j" "r = Inr j"
proof (cases err)
  case None
  show thesis
  proof (cases "wrapHTTPStatus status (body_text body)")
    case (Some e)
    moreover from this have "\<not> ok_status status" using wrapHTTPStatus_ok [of status "body_text body"] by simp
    ultimately show thesis using refused assms None by (simp add: bn_decoded_def bn_body_def)
  next
    case none: None
    then have "ok_status status" by (simp add: wrapHTTPStatus_ok)
    then show thesis
      using unread read assms None none by (cases "Unmarshal t (body_text body)") (simp_all add: bn_decoded_def bn_body_def)
  qed
qed (use lost assms in \<open>simp add: bn_decoded_def bn_body_def\<close>)

context binance_api
begin

definition book where "book = book_of a orders"

lemma book_same: "orders w' = orders w \<Longrightarrow> book w' = book w"
  by (simp add: book_def book_of_def fun_eq_iff)

lemma post_order:
  assumes "doSignedPOST a ''/fapi/v1/order'' (order_params (bn_dec a) req) w = ((status, body, err), w')"
  shows "(case err of
       Some e \<Rightarrow> orders w' = orders w \<or> (\<exists>x. readable a x \<and> orders w' = (orders w)(req_ClientOrderID req \<mapsto> x))
     | None \<Rightarrow> if ok_status status
         then (\<exists>x. readable a x \<and> orders w' = (orders w)(req_ClientOrderID req \<mapsto> x))
              \<and> Unmarshal placeOrderResponse (body_text body) \<noteq> None
         else orders w' = orders w
            \<or> outcome_unknown (status, body, err) \<and> (\<exists>x. readable a x \<and> orders w' = (orders w)(req_ClientOrderID req \<mapsto> x)))"
proof -
  obtain now w1 where c: "bn_clock a w = (now, w1)" by (metis surj_pair)
  define r where "r = \<lparr>hr_Method = ''POST'', hr_Path = ''/fapi/v1/order'',
      hr_Query = SignQuery (bn_secret a) (buildQuery (order_params (bn_dec a) req)) (time_UnixMilli now) (bn_recvWindow a),
      hr_Body = None, hr_Headers = apiKeyHeaders a, hr_Safe = False\<rparr>"
  have h: "bn_http a r w1 = ((status, body, err), w')" using assms c by (simp add: doSignedPOST_def do_signed_def r_def)
  have "order_request ''POST'' r" by (simp add: order_request_def r_def)
  moreover have "query_param r ''newClientOrderId'' = Some (req_ClientOrderID req)"
    using signed_param [OF order_params_keys(1), of "''newClientOrderId''" r] order_params_keys(2) by (simp add: own_params_def r_def)
  ultimately show ?thesis
    using h clock_pure [OF c] order_lost [of r _ w1 status body _ w'] order_accepted [of r _ w1 status body w']
      order_rejected [of r w1 status body w'] order_unknown [of r _ w1 status body w']
    by (cases err) auto
qed

lemma get_order:
  assumes "doSignedGET a ''/fapi/v1/order'' (buildQuery (order_key sm i [])) w = ((status, body, err), w')"
  shows "orders w' = orders w
     \<and> (err = None \<longrightarrow> ok_status status \<longrightarrow> (\<forall>x. Unmarshal openOrderEntry (body_text body) = Some x \<longrightarrow> orders w i = Some x))
     \<and> (err = None \<longrightarrow> wrapHTTPStatus status (body_text body) = Some ErrOrderNotFound \<longrightarrow> orders w i = None)"
proof -
  obtain now w1 where c: "bn_clock a w = (now, w1)" by (metis surj_pair)
  define r where "r = \<lparr>hr_Method = ''GET'', hr_Path = ''/fapi/v1/order'',
      hr_Query = SignQuery (bn_secret a) (buildQuery (order_key sm i [])) (time_UnixMilli now) (bn_recvWindow a),
      hr_Body = None, hr_Headers = apiKeyHeaders a, hr_Safe = True\<rparr>"
  have h: "bn_http a r w1 = ((status, body, err), w')" using assms c by (simp add: doSignedGET_def do_signed_def r_def)
  have k: "query_param r ''origClientOrderId'' = (if i \<noteq> [] then Some i else None)" "query_param r ''orderId'' = None"
    using signed_param [OF order_key_keys(1), of _ r] order_key_keys by (simp_all add: own_params_def r_def)
  have o: "order_request ''GET'' r" "hr_Method r = ''GET''" by (simp_all add: order_request_def r_def)
  have "orders w' = orders w" using get_pure [OF o(2) h] clock_pure [OF c] by simp
  then show ?thesis
    using h k clock_pure [OF c] order_shown [OF o(1)] order_missing [OF o(1)] order_unnamed [OF o(1)]
    by (cases "i = []") fastforce+
qed

end

context binance_api
begin

lemma candid_binance_venue: "venue (candid_adapter a) book"
proof
  have get: "ad_GetOrder (candid_adapter a) q = BN_GetOrder a (q\<lparr>qry_ExchangeOrderID := []\<rparr>)" for q
    by (simp add: candid_adapter_def by_client_id_def binance_adapter_def)
  have P: "(case r of
       Inr ack \<Rightarrow> \<exists>x. readable a x \<and> orders w' = (orders w)(req_ClientOrderID req \<mapsto> x)
     | Inl e \<Rightarrow> if IsAmbiguousTimeout e
         then orders w' = orders w \<or> (\<exists>x. readable a x \<and> orders w' = (orders w)(req_ClientOrderID req \<mapsto> x))
         else orders w' = orders w)"
    if placed: "ad_PlaceOrder (candid_adapter a) req w = (r, w')" for req w r w'
  proof -
    obtain status body err w1 where d: "doSignedPOST a ''/fapi/v1/order'' (order_params (bn_dec a) req) w = ((status, body, err), w1)"
      by (metis answer_parts)
    obtain now w2 where c: "bn_clock a w1 = (now, w2)" by (metis surj_pair)
    note z = post_order [OF d]
    show ?thesis
    proof (cases "outcome_unknown (status, body, err)")
      case True
      then have "r = Inl ErrTimeout" "w' = w1" "err = None" "\<not> ok_status status"
        using placed by (simp_all add: candid_adapter_def order_answer_def d outcome_unknown_def)
      then show ?thesis using z by auto
    next
    case known: False
    then have that: "BN_PlaceOrder a req w = (r, w')"
      using placed by (simp add: candid_adapter_def order_answer_def d)
    note run = that [unfolded BN_PlaceOrder_def d prod.case c]
    obtain y where y: "bn_decoded placeOrderResponse (status, body, err) = y" by simp
    from y show ?thesis
    proof (cases rule: bn_decoded_cases)
      case (lost e)
      then have "r = Inl (wrapNetErr e)" "w' = w1" using run y by auto
      then show ?thesis using z lost by (auto simp: wrapNetErr_def)
    next
      case (refused e)
      then have "r = Inl e" "w' = w1" using run y by auto
      then show ?thesis using z refused wrapHTTPStatus_definite [OF refused(2)] known by auto
    next
      case unread
      then show ?thesis using z by auto
    next
      case (read j)
      then have "\<exists>ack. r = Inr ack" "w' = w2" using run y by auto
      then show ?thesis using z read clock_pure [OF c] by auto
    qed
    qed
  qed
  have G: "orders w' = orders w
     \<and> (\<forall>ord. r = Inr ord \<longrightarrow> (\<exists>x. orders w (qry_ClientOrderID q) = Some x \<and> parseOpenOrder (bn_dec a) x = Inr ord))
     \<and> (r = Inl ErrOrderNotFound \<longrightarrow> orders w (qry_ClientOrderID q) = None)"
    if "BN_GetOrder a (q\<lparr>qry_ExchangeOrderID := []\<rparr>) w = (r, w')" for q w r w'
  proof -
    let ?ps = "order_key (qry_Symbol q) (qry_ClientOrderID q) []"
    obtain status body err w1 where d: "doSignedGET a ''/fapi/v1/order'' (buildQuery ?ps) w = ((status, body, err), w1)"
      by (metis answer_parts)
    obtain y where y: "bn_decoded openOrderEntry (status, body, err) = y" by simp
    have run: "(case y of Inl e \<Rightarrow> (Inl e, w1) | Inr e \<Rightarrow> (parseOpenOrder (bn_dec a) e, w1)) = (r, w')"
      using that by (simp add: BN_GetOrder_def d y)
    note z = get_order [OF d]
    from y show ?thesis
    proof (cases rule: bn_decoded_cases)
      case (lost e)
      then show ?thesis using run z by (auto simp: wrapNetErr_def split: if_splits)
    next
      case (read j)
      then show ?thesis using run z parseOpenOrder_error by auto
    qed (use run z in auto)
  qed
  fix req w ack w' e q r o'
  show "ad_PlaceOrder (candid_adapter a) req w = (Inr ack, w') \<Longrightarrow> \<exists>ord. book w' = (book w)(req_ClientOrderID req \<mapsto> ord)"
    using P [of req w "Inr ack" w'] book_of_upd [of orders w' w "req_ClientOrderID req"] unfolding book_def by auto
  show "ad_PlaceOrder (candid_adapter a) req w = (Inl e, w') \<Longrightarrow> IsAmbiguousTimeout e \<Longrightarrow>
      book w' = book w \<or> (\<exists>ord. book w' = (book w)(req_ClientOrderID req \<mapsto> ord))"
    using P [of req w "Inl e" w'] book_of_upd [of orders w' w "req_ClientOrderID req"] book_same [of w' w]
    unfolding book_def by auto
  show "ad_PlaceOrder (candid_adapter a) req w = (Inl e, w') \<Longrightarrow> \<not> IsAmbiguousTimeout e \<Longrightarrow> book w' = book w"
    using P [of req w "Inl e" w'] book_same [of w' w] by simp
  show "ad_GetOrder (candid_adapter a) q w = (r, w') \<Longrightarrow> book w' = book w"
    using G [of q w r w'] book_same [of w' w] unfolding get by blast
  show "ad_GetOrder (candid_adapter a) q w = (Inr o', w') \<Longrightarrow> book w' (qry_ClientOrderID q) = Some o'"
    using G [of q w "Inr o'" w'] unfolding get book_def by (auto simp: book_of_def)
  show "ad_GetOrder (candid_adapter a) q w = (Inl ErrOrderNotFound, w') \<Longrightarrow> book w' (qry_ClientOrderID q) = None"
    using G [of q w "Inl ErrOrderNotFound" w'] unfolding get book_def by (auto simp: book_of_def)
qed

text \<open>What the program's own adapter makes of an unknown outcome.\<close>

lemma unknown_placed:
  assumes "outcome_unknown (order_answer a req w)"
  shows "\<exists>e w'. ad_PlaceOrder (binance_adapter a) req w = (Inl e, w') \<and> \<not> IsAmbiguousTimeout e
     \<and> (book w' = book w \<or> (\<exists>ord. book w' = (book w)(req_ClientOrderID req \<mapsto> ord)))"
proof -
  obtain status body err w1 where d: "doSignedPOST a ''/fapi/v1/order'' (order_params (bn_dec a) req) w = ((status, body, err), w1)"
    by (metis answer_parts)
  have u: "outcome_unknown (status, body, err)" using assms by (simp add: order_answer_def d)
  then have n: "err = None" "\<not> ok_status status" by (simp_all add: outcome_unknown_def)
  then obtain e where e: "wrapHTTPStatus status (body_text body) = Some e"
    using wrapHTTPStatus_ok [of status "body_text body"] by auto
  have "BN_PlaceOrder a req w = (Inl e, w1)"
    using n e by (simp add: BN_PlaceOrder_def d bn_decoded_def bn_body_def)
  moreover have "book w1 = book w \<or> (\<exists>ord. book w1 = (book w)(req_ClientOrderID req \<mapsto> ord))"
    using post_order [OF d] n book_same [of w1 w] book_of_upd [of orders w1 w "req_ClientOrderID req" _ a]
    unfolding book_def by auto
  ultimately show ?thesis using wrapHTTPStatus_definite [OF e] by (simp add: binance_adapter_def)
qed

end

section \<open>An exchange in memory\<close>

text \<open>
  The orders it has, as the text it shows of them; the text of the next order it accepts; and what happens to the next
  requests: an answer, an answer that is lost, a request that does not arrive, an answer that the outcome is unknown.
\<close>

datatype bx_fault = BxAnswer | BxLost | BxUnsent | BxUnknown

record bx =
  bx_orders :: "(ClientOrderID \<times> string) list"
  bx_next :: string
  bx_faults :: "bx_fault list"
  bx_time :: time

definition entry_ok :: "string \<Rightarrow> bool" where
  "entry_ok b = (case Unmarshal openOrderEntry b of None \<Rightarrow> False
     | Some x \<Rightarrow> (case parseOpenOrder sp_ref x of Inl e \<Rightarrow> False | Inr ord \<Rightarrow> True))"

definition placed_body :: string where
  "placed_body = quoted ''{^orderId^:7,^status^:^NEW^}''"

definition missing_body :: string where
  "missing_body = quoted ''{^code^:-2013,^msg^:^Order does not exist.^}''"

definition unnamed_body :: string where
  "unnamed_body = quoted ''{^code^:-1102,^msg^:^Param origClientOrderId or orderId must be sent.^}''"

definition unknown_body :: string where
  "unknown_body = quoted ''{^code^:-1007,^msg^:^Timeout waiting for response from backend server.^}''"

definition bx_post :: "ClientOrderID \<Rightarrow> bx \<Rightarrow> http_answer \<times> bx" where
  "bx_post i w =
     (let w1 = w\<lparr>bx_faults := tl (bx_faults w)\<rparr>; w2 = w1\<lparr>bx_orders := (i, bx_next w) # bx_orders w\<rparr> in
      if \<not> entry_ok (bx_next w) then ((400, Some unnamed_body, None), w1)
      else (case bx_faults w of
              BxLost # fs \<Rightarrow> ((0, None, Some NetDeadline), w2)
            | BxUnsent # fs \<Rightarrow> ((0, None, Some (NetFailed ''connection refused'')), w1)
            | BxUnknown # fs \<Rightarrow> ((408, Some unknown_body, None), w2)
            | _ \<Rightarrow> ((200, Some placed_body, None), w2)))"

definition bx_get :: "ClientOrderID option \<Rightarrow> bx \<Rightarrow> http_answer" where
  "bx_get i w = (case bx_faults w of
     BxLost # fs \<Rightarrow> (0, None, Some NetDeadline)
   | BxUnsent # fs \<Rightarrow> (0, None, Some (NetFailed ''connection refused''))
   | _ \<Rightarrow> (case i of
       None \<Rightarrow> (400, Some unnamed_body, None)
     | Some i \<Rightarrow> (case map_of (bx_orders w) i of None \<Rightarrow> (400, Some missing_body, None) | Some b \<Rightarrow> (200, Some b, None))))"

definition bx_http :: "HttpRequest \<Rightarrow> bx \<Rightarrow> http_answer \<times> bx" where
  "bx_http r w =
     (if order_request ''POST'' r then
        (case query_param r ''newClientOrderId'' of Some i \<Rightarrow> bx_post i w | None \<Rightarrow> ((400, Some unnamed_body, None), w))
      else if order_request ''GET'' r then
        (bx_get (query_param r ''origClientOrderId'') w, w\<lparr>bx_faults := tl (bx_faults w)\<rparr>)
      else ((404, Some [], None), w))"

definition bx_adapter :: "bx BnAdapter" where
  "bx_adapter = \<lparr>bn_dec = sp_ref, bn_apiKey = ''key'', bn_secret = ''secret'', bn_recvWindow = 5000, bn_http = bx_http,
     bn_clock = (\<lambda>w. (bx_time w, w)), bn_wall = (\<lambda>w. (bx_time w, w))\<rparr>"

definition bx_book :: "bx \<Rightarrow> ClientOrderID \<Rightarrow> json option" where
  "bx_book w i = (case map_of (bx_orders w) i of None \<Rightarrow> None | Some b \<Rightarrow> Unmarshal openOrderEntry b)"

lemma bodies:
  "wrapHTTPStatus 400 unnamed_body \<noteq> Some ErrOrderNotFound" "wrapHTTPStatus 404 [] \<noteq> Some ErrOrderNotFound"
  "Unmarshal placeOrderResponse placed_body \<noteq> None"
  by code_simp+

lemma bx_post_book:
  "bx_post i w = (ans, w') \<Longrightarrow> bx_book w' = bx_book w
     \<or> entry_ok (bx_next w) \<and> (\<exists>x. readable bx_adapter x \<and> bx_book w' = (bx_book w)(i \<mapsto> x))"
  by (auto simp: bx_post_def entry_ok_def bx_book_def fun_eq_iff readable_def bx_adapter_def Let_def
      split: if_splits option.splits sum.splits list.splits bx_fault.splits)

interpretation bx: binance_api bx_adapter bx_book
proof unfold_locales
  fix r i w status body e w' ans x
  have a: "bn_http bx_adapter = bx_http" by (simp add: bx_adapter_def)
  show "bn_clock bx_adapter w = (t, w') \<Longrightarrow> bx_book w' = bx_book w" for t by (simp add: bx_adapter_def)
  show "hr_Method r = ''GET'' \<Longrightarrow> bn_http bx_adapter r w = (ans, w') \<Longrightarrow> bx_book w' = bx_book w"
    unfolding a by (auto simp: bx_http_def order_request_def bx_book_def split: if_splits)
  assume post: "order_request ''POST'' r" and id: "query_param r ''newClientOrderId'' = Some i"
  have p: "bn_http bx_adapter r w = bx_post i w" unfolding a using post id by (simp add: bx_http_def)
  show "bn_http bx_adapter r w = ((status, body, None), w') \<Longrightarrow> outcome_unknown (status, body, None) \<Longrightarrow>
      bx_book w' = bx_book w \<or> (\<exists>x. readable bx_adapter x \<and> bx_book w' = (bx_book w)(i \<mapsto> x))"
    unfolding p using bx_post_book by blast
  show "bn_http bx_adapter r w = ((status, body, Some e), w') \<Longrightarrow>
      bx_book w' = bx_book w \<or> (\<exists>x. readable bx_adapter x \<and> bx_book w' = (bx_book w)(i \<mapsto> x))"
    unfolding p using bx_post_book by blast
  show "bn_http bx_adapter r w = ((status, body, None), w') \<Longrightarrow> ok_status status \<Longrightarrow>
      (\<exists>x. readable bx_adapter x \<and> bx_book w' = (bx_book w)(i \<mapsto> x)) \<and> Unmarshal placeOrderResponse (body_text body) \<noteq> None"
    unfolding p using bodies(3)
    by (auto simp: bx_post_def ok_status_def entry_ok_def bx_book_def fun_eq_iff readable_def bx_adapter_def Let_def body_text_def
        split: if_splits option.splits sum.splits list.splits bx_fault.splits)
next
  fix r w status body w'
  assume post: "order_request ''POST'' r" "bn_http bx_adapter r w = ((status, body, None), w')" "\<not> ok_status status"
    and "\<not> outcome_unknown (status, body, None)"
  then show "bx_book w' = bx_book w"
    by (auto simp: outcome_unknown_def bx_adapter_def bx_http_def bx_post_def bx_book_def ok_status_def fun_eq_iff Let_def
        split: if_splits option.splits list.splits bx_fault.splits)
next
  fix r i w status body w' x
  assume get: "order_request ''GET'' r"
  then have g: "bn_http bx_adapter r w = (bx_get (query_param r ''origClientOrderId'') w, w\<lparr>bx_faults := tl (bx_faults w)\<rparr>)"
    by (auto simp: bx_adapter_def bx_http_def order_request_def)
  show "query_param r ''origClientOrderId'' = Some i \<Longrightarrow> bn_http bx_adapter r w = ((status, body, None), w') \<Longrightarrow>
      ok_status status \<Longrightarrow> Unmarshal openOrderEntry (body_text body) = Some x \<Longrightarrow> bx_book w i = Some x"
    unfolding g by (auto simp: bx_get_def ok_status_def bx_book_def body_text_def split: list.splits bx_fault.splits option.splits)
  show "query_param r ''origClientOrderId'' = Some i \<Longrightarrow> bn_http bx_adapter r w = ((status, body, None), w') \<Longrightarrow>
      wrapHTTPStatus status (body_text body) = Some ErrOrderNotFound \<Longrightarrow> bx_book w i = None"
    unfolding g
    by (auto simp: wrapHTTPStatus_def [of 200] bx_get_def ok_status_def bx_book_def body_text_def split: list.splits bx_fault.splits option.splits)
  show "query_param r ''origClientOrderId'' = None \<Longrightarrow> query_param r ''orderId'' = None \<Longrightarrow>
      bn_http bx_adapter r w = ((status, body, None), w') \<Longrightarrow>
      \<not> ok_status status \<and> wrapHTTPStatus status (body_text body) \<noteq> Some ErrOrderNotFound"
    unfolding g using bodies(1)
    by (auto simp: bx_get_def ok_status_def body_text_def split: list.splits bx_fault.splits)
qed

section \<open>The order path on Binance\<close>



text \<open>An order whose answer is lost, found by the query.\<close>

definition filled_entry :: string where
  "filled_entry = quoted ''{^orderId^:7,^clientOrderId^:^c1^,^symbol^:^BTCUSDT^,^side^:^BUY^,^type^:^LIMIT^,^origQty^:^2^,^executedQty^:^2^,^avgPrice^:^100^,^status^:^FILLED^,^reduceOnly^:false,^time^:5}''"

definition filled_order :: Order where
  "filled_order = \<lparr>ord_ExchangeOrderID = ''7'', ord_ClientOrderID = ''c1'', ord_Symbol = ''BTCUSDT'', ord_Side = SideLong,
     ord_Mode = OrderMarketableLimitIOC, ord_ReduceOnly = False, ord_RequestedQty = 2, ord_FilledQty = 2,
     ord_AvgFillPrice = 100, ord_Fees = 0, ord_Status = OrdFilled, ord_ExchangeTimestamp = 5000000, ord_AckState = AckQueried\<rparr>"

lemma filled_entry_reads:
  "\<exists>x. Unmarshal openOrderEntry filled_entry = Some x \<and> parseOpenOrder sp_ref x = Inr filled_order"
proof -
  have "(case Unmarshal openOrderEntry filled_entry of None \<Rightarrow> False | Some x \<Rightarrow> parseOpenOrder sp_ref x = Inr filled_order)"
    by code_simp
  then show ?thesis by (auto split: option.splits)
qed

definition lost_world :: bx where
  "lost_world = \<lparr>bx_orders = [], bx_next = filled_entry, bx_faults = [BxLost], bx_time = 0\<rparr>"

definition c1_req :: PlaceOrderRequest where
  "c1_req = example_req\<lparr>req_ClientOrderID := ''c1''\<rparr>"


lemma bx_do_post:
  "doSignedPOST bx_adapter ''/fapi/v1/order'' (order_params (bn_dec bx_adapter) req) w = bx_post (req_ClientOrderID req) w"
proof -
  define q where "q = SignQuery (bn_secret bx_adapter) (buildQuery (order_params (bn_dec bx_adapter) req))
      (time_UnixMilli (bx_time w)) (bn_recvWindow bx_adapter)"
  define r where "r = \<lparr>hr_Method = ''POST'', hr_Path = ''/fapi/v1/order'', hr_Query = q,
      hr_Body = None, hr_Headers = apiKeyHeaders bx_adapter, hr_Safe = False\<rparr>"
  have "query_param r ''newClientOrderId'' = Some (req_ClientOrderID req)"
    using signed_param [OF order_params_keys(1), of "''newClientOrderId''" r] order_params_keys(2)
    by (simp add: own_params_def r_def q_def)
  moreover have "order_request ''POST'' r" by (simp add: order_request_def r_def)
  ultimately have "bx_http r w = bx_post (req_ClientOrderID req) w" by (simp add: bx_http_def)
  then show ?thesis
    by (simp add: doSignedPOST_def do_signed_def r_def q_def bx_adapter_def)
qed




section \<open>An answer that does not say what happened\<close>

text \<open>
  Binance answers status 408 with code -1007 or -1006 when the outcome of a request is unknown.
  The adapter takes it for a definite refusal: the executor returns an error that is not ambiguous, without a query,
  although the order may be on the exchange and filled.
\<close>

theorem binance_unknown_status:
  assumes "doSignedPOST a ''/fapi/v1/order'' (order_params (bn_dec a) req) w = ((408, Some body, None), w')"
    and "Unmarshal apiErr_shape body = Some j" and "js_int j ''code'' \<in> {-1006, -1007}"
  shows "\<exists>e. Place (binance_adapter a) req w = (Inl e, w') \<and> \<not> IsAmbiguousTimeout e \<and> \<not> IsSafeRetry e"
proof -
  let ?e = "ErrExchOther (''binance: API error code='' @ format_int (js_int j ''code'') @ '': '' @ js_str j ''msg'')"
  have "mapAPIError (js_int j ''code'') (js_str j ''msg'') = ?e" "js_int j ''code'' \<noteq> 0"
    using assms(3) by (auto simp: mapAPIError_def)
  then have "wrapHTTPStatus 408 body = Some ?e" using assms(2) by (simp add: wrapHTTPStatus_def)
  then have "BN_PlaceOrder a req w = (Inl ?e, w')"
    using assms(1) by (simp add: BN_PlaceOrder_def bn_decoded_def bn_body_def body_text_def)
  then have "Place (binance_adapter a) req w = (Inl ?e, w')" by (simp add: Place_def binance_adapter_def)
  then show ?thesis by (auto simp: IsSafeRetry_def)
qed

theorem binance_unknown_status_witness:
  "\<exists>e w. Place (binance_adapter bx_adapter) c1_req (lost_world\<lparr>bx_faults := [BxUnknown]\<rparr>) = (Inl e, w)
     \<and> \<not> IsAmbiguousTimeout e \<and> \<not> IsSafeRetry e \<and> map_of (bx_orders w) ''c1'' = Some filled_entry"
proof -
  obtain x where x: "Unmarshal openOrderEntry filled_entry = Some x" "parseOpenOrder sp_ref x = Inr filled_order"
    using filled_entry_reads by blast
  let ?w = "lost_world\<lparr>bx_orders := [(''c1'', filled_entry)], bx_faults := []\<rparr>"
  have "bx_post (req_ClientOrderID c1_req) (lost_world\<lparr>bx_faults := [BxUnknown]\<rparr>) = ((408, Some unknown_body, None), ?w)"
    using x by (simp add: bx_post_def lost_world_def entry_ok_def c1_req_def Let_def)
  then have p: "doSignedPOST bx_adapter ''/fapi/v1/order'' (order_params (bn_dec bx_adapter) c1_req)
      (lost_world\<lparr>bx_faults := [BxUnknown]\<rparr>) = ((408, Some unknown_body, None), ?w)"
    by (simp only: bx_do_post)
  have "(case Unmarshal apiErr_shape unknown_body of None \<Rightarrow> False | Some j \<Rightarrow> js_int j ''code'' = -1007)" by code_simp
  then obtain j where j: "Unmarshal apiErr_shape unknown_body = Some j" "js_int j ''code'' = -1007"
    by (auto split: option.splits)
  have "js_int j ''code'' \<in> {-1006, -1007}" using j by simp
  note e = binance_unknown_status [OF p j(1) this]
  have "map_of (bx_orders ?w) ''c1'' = Some filled_entry" by simp
  then show ?thesis using e by blast
qed

end
