(* ===== verification/LiveWiring.thy ===== *)
theory LiveWiring
  imports BinanceVenue "HOL-Library.AList"
begin

text \<open>
  \<open>internal/app/livewiring.go\<close>: the HTTP clients and bridges of the live adapters, and which adapters are built.

  A bridge is a function into \<open>option\<close>, as \<open>Http_Do\<close> is; its state is the buckets of its two clients and the network.
\<close>

section \<open>The clients\<close>

text \<open>\<open>newHTTP\<close>: the limits of every live client are \<open>liveRateLimit\<close>.\<close>

definition newHTTP :: "string \<Rightarrow> time \<Rightarrow> (HttpConfig \<times> Bucket) option" where
  "newHTTP baseURL now = (case Http_New (liveRateLimit baseURL) now of
     None \<Rightarrow> None | Some b \<Rightarrow> Some (liveRateLimit baseURL, b))"

text \<open>A bridge over two hosts: the main one and the one for marked paths.\<close>

record 'w hosts =
  ho_main :: HttpConfig
  ho_second :: HttpConfig
  ho_mainBucket :: Bucket
  ho_secondBucket :: Bucket
  ho_net :: 'w

definition sapiMarker :: string where
  "sapiMarker = ''|SAPI|''"

definition use_main :: "'w net \<Rightarrow> HttpRequest \<Rightarrow> 'w hosts \<Rightarrow> (http_answer \<times> 'w hosts) option" where
  "use_main nt r h = (case Http_Do (ho_main h) nt r (ho_mainBucket h) (ho_net h) of
     None \<Rightarrow> None | Some (ans, b, w) \<Rightarrow> Some (ans, h\<lparr>ho_mainBucket := b, ho_net := w\<rparr>))"

definition use_second :: "'w net \<Rightarrow> HttpRequest \<Rightarrow> 'w hosts \<Rightarrow> (http_answer \<times> 'w hosts) option" where
  "use_second nt r h = (case Http_Do (ho_second h) nt r (ho_secondBucket h) (ho_net h) of
     None \<Rightarrow> None | Some (ans, b, w) \<Rightarrow> Some (ans, h\<lparr>ho_secondBucket := b, ho_net := w\<rparr>))"

definition binanceBridge :: "'w net \<Rightarrow> HttpRequest \<Rightarrow> 'w hosts \<Rightarrow> (http_answer \<times> 'w hosts) option" where
  "binanceBridge nt r h =
     (if length sapiMarker \<le> length (hr_Path r) \<and> take (length sapiMarker) (hr_Path r) = sapiMarker
      then use_second nt (r\<lparr>hr_Path := drop (length sapiMarker) (hr_Path r)\<rparr>) h
      else use_main nt r h)"

definition kucoinBridge :: "'w net \<Rightarrow> HttpRequest \<Rightarrow> 'w hosts \<Rightarrow> (http_answer \<times> 'w hosts) option" where
  "kucoinBridge nt r h =
     (if length sapiMarker \<le> length (hr_Path r) \<and> take (length sapiMarker) (hr_Path r) = sapiMarker
      then use_second nt (r\<lparr>hr_Path := drop (length sapiMarker) (hr_Path r)\<rparr>) h
      else use_main nt r h)"

definition mexcBridge :: "'w net \<Rightarrow> HttpRequest \<Rightarrow> 'w hosts \<Rightarrow> (http_answer \<times> 'w hosts) option" where
  "mexcBridge nt r h =
     (if length sapiMarker \<le> length (hr_Path r) \<and> take (length sapiMarker) (hr_Path r) = sapiMarker
      then use_second nt (r\<lparr>hr_Path := drop (length sapiMarker) (hr_Path r)\<rparr>) h
      else use_main nt r h)"

text \<open>The bridges of the exchanges with one host: Bybit, OKX, Bitget and Gate.\<close>

definition plainBridge :: "'w net \<Rightarrow> HttpRequest \<Rightarrow> 'w hosts \<Rightarrow> (http_answer \<times> 'w hosts) option" where
  "plainBridge nt r h = use_main nt r h"

section \<open>Which adapters are built\<close>

datatype wiring_error = ErrTooFewAdapters int

text \<open>
  \<open>load\<close> reads and decrypts the trade key of an exchange, \<open>build\<close> constructs its adapter; an exchange for which one of
  them fails is skipped.
\<close>

fun build_live ::
  "(ExchangeID \<Rightarrow> 'w \<Rightarrow> 'c option \<times> 'w) \<Rightarrow> (ExchangeID \<Rightarrow> 'c \<Rightarrow> 'a option) \<Rightarrow> ExchangeID list \<Rightarrow> (ExchangeID \<times> 'a) list \<Rightarrow> 'w
   \<Rightarrow> (ExchangeID \<times> 'a) list \<times> 'w" where
  "build_live load build [] out w = (out, w)"
| "build_live load build (ex # exs) out w =
     (case load ex w of
        (None, w') \<Rightarrow> build_live load build exs out w'
      | (Some creds, w') \<Rightarrow>
          (case build ex creds of
             None \<Rightarrow> build_live load build exs out w'
           | Some adapter \<Rightarrow> build_live load build exs (AList.update ex adapter out) w'))"

definition BuildLiveAdapters ::
  "(ExchangeID \<Rightarrow> 'w \<Rightarrow> 'c option \<times> 'w) \<Rightarrow> (ExchangeID \<Rightarrow> 'c \<Rightarrow> 'a option) \<Rightarrow> 'w
   \<Rightarrow> (wiring_error + (ExchangeID \<times> 'a) list) \<times> 'w" where
  "BuildLiveAdapters load build w =
     (case build_live load build SupportedExchanges [] w of (out, w') \<Rightarrow>
        if length out < 2 then (Inl (ErrTooFewAdapters (int (length out))), w') else (Inr out, w'))"

section \<open>Routing\<close>

text \<open>Every URL the log gains by a request starts with the base URL of the client that sent it.\<close>

lemma use_main_urls:
  assumes "use_main (counted nt) r h = Some (ans, h')"
  shows "\<exists>m. snd (ho_net h') = snd (ho_net h) @ replicate m (request_url (ho_main h) r)"
proof -
  obtain b w where "Http_Do (ho_main h) (counted nt) r (ho_mainBucket h) (ho_net h) = Some (ans, b, w)" "ho_net h' = w"
    using assms by (auto simp: use_main_def split: option.splits)
  then show ?thesis using do_loop_sends unfolding Http_Do_def by blast
qed

text \<open>The paths of KuCoin's spot requests, as \<open>doSignedSpotGET\<close> and \<open>doSignedSpotPOST\<close> of its adapter mark them.\<close>

definition kucoin_spot_path :: "string \<Rightarrow> string" where
  "kucoin_spot_path path = ''[SPOT]'' @ path"

text \<open>
  the bridge of KuCoin looks for the marker of Binance, but the adapter marks its spot requests
  differently: a withdrawal, and every other spot request, goes to the host of the futures, with the marker left in the
  URL, and never to the spot host.
\<close>

theorem kucoin_spot_unroutable:
  assumes "hr_Path r = kucoin_spot_path path" and "kucoinBridge (counted nt) r h = Some (ans, h')"
  shows "set (snd (ho_net h')) \<subseteq> set (snd (ho_net h)) \<union> {hc_BaseURL (ho_main h) @ ''[SPOT]'' @ path
       @ (if hr_Query r \<noteq> [] then ''?'' @ hr_Query r else [])}
     \<and> ho_secondBucket h' = ho_secondBucket h"
proof -
  have m: "use_main (counted nt) r h = Some (ans, h')"
    using assms by (simp add: kucoinBridge_def kucoin_spot_path_def sapiMarker_def)
  have "request_url (ho_main h) r = hc_BaseURL (ho_main h) @ ''[SPOT]'' @ path @ (if hr_Query r \<noteq> [] then ''?'' @ hr_Query r else [])"
    using assms(1) by (simp add: request_url_def kucoin_spot_path_def)
  then show ?thesis
    using use_main_urls [OF m] m by (auto simp: use_main_def split: option.splits)
qed

text \<open>A spot withdrawal on the live wiring.\<close>

definition kucoin_hosts :: "(sim \<times> string list) hosts" where
  "kucoin_hosts = \<lparr>ho_main = liveRateLimit ''https://api-futures.kucoin.com'', ho_second = liveRateLimit ''https://api.kucoin.com'',
     ho_mainBucket = full_bucket, ho_secondBucket = full_bucket, ho_net = (busy, [])\<rparr>"

definition kucoin_withdrawal :: HttpRequest where
  "kucoin_withdrawal = \<lparr>hr_Method = ''POST'', hr_Path = kucoin_spot_path ''/api/v1/withdrawals'', hr_Query = [],
     hr_Body = Some ''{}'', hr_Headers = [], hr_Safe = False\<rparr>"

lemma counted_sim: "ticking (counted sim_net) (\<lambda>w. sm_time (fst w)) Second"
  by unfold_locales (auto simp: counted_def sim_net_def split: list.splits prod.splits)

theorem kucoin_spot_unroutable_witness:
  "\<exists>ans h'. kucoinBridge (counted sim_net) kucoin_withdrawal kucoin_hosts = Some (ans, h')
     \<and> set (snd (ho_net h')) \<subseteq> {''https://api-futures.kucoin.com[SPOT]/api/v1/withdrawals''}"
proof -
  have "\<exists>x b w. Http_Do (liveRateLimit ''https://api-futures.kucoin.com'') (counted sim_net) kucoin_withdrawal full_bucket (busy, [])
      = Some (x, b, w)"
    by (rule Http_Do_returns [OF counted_sim])
      (simp_all add: liveRateLimit_def full_bucket_def busy_def bucket_ok_def span_ok_def)
  then obtain ans h' where run: "kucoinBridge (counted sim_net) kucoin_withdrawal kucoin_hosts = Some (ans, h')"
    by (auto simp: kucoinBridge_def kucoin_withdrawal_def kucoin_spot_path_def sapiMarker_def use_main_def kucoin_hosts_def
        split: option.splits)
  have p: "hr_Path kucoin_withdrawal = kucoin_spot_path ''/api/v1/withdrawals''" by (simp add: kucoin_withdrawal_def)
  have "set (snd (ho_net h')) \<subseteq> {''https://api-futures.kucoin.com[SPOT]/api/v1/withdrawals''}"
    using kucoin_spot_unroutable [OF p run] by (simp add: kucoin_hosts_def kucoin_withdrawal_def liveRateLimit_def)
  then show ?thesis using run by blast
qed

end
