(* ===== verification/TelegramAuth.thy ===== *)
theory TelegramAuth
  imports GoUrl GoJson GoCrypto
begin

text \<open>
  Package \<open>internal/auth\<close> (\<open>telegram_initdata.go\<close>) and the session store of \<open>internal/telegram\<close> (\<open>session.go\<close>): the check
  of the signed data a Telegram Mini App hands over, and the sessions that follow it.

  \<open>sort.Slice\<close> is modelled as a stable sort, which it is for up to twelve pairs; the clock is read through the two
  values \<open>now1\<close> and \<open>now2\<close>.
\<close>

section \<open>initData\<close>

record TelegramUser =
  tu_ID :: int
  tu_FirstName :: string
  tu_LastName :: string
  tu_Username :: string
  tu_LanguageCode :: string
  tu_PhotoURL :: string
  tu_IsPremium :: bool
  tu_AddedToAttachmentMenu :: bool
  tu_AllowsWriteToPM :: bool

definition TelegramUser_shape :: shape where
  "TelegramUser_shape = ShStruct
     [(''id'', ShInt), (''first_name'', ShStr), (''last_name'', ShStr), (''username'', ShStr), (''language_code'', ShStr),
      (''photo_url'', ShStr), (''is_premium'', ShBool), (''added_to_attachment_menu'', ShBool), (''allows_write_to_pm'', ShBool)]"

definition user_of :: "json \<Rightarrow> TelegramUser" where
  "user_of j = \<lparr>tu_ID = js_int j ''id'', tu_FirstName = js_str j ''first_name'', tu_LastName = js_str j ''last_name'',
     tu_Username = js_str j ''username'', tu_LanguageCode = js_str j ''language_code'', tu_PhotoURL = js_str j ''photo_url'',
     tu_IsPremium = js_bool j ''is_premium'', tu_AddedToAttachmentMenu = js_bool j ''added_to_attachment_menu'',
     tu_AllowsWriteToPM = js_bool j ''allows_write_to_pm''\<rparr>"

definition zero_user :: TelegramUser where
  "zero_user = user_of (zero_value TelegramUser_shape)"

type_synonym kv = "string \<times> string"

text \<open>The loop over the parts: the pairs in order, and the last hash.\<close>

fun parse_parts :: "string list \<Rightarrow> kv list \<times> string \<Rightarrow> string + kv list \<times> string" where
  "parse_parts [] acc = Inr acc"
| "parse_parts (part # parts) (pairs, h) =
     (if part = [] then parse_parts parts (pairs, h)
      else (case cut_on CHR ''='' part of (rawKey, rawVal, found) \<Rightarrow>
        if \<not> found then parse_parts parts (pairs, h)
        else (case QueryUnescape rawKey of
                None \<Rightarrow> Inl ''malformed key encoding''
              | Some key \<Rightarrow>
             (case QueryUnescape rawVal of
                None \<Rightarrow> Inl ''malformed value encoding''
              | Some val \<Rightarrow> if key = ''hash'' then parse_parts parts (pairs, val)
                            else parse_parts parts (pairs @ [(key, val)], h)))))"

definition auth_date :: "kv list \<Rightarrow> int" where
  "auth_date pairs = (case map_of pairs ''auth_date'' of None \<Rightarrow> 0 | Some v \<Rightarrow> fst (ParseInt v))"

text \<open>\<open>time.Unix(sec, 0)\<close>; the seconds since year one wrap.\<close>

definition time_Unix :: "int \<Rightarrow> time" where
  "time_Unix s = (i64 (s + 62135596800) - 62135596800) * Second"

definition maxFutureSkew :: duration where
  "maxFutureSkew = 5 * Minute"

fun join_lines :: "string list \<Rightarrow> string" where
  "join_lines [] = []"
| "join_lines [x] = x"
| "join_lines (x # xs) = x @ char_of (10 :: nat) # join_lines xs"

definition data_check_string :: "kv list \<Rightarrow> string" where
  "data_check_string pairs = join_lines (map (\<lambda>(k, v). k @ ''='' @ v) (sort_key fst pairs))"

definition hash_expected :: "string \<Rightarrow> kv list \<Rightarrow> string" where
  "hash_expected botToken pairs =
     hex_EncodeToString (hmac_sha256 (hmac_sha256 ''WebAppData'' botToken) (data_check_string pairs))"

text \<open>The first pair named \<open>user\<close>; without one the user is zero.\<close>

definition find_user :: "kv list \<Rightarrow> string + TelegramUser" where
  "find_user pairs = (case map_of pairs ''user'' of
     None \<Rightarrow> Inr zero_user
   | Some v \<Rightarrow> (case Unmarshal TelegramUser_shape v of None \<Rightarrow> Inl ''malformed user JSON'' | Some j \<Rightarrow> Inr (user_of j)))"

record ValidateConfig =
  vc_BotToken :: string
  vc_MaxAge :: duration

definition ValidateInitData ::
  "string \<Rightarrow> ValidateConfig \<Rightarrow> (int \<Rightarrow> bool) option \<Rightarrow> time \<Rightarrow> time \<Rightarrow> string + TelegramUser \<times> time" where
  "ValidateInitData initData cfg allowlist now1 now2 =
     (if initData = [] then Inl ''empty initData''
      else if vc_BotToken cfg = [] then Inl ''empty bot token''
      else (case parse_parts (split_on CHR ''&'' initData) ([], []) of
              Inl e \<Rightarrow> Inl e
            | Inr (pairs, h) \<Rightarrow>
          if h = [] then Inl ''missing hash''
          else if auth_date pairs \<le> 0 then Inl ''missing auth_date''
          else (let authAt = time_Unix (auth_date pairs) in
            if vc_MaxAge cfg > 0 \<and> time_Sub now1 authAt > vc_MaxAge cfg then Inl ''initData expired''
            else if vc_MaxAge cfg > 0 \<and> time_Sub authAt now2 > maxFutureSkew then Inl ''auth_date in the future''
            else if to_lower h \<noteq> hash_expected (vc_BotToken cfg) pairs then Inl ''hash mismatch''
            else (case find_user pairs of
                    Inl e \<Rightarrow> Inl e
                  | Inr user \<Rightarrow>
                      if tu_ID user = 0 then Inl ''missing user''
                      else (case allowlist of
                              Some isAdmin \<Rightarrow> if isAdmin (tu_ID user) then Inr (user, authAt) else Inl ''user not in admin allowlist''
                            | None \<Rightarrow> Inr (user, authAt))))))"

definition IsAdmin :: "(int \<rightharpoonup> bool) \<Rightarrow> int \<Rightarrow> bool" where
  "IsAdmin s i = get_or s i False"

section \<open>What Telegram signs is accepted\<close>

lemma parse_parts_pairs:
  assumes "\<forall>(k, v) \<in> set kvs. k \<noteq> ''hash''"
  shows "parse_parts (map query_pair kvs @ rest) (pairs, h) = parse_parts rest (pairs @ kvs, h)"
  using assms
proof (induction kvs arbitrary: pairs)
  case (Cons kv kvs)
  obtain k v where kv: "kv = (k, v)" by (cases kv)
  have "cut_on CHR ''='' (query_pair kv) = (QueryEscape k, QueryEscape v, True)"
    by (simp add: query_pair_def kv QueryEscape_plain)
  then show ?case using Cons kv query_pair_plain(2) [of kv] by simp
qed simp

lemma parse_parts_hash:
  "parse_parts (query_pair (''hash'', s) # rest) (pairs, h) = parse_parts rest (pairs, s)"
proof -
  have "cut_on CHR ''='' (query_pair (''hash'', s)) = (QueryEscape ''hash'', QueryEscape s, True)"
    by (simp add: query_pair_def QueryEscape_plain)
  then show ?thesis using query_pair_plain(2) [of "(''hash'', s)"] by simp
qed

lemma to_lower_hex [simp]: "to_lower (hex_EncodeToString s) = hex_EncodeToString s"
proof -
  have "list_all (\<lambda>c. to_lower_char c = c) ''0123456789abcdef''" by code_simp
  then have "to_lower_char (lower_hex d) = lower_hex d" if "d < 16" for d
    using lower_hex_char [OF that] by (auto simp: list_all_iff)
  then show ?thesis
    using of_char_bound by (auto simp: to_lower_def hex_EncodeToString_def map_concat comp_def less_mult_imp_div_less)
qed

lemma hash_nonempty: "hash_expected t kvs \<noteq> []"
  by (simp add: hash_expected_def flip: length_greater_0_conv)

text \<open>The data an application receives: its pairs in any order, escaped, with their hash somewhere between them.\<close>

definition signed_init_data :: "string \<Rightarrow> kv list \<Rightarrow> kv list \<Rightarrow> string" where
  "signed_init_data botToken before after =
     join_amp (map query_pair (before @ [(''hash'', hash_expected botToken (before @ after))] @ after))"

lemma parse_signed:
  assumes "\<forall>(k, v) \<in> set (before @ after). k \<noteq> ''hash''"
  shows "parse_parts (split_on CHR ''&'' (join_amp (map query_pair (before @ [(''hash'', h)] @ after)))) ([], [])
     = Inr (before @ after, h)"
proof -
  have "split_on CHR ''&'' (join_amp (map query_pair (before @ [(''hash'', h)] @ after)))
      = map query_pair before @ query_pair (''hash'', h) # map query_pair after @ []"
    by (subst split_join_amp) (auto simp: query_pair_plain)
  moreover have plain: "\<forall>(k, v) \<in> set before. k \<noteq> ''hash''" "\<forall>(k, v) \<in> set after. k \<noteq> ''hash''"
    using assms by auto
  ultimately show ?thesis
    by (simp only: parse_parts_pairs [OF plain(1)] parse_parts_hash parse_parts_pairs [OF plain(2)] append_Nil) simp
qed

text \<open>The order of pairs with different names does not matter to the check.\<close>

lemma data_check_permuted:
  assumes "mset kvs' = mset kvs" and "distinct (map fst kvs)"
  shows "data_check_string kvs' = data_check_string kvs"
proof -
  have "inj_on fst (set kvs')" using assms by (metis distinct_map mset_eq_setD)
  then have "sort_key fst kvs' = sort_key fst kvs"
    using assms by (intro sort_key_inj_key_eq) simp_all
  then show ?thesis by (simp add: data_check_string_def)
qed

lemma map_of_permuted:
  assumes "mset kvs' = mset kvs" and "distinct (map fst kvs)"
  shows "map_of kvs' = map_of kvs"
proof -
  have "distinct (map fst kvs')" by (metis assms distinct_map mset_eq_setD mset_eq_imp_distinct_iff)
  moreover have "set kvs' = set kvs" using assms by (metis mset_eq_setD)
  ultimately show ?thesis using assms(2) by (metis map_of_eqI map_of_inject_set)
qed

lemma join_amp_hash: "join_amp (map query_pair (before @ [(''hash'', h)] @ after)) \<noteq> []"
proof
  assume *: "join_amp (map query_pair (before @ [(''hash'', h)] @ after)) = []"
  have "split_on CHR ''&'' (join_amp (map query_pair (before @ [(''hash'', h)] @ after)))
      = map query_pair (before @ [(''hash'', h)] @ after)"
    by (intro split_join_amp) (auto simp: query_pair_plain)
  then have "query_pair (''hash'', h) \<in> {[]}" using * by (cases before) (auto simp: append_eq_Cons_conv)
  then show False using query_pair_plain(2) by blast
qed

definition fresh_enough :: "duration \<Rightarrow> time \<Rightarrow> time \<Rightarrow> time \<Rightarrow> bool" where
  "fresh_enough maxAge authAt now1 now2 =
     (maxAge > 0 \<longrightarrow> time_Sub now1 authAt \<le> maxAge \<and> time_Sub authAt now2 \<le> maxFutureSkew)"

lemma init_data_checked:
  assumes perm: "mset (before @ after) = mset kvs" and dist: "distinct (map fst kvs)"
    and names: "''hash'' \<notin> fst ` set kvs"
  shows "ValidateInitData (join_amp (map query_pair (before @ [(''hash'', h)] @ after))) cfg allowlist now1 now2 = Inr (u, t)
     \<longleftrightarrow> vc_BotToken cfg \<noteq> [] \<and> to_lower h = hash_expected (vc_BotToken cfg) kvs
       \<and> auth_date kvs > 0 \<and> t = time_Unix (auth_date kvs) \<and> fresh_enough (vc_MaxAge cfg) t now1 now2
       \<and> find_user kvs = Inr u \<and> tu_ID u \<noteq> 0 \<and> (\<forall>isAdmin. allowlist = Some isAdmin \<longrightarrow> isAdmin (tu_ID u))"
proof -
  have "set (before @ after) = set kvs" using perm by (metis mset_eq_setD)
  then have "\<forall>(k, v) \<in> set (before @ after). k \<noteq> ''hash''" using names by force
  note parsed = parse_signed [OF this, of h]
  have same: "map_of (before @ after) = map_of kvs" "data_check_string (before @ after) = data_check_string kvs"
    using map_of_permuted data_check_permuted perm dist by blast+
  then have hash: "hash_expected (vc_BotToken cfg) (before @ after) = hash_expected (vc_BotToken cfg) kvs"
    and date: "auth_date (before @ after) = auth_date kvs" and user: "find_user (before @ after) = find_user kvs"
    by (simp_all only: hash_expected_def auth_date_def find_user_def)
  have "h \<noteq> []" if "to_lower h = hash_expected (vc_BotToken cfg) kvs"
    using that hash_nonempty [of "vc_BotToken cfg" kvs] by (auto simp: to_lower_def)
  then show ?thesis
    unfolding ValidateInitData_def parsed fresh_enough_def Let_def sum.case prod.case hash date user
    using join_amp_hash [of before h after]
    by (auto simp: not_less split: sum.splits option.splits)
qed

text \<open>
  C32: Telegram signs a set of named values; the Mini App hands them over escaped, in any order, with the
  hash at any place. ValidateInitData accepts exactly when the hash is the one the bot's token gives for those values, the
  date is there and fresh, the user can be read and has an identifier, and the allowlist, where there is one, names that user; it
  then returns that user and the signed date. No other user can be obtained from the data.
\<close>

theorem init_data_accepted_iff:
  assumes "mset (before @ after) = mset kvs" and "distinct (map fst kvs)" and "''hash'' \<notin> fst ` set kvs"
  shows "ValidateInitData (join_amp (map query_pair (before @ [(''hash'', h)] @ after))) cfg allowlist now1 now2 = Inr (u, t)
     \<longleftrightarrow> vc_BotToken cfg \<noteq> [] \<and> to_lower h = hash_expected (vc_BotToken cfg) kvs
       \<and> auth_date kvs > 0 \<and> t = time_Unix (auth_date kvs) \<and> fresh_enough (vc_MaxAge cfg) t now1 now2
       \<and> find_user kvs = Inr u \<and> tu_ID u \<noteq> 0 \<and> (\<forall>isAdmin. allowlist = Some isAdmin \<longrightarrow> isAdmin (tu_ID u))"
  by (rule init_data_checked [OF assms])

definition example_pairs :: "kv list" where
  "example_pairs = [(''auth_date'', ''1700000000''), (''query_id'', ''a&b=c''), (''user'', quoted ''{^id^:42,^first_name^:^Ann^}'')]"

lemma example_user: "(case find_user example_pairs of Inl e \<Rightarrow> False | Inr u \<Rightarrow> tu_ID u = 42)"
  by code_simp

lemma example_date: "auth_date example_pairs = 1700000000"
  by (simp add: auth_date_def example_pairs_def ParseInt_def read_uint_def is_digit_def digit_val_def int64_max_def int64_min_def)

theorem init_data_accepted_iff_witness:
  "\<exists>u. tu_ID u = 42 \<and> ValidateInitData
      (join_amp (map query_pair ([example_pairs ! 2] @ [(''hash'', hash_expected ''123:abc'' example_pairs)]
         @ [example_pairs ! 0, example_pairs ! 1])))
      \<lparr>vc_BotToken = ''123:abc'', vc_MaxAge = 60 * Minute\<rparr> (Some (IsAdmin [42 \<mapsto> True]))
      ((1700000000 + 60) * Second) ((1700000000 + 60) * Second) = Inr (u, 1700000000 * Second)"
proof -
  obtain u where u: "find_user example_pairs = Inr u" "tu_ID u = 42"
    using example_user by (cases "find_user example_pairs") auto
  have t: "time_Unix 1700000000 = 1700000000 * Second" by code_simp
  have perm: "mset ([example_pairs ! 2] @ [example_pairs ! 0, example_pairs ! 1]) = mset example_pairs"
    "distinct (map fst example_pairs)" "''hash'' \<notin> fst ` set example_pairs" by (simp_all add: example_pairs_def)
  have fresh: "fresh_enough (60 * Minute) (1700000000 * Second) ((1700000000 + 60) * Second) ((1700000000 + 60) * Second)" by code_simp
  have "to_lower (hash_expected ''123:abc'' example_pairs) = hash_expected ''123:abc'' example_pairs" by (simp add: hash_expected_def)
  moreover have "IsAdmin [42 \<mapsto> True] 42" by code_simp
  ultimately show ?thesis using init_data_accepted_iff [OF perm] u t fresh example_date
    by (intro exI [of _ u]) (simp add: IsAdmin_def)
qed

section \<open>Sessions\<close>

record memoryEntry =
  me_userID :: int
  me_expiresAt :: time
  me_revoked :: bool

type_synonym sessions = "string \<rightharpoonup> memoryEntry"

datatype session_error = ErrSessionNotFound | ErrSessionRevoked | TokenGeneration

text \<open>\<open>generateToken\<close> gives \<open>None\<close> when the random source fails, else the hexadecimal text of its 32 bytes.\<close>

definition generateToken :: "char list option \<Rightarrow> string option" where
  "generateToken bytes = map_option hex_EncodeToString bytes"

definition SS_Create :: "sessions \<Rightarrow> char list option \<Rightarrow> int \<Rightarrow> duration \<Rightarrow> time \<Rightarrow> sessions \<times> (session_error + string \<times> time)" where
  "SS_Create s bytes userID ttl now = (case generateToken bytes of
     None \<Rightarrow> (s, Inl TokenGeneration)
   | Some token \<Rightarrow> (s(token \<mapsto> \<lparr>me_userID = userID, me_expiresAt = time_Add now ttl, me_revoked = False\<rparr>),
                    Inr (token, time_Add now ttl)))"

definition SS_Validate :: "sessions \<Rightarrow> string \<Rightarrow> time \<Rightarrow> session_error + int" where
  "SS_Validate s token now = (case s token of
     None \<Rightarrow> Inl ErrSessionNotFound
   | Some entry \<Rightarrow>
       if me_revoked entry then Inl ErrSessionRevoked
       else if now > me_expiresAt entry then Inl ErrSessionNotFound
       else Inr (me_userID entry))"

definition SS_Revoke :: "sessions \<Rightarrow> string \<Rightarrow> sessions" where
  "SS_Revoke s token = (case s token of None \<Rightarrow> s | Some entry \<Rightarrow> s(token \<mapsto> entry\<lparr>me_revoked := True\<rparr>))"

text \<open>The calls of a run of the store, with what the random source and the clock give them.\<close>

datatype session_call =
    Created "char list option" int duration time
  | Validated string time
  | Revoked string

fun session_step :: "session_call \<Rightarrow> sessions \<Rightarrow> sessions" where
  "session_step (Created bytes userID ttl now) s = fst (SS_Create s bytes userID ttl now)"
| "session_step (Validated token now) s = s"
| "session_step (Revoked token) s = SS_Revoke s token"

fun creates :: "string \<Rightarrow> session_call \<Rightarrow> bool" where
  "creates token (Created bytes userID ttl now) \<longleftrightarrow> generateToken bytes = Some token"
| "creates token c \<longleftrightarrow> False"

lemma session_kept:
  assumes "s token = Some e" and "\<forall>c \<in> set calls. \<not> creates token c"
  shows "fold session_step calls s token = Some (e\<lparr>me_revoked := me_revoked e \<or> Revoked token \<in> set calls\<rparr>)"
  using assms
proof (induction calls arbitrary: s e)
  case (Cons c calls)
  have "session_step c s token = Some (e\<lparr>me_revoked := me_revoked e \<or> c = Revoked token\<rparr>)"
  proof (cases c)
    case (Revoked t)
    then show ?thesis using Cons.prems(1) by (cases "t = token") (simp_all add: SS_Revoke_def split: option.splits)
  qed (use Cons.prems in \<open>simp_all add: SS_Create_def split: option.splits\<close>)
  from Cons.IH [of "session_step c s", OF this] show ?case using Cons.prems by (auto intro!: arg_cong2 [where f = "\<lambda>x b. x\<lparr>me_revoked := b\<rparr>"])
qed simp

lemma session_absent: "s token = None \<Longrightarrow> \<forall>c \<in> set calls. \<not> creates token c \<Longrightarrow> fold session_step calls s token = None"
proof (induction calls arbitrary: s)
  case (Cons c calls)
  then have "session_step c s token = None"
    by (cases c) (auto simp: SS_Create_def SS_Revoke_def split: option.splits)
  then show ?case using Cons by simp
qed simp

text \<open>The last call that gave the token out, with what came after it.\<close>

fun last_grant :: "string \<Rightarrow> session_call list \<Rightarrow> (session_call \<times> session_call list) option" where
  "last_grant token [] = None"
| "last_grant token (c # calls) = (case last_grant token calls of
     Some g \<Rightarrow> Some g | None \<Rightarrow> if creates token c then Some (c, calls) else None)"

lemma last_grant_split:
  "last_grant token calls = Some (c, post) \<Longrightarrow>
     creates token c \<and> (\<exists>pre. calls = pre @ c # post) \<and> (\<forall>d \<in> set post. \<not> creates token d)"
  "last_grant token calls = None \<Longrightarrow> \<forall>d \<in> set calls. \<not> creates token d"
proof (induction calls arbitrary: c post)
  case (Cons d calls)
  { case 1 then show ?case using Cons.IH by (auto split: option.splits if_splits intro: exI [of _ "[]"]) }
  { case 2 then show ?case using Cons.IH(2) by (auto split: option.splits if_splits) }
qed auto

text \<open>
  after any sequence of calls on an empty session store, a token is accepted, for some user, exactly when
  the latest Create that gave it out was for that user, its time to live has not passed, and the token was not revoked since.
\<close>

theorem session_accepted_iff:
  "SS_Validate (fold session_step calls Map.empty) token now = Inr userID \<longleftrightarrow>
     (\<exists>bytes ttl t0 post. last_grant token calls = Some (Created bytes userID ttl t0, post)
        \<and> now \<le> t0 + ttl \<and> Revoked token \<notin> set post)"
proof (cases "last_grant token calls")
  case None
  then show ?thesis using session_absent [of Map.empty token calls] last_grant_split(2) [OF None]
    by (simp add: SS_Validate_def)
next
  case (Some g)
  obtain c post where g: "g = (c, post)" by (cases g)
  obtain pre where calls: "creates token c" "calls = pre @ c # post" "\<forall>d \<in> set post. \<not> creates token d"
    using last_grant_split(1) Some g by blast
  obtain bytes uid ttl t0 where c: "c = Created bytes uid ttl t0" using calls(1) by (cases c) auto
  have "session_step c (fold session_step pre Map.empty) token = Some \<lparr>me_userID = uid, me_expiresAt = t0 + ttl, me_revoked = False\<rparr>"
    using calls(1) by (auto simp: c SS_Create_def time_Add_def)
  from session_kept [of "session_step c (fold session_step pre Map.empty)" token, OF this calls(3)] show ?thesis
    using Some by (auto simp: calls(2) c g SS_Validate_def)
qed

end
