(* ===== verification/Outbox.thy ===== *)
theory Outbox
  imports GoJson Lifecycle
begin

text \<open>
  Package \<open>internal/outbox\<close> (\<open>outbox.go\<close>): events written in the transaction of their producer and delivered later by
  dispatchers.

  The table \<open>outbox_events\<close> is a list of rows; the SQL statements of the source are functions on it.  A payload is the JSON
  value its column holds.  One call of \<open>RunOnce\<close> runs against an environment that answers for the handler, the clock,
  the database and the rows other processes have locked; several dispatchers are a step relation, one step per
  transaction boundary.
\<close>

section \<open>Rows and events\<close>

record OutboxRow =
  ob_ID :: int
  ob_Topic :: string
  ob_Kind :: string
  ob_Payload :: json
  ob_Attempts :: int
  ob_CreatedAt :: time
  ob_ProcessedAt :: "time option"
  ob_LastError :: "string option"
  ob_NextRetryAt :: "time option"

record Event =
  ev_ID :: int
  ev_Topic :: string
  ev_Kind :: string
  ev_Payload :: json
  ev_Attempts :: int
  ev_CreatedAt :: time

record Dispatcher =
  di_MaxAttempts :: int
  di_BaseBackoff :: duration
  di_BatchSize :: int

definition NewDispatcher :: "int \<Rightarrow> duration \<Rightarrow> Dispatcher" where
  "NewDispatcher maxAttempts baseBackoff = \<lparr>di_MaxAttempts = maxAttempts, di_BaseBackoff = baseBackoff, di_BatchSize = 100\<rparr>"

definition batch_size :: "Dispatcher \<Rightarrow> int" where
  "batch_size d = (if di_BatchSize d \<le> 0 then 100 else di_BatchSize d)"

definition max_attempts :: "Dispatcher \<Rightarrow> int" where
  "max_attempts d = (if di_MaxAttempts d \<le> 0 then 3 else di_MaxAttempts d)"

text \<open>The identifier and the time of creation come from the table.\<close>

definition EnqueueTx :: "string \<Rightarrow> string \<Rightarrow> json \<Rightarrow> int \<Rightarrow> time \<Rightarrow> OutboxRow list \<Rightarrow> OutboxRow list" where
  "EnqueueTx topic kind payload i now rows = rows @
     [\<lparr>ob_ID = i, ob_Topic = topic, ob_Kind = kind, ob_Payload = payload, ob_Attempts = 0, ob_CreatedAt = now,
       ob_ProcessedAt = None, ob_LastError = None, ob_NextRetryAt = None\<rparr>]"

definition event_of :: "OutboxRow \<Rightarrow> Event" where
  "event_of r = \<lparr>ev_ID = ob_ID r, ev_Topic = ob_Topic r, ev_Kind = ob_Kind r, ev_Payload = ob_Payload r,
     ev_Attempts = ob_Attempts r, ev_CreatedAt = ob_CreatedAt r\<rparr>"

definition due :: "Dispatcher \<Rightarrow> time \<Rightarrow> OutboxRow \<Rightarrow> bool" where
  "due d now r \<longleftrightarrow> ob_ProcessedAt r = None \<and> ob_Attempts r < max_attempts d
     \<and> (case ob_NextRetryAt r of None \<Rightarrow> True | Some t \<Rightarrow> t \<le> now)"

definition select_batch :: "Dispatcher \<Rightarrow> int set \<Rightarrow> time \<Rightarrow> OutboxRow list \<Rightarrow> Event list" where
  "select_batch d locked now rows =
     map event_of (take (nat (batch_size d)) (filter (\<lambda>r. ob_ID r \<notin> locked) (sort_key ob_CreatedAt (filter (due d now) rows))))"

text \<open>The second lock of \<open>processEvent\<close>: by identifier, and only a row that was not processed.\<close>

definition lockable :: "int set \<Rightarrow> int \<Rightarrow> OutboxRow list \<Rightarrow> bool" where
  "lockable locked i rows \<longleftrightarrow> i \<notin> locked \<and> list_ex (\<lambda>r. ob_ID r = i \<and> ob_ProcessedAt r = None) rows"

text \<open>
  \<open>time.Duration(float64(BaseBackoff) * math.Pow(2, float64(Attempts)))\<close>: exact while the base has at most 53 bits and the
  result fits; beyond that \<open>fl\<close> stands for the rounding and the conversion, which Go leaves to the implementation.
\<close>

definition retry_backoff :: "(duration \<Rightarrow> int \<Rightarrow> duration) \<Rightarrow> Dispatcher \<Rightarrow> Event \<Rightarrow> duration" where
  "retry_backoff fl d ev =
     (let base = di_BaseBackoff d; a = ev_Attempts ev in
      if a + 1 > 0
      then (if \<bar>base\<bar> \<le> 2 ^ 53 \<and> \<bar>base * 2 ^ nat a\<bar> < 2 ^ 63 then base * 2 ^ nat a else fl base a)
      else base)"

definition settle_row :: "(duration \<Rightarrow> int \<Rightarrow> duration) \<Rightarrow> Dispatcher \<Rightarrow> time \<Rightarrow> Event \<Rightarrow> string option \<Rightarrow> OutboxRow \<Rightarrow> OutboxRow" where
  "settle_row fl d now ev handlerErr r = (case handlerErr of
     None \<Rightarrow> r\<lparr>ob_ProcessedAt := Some now, ob_Attempts := ob_Attempts r + 1\<rparr>
   | Some e \<Rightarrow> r\<lparr>ob_Attempts := ob_Attempts r + 1, ob_LastError := Some e,
                ob_NextRetryAt := Some (time_Add now (retry_backoff fl d ev))\<rparr>)"

definition settle ::
  "(duration \<Rightarrow> int \<Rightarrow> duration) \<Rightarrow> Dispatcher \<Rightarrow> time \<Rightarrow> Event \<Rightarrow> string option \<Rightarrow> OutboxRow list \<Rightarrow> OutboxRow list" where
  "settle fl d now ev handlerErr rows =
     map (\<lambda>r. if ob_ID r = ev_ID ev then settle_row fl d now ev handlerErr r else r) rows"

section \<open>One round of a dispatcher\<close>

datatype tx_fault = TxOk | BeginFails | LockFails | UpdateFails | CommitFails bool \<comment> \<open>whether it was carried out\<close>

record 'w outbox_env =
  oe_handler :: "Event \<Rightarrow> 'w \<Rightarrow> string option \<times> 'w"
  oe_clock :: "'w \<Rightarrow> time \<times> 'w"
  oe_query :: "'w \<Rightarrow> db_error option \<times> 'w"
  oe_fault :: "'w \<Rightarrow> tx_fault \<times> 'w"
  oe_locked :: "'w \<Rightarrow> int set"
  oe_float :: "duration \<Rightarrow> int \<Rightarrow> duration"

text \<open>Whether the event counts as processed, the rows and the world.  An unavailable row is skipped without an error.\<close>

definition processEvent ::
  "Dispatcher \<Rightarrow> 'w outbox_env \<Rightarrow> Event \<Rightarrow> OutboxRow list \<Rightarrow> 'w \<Rightarrow> bool \<times> OutboxRow list \<times> 'w" where
  "processEvent d E ev rows w =
     (case oe_fault E w of (fault, w1) \<Rightarrow>
        if fault = BeginFails then (False, rows, w1)
        else if fault = LockFails \<or> \<not> lockable (oe_locked E w1) (ev_ID ev) rows then (True, rows, w1)
        else (case oe_handler E ev w1 of (handlerErr, w2) \<Rightarrow>
              case oe_clock E w2 of (now, w3) \<Rightarrow>
                (case fault of
                   UpdateFails \<Rightarrow> (False, rows, w3)
                 | CommitFails done \<Rightarrow> (False, if done then settle (oe_float E) d now ev handlerErr rows else rows, w3)
                 | _ \<Rightarrow> (True, settle (oe_float E) d now ev handlerErr rows, w3))))"

fun process_events ::
  "Dispatcher \<Rightarrow> 'w outbox_env \<Rightarrow> Event list \<Rightarrow> int \<Rightarrow> OutboxRow list \<Rightarrow> 'w \<Rightarrow> int \<times> OutboxRow list \<times> 'w" where
  "process_events d E [] processed rows w = (processed, rows, w)"
| "process_events d E (ev # evs) processed rows w =
     (case processEvent d E ev rows w of (ok, rows', w') \<Rightarrow>
        process_events d E evs (if ok then processed + 1 else processed) rows' w')"

definition RunOnce ::
  "Dispatcher \<Rightarrow> 'w outbox_env \<Rightarrow> OutboxRow list \<Rightarrow> 'w \<Rightarrow> (db_error + int) \<times> OutboxRow list \<times> 'w" where
  "RunOnce d E rows w =
     (case oe_query E w of
        (Some e, w1) \<Rightarrow> (Inl e, rows, w1)
      | (None, w1) \<Rightarrow>
     (case oe_clock E w1 of (now, w2) \<Rightarrow>
      case process_events d E (select_batch d (oe_locked E w2) now rows) 0 rows w2 of
        (n, rows', w3) \<Rightarrow> (Inr n, rows', w3)))"

text \<open>\<open>Run\<close>: a round at every tick; \<open>wait\<close> is the time to the next tick, in which producers and other processes go on.\<close>

fun Outbox_Run ::
  "Dispatcher \<Rightarrow> 'w outbox_env \<Rightarrow> (OutboxRow list \<Rightarrow> 'w \<Rightarrow> OutboxRow list \<times> 'w) \<Rightarrow> nat \<Rightarrow> OutboxRow list \<Rightarrow> 'w
   \<Rightarrow> OutboxRow list \<times> 'w" where
  "Outbox_Run d E wait 0 rows w = (rows, w)"
| "Outbox_Run d E wait (Suc n) rows w =
     (case wait rows w of (rows1, w1) \<Rightarrow>
      case RunOnce d E rows1 w1 of (r, rows2, w2) \<Rightarrow> Outbox_Run d E wait n rows2 w2)"

section \<open>Several dispatchers\<close>

text \<open>
  A dispatcher is idle, has a batch left, or is inside the transaction of an event whose handler has answered and whose
  row it has locked.  The log says what was handed to handlers and which outcomes were recorded.
\<close>

datatype disp = Idle | Working "Event list" | Holding Event "string option" "Event list"

datatype delivery = Handed Event time "string option" | Recorded int "string option"

record outbox_conf =
  oc_rows :: "OutboxRow list"
  oc_disp :: "nat \<Rightarrow> disp"
  oc_now :: time
  oc_log :: "delivery list"

definition held :: "outbox_conf \<Rightarrow> int set" where
  "held c = {i. \<exists>k e r evs. oc_disp c k = Holding e r evs \<and> ev_ID e = i}"

inductive outbox_step :: "(duration \<Rightarrow> int \<Rightarrow> duration) \<Rightarrow> Dispatcher \<Rightarrow> outbox_conf \<Rightarrow> outbox_conf \<Rightarrow> bool" for fl d where
  tick: "oc_now c \<le> now \<Longrightarrow> outbox_step fl d c (c\<lparr>oc_now := now\<rparr>)"
| enqueue: "i \<notin> ob_ID ` set (oc_rows c) \<Longrightarrow>
     outbox_step fl d c (c\<lparr>oc_rows := EnqueueTx topic kind payload i (oc_now c) (oc_rows c)\<rparr>)"
| select: "oc_disp c k = Idle \<Longrightarrow>
     outbox_step fl d c (c\<lparr>oc_disp := (oc_disp c)(k := Working (select_batch d (held c) (oc_now c) (oc_rows c)))\<rparr>)"
| skip: "oc_disp c k = Working (e # evs) \<Longrightarrow> outbox_step fl d c (c\<lparr>oc_disp := (oc_disp c)(k := Working evs)\<rparr>)"
| handle: "oc_disp c k = Working (e # evs) \<Longrightarrow> lockable (held c) (ev_ID e) (oc_rows c) \<Longrightarrow>
     outbox_step fl d c (c\<lparr>oc_disp := (oc_disp c)(k := Holding e r evs), oc_log := oc_log c @ [Handed e (oc_now c) r]\<rparr>)"
| commit: "oc_disp c k = Holding e r evs \<Longrightarrow>
     outbox_step fl d c (c\<lparr>oc_disp := (oc_disp c)(k := Working evs), oc_rows := settle fl d (oc_now c) e r (oc_rows c),
       oc_log := oc_log c @ [Recorded (ev_ID e) r]\<rparr>)"
| abort: "oc_disp c k = Holding e r evs \<Longrightarrow> outbox_step fl d c (c\<lparr>oc_disp := (oc_disp c)(k := Working evs)\<rparr>)"
| finish: "oc_disp c k = Working [] \<Longrightarrow> outbox_step fl d c (c\<lparr>oc_disp := (oc_disp c)(k := Idle)\<rparr>)"
| crash: "outbox_step fl d c (c\<lparr>oc_disp := (oc_disp c)(k := Idle)\<rparr>)"

definition empty_outbox :: "time \<Rightarrow> outbox_conf" where
  "empty_outbox now = \<lparr>oc_rows = [], oc_disp = (\<lambda>_. Idle), oc_now = now, oc_log = []\<rparr>"

text \<open>Every event handed over was unprocessed at that time, and no two dispatchers are inside the same event.\<close>

definition exclusive :: "outbox_conf \<Rightarrow> bool" where
  "exclusive c \<longleftrightarrow> (\<forall>k k' e e' r r' evs evs'. oc_disp c k = Holding e r evs \<longrightarrow> oc_disp c k' = Holding e' r' evs'
     \<longrightarrow> ev_ID e = ev_ID e' \<longrightarrow> k = k')"

fun undelivered_after :: "int set \<Rightarrow> delivery list \<Rightarrow> bool" where
  "undelivered_after D [] \<longleftrightarrow> True"
| "undelivered_after D (Handed e t r # ds) \<longleftrightarrow> ev_ID e \<notin> D \<and> undelivered_after D ds"
| "undelivered_after D (Recorded i r # ds) \<longleftrightarrow> undelivered_after (if r = None then insert i D else D) ds"

definition done_ids :: "delivery list \<Rightarrow> int set" where
  "done_ids ds = {i. Recorded i None \<in> set ds}"

lemma done_ids_simps [simp]:
  "done_ids [] = {}" "done_ids (Handed e t r # ds) = done_ids ds"
  "done_ids (Recorded i r # ds) = (if r = None then insert i (done_ids ds) else done_ids ds)"
  "done_ids (ds @ ds') = done_ids ds \<union> done_ids ds'"
  by (auto simp: done_ids_def)

lemma undelivered_snoc:
  "undelivered_after D (ds @ [x]) \<longleftrightarrow> undelivered_after D ds
     \<and> (case x of Handed e t r \<Rightarrow> ev_ID e \<notin> D \<union> done_ids ds | Recorded i r \<Rightarrow> True)"
  by (induction D ds rule: undelivered_after.induct) (auto split: delivery.splits)

definition outbox_inv :: "outbox_conf \<Rightarrow> bool" where
  "outbox_inv c \<longleftrightarrow> exclusive c \<and> undelivered_after {} (oc_log c)
     \<and> distinct (map ob_ID (oc_rows c))
     \<and> (\<forall>i. i \<in> done_ids (oc_log c) \<longleftrightarrow> (\<exists>r \<in> set (oc_rows c). ob_ID r = i \<and> ob_ProcessedAt r \<noteq> None))
     \<and> (\<forall>i \<in> held c. \<exists>r \<in> set (oc_rows c). ob_ID r = i)
     \<and> (\<forall>i \<in> done_ids (oc_log c). \<exists>e t. Handed e t None \<in> set (oc_log c) \<and> ev_ID e = i)
     \<and> (\<forall>k e r evs. oc_disp c k = Holding e r evs \<longrightarrow> (\<exists>t. Handed e t r \<in> set (oc_log c)))"

lemma outbox_invD:
  assumes "outbox_inv c"
  shows "exclusive c" "undelivered_after {} (oc_log c)" "distinct (map ob_ID (oc_rows c))"
    "i \<in> done_ids (oc_log c) \<longleftrightarrow> (\<exists>r \<in> set (oc_rows c). ob_ID r = i \<and> ob_ProcessedAt r \<noteq> None)"
    "i \<in> held c \<Longrightarrow> \<exists>r \<in> set (oc_rows c). ob_ID r = i"
    "i \<in> done_ids (oc_log c) \<Longrightarrow> \<exists>e t. Handed e t None \<in> set (oc_log c) \<and> ev_ID e = i"
    "oc_disp c k = Holding e r evs \<Longrightarrow> \<exists>t. Handed e t r \<in> set (oc_log c)"
  using assms unfolding outbox_inv_def by blast+

lemma map_ID_settle [simp]: "map ob_ID (settle fl d t e r rows) = map ob_ID rows"
  by (simp add: settle_def settle_row_def comp_def split: option.splits)

lemma bex_ID: "(\<exists>y \<in> set rows. ob_ID y = i) \<longleftrightarrow> i \<in> set (map ob_ID rows)"
  by auto

lemma settle_None:
  "ob_ProcessedAt (settle_row fl d t e r x) \<noteq> None \<longleftrightarrow> r = None \<or> ob_ProcessedAt x \<noteq> None"
  "ob_ID (settle_row fl d t e r x) = ob_ID x"
  by (auto simp: settle_row_def split: option.splits)

lemma held_upd:
  assumes "\<And>e r evs. x \<noteq> Holding e r evs"
  shows "held (c\<lparr>oc_disp := (oc_disp c)(k := x)\<rparr>) \<subseteq> held c"
  using assms by (auto simp: held_def split: if_splits)

lemma exclusive_upd:
  assumes "exclusive c" and "\<And>e r evs. x \<noteq> Holding e r evs"
  shows "exclusive (c\<lparr>oc_disp := (oc_disp c)(k := x)\<rparr>)"
  using assms by (auto simp: exclusive_def split: if_splits)

lemma inv_leave:
  assumes "outbox_inv c" and "\<And>e r evs. x \<noteq> Holding e r evs"
  shows "outbox_inv (c\<lparr>oc_disp := (oc_disp c)(k := x)\<rparr>)"
  using assms exclusive_upd [of c x k] held_upd [of x c k] by (fastforce simp: outbox_inv_def split: if_splits)

lemma undelivered_before:
  "undelivered_after D (ds @ Handed e t r # ds') \<Longrightarrow> ev_ID e \<notin> D \<and> Recorded (ev_ID e) None \<notin> set ds"
  by (induction D ds rule: undelivered_after.induct) (auto split: if_splits)

lemma inv_handle:
  assumes inv: "outbox_inv c" and "lockable (held c) (ev_ID e) (oc_rows c)"
  shows "outbox_inv (c\<lparr>oc_disp := (oc_disp c)(k := Holding e r evs), oc_log := oc_log c @ [Handed e (oc_now c) r]\<rparr>)"
    (is "outbox_inv ?c")
proof -
  obtain x where x: "x \<in> set (oc_rows c)" "ob_ID x = ev_ID e" "ob_ProcessedAt x = None" and free: "ev_ID e \<notin> held c"
    using assms(2) by (auto simp: lockable_def list_ex_iff)
  note D = outbox_invD [OF inv]
  have "y = x" if "y \<in> set (oc_rows c)" "ob_ID y = ev_ID e" for y
    using D(3) x that by (metis distinct_map inj_onD)
  then have new: "ev_ID e \<notin> done_ids (oc_log c)" using D(4) [of "ev_ID e"] x(3) by auto
  have excl: "exclusive ?c"
    using D(1) free by (fastforce simp: exclusive_def held_def split: if_splits)
  have held: "held ?c \<subseteq> insert (ev_ID e) (held c)" by (auto simp: held_def split: if_splits)
  have "\<exists>t. Handed e' t r' \<in> set (oc_log ?c)" if "oc_disp ?c k' = Holding e' r' evs'" for k' e' r' evs'
    using that D(7) [of k' e' r' evs'] by (auto split: if_splits)
  moreover have "\<exists>y \<in> set (oc_rows ?c). ob_ID y = i" if "i \<in> held ?c" for i
    using held that D(5) [of i] x by auto
  moreover have "\<exists>e' t. Handed e' t None \<in> set (oc_log ?c) \<and> ev_ID e' = i" if "i \<in> done_ids (oc_log ?c)" for i
    using D(6) [of i] that by auto
  moreover have "i \<in> done_ids (oc_log ?c) \<longleftrightarrow> (\<exists>y \<in> set (oc_rows ?c). ob_ID y = i \<and> ob_ProcessedAt y \<noteq> None)" for i
    using D(4) [of i] by simp
  ultimately show ?thesis unfolding outbox_inv_def using excl D(2,3) new by (simp add: undelivered_snoc)
qed

lemma inv_commit:
  assumes inv: "outbox_inv c" and hold: "oc_disp c k = Holding e r evs"
  shows "outbox_inv (c\<lparr>oc_disp := (oc_disp c)(k := Working evs), oc_rows := settle fl d (oc_now c) e r (oc_rows c),
       oc_log := oc_log c @ [Recorded (ev_ID e) r]\<rparr>)" (is "outbox_inv ?c")
proof -
  let ?c1 = "c\<lparr>oc_disp := (oc_disp c)(k := Working evs)\<rparr>"
  have inv1: "outbox_inv ?c1" by (rule inv_leave [OF inv]) simp
  have "ev_ID e \<in> held c" using hold by (auto simp: held_def)
  then obtain x where x: "x \<in> set (oc_rows c)" "ob_ID x = ev_ID e" using outbox_invD(5) [OF inv] by blast
  obtain t where t: "Handed e t r \<in> set (oc_log c)" using outbox_invD(7) [OF inv hold] by blast
  have rows: "(\<exists>y \<in> set (oc_rows ?c). ob_ID y = i \<and> ob_ProcessedAt y \<noteq> None)
      \<longleftrightarrow> (i = ev_ID e \<and> r = None) \<or> (\<exists>y \<in> set (oc_rows c). ob_ID y = i \<and> ob_ProcessedAt y \<noteq> None)" for i
  proof -
    define f where "f = (\<lambda>x. if ob_ID x = ev_ID e then settle_row fl d (oc_now c) e r x else x)"
    have "ob_ID (f y) = i \<and> ob_ProcessedAt (f y) \<noteq> None
        \<longleftrightarrow> ob_ID y = i \<and> (i = ev_ID e \<and> r = None \<or> ob_ProcessedAt y \<noteq> None)" for y
      unfolding f_def by (cases "ob_ID y = ev_ID e") (use settle_None [of fl d "oc_now c" e r y] in \<open>simp_all only: if_True if_False simp_thms, blast+\<close>)
    moreover have "oc_rows ?c = map f (oc_rows c)" by (simp add: f_def settle_def)
    ultimately show ?thesis using x by (simp only: set_map bex_simps) blast
  qed
  have ids: "(\<exists>y \<in> set (oc_rows ?c). ob_ID y = i) \<longleftrightarrow> (\<exists>y \<in> set (oc_rows c). ob_ID y = i)" for i
    using bex_ID [of "oc_rows ?c" i] bex_ID [of "oc_rows c" i] by simp
  have same: "exclusive ?c = exclusive ?c1" "held ?c = held ?c1" by (simp_all add: exclusive_def held_def)
  note D = outbox_invD [OF inv1]
  have "\<exists>t. Handed e' t r' \<in> set (oc_log ?c)" if "oc_disp ?c k' = Holding e' r' evs'" for k' e' r' evs'
    using that D(7) [of k' e' r' evs'] by (auto split: if_splits)
  moreover have "\<exists>e' t. Handed e' t None \<in> set (oc_log ?c) \<and> ev_ID e' = i" if "i \<in> done_ids (oc_log ?c)" for i
    using D(6) [of i] that t by (auto split: if_splits)
  moreover have "i \<in> done_ids (oc_log ?c) \<longleftrightarrow> (\<exists>y \<in> set (oc_rows ?c). ob_ID y = i \<and> ob_ProcessedAt y \<noteq> None)" for i
    unfolding rows using D(4) [of i] by auto
  moreover have "\<exists>y \<in> set (oc_rows ?c). ob_ID y = i" if "i \<in> held ?c" for i
    unfolding ids using D(5) [of i] that same(2) by simp
  moreover have "distinct (map ob_ID (oc_rows ?c))" "undelivered_after {} (oc_log ?c)"
    using D(2,3) by (simp_all add: undelivered_snoc)
  ultimately show ?thesis unfolding outbox_inv_def same using D(1) by blast
qed

lemma inv_enqueue:
  assumes inv: "outbox_inv c" and "i \<notin> ob_ID ` set (oc_rows c)"
  shows "outbox_inv (c\<lparr>oc_rows := EnqueueTx topic kind payload i (oc_now c) (oc_rows c)\<rparr>)"
proof -
  have "exclusive (c\<lparr>oc_rows := rs\<rparr>) = exclusive c" "held (c\<lparr>oc_rows := rs\<rparr>) = held c" for rs
    by (simp_all add: exclusive_def held_def)
  then show ?thesis using assms by (auto simp: outbox_inv_def EnqueueTx_def)
qed

lemma inv_step: "outbox_step fl d c c' \<Longrightarrow> outbox_inv c \<Longrightarrow> outbox_inv c'"
proof (induction rule: outbox_step.induct)
  case (tick c now)
  then show ?case by (simp add: outbox_inv_def exclusive_def held_def)
next
  case (enqueue i c)
  then show ?case by (intro inv_enqueue)
next
  case (handle c k e evs r)
  then show ?case by (intro inv_handle)
next
  case (commit c k e r evs)
  then show ?case by (intro inv_commit)
qed (auto intro!: inv_leave)

lemma inv_reachable: "(outbox_step fl d)\<^sup>*\<^sup>* (empty_outbox now) c \<Longrightarrow> outbox_inv c"
proof (induction rule: rtranclp_induct)
  case base
  show ?case by (simp add: outbox_inv_def empty_outbox_def exclusive_def held_def)
qed (use inv_step in blast)

text \<open>
  C33: however producers and dispatchers interleave, crash or lose the database, an event is never in
  the hands of two dispatchers at once, is never handed to a handler again once its success was recorded, and is only
  marked processed when a handler had accepted it.
\<close>

theorem outbox_no_redelivery:
  assumes "(outbox_step fl d)\<^sup>*\<^sup>* (empty_outbox now) c"
  shows "(oc_disp c k = Holding e r evs \<and> oc_disp c k' = Holding e' r' evs' \<and> ev_ID e = ev_ID e' \<longrightarrow> k = k')
     \<and> (oc_log c = ds @ Handed e t r # ds' \<longrightarrow> Recorded (ev_ID e) None \<notin> set ds)
     \<and> (\<forall>x \<in> set (oc_rows c). ob_ProcessedAt x \<noteq> None \<longrightarrow> (\<exists>e t. Handed e t None \<in> set (oc_log c) \<and> ev_ID e = ob_ID x))"
  using inv_reachable [OF assms] undelivered_before [of "{}" ds e t r ds']
  by (fastforce simp: outbox_inv_def exclusive_def)

text \<open>A run of several dispatchers that all take the same event before the first has failed with it.\<close>

definition lone_row :: "time \<Rightarrow> OutboxRow" where
  "lone_row now = \<lparr>ob_ID = 1, ob_Topic = ''position'', ob_Kind = ''close_request'', ob_Payload = JNull, ob_Attempts = 0,
     ob_CreatedAt = now, ob_ProcessedAt = None, ob_LastError = None, ob_NextRetryAt = None\<rparr>"

definition retried :: "Dispatcher \<Rightarrow> time \<Rightarrow> nat \<Rightarrow> OutboxRow" where
  "retried d now j = (if j = 0 then lone_row now
     else (lone_row now)\<lparr>ob_Attempts := int j, ob_LastError := Some ''down'', ob_NextRetryAt := Some (now + di_BaseBackoff d)\<rparr>)"

definition crowd :: "Dispatcher \<Rightarrow> time \<Rightarrow> nat \<Rightarrow> nat \<Rightarrow> nat \<Rightarrow> outbox_conf" where
  "crowd d now n m j = \<lparr>oc_rows = [retried d now j],
     oc_disp = (\<lambda>k. if k < j then Working [] else if k < m then Working [event_of (lone_row now)] else Idle), oc_now = now,
     oc_log = concat (replicate j [Handed (event_of (lone_row now)) now (Some ''down''), Recorded 1 (Some ''down'')])\<rparr>"

lemma crowd_selects: "(outbox_step fl d)\<^sup>*\<^sup>* (empty_outbox now) (crowd d now n m 0)"
proof (induction m)
  case 0
  have "outbox_step fl d (empty_outbox now)
      ((empty_outbox now)\<lparr>oc_rows := EnqueueTx ''position'' ''close_request'' JNull 1 (oc_now (empty_outbox now)) (oc_rows (empty_outbox now))\<rparr>)"
    by (rule outbox_step.enqueue) (simp add: empty_outbox_def)
  then show ?case
    by (simp add: crowd_def empty_outbox_def retried_def EnqueueTx_def lone_row_def r_into_rtranclp)
next
  case (Suc m)
  let ?c = "crowd d now n m 0"
  have "held ?c = {}" by (simp add: held_def crowd_def)
  then have "select_batch d (held ?c) (oc_now ?c) (oc_rows ?c) = [event_of (lone_row now)]"
    by (simp add: select_batch_def crowd_def due_def retried_def lone_row_def max_attempts_def batch_size_def)
  moreover have "outbox_step fl d ?c (?c\<lparr>oc_disp := (oc_disp ?c)(m := Working (select_batch d (held ?c) (oc_now ?c) (oc_rows ?c)))\<rparr>)"
    by (rule outbox_step.select) (simp add: crowd_def)
  moreover have "?c\<lparr>oc_disp := (oc_disp ?c)(m := Working [event_of (lone_row now)])\<rparr> = crowd d now n (Suc m) 0"
    by (auto simp: crowd_def fun_eq_iff)
  ultimately show ?case using Suc by (metis rtranclp.rtrancl_into_rtrancl)
qed

lemma crowd_retries:
  assumes "j \<le> n" and "0 < di_BaseBackoff d" and "di_BaseBackoff d \<le> 2 ^ 53"
  shows "(outbox_step fl d)\<^sup>*\<^sup>* (empty_outbox now) (crowd d now n n j)"
  using assms(1)
proof (induction j)
  case 0
  show ?case by (rule crowd_selects)
next
  case (Suc j)
  let ?c = "crowd d now n n j" and ?e = "event_of (lone_row now)"
  have free: "held ?c = {}" by (auto simp: held_def crowd_def)
  have "lockable (held ?c) (ev_ID ?e) (oc_rows ?c)"
    by (simp add: free lockable_def) (simp add: crowd_def retried_def lone_row_def event_of_def)
  moreover have "oc_disp ?c j = Working (?e # [])" using Suc.prems by (simp add: crowd_def)
  ultimately have 1: "outbox_step fl d ?c (?c\<lparr>oc_disp := (oc_disp ?c)(j := Holding ?e (Some ''down'') []),
      oc_log := oc_log ?c @ [Handed ?e (oc_now ?c) (Some ''down'')]\<rparr>)" (is "outbox_step fl d ?c ?c1")
    by (intro outbox_step.handle)
  have 2: "outbox_step fl d ?c1 (?c1\<lparr>oc_disp := (oc_disp ?c1)(j := Working []),
      oc_rows := settle fl d (oc_now ?c1) ?e (Some ''down'') (oc_rows ?c1),
      oc_log := oc_log ?c1 @ [Recorded (ev_ID ?e) (Some ''down'')]\<rparr>)" (is "outbox_step fl d ?c1 ?c2")
    by (rule outbox_step.commit) simp
  have "di_BaseBackoff d < 2 ^ 63" using assms(3) by (rule le_less_trans) simp
  then have "settle fl d now ?e (Some ''down'') [retried d now j] = [retried d now (Suc j)]"
    using assms(2,3) by (simp add: settle_def settle_row_def retried_def lone_row_def event_of_def retry_backoff_def time_Add_def)
  then have "?c2 = crowd d now n n (Suc j)"
    using Suc.prems by (auto simp: crowd_def fun_eq_iff replicate_append_same [symmetric] event_of_def lone_row_def less_Suc_eq)
  then show ?case using Suc 1 2 by (metis Suc_leD rtranclp.rtrancl_into_rtrancl)
qed

text \<open>
  several dispatchers ignore the limits on attempts: the second lock of an event checks only that it
  was not processed, so dispatchers that selected it together hand it over again at once after each failure.  For any
  number of attempts and any positive backoff there is a run in which all of them fail in the same instant, each with
  the event still at attempt 0.
\<close>

theorem outbox_retry_bypass:
  assumes "0 < di_BaseBackoff d" and "di_BaseBackoff d \<le> 2 ^ 53" and "0 < n"
  shows "\<exists>c e r. (outbox_step fl d)\<^sup>*\<^sup>* (empty_outbox now) c \<and> ev_Attempts e = 0 \<and> oc_now c = now
     \<and> oc_log c = concat (replicate n [Handed e now (Some ''down''), Recorded (ev_ID e) (Some ''down'')])
     \<and> oc_rows c = [r] \<and> ob_Attempts r = int n \<and> ob_NextRetryAt r = Some (now + di_BaseBackoff d)"
  using crowd_retries [where j = n and n = n and fl = fl and now = now, OF le_refl assms(1,2)] assms(3)
  by (intro exI [of _ "crowd d now n n n"] exI [of _ "event_of (lone_row now)"] exI [of _ "retried d now n"])
     (simp add: crowd_def event_of_def lone_row_def retried_def)

theorem outbox_retry_bypass_witness:
  "\<exists>c e r. (outbox_step (\<lambda>b a. 0) (NewDispatcher 8 (2 * Second)))\<^sup>*\<^sup>* (empty_outbox 0) c \<and> ev_Attempts e = 0 \<and> oc_now c = 0
     \<and> oc_log c = concat (replicate 9 [Handed e 0 (Some ''down''), Recorded (ev_ID e) (Some ''down'')])
     \<and> oc_rows c = [r] \<and> ob_Attempts r = 9 \<and> ob_NextRetryAt r = Some (2 * Second)"
  using outbox_retry_bypass [of "NewDispatcher 8 (2 * Second)" 9 "\<lambda>b a. 0" 0] by (simp add: NewDispatcher_def)

definition two_dispatchers :: Dispatcher where
  "two_dispatchers = NewDispatcher 8 (2 * Second)"

theorem outbox_no_redelivery_witness:
  "\<exists>c. (outbox_step (\<lambda>b a. 0) two_dispatchers)\<^sup>*\<^sup>* (empty_outbox 0) c
     \<and> (\<exists>e ds'. oc_log c = [] @ Handed e 0 (Some ''down'') # ds' \<and> Recorded (ev_ID e) None \<notin> set ([] :: delivery list))"
proof -
  have r: "(outbox_step (\<lambda>b a. 0) two_dispatchers)\<^sup>*\<^sup>* (empty_outbox 0) (crowd two_dispatchers 0 2 2 2)"
    by (rule crowd_retries) (simp_all add: two_dispatchers_def NewDispatcher_def)
  have "oc_log (crowd two_dispatchers 0 2 2 2) = [] @ Handed (event_of (lone_row 0)) 0 (Some ''down'') #
      Recorded 1 (Some ''down'') # concat (replicate 1 [Handed (event_of (lone_row 0)) 0 (Some ''down''), Recorded 1 (Some ''down'')])"
    by (simp add: crowd_def numeral_2_eq_2)
  then show ?thesis using r outbox_no_redelivery [OF r] by blast
qed

section \<open>A single dispatcher delivers or gives up\<close>

text \<open>The attempts that the events created up to a moment have left, and the ticks that cover the longest backoff.\<close>

definition attempts_left :: "Dispatcher \<Rightarrow> time \<Rightarrow> OutboxRow \<Rightarrow> nat" where
  "attempts_left d since r = (if ob_ProcessedAt r = None \<and> ob_CreatedAt r \<le> since then nat (max_attempts d - ob_Attempts r) else 0)"

definition left_attempts :: "Dispatcher \<Rightarrow> time \<Rightarrow> OutboxRow list \<Rightarrow> nat" where
  "left_attempts d since rows = sum_list (map (attempts_left d since) rows)"

definition longest_backoff :: "Dispatcher \<Rightarrow> duration" where
  "longest_backoff d = di_BaseBackoff d * 2 ^ nat (max_attempts d - 1)"

definition backoff_ticks :: "Dispatcher \<Rightarrow> duration \<Rightarrow> nat" where
  "backoff_ticks d I = Suc (nat (longest_backoff d div I))"

text \<open>
  The only dispatcher of a database that answers.  Between two ticks, \<open>I\<close> apart, producers may add any number of events, created after the
  moment \<open>since\<close>.
\<close>

locale sole_dispatcher =
  fixes d :: Dispatcher and E :: "'w outbox_env" and wait :: "OutboxRow list \<Rightarrow> 'w \<Rightarrow> OutboxRow list \<times> 'w"
    and tm :: "'w \<Rightarrow> time" and I :: duration and since :: time
  assumes handler_time: "oe_handler E ev w = (r, w') \<Longrightarrow> tm w \<le> tm w'"
    and clock_time: "oe_clock E w = (t, w') \<Longrightarrow> tm w \<le> t \<and> t \<le> tm w'"
    and query_ok: "oe_query E w = (q, w') \<Longrightarrow> q = None \<and> tm w \<le> tm w'"
    and fault_ok: "oe_fault E w = (f, w') \<Longrightarrow> f = TxOk \<and> tm w \<le> tm w'"
    and alone: "oe_locked E w = {}"
    and wait_time: "wait rows w = (rows', w') \<Longrightarrow> tm w + I \<le> tm w'"
    and wait_rows: "wait rows w = (rows', w') \<Longrightarrow> \<exists>new. rows' = rows @ new
        \<and> (distinct (map ob_ID rows) \<longrightarrow> distinct (map ob_ID rows'))
        \<and> (\<forall>r \<in> set new. since < ob_CreatedAt r \<and> ob_Attempts r = 0 \<and> ob_NextRetryAt r = None \<and> ob_ProcessedAt r = None)"
    and interval: "0 < I"
    and base: "0 \<le> di_BaseBackoff d" "di_BaseBackoff d \<le> 2 ^ 53" "di_BaseBackoff d * 2 ^ nat (max_attempts d) < 2 ^ 63"
begin

abbreviation left :: "OutboxRow list \<Rightarrow> nat" where
  "left \<equiv> left_attempts d since"

definition settled :: "time \<Rightarrow> time \<Rightarrow> OutboxRow \<Rightarrow> OutboxRow \<Rightarrow> bool" where
  "settled t0 t1 x y \<longleftrightarrow> (\<exists>t e. t0 \<le> t \<and> t \<le> t1 \<and> y = settle_row (oe_float E) d t (event_of x) e x)"

lemma settled_mono: "settled t0 t1 x y \<Longrightarrow> t0' \<le> t0 \<Longrightarrow> t1 \<le> t1' \<Longrightarrow> settled t0' t1' x y"
  unfolding settled_def by (elim exE conjE) (intro exI conjI, (erule (1) order_trans)+, assumption)

lemma process_one:
  assumes "processEvent d E (event_of x) rows w = (ok, rows', w')" and "x \<in> set rows" and "ob_ProcessedAt x = None"
  shows "tm w \<le> tm w' \<and> (\<exists>t e. tm w \<le> t \<and> t \<le> tm w' \<and> rows' = settle (oe_float E) d t (event_of x) e rows)"
proof -
  obtain f w1 where f: "oe_fault E w = (f, w1)" by fastforce
  have "f = TxOk" "tm w \<le> tm w1" using fault_ok [OF f] by auto
  obtain e w2 where e: "oe_handler E (event_of x) w1 = (e, w2)" by fastforce
  obtain t w3 where t: "oe_clock E w2 = (t, w3)" by fastforce
  have "lockable (oe_locked E w1) (ev_ID (event_of x)) rows"
    using assms(2,3) by (auto simp: alone lockable_def list_ex_iff event_of_def)
  then have "rows' = settle (oe_float E) d t (event_of x) e rows" "w' = w3"
    using assms(1) by (auto simp: processEvent_def f \<open>f = TxOk\<close> e t)
  moreover have "tm w \<le> t" "t \<le> tm w3" using handler_time [OF e] clock_time [OF t] \<open>tm w \<le> tm w1\<close> by linarith+
  ultimately show ?thesis by (intro conjI exI [of _ t] exI [of _ e]) simp_all
qed

lemma process_all:
  assumes "process_events d E (map event_of xs) n rows w = (n', rows', w')"
    and "distinct (map ob_ID rows)" and "set xs \<subseteq> set rows" and "distinct xs" and "\<forall>x \<in> set xs. ob_ProcessedAt x = None"
  shows "tm w \<le> tm w' \<and> list_all2 (\<lambda>x y. if x \<in> set xs then settled (tm w) (tm w') x y else y = x) rows rows'"
  using assms
proof (induction xs arbitrary: n rows w)
  case Nil
  then show ?case by (auto intro: list_all2_refl)
next
  case (Cons x xs)
  obtain ok rows1 w1 where p: "processEvent d E (event_of x) rows w = (ok, rows1, w1)" by (metis prod_cases3)
  obtain t e where t: "tm w \<le> t" "t \<le> tm w1" and rows1: "rows1 = settle (oe_float E) d t (event_of x) e rows"
    using process_one [OF p] Cons.prems by auto
  define f where "f = (\<lambda>y. if ob_ID y = ob_ID x then settle_row (oe_float E) d t (event_of x) e y else y)"
  have rows1: "rows1 = map f rows" by (simp add: rows1 settle_def f_def event_of_def)
  have other: "ob_ID y \<noteq> ob_ID x" if "y \<in> set rows" "y \<noteq> x" for y
    using Cons.prems that by (auto simp: distinct_map inj_on_def)
  have kept: "f y = y" if "y \<in> set xs" for y
    using other that Cons.prems by (auto simp: f_def)
  have "set xs \<subseteq> set rows1" using Cons.prems kept by (force simp: rows1)
  moreover have "distinct (map ob_ID rows1)" using Cons.prems(2) by (simp add: rows1 f_def comp_def settle_None if_distrib cong: if_cong)
  moreover obtain n1 where "process_events d E (map event_of xs) n1 rows1 w1 = (n', rows', w')"
    using Cons.prems(1) p by simp
  ultimately have IH: "tm w1 \<le> tm w'" "list_all2 (\<lambda>x y. if x \<in> set xs then settled (tm w1) (tm w') x y else y = x) rows1 rows'"
    using Cons.IH Cons.prems by auto
  have "list_all2 (\<lambda>y z. if y \<in> set (x # xs) then settled (tm w) (tm w') y z else z = y) rows rows'"
  proof (rule list.rel_mono_strong [OF IH(2) [unfolded rows1 list_all2_map1]])
    fix y z
    assume y: "y \<in> set rows" and z: "if f y \<in> set xs then settled (tm w1) (tm w') (f y) z else z = f y"
    show "if y \<in> set (x # xs) then settled (tm w) (tm w') y z else z = y"
    proof (cases "y = x")
      case True
      have "ob_ID (f x) = ob_ID x" by (simp add: f_def settle_None)
      then have "f x \<notin> set xs" using other kept Cons.prems by (metis distinct.simps(2) list.set_intros(2) subset_code(1))
      then show ?thesis using z t IH(1) by (auto simp: True f_def settled_def intro!: exI [of _ t])
    next
      case False
      then have "f y = y" using other [OF y] by (simp add: f_def)
      then show ?thesis using z t settled_mono [of "tm w1" "tm w'" y z "tm w" "tm w'"] False by (auto split: if_splits)
    qed
  qed
  then show ?case using IH(1) t by auto
qed

text \<open>What a round does to the table: the rows of its batch are settled, the others are kept.\<close>

definition batch :: "time \<Rightarrow> OutboxRow list \<Rightarrow> OutboxRow list" where
  "batch now rows = take (nat (batch_size d)) (sort_key ob_CreatedAt (filter (due d now) rows))"

definition round_step :: "time \<Rightarrow> time \<Rightarrow> OutboxRow list \<Rightarrow> OutboxRow list \<Rightarrow> bool" where
  "round_step now t1 rows rows' \<longleftrightarrow>
     list_all2 (\<lambda>x y. if x \<in> set (batch now rows) then settled now t1 x y else y = x) rows rows'"

lemma batch_due: "x \<in> set (batch now rows) \<Longrightarrow> x \<in> set rows \<and> due d now x"
  by (auto simp: batch_def dest: in_set_takeD)

lemma round_rows:
  assumes "RunOnce d E rows w = (r, rows', w')" and "distinct (map ob_ID rows)"
  shows "\<exists>now. tm w \<le> now \<and> now \<le> tm w' \<and> round_step now (tm w') rows rows'"
proof -
  obtain w1 where q: "oe_query E w = (None, w1)" "tm w \<le> tm w1" by (metis query_ok surj_pair)
  obtain now w2 where c: "oe_clock E w1 = (now, w2)" by fastforce
  have sel: "select_batch d (oe_locked E w2) now rows = map event_of (batch now rows)"
    by (simp add: select_batch_def alone batch_def)
  obtain n rows2 w3 where p: "process_events d E (map event_of (batch now rows)) 0 rows w2 = (n, rows2, w3)" by (metis prod_cases3)
  have sub: "set (batch now rows) \<subseteq> set rows" using batch_due by blast
  have dist: "distinct (batch now rows)" using assms(2) by (simp add: distinct_map batch_def)
  have unproc: "\<forall>x \<in> set (batch now rows). ob_ProcessedAt x = None" using batch_due by (simp add: due_def)
  have res: "rows' = rows2" "w' = w3" using assms(1) by (auto simp: RunOnce_def q c sel p)
  note P = process_all [OF p assms(2) sub dist unproc]
  have t: "now \<le> tm w2" "tm w1 \<le> now" using clock_time [OF c] by auto
  have "round_step now (tm w') rows rows'" unfolding round_step_def
  proof (rule list.rel_mono_strong [OF conjunct2 [OF P, folded res]])
    fix x y
    assume "if x \<in> set (batch now rows) then settled (tm w2) (tm w') x y else y = x"
    then show "if x \<in> set (batch now rows) then settled now (tm w') x y else y = x"
      using settled_mono [of "tm w2" "tm w'" x y now "tm w'"] t(1) by auto
  qed
  moreover have "tm w \<le> now" "now \<le> tm w'" using t q(2) conjunct1 [OF P, folded res] by linarith+
  ultimately show ?thesis by blast
qed

lemma backoff_le:
  assumes "0 \<le> ev_Attempts ev" and "ev_Attempts ev < max_attempts d"
  shows "retry_backoff fl d ev \<le> longest_backoff d"
proof -
  let ?a = "nat (ev_Attempts ev)" and ?b = "di_BaseBackoff d"
  have "(2 :: int) ^ ?a \<le> 2 ^ nat (max_attempts d - 1)" using assms by (intro power_increasing) auto
  then have le: "?b * 2 ^ ?a \<le> longest_backoff d" unfolding longest_backoff_def by (intro mult_left_mono base(1))
  have "(2 :: int) ^ nat (max_attempts d - 1) \<le> 2 ^ nat (max_attempts d)" by (intro power_increasing) auto
  then have "longest_backoff d \<le> ?b * 2 ^ nat (max_attempts d)" unfolding longest_backoff_def by (intro mult_left_mono base(1))
  then have "\<bar>?b * 2 ^ ?a\<bar> < 2 ^ 63" using le base by simp
  then show ?thesis using assms(1) base(1,2) le by (simp add: retry_backoff_def Let_def)
qed

lemma settled_row:
  assumes "settled t0 t1 x y"
  shows "ob_ID y = ob_ID x" "ob_CreatedAt y = ob_CreatedAt x" "ob_Attempts y = ob_Attempts x + 1"
    "0 \<le> ob_Attempts x \<Longrightarrow> ob_Attempts x < max_attempts d \<Longrightarrow> ob_NextRetryAt y = Some t
       \<Longrightarrow> ob_NextRetryAt y = ob_NextRetryAt x \<or> t \<le> t1 + longest_backoff d"
  using assms backoff_le [of "event_of x" "oe_float E"]
  by (auto simp: settled_def settle_row_def time_Add_def event_of_def split: option.splits)

text \<open>A row of the batch loses an attempt, or is done.\<close>

lemma settled_left:
  assumes "settled t0 t1 x y" and "due d now x" and "ob_CreatedAt x \<le> since"
  shows "attempts_left d since y < attempts_left d since x"
  using assms settled_row(2,3) [OF assms(1)] by (auto simp: attempts_left_def due_def)

lemma step_left:
  assumes "round_step now t1 rows rows'"
  shows "left rows' \<le> left rows"
    and "x \<in> set (batch now rows) \<Longrightarrow> ob_CreatedAt x \<le> since \<Longrightarrow> left rows' < left rows"
proof -
  let ?R = "\<lambda>x y. if x \<in> set (batch now rows) then settled now t1 x y else y = x"
  have le: "attempts_left d since y \<le> attempts_left d since x" if "?R x y" for x y
  proof (cases "x \<in> set (batch now rows) \<and> ob_CreatedAt x \<le> since")
    case True
    then show ?thesis using that settled_left [of now t1 x y now] batch_due [of x now rows] by auto
  next
    case False
    then show ?thesis using that settled_row(2) [of now t1 x y] by (auto simp: attempts_left_def split: if_splits)
  qed
  have sum: "left ys \<le> left xs" if "list_all2 ?R xs ys" for xs ys
    using that by (induction rule: list_all2_induct) (use le in \<open>auto simp: left_attempts_def intro: add_mono\<close>)
  then show "left rows' \<le> left rows" using assms unfolding round_step_def by blast
  have "left ys < left xs" if "list_all2 ?R xs ys" "x \<in> set xs" "x \<in> set (batch now rows)" "ob_CreatedAt x \<le> since" for x xs ys
    using that(1,2)
  proof (induction rule: list_all2_induct)
    case (Cons a xs b ys)
    show ?case
    proof (cases "a = x")
      case True
      then have "attempts_left d since b < attempts_left d since x"
        using Cons.hyps(1) that(3,4) settled_left [of now t1 x b now] batch_due [OF that(3)] by simp
      then show ?thesis using sum [OF Cons.hyps(2)] True by (simp add: left_attempts_def)
    next
      case False
      then have "left ys < left xs" using Cons.IH Cons.prems by simp
      then show ?thesis using le [OF Cons.hyps(1)] by (simp add: left_attempts_def)
    qed
  qed simp
  then show "x \<in> set (batch now rows) \<Longrightarrow> ob_CreatedAt x \<le> since \<Longrightarrow> left rows' < left rows"
    using assms batch_due unfolding round_step_def by blast
qed

text \<open>Older events come first: when one of them is due, the batch has one of them.\<close>

lemma batch_oldest:
  assumes "x \<in> set rows" and "due d now x" and "ob_CreatedAt x \<le> since"
  shows "\<exists>y \<in> set (batch now rows). ob_CreatedAt y \<le> since"
proof -
  let ?s = "sort_key ob_CreatedAt (filter (due d now) rows)"
  have x: "x \<in> set ?s" using assms by simp
  then obtain y ys where s: "?s = y # ys" by (cases ?s) auto
  have "sorted (map ob_CreatedAt ?s)" by simp
  then have "ob_CreatedAt y \<le> ob_CreatedAt x" using x unfolding s by auto
  moreover have "0 < nat (batch_size d)" by (simp add: batch_size_def)
  then have "y \<in> set (batch now rows)" by (cases "nat (batch_size d)") (simp_all add: batch_def s)
  ultimately show ?thesis using assms(3) by (intro bexI [of _ y]) auto
qed

definition paced :: "OutboxRow list \<Rightarrow> 'w \<Rightarrow> bool" where
  "paced rows w \<longleftrightarrow> distinct (map ob_ID rows)
     \<and> (\<forall>r \<in> set rows. 0 \<le> ob_Attempts r \<and> (\<forall>t. ob_NextRetryAt r = Some t \<longrightarrow> t \<le> tm w + longest_backoff d \<or> ob_Attempts r \<ge> max_attempts d))"

text \<open>The events that have attempts left may be tried from \<open>T\<close> on.\<close>

definition soon :: "time \<Rightarrow> OutboxRow list \<Rightarrow> bool" where
  "soon T rows \<longleftrightarrow> (\<forall>r \<in> set rows. 0 < attempts_left d since r \<longrightarrow> (\<forall>t. ob_NextRetryAt r = Some t \<longrightarrow> t \<le> T))"

lemma left_pos: "0 < left rows \<longleftrightarrow> (\<exists>r \<in> set rows. 0 < attempts_left d since r)"
  by (induction rows) (auto simp: left_attempts_def)

lemma round_forall:
  assumes "round_step now t1 rows rows'" and "y \<in> set rows'"
  shows "\<exists>x \<in> set rows. if x \<in> set (batch now rows) then settled now t1 x y else y = x"
proof -
  obtain k where "k < length rows'" "y = rows' ! k" using assms(2) by (auto simp: in_set_conv_nth)
  then show ?thesis using list_all2_lengthD [OF assms(1) [unfolded round_step_def]]
      list_all2_nthD2 [OF assms(1) [unfolded round_step_def], of k] by (intro bexI [of _ "rows ! k"]) auto
qed

lemma round_IDs:
  assumes "round_step now t1 rows rows'"
  shows "map (\<lambda>r. (ob_ID r, ob_CreatedAt r)) rows' = map (\<lambda>r. (ob_ID r, ob_CreatedAt r)) rows"
  using assms unfolding round_step_def
  by (induction rule: list_all2_induct) (auto simp: settled_row(1,2) split: if_splits)

lemma round_paced:
  assumes "RunOnce d E rows w = (r, rows', w')" and "paced rows w"
  shows "paced rows' w' \<and> tm w \<le> tm w'
     \<and> map (\<lambda>r. (ob_ID r, ob_CreatedAt r)) rows' = map (\<lambda>r. (ob_ID r, ob_CreatedAt r)) rows
     \<and> left rows' \<le> left rows \<and> (soon T rows \<longrightarrow> left rows' < left rows \<or> soon T rows')
     \<and> (soon T rows \<longrightarrow> T \<le> tm w \<longrightarrow> 0 < left rows \<longrightarrow> left rows' < left rows)"
proof -
  obtain now where now: "tm w \<le> now" "now \<le> tm w'" and step: "round_step now (tm w') rows rows'"
    using round_rows [OF assms(1)] assms(2) by (auto simp: paced_def)
  have "0 \<le> ob_Attempts y \<and> (\<forall>t. ob_NextRetryAt y = Some t \<longrightarrow> t \<le> tm w' + longest_backoff d \<or> ob_Attempts y \<ge> max_attempts d)"
    if yin: "y \<in> set rows'" for y
  proof -
    obtain x where x: "x \<in> set rows" "if x \<in> set (batch now rows) then settled now (tm w') x y else y = x"
      using round_forall [OF step yin] by blast
    then have px: "0 \<le> ob_Attempts x" "ob_NextRetryAt x = Some t \<Longrightarrow> t \<le> tm w + longest_backoff d \<or> ob_Attempts x \<ge> max_attempts d" for t
      using assms(2) by (auto simp: paced_def)
    show ?thesis
    proof (cases "x \<in> set (batch now rows)")
      case True
      have y: "settled now (tm w') x y" and due: "due d now x" using x(2) True batch_due [OF True] by auto
      have "t \<le> tm w' + longest_backoff d" if "ob_NextRetryAt y = Some t" for t
      proof -
        have "ob_NextRetryAt y = ob_NextRetryAt x \<or> t \<le> tm w' + longest_backoff d"
          using settled_row(4) [OF y px(1) _ that] due by (simp add: due_def)
        moreover have "t \<le> tm w + longest_backoff d" if "ob_NextRetryAt x = Some t" using px(2) [OF that] due by (auto simp: due_def)
        ultimately show ?thesis using that now by force
      qed
      then show ?thesis using px settled_row(3) [OF y] by auto
    next
      case False
      then show ?thesis using x(2) px now by fastforce
    qed
  qed
  moreover have ids: "map (\<lambda>r. (ob_ID r, ob_CreatedAt r)) rows' = map (\<lambda>r. (ob_ID r, ob_CreatedAt r)) rows"
    by (rule round_IDs [OF step])
  moreover have "map ob_ID rows' = map ob_ID rows" using arg_cong [OF ids, of "map fst"] by (simp add: comp_def)
  moreover have "soon T rows'" if soon: "soon T rows" "\<not> left rows' < left rows"
    unfolding soon_def
  proof (intro ballI impI)
    fix y assume y: "y \<in> set rows'" "0 < attempts_left d since y"
    obtain x where x: "x \<in> set rows" "if x \<in> set (batch now rows) then settled now (tm w') x y else y = x"
      using round_forall [OF step y(1)] by blast
    have "x \<notin> set (batch now rows)"
      using step_left(2) [OF step, of x] x(2) y(2) soon(2) settled_row(2) [of now "tm w'" x y]
      by (auto simp: attempts_left_def split: if_splits)
    then show "\<forall>t. ob_NextRetryAt y = Some t \<longrightarrow> t \<le> T" using x y(2) soon(1) by (auto simp: soon_def)
  qed
  moreover have "left rows' < left rows" if soon: "soon T rows" "T \<le> tm w" "0 < left rows"
  proof -
    obtain x where x: "x \<in> set rows" "0 < attempts_left d since x" using soon(3) left_pos by blast
    then have "due d now x" using soon(1,2) now(1) by (fastforce simp: soon_def due_def attempts_left_def split: if_splits option.splits)
    moreover have "ob_CreatedAt x \<le> since" using x(2) by (simp add: attempts_left_def split: if_splits)
    ultimately show ?thesis using batch_oldest [OF x(1)] step_left(2) [OF step] by blast
  qed
  ultimately show ?thesis
    using assms(2) now step_left(1) [OF step] unfolding paced_def by (intro conjI) (blast | simp | linarith)+
qed

lemma longest_nonneg: "0 \<le> longest_backoff d"
  unfolding longest_backoff_def using base(1) by simp

lemma wait_paced:
  assumes "wait rows w = (rows1, w1)" and "paced rows w"
  shows "tm w + I \<le> tm w1 \<and> paced rows1 w1 \<and> left rows1 = left rows \<and> (soon T rows \<longrightarrow> soon T rows1)
     \<and> (\<exists>new. rows1 = rows @ new)"
proof -
  obtain new where new: "rows1 = rows @ new" "distinct (map ob_ID rows) \<longrightarrow> distinct (map ob_ID rows1)"
      "\<forall>r \<in> set new. since < ob_CreatedAt r \<and> ob_Attempts r = 0 \<and> ob_NextRetryAt r = None \<and> ob_ProcessedAt r = None"
    using wait_rows [OF assms(1)] by blast
  have zero: "attempts_left d since r = 0" if "r \<in> set new" for r
    using new(3) that by (auto simp: attempts_left_def)
  then have "left new = 0" using left_pos [of new] by auto
  then have "left rows1 = left rows" by (simp add: new(1) left_attempts_def)
  moreover have "paced rows1 w1"
    using assms(2) new wait_time [OF assms(1)] interval by (fastforce simp: paced_def)
  ultimately show ?thesis using wait_time [OF assms(1)] zero new(1) by (auto simp: soon_def)
qed

text \<open>One tick: the waiting and the round.\<close>

lemma tick_paced:
  assumes "Outbox_Run d E wait (Suc n) rows w = (rows', w')" and "paced rows w"
  shows "\<exists>rows2 w2. Outbox_Run d E wait n rows2 w2 = (rows', w') \<and> paced rows2 w2 \<and> tm w + I \<le> tm w2
     \<and> left rows2 \<le> left rows \<and> (soon T rows \<longrightarrow> left rows2 < left rows \<or> soon T rows2)
     \<and> (soon T rows \<longrightarrow> T \<le> tm w + I \<longrightarrow> 0 < left rows \<longrightarrow> left rows2 < left rows)
     \<and> (\<exists>new. map (\<lambda>r. (ob_ID r, ob_CreatedAt r)) rows2 = map (\<lambda>r. (ob_ID r, ob_CreatedAt r)) rows @ new)"
proof -
  obtain rows1 w1 where 1: "wait rows w = (rows1, w1)" by fastforce
  obtain r rows2 w2 where 2: "RunOnce d E rows1 w1 = (r, rows2, w2)" by (metis prod_cases3)
  note W = wait_paced [OF 1 assms(2), of T]
  note R = round_paced [OF 2, of T]
  show ?thesis using assms(1) W R by (intro exI [of _ rows2] exI [of _ w2]) (auto simp: 1 2)
qed

lemma run_kept:
  "Outbox_Run d E wait n rows w = (rows', w') \<Longrightarrow> paced rows w \<Longrightarrow>
     paced rows' w' \<and> left rows' \<le> left rows
     \<and> (\<exists>new. map (\<lambda>r. (ob_ID r, ob_CreatedAt r)) rows' = map (\<lambda>r. (ob_ID r, ob_CreatedAt r)) rows @ new)"
proof (induction n arbitrary: rows w)
  case (Suc n)
  obtain rows2 w2 new where 2: "Outbox_Run d E wait n rows2 w2 = (rows', w')" "paced rows2 w2" "left rows2 \<le> left rows"
      "map (\<lambda>r. (ob_ID r, ob_CreatedAt r)) rows2 = map (\<lambda>r. (ob_ID r, ob_CreatedAt r)) rows @ new"
    using tick_paced [OF Suc.prems] by blast
  show ?case using Suc.IH [OF 2(1,2)] 2(3,4) by auto
qed auto

text \<open>Enough ticks for the longest backoff use up an attempt, if any is left.\<close>

lemma run_round:
  assumes "paced rows w" and "soon T rows" and "T \<le> tm w + int (Suc n) * I" and "Outbox_Run d E wait (Suc n) rows w = (rows', w')"
  shows "left rows' \<le> left rows - 1"
  using assms
proof (induction n arbitrary: rows w)
  case 0
  obtain rows2 w2 where 2: "Outbox_Run d E wait 0 rows2 w2 = (rows', w')" "left rows2 \<le> left rows"
      "0 < left rows \<longrightarrow> left rows2 < left rows"
    using tick_paced [OF 0(4,1), of T] 0(2,3) by auto
  then show ?case by auto
next
  case (Suc n)
  obtain rows2 w2 where 2: "Outbox_Run d E wait (Suc n) rows2 w2 = (rows', w')" "paced rows2 w2" "tm w + I \<le> tm w2"
      "left rows2 \<le> left rows" "left rows2 < left rows \<or> soon T rows2"
    using tick_paced [OF Suc.prems(4,1), of T] Suc.prems(2) by blast
  from 2(5) show ?case
  proof
    assume "left rows2 < left rows"
    moreover have "left rows' \<le> left rows2" using run_kept [OF 2(1,2)] by blast
    ultimately show ?thesis by linarith
  next
    assume "soon T rows2"
    moreover have "T \<le> tm w2 + int (Suc n) * I" using Suc.prems(3) 2(3) by (simp add: algebra_simps)
    ultimately show ?thesis using Suc.IH [OF 2(2) _ _ 2(1)] 2(4) by linarith
  qed
qed

lemma run_append:
  "Outbox_Run d E wait (m + n) rows w = (case Outbox_Run d E wait m rows w of (rows', w') \<Rightarrow> Outbox_Run d E wait n rows' w')"
  by (induction m arbitrary: rows w) (auto split: prod.splits)

lemma ticks_enough: "longest_backoff d \<le> int (backoff_ticks d I) * I"
proof -
  have "int (backoff_ticks d I) = longest_backoff d div I + 1"
    using interval longest_nonneg by (simp add: backoff_ticks_def pos_imp_zdiv_nonneg_iff)
  moreover have "longest_backoff d < (longest_backoff d div I + 1) * I"
    using interval by (metis add.commute mult.commute mod_div_mult_eq distrib_right mult_1 add_less_cancel_right pos_mod_bound)
  ultimately show ?thesis by simp
qed

lemma runs_left:
  assumes "paced rows w" and "Outbox_Run d E wait (j * backoff_ticks d I) rows w = (rows', w')"
  shows "left rows' \<le> left rows - j"
  using assms(2)
proof (induction j arbitrary: rows' w')
  case (Suc j)
  obtain rows1 w1 where 1: "Outbox_Run d E wait (j * backoff_ticks d I) rows w = (rows1, w1)" by fastforce
  have 2: "Outbox_Run d E wait (backoff_ticks d I) rows1 w1 = (rows', w')"
    using Suc.prems 1 run_append [of "j * backoff_ticks d I" "backoff_ticks d I" rows w] by (simp add: add.commute)
  have p: "paced rows1 w1" using run_kept [OF 1 assms(1)] by blast
  then have "soon (tm w1 + longest_backoff d) rows1"
    by (fastforce simp: soon_def paced_def attempts_left_def split: if_splits)
  then have "left rows' \<le> left rows1 - 1"
    using run_round [OF p _ _ 2 [unfolded backoff_ticks_def]] ticks_enough by (simp add: backoff_ticks_def)
  then show ?case using Suc.IH [OF 1] by linarith
qed (use assms(1) in simp)

lemma run_drains:
  assumes "paced rows w" and "left rows * backoff_ticks d I \<le> n" and "Outbox_Run d E wait n rows w = (rows', w')"
    and "x \<in> set rows" and "ob_CreatedAt x \<le> since"
  shows "\<exists>y \<in> set rows'. ob_ID y = ob_ID x \<and> ob_CreatedAt y = ob_CreatedAt x
     \<and> (ob_ProcessedAt y \<noteq> None \<or> ob_Attempts y \<ge> max_attempts d)"
proof -
  obtain m where n: "n = left rows * backoff_ticks d I + m" using assms(2) le_Suc_ex by blast
  obtain rows1 w1 where 1: "Outbox_Run d E wait (left rows * backoff_ticks d I) rows w = (rows1, w1)" by fastforce
  have "left rows1 = 0" using runs_left [OF assms(1) 1] by simp
  moreover have 2: "Outbox_Run d E wait m rows1 w1 = (rows', w')"
    using assms(3) run_append [of "left rows * backoff_ticks d I" m rows w] by (simp add: n 1)
  ultimately have "left rows' = 0" using run_kept [OF 2] run_kept [OF 1 assms(1)] by simp
  then have none: "attempts_left d since y = 0" if "y \<in> set rows'" for y using left_pos [of rows'] that by auto
  obtain new where "map (\<lambda>r. (ob_ID r, ob_CreatedAt r)) rows' = map (\<lambda>r. (ob_ID r, ob_CreatedAt r)) rows @ new"
    using run_kept [OF assms(3,1)] by blast
  then have "(ob_ID x, ob_CreatedAt x) \<in> set (map (\<lambda>r. (ob_ID r, ob_CreatedAt r)) rows')" using assms(4) by simp
  then obtain y where "y \<in> set rows'" "ob_ID y = ob_ID x" "ob_CreatedAt y = ob_CreatedAt x" by auto
  then show ?thesis using none [of y] assms(5) by (intro bexI [of _ y]) (auto simp: attempts_left_def split: if_splits)
qed

end

text \<open>
  C34: the only dispatcher of a database that answers gets every event done, however many events are in the table and
  however many producers add while it runs: an event has been accepted by the handler or has used up its attempts after as many times the
  ticks that cover the longest backoff as the events created no later than it have attempts left.
\<close>

theorem outbox_drains:
  assumes "sole_dispatcher d E wait tm I since" and "distinct (map ob_ID rows)"
    and "\<forall>r \<in> set rows. 0 \<le> ob_Attempts r \<and> (\<forall>t. ob_NextRetryAt r = Some t \<longrightarrow> t \<le> tm w + longest_backoff d)"
    and "x \<in> set rows" and "ob_CreatedAt x \<le> since"
    and "left_attempts d since rows * backoff_ticks d I \<le> n"
    and "Outbox_Run d E wait n rows w = (rows', w')"
  shows "\<exists>y \<in> set rows'. ob_ID y = ob_ID x \<and> (ob_ProcessedAt y \<noteq> None \<or> ob_Attempts y \<ge> max_attempts d)"
proof -
  have "sole_dispatcher.paced d tm rows w"
    using assms(2,3) by (auto simp: sole_dispatcher.paced_def [OF assms(1)])
  from sole_dispatcher.run_drains [OF assms(1) this assms(6,7,4,5)] show ?thesis by blast
qed

end
