(* ===== verification/CloseRequest.thy ===== *)
theory CloseRequest
  imports Outbox Engine PositionRepo
begin

text \<open>
  The way of a manual close from the Mini App to the engine: \<open>LockingCloseRequester\<close> of \<open>internal/app\<close> (\<open>providers.go\<close>)
  writes an audit entry and an outbox event in one transaction; the worker process (\<open>cmd/worker/main.go\<close>) runs a
  dispatcher whose handler passes the event to the engine.
\<close>

section \<open>The request is written\<close>

record CloseRequestPayload =
  crp_PositionID :: string
  crp_Reason :: string

definition close_shape :: shape where
  "close_shape = ShStruct [(''positionId'', ShStr), (''reason'', ShStr)]"

definition payload_json :: "CloseRequestPayload \<Rightarrow> json" where
  "payload_json p = JObj [(''positionId'', JStr (crp_PositionID p)), (''reason'', JStr (crp_Reason p))]"

definition close_payload :: "string \<Rightarrow> CloseRequestPayload" where
  "close_payload positionID = \<lparr>crp_PositionID = positionID, crp_Reason = ''operator request via Mini App''\<rparr>"

datatype close_stmt = AuditStmt auditRow | OutboxStmt string string json

record 'w close_pool =
  cl_Begin :: "'w \<Rightarrow> db_error option \<times> 'w"
  cl_Exec :: "close_stmt \<Rightarrow> 'w \<Rightarrow> db_error option \<times> 'w"
  cl_Commit :: "'w \<Rightarrow> db_error option \<times> 'w"
  cl_Rollback :: "'w \<Rightarrow> 'w"

definition close_audit :: "string \<Rightarrow> auditRow" where
  "close_audit positionID = \<lparr>au_actor = ''user:miniapp'', au_action = ''REQUEST_CLOSE'', au_correlation = non_empty positionID,
     au_params = [(''position_id'', positionID)], au_result = ''queued''\<rparr>"

text \<open>The deferred rollback runs on every path; after a commit it does nothing.\<close>

definition App_RequestClose :: "'w close_pool \<Rightarrow> string \<Rightarrow> 'w \<Rightarrow> db_error option \<times> 'w" where
  "App_RequestClose P positionID w =
     (case cl_Begin P w of
        (Some e, w1) \<Rightarrow> (Some e, w1)
      | (None, w1) \<Rightarrow>
     (case cl_Exec P (AuditStmt (close_audit positionID)) w1 of
        (Some e, w2) \<Rightarrow> (Some e, cl_Rollback P w2)
      | (None, w2) \<Rightarrow>
     (case cl_Exec P (OutboxStmt ''position'' ''close_request'' (payload_json (close_payload positionID))) w2 of
        (Some e, w3) \<Rightarrow> (Some e, cl_Rollback P w3)
      | (None, w3) \<Rightarrow> (case cl_Commit P w3 of (r, w4) \<Rightarrow> (r, cl_Rollback P w4)))))"

text \<open>What a committed transaction does to the two tables; the database chooses identifier and time of an event.\<close>

inductive close_applied ::
  "close_stmt list \<Rightarrow> OutboxRow list \<times> auditRow list \<Rightarrow> OutboxRow list \<times> auditRow list \<Rightarrow> bool" where
  no_stmt: "close_applied [] T T"
| audit_stmt: "close_applied ss (rows, audit @ [a]) T \<Longrightarrow> close_applied (AuditStmt a # ss) (rows, audit) T"
| outbox_stmt: "i \<notin> ob_ID ` set rows \<Longrightarrow> close_applied ss (EnqueueTx topic kind payload i now rows, audit) T
     \<Longrightarrow> close_applied (OutboxStmt topic kind payload # ss) (rows, audit) T"

inductive_simps close_applied_simps [simp]:
  "close_applied [] T T'" "close_applied (AuditStmt a # ss) T T'" "close_applied (OutboxStmt topic kind payload # ss) T T'"

locale close_store =
  fixes P :: "'w close_pool" and tables :: "'w \<Rightarrow> OutboxRow list \<times> auditRow list" and pending :: "'w \<Rightarrow> close_stmt list"
  assumes begin_ok: "cl_Begin P w = (r, w') \<Longrightarrow> tables w' = tables w \<and> (r = None \<longrightarrow> pending w' = [])"
    and exec_ok: "cl_Exec P s w = (r, w') \<Longrightarrow> tables w' = tables w \<and> (r = None \<longrightarrow> pending w' = pending w @ [s])"
    and commit_ok: "cl_Commit P w = (None, w') \<Longrightarrow> close_applied (pending w) (tables w) (tables w')"
    and commit_lost: "cl_Commit P w = (Some e, w') \<Longrightarrow> tables w' = tables w \<or> close_applied (pending w) (tables w) (tables w')"
    and rollback: "tables (cl_Rollback P w) = tables w"
begin

lemma RequestClose_applied:
  assumes "App_RequestClose P i w = (r, w')"
  defines "stmts \<equiv> [AuditStmt (close_audit i), OutboxStmt ''position'' ''close_request'' (payload_json (close_payload i))]"
  shows "(r = None \<longrightarrow> close_applied stmts (tables w) (tables w'))
     \<and> (r \<noteq> None \<longrightarrow> tables w' = tables w \<or> close_applied stmts (tables w) (tables w'))"
proof -
  obtain r1 w1 where b: "cl_Begin P w = (r1, w1)" by fastforce
  obtain r2 w2 where a: "cl_Exec P (AuditStmt (close_audit i)) w1 = (r2, w2)" by fastforce
  obtain r3 w3 where ev: "cl_Exec P (OutboxStmt ''position'' ''close_request'' (payload_json (close_payload i))) w2 = (r3, w3)" by fastforce
  obtain r4 w4 where c: "cl_Commit P w3 = (r4, w4)" by fastforce
  note B = begin_ok [OF b] and A = exec_ok [OF a] and EV = exec_ok [OF ev]
  show ?thesis
  proof (cases "r1 = None \<and> r2 = None \<and> r3 = None")
    case True
    then have "tables w3 = tables w" "pending w3 = stmts" using B A EV by (simp_all add: stmts_def)
    then show ?thesis using True commit_ok [of w3 w4] commit_lost [of w3 _ w4] c assms(1)
      by (cases r4) (auto simp: App_RequestClose_def b a ev rollback)
  next
    case False
    then have "r \<noteq> None \<and> tables w' = tables w"
      using assms(1) B A EV by (auto simp: App_RequestClose_def b a ev rollback split: option.splits)
    then show ?thesis by blast
  qed
qed

end

section \<open>The worker delivers it\<close>

text \<open>The handler of the dispatcher.  The payload is the value of its column, read as \<open>json.Unmarshal\<close> reads its text.\<close>

definition worker_handler :: "Event \<Rightarrow> Engine \<Rightarrow> string option \<times> Engine" where
  "worker_handler ev en =
     (if ev_Topic ev = ''position'' \<and> ev_Kind ev = ''close_request''
      then (case decode close_shape (zero_value close_shape) (ev_Payload ev) of
              None \<Rightarrow> (Some ''bad close_request payload'', en)
            | Some p \<Rightarrow> (None, RequestClose (js_str p ''positionId'') (js_str p ''reason'') en))
      else (None, en))"

definition worker_dispatcher :: Dispatcher where
  "worker_dispatcher = NewDispatcher 8 (2 * Second)"

text \<open>
  The worker: its engine, the positions that were in the engine's table of requests after some call of the handler, and the database
  and clock it runs against.
\<close>

record 'w worker =
  wk_engine :: Engine
  wk_seen :: "string set"
  wk_base :: 'w

definition on_base :: "('w \<Rightarrow> 'a \<times> 'w) \<Rightarrow> 'w worker \<Rightarrow> 'a \<times> 'w worker" where
  "on_base f k = (case f (wk_base k) of (r, b) \<Rightarrow> (r, k\<lparr>wk_base := b\<rparr>))"

definition worker_env :: "'w outbox_env \<Rightarrow> 'w worker outbox_env" where
  "worker_env B = \<lparr>
     oe_handler = (\<lambda>ev k. case worker_handler ev (wk_engine k) of
        (e, en) \<Rightarrow> (e, k\<lparr>wk_engine := en, wk_seen := wk_seen k \<union> dom (en_closeReq en)\<rparr>)),
     oe_clock = on_base (oe_clock B), oe_query = on_base (oe_query B), oe_fault = on_base (oe_fault B),
     oe_locked = (\<lambda>k. oe_locked B (wk_base k)), oe_float = oe_float B\<rparr>"

definition close_event :: "string \<Rightarrow> OutboxRow \<Rightarrow> bool" where
  "close_event i r \<longleftrightarrow> ob_Topic r = ''position'' \<and> ob_Kind r = ''close_request'' \<and> ob_Payload r = payload_json (close_payload i)"

definition requested :: "'w worker \<Rightarrow> string set" where
  "requested k = dom (en_closeReq (wk_engine k))"

lemma close_payload_reads:
  "decode close_shape (zero_value close_shape) (payload_json (close_payload i))
     = Some (JObj [(''positionId'', JStr i), (''reason'', JStr ''operator request via Mini App'')])"
  by (simp add: payload_json_def close_payload_def close_shape_def field_for_def to_lower_def to_lower_char_def
      decode_scalar_def)

text \<open>
  The event of the request with the identifier \<open>j\<close> is untouched, or processed after the engine had the request.  Every step of a
  dispatcher keeps this, whatever fails.
\<close>

definition carried :: "string \<Rightarrow> int \<Rightarrow> OutboxRow list \<Rightarrow> 'w worker \<Rightarrow> bool" where
  "carried i j rows k \<longleftrightarrow> (\<forall>y \<in> set rows. ob_ID y = j \<longrightarrow> close_event i y
     \<and> (case ob_ProcessedAt y of None \<Rightarrow> ob_Attempts y = 0 | Some t \<Rightarrow> i \<in> wk_seen k))"

lemma carried_mono: "carried i j rows k \<Longrightarrow> wk_seen k \<subseteq> wk_seen k' \<Longrightarrow> carried i j rows k'"
  by (auto simp: carried_def split: option.splits)

lemma on_base_seen: "on_base f k = (r, k') \<Longrightarrow> wk_seen k' = wk_seen k"
  by (auto simp: on_base_def split: prod.splits)

lemma carried_settle:
  assumes "carried i j rows k" and "ev_ID ev = j \<longrightarrow> handlerErr = None \<and> i \<in> wk_seen k"
  shows "carried i j (settle fl d t ev handlerErr rows) k"
  unfolding carried_def
proof (intro ballI impI)
  fix y
  assume "y \<in> set (settle fl d t ev handlerErr rows)" and y: "ob_ID y = j"
  then obtain x where x: "x \<in> set rows" "y = (if ob_ID x = ev_ID ev then settle_row fl d t ev handlerErr x else x)"
    by (auto simp: settle_def)
  then have "ob_ID x = j" using y by (simp add: settle_None split: if_splits)
  then have X: "close_event i x" "case ob_ProcessedAt x of None \<Rightarrow> ob_Attempts x = 0 | Some t \<Rightarrow> i \<in> wk_seen k"
    using assms(1) x(1) by (auto simp: carried_def)
  show "close_event i y \<and> (case ob_ProcessedAt y of None \<Rightarrow> ob_Attempts y = 0 | Some t \<Rightarrow> i \<in> wk_seen k)"
  proof (cases "ob_ID x = ev_ID ev")
    case True
    then have "handlerErr = None" "i \<in> wk_seen k" using assms(2) \<open>ob_ID x = j\<close> by simp_all
    then show ?thesis using X(1) True by (simp add: x(2) settle_row_def close_event_def)
  next
    case False
    then have "y = x" using x(2) by simp
    then show ?thesis using X by blast
  qed
qed

definition event_asks :: "string \<Rightarrow> int \<Rightarrow> Event \<Rightarrow> bool" where
  "event_asks i j ev \<longleftrightarrow> (ev_ID ev = j \<longrightarrow> ev_Topic ev = ''position'' \<and> ev_Kind ev = ''close_request''
     \<and> ev_Payload ev = payload_json (close_payload i))"

lemma handler_asks:
  assumes "oe_handler (worker_env B) ev k = (e, k')" and "event_asks i j ev"
  shows "wk_seen k \<subseteq> wk_seen k' \<and> (ev_ID ev = j \<longrightarrow> e = None \<and> i \<in> wk_seen k')"
proof -
  obtain e' en where h: "worker_handler ev (wk_engine k) = (e', en)" by fastforce
  have "e' = None \<and> i \<in> dom (en_closeReq en)" if "ev_ID ev = j"
    using h that assms(2) close_payload_reads [of i]
    by (auto simp: worker_handler_def event_asks_def RequestClose_def Let_def js_str_def)
  then show ?thesis using assms(1) by (auto simp: worker_env_def h)
qed

lemma worker_process:
  assumes "processEvent d (worker_env B) ev rows k = (ok, rows', k')" and "event_asks i j ev" and "carried i j rows k"
  shows "carried i j rows' k'"
proof -
  obtain f k1 where f: "oe_fault (worker_env B) k = (f, k1)" by fastforce
  obtain e k2 where h: "oe_handler (worker_env B) ev k1 = (e, k2)" by fastforce
  obtain t k3 where c: "oe_clock (worker_env B) k2 = (t, k3)" by fastforce
  have "wk_seen k1 = wk_seen k" "wk_seen k3 = wk_seen k2"
    using f c on_base_seen by (fastforce simp: worker_env_def)+
  then have C: "carried i j rows k1" "carried i j rows k3" "ev_ID ev = j \<longrightarrow> e = None \<and> i \<in> wk_seen k3"
    using handler_asks [OF h assms(2)] assms(3) carried_mono by blast+
  show ?thesis
  proof (cases "rows' = rows")
    case True
    then show ?thesis using assms(1) C(1,2) by (auto simp: processEvent_def f h c split: if_splits tx_fault.splits)
  next
    case False
    then have "rows' = settle (oe_float (worker_env B)) d t ev e rows" "k' = k3"
      using assms(1) by (auto simp: processEvent_def f h c split: if_splits tx_fault.splits)
    then show ?thesis using carried_settle [OF C(2,3)] by simp
  qed
qed

lemma worker_processes:
  "process_events d (worker_env B) evs n rows k = (n', rows', k') \<Longrightarrow> list_all (event_asks i j) evs \<Longrightarrow> carried i j rows k
     \<Longrightarrow> carried i j rows' k'"
proof (induction evs arbitrary: n rows k)
  case (Cons ev evs)
  obtain ok rows1 k1 where p: "processEvent d (worker_env B) ev rows k = (ok, rows1, k1)" by (metis prod_cases3)
  show ?case using Cons.IH [of _ rows1 k1] worker_process [OF p _ Cons.prems(3)] Cons.prems(1,2) p by simp
qed auto

lemma worker_round:
  assumes "RunOnce d (worker_env B) rows k = (r, rows', k')" and "carried i j rows k"
  shows "carried i j rows' k'"
proof -
  obtain q k1 where q: "oe_query (worker_env B) k = (q, k1)" by fastforce
  obtain now k2 where c: "oe_clock (worker_env B) k1 = (now, k2)" by fastforce
  obtain n rows2 k3 where p: "process_events d (worker_env B) (select_batch d (oe_locked (worker_env B) k2) now rows) 0 rows k2
      = (n, rows2, k3)" by (metis prod_cases3)
  have seen: "wk_seen k1 = wk_seen k" "wk_seen k2 = wk_seen k1"
    using q c on_base_seen by (fastforce simp: worker_env_def)+
  have asked: "list_all (event_asks i j) (select_batch d L now rows)" for L
    using assms(2) by (auto simp: list_all_iff select_batch_def event_asks_def carried_def close_event_def event_of_def dest!: in_set_takeD)
  show ?thesis
  proof (cases q)
    case None
    then show ?thesis using assms(1) worker_processes [OF p asked carried_mono [OF assms(2)]] seen by (simp add: RunOnce_def q c p)
  next
    case (Some e)
    then have "rows' = rows" "wk_seen k' = wk_seen k" using assms(1) seen by (auto simp: RunOnce_def q)
    then show ?thesis using carried_mono [OF assms(2), of k'] by simp
  qed
qed

text \<open>Producers add events of other identifiers; what the engine does between two ticks does not take back that it had a request.\<close>

definition carrying_wait :: "(OutboxRow list \<Rightarrow> 'w worker \<Rightarrow> OutboxRow list \<times> 'w worker) \<Rightarrow> bool" where
  "carrying_wait wait \<longleftrightarrow> (\<forall>rows k. wk_seen k \<subseteq> wk_seen (snd (wait rows k)))"

lemma worker_run:
  assumes "sole_dispatcher d (worker_env B) wait tm I since" and "carrying_wait wait"
  shows "Outbox_Run d (worker_env B) wait n rows k = (rows', k') \<Longrightarrow> sole_dispatcher.paced d tm rows k \<Longrightarrow> j \<in> ob_ID ` set rows
     \<Longrightarrow> carried i j rows k \<Longrightarrow> carried i j rows' k'"
proof (induction n arbitrary: rows k)
  case (Suc n)
  obtain rows1 k1 where w: "wait rows k = (rows1, k1)" by fastforce
  obtain r rows2 k2 where o: "RunOnce d (worker_env B) rows1 k1 = (r, rows2, k2)" by (metis prod_cases3)
  obtain new where new: "rows1 = rows @ new" and p1: "sole_dispatcher.paced d tm rows1 k1"
    using sole_dispatcher.wait_paced [OF assms(1) w Suc.prems(2)] by blast
  have p2: "sole_dispatcher.paced d tm rows2 k2" "map (\<lambda>r. (ob_ID r, ob_CreatedAt r)) rows2 = map (\<lambda>r. (ob_ID r, ob_CreatedAt r)) rows1"
    using sole_dispatcher.round_paced [OF assms(1) o p1] by blast+
  have "distinct (map ob_ID rows1)" using p1 by (simp add: sole_dispatcher.paced_def [OF assms(1)])
  then have "j \<notin> ob_ID ` set new" using Suc.prems(3) by (auto simp: new)
  then have "carried i j rows1 k"  using Suc.prems(4) by (auto simp: carried_def new)
  moreover have "wk_seen k \<subseteq> wk_seen k1" using assms(2) w unfolding carrying_wait_def by (metis snd_conv)
  ultimately have "carried i j rows2 k2" using worker_round [OF o] carried_mono by blast
  moreover have "map ob_ID rows2 = map ob_ID rows1" using arg_cong [OF p2(2), of "map fst"] by (simp add: comp_def)
  then have "j \<in> ob_ID ` set rows2" using Suc.prems(3) by (metis Un_iff image_Un new set_append set_map)
  ultimately show ?case using Suc.IH [OF _ p2(1)] Suc.prems(1) by (simp add: w o)
qed simp

text \<open>
  C35: when the Mini App is told that a close request was accepted, the request and its audit entry are
  stored; and when the worker of the position's engine is the only dispatcher and its database answers, then, whatever else is in the table
  and however many events producers add, the engine is handed the request and its event is marked as processed within as
  many times the ticks that cover the longest backoff as the events in the table have attempts left.
\<close>

theorem close_request_delivered:
  assumes "close_store P tables pending" and "App_RequestClose P i w = (None, w')"
    and "sole_dispatcher worker_dispatcher (worker_env B) wait tm I since" and "carrying_wait wait"
    and "distinct (map ob_ID (fst (tables w)))" and "\<forall>r \<in> set (fst (tables w')). ob_CreatedAt r \<le> since"
    and "\<forall>r \<in> set (fst (tables w)). 0 \<le> ob_Attempts r \<and> (\<forall>t. ob_NextRetryAt r = Some t \<longrightarrow> t \<le> tm k + longest_backoff worker_dispatcher)"
    and "left_attempts worker_dispatcher since (fst (tables w')) * backoff_ticks worker_dispatcher I \<le> n"
    and "Outbox_Run worker_dispatcher (worker_env B) wait n (fst (tables w')) k = (rows, k')"
  shows "snd (tables w') = snd (tables w) @ [close_audit i] \<and> i \<in> wk_seen k'
     \<and> (\<exists>y \<in> set rows. ob_ID y \<notin> ob_ID ` set (fst (tables w)) \<and> close_event i y \<and> ob_ProcessedAt y \<noteq> None)"
proof -
  obtain j now where j: "j \<notin> ob_ID ` set (fst (tables w))" and audit: "snd (tables w') = snd (tables w) @ [close_audit i]"
    and t: "fst (tables w') = EnqueueTx ''position'' ''close_request'' (payload_json (close_payload i)) j now (fst (tables w))"
    using close_store.RequestClose_applied [OF assms(1,2)] by (cases "tables w") auto
  define x where "x = last (fst (tables w'))"
  have x: "x \<in> set (fst (tables w'))" "ob_ID x = j" by (simp_all add: x_def t EnqueueTx_def)
  have paced: "sole_dispatcher.paced worker_dispatcher tm (fst (tables w')) k"
    using assms(5,7) j by (auto simp: sole_dispatcher.paced_def [OF assms(3)] t EnqueueTx_def)
  have "carried i j (fst (tables w')) k" using j by (auto simp: carried_def t EnqueueTx_def close_event_def)
  then have C: "carried i j rows k'" using worker_run [OF assms(3,4,9) paced] x by blast
  have "ob_CreatedAt x \<le> since" using assms(6) x(1) by blast
  then obtain y where y: "y \<in> set rows" "ob_ID y = j" "ob_ProcessedAt y \<noteq> None \<or> ob_Attempts y \<ge> max_attempts worker_dispatcher"
    using sole_dispatcher.run_drains [OF assms(3) paced assms(8,9) x(1)] x(2) by blast
  have "max_attempts worker_dispatcher > 0" by (simp add: max_attempts_def)
  then have "close_event i y" "ob_ProcessedAt y \<noteq> None" "i \<in> wk_seen k'"
    using C y by (auto simp: carried_def split: option.splits)
  then show ?thesis using j audit y(1,2) by blast
qed

text \<open>
  a request that was delivered is in the memory of the worker only: when the process stops before the
  engine has served it, the new engine starts without it, and no number of further ticks hands the event over again.
\<close>

theorem close_request_lost:
  assumes "\<forall>y \<in> set rows. ob_ProcessedAt y \<noteq> None" and "wk_engine k = fst (Engine_New cfg)"
    and "Outbox_Run worker_dispatcher (worker_env B) (\<lambda>rows k. (rows, k\<lparr>wk_base := pass (wk_base k)\<rparr>)) n rows k = (rows', k')"
  shows "rows' = rows \<and> requested k' = {}"
proof -
  have "filter (due worker_dispatcher t) rows = []" for t using assms(1) by (auto simp: due_def filter_empty_conv)
  then have sel: "select_batch worker_dispatcher L t rows = []" for L t by (simp add: select_batch_def)
  have once: "fst (snd (RunOnce worker_dispatcher (worker_env B) rows k)) = rows
      \<and> wk_engine (snd (snd (RunOnce worker_dispatcher (worker_env B) rows k))) = wk_engine k" for k
    by (auto simp: RunOnce_def worker_env_def sel on_base_def split: prod.splits option.splits)
  have "rows' = rows \<and> wk_engine k' = wk_engine k" using assms(3)
  proof (induction n arbitrary: k)
    case (Suc n)
    let ?k = "k\<lparr>wk_base := pass (wk_base k)\<rparr>"
    obtain r rows2 k2 where o: "RunOnce worker_dispatcher (worker_env B) rows ?k = (r, rows2, k2)" by (metis prod_cases3)
    then have "rows2 = rows" "wk_engine k2 = wk_engine k" using once [of ?k] by auto
    then show ?case using Suc.IH [of k2] Suc.prems o by simp
  qed auto
  then show ?thesis by (simp add: requested_def assms(2) Engine_New_def)
qed

section \<open>Examples\<close>

text \<open>An in-memory database of the two tables.\<close>

record cdb =
  cdb_rows :: "OutboxRow list"
  cdb_audit :: "auditRow list"
  cdb_pending :: "close_stmt list"

definition cdb_id :: "OutboxRow list \<Rightarrow> int" where
  "cdb_id rows = 1 + Max (insert 0 (ob_ID ` set rows))"

fun cdb_apply :: "close_stmt list \<Rightarrow> cdb \<Rightarrow> cdb" where
  "cdb_apply [] c = c"
| "cdb_apply (AuditStmt a # ss) c = cdb_apply ss (c\<lparr>cdb_audit := cdb_audit c @ [a]\<rparr>)"
| "cdb_apply (OutboxStmt topic kind payload # ss) c =
     cdb_apply ss (c\<lparr>cdb_rows := EnqueueTx topic kind payload (cdb_id (cdb_rows c)) 0 (cdb_rows c)\<rparr>)"

definition cdb_pool :: "cdb close_pool" where
  "cdb_pool = \<lparr>cl_Begin = (\<lambda>c. (None, c\<lparr>cdb_pending := []\<rparr>)), cl_Exec = (\<lambda>s c. (None, c\<lparr>cdb_pending := cdb_pending c @ [s]\<rparr>)),
     cl_Commit = (\<lambda>c. (None, cdb_apply (cdb_pending c) c)), cl_Rollback = (\<lambda>c. c)\<rparr>"

lemma cdb_id_new: "cdb_id rows \<notin> ob_ID ` set rows"
proof
  assume "cdb_id rows \<in> ob_ID ` set rows"
  then have "cdb_id rows \<le> Max (insert 0 (ob_ID ` set rows))" by (intro Max_ge) auto
  then show False by (simp add: cdb_id_def)
qed

lemma cdb_applied: "close_applied ss (cdb_rows c, cdb_audit c) (cdb_rows (cdb_apply ss c), cdb_audit (cdb_apply ss c))"
proof (induction ss c rule: cdb_apply.induct)
  case (3 topic kind payload ss c)
  then show ?case using cdb_id_new [of "cdb_rows c"] by (auto intro: close_applied.intros)
qed auto

interpretation cdb: close_store cdb_pool "\<lambda>c. (cdb_rows c, cdb_audit c)" cdb_pending
  by unfold_locales (auto simp: cdb_pool_def cdb_applied)

definition example_cdb :: cdb where
  "example_cdb = \<lparr>cdb_rows = [], cdb_audit = [], cdb_pending = []\<rparr>"

text \<open>
  A worker whose database answers, with a clock that moves by a millisecond; between two ticks another event is added.
\<close>

definition example_base :: "time outbox_env" where
  "example_base = \<lparr>oe_handler = (\<lambda>ev b. (None, b)), oe_clock = (\<lambda>b. (b, b + Millisecond)), oe_query = (\<lambda>b. (None, b)),
     oe_fault = (\<lambda>b. (TxOk, b)), oe_locked = (\<lambda>b. {}), oe_float = (\<lambda>b a. 0)\<rparr>"

definition busy_wait :: "time \<Rightarrow> OutboxRow list \<Rightarrow> time worker \<Rightarrow> OutboxRow list \<times> time worker" where
  "busy_wait since rows k =
     (EnqueueTx ''position'' ''close_request'' (payload_json (close_payload ''P2'')) (cdb_id rows) (max since (wk_base k) + 1) rows,
      k\<lparr>wk_base := wk_base k + 2 * Second\<rparr>)"

lemma worker_dispatcher_simps [simp]:
  "max_attempts worker_dispatcher = 8" "di_BaseBackoff worker_dispatcher = 2 * Second" "batch_size worker_dispatcher = 100"
  by (simp_all add: max_attempts_def batch_size_def worker_dispatcher_def NewDispatcher_def)

interpretation worker: sole_dispatcher worker_dispatcher "worker_env example_base" "busy_wait since" wk_base "2 * Second" since
  for since :: time
proof (unfold_locales, goal_cases)
  case (7 rows w rows' w')
  then show ?case using cdb_id_new [of rows] by (auto simp: busy_wait_def EnqueueTx_def)
qed (auto simp: worker_env_def example_base_def on_base_def busy_wait_def split: prod.splits)

definition example_worker :: "time worker" where
  "example_worker = \<lparr>wk_engine = \<lparr>en_open = [], en_closeReq = Map.empty, en_seq = 0, en_lastNotif = Map.empty\<rparr>,
     wk_seen = {}, wk_base = 0\<rparr>"

theorem close_request_delivered_witness:
  "\<exists>w' rows k'. App_RequestClose cdb_pool ''P1'' example_cdb = (None, w')
     \<and> Outbox_Run worker_dispatcher (worker_env example_base) (busy_wait 5) (8 * 129) (cdb_rows w') example_worker = (rows, k')
     \<and> ''P1'' \<in> wk_seen k'"
proof -
  obtain r w' where 1: "App_RequestClose cdb_pool ''P1'' example_cdb = (r, w')" by fastforce
  have "r = None" using 1 by (auto simp: App_RequestClose_def cdb_pool_def)
  have rows: "cdb_rows w' = EnqueueTx ''position'' ''close_request'' (payload_json (close_payload ''P1'')) 1 0 []"
    using 1 by (auto simp: App_RequestClose_def cdb_pool_def example_cdb_def cdb_id_def)
  obtain rows k' where 2: "Outbox_Run worker_dispatcher (worker_env example_base) (busy_wait 5) (8 * 129) (cdb_rows w') example_worker
      = (rows, k')" by fastforce
  have "left_attempts worker_dispatcher 5 (cdb_rows w') * backoff_ticks worker_dispatcher (2 * Second) \<le> 8 * 129"
    by (simp add: rows left_attempts_def attempts_left_def EnqueueTx_def backoff_ticks_def longest_backoff_def)
  moreover have "carrying_wait (busy_wait 5)" by (simp add: carrying_wait_def busy_wait_def)
  ultimately have "''P1'' \<in> wk_seen k'"
    using close_request_delivered [OF cdb.close_store_axioms 1 [unfolded \<open>r = None\<close>] worker.sole_dispatcher_axioms, of 5 example_worker] 2
    by (simp add: rows EnqueueTx_def example_cdb_def)
  then show ?thesis using 1 2 \<open>r = None\<close> by auto
qed

theorem close_request_lost_witness:
  "requested (snd (Outbox_Run worker_dispatcher (worker_env example_base) (\<lambda>rows k. (rows, k\<lparr>wk_base := wk_base k + 1\<rparr>)) 7
     [\<lparr>ob_ID = 1, ob_Topic = ''position'', ob_Kind = ''close_request'', ob_Payload = payload_json (close_payload ''P1''),
       ob_Attempts = 1, ob_CreatedAt = 0, ob_ProcessedAt = Some 5, ob_LastError = None, ob_NextRetryAt = None\<rparr>]
     \<lparr>wk_engine = fst (Engine_New example_engine_config), wk_seen = {}, wk_base = 9\<rparr>)) = {}"
  (is "requested (snd (Outbox_Run _ _ _ _ ?rows ?k)) = {}")
proof -
  obtain rows' k' where run: "Outbox_Run worker_dispatcher (worker_env example_base) (\<lambda>rows k. (rows, k\<lparr>wk_base := wk_base k + 1\<rparr>)) 7 ?rows ?k
      = (rows', k')" by fastforce
  have "\<forall>y \<in> set ?rows. ob_ProcessedAt y \<noteq> None" "wk_engine ?k = fst (Engine_New example_engine_config)" by simp_all
  from close_request_lost [OF this run] show ?thesis by (simp only: run snd_conv)
qed

theorem outbox_drains_witness:
  "list_ex (\<lambda>r. ob_ID r = 1 \<and> \<not> (ob_ProcessedAt r = None \<and> ob_Attempts r < 8))
     (fst (Outbox_Run worker_dispatcher (worker_env example_base) (busy_wait 5) (8 * 129)
       (EnqueueTx ''position'' ''close_request'' JNull 1 0 []) example_worker))"
proof -
  let ?rows = "EnqueueTx ''position'' ''close_request'' JNull 1 0 []"
  obtain rows' w' where run: "Outbox_Run worker_dispatcher (worker_env example_base) (busy_wait 5) (8 * 129) ?rows example_worker
      = (rows', w')" by fastforce
  have "left_attempts worker_dispatcher 5 ?rows * backoff_ticks worker_dispatcher (2 * Second) \<le> 8 * 129"
    by (simp add: left_attempts_def attempts_left_def EnqueueTx_def backoff_ticks_def longest_backoff_def)
  from outbox_drains [OF worker.sole_dispatcher_axioms _ _ _ _ this run, of "hd ?rows"]
  have "\<exists>y \<in> set rows'. ob_ID y = 1 \<and> (ob_ProcessedAt y \<noteq> None \<or> ob_Attempts y \<ge> 8)" by (simp add: EnqueueTx_def)
  then show ?thesis by (simp only: run fst_conv) (auto simp: list_ex_iff)
qed

end
