(* ===== verification/GoAead.thy ===== *)
theory GoAead
  imports GoUrl GoCrypto
begin

text \<open>
  The parts of \<open>crypto/aes\<close> and \<open>crypto/cipher\<close> the program uses: the AES block cipher for keys of 16, 24 and 32 bytes as in
  FIPS 197, and Galois/Counter Mode with 12-byte nonces and 16-byte tags as in NIST SP 800-38D.

  Bytes are characters outside and \<open>8 word\<close>s inside; a state is its 16 bytes, column after column.  The S-box is computed from
  the inverse in the field of 256 elements.
\<close>

type_synonym byte = "8 word"

definition to_bytes :: "string \<Rightarrow> byte list" where
  "to_bytes s = map of_char s"

definition from_bytes :: "byte list \<Rightarrow> string" where
  "from_bytes bs = map (\<lambda>b. char_of (unat b)) bs"

section \<open>AES\<close>

definition xtime :: "byte \<Rightarrow> byte" where
  "xtime b = (if bit b 7 then push_bit 1 b XOR 27 else push_bit 1 b)"

text \<open>The product of two field elements, by the bits of the second.\<close>

fun gf_mult :: "nat \<Rightarrow> byte \<Rightarrow> byte \<Rightarrow> byte" where
  "gf_mult 0 a b = 0"
| "gf_mult (Suc n) a b = (if bit b 0 then a else 0) XOR gf_mult n (xtime a) (drop_bit 1 b)"

definition gf_times :: "byte \<Rightarrow> byte \<Rightarrow> byte" where
  "gf_times a b = gf_mult 8 a b"

text \<open>\<open>b\<close> to the power 254, which is the inverse of \<open>b\<close>, and 0 for 0.\<close>

definition gf_inverse :: "byte \<Rightarrow> byte" where
  "gf_inverse b =
     (let sq = \<lambda>x. gf_times x x; b2 = sq b; b3 = gf_times b2 b; b12 = sq (sq b3); b14 = gf_times b12 b2;
          b15 = gf_times b12 b3; b240 = sq (sq (sq (sq b15)))
      in gf_times b240 b14)"

definition rot_byte :: "nat \<Rightarrow> byte \<Rightarrow> byte" where
  "rot_byte n b = push_bit n b OR drop_bit (8 - n) b"

definition s_box :: "byte \<Rightarrow> byte" where
  "s_box b = (let i = gf_inverse b in i XOR rot_byte 1 i XOR rot_byte 2 i XOR rot_byte 3 i XOR rot_byte 4 i XOR 99)"

text \<open>The key schedule, newest word first; \<open>nk\<close> is the number of words of the key.\<close>

fun round_constant :: "nat \<Rightarrow> byte" where
  "round_constant 0 = 1"
| "round_constant (Suc i) = xtime (round_constant i)"

definition next_word :: "nat \<Rightarrow> byte list list \<Rightarrow> byte list" where
  "next_word nk ws =
     (let i = length ws; t = hd ws;
          t' = (if i mod nk = 0 then map2 (XOR) (map s_box (rotate1 t)) [round_constant (i div nk - 1), 0, 0, 0]
                else if nk > 6 \<and> i mod nk = 4 then map s_box t else t)
      in map2 (XOR) (ws ! (nk - 1)) t')"

fun expand_key :: "nat \<Rightarrow> nat \<Rightarrow> byte list list \<Rightarrow> byte list list" where
  "expand_key nk 0 ws = ws"
| "expand_key nk (Suc n) ws = expand_key nk n (next_word nk ws # ws)"

fun chunks :: "nat \<Rightarrow> nat \<Rightarrow> 'a list \<Rightarrow> 'a list list" where
  "chunks 0 n xs = []"
| "chunks (Suc k) n xs = take n xs # chunks k n (drop n xs)"

text \<open>The round keys of \<open>nk + 7\<close> additions.\<close>

definition round_keys :: "byte list \<Rightarrow> byte list list" where
  "round_keys key =
     (let nk = length key div 4; ws = expand_key nk (4 * (nk + 7) - nk) (rev (chunks nk 4 key))
      in chunks (nk + 7) 16 (concat (rev ws)))"

definition sub_bytes :: "byte list \<Rightarrow> byte list" where
  "sub_bytes s = map s_box s"

definition shift_rows :: "byte list \<Rightarrow> byte list" where
  "shift_rows s = map (\<lambda>i. s ! ((i + 4 * (i mod 4)) mod 16)) [0..<16]"

fun mix_column :: "byte list \<Rightarrow> byte list" where
  "mix_column [a, b, c, d] =
     [xtime a XOR xtime b XOR b XOR c XOR d, a XOR xtime b XOR xtime c XOR c XOR d,
      a XOR b XOR xtime c XOR xtime d XOR d, xtime a XOR a XOR b XOR c XOR xtime d]"
| "mix_column s = s"

definition mix_columns :: "byte list \<Rightarrow> byte list" where
  "mix_columns s = concat (map mix_column (chunks 4 4 s))"

definition aes_round :: "byte list \<Rightarrow> byte list \<Rightarrow> byte list" where
  "aes_round k s = map2 (XOR) (mix_columns (shift_rows (sub_bytes s))) k"

text \<open>\<open>aes.NewCipher\<close> takes keys of three lengths; \<open>Encrypt\<close> of one block under the round keys.\<close>

definition NewCipher :: "string \<Rightarrow> byte list list option" where
  "NewCipher key = (if length key \<in> {16, 24, 32} then Some (round_keys (to_bytes key)) else None)"

definition aes_block :: "byte list list \<Rightarrow> byte list \<Rightarrow> byte list" where
  "aes_block ks s = map2 (XOR) (shift_rows (sub_bytes (fold aes_round (butlast (tl ks)) (map2 (XOR) s (hd ks))))) (last ks)"

section \<open>Galois/Counter Mode\<close>

definition block_word :: "byte list \<Rightarrow> 128 word" where
  "block_word bs = word_of_nat (foldl (\<lambda>n b. 256 * n + unat b) 0 bs)"

definition word_block :: "128 word \<Rightarrow> byte list" where
  "word_block w = to_bytes (bytes_of 16 (unat w))"

text \<open>The product in the field of two to the 128 elements, whose bits count from the left.\<close>

fun gcm_mult :: "nat \<Rightarrow> 128 word \<Rightarrow> 128 word \<Rightarrow> 128 word" where
  "gcm_mult 0 x v = 0"
| "gcm_mult (Suc n) x v =
     (if bit x 127 then v else 0) XOR
     gcm_mult n (push_bit 1 x) (if bit v 0 then drop_bit 1 v XOR push_bit 120 225 else drop_bit 1 v)"

definition pad16 :: "byte list \<Rightarrow> byte list" where
  "pad16 bs = bs @ replicate ((16 - length bs mod 16) mod 16) 0"

definition ghash :: "128 word \<Rightarrow> byte list \<Rightarrow> 128 word" where
  "ghash h bs = foldl (\<lambda>y b. gcm_mult 128 (y XOR block_word b) h) 0 (chunks (length bs div 16) 16 bs)"

definition counter_block :: "byte list \<Rightarrow> nat \<Rightarrow> byte list" where
  "counter_block nonce n = nonce @ to_bytes (bytes_of 4 (n mod 2 ^ 32))"

text \<open>Counter mode: block \<open>i\<close> of the text is combined with the encryption of counter \<open>n + i\<close>.\<close>

function ctr_mode :: "byte list list \<Rightarrow> byte list \<Rightarrow> nat \<Rightarrow> byte list \<Rightarrow> byte list" where
  "ctr_mode ks nonce n bs =
     (if bs = [] then []
      else map2 (XOR) (take 16 bs) (aes_block ks (counter_block nonce n)) @ ctr_mode ks nonce (Suc n) (drop 16 bs))"
  by auto

termination
  by (relation "measure (\<lambda>(ks, nonce, n, bs). length bs)") auto

declare ctr_mode.simps [simp del]

definition gcm_tag :: "byte list list \<Rightarrow> byte list \<Rightarrow> byte list \<Rightarrow> byte list \<Rightarrow> byte list" where
  "gcm_tag ks nonce ct aad =
     (let h = block_word (aes_block ks (replicate 16 0));
          lengths = to_bytes (bytes_of 8 (8 * length aad) @ bytes_of 8 (8 * length ct))
      in map2 (XOR) (word_block (ghash h (pad16 aad @ pad16 ct @ lengths))) (aes_block ks (counter_block nonce 1)))"

definition gcm_NonceSize :: nat where "gcm_NonceSize = 12"
definition gcm_TagSize :: nat where "gcm_TagSize = 16"

definition gcm_max :: nat where
  "gcm_max = (2 ^ 32 - 2) * 16"

text \<open>\<open>Seal\<close> panics on a nonce of another length and on a text that is too long; \<open>Open\<close> also panics on such a nonce.\<close>

definition gcm_Seal :: "byte list list \<Rightarrow> string \<Rightarrow> string \<Rightarrow> string \<Rightarrow> string option" where
  "gcm_Seal ks nonce plaintext aad =
     (if length nonce \<noteq> gcm_NonceSize \<or> length plaintext > gcm_max then None
      else (let ct = ctr_mode ks (to_bytes nonce) 2 (to_bytes plaintext)
            in Some (from_bytes (ct @ gcm_tag ks (to_bytes nonce) ct (to_bytes aad)))))"

datatype gcm_error = ErrOpen

definition gcm_Open :: "byte list list \<Rightarrow> string \<Rightarrow> string \<Rightarrow> string \<Rightarrow> (gcm_error + string) option" where
  "gcm_Open ks nonce ciphertext aad =
     (if length nonce \<noteq> gcm_NonceSize then None
      else if length ciphertext < gcm_TagSize \<or> length ciphertext > gcm_max + gcm_TagSize then Some (Inl ErrOpen)
      else (let n = length ciphertext - gcm_TagSize;
                ct = to_bytes (take n ciphertext); tag = to_bytes (drop n ciphertext)
            in if tag \<noteq> gcm_tag ks (to_bytes nonce) ct (to_bytes aad) then Some (Inl ErrOpen)
               else Some (Inr (from_bytes (ctr_mode ks (to_bytes nonce) 2 ct)))))"

section \<open>Opening what was sealed\<close>

lemma length_to_bytes [simp]: "length (to_bytes s) = length s"
  by (simp add: to_bytes_def)

lemma length_from_bytes [simp]: "length (from_bytes bs) = length bs"
  by (simp add: from_bytes_def)

lemma from_to_bytes [simp]: "from_bytes (to_bytes s) = s"
proof -
  have "unat (of_char c :: byte) = of_char c" for c
  proof -
    have "(of_char c :: byte) = of_nat (of_char c)" by (simp add: of_nat_of_char)
    then show ?thesis using of_char_bound [of c] by (simp only: unat_of_nat) simp
  qed
  then show ?thesis by (simp add: from_bytes_def to_bytes_def comp_def)
qed

lemma to_from_bytes [simp]: "to_bytes (from_bytes bs) = bs"
proof -
  have "of_char (char_of (unat b)) = b" for b :: byte
  proof -
    have "(of_char (char_of (unat b)) :: nat) = unat b"
      using unsigned_less [of b, where 'a = nat] by simp
    moreover have "(of_char (char_of (unat b)) :: byte) = of_nat (of_char (char_of (unat b)))" by (simp only: of_nat_of_char)
    ultimately show ?thesis by simp
  qed
  then show ?thesis by (simp add: from_bytes_def to_bytes_def comp_def)
qed

lemma map2_xor_cancel: "length xs \<le> length ys \<Longrightarrow> map2 (XOR) (map2 (XOR) xs ys) ys = (xs :: 'a::semiring_bit_operations list)"
proof (induction xs arbitrary: ys)
  case (Cons x xs)
  then show ?case by (cases ys) (simp_all add: xor.assoc)
qed simp

lemma length_chunks [simp]: "length (chunks k n xs) = k"
  by (induction k arbitrary: xs) auto

lemma chunk_length: "c \<in> set (chunks k n xs) \<Longrightarrow> k * n \<le> length xs \<Longrightarrow> length c = n"
  by (induction k arbitrary: xs) auto

definition words4 :: "byte list list \<Rightarrow> bool" where
  "words4 ws \<longleftrightarrow> (\<forall>w \<in> set ws. length w = 4)"

lemma words4_next:
  assumes "words4 ws" and "0 < nk" and "nk \<le> length ws"
  shows "words4 (next_word nk ws # ws)"
proof -
  have "ws \<noteq> []" "nk - 1 < length ws" using assms(2,3) by auto
  then have "hd ws \<in> set ws" "ws ! (nk - 1) \<in> set ws" using hd_in_set nth_mem by blast+
  then have "length (hd ws) = 4" "length (ws ! (nk - 1)) = 4" using assms(1) by (auto simp: words4_def)
  then have "length (next_word nk ws) = 4" by (simp add: next_word_def Let_def)
  then show ?thesis using assms(1) by (simp add: words4_def)
qed

lemma expand_key_words:
  assumes "words4 ws" and "0 < nk" and "nk \<le> length ws"
  shows "words4 (expand_key nk n ws) \<and> length (expand_key nk n ws) = length ws + n"
  using assms
proof (induction n arbitrary: ws)
  case (Suc n)
  from Suc.IH [OF words4_next [OF Suc.prems]] show ?case using Suc.prems by simp
qed simp

lemma length_concat_words: "words4 ws \<Longrightarrow> length (concat ws) = 4 * length ws"
  by (induction ws) (auto simp: words4_def)

text \<open>A key of an admitted length has round keys of 16 bytes each, one more than two.\<close>

definition good_keys :: "byte list list \<Rightarrow> bool" where
  "good_keys ks \<longleftrightarrow> ks \<noteq> [] \<and> (\<forall>k \<in> set ks. length k = 16)"

lemma round_keys_good:
  assumes "length key \<in> {16, 24, 32}"
  shows "good_keys (round_keys key)"
proof -
  define nk where "nk = length key div 4"
  have nk: "0 < nk" "4 * nk = length key" using assms by (auto simp: nk_def)
  define ws where "ws = expand_key nk (4 * (nk + 7) - nk) (rev (chunks nk 4 key))"
  have "words4 (rev (chunks nk 4 key))" using nk chunk_length [of _ nk 4 key] by (auto simp: words4_def)
  then have ws: "words4 ws" "length ws = 4 * (nk + 7)"
    using expand_key_words [of "rev (chunks nk 4 key)" nk "4 * (nk + 7) - nk"] nk(1) by (simp_all add: ws_def)
  then have "words4 (rev ws)" by (simp add: words4_def)
  then have len: "length (concat (rev ws)) = 16 * (nk + 7)" using ws length_concat_words [of "rev ws"] by simp
  have "round_keys key = chunks (nk + 7) 16 (concat (rev ws))" by (simp add: round_keys_def Let_def nk_def ws_def)
  moreover have "chunks (nk + 7) 16 (concat (rev ws)) \<noteq> []" by (metis length_chunks length_0_conv add_is_0 zero_neq_numeral)
  ultimately show ?thesis using chunk_length [of _ "nk + 7" 16 "concat (rev ws)"] len by (simp add: good_keys_def)
qed

lemma NewCipher_good: "NewCipher key = Some ks \<Longrightarrow> good_keys ks"
  using round_keys_good [of "to_bytes key"] by (auto simp: NewCipher_def split: if_splits)

lemma length_aes_block: "good_keys ks \<Longrightarrow> length (aes_block ks s) = 16"
  by (simp add: aes_block_def shift_rows_def good_keys_def)

lemma ctr_mode_props:
  assumes "good_keys ks"
  shows "length (ctr_mode ks nonce n bs) = length bs \<and> ctr_mode ks nonce n (ctr_mode ks nonce n bs) = bs"
  using assms
proof (induction ks nonce n bs rule: ctr_mode.induct)
  case (1 ks nonce n bs)
  show ?case
  proof (cases "bs = []")
    case False
    let ?k = "aes_block ks (counter_block nonce n)" let ?c = "map2 (XOR) (take 16 bs) ?k"
    note IH = "1.IH" [OF False "1.prems"]
    have k: "length ?k = 16" by (rule length_aes_block [OF "1.prems"])
    have c: "ctr_mode ks nonce n bs = ?c @ ctr_mode ks nonce (Suc n) (drop 16 bs)"
      using False by (subst ctr_mode.simps) simp
    have len: "length (ctr_mode ks nonce n bs) = length bs" using IH k by (simp add: c)
    have split: "take 16 (ctr_mode ks nonce n bs) = ?c \<and> drop 16 (ctr_mode ks nonce n bs) = ctr_mode ks nonce (Suc n) (drop 16 bs)"
    proof (cases "length bs \<ge> 16")
      case False
      then have "ctr_mode ks nonce (Suc n) (drop 16 bs) = []" by (subst ctr_mode.simps) simp
      then show ?thesis using False k by (simp add: c)
    qed (use k in \<open>simp add: c\<close>)
    have "ctr_mode ks nonce n bs \<noteq> []" using len False by fastforce
    then have "ctr_mode ks nonce n (ctr_mode ks nonce n bs)
        = map2 (XOR) ?c ?k @ ctr_mode ks nonce (Suc n) (ctr_mode ks nonce (Suc n) (drop 16 bs))"
      using split by (subst ctr_mode.simps) (simp del: map2_map_map)
    then show ?thesis using len IH k by (simp add: map2_xor_cancel)
  qed (subst ctr_mode.simps; simp)+
qed

lemma length_word_block [simp]: "length (word_block w) = 16"
  by (simp add: word_block_def)

lemma length_gcm_tag: "good_keys ks \<Longrightarrow> length (gcm_tag ks nonce ct aad) = 16"
  by (simp add: gcm_tag_def Let_def length_aes_block)

lemma gcm_Open_Seal:
  assumes "good_keys ks" and "length nonce = gcm_NonceSize" and "length plaintext \<le> gcm_max"
  shows "\<exists>c. gcm_Seal ks nonce plaintext aad = Some c \<and> length c = length plaintext + gcm_TagSize
     \<and> gcm_Open ks nonce c aad = Some (Inr plaintext)"
proof -
  let ?ct = "ctr_mode ks (to_bytes nonce) 2 (to_bytes plaintext)"
  let ?t = "gcm_tag ks (to_bytes nonce) ?ct (to_bytes aad)"
  have len: "length ?ct = length plaintext" "length ?t = 16"
    using ctr_mode_props [OF assms(1)] length_gcm_tag [OF assms(1)] by simp_all
  have "from_bytes (?ct @ ?t) = from_bytes ?ct @ from_bytes ?t" by (simp add: from_bytes_def)
  moreover have "ctr_mode ks (to_bytes nonce) 2 ?ct = to_bytes plaintext" using ctr_mode_props [OF assms(1)] by blast
  ultimately show ?thesis
    using assms(2,3) len by (simp add: gcm_Seal_def gcm_Open_def Let_def gcm_TagSize_def)
qed

end
