(* ===== verification/GoEncode.thy ===== *)
theory GoEncode
  imports GoJson GoUrl
begin

text \<open>
  The parts of \<open>encoding/json\<close> and \<open>encoding/base64\<close> the program writes keys with: \<open>json.Marshal\<close> of text and of structs of
  text, and \<open>StdEncoding.DecodeString\<close>.
\<close>

section \<open>Writing text as JSON\<close>

definition backslash :: char where "backslash = char_of (92 :: nat)"
definition quote_mark :: char where "quote_mark = char_of (34 :: nat)"

definition lower_digit :: "nat \<Rightarrow> char" where
  "lower_digit d = (if d < 10 then char_of (48 + d) else char_of (87 + d))"

text \<open>A character of ASCII: short escapes, \<open>u00xx\<close> for other controls and for the three HTML characters.\<close>

definition json_char :: "char \<Rightarrow> string" where
  "json_char c = (let n = of_char c :: nat in
     if n = 34 \<or> n = 92 then [backslash, c]
     else if n = 8 then [backslash, CHR ''b''] else if n = 12 then [backslash, CHR ''f'']
     else if n = 10 then [backslash, CHR ''n''] else if n = 13 then [backslash, CHR ''r'']
     else if n = 9 then [backslash, CHR ''t'']
     else if n < 32 \<or> n \<in> {38, 60, 62} then backslash # ''u00'' @ [lower_digit (n div 16), lower_digit (n mod 16)]
     else [c])"

text \<open>\<open>utf8.DecodeRune\<close>: the size of the sequence a text starts with, 0 for bytes that are none.\<close>

definition utf8_size :: "string \<Rightarrow> nat" where
  "utf8_size s =
     (let cont = (\<lambda>i lo hi. i < length s \<and> lo \<le> (of_char (s ! i) :: nat) \<and> (of_char (s ! i) :: nat) \<le> hi);
          b = (case s of [] \<Rightarrow> 0 | c # r \<Rightarrow> (of_char c :: nat))
      in if 194 \<le> b \<and> b \<le> 223 then (if cont 1 128 191 then 2 else 0)
         else if 224 \<le> b \<and> b \<le> 239 then
           (if cont 1 (if b = 224 then 160 else 128) (if b = 237 then 159 else 191) \<and> cont 2 128 191 then 3 else 0)
         else if 240 \<le> b \<and> b \<le> 244 then
           (if cont 1 (if b = 240 then 144 else 128) (if b = 244 then 143 else 191) \<and> cont 2 128 191 \<and> cont 3 128 191 then 4 else 0)
         else 0)"

text \<open>Invalid bytes become the replacement character; the two line separators of Unicode are escaped.\<close>

function json_escape :: "string \<Rightarrow> string" where
  "json_escape [] = []"
| "json_escape (c # s) =
     (if of_char c < (128 :: nat) then json_char c @ json_escape s
      else let n = utf8_size (c # s) in
        if n = 0 then backslash # ''ufffd'' @ json_escape s
        else if map of_char (take 2 (c # s)) = [226, 128 :: nat] \<and> of_char (s ! 1) \<in> {168, 169 :: nat}
             then backslash # ''u202'' @ [lower_digit (of_char (s ! 1) mod 16)] @ json_escape (drop n (c # s))
             else take n (c # s) @ json_escape (drop n (c # s)))"
  by pat_completeness auto

termination
  by (relation "measure length") (auto simp: less_Suc_eq_le)

declare json_escape.simps(2) [simp del]

definition json_text :: "string \<Rightarrow> string" where
  "json_text s = quote_mark # json_escape s @ [quote_mark]"

text \<open>A struct of text fields; \<open>omitempty\<close> is left to the caller.\<close>

fun json_members :: "(string \<times> string) list \<Rightarrow> string" where
  "json_members [] = []"
| "json_members [(k, v)] = json_text k @ '':'' @ json_text v"
| "json_members ((k, v) # kvs) = json_text k @ '':'' @ json_text v @ '','' @ json_members kvs"

definition json_texts :: "(string \<times> string) list \<Rightarrow> string" where
  "json_texts kvs = ''{'' @ json_members kvs @ ''}''"

section \<open>Text that was written reads back\<close>

definition ascii :: "string \<Rightarrow> bool" where
  "ascii s \<longleftrightarrow> (\<forall>c \<in> set s. of_char c < (128 :: nat))"

lemma read_plain:
  "of_char c \<noteq> (34 :: nat) \<Longrightarrow> of_char c \<noteq> (92 :: nat) \<Longrightarrow> \<not> of_char c < (32 :: nat) \<Longrightarrow>
     read_string (Suc n) (c # s) = map_option (\<lambda>(t, z). (c # t, z)) (read_string n s)"
  by simp

lemma read_escaped:
  "simple_escape e = Some x \<Longrightarrow> e \<noteq> CHR ''u'' \<Longrightarrow>
     read_string (Suc n) (backslash # e # s) = map_option (\<lambda>(t, z). (x # t, z)) (read_string n s)"
  by (simp add: backslash_def)

lemma of_lower_digit: "d < 16 \<Longrightarrow> of_char (lower_digit d) = (if d < 10 then 48 + d else 87 + d :: nat)"
  by (simp add: lower_digit_def)

lemma hex4_low:
  assumes "n < 128"
  shows "hex4 (''00'' @ [lower_digit (n div 16), lower_digit (n mod 16)] @ s) = Some (n, s)"
proof -
  have d: "n div 16 < 16" "n mod 16 < 16" "n div 16 * 16 + n mod 16 = n" using assms by auto
  then show ?thesis unfolding hex4_def by (simp add: of_lower_digit Let_def)
qed

lemma read_unicode_low:
  assumes "n < 128"
  shows "read_string (Suc m) (backslash # ''u00'' @ [lower_digit (n div 16), lower_digit (n mod 16)] @ s)
     = map_option (\<lambda>(t, z). (char_of n # t, z)) (read_string m s)"
proof -
  have "read_unicode (''00'' @ [lower_digit (n div 16), lower_digit (n mod 16)] @ s) = Some ([char_of n], s)"
    using assms unfolding read_unicode_def hex4_low [OF assms] by (simp add: utf8_def)
  then show ?thesis by (simp add: backslash_def)
qed

lemma read_json_char:
  assumes "of_char c < (128 :: nat)"
  shows "read_string (Suc m) (json_char c @ s) = map_option (\<lambda>(t, z). (c # t, z)) (read_string m s)"
proof -
  have esc: "simple_escape (char_of (34 :: nat)) = Some (char_of (34 :: nat))" "simple_escape (char_of (92 :: nat)) = Some (char_of (92 :: nat))"
    "simple_escape CHR ''b'' = Some (char_of (8 :: nat))" "simple_escape CHR ''f'' = Some (char_of (12 :: nat))"
    "simple_escape CHR ''n'' = Some (char_of (10 :: nat))" "simple_escape CHR ''r'' = Some (char_of (13 :: nat))"
    "simple_escape CHR ''t'' = Some (char_of (9 :: nat))" by code_simp+
  have c: "c = char_of (of_char c :: nat)" by simp
  have u: "char_of (34 :: nat) \<noteq> CHR ''u''" "char_of (92 :: nat) \<noteq> CHR ''u''" by code_simp+
  consider "of_char c = (34 :: nat)" | "of_char c = (92 :: nat)" | "of_char c = (8 :: nat)" | "of_char c = (12 :: nat)"
    | "of_char c = (10 :: nat)" | "of_char c = (13 :: nat)" | "of_char c = (9 :: nat)"
    | "of_char c \<notin> {34, 92, 8, 12, 10, 13, 9 :: nat}" "of_char c < (32 :: nat) \<or> of_char c \<in> {38, 60, 62 :: nat}"
    | "of_char c \<notin> {34, 92, 8, 12, 10, 13, 9 :: nat}" "\<not> (of_char c < (32 :: nat) \<or> of_char c \<in> {38, 60, 62 :: nat})"
    by blast
  then show ?thesis
  proof cases
    case 8
    then have "json_char c @ s = backslash # ''u00'' @ [lower_digit (of_char c div 16), lower_digit (of_char c mod 16)] @ s"
      by (auto simp: json_char_def Let_def)
    then show ?thesis using read_unicode_low [OF assms] by simp
  next
    case 9
    then have "json_char c = [c]" by (auto simp: json_char_def Let_def)
    then show ?thesis using 9 by simp
  qed (use esc u c read_escaped in \<open>simp_all add: json_char_def del: read_string.simps\<close>)
qed

lemma read_json_escape:
  assumes "ascii s" and "length s < m"
  shows "read_string m (json_escape s @ quote_mark # rest) = Some (s, rest)"
  using assms
proof (induction s arbitrary: m)
  case Nil
  then show ?case by (cases m) (simp_all add: quote_mark_def)
next
  case (Cons c s)
  then obtain k where k: "m = Suc k" "length s < k" by (cases m) auto
  have "of_char c < (128 :: nat)" "ascii s" using Cons.prems(1) by (simp_all add: ascii_def)
  then show ?case using read_json_char [of c k "json_escape s @ quote_mark # rest"] Cons.IH [OF _ k(2)]
    by (simp add: k(1) json_escape.simps(2) del: read_string.simps)
qed

lemma length_json_escape: "ascii s \<Longrightarrow> length s \<le> length (json_escape s)"
proof (induction s)
  case (Cons c s)
  then have "of_char c < (128 :: nat)" "ascii s" by (simp_all add: ascii_def)
  moreover have "1 \<le> length (json_char c)" by (simp add: json_char_def Let_def)
  ultimately show ?case using Cons.IH by (simp add: json_escape.simps(2))
qed simp

lemma skip_quote [simp]: "skip_ws (quote_mark # s) = quote_mark # s"
  by (simp add: quote_mark_def)

lemma read_text_value:
  assumes "ascii v"
  shows "read_value (Suc n) (json_text v @ rest) = Some (JStr v, rest)"
proof -
  have "read_string (length (json_escape v @ quote_mark # rest)) (json_escape v @ quote_mark # rest) = Some (v, rest)"
    using assms length_json_escape [OF assms] by (intro read_json_escape) auto
  moreover have "quote_mark \<noteq> CHR ''{''" "quote_mark \<noteq> CHR ''[''" by code_simp+
  moreover have "of_char quote_mark = (34 :: nat)" by code_simp
  ultimately show ?thesis unfolding read_value.simps json_text_def by simp
qed

lemma read_text_member:
  assumes "ascii k" and "ascii v"
  shows "read_members (Suc (Suc n)) (json_text k @ '':'' @ json_text v @ CHR '','' # rest)
       = map_option (\<lambda>(ms, z). ((k, JStr v) # ms, z)) (read_members (Suc n) rest)"
    and "read_members (Suc (Suc n)) (json_text k @ '':'' @ json_text v @ CHR ''}'' # rest) = Some ([(k, JStr v)], rest)"
proof -
  have key: "read_string (length (json_escape k @ quote_mark # z)) (json_escape k @ quote_mark # z) = Some (k, z)" for z
    using assms(1) length_json_escape [OF assms(1)] by (intro read_json_escape) auto
  have ws: "skip_ws (CHR '':'' # z) = CHR '':'' # z" "skip_ws (CHR '','' # z) = CHR '','' # z" "skip_ws (CHR ''}'' # z) = CHR ''}'' # z" for z
    by simp_all
  have q: "of_char quote_mark = (34 :: nat)" by code_simp
  show "read_members (Suc (Suc n)) (json_text k @ '':'' @ json_text v @ CHR '','' # rest)
       = map_option (\<lambda>(ms, z). ((k, JStr v) # ms, z)) (read_members (Suc n) rest)"
    using key [of "'':'' @ json_text v @ CHR '','' # rest"] read_text_value [OF assms(2), of n "CHR '','' # rest"]
    unfolding read_members.simps(2) by (simp add: json_text_def ws q del: read_members.simps read_value.simps skip_ws.simps)
  show "read_members (Suc (Suc n)) (json_text k @ '':'' @ json_text v @ CHR ''}'' # rest) = Some ([(k, JStr v)], rest)"
    using key [of "'':'' @ json_text v @ CHR ''}'' # rest"] read_text_value [OF assms(2), of n "CHR ''}'' # rest"]
    unfolding read_members.simps(2) by (simp add: json_text_def ws q del: read_members.simps read_value.simps skip_ws.simps)
qed

lemma read_json_members:
  assumes "\<forall>(k, v) \<in> set kvs. ascii k \<and> ascii v" and "kvs \<noteq> []" and "length kvs < n"
  shows "read_members n (json_members kvs @ CHR ''}'' # rest) = Some (map (\<lambda>(k, v). (k, JStr v)) kvs, rest)"
  using assms
proof (induction kvs arbitrary: n rule: json_members.induct)
  case (2 k v)
  then obtain m where "n = Suc (Suc m)" by (cases n; cases "n - 1") auto
  then show ?case using 2 read_text_member(2) [of k v m rest] by (simp del: read_members.simps)
next
  case (3 k v kv kvs)
  then obtain m where m: "n = Suc (Suc m)" by (cases n; cases "n - 1") auto
  have "read_members (Suc m) (json_members (kv # kvs) @ CHR ''}'' # rest) = Some (map (\<lambda>(k, v). (k, JStr v)) (kv # kvs), rest)"
    using 3 by (intro "3.IH") (auto simp: m)
  then show ?case using 3 read_text_member(1) [of k v m "json_members (kv # kvs) @ CHR ''}'' # rest"]
    by (simp add: m del: read_members.simps)
qed simp

lemma read_object:
  assumes "read_members n (quote_mark # z) = Some (ms, rest)"
  shows "read_value (Suc n) (CHR ''{'' # quote_mark # z) = Some (JObj ms, rest)"
proof -
  have "quote_mark \<noteq> CHR ''}''" by code_simp
  moreover have "skip_ws (CHR ''{'' # x) = CHR ''{'' # x" for x by simp
  ultimately show ?thesis using assms by (simp add: read_value.simps(2) del: read_members.simps skip_ws.simps)
qed

lemma json_texts_read:
  assumes "\<forall>(k, v) \<in> set kvs. ascii k \<and> ascii v" and "kvs \<noteq> []"
  shows "json_read (json_texts kvs) = Some (JObj (map (\<lambda>(k, v). (k, JStr v)) kvs))"
proof -
  obtain k v rest where kvs: "kvs = (k, v) # rest" using assms(2) by (metis neq_Nil_conv surj_pair)
  define z where "z = json_members kvs @ CHR ''}'' # []"
  have len: "length kvs \<le> length (json_members kvs)" by (induction kvs rule: json_members.induct) (auto simp: json_text_def)
  then have "read_members (Suc (length (json_texts kvs))) z = Some (map (\<lambda>(k, v). (k, JStr v)) kvs, [])"
    using assms by (simp only: z_def) (intro read_json_members, auto simp: json_texts_def)
  moreover obtain z' where z: "z = quote_mark # z'" by (cases rest) (auto simp: z_def kvs json_text_def)
  ultimately have "read_value (Suc (Suc (length (json_texts kvs)))) (CHR ''{'' # z) = Some (JObj (map (\<lambda>(k, v). (k, JStr v)) kvs), [])"
    using read_object by simp
  moreover have "json_texts kvs = CHR ''{'' # z" by (simp add: json_texts_def z_def)
  ultimately show ?thesis by (simp add: json_read_def del: read_value.simps)
qed

section \<open>Base64\<close>

definition base64_val :: "char \<Rightarrow> nat option" where
  "base64_val c = (let n = of_char c :: nat in
     if 65 \<le> n \<and> n \<le> 90 then Some (n - 65) else if 97 \<le> n \<and> n \<le> 122 then Some (n - 71)
     else if 48 \<le> n \<and> n \<le> 57 then Some (n + 4) else if n = 43 then Some 62 else if n = 47 then Some 63 else None)"

text \<open>Groups of four, the last of which may be padded; bits that are left over are ignored.\<close>

fun base64_groups :: "string \<Rightarrow> string option" where
  "base64_groups [] = Some []"
| "base64_groups (a # b # c # d # s) =
     (case (base64_val a, base64_val b) of
        (Some p, Some q) \<Rightarrow>
          (if c = CHR ''='' then (if d = CHR ''='' \<and> s = [] then Some [char_of (p * 4 + q div 16)] else None)
           else (case base64_val c of
              None \<Rightarrow> None
            | Some u \<Rightarrow>
                if d = CHR ''='' then (if s = [] then Some [char_of (p * 4 + q div 16), char_of (q mod 16 * 16 + u div 4)] else None)
                else (case base64_val d of
                   None \<Rightarrow> None
                 | Some v \<Rightarrow> map_option ((@) [char_of (p * 4 + q div 16), char_of (q mod 16 * 16 + u div 4), char_of (u mod 4 * 64 + v)])
                               (base64_groups s))))
      | _ \<Rightarrow> None)"
| "base64_groups s = None"

definition base64_DecodeString :: "string \<Rightarrow> string option" where
  "base64_DecodeString s = base64_groups (filter (\<lambda>c. of_char c \<notin> {10, 13 :: nat}) s)"

lemma base64_example: "base64_DecodeString ''Zm9vYmE='' = Some ''fooba''" "base64_DecodeString ''Zg=='' = Some ''f''"
  by code_simp+

end
