(* ===== verification/Credentials.thy ===== *)
theory Credentials
  imports GoAead GoEncode PositionRepo
begin

text \<open>
  The keys of the exchanges: the envelope encryption of \<open>internal/credentials\<close> (\<open>crypto.go\<close>), the table
  \<open>exchange_credentials\<close> of \<open>internal/repository\<close> (\<open>credentials.go\<close>, \<open>users.go\<close>) and the providers of \<open>internal/app\<close>
  (\<open>credentials.go\<close>) over them.

  The environment variables, the random source and PostgreSQL are the record \<open>cred_env\<close>; the locale \<open>cred_store\<close> states
  what the code relies on.  A panic of the cipher is \<open>None\<close>.  Wiping buffers has no counterpart.
\<close>

section \<open>Envelope encryption\<close>

definition BlobVersion :: "8 word" where "BlobVersion = 1"
definition keyLen :: nat where "keyLen = 32"

record Blob =
  bl_Version :: "8 word"
  bl_EncDEK :: string
  bl_Ciphertext :: string

datatype cred_error =
    EnvMissing | NotBase64 | BadKeyLength | MasterKeyLength | RandFailed | BadCipherKey | BlobDamaged | NotAuthentic gcm_error
  | BlobVersionUnsupported | DekUnwrap cred_error | SecretOpen cred_error
  | MasterKey cred_error | CredDb db_error | ErrCredentialNotFound | CredentialFormat | CredentialEmpty

text \<open>The statements that change the table, and the row of a pair of exchange and kind.\<close>

type_synonym cred_key = "int \<times> string \<times> string"

datatype cred_stmt = UpsertCred cred_key string Blob time | RevokeCred cred_key time

record CredRow =
  cw_fingerprint :: string
  cw_blob :: Blob
  cw_rotated_at :: "time option"
  cw_created_at :: time
  cw_revoked_at :: "time option"

record CredentialInfo =
  ci_Exchange :: string
  ci_Kind :: string
  ci_Fingerprint :: string
  ci_CreatedAt :: time
  ci_RotatedAt :: "time option"
  ci_Revoked :: bool

record 'w cred_env =
  ce_getenv :: "string \<Rightarrow> string option"
  ce_rand :: "nat \<Rightarrow> 'w \<Rightarrow> string option \<times> 'w"
  ce_Now :: "'w \<Rightarrow> time"
  ce_Exec :: "cred_stmt \<Rightarrow> 'w \<Rightarrow> (db_error + int) \<times> 'w"
  ce_SelectBlob :: "cred_key \<Rightarrow> 'w \<Rightarrow> (db_error + Blob) \<times> 'w"
  ce_SelectAll :: "int \<Rightarrow> 'w \<Rightarrow> (db_error + CredentialInfo list) \<times> 'w"
  ce_SelectExists :: "cred_key \<Rightarrow> 'w \<Rightarrow> (db_error + bool) \<times> 'w"
  ce_Begin :: "'w \<Rightarrow> db_error option \<times> 'w"
  ce_TxAudit :: "auditRow \<Rightarrow> 'w \<Rightarrow> db_error option \<times> 'w"
  ce_Commit :: "'w \<Rightarrow> db_error option \<times> 'w"
  ce_ClaimUser :: "int \<Rightarrow> 'w \<Rightarrow> (db_error + int) \<times> 'w"
  ce_SelectOwner :: "'w \<Rightarrow> (db_error + int) \<times> 'w"

definition LoadMasterKey :: "(string \<Rightarrow> string option) \<Rightarrow> string \<Rightarrow> cred_error + string" where
  "LoadMasterKey getenv envName = (case getenv envName of
     None \<Rightarrow> Inl EnvMissing
   | Some raw \<Rightarrow>
       if raw = [] then Inl EnvMissing
       else (case base64_DecodeString raw of
               None \<Rightarrow> Inl NotBase64
             | Some key \<Rightarrow> if length key \<noteq> keyLen then Inl BadKeyLength else Inr key))"

definition cred_seal :: "'w cred_env \<Rightarrow> string \<Rightarrow> string \<Rightarrow> string \<Rightarrow> 'w \<Rightarrow> ((cred_error + string) \<times> 'w) option" where
  "cred_seal D key plaintext aad w = (case NewCipher key of
     None \<Rightarrow> Some (Inl BadCipherKey, w)
   | Some ks \<Rightarrow> (case ce_rand D gcm_NonceSize w of
       (None, w1) \<Rightarrow> Some (Inl RandFailed, w1)
     | (Some nonce, w1) \<Rightarrow> map_option (\<lambda>c. (Inr (nonce @ c), w1)) (gcm_Seal ks nonce plaintext aad)))"

definition cred_open :: "string \<Rightarrow> string \<Rightarrow> string \<Rightarrow> (cred_error + string) option" where
  "cred_open key data aad = (case NewCipher key of
     None \<Rightarrow> Some (Inl BadCipherKey)
   | Some ks \<Rightarrow>
       if length data < gcm_NonceSize then Some (Inl BlobDamaged)
       else (case gcm_Open ks (take gcm_NonceSize data) (drop gcm_NonceSize data) aad of
               None \<Rightarrow> None
             | Some (Inl e) \<Rightarrow> Some (Inl (NotAuthentic e))
             | Some (Inr pt) \<Rightarrow> Some (Inr pt)))"

definition Encrypt :: "'w cred_env \<Rightarrow> string \<Rightarrow> string \<Rightarrow> string \<Rightarrow> 'w \<Rightarrow> ((cred_error + Blob) \<times> 'w) option" where
  "Encrypt D masterKey plaintext aad w =
     (if length masterKey \<noteq> keyLen then Some (Inl MasterKeyLength, w)
      else (case ce_rand D keyLen w of
        (None, w1) \<Rightarrow> Some (Inl RandFailed, w1)
      | (Some dek, w1) \<Rightarrow> (case cred_seal D dek plaintext aad w1 of
          None \<Rightarrow> None
        | Some (Inl e, w2) \<Rightarrow> Some (Inl e, w2)
        | Some (Inr ct, w2) \<Rightarrow> (case cred_seal D masterKey dek aad w2 of
            None \<Rightarrow> None
          | Some (Inl e, w3) \<Rightarrow> Some (Inl e, w3)
          | Some (Inr encDEK, w3) \<Rightarrow> Some (Inr \<lparr>bl_Version = BlobVersion, bl_EncDEK = encDEK, bl_Ciphertext = ct\<rparr>, w3)))))"

definition Decrypt :: "string \<Rightarrow> Blob option \<Rightarrow> string \<Rightarrow> (cred_error + string) option" where
  "Decrypt masterKey blob aad = (case blob of
     None \<Rightarrow> Some (Inl BlobVersionUnsupported)
   | Some b \<Rightarrow>
       if bl_Version b \<noteq> BlobVersion then Some (Inl BlobVersionUnsupported)
       else (case cred_open masterKey (bl_EncDEK b) aad of
               None \<Rightarrow> None
             | Some (Inl e) \<Rightarrow> Some (Inl (DekUnwrap e))
             | Some (Inr dek) \<Rightarrow> (case cred_open dek (bl_Ciphertext b) aad of
                 None \<Rightarrow> None
               | Some (Inl e) \<Rightarrow> Some (Inl (SecretOpen e))
               | Some (Inr pt) \<Rightarrow> Some (Inr pt))))"

section \<open>The repository\<close>

definition Cred_Save :: "'w cred_env \<Rightarrow> int \<Rightarrow> string \<Rightarrow> string \<Rightarrow> Blob \<Rightarrow> string \<Rightarrow> 'w \<Rightarrow> cred_error option \<times> 'w" where
  "Cred_Save D userID exchange kind blob fingerprint w =
     (case ce_Exec D (UpsertCred (userID, exchange, kind) fingerprint blob (ce_Now D w)) w of
        (Inl e, w1) \<Rightarrow> (Some (CredDb e), w1) | (Inr n, w1) \<Rightarrow> (None, w1))"

definition Cred_Load :: "'w cred_env \<Rightarrow> int \<Rightarrow> string \<Rightarrow> string \<Rightarrow> 'w \<Rightarrow> (cred_error + Blob) \<times> 'w" where
  "Cred_Load D userID exchange kind w = (case ce_SelectBlob D (userID, exchange, kind) w of
     (Inl e, w1) \<Rightarrow> (if e = DbNoRows then Inl ErrCredentialNotFound else Inl (CredDb e), w1)
   | (Inr b, w1) \<Rightarrow> (Inr b, w1))"

definition Cred_List :: "'w cred_env \<Rightarrow> int \<Rightarrow> 'w \<Rightarrow> (cred_error + CredentialInfo list) \<times> 'w" where
  "Cred_List D userID w = (case ce_SelectAll D userID w of
     (Inl e, w1) \<Rightarrow> (Inl (CredDb e), w1) | (Inr infos, w1) \<Rightarrow> (Inr infos, w1))"

definition Cred_Revoke :: "'w cred_env \<Rightarrow> int \<Rightarrow> string \<Rightarrow> string \<Rightarrow> 'w \<Rightarrow> cred_error option \<times> 'w" where
  "Cred_Revoke D userID exchange kind w =
     (case ce_Exec D (RevokeCred (userID, exchange, kind) (ce_Now D w)) w of
        (Inl e, w1) \<Rightarrow> (Some (CredDb e), w1)
      | (Inr n, w1) \<Rightarrow> (if n = 0 then Some ErrCredentialNotFound else None, w1))"

definition Cred_HasActive :: "'w cred_env \<Rightarrow> int \<Rightarrow> string \<Rightarrow> string \<Rightarrow> 'w \<Rightarrow> (cred_error + bool) \<times> 'w" where
  "Cred_HasActive D userID exchange kind w = (case ce_SelectExists D (userID, exchange, kind) w of
     (Inl e, w1) \<Rightarrow> (Inl (CredDb e), w1) | (Inr b, w1) \<Rightarrow> (Inr b, w1))"

definition Users_ClaimOwner :: "'w cred_env \<Rightarrow> int \<Rightarrow> 'w \<Rightarrow> (cred_error + bool) \<times> 'w" where
  "Users_ClaimOwner D telegramID w = (case ce_ClaimUser D telegramID w of
     (Inl e, w1) \<Rightarrow> (Inl (CredDb e), w1) | (Inr n, w1) \<Rightarrow> (Inr (n = 1), w1))"

definition OwnerTelegramID :: "'w cred_env \<Rightarrow> 'w \<Rightarrow> (cred_error + int) \<times> 'w" where
  "OwnerTelegramID D w = (case ce_SelectOwner D w of
     (Inl e, w1) \<Rightarrow> (Inl (CredDb e), w1) | (Inr i, w1) \<Rightarrow> (Inr i, w1))"

section \<open>The providers\<close>

record CredentialPlaintext =
  cp_Key :: string
  cp_Secret :: string
  cp_Passphrase :: string

definition plaintext_shape :: shape where
  "plaintext_shape = ShStruct [(''key'', ShStr), (''secret'', ShStr), (''passphrase'', ShStr)]"

definition plaintext_of :: "json \<Rightarrow> CredentialPlaintext" where
  "plaintext_of j = \<lparr>cp_Key = js_str j ''key'', cp_Secret = js_str j ''secret'', cp_Passphrase = js_str j ''passphrase''\<rparr>"

definition plaintext_members :: "CredentialPlaintext \<Rightarrow> (string \<times> string) list" where
  "plaintext_members p = [(''key'', cp_Key p), (''secret'', cp_Secret p)]
     @ (if cp_Passphrase p = [] then [] else [(''passphrase'', cp_Passphrase p)])"

definition credentialAAD :: "string \<Rightarrow> string \<Rightarrow> string" where
  "credentialAAD exchange kind = ''tenant:default|exchange:'' @ exchange @ ''|kind:'' @ kind"

definition Fingerprint :: "string \<Rightarrow> string" where
  "Fingerprint apiKey = (if length apiKey < 8 then ''****'' else take 4 apiKey @ ''...'' @ drop (length apiKey - 4) apiKey)"

text \<open>The audit of a provider is best effort: its errors are dropped.\<close>

definition audit_quietly :: "'w cred_env \<Rightarrow> auditRow \<Rightarrow> 'w \<Rightarrow> 'w" where
  "audit_quietly D a w = (case ce_Begin D w of
     (Some e, w1) \<Rightarrow> w1
   | (None, w1) \<Rightarrow> snd (ce_Commit D (snd (ce_TxAudit D a w1))))"

definition cred_audit :: "string \<Rightarrow> string \<Rightarrow> (string \<times> string) list \<Rightarrow> auditRow" where
  "cred_audit action exchange params = \<lparr>au_actor = ''user:miniapp'', au_action = action,
     au_correlation = non_empty exchange, au_params = params, au_result = ''ok''\<rparr>"

definition App_SaveCredential ::
  "'w cred_env \<Rightarrow> string \<Rightarrow> int \<Rightarrow> string \<Rightarrow> string \<Rightarrow> CredentialPlaintext \<Rightarrow> 'w \<Rightarrow> ((cred_error + string) \<times> 'w) option" where
  "App_SaveCredential D masterKeyEnv userID exchange kind p w = (case LoadMasterKey (ce_getenv D) masterKeyEnv of
     Inl e \<Rightarrow> Some (Inl (MasterKey e), w)
   | Inr masterKey \<Rightarrow> (case Encrypt D masterKey (json_texts (plaintext_members p)) (credentialAAD exchange kind) w of
       None \<Rightarrow> None
     | Some (Inl e, w1) \<Rightarrow> Some (Inl e, w1)
     | Some (Inr blob, w1) \<Rightarrow> (case Cred_Save D userID exchange kind blob (Fingerprint (cp_Key p)) w1 of
         (Some e, w2) \<Rightarrow> Some (Inl e, w2)
       | (None, w2) \<Rightarrow> Some (Inr (Fingerprint (cp_Key p)),
           audit_quietly D (cred_audit ''CREDENTIAL_SAVED'' exchange
             [(''exchange'', exchange), (''kind'', kind), (''fingerprint'', Fingerprint (cp_Key p))]) w2))))"

definition App_RevokeCredential :: "'w cred_env \<Rightarrow> int \<Rightarrow> string \<Rightarrow> string \<Rightarrow> 'w \<Rightarrow> cred_error option \<times> 'w" where
  "App_RevokeCredential D userID exchange kind w = (case Cred_Revoke D userID exchange kind w of
     (Some e, w1) \<Rightarrow> (Some e, w1)
   | (None, w1) \<Rightarrow> (None, audit_quietly D (cred_audit ''CREDENTIAL_REVOKED'' exchange
       [(''exchange'', exchange), (''kind'', kind)]) w1))"

definition LoadDecrypted ::
  "'w cred_env \<Rightarrow> string \<Rightarrow> int \<Rightarrow> string \<Rightarrow> string \<Rightarrow> 'w \<Rightarrow> ((cred_error + CredentialPlaintext) \<times> 'w) option" where
  "LoadDecrypted D masterKeyEnv userID exchange kind w = (case LoadMasterKey (ce_getenv D) masterKeyEnv of
     Inl e \<Rightarrow> Some (Inl (MasterKey e), w)
   | Inr masterKey \<Rightarrow> (case Cred_Load D userID exchange kind w of
       (Inl e, w1) \<Rightarrow> Some (Inl e, w1)
     | (Inr blob, w1) \<Rightarrow> (case Decrypt masterKey (Some blob) (credentialAAD exchange kind) of
         None \<Rightarrow> None
       | Some (Inl e) \<Rightarrow> Some (Inl e, w1)
       | Some (Inr plain) \<Rightarrow> (case Unmarshal plaintext_shape plain of
           None \<Rightarrow> Some (Inl CredentialFormat, w1)
         | Some j \<Rightarrow>
             if trim_space (cp_Key (plaintext_of j)) = [] \<or> trim_space (cp_Secret (plaintext_of j)) = []
             then Some (Inl CredentialEmpty, w1) else Some (Inr (plaintext_of j), w1)))))"

definition App_ClaimOwner :: "'w cred_env \<Rightarrow> int \<Rightarrow> 'w \<Rightarrow> (cred_error + bool) \<times> 'w" where
  "App_ClaimOwner D telegramID w = (case Users_ClaimOwner D telegramID w of
     (Inl e, w1) \<Rightarrow> (Inl e, w1)
   | (Inr claimed, w1) \<Rightarrow> (Inr claimed,
       if claimed then audit_quietly D \<lparr>au_actor = ''system:auth'', au_action = ''OWNER_CLAIMED'', au_correlation = None,
         au_params = [(''telegram_id'', format_int telegramID)], au_result = ''ok''\<rparr> w1
       else w1))"

section \<open>What is relied on\<close>

abbreviation active_row :: "CredRow \<Rightarrow> bool" where
  "active_row row \<equiv> cw_revoked_at row = None"

definition active :: "(cred_key \<rightharpoonup> CredRow) \<Rightarrow> cred_key \<Rightarrow> bool" where
  "active rows k = (case rows k of None \<Rightarrow> False | Some row \<Rightarrow> active_row row)"

lemma active_iff: "active rows k \<longleftrightarrow> (\<exists>row. rows k = Some row \<and> active_row row)"
  by (simp add: active_def split: option.split)

text \<open>The statements on the table; \<open>created\<close> is what \<open>DEFAULT now()\<close> gives a new row.\<close>

fun apply_cred :: "time \<Rightarrow> cred_stmt \<Rightarrow> (cred_key \<rightharpoonup> CredRow) \<Rightarrow> (cred_key \<rightharpoonup> CredRow)" where
  "apply_cred created (UpsertCred k fp blob now) rows = rows(k \<mapsto> (case rows k of
     None \<Rightarrow> \<lparr>cw_fingerprint = fp, cw_blob = blob, cw_rotated_at = None, cw_created_at = created, cw_revoked_at = None\<rparr>
   | Some row \<Rightarrow> row\<lparr>cw_fingerprint := fp, cw_blob := blob, cw_rotated_at := Some now, cw_revoked_at := None\<rparr>))"
| "apply_cred created (RevokeCred k now) rows = (case rows k of
     None \<Rightarrow> rows
   | Some row \<Rightarrow> if active_row row then rows(k \<mapsto> row\<lparr>cw_revoked_at := Some now\<rparr>) else rows)"

fun affected :: "cred_stmt \<Rightarrow> (cred_key \<rightharpoonup> CredRow) \<Rightarrow> int" where
  "affected (UpsertCred k fp blob now) rows = 1"
| "affected (RevokeCred k now) rows = (if active rows k then 1 else 0)"

definition info_of :: "cred_key \<Rightarrow> CredRow \<Rightarrow> CredentialInfo" where
  "info_of k row = \<lparr>ci_Exchange = fst (snd k), ci_Kind = snd (snd k), ci_Fingerprint = cw_fingerprint row,
     ci_CreatedAt = cw_created_at row, ci_RotatedAt = cw_rotated_at row, ci_Revoked = (cw_revoked_at row \<noteq> None)\<rparr>"

locale cred_store =
  fixes D :: "'w cred_env" and creds :: "'w \<Rightarrow> cred_key \<rightharpoonup> CredRow"
  assumes rand_length: "ce_rand D n w = (Some bs, w1) \<Longrightarrow> length bs = n"
    and rand_frame: "ce_rand D n w = (r, w1) \<Longrightarrow> creds w1 = creds w"
    and exec_ok: "ce_Exec D s w = (Inr m, w1) \<Longrightarrow> (\<exists>t. creds w1 = apply_cred t s (creds w)) \<and> m = affected s (creds w)"
    and exec_failed: "ce_Exec D s w = (Inl e, w1) \<Longrightarrow> creds w1 = creds w \<or> (\<exists>t. creds w1 = apply_cred t s (creds w))"
    and blob_ok: "ce_SelectBlob D k w = (Inr b, w1) \<Longrightarrow> \<exists>row. creds w k = Some row \<and> active_row row \<and> cw_blob row = b"
    and blob_missing: "ce_SelectBlob D k w = (Inl DbNoRows, w1) \<Longrightarrow> \<not> active (creds w) k"
    and blob_frame: "ce_SelectBlob D k w = (q, w1) \<Longrightarrow> creds w1 = creds w"
    and all_ok: "ce_SelectAll D u w = (Inr infos, w1) \<Longrightarrow>
          set infos = {info_of k row |k row. creds w k = Some row \<and> fst k = u} \<and> distinct (map (\<lambda>i. (ci_Exchange i, ci_Kind i)) infos)"
    and all_frame: "ce_SelectAll D u w = (l, w1) \<Longrightarrow> creds w1 = creds w"
    and exists_ok: "ce_SelectExists D k w = (Inr x, w1) \<Longrightarrow> x = active (creds w) k"
    and audit_frame: "creds (snd (ce_Begin D w)) = creds w" "creds (snd (ce_TxAudit D a w)) = creds w"
          "creds (snd (ce_Commit D w)) = creds w"

section \<open>What was sealed opens\<close>

lemma NewCipher_32: "length key = keyLen \<Longrightarrow> \<exists>ks. NewCipher key = Some ks"
  by (simp add: NewCipher_def keyLen_def)

context cred_store
begin

lemma audit_quietly_frame [simp]: "creds (audit_quietly D a w) = creds w"
proof -
  obtain e w1 where b: "ce_Begin D w = (e, w1)" by fastforce
  then have "creds w1 = creds w" using audit_frame(1) [of w] by simp
  then show ?thesis using b by (cases e) (simp_all add: audit_quietly_def audit_frame(2,3))
qed

lemma seal_opens:
  assumes "cred_seal D key pt aad w = Some (Inr data, w1)"
  shows "cred_open key data aad = Some (Inr pt) \<and> creds w1 = creds w"
proof -
  obtain ks nonce c where k: "NewCipher key = Some ks" and r: "ce_rand D gcm_NonceSize w = (Some nonce, w1)"
    and s: "gcm_Seal ks nonce pt aad = Some c" and d: "data = nonce @ c"
    using assms by (auto simp: cred_seal_def split: option.splits prod.splits)
  have n: "length nonce = gcm_NonceSize" "length pt \<le> gcm_max" "good_keys ks"
    using rand_length [OF r] s NewCipher_good [OF k] by (auto simp: gcm_Seal_def split: if_splits)
  have "gcm_Open ks nonce c aad = Some (Inr pt)" using gcm_Open_Seal [OF n(3,1,2), of aad] s by auto
  then show ?thesis using rand_frame [OF r] n(1) by (simp add: cred_open_def k d)
qed

lemma Encrypt_decrypts:
  assumes "Encrypt D mk pt aad w = Some (Inr b, w1)"
  shows "Decrypt mk (Some b) aad = Some (Inr pt) \<and> creds w1 = creds w"
proof -
  obtain dek w2 ct w3 enc where r: "ce_rand D keyLen w = (Some dek, w2)" and s: "cred_seal D dek pt aad w2 = Some (Inr ct, w3)"
    "cred_seal D mk dek aad w3 = Some (Inr enc, w1)" and b: "b = \<lparr>bl_Version = BlobVersion, bl_EncDEK = enc, bl_Ciphertext = ct\<rparr>"
    using assms by (auto simp: Encrypt_def split: if_splits option.splits prod.splits sum.splits)
  show ?thesis using seal_opens [OF s(1)] seal_opens [OF s(2)] rand_frame [OF r] by (simp add: Decrypt_def b)
qed

lemma Save_stores:
  assumes "App_SaveCredential D env u ex kind p w = Some (Inr fp, w1)"
  shows "\<exists>mk blob row. LoadMasterKey (ce_getenv D) env = Inr mk
     \<and> Decrypt mk (Some blob) (credentialAAD ex kind) = Some (Inr (json_texts (plaintext_members p)))
     \<and> creds w1 (u, ex, kind) = Some row \<and> cw_blob row = blob \<and> active_row row \<and> cw_fingerprint row = fp \<and> fp = Fingerprint (cp_Key p)
     \<and> (\<forall>k. k \<noteq> (u, ex, kind) \<longrightarrow> creds w1 k = creds w k)"
proof -
  obtain mk where m: "LoadMasterKey (ce_getenv D) env = Inr mk"
    using assms by (cases "LoadMasterKey (ce_getenv D) env") (simp_all add: App_SaveCredential_def)
  let ?E = "Encrypt D mk (json_texts (plaintext_members p)) (credentialAAD ex kind) w"
  obtain blob w2 where e: "?E = Some (Inr blob, w2)"
    using assms by (cases ?E) (auto simp: App_SaveCredential_def m split: sum.splits)
  obtain x w3 where s: "Cred_Save D u ex kind blob (Fingerprint (cp_Key p)) w2 = (x, w3)" by fastforce
  have x: "x = None" and fp: "fp = Fingerprint (cp_Key p)" and a: "\<exists>a. w1 = audit_quietly D a w3"
    using assms by (cases x; auto simp: App_SaveCredential_def m e s)+
  obtain n where "ce_Exec D (UpsertCred (u, ex, kind) (Fingerprint (cp_Key p)) blob (ce_Now D w2)) w2 = (Inr n, w3)"
    using s by (auto simp: Cred_Save_def x split: prod.splits sum.splits)
  then obtain t where "creds w3 = apply_cred t (UpsertCred (u, ex, kind) (Fingerprint (cp_Key p)) blob (ce_Now D w2)) (creds w2)"
    using exec_ok by blast
  then show ?thesis using Encrypt_decrypts [OF e] m fp a by (auto split: option.splits)
qed

lemma Load_reads:
  assumes "Cred_Load D u ex kind w = (r, w1)"
  shows "creds w1 = creds w"
    and "r = Inr b \<Longrightarrow> \<exists>row. creds w (u, ex, kind) = Some row \<and> active_row row \<and> cw_blob row = b"
    and "r = Inl ErrCredentialNotFound \<Longrightarrow> \<not> active (creds w) (u, ex, kind)"
  using assms blob_frame blob_ok blob_missing
  by (auto simp: Cred_Load_def split: prod.splits sum.splits if_splits)

lemma Revoke_applied:
  assumes "Cred_Revoke D u ex kind w = (r, w1)"
  shows "r = None \<Longrightarrow> \<not> active (creds w1) (u, ex, kind)"
    and "k \<noteq> (u, ex, kind) \<Longrightarrow> creds w1 k = creds w k"
    and "\<not> active (creds w) k \<Longrightarrow> \<not> active (creds w1) k"
    and "r = Some ErrCredentialNotFound \<Longrightarrow> \<not> active (creds w) (u, ex, kind) \<and> creds w1 = creds w"
proof -
  let ?s = "RevokeCred (u, ex, kind) (ce_Now D w)"
  obtain q where q: "ce_Exec D ?s w = (q, w1)" and r: "r = (case q of Inl e \<Rightarrow> Some (CredDb e) | Inr n \<Rightarrow> if n = 0 then Some ErrCredentialNotFound else None)"
    using assms by (auto simp: Cred_Revoke_def split: prod.splits sum.splits)
  have applied: "creds w1 = creds w \<or> (\<exists>t. creds w1 = apply_cred t ?s (creds w))"
    using exec_ok [of ?s w] exec_failed [of ?s w] q by (cases q) blast+
  { assume "k \<noteq> (u, ex, kind)" then show "creds w1 k = creds w k" using applied by (auto split: option.splits) }
  { assume "\<not> active (creds w) k" then show "\<not> active (creds w1) k" using applied by (auto simp: active_iff split: option.splits if_splits) }
  { assume "r = None"
    then obtain n where "q = Inr n" using r by (cases q) auto
    then show "\<not> active (creds w1) (u, ex, kind)" using exec_ok [of ?s w n w1] q by (auto simp: active_iff split: option.splits) }
  { assume "r = Some ErrCredentialNotFound"
    then have "q = Inr 0" using r by (cases q) (auto split: if_splits)
    then show "\<not> active (creds w) (u, ex, kind) \<and> creds w1 = creds w" using exec_ok [of ?s w 0 w1] q
      by (auto simp: active_iff split: option.splits if_splits) }
qed

end

lemma plaintext_reads:
  assumes "ascii (cp_Key p)" and "ascii (cp_Secret p)" and "ascii (cp_Passphrase p)"
  shows "\<exists>j. Unmarshal plaintext_shape (json_texts (plaintext_members p)) = Some j \<and> plaintext_of j = p"
proof -
  have names: "ascii ''key''" "ascii ''secret''" "ascii ''passphrase''" by (simp_all add: ascii_def)
  then have "json_read (json_texts (plaintext_members p)) = Some (JObj (map (\<lambda>(k, v). (k, JStr v)) (plaintext_members p)))"
    using assms by (intro json_texts_read) (auto simp: plaintext_members_def)
  then show ?thesis
    by (auto simp: Unmarshal_def plaintext_shape_def plaintext_members_def plaintext_of_def decode_scalar_def field_for_def js_str_def)
qed

text \<open>
  C36: the keys an operator saved are the keys the worker reads: after a save that
  was accepted, as long as the row is not touched and the query is answered, LoadDecrypted returns key, secret and
  passphrase as they were entered (ASCII text, key and secret not blank); what the table and the Mini App see of the
  key is its fingerprint, and no other row was changed.
\<close>

theorem credential_roundtrip:
  assumes "cred_store D creds" and "App_SaveCredential D env u ex kind p w = Some (Inr fp, w1)"
    and "creds w2 (u, ex, kind) = creds w1 (u, ex, kind)"
    and "ce_SelectBlob D (u, ex, kind) w2 = (q, w3)" and "\<forall>e. q \<noteq> Inl (DbFailed e)"
    and "ascii (cp_Key p)" and "ascii (cp_Secret p)" and "ascii (cp_Passphrase p)"
    and "trim_space (cp_Key p) \<noteq> []" and "trim_space (cp_Secret p) \<noteq> []"
  shows "LoadDecrypted D env u ex kind w2 = Some (Inr p, w3)
     \<and> fp = Fingerprint (cp_Key p) \<and> (\<exists>row. creds w1 (u, ex, kind) = Some row \<and> cw_fingerprint row = fp)
     \<and> (\<forall>k. k \<noteq> (u, ex, kind) \<longrightarrow> creds w1 k = creds w k)"
proof -
  obtain mk blob row where m: "LoadMasterKey (ce_getenv D) env = Inr mk"
    and d: "Decrypt mk (Some blob) (credentialAAD ex kind) = Some (Inr (json_texts (plaintext_members p)))"
    and row: "creds w1 (u, ex, kind) = Some row" "cw_blob row = blob" "active_row row" "cw_fingerprint row = fp" "fp = Fingerprint (cp_Key p)"
    and other: "\<forall>k. k \<noteq> (u, ex, kind) \<longrightarrow> creds w1 k = creds w k"
    using cred_store.Save_stores [OF assms(1,2)] by blast
  have "q = Inr blob"
  proof (cases q)
    case (Inl e)
    then show ?thesis using cred_store.blob_missing [OF assms(1), of "(u, ex, kind)" w2 w3] assms(3-5) row by (cases e) (auto simp: active_iff)
  next
    case (Inr b)
    then show ?thesis using cred_store.blob_ok [OF assms(1)] assms(3,4) row by fastforce
  qed
  then have l: "Cred_Load D u ex kind w2 = (Inr blob, w3)" using assms(4) by (simp add: Cred_Load_def)
  obtain j where "Unmarshal plaintext_shape (json_texts (plaintext_members p)) = Some j" "plaintext_of j = p"
    using plaintext_reads [OF assms(6-8)] by blast
  then show ?thesis using row other assms(9,10) by (simp add: LoadDecrypted_def m l d)
qed

section \<open>A table in memory\<close>

record cdb_state =
  cs_rows :: "cred_key \<rightharpoonup> CredRow"
  cs_log :: "auditRow list"

definition mem_keys :: "int \<Rightarrow> (cred_key \<rightharpoonup> CredRow) \<Rightarrow> (string \<times> string) list" where
  "mem_keys u rows = filter (\<lambda>(ex, kind). rows (u, ex, kind) \<noteq> None) (List.product SupportedExchanges [''trade'', ''withdrawal''])"

text \<open>
  PostgreSQL with the rows of the supported exchanges and the two kinds, a random source that repeats itself and a
  master key of zeros.
\<close>

definition mem_env :: "cdb_state cred_env" where
  "mem_env = \<lparr>ce_getenv = [''FANDOS_MASTER_KEY'' \<mapsto> ''AAAAAAAAAAAAAAAAAAAAAAAAAAAAAAAAAAAAAAAAAAA=''],
     ce_rand = (\<lambda>n s. (Some (replicate n CHR ''r''), s)), ce_Now = (\<lambda>s. 7),
     ce_Exec = (\<lambda>st s. (Inr (affected st (cs_rows s)), s\<lparr>cs_rows := apply_cred 0 st (cs_rows s)\<rparr>)),
     ce_SelectBlob = (\<lambda>k s. (case cs_rows s k of
        Some row \<Rightarrow> if active_row row then Inr (cw_blob row) else Inl DbNoRows | None \<Rightarrow> Inl DbNoRows, s)),
     ce_SelectAll = (\<lambda>u s. (if \<forall>k \<in> dom (cs_rows s). snd k \<in> set (List.product SupportedExchanges [''trade'', ''withdrawal''])
        then Inr (map (\<lambda>k. info_of (u, k) (the (cs_rows s (u, k)))) (mem_keys u (cs_rows s))) else Inl (DbFailed ''rows''), s)),
     ce_SelectExists = (\<lambda>k s. (Inr (active (cs_rows s) k), s)), ce_Begin = (\<lambda>s. (None, s)),
     ce_TxAudit = (\<lambda>a s. (None, s\<lparr>cs_log := cs_log s @ [a]\<rparr>)), ce_Commit = (\<lambda>s. (None, s)),
     ce_ClaimUser = (\<lambda>i s. (Inr 1, s)), ce_SelectOwner = (\<lambda>s. (Inr 1, s))\<rparr>"

lemma mem_key_set: "(ex, kind) \<in> set (List.product SupportedExchanges [''trade'', ''withdrawal'']) \<Longrightarrow> rows (u, ex, kind) = Some row
   \<Longrightarrow> (ex, kind) \<in> set (mem_keys u rows)"
  by (simp add: mem_keys_def)

lemma mem_keys_rows: "(ex, kind) \<in> set (mem_keys u rows) \<Longrightarrow> \<exists>row. rows (u, ex, kind) = Some row"
  by (auto simp: mem_keys_def)

lemma distinct_mem_keys: "distinct (mem_keys u rows)"
proof -
  have "distinct SupportedExchanges" by code_simp
  then show ?thesis unfolding mem_keys_def by (intro distinct_filter distinct_product) simp_all
qed

lemma mem_all:
  fixes u :: int and rows :: "cred_key \<rightharpoonup> CredRow"
  assumes "\<forall>k \<in> dom rows. snd k \<in> set (List.product SupportedExchanges [''trade'', ''withdrawal''])"
  defines "infos \<equiv> map (\<lambda>k. info_of (u, k) (the (rows (u, k)))) (mem_keys u rows)"
  shows "set infos = {info_of k row |k row. rows k = Some row \<and> fst k = u} \<and> distinct (map (\<lambda>i. (ci_Exchange i, ci_Kind i)) infos)"
proof
  have "info_of (u, k) row \<in> set infos" if "rows (u, k) = Some row" for k row
  proof -
    have "k \<in> set (mem_keys u rows)" using assms(1) that mem_key_set [of "fst k" "snd k" rows u row] by force
    then show ?thesis using that by (force simp: infos_def)
  qed
  moreover have "\<exists>k row. i = info_of k row \<and> rows k = Some row \<and> fst k = u" if "i \<in> set infos" for i
    using that mem_keys_rows [of _ _ u rows] by (force simp: infos_def)
  ultimately show "set infos = {info_of k row |k row. rows k = Some row \<and> fst k = u}" by force
  have "map (\<lambda>i. (ci_Exchange i, ci_Kind i)) infos = mem_keys u rows" by (simp add: infos_def comp_def info_of_def)
  then show "distinct (map (\<lambda>i. (ci_Exchange i, ci_Kind i)) infos)" using distinct_mem_keys by simp
qed

lemma mem_cred_store: "cred_store mem_env cs_rows"
proof
  fix u infos and w w1 :: cdb_state
  assume "ce_SelectAll mem_env u w = (Inr infos, w1)"
  then have c: "\<forall>k \<in> dom (cs_rows w). snd k \<in> set (List.product SupportedExchanges [''trade'', ''withdrawal''])"
    and i: "infos = map (\<lambda>k. info_of (u, k) (the (cs_rows w (u, k)))) (mem_keys u (cs_rows w))"
    by (auto simp: mem_env_def simp del: set_product split: if_splits)
  show "set infos = {info_of k row |k row. cs_rows w k = Some row \<and> fst k = u} \<and> distinct (map (\<lambda>i. (ci_Exchange i, ci_Kind i)) infos)"
    unfolding i by (rule mem_all [OF c])
qed (auto simp: mem_env_def active_iff split: option.splits if_splits)

interpretation mem: cred_store mem_env cs_rows
  by (rule mem_cred_store)

lemma mem_seal:
  assumes "length key = keyLen" and "length pt \<le> gcm_max"
  shows "\<exists>c. cred_seal mem_env key pt aad s = Some (Inr c, s)"
proof -
  obtain ks where k: "NewCipher key = Some ks" using NewCipher_32 [OF assms(1)] by blast
  obtain c where "gcm_Seal ks (replicate gcm_NonceSize CHR ''r'') pt aad = Some c"
    using gcm_Open_Seal [OF NewCipher_good [OF k] _ assms(2)] by (metis length_replicate)
  then show ?thesis by (simp add: cred_seal_def k mem_env_def)
qed

lemma mem_encrypt:
  assumes "length mk = keyLen" and "length pt \<le> gcm_max"
  shows "\<exists>b. Encrypt mem_env mk pt aad s = Some (Inr b, s)"
proof -
  let ?dek = "replicate keyLen CHR ''r''"
  obtain c where c: "cred_seal mem_env ?dek pt aad s = Some (Inr c, s)" using mem_seal assms(2) by fastforce
  have "length ?dek \<le> gcm_max" by (simp add: keyLen_def gcm_max_def)
  then obtain e where "cred_seal mem_env mk ?dek aad s = Some (Inr e, s)" using mem_seal assms(1) by blast
  moreover have "ce_rand mem_env keyLen s = (Some ?dek, s)" by (simp add: mem_env_def)
  ultimately show ?thesis using c assms(1) by (simp add: Encrypt_def)
qed

definition mem_master :: string where
  "mem_master = ''FANDOS_MASTER_KEY''"

definition example_keys :: CredentialPlaintext where
  "example_keys = \<lparr>cp_Key = ''AbCdEfGh0123'', cp_Secret = ''s3cr3t'', cp_Passphrase = []\<rparr>"

lemma mem_save:
  "\<exists>fp s'. App_SaveCredential mem_env mem_master 1 ''binance'' ''trade'' example_keys s = Some (Inr fp, s')"
proof -
  have "LoadMasterKey [''FANDOS_MASTER_KEY'' \<mapsto> ''AAAAAAAAAAAAAAAAAAAAAAAAAAAAAAAAAAAAAAAAAAA=''] mem_master
      = Inr (replicate keyLen (char_of (0 :: nat)))" by code_simp
  then have "LoadMasterKey (ce_getenv mem_env) mem_master = Inr (replicate keyLen (char_of (0 :: nat)))" by (simp add: mem_env_def)
  moreover have "length (json_texts (plaintext_members example_keys)) = 40" by code_simp
  then obtain b where "Encrypt mem_env (replicate keyLen (char_of (0 :: nat))) (json_texts (plaintext_members example_keys))
      (credentialAAD ''binance'' ''trade'') s = Some (Inr b, s)"
    using mem_encrypt [of "replicate keyLen (char_of (0 :: nat))" "json_texts (plaintext_members example_keys)"] by (auto simp: gcm_max_def)
  ultimately show ?thesis by (simp add: App_SaveCredential_def Cred_Save_def mem_env_def)
qed

theorem credential_roundtrip_witness:
  "\<exists>s'. LoadDecrypted mem_env mem_master 1 ''binance'' ''trade'' s' = Some (Inr example_keys, s')"
proof -
  obtain fp s' where s: "App_SaveCredential mem_env mem_master 1 ''binance'' ''trade'' example_keys \<lparr>cs_rows = Map.empty, cs_log = []\<rparr> = Some (Inr fp, s')"
    using mem_save by blast
  obtain q where q: "ce_SelectBlob mem_env (1, ''binance'', ''trade'') s' = (q, s')" and "\<forall>e. q \<noteq> Inl (DbFailed e)"
    by (auto simp: mem_env_def split: option.splits if_splits)
  moreover have "ascii (cp_Key example_keys)" "ascii (cp_Secret example_keys)" "ascii (cp_Passphrase example_keys)"
    "trim_space (cp_Key example_keys) \<noteq> []" "trim_space (cp_Secret example_keys) \<noteq> []" unfolding ascii_def by code_simp+
  ultimately show ?thesis using credential_roundtrip [OF mem_cred_store s refl q] by blast
qed

end
