(* ===== verification/KeyRotation.thy ===== *)
theory KeyRotation
  imports Credentials LiveWiring
begin

text \<open>
  The kill switch and the rotation of keys: \<open>internal/keyrotation\<close>, its wiring in \<open>internal/app\<close> (\<open>keyrotation.go\<close>)
  and the log of \<open>internal/repository\<close> (\<open>keyrotation.go\<close>), over the guard of \<open>Lifecycle\<close> and the keys of \<open>Credentials\<close>.

  Joined errors are the list of their parts.  The locale \<open>emergency\<close> puts the contracts of the lock and of the table of
  keys together, with the log of rotations beside them.
\<close>

section \<open>The log\<close>

definition PlannedRotation :: string where "PlannedRotation = ''PLANNED_ROTATION''"
definition EmergencyRotation :: string where "EmergencyRotation = ''EMERGENCY_ROTATION''"
definition KillSwitchAction :: string where "KillSwitchAction = ''KILL_SWITCH''"

datatype rot_detail = DetailCount int | DetailText string

record rotationRow =
  ro_credentialID :: "int option"
  ro_action :: string
  ro_initiator :: string
  ro_details :: "(string \<times> rot_detail) list"

datatype rot_error = CredentialIDRequired string | RotationInsert string db_error

definition Rotation_Record ::
  "(rotationRow \<Rightarrow> 'w \<Rightarrow> db_error option \<times> 'w) \<Rightarrow> string \<Rightarrow> int option \<Rightarrow> string \<Rightarrow> (string \<times> rot_detail) list \<Rightarrow> 'w
   \<Rightarrow> rot_error option \<times> 'w" where
  "Rotation_Record ins action credentialID initiator details w =
     (if action \<noteq> KillSwitchAction \<and> credentialID = None then (Some (CredentialIDRequired action), w)
      else (case ins \<lparr>ro_credentialID = credentialID, ro_action = action, ro_initiator = initiator, ro_details = details\<rparr> w of
              (e, w1) \<Rightarrow> (map_option (RotationInsert action) e, w1)))"

section \<open>Revoking\<close>

datatype revoke_error = ListCredentials cred_error | RevokeItem string string cred_error

definition ownerUserID :: int where "ownerUserID = 1"

fun revoke_items ::
  "'w cred_env \<Rightarrow> int \<Rightarrow> CredentialInfo list \<Rightarrow> int \<Rightarrow> revoke_error list \<Rightarrow> 'w \<Rightarrow> (int \<times> revoke_error list) \<times> 'w" where
  "revoke_items D userID [] revoked errs w = ((revoked, errs), w)"
| "revoke_items D userID (item # items) revoked errs w =
     (if ci_Revoked item then revoke_items D userID items revoked errs w
      else (case Cred_Revoke D userID (ci_Exchange item) (ci_Kind item) w of
              (Some e, w1) \<Rightarrow> revoke_items D userID items revoked (errs @ [RevokeItem (ci_Exchange item) (ci_Kind item) e]) w1
            | (None, w1) \<Rightarrow> revoke_items D userID items (revoked + 1) errs w1))"

definition RevokeAll :: "'w cred_env \<Rightarrow> int \<Rightarrow> 'w \<Rightarrow> (int \<times> revoke_error list) \<times> 'w" where
  "RevokeAll D userID w = (case Cred_List D userID w of
     (Inl e, w1) \<Rightarrow> ((0, [ListCredentials e]), w1)
   | (Inr items, w1) \<Rightarrow> revoke_items D userID items 0 [] w1)"

section \<open>The manager\<close>

datatype ks_error = HaltErr life_error | RevokeErr int "revoke_error list" | RecordErr rot_error

definition KillSwitch ::
  "'w lock_control \<Rightarrow> 'w cred_env \<Rightarrow> (rotationRow \<Rightarrow> 'w \<Rightarrow> db_error option \<times> 'w) \<Rightarrow> string \<Rightarrow> string \<Rightarrow> Halter \<Rightarrow> 'w
   \<Rightarrow> (ks_error list \<times> halt_output list) \<times> Halter \<times> 'w" where
  "KillSwitch C D ins initiator reason h w =
     (case Halt C reason h w of ((haltErr, out), h1, w1) \<Rightarrow>
        (case RevokeAll D ownerUserID w1 of ((revoked, revokeErrs), w2) \<Rightarrow>
          (case Rotation_Record ins KillSwitchAction None initiator [(''revoked'', DetailCount revoked)] w2 of (logErr, w3) \<Rightarrow>
            (((case haltErr of None \<Rightarrow> [] | Some e \<Rightarrow> [HaltErr e])
               @ (if revokeErrs = [] then [] else [RevokeErr revoked revokeErrs])
               @ (case logErr of None \<Rightarrow> [] | Some e \<Rightarrow> [RecordErr e]), out), h1, w3))))"

datatype rotate_error = UseKillSwitch | RotateRevoke cred_error | RotateRecord rot_error

definition RotateKey ::
  "'w cred_env \<Rightarrow> (rotationRow \<Rightarrow> 'w \<Rightarrow> db_error option \<times> 'w) \<Rightarrow> string \<Rightarrow> string \<Rightarrow> string \<Rightarrow> string \<Rightarrow> int \<Rightarrow> 'w
   \<Rightarrow> rotate_error option \<times> 'w" where
  "RotateKey D ins initiator exchange kind action credentialID w =
     (if action = KillSwitchAction then (Some UseKillSwitch, w)
      else (case Cred_Revoke D ownerUserID exchange kind w of
        (Some e, w1) \<Rightarrow> (Some (RotateRevoke e), w1)
      | (None, w1) \<Rightarrow>
          (case Rotation_Record ins action (Some credentialID) initiator
             [(''exchange'', DetailText exchange), (''kind'', DetailText kind)] w1 of
            (e, w2) \<Rightarrow> (map_option RotateRecord e, w2))))"

text \<open>The provider of the Mini App.\<close>

definition KS_Engage ::
  "'w lock_control \<Rightarrow> 'w cred_env \<Rightarrow> (rotationRow \<Rightarrow> 'w \<Rightarrow> db_error option \<times> 'w) \<Rightarrow> string \<Rightarrow> Halter \<Rightarrow> 'w
   \<Rightarrow> (ks_error list \<times> halt_output list) \<times> Halter \<times> 'w" where
  "KS_Engage C D ins reason h w = KillSwitch C D ins ''user:miniapp'' reason h w"

definition KS_Status :: "Halter \<Rightarrow> bool \<times> string" where
  "KS_Status h = IsHalted h"

text \<open>\<open>BuildLiveAdapters\<close> reads the trade keys of the owner; an exchange whose key cannot be read is skipped.\<close>

definition load_trade_key :: "'w cred_env \<Rightarrow> string \<Rightarrow> ExchangeID \<Rightarrow> 'w \<Rightarrow> CredentialPlaintext option \<times> 'w" where
  "load_trade_key D masterKeyEnv ex w = (case LoadDecrypted D masterKeyEnv ownerUserID ex ''trade'' w of
     Some (Inr p, w1) \<Rightarrow> (Some p, w1) | Some (Inl e, w1) \<Rightarrow> (None, w1) | None \<Rightarrow> (None, w))"

section \<open>What the kill switch leaves\<close>

locale emergency = lock_service C engaged + cred_store D creds
  for C :: "'w lock_control" and engaged :: "'w \<Rightarrow> string \<Rightarrow> bool" and D :: "'w cred_env" and creds :: "'w \<Rightarrow> cred_key \<rightharpoonup> CredRow" +
  fixes ins :: "rotationRow \<Rightarrow> 'w \<Rightarrow> db_error option \<times> 'w" and rotations :: "'w \<Rightarrow> rotationRow list"
  assumes engage_apart: "lc_Engage C n reason w = (x, w1) \<Longrightarrow> creds w1 = creds w \<and> rotations w1 = rotations w"
    and exec_apart: "ce_Exec D s w = (y, w1) \<Longrightarrow> engaged w1 = engaged w \<and> rotations w1 = rotations w"
    and all_apart: "ce_SelectAll D u w = (l, w1) \<Longrightarrow> engaged w1 = engaged w \<and> rotations w1 = rotations w"
    and insert_apart: "ins r w = (e, w1) \<Longrightarrow> engaged w1 = engaged w \<and> creds w1 = creds w"
    and insert_ok: "ins r w = (None, w1) \<Longrightarrow> rotations w1 = rotations w @ [r]"
begin

lemma Revoke_apart: "Cred_Revoke D u ex kind w = (r, w1) \<Longrightarrow> engaged w1 = engaged w \<and> rotations w1 = rotations w"
  using exec_apart [of "RevokeCred (u, ex, kind) (ce_Now D w)" w] by (auto simp: Cred_Revoke_def split: prod.splits sum.splits)

lemma Revoke_owner: "Cred_Revoke D u ex kind w = (r, w1) \<Longrightarrow> fst k \<noteq> u \<Longrightarrow> creds w1 k = creds w k"
  by (rule Revoke_applied(2)) auto

lemma revoke_item:
  assumes "revoke_items D u (item # items) n0 errs0 w = (res, w1)"
  obtains n2 errs2 w2 where "revoke_items D u items n2 errs2 w2 = (res, w1)" "set errs0 \<subseteq> set errs2"
    "engaged w2 = engaged w \<and> rotations w2 = rotations w" "\<forall>k. fst k \<noteq> u \<longrightarrow> creds w2 k = creds w k"
    "\<forall>k. \<not> active (creds w) k \<longrightarrow> \<not> active (creds w2) k"
    "\<not> ci_Revoked item \<longrightarrow> \<not> active (creds w2) (u, ci_Exchange item, ci_Kind item)
       \<or> (\<exists>e. RevokeItem (ci_Exchange item) (ci_Kind item) e \<in> set errs2)"
proof (cases "ci_Revoked item")
  case True
  then show ?thesis using assms that [of n0 errs0 w] by simp
next
  case False
  obtain r w2 where r: "Cred_Revoke D u (ci_Exchange item) (ci_Kind item) w = (r, w2)" by fastforce
  note step = Revoke_apart [OF r] Revoke_owner [OF r] Revoke_applied(1,3) [OF r]
  show ?thesis
  proof (cases r)
    case None
    then show ?thesis using assms False r step that [of "n0 + 1" errs0 w2] by simp
  next
    case (Some e)
    then show ?thesis
      using assms False r step that [of n0 "errs0 @ [RevokeItem (ci_Exchange item) (ci_Kind item) e]" w2] by auto
  qed
qed

lemma revoke_items_effect:
  assumes "revoke_items D u items n0 errs0 w = ((n, errs), w1)"
  shows "engaged w1 = engaged w \<and> rotations w1 = rotations w \<and> (\<forall>k. fst k \<noteq> u \<longrightarrow> creds w1 k = creds w k)
     \<and> (\<forall>k. \<not> active (creds w) k \<longrightarrow> \<not> active (creds w1) k) \<and> set errs0 \<subseteq> set errs
     \<and> (\<forall>i \<in> set items. \<not> ci_Revoked i \<longrightarrow> \<not> active (creds w1) (u, ci_Exchange i, ci_Kind i)
          \<or> (\<exists>e. RevokeItem (ci_Exchange i) (ci_Kind i) e \<in> set errs))"
  using assms
proof (induction items arbitrary: n0 errs0 w)
  case (Cons item items)
  obtain n2 errs2 w2 where rest: "revoke_items D u items n2 errs2 w2 = ((n, errs), w1)" and step: "set errs0 \<subseteq> set errs2"
    "engaged w2 = engaged w \<and> rotations w2 = rotations w" "\<forall>k. fst k \<noteq> u \<longrightarrow> creds w2 k = creds w k"
    "\<forall>k. \<not> active (creds w) k \<longrightarrow> \<not> active (creds w2) k"
    "\<not> ci_Revoked item \<longrightarrow> \<not> active (creds w2) (u, ci_Exchange item, ci_Kind item)
       \<or> (\<exists>e. RevokeItem (ci_Exchange item) (ci_Kind item) e \<in> set errs2)"
    by (rule revoke_item [OF Cons.prems])
  note IH = Cons.IH [OF rest]
  have "\<not> ci_Revoked item \<longrightarrow> \<not> active (creds w1) (u, ci_Exchange item, ci_Kind item)
       \<or> (\<exists>e. RevokeItem (ci_Exchange item) (ci_Kind item) e \<in> set errs)"
    using IH step(5) by blast
  then show ?case using IH step(1-4) by (simp only: list.set ball_simps) (metis subset_trans)
qed auto

lemma RevokeAll_effect:
  assumes "RevokeAll D u w = ((n, errs), w1)"
  shows "engaged w1 = engaged w \<and> rotations w1 = rotations w"
    and "fst k \<noteq> u \<Longrightarrow> creds w1 k = creds w k"
    and "active (creds w1) (u, ex, kind) \<Longrightarrow> (\<exists>e. ListCredentials e \<in> set errs) \<or> (\<exists>e. RevokeItem ex kind e \<in> set errs)"
proof -
  obtain q w2 where q: "ce_SelectAll D u w = (q, w2)" by fastforce
  note frame = all_frame [OF q] all_apart [OF q]
  have "(engaged w1 = engaged w \<and> rotations w1 = rotations w) \<and> (fst k \<noteq> u \<longrightarrow> creds w1 k = creds w k)
    \<and> (active (creds w1) (u, ex, kind) \<longrightarrow> (\<exists>e. ListCredentials e \<in> set errs) \<or> (\<exists>e. RevokeItem ex kind e \<in> set errs))"
  proof (cases q)
    case (Inl e)
    then show ?thesis using assms frame by (auto simp: RevokeAll_def Cred_List_def q)
  next
    case (Inr infos)
    then have r: "revoke_items D u infos 0 [] w2 = ((n, errs), w1)" using assms by (simp add: RevokeAll_def Cred_List_def q)
    note eff = revoke_items_effect [OF r] and listed = all_ok [of u w infos w2, THEN conjunct1]
    have "\<exists>e. RevokeItem ex kind e \<in> set errs" if a: "active (creds w1) (u, ex, kind)"
    proof -
      have "active (creds w) (u, ex, kind)" using eff a frame(1) by metis
      then obtain row where "creds w (u, ex, kind) = Some row" "active_row row" by (auto simp: active_iff)
      then have "info_of (u, ex, kind) row \<in> set infos" "\<not> ci_Revoked (info_of (u, ex, kind) row)"
        using listed q Inr by (force simp: info_of_def)+
      then show ?thesis using eff a by (fastforce simp: info_of_def)
    qed
    then show ?thesis using eff frame by metis
  qed
  then show "engaged w1 = engaged w \<and> rotations w1 = rotations w" "fst k \<noteq> u \<Longrightarrow> creds w1 k = creds w k"
    "active (creds w1) (u, ex, kind) \<Longrightarrow> (\<exists>e. ListCredentials e \<in> set errs) \<or> (\<exists>e. RevokeItem ex kind e \<in> set errs)" by blast+
qed

end

context emergency
begin

lemma KillSwitch_effect:
  assumes "KillSwitch C D ins initiator reason h w = ((errs, out), h1, w1)"
  shows "IsHalted h1 = (True, reason)"
    and "(\<forall>e. HaltErr e \<notin> set errs) \<longrightarrow> engaged w1 SafeHaltName"
    and "active (creds w1) (ownerUserID, ex, kind) \<longrightarrow>
           (\<exists>n es. RevokeErr n es \<in> set errs \<and> ((\<exists>e. ListCredentials e \<in> set es) \<or> (\<exists>e. RevokeItem ex kind e \<in> set es)))"
    and "(\<forall>e. RecordErr e \<notin> set errs) \<longrightarrow> (\<exists>n. rotations w1 = rotations w
           @ [\<lparr>ro_credentialID = None, ro_action = KillSwitchAction, ro_initiator = initiator, ro_details = [(''revoked'', DetailCount n)]\<rparr>])"
    and "fst k \<noteq> ownerUserID \<longrightarrow> creds w1 k = creds w k"
proof -
  obtain he out' h2 w2 where a: "Halt C reason h w = ((he, out'), h2, w2)" by (metis surj_pair)
  obtain n es w3 where b: "RevokeAll D ownerUserID w2 = ((n, es), w3)" by (metis surj_pair)
  obtain le w4 where c: "Rotation_Record ins KillSwitchAction None initiator [(''revoked'', DetailCount n)] w3 = (le, w4)" by fastforce
  have eq: "h1 = h2" "w1 = w4" "errs = (case he of None \<Rightarrow> [] | Some e \<Rightarrow> [HaltErr e])
      @ (if es = [] then [] else [RevokeErr n es]) @ (case le of None \<Rightarrow> [] | Some e \<Rightarrow> [RecordErr e])"
    using assms by (simp_all add: KillSwitch_def a b c)
  obtain x where x: "lc_Engage C SafeHaltName reason w = (x, w2)" and he: "he = map_option PersistError x"
    using a by (auto simp: Halt_def Let_def split: prod.splits option.splits)
  note RA = RevokeAll_effect [OF b]
  obtain e where ins: "ins \<lparr>ro_credentialID = None, ro_action = KillSwitchAction, ro_initiator = initiator,
      ro_details = [(''revoked'', DetailCount n)]\<rparr> w3 = (e, w4)" and le: "le = map_option (RotationInsert KillSwitchAction) e"
    using c by (auto simp: Rotation_Record_def split: prod.splits)
  note apart = engage_apart [OF x] insert_apart [OF ins]
  show "IsHalted h1 = (True, reason)" using Halt_stops [OF a] by (simp add: eq IsHalted_def)
  show "(\<forall>e. HaltErr e \<notin> set errs) \<longrightarrow> engaged w1 SafeHaltName"
    using engage_ok [of SafeHaltName reason w w2] x he apart(2) RA(1) by (auto simp: eq)
  show "active (creds w1) (ownerUserID, ex, kind) \<longrightarrow>
      (\<exists>n es. RevokeErr n es \<in> set errs \<and> ((\<exists>e. ListCredentials e \<in> set es) \<or> (\<exists>e. RevokeItem ex kind e \<in> set es)))"
  proof
    assume "active (creds w1) (ownerUserID, ex, kind)"
    then have "(\<exists>e. ListCredentials e \<in> set es) \<or> (\<exists>e. RevokeItem ex kind e \<in> set es)" using RA(3) apart(2) eq(2) by auto
    moreover from this have "RevokeErr n es \<in> set errs" by (auto simp: eq(3))
    ultimately show "\<exists>n es. RevokeErr n es \<in> set errs \<and> ((\<exists>e. ListCredentials e \<in> set es) \<or> (\<exists>e. RevokeItem ex kind e \<in> set es))" by blast
  qed
  show "(\<forall>e. RecordErr e \<notin> set errs) \<longrightarrow> (\<exists>n. rotations w1 = rotations w
      @ [\<lparr>ro_credentialID = None, ro_action = KillSwitchAction, ro_initiator = initiator, ro_details = [(''revoked'', DetailCount n)]\<rparr>])"
    using insert_ok [of _ w3 w4] ins le RA(1) apart(1) by (cases e) (auto simp: eq)
  show "fst k \<noteq> ownerUserID \<longrightarrow> creds w1 k = creds w k" using RA(2) apart by (auto simp: eq)
qed

end

text \<open>Decrypting never panics: the nonce it hands to the cipher is cut to its length.\<close>

lemma cred_open_returns: "cred_open key data aad \<noteq> None"
  by (simp add: cred_open_def gcm_Open_def Let_def split: option.split sum.split)

lemma LoadDecrypted_inactive:
  assumes "cred_store D creds" and "\<not> active (creds w) (u, ex, kind)"
  shows "\<exists>e w1. LoadDecrypted D env u ex kind w = Some (Inl e, w1) \<and> creds w1 = creds w"
proof (cases "LoadMasterKey (ce_getenv D) env")
  case (Inr mk)
  obtain r w1 where r: "Cred_Load D u ex kind w = (r, w1)" by fastforce
  then obtain e where "r = Inl e" using cred_store.Load_reads(2) [OF assms(1) r] assms(2) by (cases r) (auto simp: active_iff)
  then show ?thesis using cred_store.Load_reads(1) [OF assms(1) r] r Inr by (simp add: LoadDecrypted_def)
qed (simp add: LoadDecrypted_def)

lemma build_live_nothing:
  assumes "cred_store D creds" and "\<forall>ex. \<not> active (creds w) (ownerUserID, ex, ''trade'')"
  shows "fst (build_live (load_trade_key D env) build exs out w) = out"
  using assms(2)
proof (induction exs arbitrary: w)
  case (Cons ex exs)
  obtain e w1 where "LoadDecrypted D env ownerUserID ex ''trade'' w = Some (Inl e, w1)" "creds w1 = creds w"
    using LoadDecrypted_inactive [OF assms(1), of w ownerUserID ex "''trade''" env] Cons.prems by blast
  then show ?case using Cons.IH [of w1] Cons.prems by (simp add: load_trade_key_def)
qed simp

text \<open>
  C12: pulling the kill switch always halts the process it is pulled in, whatever fails. Every key of the
  owner is revoked but those whose revocation, or the listing of which, is among the returned errors, and no other
  row is touched; without a halt error SAFE_HALT is in the database, without a log error the log has the entry.
\<close>

theorem kill_switch_complete:
  assumes "emergency C engaged D creds ins rotations"
    and "KillSwitch C D ins initiator reason h w = ((errs, out), h1, w1)"
  shows "IsHalted h1 = (True, reason)
     \<and> ((\<forall>e. HaltErr e \<notin> set errs) \<longrightarrow> engaged w1 SafeHaltName)
     \<and> (active (creds w1) (ownerUserID, ex, kind) \<longrightarrow>
          (\<exists>n es. RevokeErr n es \<in> set errs \<and> ((\<exists>e. ListCredentials e \<in> set es) \<or> (\<exists>e. RevokeItem ex kind e \<in> set es))))
     \<and> ((\<forall>e. RecordErr e \<notin> set errs) \<longrightarrow> (\<exists>n. rotations w1 = rotations w
          @ [\<lparr>ro_credentialID = None, ro_action = KillSwitchAction, ro_initiator = initiator, ro_details = [(''revoked'', DetailCount n)]\<rparr>]))
     \<and> (fst k \<noteq> ownerUserID \<longrightarrow> creds w1 k = creds w k)"
  using emergency.KillSwitch_effect [OF assms] by blast

text \<open>
  C14: after a kill switch without errors no process can start trading: one that starts comes up
  halted, unless its lock query fails, and in any case finds no key to build an adapter from, until keys are entered again.
\<close>

theorem kill_switch_blocks_restart:
  assumes "lock_table P rows" and "emergency (locks_repo P) (\<lambda>w. row_engaged (rows w)) D creds ins rotations"
    and "KillSwitch (locks_repo P) D ins initiator reason h w = (([], out), h1, w1)"
    and "rows w2 = rows w1" and "creds w2 = creds w1"
  shows "(query_failed P w2 \<or> fst (IsHalted (fst (snd (RestoreFromDB (locks_repo P) (NewHalter nt sl) w2)))))
     \<and> (\<exists>w3. BuildLiveAdapters (load_trade_key D env) build w2 = (Inl (ErrTooFewAdapters 0), w3))"
proof
  note eff = emergency.KillSwitch_effect [OF assms(2,3)]
  have l: "row_engaged (rows w2) SafeHaltName" using eff(2) assms(4) by simp
  obtain e hn wn where r: "RestoreFromDB (locks_repo P) (NewHalter nt sl) w2 = (e, hn, wn)" by (metis surj_pair)
  show "query_failed P w2 \<or> fst (IsHalted (fst (snd (RestoreFromDB (locks_repo P) (NewHalter nt sl) w2))))"
    using lock_table.Restore_reads(3) [OF assms(1) r] l by (auto simp: r IsHalted_def)
  have "cred_store D creds" using assms(2) by (simp add: emergency_def)
  moreover have "\<forall>ex. \<not> active (creds w2) (ownerUserID, ex, ''trade'')" using eff(3) assms(5) by auto
  ultimately have "fst (build_live (load_trade_key D env) build SupportedExchanges [] w2) = []" by (rule build_live_nothing)
  then obtain w3 where "build_live (load_trade_key D env) build SupportedExchanges [] w2 = ([], w3)" by (metis prod.collapse)
  then show "\<exists>w3. BuildLiveAdapters (load_trade_key D env) build w2 = (Inl (ErrTooFewAdapters 0), w3)"
    by (auto simp: BuildLiveAdapters_def)
qed

section \<open>A database\<close>

text \<open>The locks, the keys and the log in one database.\<close>

record ks_world =
  kw_pg :: Pg
  kw_keys :: cdb_state
  kw_log :: "rotationRow list"

definition on_pg :: "(Pg \<Rightarrow> 'a \<times> Pg) \<Rightarrow> ks_world \<Rightarrow> 'a \<times> ks_world" where
  "on_pg f w = (case f (kw_pg w) of (r, d) \<Rightarrow> (r, w\<lparr>kw_pg := d\<rparr>))"

definition on_keys :: "(cdb_state \<Rightarrow> 'a \<times> cdb_state) \<Rightarrow> ks_world \<Rightarrow> 'a \<times> ks_world" where
  "on_keys f w = (case f (kw_keys w) of (r, s) \<Rightarrow> (r, w\<lparr>kw_keys := s\<rparr>))"

definition kw_pool :: "ks_world pool" where
  "kw_pool = \<lparr>pl_Now = (\<lambda>w. 0), pl_Exec = (\<lambda>s. on_pg (pl_Exec Lifecycle.pg_pool s)),
     pl_QueryEngaged = (\<lambda>n. on_pg (pl_QueryEngaged Lifecycle.pg_pool n)), pl_QueryOwner = on_pg (pl_QueryOwner Lifecycle.pg_pool)\<rparr>"

definition kw_env :: "ks_world cred_env" where
  "kw_env = \<lparr>ce_getenv = ce_getenv mem_env, ce_rand = (\<lambda>n. on_keys (ce_rand mem_env n)), ce_Now = (\<lambda>w. 7),
     ce_Exec = (\<lambda>s. on_keys (ce_Exec mem_env s)), ce_SelectBlob = (\<lambda>k. on_keys (ce_SelectBlob mem_env k)),
     ce_SelectAll = (\<lambda>u. on_keys (ce_SelectAll mem_env u)), ce_SelectExists = (\<lambda>k. on_keys (ce_SelectExists mem_env k)),
     ce_Begin = on_keys (ce_Begin mem_env), ce_TxAudit = (\<lambda>a. on_keys (ce_TxAudit mem_env a)), ce_Commit = on_keys (ce_Commit mem_env),
     ce_ClaimUser = (\<lambda>i. on_keys (ce_ClaimUser mem_env i)), ce_SelectOwner = on_keys (ce_SelectOwner mem_env)\<rparr>"

definition kw_insert :: "rotationRow \<Rightarrow> ks_world \<Rightarrow> db_error option \<times> ks_world" where
  "kw_insert r w = (None, w\<lparr>kw_log := kw_log w @ [r]\<rparr>)"

lemma on_pg_eq: "on_pg f w = (r, w1) \<longleftrightarrow> (\<exists>d. f (kw_pg w) = (r, d) \<and> w1 = w\<lparr>kw_pg := d\<rparr>)"
  by (auto simp: on_pg_def split: prod.splits)

lemma on_keys_eq: "on_keys f w = (r, w1) \<longleftrightarrow> (\<exists>s. f (kw_keys w) = (r, s) \<and> w1 = w\<lparr>kw_keys := s\<rparr>)"
  by (auto simp: on_keys_def split: prod.splits)

lemma snd_on_keys: "kw_keys (snd (on_keys f w)) = snd (f (kw_keys w))"
  by (simp add: on_keys_def split: prod.split)

lemma kw_lock_table: "lock_table kw_pool (\<lambda>w. pg_rows (kw_pg w))"
  by unfold_locales
    (auto simp: kw_pool_def on_pg_eq dest: lock_table.exec_ok [OF pg_lock_table] lock_table.exec_failed [OF pg_lock_table]
       lock_table.query_pure [OF pg_lock_table] lock_table.query_ok [OF pg_lock_table] lock_table.query_missing [OF pg_lock_table])

interpretation kw_locks: lock_table kw_pool "\<lambda>w. pg_rows (kw_pg w)"
  by (rule kw_lock_table)

lemma kw_cred_store: "cred_store kw_env (\<lambda>w. cs_rows (kw_keys w))"
proof
  fix u infos and w w1 :: ks_world
  assume "ce_SelectAll kw_env u w = (Inr infos, w1)"
  then obtain s where "ce_SelectAll mem_env u (kw_keys w) = (Inr infos, s)" by (auto simp: kw_env_def on_keys_eq)
  from mem.all_ok [OF this]
  show "set infos = {info_of k row |k row. cs_rows (kw_keys w) k = Some row \<and> fst k = u}
     \<and> distinct (map (\<lambda>i. (ci_Exchange i, ci_Kind i)) infos)" .
next
  fix st e and w w1 :: ks_world
  assume "ce_Exec kw_env st w = (Inl e, w1)"
  then show "cs_rows (kw_keys w1) = cs_rows (kw_keys w) \<or> (\<exists>t. cs_rows (kw_keys w1) = apply_cred t st (cs_rows (kw_keys w)))"
    using mem.exec_failed [of st "kw_keys w" e] by (auto simp: kw_env_def on_keys_eq)
next
  fix st m and w w1 :: ks_world
  assume "ce_Exec kw_env st w = (Inr m, w1)"
  then show "(\<exists>t. cs_rows (kw_keys w1) = apply_cred t st (cs_rows (kw_keys w))) \<and> m = affected st (cs_rows (kw_keys w))"
    using mem.exec_ok [of st "kw_keys w" m] by (auto simp: kw_env_def on_keys_eq)
next
  fix k b and w w1 :: ks_world
  assume "ce_SelectBlob kw_env k w = (Inr b, w1)"
  then show "\<exists>row. cs_rows (kw_keys w) k = Some row \<and> active_row row \<and> cw_blob row = b"
    using mem.blob_ok [of k "kw_keys w" b] by (auto simp: kw_env_def on_keys_eq)
next
  fix k and w w1 :: ks_world
  assume "ce_SelectBlob kw_env k w = (Inl DbNoRows, w1)"
  then show "\<not> active (cs_rows (kw_keys w)) k"
    using mem.blob_missing [of k "kw_keys w"] by (auto simp: kw_env_def on_keys_eq)
qed (auto simp: kw_env_def on_keys_eq snd_on_keys mem.audit_frame
       dest: mem.rand_length mem.rand_frame mem.blob_frame mem.all_frame mem.exists_ok)

lemma kw_emergency:
  "emergency (locks_repo kw_pool) (\<lambda>w. row_engaged (pg_rows (kw_pg w))) kw_env (\<lambda>w. cs_rows (kw_keys w)) kw_insert kw_log"
  by (intro emergency.intro emergency_axioms.intro kw_locks.repo.lock_service_axioms kw_cred_store)
     (auto simp: kw_env_def on_keys_eq kw_insert_def locks_repo_def Locks_Engage_def kw_pool_def on_pg_eq split: prod.splits)

interpretation kw: emergency "locks_repo kw_pool" "\<lambda>w. row_engaged (pg_rows (kw_pg w))" kw_env "\<lambda>w. cs_rows (kw_keys w)" kw_insert kw_log
  by (rule kw_emergency)

definition example_row :: "string \<Rightarrow> CredRow" where
  "example_row fp = \<lparr>cw_fingerprint = fp, cw_blob = \<lparr>bl_Version = BlobVersion, bl_EncDEK = [], bl_Ciphertext = []\<rparr>,
     cw_rotated_at = None, cw_created_at = 1, cw_revoked_at = None\<rparr>"

definition example_ks :: ks_world where
  "example_ks = \<lparr>kw_pg = example_db [],
     kw_keys = \<lparr>cs_rows = [(1, ''binance'', ''trade'') \<mapsto> example_row ''AbCd...0123'', (1, ''okx'', ''trade'') \<mapsto> example_row ''QwEr...4567''], cs_log = []\<rparr>,
     kw_log = []\<rparr>"

lemma example_listed:
  assumes "kw_keys w = kw_keys example_ks"
  shows "ce_SelectAll kw_env 1 w = (Inr [info_of (1, ''binance'', ''trade'') (example_row ''AbCd...0123''),
     info_of (1, ''okx'', ''trade'') (example_row ''QwEr...4567'')], w)"
proof -
  have "mem_keys 1 (cs_rows (kw_keys example_ks)) = [(''binance'', ''trade''), (''okx'', ''trade'')]" by code_simp
  moreover have "\<forall>k \<in> dom (cs_rows (kw_keys example_ks)). snd k \<in> set (List.product SupportedExchanges [''trade'', ''withdrawal''])"
    by (simp add: example_ks_def SupportedExchanges_def supportedExchanges_def ExchangeBinance_def ExchangeOKX_def)
  ultimately show ?thesis using assms
    by (simp add: kw_env_def on_keys_def mem_env_def del: set_product) (simp add: example_ks_def)
qed

lemma example_killed:
  "\<exists>w1. KillSwitch (locks_repo kw_pool) kw_env kw_insert ''user:miniapp'' ''leak'' (NewHalter False True) example_ks
     = (([], [SideEngaged ''leak'']), (NewHalter False True)\<lparr>hl_halted := True, hl_reason := ''leak''\<rparr>, w1)"
proof -
  let ?h = "(NewHalter False True)\<lparr>hl_halted := True, hl_reason := ''leak''\<rparr>"
  obtain w1 where h: "Halt (locks_repo kw_pool) ''leak'' (NewHalter False True) example_ks = ((None, [SideEngaged ''leak'']), ?h, w1)"
    and k: "kw_keys w1 = kw_keys example_ks"
    by (simp add: Halt_def Let_def NewHalter_def locks_repo_def Locks_Engage_def kw_pool_def on_pg_def Lifecycle.pg_pool_def
        pg_fault_def example_ks_def example_db_def)
  let ?infos = "[info_of (1, ''binance'', ''trade'') (example_row ''AbCd...0123''), info_of (1, ''okx'', ''trade'') (example_row ''QwEr...4567'')]"
  have l: "Cred_List kw_env 1 w1 = (Inr ?infos, w1)" using example_listed [OF k] by (simp add: Cred_List_def)
  obtain w2 where "revoke_items kw_env 1 ?infos 0 [] w1 = ((2, []), w2)"
    using k by (simp add: info_of_def example_row_def Cred_Revoke_def kw_env_def on_keys_def mem_env_def example_ks_def active_def)
  then show ?thesis using h l
    by (simp add: KillSwitch_def RevokeAll_def ownerUserID_def Rotation_Record_def kw_insert_def)
qed

theorem kill_switch_complete_witness:
  "\<exists>h1 (w1 :: ks_world). IsHalted h1 = (True, ''leak'') \<and> row_engaged (pg_rows (kw_pg w1)) SafeHaltName
     \<and> \<not> active (cs_rows (kw_keys w1)) (1, ''okx'', ''trade'') \<and> kw_log w1 \<noteq> []"
proof -
  obtain out h1 w1 where k: "KillSwitch (locks_repo kw_pool) kw_env kw_insert ''user:miniapp'' ''leak'' (NewHalter False True) example_ks = (([], out), h1, w1)"
    using example_killed by blast
  from kill_switch_complete [OF kw_emergency k, where ex = "''okx''" and kind = "''trade''" and k = "(2, [], [])"]
  show ?thesis by (auto simp: ownerUserID_def)
qed

theorem kill_switch_blocks_restart_witness:
  "\<exists>w1 w3. BuildLiveAdapters (load_trade_key kw_env mem_master) (\<lambda>ex p. Some ex) w1 = (Inl (ErrTooFewAdapters 0), w3)
     \<and> row_engaged (pg_rows (kw_pg w1)) SafeHaltName"
proof -
  obtain out h1 w1 where k: "KillSwitch (locks_repo kw_pool) kw_env kw_insert ''user:miniapp'' ''leak'' (NewHalter False True) example_ks = (([], out), h1, w1)"
    using example_killed by blast
  from kill_switch_blocks_restart [OF kw_lock_table kw_emergency k refl refl, of False False mem_master "\<lambda>ex p. Some ex"]
    kw.KillSwitch_effect(2) [OF k]
  show ?thesis by auto
qed

end
