(* ===== verification/TelegramApi.thy ===== *)
theory TelegramApi
  imports TelegramAuth KeyRotation CloseRequest
begin

text \<open>
  The HTTP API of the Mini App: \<open>internal/telegram\<close> (\<open>httpapi.go\<close>), the providers of \<open>internal/app\<close> behind it
  (\<open>providers.go\<close>), the settings of \<open>internal/repository\<close> (\<open>settings.go\<close>) and the wiring of \<open>cmd/server\<close>.

  A handler runs its middleware in the order of \<open>registerRoutes\<close>; the session and idempotency stores are in memory, what
  the providers use is the world.  The router is the one of \<open>net/http\<close> on clean paths; the texts of error replies and the
  formatting of the two read-only documents (status, candidates) are not modelled.
\<close>

section \<open>Requests\<close>

record api_request =
  rq_Method :: string
  rq_Path :: "string list"
  rq_Authorization :: string
  rq_IdempotencyKey :: string
  rq_Code :: string
  rq_Body :: string

datatype reply_doc =
    DocAuth string time TelegramUser | DocJson json | DocSettings int json | DocAccepted string
  | DocCredentials "CredentialInfo list" | DocFingerprint string | DocHalt bool string | DocHalted

datatype response = Reply nat reply_doc | ReplyError nat | ReplyEmpty nat | ReplyHTML string

fun status_of :: "response \<Rightarrow> nat" where
  "status_of (Reply n j) = n"
| "status_of (ReplyError n) = n"
| "status_of (ReplyEmpty n) = n"
| "status_of (ReplyHTML t) = 200"

datatype route =
    WebApp "string list" | Auth | Status | Candidates | GetSettings | PutSettings | PositionClose string
  | ListCredentialsRoute | SaveCredential | RevokeCredential string string | KillSwitchEngage | KillSwitchStatus

text \<open>The patterns of \<open>registerRoutes\<close>; \<open>GET /\<close> takes every other GET, and what no pattern takes is 405.\<close>

definition route_of :: "string \<Rightarrow> string list \<Rightarrow> route option" where
  "route_of m p = (let get = (m = ''GET'' \<or> m = ''HEAD'') in
     if m = ''POST'' \<and> p = [''api'', ''auth''] then Some Auth
     else if get \<and> p = [''api'', ''status''] then Some Status
     else if get \<and> p = [''api'', ''candidates''] then Some Candidates
     else if get \<and> p = [''api'', ''settings''] then Some GetSettings
     else if m = ''PUT'' \<and> p = [''api'', ''settings''] then Some PutSettings
     else if m = ''POST'' \<and> length p = 4 \<and> take 2 p = [''api'', ''positions''] \<and> p ! 3 = ''close'' then Some (PositionClose (p ! 2))
     else if get \<and> p = [''api'', ''credentials''] then Some ListCredentialsRoute
     else if m = ''POST'' \<and> p = [''api'', ''credentials''] then Some SaveCredential
     else if m = ''DELETE'' \<and> length p = 4 \<and> take 2 p = [''api'', ''credentials''] then Some (RevokeCredential (p ! 2) (p ! 3))
     else if m = ''POST'' \<and> p = [''api'', ''killswitch''] then Some KillSwitchEngage
     else if get \<and> p = [''api'', ''killswitch''] then Some KillSwitchStatus
     else if get then Some (WebApp p) else None)"

text \<open>Which middleware a route has.\<close>

fun protected_route :: "route \<Rightarrow> bool" where
  "protected_route (WebApp p) = False"
| "protected_route Auth = False"
| "protected_route r = True"

fun scope_of :: "route \<Rightarrow> string option" where
  "scope_of PutSettings = Some ''settings''"
| "scope_of (PositionClose i) = Some ''positions.close''"
| "scope_of SaveCredential = Some ''credentials''"
| "scope_of KillSwitchEngage = Some ''killswitch''"
| "scope_of r = None"

fun needs_code :: "route \<Rightarrow> bool" where
  "needs_code SaveCredential = True"
| "needs_code KillSwitchEngage = True"
| "needs_code r = False"

text \<open>\<open>decodeJSON\<close>: the first value of a body of at most a megabyte, without unknown fields; what follows it is read and dropped.\<close>

function known_fields :: "shape \<Rightarrow> json \<Rightarrow> bool" where
  "known_fields t (JObj ms) = (case t of
     ShStruct fs \<Rightarrow> (\<forall>(k, v) \<in> set ms. case field_for fs k of None \<Rightarrow> False | Some (f, u) \<Rightarrow> known_fields u v)
   | _ \<Rightarrow> True)"
| "known_fields t (JArr vs) = (case t of ShList u \<Rightarrow> (\<forall>v \<in> set vs. known_fields u v) | _ \<Rightarrow> True)"
| "known_fields t JNull = True"
| "known_fields t (JBool b) = True"
| "known_fields t (JNum n) = True"
| "known_fields t (JStr s) = True"
  by pat_completeness auto

termination
  by (relation "measure (\<lambda>(t, j). size j)")
     (auto simp: less_Suc_eq_le intro: size_list_estimation' dest!: size_list_estimation' [where f = "size_prod (\<lambda>_. 0) size" and y = "size _"])

definition max_body :: nat where "max_body = 2 ^ 20"

definition decode_first :: "shape \<Rightarrow> string \<Rightarrow> json option" where
  "decode_first t body = (case read_value (Suc (Suc (length body))) body of
     None \<Rightarrow> None
   | Some (v, rest) \<Rightarrow> if known_fields t v then decode t (zero_value t) v else None)"

definition decodeJSON :: "shape \<Rightarrow> string \<Rightarrow> json option" where
  "decodeJSON t body = (if length body > max_body then None else decode_first t body)"

definition extractBearerToken :: "string \<Rightarrow> string" where
  "extractBearerToken header = (case starts ''Bearer '' header of None \<Rightarrow> [] | Some t \<Rightarrow> trim_space t)"

section \<open>The providers\<close>

datatype repo_settings_error = ErrSettingsNotFound | ErrVersionConflict | SettingsDb db_error

text \<open>What \<open>Save\<close> returns; the sentinel of the API is another value than the one of the repository.\<close>

datatype settings_error = VersionConflictError | InvalidPayload | RepoError repo_settings_error

record 'w settings_provider =
  st_Get :: "'w \<Rightarrow> (json \<times> int) option \<times> 'w"
  st_Save :: "json option \<Rightarrow> int \<Rightarrow> 'w \<Rightarrow> settings_error option \<times> 'w"

record 'w credentials_provider =
  cr_List :: "'w \<Rightarrow> CredentialInfo list option \<times> 'w"
  cr_Save :: "string \<Rightarrow> string \<Rightarrow> CredentialPlaintext \<Rightarrow> 'w \<Rightarrow> string option \<times> 'w"
  cr_Revoke :: "string \<Rightarrow> string \<Rightarrow> 'w \<Rightarrow> bool \<times> 'w"

record 'w killswitch_provider =
  ks_Engage :: "string \<Rightarrow> 'w \<Rightarrow> bool \<times> 'w"
  ks_Status :: "'w \<Rightarrow> (bool \<times> string) option \<times> 'w"

text \<open>\<open>Handler\<close> with its dependencies; one that is missing is \<open>None\<close>.  A Boolean answer is whether there was no error.\<close>

record 'w api =
  ap_BotToken :: string
  ap_MaxInitDataAge :: duration
  ap_Allowlist :: "(int \<Rightarrow> bool) option"
  ap_SessionTTL :: duration
  ap_Index :: "string option"
  ap_Now :: "'w \<Rightarrow> time"
  ap_Random :: "'w \<Rightarrow> string option \<times> 'w"
  ap_Status :: "('w \<Rightarrow> json option \<times> 'w) option"
  ap_Candidates :: "('w \<Rightarrow> json option \<times> 'w) option"
  ap_Settings :: "'w settings_provider option"
  ap_Closer :: "(string \<Rightarrow> 'w \<Rightarrow> bool \<times> 'w) option"
  ap_Credentials :: "'w credentials_provider option"
  ap_Owner :: "(int \<Rightarrow> 'w \<Rightarrow> bool option \<times> 'w) option"
  ap_KillSwitch :: "'w killswitch_provider option"
  ap_TwoFactor :: "(int \<Rightarrow> string \<Rightarrow> 'w \<Rightarrow> bool option \<times> 'w) option"

definition defaultMaxAge :: duration where "defaultMaxAge = 15 * Minute"
definition defaultSessionTTL :: duration where "defaultSessionTTL = 24 * 60 * Minute"

definition NewHandler :: "'w api \<Rightarrow> 'w api" where
  "NewHandler A = A\<lparr>ap_MaxInitDataAge := (if ap_MaxInitDataAge A = 0 then defaultMaxAge else ap_MaxInitDataAge A),
     ap_SessionTTL := (if ap_SessionTTL A = 0 then defaultSessionTTL else ap_SessionTTL A)\<rparr>"

text \<open>\<open>MemorySharedSecretVerifier\<close>: the differences of all bytes are collected before the answer.\<close>

definition secret_Verify :: "string \<Rightarrow> string \<Rightarrow> bool" where
  "secret_Verify secret code =
     (if length code \<noteq> length secret then False
      else foldl (\<lambda>diff (a, b). diff OR ((of_char a :: byte) XOR of_char b)) 0 (zip code secret) = 0)"

lemma secret_Verify_eq: "secret_Verify secret code \<longleftrightarrow> code = secret"
proof -
  have or0: "x OR y = 0 \<longleftrightarrow> x = 0 \<and> y = 0" for x y :: byte
    by (auto simp: bit_eq_iff bit_simps)
  have xor: "x = y" if "x XOR y = 0" for x y :: byte
  proof -
    have "x = (x XOR y) XOR y" by (simp add: xor.assoc)
    then show ?thesis by (simp add: that)
  qed
  have char: "a = b" if "(of_char a :: byte) = of_char b" for a b
  proof -
    have "to_bytes [a] = to_bytes [b]" by (simp add: to_bytes_def that)
    then show ?thesis by (metis from_to_bytes list.inject)
  qed
  have xor0: "(of_char a :: byte) XOR of_char b = 0 \<longleftrightarrow> a = b" for a b
    using xor char by auto
  have "foldl (\<lambda>diff (a, b). diff OR ((of_char a :: byte) XOR of_char b)) d (zip xs ys) = 0 \<longleftrightarrow> d = 0 \<and> xs = ys"
    if "length xs = length ys" for d xs ys
    using that by (induction xs ys arbitrary: d rule: list_induct2) (auto simp: or0 xor0)
  then show ?thesis by (auto simp: secret_Verify_def)
qed

section \<open>The handlers\<close>

record 'w server =
  sv_Sessions :: sessions
  sv_Idem :: "string set"
  sv_World :: 'w

definition stub_status :: json where
  "stub_status = JObj [(''systemState'', JStr ''READY''), (''runMode'', JStr ''dry_run''), (''exchanges'', JArr []),
     (''totalEquityUSDT'', JStr []), (''openPositions'', JNum ''0''), (''realizedPnL'', JStr []), (''unrealizedPnL'', JStr []),
     (''fundingPnL'', JStr []), (''activeIncidents'', JArr []), (''clockOffsetMs'', JNum ''0'')]"

definition handleAuth :: "'w api \<Rightarrow> string \<Rightarrow> 'w server \<Rightarrow> response \<times> 'w server" where
  "handleAuth A body s = (case decodeJSON (ShStruct [(''initData'', ShStr)]) body of
     None \<Rightarrow> (ReplyError 400, s)
   | Some j \<Rightarrow>
       if js_str j ''initData'' = [] then (ReplyError 400, s)
       else (case ValidateInitData (js_str j ''initData'') \<lparr>vc_BotToken = ap_BotToken A, vc_MaxAge = ap_MaxInitDataAge A\<rparr>
                (ap_Allowlist A) (ap_Now A (sv_World s)) (ap_Now A (sv_World s)) of
               Inl e \<Rightarrow> (ReplyError 401, s)
             | Inr (user, authAt) \<Rightarrow> (case ap_Random A (sv_World s) of (bytes, w1) \<Rightarrow>
                 (case SS_Create (sv_Sessions s) bytes (tu_ID user) (ap_SessionTTL A) (ap_Now A w1) of
                    (S, Inl e) \<Rightarrow> (ReplyError 500, s\<lparr>sv_Sessions := S, sv_World := w1\<rparr>)
                  | (S, Inr (token, expiresAt)) \<Rightarrow>
                      (Reply 200 (DocAuth token expiresAt user), s\<lparr>sv_Sessions := S,
                         sv_World := (case ap_Owner A of None \<Rightarrow> w1 | Some claim \<Rightarrow> snd (claim (tu_ID user) w1))\<rparr>)))))"

definition handleRead :: "('w \<Rightarrow> json option \<times> 'w) option \<Rightarrow> json \<Rightarrow> 'w \<Rightarrow> response \<times> 'w" where
  "handleRead provider stub w = (case provider of
     None \<Rightarrow> (Reply 200 (DocJson stub), w)
   | Some f \<Rightarrow> (case f w of (None, w1) \<Rightarrow> (ReplyError 500, w1) | (Some j, w1) \<Rightarrow> (Reply 200 (DocJson j), w1)))"

definition handleGetSettings :: "'w api \<Rightarrow> 'w \<Rightarrow> response \<times> 'w" where
  "handleGetSettings A w = (case ap_Settings A of
     None \<Rightarrow> (Reply 200 (DocSettings 0 (JObj [])), w)
   | Some p \<Rightarrow> (case st_Get p w of
       (None, w1) \<Rightarrow> (ReplyError 500, w1) | (Some (raw, version), w1) \<Rightarrow> (Reply 200 (DocSettings version raw), w1)))"

text \<open>The raw settings of a request: the last member of that name, absent or not.\<close>

definition raw_member :: "string \<Rightarrow> json \<Rightarrow> json option" where
  "raw_member k j = (case j of
     JObj ms \<Rightarrow> map_option snd (find (\<lambda>(f, v). to_lower f = to_lower k) (rev ms)) | _ \<Rightarrow> None)"

definition raw_settings :: "string \<Rightarrow> json option" where
  "raw_settings body = (case read_value (Suc (Suc (length body))) body of None \<Rightarrow> None | Some (v, rest) \<Rightarrow> raw_member ''settings'' v)"

definition handlePutSettings :: "'w api \<Rightarrow> string \<Rightarrow> 'w \<Rightarrow> response \<times> 'w" where
  "handlePutSettings A body w = (case decodeJSON (ShStruct [(''version'', ShInt), (''settings'', ShAny)]) body of
     None \<Rightarrow> (ReplyError 400, w)
   | Some j \<Rightarrow> (case ap_Settings A of
       None \<Rightarrow> (ReplyError 503, w)
     | Some p \<Rightarrow> (case st_Save p (raw_settings body) (js_int j ''version'') w of
         (Some VersionConflictError, w1) \<Rightarrow> (ReplyError 409, w1)
       | (Some e, w1) \<Rightarrow> (ReplyError 500, w1)
       | (None, w1) \<Rightarrow> (ReplyEmpty 204, w1))))"

definition handlePositionClose :: "'w api \<Rightarrow> string \<Rightarrow> 'w \<Rightarrow> response \<times> 'w" where
  "handlePositionClose A positionID w =
     (if positionID = [] then (ReplyError 400, w)
      else (case ap_Closer A of
              None \<Rightarrow> (ReplyError 503, w)
            | Some close \<Rightarrow> (case close positionID w of
                (False, w1) \<Rightarrow> (ReplyError 500, w1) | (True, w1) \<Rightarrow> (Reply 202 (DocAccepted positionID), w1))))"

definition handleListCredentials :: "'w api \<Rightarrow> 'w \<Rightarrow> response \<times> 'w" where
  "handleListCredentials A w = (case ap_Credentials A of
     None \<Rightarrow> (ReplyError 501, w)
   | Some p \<Rightarrow> (case cr_List p w of
       (None, w1) \<Rightarrow> (ReplyError 500, w1) | (Some items, w1) \<Rightarrow> (Reply 200 (DocCredentials items), w1)))"

definition save_shape :: shape where
  "save_shape = ShStruct [(''exchange'', ShStr), (''kind'', ShStr), (''apiKey'', ShStr), (''apiSecret'', ShStr), (''passphrase'', ShStr)]"

definition valid_pair :: "string \<Rightarrow> string \<Rightarrow> bool" where
  "valid_pair exchange kind \<longleftrightarrow> exchange \<in> set supportedExchanges \<and> (kind = ''trade'' \<or> kind = ''withdrawal'')"

definition handleSaveCredential :: "'w api \<Rightarrow> string \<Rightarrow> 'w \<Rightarrow> response \<times> 'w" where
  "handleSaveCredential A body w = (case ap_Credentials A of
     None \<Rightarrow> (ReplyError 501, w)
   | Some p \<Rightarrow> (case decodeJSON save_shape body of
       None \<Rightarrow> (ReplyError 400, w)
     | Some j \<Rightarrow>
         let key = js_str j ''apiKey''; secret = js_str j ''apiSecret'' in
         if \<not> valid_pair (js_str j ''exchange'') (js_str j ''kind'') then (ReplyError 400, w)
         else if key = [] \<or> length key > 512 \<or> secret = [] \<or> length secret > 512 then (ReplyError 400, w)
         else (case cr_Save p (js_str j ''exchange'') (js_str j ''kind'')
                 \<lparr>cp_Key = key, cp_Secret = secret, cp_Passphrase = js_str j ''passphrase''\<rparr> w of
                 (None, w1) \<Rightarrow> (ReplyError 500, w1) | (Some fp, w1) \<Rightarrow> (Reply 201 (DocFingerprint fp), w1))))"

definition handleRevokeCredential :: "'w api \<Rightarrow> string \<Rightarrow> string \<Rightarrow> 'w \<Rightarrow> response \<times> 'w" where
  "handleRevokeCredential A exchange kind w = (case ap_Credentials A of
     None \<Rightarrow> (ReplyError 501, w)
   | Some p \<Rightarrow>
       if \<not> valid_pair exchange kind then (ReplyError 400, w)
       else (case cr_Revoke p exchange kind w of (False, w1) \<Rightarrow> (ReplyError 500, w1) | (True, w1) \<Rightarrow> (ReplyEmpty 204, w1)))"

definition handleKillSwitchEngage :: "'w api \<Rightarrow> string \<Rightarrow> 'w \<Rightarrow> response \<times> 'w" where
  "handleKillSwitchEngage A body w = (case ap_KillSwitch A of
     None \<Rightarrow> (ReplyError 501, w)
   | Some p \<Rightarrow> (case decodeJSON (ShStruct [(''reason'', ShStr)]) body of
       None \<Rightarrow> (ReplyError 400, w)
     | Some j \<Rightarrow> (case ks_Engage p (js_str j ''reason'') w of
         (False, w1) \<Rightarrow> (ReplyError 500, w1) | (True, w1) \<Rightarrow> (Reply 200 DocHalted, w1))))"

definition handleKillSwitchStatus :: "'w api \<Rightarrow> 'w \<Rightarrow> response \<times> 'w" where
  "handleKillSwitchStatus A w = (case ap_KillSwitch A of
     None \<Rightarrow> (ReplyError 501, w)
   | Some p \<Rightarrow> (case ks_Status p w of
       (None, w1) \<Rightarrow> (ReplyError 500, w1) | (Some (halted, reason), w1) \<Rightarrow> (Reply 200 (DocHalt halted reason), w1)))"

definition serveWebApp :: "'w api \<Rightarrow> string list \<Rightarrow> response" where
  "serveWebApp A p = (if p \<noteq> [] then ReplyError 404
     else case ap_Index A of None \<Rightarrow> ReplyError 404 | Some html \<Rightarrow> ReplyHTML html)"

text \<open>The handler behind the middleware of a protected route.\<close>

fun run_handler :: "'w api \<Rightarrow> route \<Rightarrow> string \<Rightarrow> 'w \<Rightarrow> response \<times> 'w" where
  "run_handler A Status body w = handleRead (ap_Status A) stub_status w"
| "run_handler A Candidates body w = handleRead (ap_Candidates A) (JArr []) w"
| "run_handler A GetSettings body w = handleGetSettings A w"
| "run_handler A PutSettings body w = handlePutSettings A body w"
| "run_handler A (PositionClose i) body w = handlePositionClose A i w"
| "run_handler A ListCredentialsRoute body w = handleListCredentials A w"
| "run_handler A SaveCredential body w = handleSaveCredential A body w"
| "run_handler A (RevokeCredential ex kind) body w = handleRevokeCredential A ex kind w"
| "run_handler A KillSwitchEngage body w = handleKillSwitchEngage A body w"
| "run_handler A KillSwitchStatus body w = handleKillSwitchStatus A w"
| "run_handler A r body w = (ReplyError 404, w)"

section \<open>The middleware\<close>

definition authMiddleware :: "'w api \<Rightarrow> api_request \<Rightarrow> 'w server \<Rightarrow> response + int" where
  "authMiddleware A req s =
     (let token = extractBearerToken (rq_Authorization req) in
      if token = [] then Inl (ReplyError 401)
      else (case SS_Validate (sv_Sessions s) token (ap_Now A (sv_World s)) of
              Inl e \<Rightarrow> Inl (ReplyError 401) | Inr userID \<Rightarrow> Inr userID))"

definition Seen :: "string \<Rightarrow> string \<Rightarrow> string set \<Rightarrow> bool \<times> string set" where
  "Seen key scope seen = (let composite = scope @ '':'' @ key in
     if composite \<in> seen then (True, seen) else (False, insert composite seen))"

definition idemMiddleware :: "route \<Rightarrow> api_request \<Rightarrow> 'w server \<Rightarrow> response option \<times> 'w server" where
  "idemMiddleware r req s = (case scope_of r of
     None \<Rightarrow> (None, s)
   | Some scope \<Rightarrow>
       if rq_IdempotencyKey req = [] then (Some (ReplyError 400), s)
       else (case Seen (rq_IdempotencyKey req) scope (sv_Idem s) of
               (True, seen) \<Rightarrow> (Some (ReplyError 409), s\<lparr>sv_Idem := seen\<rparr>)
             | (False, seen) \<Rightarrow> (None, s\<lparr>sv_Idem := seen\<rparr>)))"

definition twoFactorMiddleware :: "'w api \<Rightarrow> route \<Rightarrow> int \<Rightarrow> api_request \<Rightarrow> 'w \<Rightarrow> response option \<times> 'w" where
  "twoFactorMiddleware A r userID req w =
     (if \<not> needs_code r then (None, w)
      else (case ap_TwoFactor A of
              None \<Rightarrow> (None, w)
            | Some verify \<Rightarrow>
                if rq_Code req = [] then (Some (ReplyError 401), w)
                else (case verify userID (rq_Code req) w of
                        (None, w1) \<Rightarrow> (Some (ReplyError 500), w1)
                      | (Some ok, w1) \<Rightarrow> (if ok then None else Some (ReplyError 403), w1))))"

text \<open>What follows the idempotency check of an admitted request.\<close>

definition admitted :: "'w api \<Rightarrow> route \<Rightarrow> int \<Rightarrow> api_request \<Rightarrow> 'w \<Rightarrow> response \<times> 'w" where
  "admitted A r userID req w = (case twoFactorMiddleware A r userID req w of
     (Some resp, w1) \<Rightarrow> (resp, w1) | (None, w1) \<Rightarrow> run_handler A r (rq_Body req) w1)"

definition ServeHTTP :: "'w api \<Rightarrow> api_request \<Rightarrow> 'w server \<Rightarrow> response \<times> 'w server" where
  "ServeHTTP A req s = (case route_of (rq_Method req) (rq_Path req) of
     None \<Rightarrow> (ReplyError 405, s)
   | Some (WebApp p) \<Rightarrow> (serveWebApp A p, s)
   | Some Auth \<Rightarrow> handleAuth A (rq_Body req) s
   | Some r \<Rightarrow> (case authMiddleware A req s of
       Inl resp \<Rightarrow> (resp, s)
     | Inr userID \<Rightarrow> (case idemMiddleware r req s of
         (Some resp, s1) \<Rightarrow> (resp, s1)
       | (None, s1) \<Rightarrow> (case admitted A r userID req (sv_World s1) of (resp, w1) \<Rightarrow> (resp, s1\<lparr>sv_World := w1\<rparr>)))))"

section \<open>Requests at the same time\<close>

text \<open>
  A protected request goes through authentication, the idempotency check and, once admitted, its handler; each of the
  three is one step on the shared stores, and the steps of different requests interleave with logins and with what
  other processes do to the world.
\<close>

datatype phase = Waiting | Authed int | Admitted int | Finished response

record 'w api_conf =
  ac_Server :: "'w server"
  ac_Requests :: "nat \<rightharpoonup> api_request \<times> route \<times> phase"
  ac_Passed :: "nat list"
  ac_Runs :: "nat list"

inductive api_step :: "'w api \<Rightarrow> 'w api_conf \<Rightarrow> 'w api_conf \<Rightarrow> bool" for A where
  arrive: "ac_Requests c i = None \<Longrightarrow> route_of (rq_Method req) (rq_Path req) = Some r \<Longrightarrow> protected_route r
    \<Longrightarrow> api_step A c (c\<lparr>ac_Requests := (ac_Requests c)(i \<mapsto> (req, r, Waiting))\<rparr>)"
| reject: "ac_Requests c i = Some (req, r, Waiting) \<Longrightarrow> authMiddleware A req (ac_Server c) = Inl resp
    \<Longrightarrow> api_step A c (c\<lparr>ac_Requests := (ac_Requests c)(i \<mapsto> (req, r, Finished resp))\<rparr>)"
| authenticate: "ac_Requests c i = Some (req, r, Waiting) \<Longrightarrow> authMiddleware A req (ac_Server c) = Inr u
    \<Longrightarrow> api_step A c (c\<lparr>ac_Requests := (ac_Requests c)(i \<mapsto> (req, r, Authed u))\<rparr>)"
| refuse: "ac_Requests c i = Some (req, r, Authed u) \<Longrightarrow> idemMiddleware r req (ac_Server c) = (Some resp, s)
    \<Longrightarrow> api_step A c (c\<lparr>ac_Server := s, ac_Requests := (ac_Requests c)(i \<mapsto> (req, r, Finished resp))\<rparr>)"
| admit: "ac_Requests c i = Some (req, r, Authed u) \<Longrightarrow> idemMiddleware r req (ac_Server c) = (None, s)
    \<Longrightarrow> api_step A c (c\<lparr>ac_Server := s, ac_Requests := (ac_Requests c)(i \<mapsto> (req, r, Admitted u)), ac_Passed := ac_Passed c @ [i]\<rparr>)"
| handle: "ac_Requests c i = Some (req, r, Admitted u) \<Longrightarrow> admitted A r u req (sv_World (ac_Server c)) = (resp, w)
    \<Longrightarrow> api_step A c (c\<lparr>ac_Server := (ac_Server c)\<lparr>sv_World := w\<rparr>, ac_Requests := (ac_Requests c)(i \<mapsto> (req, r, Finished resp)),
          ac_Runs := ac_Runs c @ [i]\<rparr>)"
| login: "handleAuth A body (ac_Server c) = (resp, s) \<Longrightarrow> api_step A c (c\<lparr>ac_Server := s\<rparr>)"
| others: "api_step A c (c\<lparr>ac_Server := (ac_Server c)\<lparr>sv_World := w\<rparr>\<rparr>)"

definition fresh_api :: "sessions \<Rightarrow> 'w \<Rightarrow> 'w api_conf" where
  "fresh_api S w = \<lparr>ac_Server = \<lparr>sv_Sessions = S, sv_Idem = {}, sv_World = w\<rparr>, ac_Requests = Map.empty, ac_Passed = [], ac_Runs = []\<rparr>"

text \<open>The scope and the key a request asks for.\<close>

definition asks :: "'w api_conf \<Rightarrow> nat \<Rightarrow> string \<Rightarrow> string \<Rightarrow> bool" where
  "asks c i scope key \<longleftrightarrow> (\<exists>req r ph. ac_Requests c i = Some (req, r, ph) \<and> scope_of r = Some scope \<and> rq_IdempotencyKey req = key)"

definition token_of :: "api_request \<Rightarrow> string" where
  "token_of req = extractBearerToken (rq_Authorization req)"

definition composite :: "string \<Rightarrow> string \<Rightarrow> string" where
  "composite scope key = scope @ '':'' @ key"

lemma scope_plain: "scope_of r = Some scope \<Longrightarrow> CHR '':'' \<notin> set scope"
  by (cases r) auto

lemma composite_inj:
  assumes "CHR '':'' \<notin> set a" and "CHR '':'' \<notin> set b"
  shows "composite a k = composite b l \<longleftrightarrow> a = b \<and> k = l"
proof -
  have "cut_on CHR '':'' (composite a k) = (a, k, True)" "cut_on CHR '':'' (composite b l) = (b, l, True)"
    using assms by (simp_all add: composite_def)
  then show ?thesis by (metis prod.inject)
qed

definition phase_ok :: "'w api_conf \<Rightarrow> nat \<Rightarrow> bool" where
  "phase_ok c i = (case ac_Requests c i of
     None \<Rightarrow> i \<notin> set (ac_Passed c)
   | Some (req, r, ph) \<Rightarrow> (case ph of
       Waiting \<Rightarrow> i \<notin> set (ac_Passed c) | Authed u \<Rightarrow> i \<notin> set (ac_Passed c)
     | Admitted u \<Rightarrow> i \<in> set (ac_Passed c) \<and> i \<notin> set (ac_Runs c) | Finished resp \<Rightarrow> True))"

definition phases_ok :: "'w api_conf \<Rightarrow> bool" where
  "phases_ok c \<longleftrightarrow> distinct (ac_Passed c) \<and> distinct (ac_Runs c) \<and> set (ac_Runs c) \<subseteq> set (ac_Passed c) \<and> (\<forall>i. phase_ok c i)"

definition keys_ok :: "'w api_conf \<Rightarrow> bool" where
  "keys_ok c \<longleftrightarrow> sv_Idem (ac_Server c) = {composite scope key |scope key. \<exists>i \<in> set (ac_Passed c). asks c i scope key}
     \<and> (\<forall>i \<in> set (ac_Passed c). \<forall>j \<in> set (ac_Passed c). \<forall>scope key. asks c i scope key \<longrightarrow> asks c j scope key \<longrightarrow> i = j)"

definition tokens_ok :: "'w api_conf \<Rightarrow> bool" where
  "tokens_ok c \<longleftrightarrow> (\<forall>i req r ph. ac_Requests c i = Some (req, r, ph) \<longrightarrow> i \<in> set (ac_Passed c) \<or> (\<exists>u. ph = Authed u)
     \<longrightarrow> sv_Sessions (ac_Server c) (token_of req) \<noteq> None)"

text \<open>A step of one request leaves what the others ask for.\<close>

lemma asks_phase:
  assumes "ac_Requests c i = Some (req, r, ph)"
  shows "asks (c\<lparr>ac_Requests := (ac_Requests c)(i \<mapsto> (req, r, ph'))\<rparr>) j scope key = asks c j scope key"
  using assms by (auto simp: asks_def)

lemma asks_cong [simp]:
  "asks (c\<lparr>ac_Server := s\<rparr>) = asks c" "asks (c\<lparr>ac_Passed := p\<rparr>) = asks c" "asks (c\<lparr>ac_Runs := p\<rparr>) = asks c"
  by (auto simp: asks_def fun_eq_iff)

lemma handleAuth_effect:
  assumes "handleAuth A body s = (resp, s1)"
  obtains "s1 = s" | bytes u now w where
    "s1 = s\<lparr>sv_Sessions := fst (SS_Create (sv_Sessions s) bytes u (ap_SessionTTL A) now), sv_World := w\<rparr>"
proof (cases "decodeJSON (ShStruct [(''initData'', ShStr)]) body")
  case None
  then show ?thesis using assms that(1) by (simp add: handleAuth_def)
next
  case (Some j)
  let ?v = "ValidateInitData (js_str j ''initData'') \<lparr>vc_BotToken = ap_BotToken A, vc_MaxAge = ap_MaxInitDataAge A\<rparr>
      (ap_Allowlist A) (ap_Now A (sv_World s)) (ap_Now A (sv_World s))"
  obtain bytes w1 where r: "ap_Random A (sv_World s) = (bytes, w1)" by fastforce
  show ?thesis
  proof (cases "js_str j ''initData'' = []")
    case True
    then show ?thesis using assms that(1) by (simp add: handleAuth_def Some)
  next
    case False
    show ?thesis
    proof (cases ?v)
      case (Inl e)
      then show ?thesis using assms that(1) False by (simp add: handleAuth_def Some)
    next
      case (Inr ua)
      obtain u signedAt where ua: "ua = (u, signedAt)" by fastforce
      obtain S e where c: "SS_Create (sv_Sessions s) bytes (tu_ID u) (ap_SessionTTL A) (ap_Now A w1) = (S, e)" by fastforce
      have "\<exists>w. s1 = s\<lparr>sv_Sessions := S, sv_World := w\<rparr>"
        using assms False Inr by (cases e) (auto simp: handleAuth_def Some ua r c)
      then show ?thesis using that(2) [where bytes = bytes and u = "tu_ID u" and now = "ap_Now A w1"] by (auto simp: c)
    qed
  qed
qed

lemma handleAuth_keeps:
  assumes "handleAuth A body s = (resp, s1)"
  shows "sv_Idem s1 = sv_Idem s" and "sv_Sessions s t \<noteq> None \<Longrightarrow> sv_Sessions s1 t \<noteq> None"
proof -
  have "sv_Idem s1 = sv_Idem s \<and> (sv_Sessions s t \<noteq> None \<longrightarrow> sv_Sessions s1 t \<noteq> None)"
    by (rule handleAuth_effect [OF assms]) (simp_all add: SS_Create_def split: option.split)
  then show "sv_Idem s1 = sv_Idem s" "sv_Sessions s t \<noteq> None \<Longrightarrow> sv_Sessions s1 t \<noteq> None" by blast+
qed

lemma idem_effect:
  assumes "idemMiddleware r req s = (resp, s1)"
  shows "sv_Sessions s1 = sv_Sessions s" and "sv_World s1 = sv_World s"
    and "resp = None \<Longrightarrow> scope_of r = None \<Longrightarrow> sv_Idem s1 = sv_Idem s"
    and "resp = None \<Longrightarrow> scope_of r = Some scope \<Longrightarrow> rq_IdempotencyKey req \<noteq> [] \<and> composite scope (rq_IdempotencyKey req) \<notin> sv_Idem s
           \<and> sv_Idem s1 = insert (composite scope (rq_IdempotencyKey req)) (sv_Idem s)"
    and "resp \<noteq> None \<Longrightarrow> s1 = s"
  using assms by (auto simp: idemMiddleware_def Seen_def composite_def Let_def split: option.splits if_splits prod.splits)

lemma auth_effect: "authMiddleware A req s = Inr u \<Longrightarrow> sv_Sessions s (token_of req) \<noteq> None"
  by (auto simp: authMiddleware_def Let_def SS_Validate_def token_of_def split: if_splits sum.splits option.splits)

lemma phase_ok_server [simp]: "phase_ok (c\<lparr>ac_Server := s\<rparr>) k = phase_ok c k"
  by (simp add: phase_ok_def split: option.split phase.split)

lemma phases_kept:
  assumes "phases_ok c" and "ac_Passed c' = ac_Passed c" and "ac_Runs c' = ac_Runs c"
    and "\<And>k. phase_ok c k \<Longrightarrow> phase_ok c' k"
  shows "phases_ok c'"
  using assms by (simp add: phases_ok_def)

lemma phases_step:
  assumes "api_step A c c'" and "phases_ok c"
  shows "phases_ok c'"
  using assms(1)
proof cases
  case (admit i req r u s)
  have ok: "phase_ok c k" for k using assms(2) by (simp add: phases_ok_def)
  have i: "i \<notin> set (ac_Passed c)" using ok [of i] admit by (simp add: phase_ok_def)
  then have "i \<notin> set (ac_Runs c)" using assms(2) by (auto simp: phases_ok_def)
  then have "phase_ok c' k" for k
    using ok [of k] i admit by (auto simp: phase_ok_def split: option.splits phase.splits)
  then show ?thesis using assms(2) admit(1) i by (simp add: phases_ok_def) blast
next
  case (handle i req r u resp w)
  have ok: "phase_ok c k" for k using assms(2) by (simp add: phases_ok_def)
  have i: "i \<in> set (ac_Passed c)" "i \<notin> set (ac_Runs c)" using ok [of i] handle by (simp_all add: phase_ok_def)
  have "phase_ok c' k" for k
    using ok [of k] i handle by (auto simp: phase_ok_def split: option.splits phase.splits)
  then show ?thesis using assms(2) handle(1) i by (simp add: phases_ok_def)
next
  case (arrive i req r)
  have "phase_ok c i" using assms(2) by (simp add: phases_ok_def)
  then show ?thesis using arrive by (intro phases_kept [OF assms(2)]) (auto simp: phase_ok_def split: option.splits)
next
  case (reject i req r resp)
  have "phase_ok c i" using assms(2) by (simp add: phases_ok_def)
  then show ?thesis using reject by (intro phases_kept [OF assms(2)]) (auto simp: phase_ok_def split: option.splits)
next
  case (authenticate i req r u)
  have "phase_ok c i" using assms(2) by (simp add: phases_ok_def)
  then show ?thesis using authenticate by (intro phases_kept [OF assms(2)]) (auto simp: phase_ok_def split: option.splits)
next
  case (refuse i req r u resp s)
  have "phase_ok c i" using assms(2) by (simp add: phases_ok_def)
  then show ?thesis using refuse by (intro phases_kept [OF assms(2)]) (auto simp: phase_ok_def split: option.splits)
next
  case (login body resp s)
  then show ?thesis by (intro phases_kept [OF assms(2)]) simp_all
next
  case (others w)
  then show ?thesis by (intro phases_kept [OF assms(2)]) simp_all
qed

text \<open>What a request asks for does not change once it is there; a request that has not passed does not openCount.\<close>

lemma asks_step:
  assumes "api_step A c c'" and "ac_Requests c i \<noteq> None"
  shows "asks c' i scope key = asks c i scope key"
  using assms by (cases rule: api_step.cases) (auto simp: asks_def)

lemma keys_kept:
  assumes "keys_ok c" and "sv_Idem (ac_Server c') = sv_Idem (ac_Server c)" and "ac_Passed c' = ac_Passed c"
    and "\<And>i. i \<in> set (ac_Passed c) \<Longrightarrow> asks c' i = asks c i"
  shows "keys_ok c'"
  using assms by (simp add: keys_ok_def cong: bex_cong)

lemma passed_present: "phases_ok c \<Longrightarrow> i \<in> set (ac_Passed c) \<Longrightarrow> ac_Requests c i \<noteq> None"
proof -
  assume "phases_ok c" and i: "i \<in> set (ac_Passed c)"
  then have "phase_ok c i" by (simp add: phases_ok_def)
  then show ?thesis using i by (auto simp: phase_ok_def split: option.splits)
qed

lemma keys_step:
  assumes "api_step A c c'" and "phases_ok c" and "keys_ok c"
  shows "keys_ok c'"
proof -
  have same: "asks c' i = asks c i" if "i \<in> set (ac_Passed c)" for i
    using asks_step [OF assms(1) passed_present [OF assms(2) that]] by (simp add: fun_eq_iff)
  show ?thesis using assms(1)
  proof cases
    case (admit i req r u s)
    have "phase_ok c i" using assms(2) by (simp add: phases_ok_def)
    then have i: "i \<notin> set (ac_Passed c)" using admit(2) by (simp add: phase_ok_def)
    have own: "asks c' i scope key \<longleftrightarrow> scope_of r = Some scope \<and> rq_IdempotencyKey req = key" for scope key
      by (simp add: asks_def admit(1))
    note eff = idem_effect [OF admit(3)]
    show ?thesis
    proof (cases "scope_of r")
      case None
      then have "\<not> asks c' i scope key" for scope key by (simp add: own)
      then show ?thesis using assms(3) same eff(3) None by (auto simp: keys_ok_def admit(1) cong: bex_cong)
    next
      case (Some sc)
      let ?k = "rq_IdempotencyKey req"
      have new: "composite sc ?k \<notin> sv_Idem (ac_Server c)" "sv_Idem s = insert (composite sc ?k) (sv_Idem (ac_Server c))"
        using eff(4) Some by auto
      then have none: "\<not> asks c j sc ?k" if "j \<in> set (ac_Passed c)" for j using assms(3) that by (auto simp: keys_ok_def)
      have "sv_Idem (ac_Server c') = {composite scope key |scope key. \<exists>j \<in> set (ac_Passed c'). asks c' j scope key}"
        using assms(3) same own Some new(2) by (auto simp: keys_ok_def admit(1))
      moreover have "j = k" if "j \<in> set (ac_Passed c')" "k \<in> set (ac_Passed c')" "asks c' j scope key" "asks c' k scope key" for j k scope key
        using that same own Some none assms(3) by (cases "j = i"; cases "k = i") (auto simp: keys_ok_def admit(1))
      ultimately show ?thesis by (simp add: keys_ok_def)
    qed
  next
    case (refuse i req r u resp s)
    then show ?thesis using same idem_effect(5) [OF refuse(3)] by (intro keys_kept [OF assms(3)]) auto
  next
    case (login body resp s)
    then show ?thesis using same handleAuth_keeps(1) [OF login(2)] by (intro keys_kept [OF assms(3)]) auto
  qed (use same in \<open>intro keys_kept [OF assms(3)]; simp\<close>)+
qed

lemma tokens_kept:
  assumes "tokens_ok c" and "ac_Passed c' = ac_Passed c"
    and "\<And>t. sv_Sessions (ac_Server c) t \<noteq> None \<Longrightarrow> sv_Sessions (ac_Server c') t \<noteq> None"
    and "\<And>i req r ph. ac_Requests c' i = Some (req, r, ph) \<Longrightarrow> i \<in> set (ac_Passed c) \<or> (\<exists>u. ph = Authed u) \<Longrightarrow>
           sv_Sessions (ac_Server c) (token_of req) \<noteq> None \<or> (\<exists>ph'. ac_Requests c i = Some (req, r, ph') \<and> (i \<in> set (ac_Passed c) \<or> (\<exists>u. ph' = Authed u)))"
  shows "tokens_ok c'"
  using assms unfolding tokens_ok_def by metis

lemma tokens_step:
  assumes "api_step A c c'" and "phases_ok c" and "tokens_ok c"
  shows "tokens_ok c'"
  using assms(1)
proof cases
  case (admit i req r u s)
  have "sv_Sessions (ac_Server c) (token_of req) \<noteq> None" using assms(3) admit(2) by (auto simp: tokens_ok_def)
  then show ?thesis using assms(3) idem_effect(1) [OF admit(3)] by (auto simp: tokens_ok_def admit(1))
next
  case (arrive i req r)
  have "i \<notin> set (ac_Passed c)" using passed_present [OF assms(2), of i] arrive(2) by auto
  then show ?thesis using arrive(1) by (intro tokens_kept [OF assms(3)]) (auto split: if_splits)
next
  case (authenticate i req r u)
  then show ?thesis using auth_effect [OF authenticate(3)] by (intro tokens_kept [OF assms(3)]) (auto split: if_splits)
next
  case (refuse i req r u resp s)
  then show ?thesis using idem_effect(1) [OF refuse(3)] by (intro tokens_kept [OF assms(3)]) (auto split: if_splits)
next
  case (login body resp s)
  then show ?thesis using handleAuth_keeps(2) [OF login(2)] by (intro tokens_kept [OF assms(3)]) auto
qed ((intro tokens_kept [OF assms(3)]; auto split: if_splits)+)

lemma api_reachable:
  assumes "(api_step A)\<^sup>*\<^sup>* (fresh_api S w) c"
  shows "phases_ok c \<and> keys_ok c \<and> tokens_ok c"
  using assms
proof induction
  case base
  then show ?case by (simp add: fresh_api_def phases_ok_def phase_ok_def keys_ok_def tokens_ok_def)
next
  case (step c c')
  then show ?case using phases_step keys_step tokens_step by blast
qed

text \<open>
  C37: however requests interleave with each other, with logins and with what other processes do, the handler of a
  request runs at most once, only for a request whose token the session store holds, and never for two requests of one scope with
  the same idempotency key; a request is refused as a repeat exactly when an earlier request of its scope passed the check
  with its key, whatever became of that request.
\<close>

theorem api_key_once:
  assumes "(api_step A)\<^sup>*\<^sup>* (fresh_api S w) c"
  shows "distinct (ac_Runs c)
     \<and> (\<forall>i \<in> set (ac_Runs c). \<exists>req r resp. ac_Requests c i = Some (req, r, Finished resp) \<and> sv_Sessions (ac_Server c) (token_of req) \<noteq> None)
     \<and> (\<forall>i \<in> set (ac_Runs c). \<forall>j \<in> set (ac_Runs c). \<forall>scope key. asks c i scope key \<longrightarrow> asks c j scope key \<longrightarrow> i = j)
     \<and> (\<forall>req r scope. scope_of r = Some scope \<longrightarrow> rq_IdempotencyKey req \<noteq> [] \<longrightarrow>
          (fst (idemMiddleware r req (ac_Server c)) = Some (ReplyError 409)
             \<longleftrightarrow> (\<exists>i \<in> set (ac_Passed c). asks c i scope (rq_IdempotencyKey req))))"
proof -
  have inv: "phases_ok c" "keys_ok c" "tokens_ok c" using api_reachable [OF assms] by blast+
  then have sub: "set (ac_Runs c) \<subseteq> set (ac_Passed c)" "distinct (ac_Runs c)" by (simp_all add: phases_ok_def)
  have "\<exists>req r resp. ac_Requests c i = Some (req, r, Finished resp) \<and> sv_Sessions (ac_Server c) (token_of req) \<noteq> None"
    if i: "i \<in> set (ac_Runs c)" for i
  proof -
    have p: "i \<in> set (ac_Passed c)" using i sub by blast
    have "phase_ok c i" using inv(1) by (simp add: phases_ok_def)
    moreover obtain req r ph where q: "ac_Requests c i = Some (req, r, ph)" using passed_present [OF inv(1) p] by auto
    ultimately obtain resp where "ph = Finished resp" using p i by (cases ph) (simp_all add: phase_ok_def)
    note q = q [unfolded this]
    then show ?thesis using p inv(3) by (auto simp: tokens_ok_def)
  qed
  moreover have "\<forall>i \<in> set (ac_Runs c). \<forall>j \<in> set (ac_Runs c). \<forall>scope key. asks c i scope key \<longrightarrow> asks c j scope key \<longrightarrow> i = j"
    using inv(2) sub(1) by (fastforce simp: keys_ok_def)
  moreover have "fst (idemMiddleware r req (ac_Server c)) = Some (ReplyError 409)
      \<longleftrightarrow> (\<exists>i \<in> set (ac_Passed c). asks c i scope (rq_IdempotencyKey req))"
    if "scope_of r = Some scope" "rq_IdempotencyKey req \<noteq> []" for req r scope
  proof -
    have "fst (idemMiddleware r req (ac_Server c)) = Some (ReplyError 409) \<longleftrightarrow> composite scope (rq_IdempotencyKey req) \<in> sv_Idem (ac_Server c)"
      using that by (simp add: idemMiddleware_def Seen_def composite_def Let_def)
    also have "\<dots> \<longleftrightarrow> (\<exists>i \<in> set (ac_Passed c). asks c i scope (rq_IdempotencyKey req))"
    proof -
      have "scope' = scope \<and> key' = rq_IdempotencyKey req"
        if "composite scope (rq_IdempotencyKey req) = composite scope' key'" "asks c i scope' key'" for scope' key' i
        using that composite_inj [of scope scope'] scope_plain [OF \<open>scope_of r = Some scope\<close>] scope_plain [of _ scope']
        by (auto simp: asks_def)
      then show ?thesis using inv(2) by (auto simp: keys_ok_def)
    qed
    finally show ?thesis .
  qed
  ultimately show ?thesis using sub(2) by blast
qed

section \<open>The settings\<close>

record 'w settings_pool =
  sp_Select :: "'w \<Rightarrow> (db_error + json \<times> int) \<times> 'w"
  sp_Insert :: "json \<Rightarrow> 'w \<Rightarrow> (db_error + int) \<times> 'w"
  sp_Update :: "json \<Rightarrow> int \<Rightarrow> int \<Rightarrow> 'w \<Rightarrow> (db_error + int) \<times> 'w"

definition LoadHot :: "'w settings_pool \<Rightarrow> 'w \<Rightarrow> (repo_settings_error + json \<times> int) \<times> 'w" where
  "LoadHot P w = (case sp_Select P w of
     (Inl e, w1) \<Rightarrow> (Inl (if e = DbNoRows then ErrSettingsNotFound else SettingsDb e), w1)
   | (Inr r, w1) \<Rightarrow> (Inr r, w1))"

definition SaveHot :: "'w settings_pool \<Rightarrow> json \<Rightarrow> int \<Rightarrow> 'w \<Rightarrow> repo_settings_error option \<times> 'w" where
  "SaveHot P payload expectedVersion w =
     (case (if expectedVersion = 0 then sp_Insert P payload w
            else sp_Update P payload (i64 (expectedVersion + 1)) expectedVersion w) of
        (Inl e, w1) \<Rightarrow> (Some (SettingsDb e), w1)
      | (Inr n, w1) \<Rightarrow> (if n = 0 then Some ErrVersionConflict else None, w1))"

text \<open>\<open>hotSettingsDTO\<close>; the map of exposures is checked on its own.\<close>

definition hotSettings_shape :: shape where
  "hotSettings_shape = ShStruct
     [(''fundingSearchMode'', ShStr), (''requireAlignedFundingTimes'', ShBool), (''minExpectedNetPnlUsdt'', ShStr),
      (''minConfidenceLevel'', ShInt), (''minSecondsBeforeFundingToEnter'', ShInt), (''requireBacktestPass'', ShBool),
      (''leverage'', ShStr), (''marginMode'', ShStr), (''positionMode'', ShStr), (''maxDailyLossUsdt'', ShStr),
      (''maxPositionLossUsdt'', ShStr), (''riskSnapAfterMaxDailyLoss'', ShBool), (''jointSlippageCapBps'', ShStr),
      (''maxExposurePerExchangeUsdt'', ShAny), (''deltaToleranceBase'', ShStr), (''deltaToleranceUsd'', ShStr),
      (''orderMode'', ShStr), (''ackTimeoutBehavior'', ShStr), (''orderAckTimeoutMs'', ShInt), (''exitIfAdlDetected'', ShBool),
      (''exitIfFundingSignChanges'', ShBool), (''rebalanceEnabled'', ShBool), (''withdrawalFeeCapUsdt'', ShStr),
      (''withdrawalFailureThreshold'', ShInt), (''depositGracePeriodMs'', ShInt)]"

fun string_map :: "json \<Rightarrow> bool" where
  "string_map JNull = True"
| "string_map (JObj ms) = (\<forall>(k, v) \<in> set ms. case v of JStr s \<Rightarrow> True | JNull \<Rightarrow> True | _ \<Rightarrow> False)"
| "string_map j = False"

definition exposures_ok :: "json \<Rightarrow> bool" where
  "exposures_ok j = (case j of
     JObj ms \<Rightarrow> (\<forall>(k, v) \<in> set ms. to_lower k = to_lower ''maxExposurePerExchangeUsdt'' \<longrightarrow> string_map v) | _ \<Rightarrow> True)"

definition valid_settings :: "json \<Rightarrow> bool" where
  "valid_settings j \<longleftrightarrow> known_fields hotSettings_shape j \<and> decode hotSettings_shape (zero_value hotSettings_shape) j \<noteq> None \<and> exposures_ok j"

text \<open>\<open>DBSettingsProvider\<close>: the errors of the repository are passed on as they are.\<close>

definition DBSettings_Get :: "'w settings_pool \<Rightarrow> 'w \<Rightarrow> (json \<times> int) option \<times> 'w" where
  "DBSettings_Get P w = (case LoadHot P w of (Inl e, w1) \<Rightarrow> (None, w1) | (Inr r, w1) \<Rightarrow> (Some r, w1))"

definition DBSettings_Save :: "'w settings_pool \<Rightarrow> json option \<Rightarrow> int \<Rightarrow> 'w \<Rightarrow> settings_error option \<times> 'w" where
  "DBSettings_Save P raw version w = (case raw of
     None \<Rightarrow> (Some InvalidPayload, w)
   | Some j \<Rightarrow>
       if \<not> valid_settings j then (Some InvalidPayload, w)
       else (case SaveHot P j version w of
               (Some e, w1) \<Rightarrow> (Some (RepoError e), w1)
             | (None, w1) \<Rightarrow> (None, w1)))"

text \<open>\<open>MemorySettingsProvider\<close> of the tests, which does answer with the conflict error.\<close>

definition MemorySettings_Save :: "json option \<Rightarrow> int \<Rightarrow> json option \<times> int \<Rightarrow> settings_error option \<times> (json option \<times> int)" where
  "MemorySettings_Save raw version p =
     (if version \<noteq> snd p then (Some VersionConflictError, p) else (None, (raw, i64 (snd p + 1))))"

text \<open>What PostgreSQL does to the singleton row: its version and payload, or none.\<close>

locale settings_table =
  fixes P :: "'w settings_pool" and row :: "'w \<Rightarrow> (json \<times> int) option"
  assumes select_ok: "sp_Select P w = (Inr r, w1) \<Longrightarrow> row w = Some r"
    and select_frame: "sp_Select P w = (q, w1) \<Longrightarrow> row w1 = row w"
    and insert_ok: "sp_Insert P j w = (Inr n, w1) \<Longrightarrow>
       (case row w of None \<Rightarrow> row w1 = Some (j, 1) \<and> n = 1
        | Some (old, v) \<Rightarrow> if v = 0 then row w1 = Some (j, 1) \<and> n = 1 else row w1 = row w \<and> n = 0)"
    and insert_failed: "sp_Insert P j w = (Inl e, w1) \<Longrightarrow> row w1 = row w \<or>
       ((row w = None \<or> (\<exists>old. row w = Some (old, 0))) \<and> row w1 = Some (j, 1))"
    and update_ok: "sp_Update P j v' v w = (Inr n, w1) \<Longrightarrow>
       (if \<exists>old. row w = Some (old, v) then row w1 = Some (j, v') \<and> n = 1 else row w1 = row w \<and> n = 0)"
    and update_failed: "sp_Update P j v' v w = (Inl e, w1) \<Longrightarrow> row w1 = row w \<or> ((\<exists>old. row w = Some (old, v)) \<and> row w1 = Some (j, v'))"
begin

definition version_of :: "'w \<Rightarrow> int" where
  "version_of w = (case row w of None \<Rightarrow> 0 | Some (j, v) \<Rightarrow> v)"

lemma SaveHot_cas:
  assumes "SaveHot P j v w = (r, w1)"
  shows "r = None \<Longrightarrow> version_of w = v \<and> row w1 = Some (j, i64 (v + 1))"
    and "row w1 = row w \<or> (version_of w = v \<and> row w1 = Some (j, i64 (v + 1)))"
    and "version_of w \<noteq> v \<Longrightarrow> r \<noteq> None \<and> row w1 = row w"
proof -
  have one: "i64 (0 + 1) = 1" by (simp add: i64_def)
  have "(r = None \<longrightarrow> version_of w = v \<and> row w1 = Some (j, i64 (v + 1))) \<and> (row w1 = row w \<or> (version_of w = v \<and> row w1 = Some (j, i64 (v + 1))))"
  proof (cases "v = 0")
    case True
    obtain q where q: "sp_Insert P j w = (q, w1)" using assms True by (auto simp: SaveHot_def split: prod.splits sum.splits if_splits)
    show ?thesis
    proof (cases q)
      case (Inl e)
      then show ?thesis using insert_failed [of j w e w1] q assms True one by (auto simp: SaveHot_def version_of_def)
    next
      case (Inr n)
      then show ?thesis using insert_ok [of j w n w1] q assms True one
        by (auto simp: SaveHot_def version_of_def split: option.splits if_splits)
    qed
  next
    case False
    obtain q where q: "sp_Update P j (i64 (v + 1)) v w = (q, w1)" using assms False by (auto simp: SaveHot_def split: prod.splits sum.splits if_splits)
    show ?thesis
    proof (cases q)
      case (Inl e)
      then show ?thesis using update_failed [of j "i64 (v + 1)" v w e w1] q assms False by (auto simp: SaveHot_def version_of_def)
    next
      case (Inr n)
      then show ?thesis using update_ok [of j "i64 (v + 1)" v w n w1] q assms False
        by (auto simp: SaveHot_def version_of_def split: if_splits)
    qed
  qed
  then show "r = None \<Longrightarrow> version_of w = v \<and> row w1 = Some (j, i64 (v + 1))"
    "row w1 = row w \<or> (version_of w = v \<and> row w1 = Some (j, i64 (v + 1)))" "version_of w \<noteq> v \<Longrightarrow> r \<noteq> None \<and> row w1 = row w" by blast+
qed

end

text \<open>A sequence of saves, each one statement, with what they answered.\<close>

fun saves :: "'w settings_pool \<Rightarrow> (json \<times> int) list \<Rightarrow> 'w \<Rightarrow> repo_settings_error option list \<times> 'w" where
  "saves P [] w = ([], w)"
| "saves P ((j, v) # ops) w = (case SaveHot P j v w of (r, w1) \<Rightarrow> (case saves P ops w1 of (rs, w2) \<Rightarrow> (r # rs, w2)))"

context settings_table
begin

lemma SaveHot_grows:
  assumes "SaveHot P j v w = (r, w1)" and "v < int64_max" and "0 \<le> v"
  shows "version_of w \<le> version_of w1" and "r = None \<Longrightarrow> version_of w = v \<and> version_of w1 = v + 1"
proof -
  have "i64 (v + 1) = v + 1" using assms(2,3) by (intro i64_id) (simp add: in_i64_def int64_max_def int64_min_def)
  then show "version_of w \<le> version_of w1" "r = None \<Longrightarrow> version_of w = v \<and> version_of w1 = v + 1"
    using SaveHot_cas(1,2) [OF assms(1)] by (auto simp: version_of_def)
qed

lemma saves_above:
  assumes "saves P ops w = (rs, w1)" and "\<forall>(j, v) \<in> set ops. 0 \<le> v \<and> v < int64_max" and "k < length ops" and "rs ! k = None"
  shows "version_of w \<le> snd (ops ! k)"
  using assms
proof (induction ops arbitrary: w rs k)
  case (Cons op ops)
  obtain j v where op: "op = (j, v)" by fastforce
  obtain r w2 rs' where s: "SaveHot P j v w = (r, w2)" "saves P ops w2 = (rs', w1)" "rs = r # rs'"
    using Cons.prems(1) by (auto simp: op split: prod.splits)
  have v: "0 \<le> v" "v < int64_max" using Cons.prems(2) by (simp_all add: op)
  show ?case
  proof (cases k)
    case 0
    then show ?thesis using SaveHot_grows(2) [OF s(1) v(2,1)] Cons.prems(4) s(3) by (simp add: op)
  next
    case (Suc m)
    then have "version_of w2 \<le> snd (ops ! m)" using Cons.IH [OF s(2)] Cons.prems s(3) by simp
    then show ?thesis using SaveHot_grows(1) [OF s(1) v(2,1)] Suc by simp
  qed
qed simp

lemma saves_increase:
  assumes "saves P ops w = (rs, w1)" and "\<forall>(j, v) \<in> set ops. 0 \<le> v \<and> v < int64_max"
    and "i < k" and "k < length ops" and "rs ! i = None" and "rs ! k = None"
  shows "snd (ops ! i) < snd (ops ! k)"
  using assms
proof (induction ops arbitrary: w rs i k)
  case (Cons op ops)
  obtain j v where op: "op = (j, v)" by fastforce
  obtain r w2 rs' where s: "SaveHot P j v w = (r, w2)" "saves P ops w2 = (rs', w1)" "rs = r # rs'"
    using Cons.prems(1) by (auto simp: op split: prod.splits)
  have v: "0 \<le> v" "v < int64_max" using Cons.prems(2) by (simp_all add: op)
  obtain m where k: "k = Suc m" using Cons.prems(3) by (cases k) auto
  show ?case
  proof (cases i)
    case 0
    have "version_of w2 \<le> snd (ops ! m)" using Cons.prems s k by (intro saves_above [OF s(2)]) auto
    then show ?thesis using SaveHot_grows(2) [OF s(1) v(2,1)] Cons.prems(5) s(3) 0 k by (simp add: op)
  next
    case (Suc n)
    then show ?thesis using Cons.IH [OF s(2), of n m] Cons.prems s(3) k by simp
  qed
qed simp

end

text \<open>
  C38: whoever saves settings, in whatever order and with whatever database failures, two saves that were accepted were made for
  different versions, the later one for the later version: no accepted change is overwritten by somebody who had not seen it.
\<close>

theorem settings_no_lost_update:
  assumes "settings_table P row" and "saves P ops w = (rs, w1)" and "\<forall>(j, v) \<in> set ops. 0 \<le> v \<and> v < int64_max"
    and "i < k" and "k < length ops" and "rs ! i = None" and "rs ! k = None"
  shows "snd (ops ! i) < snd (ops ! k)"
  using settings_table.saves_increase [OF assms] .

text \<open>The provider of the server over a pool.\<close>

definition db_settings :: "'w settings_pool \<Rightarrow> 'w settings_provider" where
  "db_settings P = \<lparr>st_Get = DBSettings_Get P, st_Save = DBSettings_Save P\<rparr>"

text \<open>
  the server never reports a version conflict as one: a save of valid settings for a version that is
  not the current one changes nothing and is answered with 500, not with the 409 the Mini App reloads on; from this handler 409 does
  not come at all.
\<close>

theorem settings_conflict_unmapped:
  assumes "settings_table P row" and "ap_Settings A = Some (db_settings P)"
    and "decodeJSON (ShStruct [(''version'', ShInt), (''settings'', ShAny)]) body = Some j"
    and "raw_settings body = Some payload" and "valid_settings payload"
    and "js_int j ''version'' \<noteq> settings_table.version_of row w"
    and "run_handler A PutSettings body w = (resp, w1)"
  shows "resp = ReplyError 500 \<and> row w1 = row w \<and> (\<forall>body w. status_of (fst (run_handler A PutSettings body w)) \<noteq> 409)"
proof -
  obtain r w2 where s: "SaveHot P payload (js_int j ''version'') w = (r, w2)" by fastforce
  then have "r \<noteq> None \<and> row w2 = row w" using settings_table.SaveHot_cas(3) [OF assms(1) s] assms(6) by force
  then have "resp = ReplyError 500 \<and> row w1 = row w"
    using assms(2-5,7) s by (auto simp: handlePutSettings_def db_settings_def DBSettings_Save_def split: option.splits)
  moreover have "status_of (fst (run_handler A PutSettings body w)) \<noteq> 409" for body w
    using assms(2) by (auto simp: handlePutSettings_def db_settings_def DBSettings_Save_def
        split: option.splits prod.splits settings_error.splits if_splits)
  ultimately show ?thesis by blast
qed

section \<open>The server\<close>

text \<open>The providers over the guard of the process and the database; a panic of the cipher, which needs a longer text than a body holds, counts as an error.\<close>

definition db_killswitch ::
  "'w lock_control \<Rightarrow> 'w cred_env \<Rightarrow> (rotationRow \<Rightarrow> 'w \<Rightarrow> db_error option \<times> 'w) \<Rightarrow> (Halter \<times> 'w) killswitch_provider" where
  "db_killswitch C D ins = \<lparr>
     ks_Engage = (\<lambda>reason (h, w). case KS_Engage C D ins reason h w of ((errs, out), h1, w1) \<Rightarrow> (errs = [], (h1, w1))),
     ks_Status = (\<lambda>(h, w). (Some (KS_Status h), (h, w)))\<rparr>"

definition db_credentials :: "'w cred_env \<Rightarrow> string \<Rightarrow> (Halter \<times> 'w) credentials_provider" where
  "db_credentials D masterKeyEnv = \<lparr>
     cr_List = (\<lambda>(h, w). case Cred_List D ownerUserID w of (Inl e, w1) \<Rightarrow> (None, (h, w1)) | (Inr infos, w1) \<Rightarrow> (Some infos, (h, w1))),
     cr_Save = (\<lambda>ex kind p (h, w). case App_SaveCredential D masterKeyEnv ownerUserID ex kind p w of
        None \<Rightarrow> (None, (h, w)) | Some (Inl e, w1) \<Rightarrow> (None, (h, w1)) | Some (Inr fp, w1) \<Rightarrow> (Some fp, (h, w1))),
     cr_Revoke = (\<lambda>ex kind (h, w). case App_RevokeCredential D ownerUserID ex kind w of (e, w1) \<Rightarrow> (e = None, (h, w1)))\<rparr>"

definition on_db :: "('w \<Rightarrow> 'a \<times> 'w) \<Rightarrow> Halter \<times> 'w \<Rightarrow> 'a \<times> (Halter \<times> 'w)" where
  "on_db f = (\<lambda>(h, w). case f w of (r, w1) \<Rightarrow> (r, (h, w1)))"

text \<open>\<open>DBStatusProvider\<close>: the guard of the server process and the number of stored open positions.\<close>

definition db_status :: "('w \<Rightarrow> nat option \<times> 'w) \<Rightarrow> string \<Rightarrow> Halter \<times> 'w \<Rightarrow> json option \<times> (Halter \<times> 'w)" where
  "db_status openCount runMode = (\<lambda>(h, w). case openCount w of
     (None, w1) \<Rightarrow> (None, (h, w1))
   | (Some n, w1) \<Rightarrow> (Some (JObj [(''systemState'', JStr (if fst (IsHalted h) then ''SAFE_HALT'' else ''RUNNING'')),
        (''runMode'', JStr runMode), (''exchanges'', JNull), (''totalEquityUSDT'', JStr ''0''), (''openPositions'', JNum (format_uint n)),
        (''realizedPnL'', JStr ''0''), (''unrealizedPnL'', JStr ''0''), (''fundingPnL'', JStr ''0''), (''activeIncidents'', JNull),
        (''clockOffsetMs'', JNum ''0'')]), (h, w1)))"

text \<open>\<open>allowlistFromEnv\<close>: parts that are no positive number are skipped; an empty text is no allowlist.\<close>

definition allowlistFromEnv :: "string \<Rightarrow> (int \<Rightarrow> bool) option" where
  "allowlistFromEnv s0 = (let s = trim_space s0 in
     if s = [] then None
     else Some (IsAdmin (fold (\<lambda>part m. case ParseInt (trim_space part) of (i, ok) \<Rightarrow> if ok \<and> i > 0 then m(i \<mapsto> True) else m)
       (split_on CHR '','' s) Map.empty)))"

definition secret_verifier :: "string \<Rightarrow> int \<Rightarrow> string \<Rightarrow> 'w \<Rightarrow> bool option \<times> 'w" where
  "secret_verifier secret userID code w = (Some (secret_Verify secret code), w)"

text \<open>The handler \<open>cmd/server\<close> builds from its environment.\<close>

record server_config =
  sc_BotToken :: string
  sc_AdminIDs :: string
  sc_2FASecret :: string
  sc_MasterKeyEnv :: string
  sc_RunMode :: string
  sc_Index :: "string option"

definition server_api ::
  "server_config \<Rightarrow> 'w lock_control \<Rightarrow> 'w cred_env \<Rightarrow> (rotationRow \<Rightarrow> 'w \<Rightarrow> db_error option \<times> 'w) \<Rightarrow> 'w settings_pool
   \<Rightarrow> 'w close_pool \<Rightarrow> ('w \<Rightarrow> nat option \<times> 'w) \<Rightarrow> (Halter \<times> 'w) api" where
  "server_api cfg C D ins SP CP openCount = NewHandler \<lparr>
     ap_BotToken = sc_BotToken cfg, ap_MaxInitDataAge = 0, ap_Allowlist = allowlistFromEnv (sc_AdminIDs cfg), ap_SessionTTL = 0,
     ap_Index = sc_Index cfg, ap_Now = (\<lambda>(h, w). ce_Now D w), ap_Random = on_db (ce_rand D 32),
     ap_Status = Some (db_status openCount (sc_RunMode cfg)), ap_Candidates = Some (\<lambda>w. (Some (JArr []), w)),
     ap_Settings = Some \<lparr>st_Get = on_db (DBSettings_Get SP), st_Save = (\<lambda>raw v. on_db (DBSettings_Save SP raw v))\<rparr>,
     ap_Closer = Some (\<lambda>i. on_db (\<lambda>w. case App_RequestClose CP i w of (e, w1) \<Rightarrow> (e = None, w1))),
     ap_Credentials = Some (db_credentials D (sc_MasterKeyEnv cfg)),
     ap_Owner = Some (\<lambda>u. on_db (\<lambda>w. case App_ClaimOwner D u w of (Inl e, w1) \<Rightarrow> (None, w1) | (Inr b, w1) \<Rightarrow> (Some b, w1))),
     ap_KillSwitch = Some (db_killswitch C D ins),
     ap_TwoFactor = (if sc_2FASecret cfg = [] then None else Some (secret_verifier (sc_2FASecret cfg)))\<rparr>"

lemma server_api_simps [simp]:
  "ap_KillSwitch (server_api cfg C D ins SP CP openCount) = Some (db_killswitch C D ins)"
  "ap_TwoFactor (server_api cfg C D ins SP CP openCount) = (if sc_2FASecret cfg = [] then None else Some (secret_verifier (sc_2FASecret cfg)))"
  by (simp_all add: server_api_def NewHandler_def)

text \<open>
  C13: a POST to the kill switch of the server that is answered 200 came with a valid session, a key not used
  before and, where a secret is configured, that secret; the process is halted, SAFE_HALT is in the database and no key of the owner
  is left. An answer of 500 has halted the process, too; any other answer means that neither the guard nor the database was touched.
\<close>

theorem kill_switch_endpoint:
  assumes "emergency C engaged D creds ins rotations"
    and "rq_Method req = ''POST''" and "rq_Path req = [''api'', ''killswitch'']"
    and "ServeHTTP (server_api cfg C D ins SP CP openCount) req s = (resp, s')" and "sv_World s' = (h', w')"
  shows "status_of resp = 200 \<and> (\<exists>u. SS_Validate (sv_Sessions s) (token_of req) (ce_Now D (snd (sv_World s))) = Inr u)
       \<and> rq_IdempotencyKey req \<noteq> [] \<and> composite ''killswitch'' (rq_IdempotencyKey req) \<notin> sv_Idem s
       \<and> (sc_2FASecret cfg = [] \<or> rq_Code req = sc_2FASecret cfg)
       \<and> fst (IsHalted h') \<and> engaged w' SafeHaltName \<and> (\<forall>ex kind. \<not> active (creds w') (ownerUserID, ex, kind))
     \<or> status_of resp = 500 \<and> fst (IsHalted h')
     \<or> status_of resp \<in> {400, 401, 403, 409} \<and> sv_World s' = sv_World s"
proof -
  let ?A = "server_api cfg C D ins SP CP openCount"
  have route: "route_of (rq_Method req) (rq_Path req) = Some KillSwitchEngage" by (simp add: assms(2,3) route_of_def)
  have now: "ap_Now ?A (sv_World s) = ce_Now D (snd (sv_World s))"
    by (simp add: server_api_def NewHandler_def split: prod.split)
  show ?thesis
  proof (cases "authMiddleware ?A req s")
    case (Inl r)
    then have "r = ReplyError 401" by (auto simp: authMiddleware_def Let_def split: if_splits sum.splits)
    then show ?thesis using assms(4) Inl by (auto simp: ServeHTTP_def route)
  next
    case (Inr u)
    then have valid: "SS_Validate (sv_Sessions s) (token_of req) (ce_Now D (snd (sv_World s))) = Inr u"
      by (auto simp: authMiddleware_def Let_def token_of_def now split: if_splits sum.splits)
    obtain ir s1 where i: "idemMiddleware KillSwitchEngage req s = (ir, s1)" by fastforce
    show ?thesis
    proof (cases ir)
      case (Some r)
      then have "status_of r \<in> {400, 409}" using i by (auto simp: idemMiddleware_def split: if_splits prod.splits bool.splits)
      then show ?thesis using assms(4) Inr Some idem_effect(2) [OF i] by (auto simp: ServeHTTP_def route i)
    next
      case None
      note key = idem_effect(4) [OF i None, of "''killswitch''"] and world = idem_effect(2) [OF i]
      obtain resp' w1 where a: "admitted ?A KillSwitchEngage u req (sv_World s1) = (resp', w1)" by (metis surj_pair)
      have s': "resp = resp'" "sv_World s' = w1" using assms(4) Inr None by (auto simp: ServeHTTP_def route i a)
      obtain t w2 where t: "twoFactorMiddleware ?A KillSwitchEngage u req (sv_World s1) = (t, w2)" by (metis surj_pair)
      have w2: "w2 = sv_World s" and tf: "t \<noteq> None \<Longrightarrow> status_of (the t) \<in> {401, 403}"
        "t = None \<Longrightarrow> sc_2FASecret cfg = [] \<or> rq_Code req = sc_2FASecret cfg"
        using t by (auto simp: twoFactorMiddleware_def secret_verifier_def secret_Verify_eq world split: if_splits)
      show ?thesis
      proof (cases t)
        case (Some r)
        then show ?thesis using a s' t tf(1) w2 by (auto simp: admitted_def)
      next
        case None
        note code = tf(2) [OF None]
        obtain h w where hw: "sv_World s = (h, w)" by (metis surj_pair)
        have run: "handleKillSwitchEngage ?A (rq_Body req) (h, w) = (resp', w1)" using a t None w2 hw by (simp add: admitted_def)
        show ?thesis
        proof (cases "decodeJSON (ShStruct [(''reason'', ShStr)]) (rq_Body req)")
          case None
          then show ?thesis using run s' hw by (auto simp: handleKillSwitchEngage_def)
        next
          case (Some j)
          obtain errs out h1 wd where k: "KillSwitch C D ins ''user:miniapp'' (js_str j ''reason'') h w = ((errs, out), h1, wd)"
            by (metis surj_pair)
          note eff = emergency.KillSwitch_effect [OF assms(1) k]
          have "resp = (if errs = [] then Reply 200 DocHalted else ReplyError 500)" "sv_World s' = (h1, wd)"
            using run s' Some k by (cases "errs = []"; auto simp: handleKillSwitchEngage_def db_killswitch_def KS_Engage_def)+
          then show ?thesis using eff(1-3) valid key code assms(5) by (auto simp: IsHalted_def)
        qed
      qed
    qed
  qed
qed

section \<open>Examples\<close>

text \<open>Two requests to close one position with one key: the first is handled, the second refused.\<close>

definition example_api :: "nat api" where
  "example_api = \<lparr>ap_BotToken = [], ap_MaxInitDataAge = 0, ap_Allowlist = None, ap_SessionTTL = 0, ap_Index = None, ap_Now = (\<lambda>w. 5),
     ap_Random = (\<lambda>w. (None, w)), ap_Status = None, ap_Candidates = None, ap_Settings = None, ap_Closer = Some (\<lambda>i w. (True, Suc w)),
     ap_Credentials = None, ap_Owner = None, ap_KillSwitch = None, ap_TwoFactor = None\<rparr>"

definition example_sessions :: sessions where
  "example_sessions = [''t0k3n'' \<mapsto> \<lparr>me_userID = 42, me_expiresAt = 10, me_revoked = False\<rparr>]"

definition example_close :: api_request where
  "example_close = \<lparr>rq_Method = ''POST'', rq_Path = [''api'', ''positions'', ''pos-1'', ''close''], rq_Authorization = ''Bearer t0k3n'',
     rq_IdempotencyKey = ''k1'', rq_Code = [], rq_Body = []\<rparr>"

lemma example_close_route: "route_of (rq_Method example_close) (rq_Path example_close) = Some (PositionClose ''pos-1'')"
  by (simp add: example_close_def route_of_def)

lemma example_close_auth:
  assumes "sv_Sessions s = example_sessions"
  shows "authMiddleware example_api example_close s = Inr 42"
proof -
  have "extractBearerToken (rq_Authorization example_close) = ''t0k3n''" by code_simp
  then show ?thesis
    by (simp add: authMiddleware_def Let_def SS_Validate_def assms example_sessions_def example_api_def)
qed

lemma example_close_runs:
  "\<exists>c. (api_step example_api)\<^sup>*\<^sup>* (fresh_api example_sessions 0) c \<and> ac_Runs c = [0]
     \<and> ac_Requests c 1 = Some (example_close, PositionClose ''pos-1'', Finished (ReplyError 409)) \<and> ac_Passed c = [0] \<and> asks c 0 ''positions.close'' ''k1''"
proof -
  let ?r = "PositionClose ''pos-1''" let ?A = example_api
  let ?c = "\<lambda>seen w ps rs ph0 ph1. \<lparr>ac_Server = \<lparr>sv_Sessions = example_sessions, sv_Idem = seen, sv_World = w\<rparr>,
      ac_Requests = [0 \<mapsto> (example_close, ?r, ph0), 1 \<mapsto> (example_close, ?r, ph1)], ac_Passed = ps, ac_Runs = rs\<rparr> :: nat api_conf"
  let ?seen = "{''positions.close:k1''}"
  have swap: "f(Suc 0 \<mapsto> b, 0 \<mapsto> a) = f(0 \<mapsto> a, Suc 0 \<mapsto> b)"
    for f :: "nat \<rightharpoonup> api_request \<times> route \<times> phase" and a b by (auto simp: fun_eq_iff)
  let ?c1 = "(fresh_api example_sessions 0)\<lparr>ac_Requests := [0 \<mapsto> (example_close, ?r, Waiting)]\<rparr>"
  have s1: "api_step ?A (fresh_api example_sessions 0) ?c1"
    using api_step.arrive [of "fresh_api example_sessions 0" 0 example_close ?r ?A] example_close_route by (simp add: fresh_api_def)
  have s2: "api_step ?A ?c1 (?c {} 0 [] [] Waiting Waiting)"
    using api_step.arrive [of ?c1 1 example_close ?r ?A] example_close_route by (simp add: fresh_api_def)
  have s3: "api_step ?A (?c {} 0 [] [] Waiting Waiting) (?c {} 0 [] [] (Authed 42) Waiting)"
    using api_step.authenticate [of "?c {} 0 [] [] Waiting Waiting" 0 example_close ?r ?A 42] by (simp add: example_close_auth swap)
  have s4: "api_step ?A (?c {} 0 [] [] (Authed 42) Waiting) (?c {} 0 [] [] (Authed 42) (Authed 42))"
    using api_step.authenticate [of "?c {} 0 [] [] (Authed 42) Waiting" 1 example_close ?r ?A 42] by (simp add: example_close_auth swap)
  have i1: "idemMiddleware ?r example_close s = (None, s\<lparr>sv_Idem := ?seen\<rparr>)" if "sv_Idem s = {}" for s :: "nat server"
    using that by (simp add: idemMiddleware_def Seen_def example_close_def)
  have i2: "idemMiddleware ?r example_close s = (Some (ReplyError 409), s)" if "sv_Idem s = ?seen" for s :: "nat server"
    using that by (cases s) (simp add: idemMiddleware_def Seen_def example_close_def)
  have s5: "api_step ?A (?c {} 0 [] [] (Authed 42) (Authed 42)) (?c ?seen 0 [0] [] (Admitted 42) (Authed 42))"
    using api_step.admit [of "?c {} 0 [] [] (Authed 42) (Authed 42)" 0 example_close ?r 42 _ ?A] by (simp add: i1 swap)
  have s6: "api_step ?A (?c ?seen 0 [0] [] (Admitted 42) (Authed 42)) (?c ?seen 0 [0] [] (Admitted 42) (Finished (ReplyError 409)))"
    using api_step.refuse [of "?c ?seen 0 [0] [] (Admitted 42) (Authed 42)" 1 example_close ?r 42 _ _ ?A] by (simp add: i2 swap)
  let ?d = "Reply 202 (DocAccepted ''pos-1'')"
  have "admitted ?A ?r 42 example_close 0 = (?d, 1)"
    by (simp add: admitted_def twoFactorMiddleware_def handlePositionClose_def example_api_def)
  then have s7: "api_step ?A (?c ?seen 0 [0] [] (Admitted 42) (Finished (ReplyError 409))) (?c ?seen 1 [0] [0] (Finished ?d) (Finished (ReplyError 409)))"
    using api_step.handle [of "?c ?seen 0 [0] [] (Admitted 42) (Finished (ReplyError 409))" 0 example_close ?r 42 ?A ?d 1] by (simp add: swap)
  have "(api_step ?A)\<^sup>*\<^sup>* (fresh_api example_sessions 0) (?c ?seen 1 [0] [0] (Finished ?d) (Finished (ReplyError 409)))"
    using s1 s2 s3 s4 s5 s6 s7 by (meson rtranclp.rtrancl_into_rtrancl rtranclp.rtrancl_refl)
  then show ?thesis by (intro exI [of _ "?c ?seen 1 [0] [0] (Finished ?d) (Finished (ReplyError 409))"]) (simp add: asks_def example_close_def)
qed

theorem api_key_once_witness:
  "\<exists>c. (api_step example_api)\<^sup>*\<^sup>* (fresh_api example_sessions 0) c \<and> distinct (ac_Runs c) \<and> ac_Runs c = [0]
     \<and> fst (idemMiddleware (PositionClose ''pos-2'') example_close (ac_Server c)) = Some (ReplyError 409)"
proof -
  obtain c where c: "(api_step example_api)\<^sup>*\<^sup>* (fresh_api example_sessions 0) c" "ac_Runs c = [0]" "ac_Passed c = [0]"
    "asks c 0 ''positions.close'' ''k1''"
    using example_close_runs by blast
  have "rq_IdempotencyKey example_close = ''k1''" by (simp add: example_close_def)
  then have "fst (idemMiddleware (PositionClose ''pos-2'') example_close (ac_Server c)) = Some (ReplyError 409)"
    using api_key_once [OF c(1)] c(3,4) by auto
  then show ?thesis using c by auto
qed

text \<open>The row of the settings in memory.\<close>

definition mem_settings :: "(json \<times> int) option settings_pool" where
  "mem_settings = \<lparr>sp_Select = (\<lambda>r. (case r of None \<Rightarrow> Inl DbNoRows | Some x \<Rightarrow> Inr x, r)),
     sp_Insert = (\<lambda>j r. case r of None \<Rightarrow> (Inr 1, Some (j, 1)) | Some (old, v) \<Rightarrow> if v = 0 then (Inr 1, Some (j, 1)) else (Inr 0, r)),
     sp_Update = (\<lambda>j v' v r. case r of None \<Rightarrow> (Inr 0, r) | Some (old, v0) \<Rightarrow> if v0 = v then (Inr 1, Some (j, v')) else (Inr 0, r))\<rparr>"

lemma mem_settings_table: "settings_table mem_settings (\<lambda>r. r)"
  by unfold_locales (auto simp: mem_settings_def split: option.splits prod.splits if_splits)

interpretation mem_set: settings_table mem_settings "\<lambda>r. r"
  by (rule mem_settings_table)

definition two_settings :: "(json \<times> int) list" where
  "two_settings = [(JObj [], 3), (JNull, 3), (JObj [(''leverage'', JStr ''2'')], 4)]"

theorem settings_no_lost_update_witness:
  "saves mem_settings two_settings (Some (JObj [], 3)) = ([None, Some ErrVersionConflict, None], Some (JObj [(''leverage'', JStr ''2'')], 5))
     \<and> snd (two_settings ! 0) < snd (two_settings ! 2)"
proof -
  have s: "saves mem_settings two_settings (Some (JObj [], 3)) = ([None, Some ErrVersionConflict, None], Some (JObj [(''leverage'', JStr ''2'')], 5))"
    by (simp add: two_settings_def SaveHot_def mem_settings_def i64_def)
  have "\<forall>(j, v) \<in> set two_settings. 0 \<le> v \<and> v < int64_max" by (simp add: two_settings_def int64_max_def)
  from settings_no_lost_update [OF mem_settings_table s this, of 0 2] s show ?thesis by (simp add: two_settings_def)
qed

definition settings_api :: "(json \<times> int) option api" where
  "settings_api = \<lparr>ap_BotToken = [], ap_MaxInitDataAge = 0, ap_Allowlist = None, ap_SessionTTL = 0, ap_Index = None, ap_Now = (\<lambda>w. 0),
     ap_Random = (\<lambda>w. (None, w)), ap_Status = None, ap_Candidates = None, ap_Settings = Some (db_settings mem_settings), ap_Closer = None,
     ap_Credentials = None, ap_Owner = None, ap_KillSwitch = None, ap_TwoFactor = None\<rparr>"

definition stale_body :: string where
  "stale_body = quoted ''{^version^:2,^settings^:{^leverage^:^2^}}''"

theorem settings_conflict_unmapped_witness:
  "run_handler settings_api PutSettings stale_body (Some (JObj [], 3)) = (ReplyError 500, Some (JObj [], 3))"
proof -
  obtain resp w1 where r: "run_handler settings_api PutSettings stale_body (Some (JObj [], 3)) = (resp, w1)" by (metis surj_pair)
  have d: "decodeJSON (ShStruct [(''version'', ShInt), (''settings'', ShAny)]) stale_body
      = Some (JObj [(''version'', JNum ''2''), (''settings'', JObj [(''leverage'', JStr ''2'')])])"
  proof -
    have "decode_first (ShStruct [(''version'', ShInt), (''settings'', ShAny)]) stale_body
      = Some (JObj [(''version'', JNum ''2''), (''settings'', JObj [(''leverage'', JStr ''2'')])])" by code_simp
    moreover have "length stale_body \<le> max_body" by (simp add: stale_body_def quoted_def max_body_def)
    ultimately show ?thesis by (simp add: decodeJSON_def)
  qed
  have s: "raw_settings stale_body = Some (JObj [(''leverage'', JStr ''2'')])" "valid_settings (JObj [(''leverage'', JStr ''2'')])" by code_simp+
  have "js_int (JObj [(''version'', JNum ''2''), (''settings'', JObj [(''leverage'', JStr ''2'')])]) ''version''
      \<noteq> mem_set.version_of (Some (JObj [], 3))"
    by (simp add: mem_set.version_of_def js_int_def ParseInt_def read_uint_def is_digit_def digit_val_def int64_max_def int64_min_def)
  from settings_conflict_unmapped [OF mem_settings_table _ d s this r] r show ?thesis by (simp add: settings_api_def)
qed

definition example_server :: server_config where
  "example_server = \<lparr>sc_BotToken = ''123:abc'', sc_AdminIDs = ''42'', sc_2FASecret = ''s3cret'', sc_MasterKeyEnv = mem_master,
     sc_RunMode = ''live'', sc_Index = None\<rparr>"

definition kill_request :: api_request where
  "kill_request = \<lparr>rq_Method = ''POST'', rq_Path = [''api'', ''killswitch''], rq_Authorization = ''Bearer t0k3n'',
     rq_IdempotencyKey = ''k1'', rq_Code = ''s3cret'', rq_Body = quoted ''{^reason^:^leak^}''\<rparr>"

definition ks_close_pool :: "ks_world close_pool" where
  "ks_close_pool = \<lparr>cl_Begin = (\<lambda>w. (None, w)), cl_Exec = (\<lambda>s w. (None, w)), cl_Commit = (\<lambda>w. (None, w)), cl_Rollback = (\<lambda>w. w)\<rparr>"

definition ks_settings_pool :: "ks_world settings_pool" where
  "ks_settings_pool = \<lparr>sp_Select = (\<lambda>w. (Inl DbNoRows, w)), sp_Insert = (\<lambda>j w. (Inr 1, w)), sp_Update = (\<lambda>j v' v w. (Inr 0, w))\<rparr>"

theorem kill_switch_endpoint_witness:
  "\<exists>s' h' (w' :: ks_world). ServeHTTP (server_api example_server (locks_repo kw_pool) kw_env kw_insert ks_settings_pool ks_close_pool (\<lambda>w. (Some 0, w)))
       kill_request \<lparr>sv_Sessions = example_sessions, sv_Idem = {}, sv_World = (NewHalter False True, example_ks)\<rparr> = (Reply 200 DocHalted, s')
     \<and> sv_World s' = (h', w') \<and> fst (IsHalted h') \<and> \<not> active (cs_rows (kw_keys w')) (ownerUserID, ''okx'', ''trade'')"
proof -
  let ?A = "server_api example_server (locks_repo kw_pool) kw_env kw_insert ks_settings_pool ks_close_pool (\<lambda>w. (Some 0, w))"
  let ?s = "\<lparr>sv_Sessions = example_sessions, sv_Idem = {}, sv_World = (NewHalter False True, example_ks)\<rparr>"
  obtain out h1 w1 where k: "KillSwitch (locks_repo kw_pool) kw_env kw_insert ''user:miniapp'' ''leak'' (NewHalter False True) example_ks = (([], out), h1, w1)"
    using example_killed by blast
  have token: "extractBearerToken (rq_Authorization kill_request) = ''t0k3n''" by code_simp
  have now: "ap_Now ?A (sv_World ?s) = 7" by (simp add: server_api_def NewHandler_def kw_env_def)
  have auth: "authMiddleware ?A kill_request ?s = Inr 42"
    by (simp only: authMiddleware_def token now Let_def) (simp add: SS_Validate_def example_sessions_def)
  obtain s1 where idem: "idemMiddleware KillSwitchEngage kill_request ?s = (None, s1)" and w: "sv_World s1 = (NewHalter False True, example_ks)"
    by (simp add: idemMiddleware_def Seen_def kill_request_def)
  have code: "twoFactorMiddleware ?A KillSwitchEngage 42 kill_request (NewHalter False True, example_ks) = (None, (NewHalter False True, example_ks))"
    by (simp add: twoFactorMiddleware_def secret_verifier_def secret_Verify_eq example_server_def kill_request_def)
  have "(case decode_first (ShStruct [(''reason'', ShStr)]) (rq_Body kill_request) of None \<Rightarrow> False | Some j \<Rightarrow> js_str j ''reason'' = ''leak'')"
    by code_simp
  moreover have "length (rq_Body kill_request) \<le> max_body" by (simp add: kill_request_def quoted_def max_body_def)
  ultimately obtain j where j: "decodeJSON (ShStruct [(''reason'', ShStr)]) (rq_Body kill_request) = Some j" "js_str j ''reason'' = ''leak''"
    by (auto simp: decodeJSON_def split: option.splits)
  have run: "run_handler ?A KillSwitchEngage (rq_Body kill_request) (NewHalter False True, example_ks) = (Reply 200 DocHalted, (h1, w1))"
    using k by (simp add: handleKillSwitchEngage_def j db_killswitch_def KS_Engage_def)
  have route: "route_of (rq_Method kill_request) (rq_Path kill_request) = Some KillSwitchEngage" by (simp add: kill_request_def route_of_def)
  have serve: "ServeHTTP ?A kill_request ?s = (Reply 200 DocHalted, s1\<lparr>sv_World := (h1, w1)\<rparr>)"
    by (simp add: ServeHTTP_def route auth idem w admitted_def code run del: run_handler.simps)
  from kill_switch_endpoint [OF kw_emergency _ _ serve, of h1 w1]
  have "fst (IsHalted h1)" "\<not> active (cs_rows (kw_keys w1)) (ownerUserID, ''okx'', ''trade'')" by (simp_all add: kill_request_def)
  then show ?thesis using serve by auto
qed

end
