(* ===== verification/Config.thy ===== *)
theory Config
  imports GoJson Domain
begin

text \<open>
  Package \<open>internal/config\<close>: the process configuration read from the environment, the settings of the strategy with their
  validation, and the store that swaps them.

  A file of the environment is a function of the variable names.  Warnings are their codes.  \<open>time.ParseDuration\<close> is
  modelled with its overflow checks; the floating-point product of a decimal fraction and its unit is the parameter \<open>fl\<close>.
\<close>

section \<open>Durations\<close>

definition top :: nat where "top = 2 ^ 63"

text \<open>\<open>leadingInt\<close>: the value of the leading digits, unless it passes two to the 63.\<close>

fun leading_int :: "nat \<Rightarrow> string \<Rightarrow> (nat \<times> string) option" where
  "leading_int x (c # s) =
     (if \<not> is_digit c then Some (x, c # s)
      else if x > top div 10 then None
      else if x * 10 + digit_val c > top then None else leading_int (x * 10 + digit_val c) s)"
| "leading_int x [] = Some (x, [])"

text \<open>\<open>leadingFraction\<close>: the digits, as far as they fit, and how many those are; further digits are skipped.\<close>

fun leading_fraction :: "nat \<Rightarrow> nat \<Rightarrow> bool \<Rightarrow> string \<Rightarrow> nat \<times> nat \<times> string" where
  "leading_fraction x k full (c # s) =
     (if \<not> is_digit c then (x, k, c # s)
      else if full \<or> x > (top - 1) div 10 \<or> x * 10 + digit_val c > top then leading_fraction x k True s
      else leading_fraction (x * 10 + digit_val c) (Suc k) False s)"
| "leading_fraction x k full [] = (x, k, [])"

definition unit_of :: "string \<Rightarrow> nat option" where
  "unit_of u = map_of [(''ns'', 1), (''us'', 10 ^ 3), (''ms'', 10 ^ 6), (''s'', 10 ^ 9), (''m'', 60 * 10 ^ 9), (''h'', 3600 * 10 ^ 9),
     (map char_of [194, 181, 115 :: nat], 10 ^ 3), (map char_of [206, 188, 115 :: nat], 10 ^ 3)] u"

lemma leading_int_length: "leading_int x s = Some (v, r) \<Longrightarrow> length r \<le> length s"
  by (induction x s rule: leading_int.induct) (auto split: if_splits)

lemma leading_fraction_length: "leading_fraction x k full s = (f, n, r) \<Longrightarrow> length r \<le> length s"
  by (induction x k full s rule: leading_fraction.induct) (auto split: if_splits)

text \<open>The fraction after a point, whether it had digits, and the unit.\<close>

definition fraction_part :: "string \<Rightarrow> nat \<times> nat \<times> string \<times> bool" where
  "fraction_part s = (case s of
     c # r \<Rightarrow> if c = CHR ''.'' then (case leading_fraction 0 0 False r of (f, k, z) \<Rightarrow> (f, k, z, length z \<noteq> length r)) else (0, 0, s, False)
   | [] \<Rightarrow> (0, 0, s, False))"

definition unit_text :: "string \<Rightarrow> string" where
  "unit_text s = takeWhile (\<lambda>c. c \<noteq> CHR ''.'' \<and> \<not> is_digit c) s"

lemma fraction_part_length:
  assumes "fraction_part s = (f, k, r, post)"
  shows "length r \<le> length s"
proof (cases s)
  case (Cons c z)
  obtain f' k' r' where l: "leading_fraction 0 0 False z = (f', k', r')" by (metis surj_pair)
  show ?thesis using assms leading_fraction_length [OF l] by (auto simp: fraction_part_def Cons l split: if_splits)
qed (use assms in \<open>simp add: fraction_part_def\<close>)

text \<open>One number with its unit; \<open>fl f k unit\<close> is the fraction \<open>f\<close> of \<open>k\<close> digits times the unit, as floating point gives it.\<close>

definition duration_part :: "(nat \<Rightarrow> nat \<Rightarrow> nat \<Rightarrow> nat) \<Rightarrow> string \<Rightarrow> (nat \<times> string) option" where
  "duration_part fl s =
     (if s = [] \<or> (hd s \<noteq> CHR ''.'' \<and> \<not> is_digit (hd s)) then None
      else (case leading_int 0 s of
        None \<Rightarrow> None
      | Some (v, s1) \<Rightarrow> (case fraction_part s1 of (f, k, s2, post) \<Rightarrow>
          if (length s1 = length s \<and> \<not> post) \<or> unit_text s2 = [] then None
          else (case unit_of (unit_text s2) of
             None \<Rightarrow> None
           | Some unit \<Rightarrow>
               if v > top div unit then None
               else if f > 0 \<and> v * unit + fl f k unit > top then None
               else Some (v * unit + (if f > 0 then fl f k unit else 0), drop (length (unit_text s2)) s2)))))"

lemma duration_part_shorter:
  assumes "duration_part fl s = Some (v, r)"
  shows "length r < length s"
proof -
  obtain v1 s1 where li: "leading_int 0 s = Some (v1, s1)"
    using assms by (cases "leading_int 0 s") (auto simp: duration_part_def split: if_splits)
  obtain f k s2 post where fr: "fraction_part s1 = (f, k, s2, post)" by (metis prod_cases4)
  have r: "r = drop (length (unit_text s2)) s2" "unit_text s2 \<noteq> []"
    using assms by (auto simp: duration_part_def li fr split: if_splits option.splits)
  have "length (unit_text s2) \<le> length s2" by (simp add: unit_text_def length_takeWhile_le)
  then show ?thesis using r fraction_part_length [OF fr] leading_int_length [OF li] by (cases "unit_text s2") auto
qed

function duration_sum :: "(nat \<Rightarrow> nat \<Rightarrow> nat \<Rightarrow> nat) \<Rightarrow> nat \<Rightarrow> string \<Rightarrow> nat option" where
  "duration_sum fl d s =
     (if s = [] then Some d
      else (case duration_part fl s of
              None \<Rightarrow> None
            | Some (v, r) \<Rightarrow> if d + v > top then None else duration_sum fl (d + v) r))"
  by auto

termination
  by (relation "measure (\<lambda>(fl, d, s). length s)") (auto dest: duration_part_shorter)

declare duration_sum.simps [simp del]

definition ParseDuration :: "(nat \<Rightarrow> nat \<Rightarrow> nat \<Rightarrow> nat) \<Rightarrow> string \<Rightarrow> duration option" where
  "ParseDuration fl s0 =
     (let (neg, s) = (case s0 of c # r \<Rightarrow> if c = CHR ''-'' then (True, r) else if c = CHR ''+'' then (False, r) else (False, s0)
                      | [] \<Rightarrow> (False, [])) in
      if s = ''0'' then Some 0
      else if s = [] then None
      else (case duration_sum fl 0 s of
              None \<Rightarrow> None
            | Some d \<Rightarrow> if neg then Some (i64 (- int d)) else if d > top - 1 then None else Some (int d)))"

section \<open>The process configuration\<close>

record ColdConfig =
  cc_HTTPAddr :: string
  cc_PublicBaseURL :: string
  cc_DBDSN :: string
  cc_DBMaxOpenConns :: int
  cc_DBMaxIdleConns :: int
  cc_MasterKeyEnv :: string
  cc_KMSProvider :: string
  cc_NTPServers :: "string list"
  cc_MaxClockOffsetMs :: int
  cc_ClockSyncInterval :: duration
  cc_PrometheusAddr :: string
  cc_OTLPEndpoint :: string
  cc_ShutdownTimeout :: duration
  cc_LogLevel :: string
  cc_RunMode :: string

datatype config_error =
    BadInteger string | BadDuration string | DSNMissing | RunModeUnknown | OffsetNotPositive | KMSUnknown | IdleAboveOpen
  | ShutdownNotPositive | IntervalNotPositive

text \<open>The text before the first occurrence of two characters.\<close>

fun cut_comment :: "char \<Rightarrow> string \<Rightarrow> string" where
  "cut_comment a (x # y # s) = (if x = a \<and> y = CHR ''#'' then [] else x # cut_comment a (y # s))"
| "cut_comment a s = s"

definition envStr :: "(string \<Rightarrow> string option) \<Rightarrow> string \<Rightarrow> string \<Rightarrow> string" where
  "envStr getenv k d = (case getenv k of
     None \<Rightarrow> d | Some v \<Rightarrow> trim_space (cut_comment (char_of (9 :: nat)) (cut_comment CHR '' '' v)))"

definition envInt :: "(string \<Rightarrow> string option) \<Rightarrow> string \<Rightarrow> int \<Rightarrow> config_error + int" where
  "envInt getenv k d = (case getenv k of
     None \<Rightarrow> Inr d | Some v \<Rightarrow> (case ParseInt v of (n, ok) \<Rightarrow> if ok then Inr n else Inl (BadInteger k)))"

definition envDur :: "(nat \<Rightarrow> nat \<Rightarrow> nat \<Rightarrow> nat) \<Rightarrow> (string \<Rightarrow> string option) \<Rightarrow> string \<Rightarrow> duration \<Rightarrow> config_error + duration" where
  "envDur fl getenv k d = (case getenv k of
     None \<Rightarrow> Inr d | Some v \<Rightarrow> (case ParseDuration fl v of None \<Rightarrow> Inl (BadDuration k) | Some p \<Rightarrow> Inr p))"

definition cold_validate :: "ColdConfig \<Rightarrow> config_error option" where
  "cold_validate c =
     (if cc_DBDSN c = [] then Some DSNMissing
      else if cc_RunMode c \<notin> set [''dry_run'', ''paper'', ''testnet'', ''live''] then Some RunModeUnknown
      else if cc_MaxClockOffsetMs c \<le> 0 then Some OffsetNotPositive
      else if cc_KMSProvider c \<noteq> ''env'' \<and> cc_KMSProvider c \<noteq> ''aws'' \<and> cc_KMSProvider c \<noteq> ''gcp'' then Some KMSUnknown
      else if cc_DBMaxIdleConns c > cc_DBMaxOpenConns c then Some IdleAboveOpen
      else if cc_ShutdownTimeout c \<le> 0 then Some ShutdownNotPositive
      else if cc_ClockSyncInterval c \<le> 0 then Some IntervalNotPositive else None)"

definition cold_of ::
  "(string \<Rightarrow> string option) \<Rightarrow> int \<Rightarrow> int \<Rightarrow> int \<Rightarrow> duration \<Rightarrow> duration \<Rightarrow> ColdConfig" where
  "cold_of getenv openConns idleConns offset interval shutdown = \<lparr>
     cc_HTTPAddr = envStr getenv ''HTTP_ADDR'' '':8080'', cc_PublicBaseURL = envStr getenv ''PUBLIC_BASE_URL'' [],
     cc_DBDSN = envStr getenv ''DATABASE_URL'' [], cc_DBMaxOpenConns = openConns, cc_DBMaxIdleConns = idleConns,
     cc_MasterKeyEnv = envStr getenv ''MASTER_KEY_ENV'' ''MASTER_KEY'', cc_KMSProvider = envStr getenv ''KMS_PROVIDER'' ''env'',
     cc_NTPServers = split_on CHR '','' (envStr getenv ''NTP_SERVERS'' ''pool.ntp.org''), cc_MaxClockOffsetMs = offset,
     cc_ClockSyncInterval = interval, cc_PrometheusAddr = envStr getenv ''PROM_ADDR'' '':9090'',
     cc_OTLPEndpoint = envStr getenv ''OTLP_ENDPOINT'' [], cc_ShutdownTimeout = shutdown,
     cc_LogLevel = envStr getenv ''LOG_LEVEL'' ''info'', cc_RunMode = envStr getenv ''RUN_MODE'' ''dry_run''\<rparr>"

definition LoadCold :: "(nat \<Rightarrow> nat \<Rightarrow> nat \<Rightarrow> nat) \<Rightarrow> (string \<Rightarrow> string option) \<Rightarrow> config_error + ColdConfig" where
  "LoadCold fl getenv =
     (case envInt getenv ''DB_MAX_OPEN_CONNS'' 25 of Inl e \<Rightarrow> Inl e | Inr openConns \<Rightarrow>
     (case envInt getenv ''DB_MAX_IDLE_CONNS'' 5 of Inl e \<Rightarrow> Inl e | Inr idleConns \<Rightarrow>
     (case envInt getenv ''MAX_CLOCK_OFFSET_MS'' 500 of Inl e \<Rightarrow> Inl e | Inr offset \<Rightarrow>
     (case envDur fl getenv ''CLOCK_SYNC_INTERVAL'' (30 * Second) of Inl e \<Rightarrow> Inl e | Inr interval \<Rightarrow>
     (case envDur fl getenv ''SHUTDOWN_TIMEOUT'' (30 * Second) of Inl e \<Rightarrow> Inl e | Inr shutdown \<Rightarrow>
       (let c = cold_of getenv openConns idleConns offset interval shutdown in
        case cold_validate c of Some e \<Rightarrow> Inl e | None \<Rightarrow> Inr c))))))"

section \<open>The settings of the strategy\<close>

record HotSettings =
  hs_Version :: int
  hs_FundingSearchMode :: string
  hs_RequireAlignedFundingTimes :: bool
  hs_MinExpectedNetPnLUSDT :: decimal
  hs_MinConfidenceLevel :: ConfidenceLevel
  hs_MinSecondsBeforeFundingToEnter :: int
  hs_RequireBacktestPass :: bool
  hs_Leverage :: decimal
  hs_MarginMode :: MarginMode
  hs_PositionMode :: PositionMode
  hs_MaxDailyLossUSDT :: decimal
  hs_MaxPositionLossUSDT :: decimal
  hs_RiskSnapAfterMaxDailyLoss :: bool
  hs_JointSlippageCapBps :: decimal
  hs_MaxExposurePerExchangeUSDT :: "ExchangeID \<rightharpoonup> decimal"
  hs_CounterpartyRiskTier :: "ExchangeID \<rightharpoonup> CounterpartyRiskTier"
  hs_ADLExposureLimitPercent :: "ExchangeID \<rightharpoonup> decimal"
  hs_DeltaToleranceBase :: decimal
  hs_DeltaToleranceUSD :: decimal
  hs_OrderMode :: OrderMode
  hs_AckTimeoutBehavior :: string
  hs_OrderAckTimeoutMs :: int
  hs_ExitIfADLDetected :: bool
  hs_ExitIfFundingSignChanges :: bool
  hs_RebalanceEnabled :: bool
  hs_WithdrawalFeeCapUSDT :: decimal
  hs_WithdrawalFailureThreshold :: int
  hs_DepositGracePeriodMs :: int

definition Defaults :: HotSettings where
  "Defaults = \<lparr>hs_Version = 0, hs_FundingSearchMode = ''SAME_INTERVAL'', hs_RequireAlignedFundingTimes = True,
     hs_MinExpectedNetPnLUSDT = 1, hs_MinConfidenceLevel = ConfidenceMedium, hs_MinSecondsBeforeFundingToEnter = 30,
     hs_RequireBacktestPass = True, hs_Leverage = 2, hs_MarginMode = MarginIsolated, hs_PositionMode = PositionOneWay,
     hs_MaxDailyLossUSDT = 0, hs_MaxPositionLossUSDT = 0, hs_RiskSnapAfterMaxDailyLoss = True, hs_JointSlippageCapBps = 20,
     hs_MaxExposurePerExchangeUSDT = Map.empty, hs_CounterpartyRiskTier = Map.empty, hs_ADLExposureLimitPercent = Map.empty,
     hs_DeltaToleranceBase = 0, hs_DeltaToleranceUSD = 0, hs_OrderMode = OrderMarketableLimitIOC,
     hs_AckTimeoutBehavior = ''QUERY_THEN_DECIDE'', hs_OrderAckTimeoutMs = 3000, hs_ExitIfADLDetected = True,
     hs_ExitIfFundingSignChanges = True, hs_RebalanceEnabled = False, hs_WithdrawalFeeCapUSDT = 0,
     hs_WithdrawalFailureThreshold = 3, hs_DepositGracePeriodMs = 30 * 60 * 1000\<rparr>"

datatype hot_error =
    BadTimings | BadAckBehavior | LeverageNotPositive | NegativeDailyLoss | NegativePositionLoss | UnknownMarginMode
  | UnknownPositionMode | StaleVersion int int

definition hot_warnings :: "HotSettings \<Rightarrow> string list" where
  "hot_warnings h =
     (if hs_OrderMode h = OrderMarket then [''MARKET_MODE''] else [])
     @ (if \<not> hs_RiskSnapAfterMaxDailyLoss h then [''NO_RISK_SNAP''] else [])
     @ (if \<not> hs_RequireBacktestPass h then [''NO_BACKTEST''] else [])
     @ (if hs_MinSecondsBeforeFundingToEnter h < 5 then [''LATE_ENTRY''] else [])
     @ (if hs_MaxDailyLossUSDT h = 0 then [''NO_DAILY_STOP''] else [])
     @ (if hs_Leverage h > 20 then [''HIGH_LEVERAGE''] else [])"

definition Hot_Validate :: "HotSettings \<Rightarrow> hot_error + string list" where
  "Hot_Validate h =
     (if hs_MinSecondsBeforeFundingToEnter h < 0 \<or> hs_OrderAckTimeoutMs h \<le> 0 then Inl BadTimings
      else if hs_AckTimeoutBehavior h \<noteq> ''QUERY_THEN_DECIDE'' then Inl BadAckBehavior
      else if \<not> hs_Leverage h > 0 then Inl LeverageNotPositive
      else if hs_MaxDailyLossUSDT h < 0 then Inl NegativeDailyLoss
      else if hs_MaxPositionLossUSDT h < 0 then Inl NegativePositionLoss
      else if hs_MarginMode h \<noteq> MarginIsolated \<and> hs_MarginMode h \<noteq> MarginCross then Inl UnknownMarginMode
      else if hs_PositionMode h \<noteq> PositionOneWay \<and> hs_PositionMode h \<noteq> PositionHedge then Inl UnknownPositionMode
      else Inr (hot_warnings h))"

section \<open>The store\<close>

text \<open>The pointer of the store; a \<open>Swap\<close> loads it once and stores it once.\<close>

definition NewStore :: "HotSettings \<Rightarrow> hot_error + HotSettings option \<times> string list" where
  "NewStore initial = (case Hot_Validate initial of Inl e \<Rightarrow> Inl e | Inr w \<Rightarrow> Inr (Some initial, w))"

definition swap_check :: "HotSettings option \<Rightarrow> HotSettings \<Rightarrow> hot_error + string list" where
  "swap_check cur next_settings = (case Hot_Validate next_settings of
     Inl e \<Rightarrow> Inl e
   | Inr w \<Rightarrow> (case cur of
       None \<Rightarrow> Inr w
     | Some c \<Rightarrow> if hs_Version next_settings \<le> hs_Version c then Inl (StaleVersion (hs_Version next_settings) (hs_Version c)) else Inr w))"

definition Store_Swap :: "HotSettings \<Rightarrow> HotSettings option \<Rightarrow> (hot_error + string list) \<times> HotSettings option" where
  "Store_Swap next_settings cur = (case swap_check cur next_settings of
     Inl e \<Rightarrow> (Inl e, cur) | Inr w \<Rightarrow> (Inr w, Some next_settings))"

text \<open>Swaps of several goroutines: each checks against the snapshot it loads and stores later.\<close>

datatype swap_phase = Checking | Storing | Swapped bool

record swap_conf =
  sw_Current :: "HotSettings option"
  sw_Threads :: "nat \<rightharpoonup> HotSettings \<times> swap_phase"

inductive swap_step :: "swap_conf \<Rightarrow> swap_conf \<Rightarrow> bool" where
  call: "sw_Threads c i = None \<Longrightarrow> swap_step c (c\<lparr>sw_Threads := (sw_Threads c)(i \<mapsto> (n, Checking))\<rparr>)"
| turn_down: "sw_Threads c i = Some (n, Checking) \<Longrightarrow> swap_check (sw_Current c) n = Inl e
    \<Longrightarrow> swap_step c (c\<lparr>sw_Threads := (sw_Threads c)(i \<mapsto> (n, Swapped False))\<rparr>)"
| check: "sw_Threads c i = Some (n, Checking) \<Longrightarrow> swap_check (sw_Current c) n = Inr w
    \<Longrightarrow> swap_step c (c\<lparr>sw_Threads := (sw_Threads c)(i \<mapsto> (n, Storing))\<rparr>)"
| store: "sw_Threads c i = Some (n, Storing)
    \<Longrightarrow> swap_step c (c\<lparr>sw_Current := Some n, sw_Threads := (sw_Threads c)(i \<mapsto> (n, Swapped True))\<rparr>)"

definition sound_settings :: "HotSettings \<Rightarrow> bool" where
  "sound_settings h \<longleftrightarrow> hs_Leverage h > 0 \<and> hs_MaxDailyLossUSDT h \<ge> 0 \<and> hs_MaxPositionLossUSDT h \<ge> 0
     \<and> hs_OrderAckTimeoutMs h > 0 \<and> hs_MinSecondsBeforeFundingToEnter h \<ge> 0 \<and> hs_AckTimeoutBehavior h = ''QUERY_THEN_DECIDE''
     \<and> hs_MarginMode h \<in> {MarginIsolated, MarginCross} \<and> hs_PositionMode h \<in> {PositionOneWay, PositionHedge}"

lemma validated_sound: "Hot_Validate h = Inr w \<longleftrightarrow> sound_settings h \<and> w = hot_warnings h"
  by (auto simp: Hot_Validate_def sound_settings_def split: if_splits)

lemma swap_check_valid: "swap_check cur n = Inr w \<Longrightarrow> sound_settings n"
  using validated_sound [of n] by (auto simp: swap_check_def split: sum.splits)

definition swap_inv :: "HotSettings \<Rightarrow> swap_conf \<Rightarrow> bool" where
  "swap_inv h0 c \<longleftrightarrow> (\<exists>h. sw_Current c = Some h \<and> sound_settings h \<and> (h = h0 \<or> (\<exists>i. sw_Threads c i = Some (h, Swapped True))))
     \<and> (\<forall>i n. sw_Threads c i = Some (n, Storing) \<or> sw_Threads c i = Some (n, Swapped True) \<longrightarrow> sound_settings n)"

lemma swap_inv_step:
  assumes "swap_step c c'" and "swap_inv h0 c"
  shows "swap_inv h0 c'"
proof -
  obtain h where h: "sw_Current c = Some h" "sound_settings h" "h = h0 \<or> (\<exists>j. sw_Threads c j = Some (h, Swapped True))"
    and t: "\<forall>i n. sw_Threads c i = Some (n, Storing) \<or> sw_Threads c i = Some (n, Swapped True) \<longrightarrow> sound_settings n"
    using assms(2) by (auto simp: swap_inv_def)
  have keep: "h = h0 \<or> (\<exists>j. ((sw_Threads c)(i \<mapsto> y)) j = Some (h, Swapped True))"
    if "sw_Threads c i = None \<or> (\<exists>n. sw_Threads c i = Some (n, Checking))" for i y
  proof (cases "h = h0")
    case False
    then obtain j where "sw_Threads c j = Some (h, Swapped True)" using h(3) by blast
    moreover from this have "j \<noteq> i" using that by auto
    ultimately have "((sw_Threads c)(i \<mapsto> y)) j = Some (h, Swapped True)" by simp
    then show ?thesis by blast
  qed simp
  show ?thesis using assms(1)
  proof cases
    case (call i n)
    then show ?thesis using h keep [of i "(n, Checking)"] t by (auto simp: swap_inv_def)
  next
    case (turn_down i n e)
    then show ?thesis using h keep [of i "(n, Swapped False)"] t by (auto simp: swap_inv_def)
  next
    case (check i n w)
    then show ?thesis using h keep [of i "(n, Storing)"] t swap_check_valid [OF check(3)] by (auto simp: swap_inv_def)
  next
    case (store i n)
    then show ?thesis using t by (auto simp: swap_inv_def)
  qed
qed

text \<open>
  C40: whatever goroutines swap settings at the same time, a reader of the store sees at every moment one whole
  snapshot, the initial one or one whose Swap succeeded, and it is sound: positive leverage, no negative loss limit, positive
  acknowledgement timeout, known modes and the only acknowledgement behaviour there is.
\<close>

theorem settings_always_sound:
  assumes "NewStore h0 = Inr (p, ws)" and "swap_step\<^sup>*\<^sup>* \<lparr>sw_Current = p, sw_Threads = Map.empty\<rparr> c"
  shows "\<exists>h. sw_Current c = Some h \<and> sound_settings h \<and> (h = h0 \<or> (\<exists>i. sw_Threads c i = Some (h, Swapped True)))"
proof -
  have p: "p = Some h0" "sound_settings h0" using assms(1) validated_sound [of h0] by (auto simp: NewStore_def split: sum.splits)
  have "swap_inv h0 c" using assms(2)
  proof induction
    case base
    then show ?case using p by (simp add: swap_inv_def)
  qed (rule swap_inv_step)
  then show ?thesis by (auto simp: swap_inv_def)
qed

text \<open>Alone, a swap only goes forward.\<close>

lemma swap_alone:
  "Store_Swap n (Some c) = (r, Some c') \<Longrightarrow> c' = c \<or> (c' = n \<and> sound_settings n \<and> hs_Version c < hs_Version c')"
  using validated_sound [of n] by (auto simp: Store_Swap_def swap_check_def split: sum.splits if_splits)

text \<open>
  two swaps at the same time can take the store back: both are checked against the version they load, and the
  one with the lower version may store last. Both report success, and the version is lower than one that was current before.
\<close>

theorem settings_can_go_back:
  "\<exists>c1 c2. swap_step\<^sup>*\<^sup>* \<lparr>sw_Current = Some Defaults, sw_Threads = Map.empty\<rparr> c1 \<and> swap_step\<^sup>*\<^sup>* c1 c2
     \<and> (\<exists>h1 h2. sw_Current c1 = Some h1 \<and> sw_Current c2 = Some h2 \<and> hs_Version h2 < hs_Version h1)
     \<and> (\<forall>i n b. sw_Threads c2 i = Some (n, Swapped b) \<longrightarrow> b)"
proof -
  let ?a = "Defaults\<lparr>hs_Version := 1\<rparr>" let ?b = "Defaults\<lparr>hs_Version := 2\<rparr>"
  let ?c = "\<lambda>cur p q. \<lparr>sw_Current = Some cur, sw_Threads = [0 \<mapsto> (?a, p), 1 \<mapsto> (?b, q)]\<rparr> :: swap_conf"
  have swap: "f(Suc 0 \<mapsto> y, 0 \<mapsto> x) = f(0 \<mapsto> x, Suc 0 \<mapsto> y)" for f :: "nat \<rightharpoonup> HotSettings \<times> swap_phase" and x y
    by (auto simp: fun_eq_iff)
  have ok: "\<exists>w. swap_check (Some Defaults) ?a = Inr w" "\<exists>w. swap_check (Some Defaults) ?b = Inr w"
    by (simp_all add: swap_check_def Hot_Validate_def Defaults_def)
  let ?s0 = "\<lparr>sw_Current = Some Defaults, sw_Threads = Map.empty\<rparr> :: swap_conf"
  let ?s1 = "\<lparr>sw_Current = Some Defaults, sw_Threads = [0 \<mapsto> (?a, Checking)]\<rparr> :: swap_conf"
  have s1: "swap_step ?s0 ?s1" using swap_step.call [of ?s0 0 ?a] by simp
  have s2: "swap_step ?s1 (?c Defaults Checking Checking)" using swap_step.call [of ?s1 1 ?b] by simp
  have s3: "swap_step (?c Defaults Checking Checking) (?c Defaults Storing Checking)"
    using swap_step.check [of "?c Defaults Checking Checking" 0 ?a] ok(1) by (auto simp: swap)
  have s4: "swap_step (?c Defaults Storing Checking) (?c Defaults Storing Storing)"
    using swap_step.check [of "?c Defaults Storing Checking" 1 ?b] ok(2) by (auto simp: swap)
  have s5: "swap_step (?c Defaults Storing Storing) (?c ?b Storing (Swapped True))"
    using swap_step.store [of "?c Defaults Storing Storing" 1 ?b] by (simp add: swap)
  have s6: "swap_step (?c ?b Storing (Swapped True)) (?c ?a (Swapped True) (Swapped True))"
    using swap_step.store [of "?c ?b Storing (Swapped True)" 0 ?a] by (simp add: swap)
  have "swap_step\<^sup>*\<^sup>* ?s0 (?c ?b Storing (Swapped True))"
    using s1 s2 s3 s4 s5 by (meson rtranclp.rtrancl_into_rtrancl rtranclp.rtrancl_refl)
  moreover have "swap_step\<^sup>*\<^sup>* (?c ?b Storing (Swapped True)) (?c ?a (Swapped True) (Swapped True))" using s6 by blast
  ultimately show ?thesis
    by (intro exI [of _ "?c ?b Storing (Swapped True)"] exI [of _ "?c ?a (Swapped True) (Swapped True)"]) (auto split: if_splits)
qed

theorem settings_always_sound_witness:
  "\<exists>c. swap_step\<^sup>*\<^sup>* \<lparr>sw_Current = Some Defaults, sw_Threads = Map.empty\<rparr> c \<and> (\<exists>h. sw_Current c = Some h \<and> sound_settings h)
     \<and> sw_Threads c 0 = Some (Defaults, Checking)"
proof -
  let ?s0 = "\<lparr>sw_Current = Some Defaults, sw_Threads = Map.empty\<rparr> :: swap_conf"
  have n: "\<exists>ws. NewStore Defaults = Inr (Some Defaults, ws)" by (simp add: NewStore_def Hot_Validate_def Defaults_def)
  have s: "swap_step\<^sup>*\<^sup>* ?s0 (?s0\<lparr>sw_Threads := [0 \<mapsto> (Defaults, Checking)]\<rparr>)" using swap_step.call [of ?s0 0 Defaults] by simp
  from n obtain ws where "NewStore Defaults = Inr (Some Defaults, ws)" by blast
  from settings_always_sound [OF this s] s show ?thesis by (intro exI [of _ "?s0\<lparr>sw_Threads := [0 \<mapsto> (Defaults, Checking)]\<rparr>"]) auto
qed

end
