(* ===== verification/Spec2Isabelle.thy ===== *)
theory Spec2Isabelle
  imports Fixed64 Orderbook Strategy Risk Registry Cache Scanner Allocation Portfolio ClientOrderId
    MockExchange OrderExecutor Repair CloseLegs CandidVenue Lifecycle RebalanceExec Engine EngineOrders
    Restart BinanceVenue LiveWiring TelegramAuth CloseRequest TelegramApi Config
begin

text \<open>
  A verification of the core of fandos, a service that opens delta-neutral pairs of perpetual futures on two exchanges to collect
  the difference of their funding rates.  All paths below are relative to \<open>fandos1/\<close>, the root of the Go module.

  THE PROGRAM.  Two processes share one PostgreSQL database.  \<open>cmd/worker\<close> trades: it keeps a registry of instruments and a
  cache of market snapshots, and on every tick of the engine (\<open>internal/engine\<close>) first looks after the open positions and then,
  when it may open, scans all pairs of exchanges for candidates and opens the best one with an order on each exchange.
  \<open>cmd/server\<close> answers the Mini App of the operator: positions, settings, keys, manual closes, the kill switch.  The server
  reaches the worker through the database alone, by the outbox of close requests and by the SAFE_HALT lock the worker reads at its start.

  THE THEORIES, bottom up.
  \<^item> \<open>Prelude\<close>, \<open>GoLib\<close>: conventions, shared lemmas, 64-bit wrap-around, truncating division, time, strings of bytes.
    \<open>GoJson\<close>, \<open>GoEncode\<close>, \<open>GoUrl\<close>, \<open>GoCrypto\<close>, \<open>GoAead\<close>: the parts of the standard library the program uses (reading and
    writing JSON, base64, query strings, SHA-256, HMAC, AES-GCM), executable and proved to be what the program relies on
    (decoding inverts encoding, opening inverts sealing).
  \<^item> Data: \<open>Decimal\<close>, \<open>Fixed64\<close> (\<open>internal/decimal\<close>), \<open>Domain\<close> (\<open>internal/domain\<close>).
  \<^item> Choosing trades: \<open>Orderbook\<close>, \<open>Strategy\<close>, \<open>Risk\<close>, \<open>Registry\<close> (\<open>internal/instrument\<close>), \<open>Cache\<close>
    (\<open>internal/marketdata/cache.go\<close>), \<open>Scanner\<close>, \<open>Allocation\<close>.
  \<^item> Positions: \<open>Fsm\<close>, the contract of a transition table, and \<open>Portfolio\<close> (\<open>internal/portfolio\<close>).
  \<^item> Orders: \<open>Adapter\<close> (\<open>internal/exchange/adapter.go\<close>), \<open>MockExchange\<close>, \<open>ClientOrderId\<close>, \<open>OrderExecutor\<close>, \<open>Repair\<close>,
    \<open>CloseLegs\<close> (\<open>internal/execution\<close>) and \<open>CandidVenue\<close>, when their numbers are exact.
  \<^item> Live exchanges: \<open>HttpClient\<close>, \<open>Binance\<close>, \<open>BinanceVenue\<close> (\<open>internal/exchange/httpclient\<close>, \<open>internal/exchange/binance\<close>) and
    \<open>LiveWiring\<close> (\<open>internal/app/livewiring.go\<close>).
  \<^item> The engine (\<open>internal/engine/engine.go\<close>): \<open>EngineState\<close>, \<open>EngineOpen\<close>, \<open>EngineClose\<close>, \<open>Engine\<close> (the tick) with the lemmas of
    \<open>OpenHedge\<close> (what an opening leaves), \<open>EngineExit\<close> (what a close accounts for) and \<open>EngineOrders\<close> (which orders a tick may send).
  \<^item> The database: \<open>PositionRepo\<close>, \<open>LegsRepo\<close> (\<open>internal/repository\<close>), \<open>Restart\<close> (the engine restored from them), \<open>Outbox\<close>,
    \<open>CloseRequest\<close> (a manual close from the server to the engine).
  \<^item> Stopping: \<open>Lifecycle\<close> (SAFE_HALT, watchdog, supervisor), \<open>Credentials\<close> and \<open>KeyRotation\<close> (keys and kill switch).
  \<^item> Moving funds: \<open>CircuitBreaker\<close>, \<open>RebalancePlan\<close>, \<open>RebalanceExec\<close> (\<open>internal/rebalance\<close>).
  \<^item> The operator: \<open>TelegramAuth\<close> (init data, sessions), \<open>TelegramApi\<close> (\<open>internal/telegram/httpapi.go\<close> with the providers of
    \<open>internal/app\<close>), \<open>Config\<close> (\<open>internal/config\<close>).

  HOW THE MODEL CORRESPONDS TO THE CODE.  A struct is a record whose fields carry the Go names after a prefix, an enumeration a
  datatype (or, where other texts can occur, text), a method a definition of the same name.  A function that returns an error
  returns a sum or an optional error; a function that can panic returns None of an option; a call to the outside (database,
  exchange, network, clock, random source) is a field of a record of functions that take and return the world, so that every
  answer, every failure and every order of calls is covered.  Code behind a mutex is one step; code that unlocks in between is
  several steps of a step relation (\<open>pos_step\<close>, \<open>cache_step\<close>, \<open>halt_step\<close>, \<open>outbox_step\<close>, \<open>api_step\<close>, \<open>swap_step\<close>,
  \<open>engine_step\<close>), and the properties hold on every interleaving.  Decimals are rationals; the roundings of the package
  shopspring/decimal are the parameter \<open>sp_ops\<close> with its documented error bound.  Go's int is an integer with \<open>i64\<close> where it can
  wrap; Fixed64 works on 64-bit words.

  THE INTERFACES are locales, each interpreted on the model's own definitions: a transition table (\<open>Fsm\<close>), a venue (\<open>Adapter\<close>) and its
  stronger forms, honest (fills are not negative, \<open>CloseLegs\<close>) and candid (no order is filled beyond its size, and an acknowledged order can be
  queried, \<open>CandidVenue\<close>), the executors of an engine at candid venues (\<open>OpenHedge\<close>), what Binance documents (\<open>BinanceVenue\<close>;
  the adapter keeps the contract of a venue but for answers with an unknown outcome), the lock repository (\<open>Lifecycle\<close>), the stores of positions, legs, events, keys and settings, and
  the sole dispatcher of the outbox.  What a hypothesis of a property asks of PostgreSQL or of an exchange is one of these
  contracts; the witness of the property instantiates it with a concrete database or account.

  WHAT IS SHOWN.
  \<^item> Money: fixed-point results are exact or reported as overflow; the allocation and the rebalance planner keep their
    limits up to one division's rounding; a scan is sound and ranked, and looks at every pair.
  \<^item> Orders: an order is sent once, and what the executor says is what the venue recorded, but for a bare acknowledgement whose
    details could not be queried; closing orders only reduce, each by what is left; the legs a position is monitored with are never
    above what the venues hold, and exact unless the repair sent a reduce-only order; the first close of a position accounts for every fill; a halted engine sends nothing; identifiers parse
    back; requests that are not safe to repeat are not repeated; the limiter keeps its rate.
  \<^item> State: histories are paths of the transition table in every interleaving; the database has the history of a position exactly;
    a restart restores it; the engine's invariant holds for ever; requests to close are delivered and served.
  \<^item> Stopping: a persisted halt sticks until resumed, over crashes and restarts; the kill switch halts, revokes and blocks new
    processes; over the life of a plan one main transfer is sent at most.
  \<^item> The operator's side: only data signed by Telegram for an allowed user opens a session; a request runs at most once per key; keys
    are read as they were saved; settings are not overwritten unseen and are always sound in the store.
  Some lemmas show where a promise of the code ends, for instance
  \<open>repair_can_hide_a_gap\<close>, \<open>restart_abandons_legs\<close>, \<open>close_request_lost\<close>, \<open>restore_fails_open\<close>, \<open>binance_unknown_status\<close>,
  \<open>settings_conflict_unmapped\<close>, \<open>settings_can_go_back\<close>: they are theorems about the code as it is.

  BOUNDS AND FUEL.  Loops over lists are structural recursion, other loops \<open>function\<close>s with a measure.  The retries of the
  HTTP client and the requotes of the coordinated close recurse over the number the code bounds them by.  The two loops that may wait
  for ever, \<open>waitToken\<close> and \<open>waitConfirmation\<close>, are \<open>partial_function (option)\<close>, so that not to return is a value of its own, and
  \<open>waitToken_returns\<close> and \<open>wait_returns\<close> state when they do return.  Loops that are meant to run for ever are lists of their events
  (the supervisor), folds over the answers (the watchdog) or take the number of rounds (\<open>Outbox_Run\<close>, where \<open>outbox_drains\<close> gives
  a number that is enough for the events up to a moment: the attempts they have left, each after the longest backoff; later events,
  however many, do not delay them, because a round takes the oldest first).  Reading JSON takes
  the length of the text as the bound of its nesting, which no document exceeds.

  WHERE THE MODEL IS COARSER.  \<open>sort.Slice\<close> leaves the order of equal elements open; the model keeps it (\<open>SortByScheduledAt\<close>).
  Identifiers are upper-cased as ASCII (\<open>sanitizeComponent\<close>).  A halt and the engaging of its lock are one step (\<open>Halt\<close>).  One call of
  \<open>http.Client.Do\<close> is one request on the wire; the redirects it may follow are below the model (\<open>doOnce\<close>).  The condition of the versioned
  update of the settings is a law of the locale \<open>settings_table\<close>, like every SQL statement whose table is a parameter.

  NOT MODELLED.  The REST adapters of the six other exchanges repeat the scheme of the Binance adapter with other names of fields and
  are used through the same interface; their behaviour is the contract of a venue.  The websocket clients and
  \<open>ws_manager.go\<close> are socket I/O the worker does not start.  The bot and the notifier of Telegram call a remote API and format
  texts.  Clock synchronisation is a UDP exchange, and its effect, a halt, is an operation of \<open>Lifecycle\<close>.  The repositories of orders
  and instruments, health endpoints, logging and metrics only pass data on.  \<open>bootstrap.go\<close> and the two \<open>main.go\<close>
  construct the components; the parts of them that decide something are modelled where they matter (\<open>CloseRequest\<close>,
  \<open>KeyRotation\<close>, \<open>TelegramApi\<close>, \<open>Lifecycle\<close>).  Log lines and the texts of errors are not modelled, nor is memory beyond the
  sharing the step relations have.
\<close>

end
